(* ===== verification/Alr_Prelude.thy ===== *)
theory Alr_Prelude
  imports Main "HOL-Library.Word" "HOL-Library.Char_ord" "HOL-Library.List_Lexorder"
begin

text \<open>
  Shared vocabulary of the development: exceptions as values and the small result monad that
  threads them, the parts of \<^verbatim>\<open>std::string_view\<close> the sources use (find, substr, the
  delimiter-scanning loop), the ordered map \<^verbatim>\<open>std::map<std::string, std::string>\<close>, and
  the number printers behind \<^verbatim>\<open>std::ostringstream\<close>.  Strings are byte strings:
  a \<^typ>\<open>char\<close> is one byte, and \<^verbatim>\<open>std::string\<close> comparison is the byte-wise
  lexicographic order of \<^verbatim>\<open>HOL-Library.List_Lexorder\<close>.
\<close>

named_theorems res_simps \<open>evaluation of the result monad\<close>
named_theorems sv_simps \<open>string views and delimiter scanning\<close>
named_theorems smap_simps \<open>ordered string maps\<close>

section \<open>Exceptions and results\<close>

text \<open>The exception classes the sources throw; the message is what \<^verbatim>\<open>what()\<close> returns.\<close>

datatype error = InvalidArgument string | RuntimeError string | OutOfRange string

primrec what :: "error \<Rightarrow> string" where
  "what (InvalidArgument s) = s"
| "what (RuntimeError s) = s"
| "what (OutOfRange s) = s"

type_synonym 'a res = "error + 'a"

definition res_bind :: "'e + 'a \<Rightarrow> ('a \<Rightarrow> 'e + 'b) \<Rightarrow> 'e + 'b" where
  "res_bind m f = (case m of Inl e \<Rightarrow> Inl e | Inr a \<Rightarrow> f a)"

definition require :: "bool \<Rightarrow> error \<Rightarrow> unit res" where
  "require b e = (if b then Inr () else Inl e)"

primrec res_each :: "('a \<Rightarrow> unit res) \<Rightarrow> 'a list \<Rightarrow> unit res" where
  "res_each f [] = Inr ()"
| "res_each f (x # xs) = res_bind (f x) (\<lambda>_. res_each f xs)"

primrec res_map :: "('a \<Rightarrow> 'b res) \<Rightarrow> 'a list \<Rightarrow> 'b list res" where
  "res_map f [] = Inr []"
| "res_map f (x # xs) = res_bind (f x) (\<lambda>y. res_bind (res_map f xs) (\<lambda>ys. Inr (y # ys)))"

primrec res_fold :: "('a \<Rightarrow> 's \<Rightarrow> 'e + 's) \<Rightarrow> 'a list \<Rightarrow> 's \<Rightarrow> 'e + 's" where
  "res_fold f [] s = Inr s"
| "res_fold f (x # xs) s = res_bind (f x s) (\<lambda>s'. res_fold f xs s')"

lemma res_bind_Inl [simp, res_simps]: "res_bind (Inl e) f = Inl e"
  and res_bind_Inr [simp, res_simps]: "res_bind (Inr a) f = f a"
  by (simp_all add: res_bind_def)

lemma res_bind_eq_Inr [simp, res_simps]:
  "res_bind m f = Inr b \<longleftrightarrow> (\<exists>a. m = Inr a \<and> f a = Inr b)"
  by (cases m) auto

lemma res_bind_eq_Inl:
  "res_bind m f = Inl e \<longleftrightarrow> m = Inl e \<or> (\<exists>a. m = Inr a \<and> f a = Inl e)"
  by (cases m) auto

lemma if_Inl_eq_Inr [simp, res_simps]: "(if b then Inl e else m) = Inr x \<longleftrightarrow> \<not> b \<and> m = Inr x"
  by simp

lemma res_bind_assoc: "res_bind (res_bind m f) g = res_bind m (\<lambda>a. res_bind (f a) g)"
  by (cases m) auto

lemma require_Inr [simp, res_simps]: "require b e = Inr u \<longleftrightarrow> b"
  by (simp add: require_def)

lemma require_True [simp, res_simps]: "require True e = Inr ()"
  and require_False [simp, res_simps]: "require False e = Inl e"
  by (simp_all add: require_def)

lemma res_each_Inr [simp, res_simps]: "res_each f xs = Inr u \<longleftrightarrow> (\<forall>x\<in>set xs. f x = Inr ())"
  by (induction xs) auto

lemma res_map_Inr: "res_map f xs = Inr ys \<longleftrightarrow> list_all2 (\<lambda>x y. f x = Inr y) xs ys"
  by (induction xs arbitrary: ys) (auto simp: list_all2_Cons1)

lemma res_map_id: "(\<And>x. x \<in> set xs \<Longrightarrow> f x = Inr x) \<Longrightarrow> res_map f xs = Inr xs"
  by (induction xs) auto

lemma res_fold_append: "res_fold f (xs @ ys) s = res_bind (res_fold f xs s) (res_fold f ys)"
  by (induction xs arbitrary: s) (auto simp: res_bind_assoc)

section \<open>String views\<close>

abbreviation nul :: char where "nul \<equiv> CHR 0x00"
abbreviation nl :: string where "nl \<equiv> [CHR 0x0A]"
abbreviation tab :: string where "tab \<equiv> [CHR 0x09]"

abbreviation byte_of :: "char \<Rightarrow> nat" where "byte_of c \<equiv> of_char c"

text \<open>\<^verbatim>\<open>sv.find(c, pos)\<close>: the first position at or after \<open>pos\<close>; \<^const>\<open>None\<close> is \<open>npos\<close>.\<close>

definition sv_find :: "char \<Rightarrow> string \<Rightarrow> nat \<Rightarrow> nat option" where
  "sv_find c s pos =
     (if c \<in> set (drop pos s) then Some (pos + length (takeWhile (\<lambda>x. x \<noteq> c) (drop pos s)))
      else None)"

text \<open>\<^verbatim>\<open>sv.substr(pos, n)\<close> for \<open>pos \<le> size()\<close>, which every caller guarantees.\<close>

definition sv_substr :: "string \<Rightarrow> nat \<Rightarrow> nat \<Rightarrow> string" where
  "sv_substr s pos n = take n (drop pos s)"

text \<open>\<^verbatim>\<open>s.find(needle) != npos\<close>.\<close>

fun sv_contains :: "string \<Rightarrow> string \<Rightarrow> bool" where
  "sv_contains [] needle = (needle = [])"
| "sv_contains (c # cs) needle =
     (take (length needle) (c # cs) = needle \<or> sv_contains cs needle)"

text \<open>\<^verbatim>\<open>sv.substr(sv.find_last_of(c) + 1)\<close>, the whole view when \<open>c\<close> does not occur.\<close>

definition sv_after_last :: "char \<Rightarrow> string \<Rightarrow> string" where
  "sv_after_last c s = rev (takeWhile (\<lambda>x. x \<noteq> c) (rev s))"

text \<open>
  The scanning loop that the sources write out for slashes, colons, tabs and newlines:
  \<^verbatim>\<open>while (start <= size) { i = find(delim, start); visit(substr(start, end - start));
  if (i == npos) break; start = i + 1; }\<close>.  The model lists the visited views.
\<close>

function delim_fields :: "char \<Rightarrow> string \<Rightarrow> nat \<Rightarrow> string list" where
  "delim_fields c s start =
     (if start \<le> length s then
        (case sv_find c s start of
           None \<Rightarrow> [sv_substr s start (length s - start)]
         | Some i \<Rightarrow> sv_substr s start (i - start) # delim_fields c s (i + 1))
      else [])"
  by pat_completeness auto
termination
  by (relation "measure (\<lambda>(c, s, start). Suc (length s) - start)")
    (auto simp: sv_find_def split: if_splits)

declare delim_fields.simps [simp del]

text \<open>Splitting a list at every delimiter: the reference definition of the loop.\<close>

fun split_on :: "'a \<Rightarrow> 'a list \<Rightarrow> 'a list list" where
  "split_on c [] = [[]]"
| "split_on c (x # xs) =
     (if x = c then [] # split_on c xs
      else (case split_on c xs of [] \<Rightarrow> [[x]] | f # fs \<Rightarrow> (x # f) # fs))"

fun join_with :: "'a list \<Rightarrow> 'a list list \<Rightarrow> 'a list" where
  "join_with d [] = []"
| "join_with d [x] = x"
| "join_with d (x # y # ys) = x @ d @ join_with d (y # ys)"

lemma split_on_not_Nil [simp, sv_simps]: "split_on c xs \<noteq> []"
  by (induction xs) (auto split: list.splits)

lemma split_on_no_delim: "c \<notin> set xs \<Longrightarrow> split_on c xs = [xs]"
  by (induction xs) auto

lemma split_on_append_delim [sv_simps]:
  "c \<notin> set xs \<Longrightarrow> split_on c (xs @ c # ys) = xs # split_on c ys"
  by (induction xs) auto

lemma split_on_delim_free: "f \<in> set (split_on c xs) \<Longrightarrow> c \<notin> set f"
  by (induction xs arbitrary: f) (auto split: if_splits list.splits)

lemma split_on_chars: "f \<in> set (split_on c xs) \<Longrightarrow> set f \<subseteq> set xs"
proof (induction xs arbitrary: f)
  case (Cons x xs)
  obtain g gs where g: "split_on c xs = g # gs"
    by (cases "split_on c xs") auto
  show ?case using Cons g by (force split: if_splits)
qed simp

lemma split_on_join:
  "xs \<noteq> [] \<Longrightarrow> (\<And>x. x \<in> set xs \<Longrightarrow> c \<notin> set x) \<Longrightarrow> split_on c (join_with [c] xs) = xs"
  by (induction "[c]" xs rule: join_with.induct)
    (auto simp: split_on_no_delim split_on_append_delim)

lemma split_on_append: "split_on c (xs @ c # ys) = split_on c xs @ split_on c ys"
  by (induction xs) (auto split: list.splits)

lemma join_with_append:
  "xs \<noteq> [] \<Longrightarrow> ys \<noteq> [] \<Longrightarrow> join_with d (xs @ ys) = join_with d xs @ d @ join_with d ys"
  by (induction d xs rule: join_with.induct) (auto simp: neq_Nil_conv)

lemma join_with_snoc: "join_with d (xs @ [x]) = (if xs = [] then x else join_with d xs @ d @ x)"
  by (simp add: join_with_append)

lemma join_with_Nil_iff: "[] \<notin> set xs \<Longrightarrow> join_with d xs = [] \<longleftrightarrow> xs = []"
  by (induction d xs rule: join_with.induct) auto

lemma join_split_on: "join_with [c] (split_on c xs) = xs"
proof (induction xs)
  case (Cons x xs)
  obtain f fs where f: "split_on c xs = f # fs" by (cases "split_on c xs") auto
  with Cons show ?case by (cases fs) auto
qed simp

lemma takeWhile_append_delim: "c \<notin> set xs \<Longrightarrow> takeWhile (\<lambda>x. x \<noteq> c) (xs @ c # ys) = xs"
  by (induction xs) auto

lemma sv_find_None_iff [sv_simps]: "sv_find c s pos = None \<longleftrightarrow> c \<notin> set (drop pos s)"
  by (simp add: sv_find_def)

theorem delim_fields_split_on:
  "start \<le> length s \<Longrightarrow> delim_fields c s start = split_on c (drop start s)"
proof (induction c s start rule: delim_fields.induct)
  case (1 c s start)
  show ?case
  proof (cases "c \<in> set (drop start s)")
    case False
    then show ?thesis
      using "1.prems"
      by (simp add: delim_fields.simps [of c s start] sv_find_def sv_substr_def split_on_no_delim)
  next
    case True
    then obtain ys zs where d: "drop start s = ys @ c # zs" and ys: "c \<notin> set ys"
      by (meson split_list_first)
    let ?i = "start + length ys"
    have i: "sv_find c s start = Some ?i"
      using True by (simp add: sv_find_def d takeWhile_append_delim ys)
    have len: "length s - start = length ys + 1 + length zs"
      using arg_cong [OF d, of length] by simp
    have rest: "drop (?i + 1) s = zs"
      using arg_cong [OF d, of "drop (length ys + 1)"] by (simp add: add_ac)
    have "delim_fields c s (?i + 1) = split_on c zs"
      using "1.IH" [OF "1.prems" i] len rest by simp
    then show ?thesis
      using "1.prems" i ys
      by (simp add: delim_fields.simps [of c s start] sv_substr_def d split_on_append_delim)
  qed
qed

lemma delim_fields_0 [simp, sv_simps]: "delim_fields c s 0 = split_on c s"
  by (simp add: delim_fields_split_on)

text \<open>Scans that stop at a known place.\<close>

lemma dropWhile_all: "list_all P xs \<Longrightarrow> dropWhile P (xs @ ys) = dropWhile P ys"
  by (induction xs) auto

lemma takeWhile_all: "list_all P xs \<Longrightarrow> takeWhile P (xs @ ys) = xs @ takeWhile P ys"
  by (induction xs) auto

lemma takeWhile_stop: "ys = [] \<or> \<not> P (hd ys) \<Longrightarrow> list_all P xs \<Longrightarrow> takeWhile P (xs @ ys) = xs"
  by (cases ys) (auto simp: takeWhile_all list_all_iff)

lemma dropWhile_stop: "ys = [] \<or> \<not> P (hd ys) \<Longrightarrow> list_all P xs \<Longrightarrow> dropWhile P (xs @ ys) = ys"
  by (cases ys) (auto simp: dropWhile_all list_all_iff)

lemma strip_right:
  assumes "xs = [] \<or> \<not> P (last xs)" "list_all P ys"
  shows "rev (dropWhile P (rev (xs @ ys))) = xs"
proof -
  have "dropWhile P (rev ys @ rev xs) = rev xs"
    using assms by (intro dropWhile_stop) (auto simp: hd_rev list_all_iff)
  then show ?thesis by simp
qed

lemma find_first: "\<forall>x \<in> set xs. \<not> P x \<Longrightarrow> P y \<Longrightarrow> find P (xs @ y # ys) = Some y"
  by (induction xs) auto

lemma sv_contains_iff: "sv_contains s t \<longleftrightarrow> (\<exists>a b. s = a @ t @ b)"
proof
  show "sv_contains s t \<Longrightarrow> \<exists>a b. s = a @ t @ b"
  proof (induction s t rule: sv_contains.induct)
    case (2 c cs t)
    show ?case
    proof (cases "take (length t) (c # cs) = t")
      case True
      then have "c # cs = [] @ t @ drop (length t) (c # cs)" by (metis append_Nil append_take_drop_id)
      then show ?thesis by blast
    next
      case False
      with 2 obtain a b where "cs = a @ t @ b" by auto
      then have "c # cs = (c # a) @ t @ b" by simp
      then show ?thesis by blast
    qed
  qed simp
  have "sv_contains (a @ t @ b) t" for a b
  proof (induction a)
    case Nil
    show ?case by (cases "t @ b") (auto simp: take_Cons' append_eq_Cons_conv)
  qed simp
  then show "\<exists>a b. s = a @ t @ b \<Longrightarrow> sv_contains s t" by blast
qed

text \<open>Searching for a delimited word is asking for an inner field.\<close>

lemma sv_contains_field:
  assumes "c \<notin> set x"
  shows "sv_contains s (c # x @ [c]) \<longleftrightarrow> x \<in> set (butlast (tl (split_on c s)))"
proof
  assume "sv_contains s (c # x @ [c])"
  then obtain a b where "s = a @ c # x @ c # b" by (auto simp: sv_contains_iff)
  then have "split_on c s = split_on c a @ x # split_on c b"
    using assms by (simp add: split_on_append split_on_no_delim)
  then show "x \<in> set (butlast (tl (split_on c s)))" by (simp add: butlast_append)
next
  assume x: "x \<in> set (butlast (tl (split_on c s)))"
  obtain f fs where f: "split_on c s = f # fs" by (cases "split_on c s") auto
  with x have "fs \<noteq> []" by auto
  then have "split_on c s = f # butlast fs @ [last fs]" using f by simp
  moreover obtain p q where "butlast fs = p @ x # q" using x f by (metis list.sel(3) split_list)
  ultimately have "split_on c s = (f # p) @ [x] @ (q @ [last fs])" by simp
  then have "s = join_with [c] (f # p) @ [c] @ x @ [c] @ join_with [c] (q @ [last fs])"
    using join_split_on [of c s]
      join_with_append [of "f # p" "[x] @ q @ [last fs]" "[c]"] join_with_append [of "[x]" "q @ [last fs]" "[c]"]
    by simp
  then show "sv_contains s (c # x @ [c])" by (auto simp: sv_contains_iff)
qed

section \<open>Ordered maps\<close>

text \<open>
  \<^verbatim>\<open>std::map<std::string, std::string>\<close> iterates in key order, so it is an association list
  kept sorted by key: \<open>smap_find\<close> is \<^verbatim>\<open>find\<close>, \<open>smap_set\<close> is \<^verbatim>\<open>m[k] = v\<close>,
  \<open>smap_at\<close> is \<^verbatim>\<open>at\<close>, which throws on a missing key.
\<close>

type_synonym str_map = "(string \<times> string) list"

definition smap_find :: "str_map \<Rightarrow> string \<Rightarrow> string option" where
  "smap_find m k = map_of m k"

fun smap_set :: "string \<Rightarrow> string \<Rightarrow> str_map \<Rightarrow> str_map" where
  "smap_set k v [] = [(k, v)]"
| "smap_set k v ((a, b) # m) =
     (if k < a then (k, v) # (a, b) # m
      else if k = a then (k, v) # m
      else (a, b) # smap_set k v m)"

definition smap_ok :: "str_map \<Rightarrow> bool" where
  "smap_ok m \<longleftrightarrow> sorted_wrt (<) (map fst m)"

definition smap_of :: "(string \<times> string) list \<Rightarrow> str_map" where
  "smap_of kvs = fold (\<lambda>(k, v). smap_set k v) kvs []"

definition smap_at :: "str_map \<Rightarrow> string \<Rightarrow> string res" where
  "smap_at m k = (case smap_find m k of None \<Rightarrow> Inl (OutOfRange ''map::at'') | Some v \<Rightarrow> Inr v)"

text \<open>The contract the clients of the map rely on, as an interface.\<close>

locale string_map =
  fixes find :: "'m \<Rightarrow> 'k \<Rightarrow> 'v option"
    and set_entry :: "'k \<Rightarrow> 'v \<Rightarrow> 'm \<Rightarrow> 'm"
    and empty_map :: 'm
    and ok :: "'m \<Rightarrow> bool"
  assumes find_empty: "find empty_map k = None"
    and find_set: "find (set_entry k v m) k' = (if k' = k then Some v else find m k')"
    and ok_empty: "ok empty_map"
    and ok_set: "ok m \<Longrightarrow> ok (set_entry k v m)"
begin

definition set_all :: "('k \<times> 'v) list \<Rightarrow> 'm \<Rightarrow> 'm" where
  "set_all kvs m = fold (\<lambda>(k, v). set_entry k v) kvs m"

lemma ok_set_all: "ok m \<Longrightarrow> ok (set_all kvs m)"
  unfolding set_all_def by (induction kvs arbitrary: m) (auto simp: ok_set)

lemma find_set_all:
  "find (set_all kvs m) k = (case map_of (rev kvs) k of None \<Rightarrow> find m k | Some v \<Rightarrow> Some v)"
  unfolding set_all_def
proof (induction kvs arbitrary: m)
  case (Cons kv kvs)
  obtain a b where "kv = (a, b)" by (cases kv)
  then show ?case
    using Cons.IH [of "set_entry a b m"]
    by (auto simp: find_set map_add_def split: option.splits)
qed simp

end

lemma smap_find_set [simp, smap_simps]:
  "smap_find (smap_set k v m) k' = (if k' = k then Some v else smap_find m k')"
  unfolding smap_find_def by (induction k v m rule: smap_set.induct) auto

lemma smap_set_keys: "fst ` set (smap_set k v m) = insert k (fst ` set m)"
  by (induction k v m rule: smap_set.induct) auto

lemma smap_ok_Cons [smap_simps]:
  "smap_ok ((a, b) # m) \<longleftrightarrow> (\<forall>k \<in> fst ` set m. a < k) \<and> smap_ok m"
  by (simp add: smap_ok_def)

lemma smap_ok_Nil [simp, smap_simps]: "smap_ok []"
  by (simp add: smap_ok_def)

lemma smap_ok_set: "smap_ok m \<Longrightarrow> smap_ok (smap_set k v m)"
proof (induction k v m rule: smap_set.induct)
  case (2 k v a b m)
  consider "k < a" | "k = a" | "a < k" by fastforce
  then show ?case
  proof cases
    case 1
    with 2 show ?thesis by (auto simp: smap_ok_Cons)
  next
    case 2
    with "2.prems" show ?thesis by (auto simp: smap_ok_Cons)
  next
    case 3
    with 2 show ?thesis by (auto simp: smap_ok_Cons smap_set_keys simp del: image_iff)
  qed
qed (simp add: smap_ok_def)

lemma smap_set_snoc:
  "\<forall>k \<in> fst ` set m. k < a \<Longrightarrow> smap_set a b m = m @ [(a, b)]"
  by (induction m) (auto simp: less_not_sym)

lemma smap_of_sorted: "smap_ok m \<Longrightarrow> smap_of m = m"
proof (induction m rule: rev_induct)
  case (snoc kv m)
  obtain a b where [simp]: "kv = (a, b)" by (cases kv)
  have "smap_ok m" and "\<forall>k \<in> fst ` set m. k < a"
    using snoc.prems by (auto simp: smap_ok_def sorted_wrt_append)
  then show ?case using snoc.IH by (simp add: smap_of_def smap_set_snoc)
qed (simp add: smap_of_def)

interpretation smap: string_map smap_find smap_set "[]" smap_ok
  by unfold_locales (simp_all add: smap_ok_set, simp add: smap_find_def)

lemma smap_of_set_all: "smap_of kvs = smap.set_all kvs []"
  by (simp add: smap_of_def smap.set_all_def)

lemma smap_ok_of [simp, smap_simps]: "smap_ok (smap_of kvs)"
  by (simp add: smap_of_set_all smap.ok_set_all)

lemma smap_find_of [smap_simps]: "smap_find (smap_of kvs) k = map_of (rev kvs) k"
  by (simp add: smap_of_set_all smap.find_set_all smap.find_empty split: option.splits)

section \<open>Printing numbers\<close>

text \<open>\<^verbatim>\<open>std::to_string\<close> and the decimal and hexadecimal stream inserters.\<close>

definition digit_char :: "nat \<Rightarrow> char" where
  "digit_char d = (if d < 10 then char_of (48 + d) else char_of (87 + d))"

definition digit_char_upper :: "nat \<Rightarrow> char" where
  "digit_char_upper d = (if d < 10 then char_of (48 + d) else char_of (55 + d))"

fun base_digits :: "nat \<Rightarrow> nat \<Rightarrow> nat list" where
  "base_digits b n = (if b < 2 \<or> n < b then [n] else base_digits b (n div b) @ [n mod b])"

declare base_digits.simps [simp del]

definition dec_nat :: "nat \<Rightarrow> string" where
  "dec_nat n = map digit_char (base_digits 10 n)"

definition dec_int :: "int \<Rightarrow> string" where
  "dec_int i = (if i < 0 then ''-'' @ dec_nat (nat (- i)) else dec_nat (nat i))"

definition hex_nat :: "nat \<Rightarrow> string" where
  "hex_nat n = map digit_char (base_digits 16 n)"

text \<open>\<^verbatim>\<open>std::setw(w)\<close> with \<^verbatim>\<open>std::setfill('0')\<close>.\<close>

definition pad_zero :: "nat \<Rightarrow> string \<Rightarrow> string" where
  "pad_zero w s = replicate (w - length s) (CHR ''0'') @ s"

lemma base_digits_bound: "1 < b \<Longrightarrow> d \<in> set (base_digits b n) \<Longrightarrow> d < b"
proof (induction b n rule: base_digits.induct)
  case (1 b n)
  then show ?case
    by (cases "n < b") (auto simp: base_digits.simps [of b n])
qed

lemma base_digits_length:
  "1 < b \<Longrightarrow> 0 < k \<Longrightarrow> n < b ^ k \<Longrightarrow> length (base_digits b n) \<le> k"
proof (induction b n arbitrary: k rule: base_digits.induct)
  case (1 b n)
  show ?case
  proof (cases "n < b")
    case True
    with 1 show ?thesis by (simp add: base_digits.simps [of b n])
  next
    case False
    then obtain j where j: "k = Suc j" "0 < j"
      using 1 by (cases k) (auto, metis One_nat_def Suc_lessI not_gr_zero power_0 power_Suc mult.right_neutral less_Suc0)
    then have "n div b < b ^ j"
      using 1 by (simp add: less_mult_imp_div_less mult.commute)
    with 1 False j have "length (base_digits b (n div b)) \<le> j" by simp
    with False j 1 show ?thesis by (simp add: base_digits.simps [of b n])
  qed
qed

lemma pad_zero_length: "length (pad_zero w s) = max w (length s)"
  by (auto simp: pad_zero_def)

end
