(* ===== verification/Guest_Path_Spec.thy ===== *)
theory Guest_Path_Spec
  imports Alr_Prelude
begin

text \<open>
  The abstract specification of lexical guest-path resolution that both path rewriters of the
  repository promise: the C rule of \<^verbatim>\<open>runtime/alr/src/common/alr_path_rule.h\<close> and the C++
  rule of \<^verbatim>\<open>alr_runtime/alr_path.cpp\<close>.  A path is the list of its slash-separated components;
  empty and dot components are dropped, a dot-dot component pops one component and is a no-op at the
  root.  The locale \<open>guest_normalizer\<close> is the interface the two implementations provide.
\<close>

section \<open>Components and their resolution\<close>

abbreviation slash :: char where "slash \<equiv> CHR ''/''"

definition path_step :: "string list \<Rightarrow> string \<Rightarrow> string list" where
  "path_step cs c =
     (if c = [] \<or> c = ''.'' then cs else if c = ''..'' then butlast cs else cs @ [c])"

definition lex_resolve :: "string list \<Rightarrow> string list \<Rightarrow> string list" where
  "lex_resolve cs fs = foldl path_step cs fs"

definition render :: "string list \<Rightarrow> string" where
  "render cs = (if cs = [] then ''/'' else concat (map (\<lambda>c. slash # c) cs))"

definition good_component :: "string \<Rightarrow> bool" where
  "good_component c \<longleftrightarrow> c \<noteq> [] \<and> c \<noteq> ''.'' \<and> c \<noteq> ''..'' \<and> slash \<notin> set c"

definition normal_form :: "string \<Rightarrow> string" where
  "normal_form p = render (lex_resolve [] (split_on slash p))"

definition normal_path :: "string \<Rightarrow> bool" where
  "normal_path p \<longleftrightarrow> p = normal_form p"

text \<open>Component-boundary containment: \<open>d\<close> itself or a path below it.\<close>

definition path_below :: "string \<Rightarrow> string \<Rightarrow> bool" where
  "path_below p d \<longleftrightarrow> p = d \<or> (\<exists>r. p = d @ slash # r)"

lemma path_below_code [code]:
  "path_below p d \<longleftrightarrow> p = d \<or> take (Suc (length d)) p = d @ [slash]"
proof -
  have "\<exists>r. p = d @ slash # r" if "take (Suc (length d)) p = d @ [slash]"
    using append_take_drop_id [of "Suc (length d)" p] unfolding that by (metis append.assoc append_Cons append_Nil)
  then show ?thesis by (auto simp: path_below_def)
qed

lemma lex_resolve_simps [simp]:
  "lex_resolve cs [] = cs"
  "lex_resolve cs (f # fs) = lex_resolve (path_step cs f) fs"
  by (simp_all add: lex_resolve_def)

lemma lex_resolve_append: "lex_resolve cs (fs @ gs) = lex_resolve (lex_resolve cs fs) gs"
  by (simp add: lex_resolve_def)

lemma path_step_good:
  "list_all good_component cs \<Longrightarrow> slash \<notin> set c \<Longrightarrow> list_all good_component (path_step cs c)"
  by (auto simp: path_step_def good_component_def list_all_iff dest: in_set_butlastD)

lemma lex_resolve_good:
  "list_all good_component cs \<Longrightarrow> list_all (\<lambda>f. slash \<notin> set f) fs \<Longrightarrow>
     list_all good_component (lex_resolve cs fs)"
  by (induction fs arbitrary: cs) (auto simp: path_step_good)

lemma split_on_slash_free: "list_all (\<lambda>f. slash \<notin> set f) (split_on slash p)"
  by (auto simp: list_all_iff dest: split_on_delim_free)

lemma resolve_good [intro]: "list_all good_component (lex_resolve [] (split_on slash p))"
  by (rule lex_resolve_good) (auto simp: split_on_slash_free)

lemma path_step_component: "good_component c \<Longrightarrow> path_step cs c = cs @ [c]"
  by (simp add: path_step_def good_component_def)

lemma lex_resolve_components:
  "list_all good_component fs \<Longrightarrow> lex_resolve cs fs = cs @ fs"
  by (induction fs arbitrary: cs) (auto simp: path_step_component)

lemma split_on_concat_slash:
  "list_all good_component cs \<Longrightarrow>
     split_on slash (concat (map (\<lambda>c. slash # c) cs)) = [] # cs"
proof (induction cs)
  case (Cons c cs)
  then have c: "slash \<notin> set c" and IH: "split_on slash (concat (map (\<lambda>c. slash # c) cs)) = [] # cs"
    by (auto simp: good_component_def)
  have "split_on slash (c @ concat (map (\<lambda>c. slash # c) cs)) = c # cs"
    using c IH
    by (cases cs) (auto simp: split_on_no_delim split_on_append_delim)
  then show ?case by simp
qed simp

lemma resolve_render [simp]:
  "list_all good_component cs \<Longrightarrow> lex_resolve [] (split_on slash (render cs)) = cs"
  by (auto simp: render_def split_on_concat_slash lex_resolve_components path_step_def)

lemma normal_form_render: "list_all good_component cs \<Longrightarrow> normal_form (render cs) = render cs"
  by (simp add: normal_form_def)

lemma normal_form_idem [simp]: "normal_form (normal_form p) = normal_form p"
  unfolding normal_form_def by (simp add: resolve_good)

lemma normal_path_normal_form [simp, intro]: "normal_path (normal_form p)"
  by (simp add: normal_path_def)

lemma normal_path_render: "normal_path p \<longleftrightarrow> (\<exists>cs. list_all good_component cs \<and> p = render cs)"
  unfolding normal_path_def using normal_form_render resolve_good normal_form_def by metis

lemma render_absolute [simp]: "\<exists>r. render cs = slash # r"
  by (cases cs) (auto simp: render_def)

lemma render_nonempty [simp]: "render cs \<noteq> []"
  by (cases cs) (simp_all add: render_def)

lemma normal_form_absolute [simp]: "\<exists>r. normal_form p = slash # r"
  by (simp add: normal_form_def)

lemma render_inj:
  "list_all good_component cs \<Longrightarrow> list_all good_component ds \<Longrightarrow> render cs = render ds \<longleftrightarrow> cs = ds"
  using resolve_render by metis

lemma render_chars: "set (render cs) \<subseteq> insert slash (\<Union> (set ` set cs))"
  by (auto simp: render_def)

lemma lex_resolve_subset: "set (lex_resolve cs fs) \<subseteq> set cs \<union> set fs"
proof (induction fs arbitrary: cs)
  case (Cons f fs)
  then show ?case using Cons.IH [of "path_step cs f"]
    by (force simp: path_step_def split: if_splits dest: in_set_butlastD)
qed simp

text \<open>Appending a rendered path to a rendered, non-root prefix renders the joined components.\<close>

lemma render_append:
  "cs \<noteq> [] \<Longrightarrow> ds \<noteq> [] \<Longrightarrow> render cs @ render ds = render (cs @ ds)"
  by (simp add: render_def)

lemma path_below_render:
  assumes "list_all good_component cs" "list_all good_component ds" "ds \<noteq> []"
  shows "path_below (render cs) (render ds) \<longleftrightarrow> (\<exists>es. cs = ds @ es)"
proof
  assume "\<exists>es. cs = ds @ es"
  then obtain es where "cs = ds @ es" by blast
  with assms(3) show "path_below (render cs) (render ds)"
    by (cases es) (auto simp: path_below_def render_def)
next
  assume "path_below (render cs) (render ds)"
  then consider "render cs = render ds" | r where "render cs = render ds @ slash # r"
    by (auto simp: path_below_def)
  then show "\<exists>es. cs = ds @ es"
  proof cases
    case 1
    with assms show ?thesis by (auto simp: render_inj)
  next
    case 2
    have "split_on slash (concat (map (\<lambda>c. slash # c) ds) @ slash # r) = ([] # ds) @ split_on slash r"
      using assms(2)
    proof (induction ds rule: list.induct)
      case (Cons d ds)
      then have d: "slash \<notin> set d" by (simp add: good_component_def)
      have "split_on slash (d @ concat (map (\<lambda>c. slash # c) ds) @ slash # r) = d # ds @ split_on slash r"
        using Cons d by (cases ds) (auto simp: split_on_append_delim)
      then show ?case by simp
    qed simp
    moreover have "cs \<noteq> []" using 2 assms(3) by (cases ds) (auto simp: render_def split: if_splits)
    ultimately have "[] # cs = [] # ds @ split_on slash r"
      using 2 assms split_on_concat_slash [of cs] by (simp add: render_def)
    then show ?thesis by simp
  qed
qed

section \<open>The interface of a normalizer\<close>

locale guest_normalizer =
  fixes norm :: "string \<Rightarrow> string option"
  assumes norm_sound: "norm (slash # p) = Some r \<Longrightarrow> r = normal_form (slash # p)"
begin

lemma norm_normal: "norm (slash # p) = Some r \<Longrightarrow> normal_path r"
  by (drule norm_sound) simp

lemma norm_absolute: "norm (slash # p) = Some r \<Longrightarrow> \<exists>q. r = slash # q"
  by (drule norm_sound) simp

lemma norm_stable:
  assumes "norm (slash # p) = Some r" and "norm r = Some r'"
  shows "r' = r"
proof -
  obtain q where q: "r = slash # q" using norm_absolute [OF assms(1)] by blast
  with assms(2) have "r' = normal_form r" by (auto dest: norm_sound)
  with norm_normal [OF assms(1)] show ?thesis by (simp add: normal_path_def)
qed

text \<open>No component of a result is a dot-dot: the clamp makes leaving the root impossible.\<close>

lemma norm_no_dotdot:
  "norm (slash # p) = Some r \<Longrightarrow> \<exists>cs. list_all good_component cs \<and> r = render cs"
  using norm_normal normal_path_render by blast

end

text \<open>Two normalizers agree wherever both return.\<close>

locale two_normalizers = a: guest_normalizer norm_a + b: guest_normalizer norm_b
  for norm_a norm_b :: "string \<Rightarrow> string option"
begin

lemma agree: "norm_a (slash # p) = Some r \<Longrightarrow> norm_b (slash # p) = Some r' \<Longrightarrow> r = r'"
  by (drule a.norm_sound, drule b.norm_sound) simp

end

end
