(* ===== verification/Alr_Path_Rule.thy ===== *)
theory Alr_Path_Rule
  imports Guest_Path_Spec
begin

text \<open>
  The C path rule of \<^verbatim>\<open>runtime/alr/src/common/alr_path_rule.h\<close>, on the product path and
  called by \<^verbatim>\<open>alr_path.cpp\<close>.  A NUL-terminated C string is the list of its bytes before the
  NUL; \<open>cchar s i\<close> reads \<^verbatim>\<open>s[i]\<close> up to and including the terminator.  Output buffers are
  the bytes written so far; the sizes the code checks against are kept as parameters.
\<close>

section \<open>The rule as written\<close>

definition cchar :: "string \<Rightarrow> nat \<Rightarrow> char" where
  "cchar s i = (if i < length s then s ! i else nul)"

definition ALR_PBUF :: nat where "ALR_PBUF = 4096"

definition ALR_MAX_DEPTH :: nat where "ALR_MAX_DEPTH = 128"

datatype alr_err = ALR_OK | ALR_E_TOOLONG | ALR_E_DEPTH

text \<open>\<^verbatim>\<open>memcmp(p, prefix, plen) == 0\<close>: the comparison ends at the first differing byte, so at
  the terminator of the shorter string at the latest.\<close>

definition alr_path_under :: "string \<Rightarrow> string \<Rightarrow> nat \<Rightarrow> bool" where
  "alr_path_under p prefix plen =
     (if plen = 0 then False
      else if \<not> list_all (\<lambda>i. cchar p i = cchar prefix i) [0..<plen] then False
      else cchar p plen = nul \<or> cchar p plen = slash)"

definition alr_is_sysdir :: "string \<Rightarrow> bool" where
  "alr_is_sysdir p \<longleftrightarrow>
     alr_path_under p ''/proc'' 5 \<or> alr_path_under p ''/sys'' 4 \<or> alr_path_under p ''/dev'' 4"

text \<open>The pre-scan loop; the flag says whether the cursor is still at the start of the string
  (\<^verbatim>\<open>s != p\<close> in the source).\<close>

fun alr_needs_normalize_from :: "bool \<Rightarrow> string \<Rightarrow> bool" where
  "alr_needs_normalize_from at_start [] = False"
| "alr_needs_normalize_from at_start (c # s) =
     (if c \<noteq> slash then alr_needs_normalize_from False s
      else if cchar s 0 = slash then True
      else if cchar s 0 = nul then \<not> at_start
      else if cchar s 0 = CHR ''.'' \<and> (cchar s 1 = nul \<or> cchar s 1 = slash) then True
      else if cchar s 0 = CHR ''.'' \<and> cchar s 1 = CHR ''.'' \<and>
              (cchar s 2 = nul \<or> cchar s 2 = slash) then True
      else alr_needs_normalize_from False s)"

definition alr_needs_normalize :: "string \<Rightarrow> bool" where
  "alr_needs_normalize p = alr_needs_normalize_from True p"

lemma component_loop_decreases:
  assumes "dropWhile (\<lambda>c. c = slash) s \<noteq> []"
  shows "length (dropWhile (\<lambda>c. c \<noteq> slash) (dropWhile (\<lambda>c. c = slash) s)) < length s"
proof -
  have len: "length (dropWhile P xs) < length xs" if "xs \<noteq> []" "P (hd xs)" for P and xs :: string
    using that by (cases xs) (auto simp: length_dropWhile_le less_Suc_eq_le)
  have "hd (dropWhile (\<lambda>c. c = slash) s) \<noteq> slash" using hd_dropWhile [OF assms] by simp
  then have "length (dropWhile (\<lambda>c. c \<noteq> slash) (dropWhile (\<lambda>c. c = slash) s))
      < length (dropWhile (\<lambda>c. c = slash) s)"
    using assms by (intro len) auto
  also have "\<dots> \<le> length s" by (rule length_dropWhile_le)
  finally show ?thesis .
qed

text \<open>The component loop: \<open>stack\<close> holds the rewind offsets (top first), \<open>out\<close> the first
  \<open>o\<close> bytes of the buffer; \<^const>\<open>None\<close> is the return value 0.\<close>

function alr_normalize_loop :: "nat \<Rightarrow> string \<Rightarrow> nat list \<Rightarrow> string \<Rightarrow> string option" where
  "alr_normalize_loop outsz s stack out =
     (let s1 = dropWhile (\<lambda>c. c = slash) s in
      if s = [] \<or> s1 = [] then Some (if out = [] then ''/'' else out)
      else
        let comp = takeWhile (\<lambda>c. c \<noteq> slash) s1; s2 = dropWhile (\<lambda>c. c \<noteq> slash) s1 in
        if comp = ''.'' then alr_normalize_loop outsz s2 stack out
        else if comp = ''..'' then
          (case stack of
             [] \<Rightarrow> alr_normalize_loop outsz s2 stack out
           | r # rest \<Rightarrow> alr_normalize_loop outsz s2 rest (take r out))
        else if ALR_MAX_DEPTH \<le> length stack then None
        else if 1 < length out \<and> outsz \<le> length out + 1 then None
        else
          let out1 = (if 1 < length out then out @ [slash] else out) in
          if outsz \<le> length out1 + length comp then None
          else alr_normalize_loop outsz s2 (length out # stack) (out1 @ comp))"
  by pat_completeness auto

termination
  by (relation "measure (\<lambda>(outsz, s, stack, out). length s)")
    (auto simp: component_loop_decreases)

declare alr_normalize_loop.simps [simp del]

definition alr_normalize_guest_abs :: "string \<Rightarrow> nat \<Rightarrow> string option" where
  "alr_normalize_guest_abs p outsz =
     (if outsz < 2 then None else alr_normalize_loop outsz p [] ''/'')"

text \<open>The result of the hot path: the argument pointer itself, the filled buffer, or
  \<^verbatim>\<open>NULL\<close> with \<^verbatim>\<open>*err\<close> set.\<close>

datatype rw_result = RwSame | RwBuf string | RwNull alr_err

definition alr_rw :: "string option \<Rightarrow> string \<Rightarrow> nat \<Rightarrow> nat \<Rightarrow> rw_result" where
  "alr_rw arg root root_len bufsz =
     (case arg of
        None \<Rightarrow> RwSame
      | Some p \<Rightarrow>
          if cchar p 0 \<noteq> slash then RwSame
          else if root_len = 0 then RwSame
          else
            (case (if alr_needs_normalize p
                   then map_option (\<lambda>b. (True, b)) (alr_normalize_guest_abs p bufsz)
                   else Some (False, p)) of
               None \<Rightarrow> RwNull ALR_E_TOOLONG
             | Some (in_buf, q) \<Rightarrow>
                 if alr_is_sysdir q then (if in_buf then RwBuf q else RwSame)
                 else if alr_path_under q root root_len then (if in_buf then RwBuf q else RwSame)
                 else if cchar q 0 = slash \<and> cchar q 1 = nul then
                   (if bufsz < root_len + 1 then RwNull ALR_E_TOOLONG
                    else RwBuf (take root_len root))
                 else if bufsz < root_len + length q + 1 then RwNull ALR_E_TOOLONG
                 else RwBuf (take root_len root @ q)))"

text \<open>The bytes a caller sees: \<^const>\<open>RwSame\<close> returns the argument pointer.\<close>

fun rw_text :: "string \<Rightarrow> rw_result \<Rightarrow> string option" where
  "rw_text p RwSame = Some p"
| "rw_text p (RwBuf b) = Some b"
| "rw_text p (RwNull e) = None"

definition alr_guest_canon :: "string \<Rightarrow> string \<Rightarrow> nat \<Rightarrow> nat \<Rightarrow> string" where
  "alr_guest_canon h root root_len bufsz =
     (if root_len = 0 then h
      else if \<not> alr_path_under h root root_len then h
      else
        let n = length h - root_len in
        if n = 0 then (if bufsz < 2 then h else ''/'')
        else if bufsz < n + 1 then h
        else drop root_len h)"

function alr_trim_root_loop :: "string \<Rightarrow> string" where
  "alr_trim_root_loop root =
     (if 1 < length root \<and> last root = slash then alr_trim_root_loop (butlast root) else root)"
  by pat_completeness auto
termination by (relation "measure length") auto

declare alr_trim_root_loop.simps [simp del]

definition alr_trim_root :: "string \<Rightarrow> string \<times> nat" where
  "alr_trim_root root = (let r = alr_trim_root_loop root in (r, length r))"

section \<open>Prefix tests\<close>

lemma cchar_Cons_0 [simp]: "cchar (c # s) 0 = c"
  and cchar_Cons_Suc [simp]: "cchar (c # s) (Suc i) = cchar s i"
  and cchar_Nil [simp]: "cchar [] i = nul"
  by (simp_all add: cchar_def)

lemma cchar_nul_iff: "nul \<notin> set s \<Longrightarrow> cchar s i = nul \<longleftrightarrow> length s \<le> i"
  by (auto simp: cchar_def in_set_conv_nth)

lemma cchar_prefix_eq:
  assumes "nul \<notin> set d"
  shows "(\<forall>i < length d. cchar p i = cchar d i) \<longleftrightarrow> take (length d) p = d"
proof
  assume eq: "\<forall>i < length d. cchar p i = cchar d i"
  have "length d \<le> length p"
  proof (rule ccontr)
    assume "\<not> length d \<le> length p"
    then have "cchar p (length p) = nul" and "length p < length d" by (simp_all add: cchar_def)
    then show False using eq assms cchar_nul_iff [of d "length p"] by (metis linorder_not_less)
  qed
  then show "take (length d) p = d"
    using eq by (intro nth_equalityI) (auto simp: cchar_def)
next
  assume t: "take (length d) p = d"
  then have len: "length d \<le> length p" by (metis length_take min.absorb_iff2)
  show "\<forall>i < length d. cchar p i = cchar d i"
  proof (intro allI impI)
    fix i assume "i < length d"
    then show "cchar p i = cchar d i" using len t by (metis cchar_def nth_take order_less_le_trans)
  qed
qed

theorem alr_path_under_iff:
  assumes "nul \<notin> set p" "nul \<notin> set d" "d \<noteq> []"
  shows "alr_path_under p d (length d) \<longleftrightarrow> path_below p d"
proof -
  have "alr_path_under p d (length d) \<longleftrightarrow>
      take (length d) p = d \<and> (cchar p (length d) = nul \<or> cchar p (length d) = slash)"
    using assms cchar_prefix_eq [OF assms(2), of p]
    by (auto simp: alr_path_under_def list_all_iff)
  also have "\<dots> \<longleftrightarrow> path_below p d"
  proof (cases "\<exists>r. p = d @ r")
    case True
    then obtain r where p: "p = d @ r" by blast
    have "cchar p (length d) = cchar r 0" by (cases r) (auto simp: p cchar_def)
    moreover have "nul \<notin> set r" using assms(1) p by simp
    ultimately show ?thesis using p by (cases r) (auto simp: path_below_def)
  next
    case False
    then have "take (length d) p \<noteq> d" by (metis append_take_drop_id)
    with False show ?thesis by (auto simp: path_below_def)
  qed
  finally show ?thesis .
qed

text \<open>The boundary the C comment insists on: a longer name is not below the directory.\<close>

lemma alr_is_sysdir_iff:
  "nul \<notin> set p \<Longrightarrow>
     alr_is_sysdir p \<longleftrightarrow> path_below p ''/proc'' \<or> path_below p ''/sys'' \<or> path_below p ''/dev''"
  using alr_path_under_iff [of p "''/proc''"] alr_path_under_iff [of p "''/sys''"]
    alr_path_under_iff [of p "''/dev''"]
  by (simp add: alr_is_sysdir_def eval_nat_numeral)

section \<open>The normalizer\<close>

text \<open>The rewind offsets that the stack holds for a component list.\<close>

definition rewinds :: "string list \<Rightarrow> nat list" where
  "rewinds cs = rev (map (\<lambda>i. length (render (take i cs))) [0..<length cs])"

lemma rewinds_Nil [simp]: "rewinds [] = []"
  by (simp add: rewinds_def)

lemma rewinds_snoc [simp]: "rewinds (cs @ [c]) = length (render cs) # rewinds cs"
  by (simp add: rewinds_def)

lemma length_rewinds [simp]: "length (rewinds cs) = length cs"
  by (simp add: rewinds_def)

lemma take_render_snoc: "take (length (render cs)) (render (cs @ [c])) = render cs"
  by (simp add: render_def)

lemma render_snoc:
  "list_all good_component cs \<Longrightarrow>
     render (cs @ [c]) = (if 1 < length (render cs) then render cs @ [slash] else render cs) @ c"
  by (cases cs) (auto simp: render_def good_component_def)

lemma resolve_skip_slashes:
  "lex_resolve cs (split_on slash (dropWhile (\<lambda>c. c = slash) s)) = lex_resolve cs (split_on slash s)"
  by (induction s) (auto simp: path_step_def)

lemma split_on_first:
  "split_on c s =
     takeWhile (\<lambda>x. x \<noteq> c) s #
       (case dropWhile (\<lambda>x. x \<noteq> c) s of [] \<Rightarrow> [] | _ # t \<Rightarrow> split_on c t)"
  by (induction s) auto

lemma resolve_first_component:
  "lex_resolve cs (split_on slash s) =
     lex_resolve (path_step cs (takeWhile (\<lambda>c. c \<noteq> slash) s))
       (split_on slash (dropWhile (\<lambda>c. c \<noteq> slash) s))"
proof (cases "dropWhile (\<lambda>c. c \<noteq> slash) s")
  case Nil
  have "split_on slash s = [takeWhile (\<lambda>c. c \<noteq> slash) s]"
    by (subst split_on_first) (simp only: Nil list.case)
  then show ?thesis by (simp only: Nil) (simp add: path_step_def)
next
  case (Cons a t)
  have "split_on slash s = takeWhile (\<lambda>c. c \<noteq> slash) s # split_on slash t"
    by (subst split_on_first) (simp only: Cons list.case)
  moreover have "a = slash" using Cons by (metis (full_types) hd_dropWhile list.sel(1) list.simps(3))
  ultimately show ?thesis by (simp only: Cons) (simp add: path_step_def)
qed

lemma first_component_good:
  assumes "dropWhile (\<lambda>c. c = slash) s \<noteq> []"
    and "takeWhile (\<lambda>c. c \<noteq> slash) (dropWhile (\<lambda>c. c = slash) s) \<notin> {''.'', ''..''}"
  shows "good_component (takeWhile (\<lambda>c. c \<noteq> slash) (dropWhile (\<lambda>c. c = slash) s))"
proof -
  have "hd (dropWhile (\<lambda>c. c = slash) s) \<noteq> slash" using hd_dropWhile [OF assms(1)] by simp
  then have "takeWhile (\<lambda>c. c \<noteq> slash) (dropWhile (\<lambda>c. c = slash) s) \<noteq> []"
    using assms(1) by (cases "dropWhile (\<lambda>c. c = slash) s") auto
  then show ?thesis using assms(2) by (auto simp: good_component_def dest: set_takeWhileD)
qed

text \<open>Soundness: on success the loop computes the abstract resolution.\<close>

lemma alr_normalize_loop_sound:
  assumes "list_all good_component cs"
    and "alr_normalize_loop outsz s (rewinds cs) (render cs) = Some r"
  shows "r = render (lex_resolve cs (split_on slash s))"
  using assms
proof (induction "length s" arbitrary: s cs rule: less_induct)
  case less
  define s1 where "s1 = dropWhile (\<lambda>c. c = slash) s"
  define comp where "comp = takeWhile (\<lambda>c. c \<noteq> slash) s1"
  define s2 where "s2 = dropWhile (\<lambda>c. c \<noteq> slash) s1"
  have res: "lex_resolve cs (split_on slash s) = lex_resolve (path_step cs comp) (split_on slash s2)"
    using resolve_skip_slashes resolve_first_component unfolding s1_def comp_def s2_def by metis
  note run = less.prems(2) [unfolded alr_normalize_loop.simps [of outsz s] Let_def,
      folded s1_def, folded comp_def s2_def]
  show ?case
  proof (cases "s1 = []")
    case True
    then have "r = render cs" using run by simp
    with True res show ?thesis
      using resolve_skip_slashes [of cs s] by (simp add: s1_def [symmetric] path_step_def)
  next
    case False
    then have "s \<noteq> []" by (auto simp: s1_def)
    have shorter: "length s2 < length s"
      using False component_loop_decreases unfolding s1_def s2_def by blast
    note run = run [simplified False \<open>s \<noteq> []\<close> if_False simp_thms]
    consider "comp = ''.''" | "comp = ''..''" "cs = []" | ds d where "comp = ''..''" "cs = ds @ [d]"
      | "comp \<notin> {''.'', ''..''}" by (cases cs rule: rev_cases) auto
    then show ?thesis
    proof cases
      case 1
      with less.hyps [OF shorter less.prems(1)] run res show ?thesis by (simp add: path_step_def)
    next
      case 2
      with less.hyps [OF shorter less.prems(1)] run res show ?thesis by (simp add: path_step_def)
    next
      case 3
      with less.hyps [OF shorter, of ds] less.prems(1) run res show ?thesis
        by (simp add: path_step_def take_render_snoc)
    next
      case 4
      then have good: "good_component comp"
        using first_component_good False unfolding comp_def s1_def by blast
      have "alr_normalize_loop outsz s2 (rewinds (cs @ [comp])) (render (cs @ [comp])) = Some r"
        using run 4 less.prems(1) by (simp add: render_snoc split: if_splits)
      with less.hyps [OF shorter, of "cs @ [comp]"] less.prems(1) good res show ?thesis
        by (simp add: path_step_component)
    qed
  qed
qed

theorem alr_normalize_guest_abs_sound:
  "alr_normalize_guest_abs p outsz = Some r \<Longrightarrow> r = normal_form p"
  using alr_normalize_loop_sound [of "[]" outsz p r]
  by (simp add: alr_normalize_guest_abs_def normal_form_def render_def split: if_splits)

text \<open>The buffer is never overrun: the bytes and the terminator fit.\<close>

lemma alr_normalize_loop_fits:
  "alr_normalize_loop outsz s stack out = Some r \<Longrightarrow> length out < outsz \<Longrightarrow> 1 < outsz \<Longrightarrow>
     length r < outsz"
proof (induction "length s" arbitrary: s stack out rule: less_induct)
  case less
  define s1 where "s1 = dropWhile (\<lambda>c. c = slash) s"
  define comp where "comp = takeWhile (\<lambda>c. c \<noteq> slash) s1"
  define s2 where "s2 = dropWhile (\<lambda>c. c \<noteq> slash) s1"
  note run = less.prems(1) [unfolded alr_normalize_loop.simps [of outsz s] Let_def,
      folded s1_def, folded comp_def s2_def]
  show ?case
  proof (cases "s1 = []")
    case True
    then show ?thesis using run less.prems by (auto split: if_splits)
  next
    case False
    then have "s \<noteq> []" by (auto simp: s1_def)
    have shorter: "length s2 < length s"
      using False component_loop_decreases unfolding s1_def s2_def by blast
    obtain stack' out' where step: "alr_normalize_loop outsz s2 stack' out' = Some r"
      and "length out' < outsz"
      using run less.prems(2) False \<open>s \<noteq> []\<close>
      by (force split: if_splits list.splits simp: min_less_iff_disj)
    then show ?thesis using less.hyps [OF shorter step] less.prems(3) by simp
  qed
qed

lemma alr_normalize_guest_abs_fits:
  "alr_normalize_guest_abs p outsz = Some r \<Longrightarrow> length r < outsz"
  using alr_normalize_loop_fits [of outsz p "[]" "''/''" r]
  by (simp add: alr_normalize_guest_abs_def split: if_splits)

text \<open>The loop returns whenever the path itself fits and is not too deep.\<close>

definition component_count :: "string \<Rightarrow> nat" where
  "component_count s = length (filter (\<lambda>f. f \<noteq> []) (split_on slash s))"

lemma component_count_first:
  assumes "dropWhile (\<lambda>c. c = slash) s = s1" "s1 \<noteq> []"
  shows "component_count s = Suc (component_count (dropWhile (\<lambda>c. c \<noteq> slash) s1))"
proof -
  have skip: "component_count s = component_count s1"
    using assms(1) by (induction s arbitrary: s1) (auto simp: component_count_def split: if_splits)
  have hd: "hd s1 \<noteq> slash" using assms hd_dropWhile [of "\<lambda>c. c = slash" s] by blast
  then have ne: "takeWhile (\<lambda>c. c \<noteq> slash) s1 \<noteq> []" using assms(2) by (cases s1) auto
  show ?thesis
  proof (cases "dropWhile (\<lambda>c. c \<noteq> slash) s1")
    case Nil
    have "split_on slash s1 = [takeWhile (\<lambda>c. c \<noteq> slash) s1]"
      by (subst split_on_first) (simp only: Nil list.case)
    with ne show ?thesis by (simp only: skip Nil) (simp add: component_count_def)
  next
    case (Cons a t)
    have "split_on slash s1 = takeWhile (\<lambda>c. c \<noteq> slash) s1 # split_on slash t"
      by (subst split_on_first) (simp only: Cons list.case)
    moreover have "a = slash" using Cons by (metis (full_types) hd_dropWhile list.sel(1) list.simps(3))
    ultimately show ?thesis using ne by (simp only: skip Cons) (simp add: component_count_def)
  qed
qed

lemma alr_normalize_loop_total:
  assumes "s = [] \<or> hd s = slash" and "length stack + component_count s \<le> ALR_MAX_DEPTH"
    and "length out = 1 \<and> length s < outsz \<or> length out + length s < outsz"
  shows "\<exists>r. alr_normalize_loop outsz s stack out = Some r"
  using assms
proof (induction "length s" arbitrary: s stack out rule: less_induct)
  case less
  define s1 where "s1 = dropWhile (\<lambda>c. c = slash) s"
  define comp where "comp = takeWhile (\<lambda>c. c \<noteq> slash) s1"
  define s2 where "s2 = dropWhile (\<lambda>c. c \<noteq> slash) s1"
  note run = alr_normalize_loop.simps [of outsz s stack out, unfolded Let_def,
      folded s1_def, folded comp_def s2_def]
  show ?case
  proof (cases "s1 = []")
    case True
    then show ?thesis using run by simp
  next
    case False
    then have "s \<noteq> []" by (auto simp: s1_def)
    then have "length s1 < length s"
      using less.prems(1) unfolding s1_def by (cases s) (auto simp: length_dropWhile_le less_Suc_eq_le)
    moreover have "length s1 = length comp + length s2"
      unfolding comp_def s2_def by (metis length_append takeWhile_dropWhile_id)
    ultimately have len: "length comp + length s2 < length s" by simp
    then have shorter: "length s2 < length s" by simp
    have s2: "s2 = [] \<or> hd s2 = slash"
      unfolding s2_def using hd_dropWhile [of "\<lambda>c. c \<noteq> slash" s1] by blast
    have count: "component_count s = Suc (component_count s2)"
      using component_count_first s1_def False s2_def by metis
    note IH = less.hyps [OF shorter s2]
    consider "comp = ''.''" | "comp = ''..''" "stack = []" | r rest where "comp = ''..''" "stack = r # rest"
      | "comp \<notin> {''.'', ''..''}" by (cases stack) auto
    then show ?thesis
    proof cases
      case 1
      then show ?thesis using run IH [of stack out] False \<open>s \<noteq> []\<close> less.prems len count by auto
    next
      case 2
      then show ?thesis using run IH [of stack out] False \<open>s \<noteq> []\<close> less.prems len count by auto
    next
      case 3
      have "length (take r out) + length s2 < outsz" using less.prems(3) len 3 by auto
      with 3 show ?thesis
        using run IH [of rest "take r out"] False \<open>s \<noteq> []\<close> less.prems len count by auto
    next
      case 4
      define out1 where "out1 = (if 1 < length out then out @ [slash] else out)"
      have "length out1 + length comp + length s2 < outsz"
        using less.prems(3) len by (auto simp: out1_def)
      then show ?thesis
        using run IH [of "length out # stack" "out1 @ comp"] False \<open>s \<noteq> []\<close> less.prems len count 4
        by (auto simp: out1_def split: if_splits)
    qed
  qed
qed

theorem alr_normalize_guest_abs_total:
  assumes "cchar p 0 = slash" "component_count p \<le> ALR_MAX_DEPTH" "length p < outsz"
  shows "alr_normalize_guest_abs p outsz = Some (normal_form p)"
proof -
  have "hd p = slash" "p \<noteq> []" using assms(1) by (auto simp: cchar_def hd_conv_nth split: if_splits)
  moreover have "2 \<le> outsz" using assms(3) \<open>p \<noteq> []\<close> by (cases p) auto
  ultimately obtain r where "alr_normalize_guest_abs p outsz = Some r"
    using alr_normalize_loop_total [of p "[]" "''/''" outsz] assms
    by (auto simp: alr_normalize_guest_abs_def)
  then show ?thesis using alr_normalize_guest_abs_sound by metis
qed

interpretation c_rule: guest_normalizer "\<lambda>p. alr_normalize_guest_abs p ALR_PBUF"
  by unfold_locales (rule alr_normalize_guest_abs_sound)

section \<open>The pre-scan\<close>

lemma first_field_tests:
  assumes "nul \<notin> set s" and f: "split_on slash s = f # fs"
  shows "cchar s 0 = slash \<or> cchar s 0 = nul \<longleftrightarrow> f = []"
    and "cchar s 0 = CHR ''.'' \<and> (cchar s 1 = nul \<or> cchar s 1 = slash) \<longleftrightarrow> f = ''.''"
    and "cchar s 0 = CHR ''.'' \<and> cchar s 1 = CHR ''.'' \<and> (cchar s 2 = nul \<or> cchar s 2 = slash)
      \<longleftrightarrow> f = ''..''"
proof -
  have fw: "f = takeWhile (\<lambda>c. c \<noteq> slash) s" using f by (simp add: split_on_first [of slash s])
  consider "s = []" | a where "s = [a]" | a b where "s = [a, b]" | a b c t where "s = a # b # c # t"
    by (metis list.exhaust)
  then show "cchar s 0 = slash \<or> cchar s 0 = nul \<longleftrightarrow> f = []"
    and "cchar s 0 = CHR ''.'' \<and> (cchar s 1 = nul \<or> cchar s 1 = slash) \<longleftrightarrow> f = ''.''"
    and "cchar s 0 = CHR ''.'' \<and> cchar s 1 = CHR ''.'' \<and> (cchar s 2 = nul \<or> cchar s 2 = slash)
      \<longleftrightarrow> f = ''..''"
    by (cases; use assms(1) in \<open>auto simp: fw cchar_def\<close>)+
qed

lemma alr_needs_normalize_from_iff:
  "nul \<notin> set s \<Longrightarrow>
     \<not> alr_needs_normalize_from False s \<longleftrightarrow> list_all good_component (tl (split_on slash s))"
proof (induction s)
  case (Cons c s)
  obtain f fs where f: "split_on slash s = f # fs" by (cases "split_on slash s") auto
  have nul: "nul \<notin> set s" using Cons.prems by simp
  note tests = first_field_tests [OF nul f]
  have "slash \<notin> set f" using f split_on_delim_free [of f slash s] by simp
  then have good: "good_component f \<longleftrightarrow> f \<noteq> [] \<and> f \<noteq> ''.'' \<and> f \<noteq> ''..''"
    by (simp add: good_component_def)
  show ?case
  proof (cases "c = slash")
    case True
    have "alr_needs_normalize_from False (c # s) \<longleftrightarrow>
        f = [] \<or> f = ''.'' \<or> f = ''..'' \<or> alr_needs_normalize_from False s"
      using True tests by auto
    with True Cons.IH [OF nul] f good show ?thesis by auto
  next
    case False
    with Cons.IH [OF nul] f show ?thesis by simp
  qed
qed simp

lemma alr_needs_normalize_iff:
  assumes "nul \<notin> set s"
  shows "\<not> alr_needs_normalize (slash # s) \<longleftrightarrow> s = [] \<or> list_all good_component (split_on slash s)"
proof (cases s)
  case (Cons c t)
  then have "alr_needs_normalize (slash # s) = alr_needs_normalize_from False (slash # s)"
    using assms by (auto simp: alr_needs_normalize_def)
  then show ?thesis using Cons alr_needs_normalize_from_iff [of "slash # s"] assms by simp
qed (simp add: alr_needs_normalize_def)

lemma normal_path_slash_iff:
  "normal_path (slash # s) \<longleftrightarrow> s = [] \<or> list_all good_component (split_on slash s)"
proof (cases "s = []")
  case True
  then show ?thesis by (simp add: normal_path_def normal_form_def path_step_def render_def)
next
  case False
  show ?thesis
  proof
    assume "normal_path (slash # s)"
    then obtain cs where good: "list_all good_component cs" and r: "slash # s = render cs"
      by (auto simp: normal_path_render)
    with False have "cs \<noteq> []" by (auto simp: render_def)
    then have "split_on slash (slash # s) = [] # cs"
      using r good split_on_concat_slash [of cs] by (simp add: render_def)
    with good show "s = [] \<or> list_all good_component (split_on slash s)" by simp
  next
    assume "s = [] \<or> list_all good_component (split_on slash s)"
    with False have good: "list_all good_component (split_on slash s)" by simp
    have "concat (map (\<lambda>c. slash # c) (split_on slash s)) = slash # s"
      by (induction s) (auto split: list.splits)
    then have "render (split_on slash s) = slash # s" by (simp add: render_def)
    with good show "normal_path (slash # s)" using normal_path_render by metis
  qed
qed

text \<open>The cheap scan answers exactly whether the path differs from its normal form.\<close>

theorem alr_needs_normalize_exact:
  "nul \<notin> set s \<Longrightarrow> alr_needs_normalize (slash # s) \<longleftrightarrow> \<not> normal_path (slash # s)"
  using alr_needs_normalize_iff normal_path_slash_iff by blast

section \<open>The rewrite\<close>

text \<open>What the rule promises for a normal guest path, free of buffers: kernel directories and
  paths already below the root stay, the guest root is the rootfs itself, everything else is
  prefixed.\<close>

definition rewrite_spec :: "string \<Rightarrow> string \<Rightarrow> string" where
  "rewrite_spec root q =
     (if path_below q ''/proc'' \<or> path_below q ''/sys'' \<or> path_below q ''/dev'' \<or> path_below q root
      then q
      else if q = ''/'' then root else root @ q)"

lemma normal_form_nul_free: "nul \<notin> set p \<Longrightarrow> nul \<notin> set (normal_form p)"
proof -
  assume nul: "nul \<notin> set p"
  have "set (normal_form p) \<subseteq> insert slash (set p)"
    using render_chars [of "lex_resolve [] (split_on slash p)"]
      lex_resolve_subset [of "[]" "split_on slash p"] split_on_chars [of _ slash p]
    unfolding normal_form_def by fastforce
  with nul show ?thesis by auto
qed

lemma guest_root_test: "nul \<notin> set q \<Longrightarrow> cchar q 0 = slash \<and> cchar q 1 = nul \<longleftrightarrow> q = ''/''"
  by (cases q; cases "tl q") auto

lemma alr_rw_refines:
  assumes nul: "nul \<notin> set s" "nul \<notin> set root" and root: "root \<noteq> []"
    and seen: "rw_text (slash # s) (alr_rw (Some (slash # s)) root (length root) bufsz) = Some h"
  shows "h = rewrite_spec root (normal_form (slash # s))"
proof -
  let ?p = "slash # s"
  define q where "q = normal_form ?p"
  have qn: "nul \<notin> set q" using nul normal_form_nul_free [of ?p] by (simp add: q_def)
  have tests: "alr_is_sysdir q \<longleftrightarrow> path_below q ''/proc'' \<or> path_below q ''/sys'' \<or> path_below q ''/dev''"
    "alr_path_under q root (length root) \<longleftrightarrow> path_below q root"
    "cchar q 0 = slash \<and> cchar q 1 = nul \<longleftrightarrow> q = ''/''"
    using alr_is_sysdir_iff alr_path_under_iff guest_root_test qn nul root by auto
  show ?thesis
  proof (cases "alr_needs_normalize ?p")
    case True
    then obtain r where r: "alr_normalize_guest_abs ?p bufsz = Some r"
      using seen root by (cases "alr_normalize_guest_abs ?p bufsz") (auto simp: alr_rw_def)
    then have "r = q" using alr_normalize_guest_abs_sound q_def by blast
    then show ?thesis
      using seen True r root tests unfolding q_def [symmetric]
      by (auto simp: alr_rw_def rewrite_spec_def split: if_splits)
  next
    case False
    then have "q = ?p" using alr_needs_normalize_exact [of s] nul by (simp add: q_def normal_path_def)
    then show ?thesis
      using seen False root tests unfolding q_def [symmetric]
      by (auto simp: alr_rw_def rewrite_spec_def split: if_splits)
  qed
qed

lemma alr_rw_buffer_fits:
  assumes "alr_rw (Some p) root root_len bufsz = RwBuf b" and "root_len \<le> length root"
  shows "length b < bufsz"
  using assms alr_normalize_guest_abs_fits
  by (auto simp: alr_rw_def split: if_splits option.splits)

lemma alr_rw_succeeds:
  assumes "nul \<notin> set s" and "component_count (slash # s) \<le> ALR_MAX_DEPTH"
    and "length (slash # s) < bufsz"
    and "length root + length (normal_form (slash # s)) < bufsz"
  shows "rw_text (slash # s) (alr_rw (Some (slash # s)) root (length root) bufsz) \<noteq> None"
proof (cases "alr_needs_normalize (slash # s)")
  case True
  have "alr_normalize_guest_abs (slash # s) bufsz = Some (normal_form (slash # s))"
    using alr_normalize_guest_abs_total assms by simp
  then show ?thesis using True assms by (auto simp: alr_rw_def)
next
  case False
  then have "normal_form (slash # s) = slash # s"
    using alr_needs_normalize_exact [of s] assms(1) by (simp add: normal_path_def)
  then show ?thesis using False assms by (auto simp: alr_rw_def)
qed

lemma alr_rw_normal_Null:
  assumes "nul \<notin> set s" "nul \<notin> set root" "root \<noteq> []" "normal_path (slash # s)"
    and "alr_rw (Some (slash # s)) root (length root) bufsz = RwNull e"
  shows "rewrite_spec root (slash # s) = (if slash # s = ''/'' then root else root @ slash # s)"
proof -
  have "\<not> alr_needs_normalize (slash # s)" using assms alr_needs_normalize_exact by blast
  then show ?thesis
    using assms alr_is_sysdir_iff [of "slash # s"] alr_path_under_iff [of "slash # s" root]
    by (auto simp: alr_rw_def rewrite_spec_def split: if_splits)
qed

section \<open>Root trimming\<close>

lemma alr_trim_root_loop_id: "\<not> (1 < length r \<and> last r = slash) \<Longrightarrow> alr_trim_root_loop r = r"
  by (subst alr_trim_root_loop.simps) auto

lemma alr_trim_root_loop_spec:
  "let r = alr_trim_root_loop root in
     (\<exists>n. root = r @ replicate n slash) \<and> (root \<noteq> [] \<longrightarrow> r \<noteq> []) \<and> (1 < length r \<longrightarrow> last r \<noteq> slash)"
proof (induction root rule: alr_trim_root_loop.induct)
  case (1 root)
  show ?case
  proof (cases "1 < length root \<and> last root = slash")
    case False
    then show ?thesis by (auto simp: alr_trim_root_loop_id Let_def)
  next
    case True
    then have step: "alr_trim_root_loop root = alr_trim_root_loop (butlast root)"
      by (simp add: alr_trim_root_loop.simps [of root])
    have "root = butlast root @ [slash]" using True by (metis append_butlast_last_id list.size(3) not_one_less_zero)
    moreover obtain n where "butlast root = alr_trim_root_loop (butlast root) @ replicate n slash"
      using "1.IH" [OF True] by (auto simp: Let_def)
    ultimately have "root = alr_trim_root_loop (butlast root) @ replicate (Suc n) slash"
      by (metis append.assoc replicate_append_same replicate_Suc)
    then have "\<exists>n. root = alr_trim_root_loop (butlast root) @ replicate n slash" by blast
    moreover have "butlast root \<noteq> []" using True by (metis length_butlast list.size(3) zero_less_diff nat_less_le)
    ultimately show ?thesis using "1.IH" [OF True] by (simp add: Let_def step)
  qed
qed

section \<open>Properties of the path rule\<close>

text \<open>C4. The hot path of the C rule is exactly the rule: for an absolute argument, whatever text the
  caller gets back is the abstract rewrite of the argument's normal form, whether the fast path
  (argument pointer returned) or the normalizing path was taken, and it is returned whenever the
  path is at most 128 components deep and both the argument and the result fit the buffer.\<close>

theorem alr_rw_correct:
  assumes "nul \<notin> set s" "nul \<notin> set root" "root \<noteq> []"
  shows "rw_text (slash # s) (alr_rw (Some (slash # s)) root (length root) bufsz)
           \<in> {None, Some (rewrite_spec root (normal_form (slash # s)))} \<and>
         (component_count (slash # s) \<le> ALR_MAX_DEPTH \<and> length (slash # s) < bufsz \<and>
          length root + length (normal_form (slash # s)) < bufsz \<longrightarrow>
          rw_text (slash # s) (alr_rw (Some (slash # s)) root (length root) bufsz)
            = Some (rewrite_spec root (normal_form (slash # s))))"
  using alr_rw_refines [OF assms, of bufsz] alr_rw_succeeds [OF assms(1), of bufsz root]
  by (cases "rw_text (slash # s) (alr_rw (Some (slash # s)) root (length root) bufsz)") auto

theorem alr_rw_correct_witness:
  "rw_text ''/proc/../etc/./passwd'' (alr_rw (Some ''/proc/../etc/./passwd'') ''/r'' (length ''/r'') 4096)
     = Some ''/r/etc/passwd''"
proof -
  have n: "normal_form ''/proc/../etc/./passwd'' = ''/etc/passwd''"
    by (simp add: normal_form_def path_step_def render_def)
  have r: "rewrite_spec ''/r'' ''/etc/passwd'' = ''/r/etc/passwd''"
    by (simp add: rewrite_spec_def path_below_def)
  show ?thesis
    using alr_rw_correct [of "''proc/../etc/./passwd''" "''/r''" 4096] n r
    by (simp add: component_count_def ALR_MAX_DEPTH_def)
qed



text \<open>C8. Host-to-guest translation inverts the rewrite: a normal guest path that is neither below a
  kernel directory nor already below the root comes back unchanged from \<open>alr_guest_canon\<close> after it was
  rewritten into the rootfs.\<close>

theorem alr_guest_canon_roundtrip:
  assumes "normal_path (slash # s)" "nul \<notin> set s" "nul \<notin> set root" "root \<noteq> []"
    and "alr_rw (Some (slash # s)) root (length root) bufsz = RwBuf h"
  shows "alr_guest_canon h root (length root) bufsz = slash # s"
proof -
  have nn: "\<not> alr_needs_normalize (slash # s)" using assms alr_needs_normalize_exact by blast
  then have h: "slash # s = ''/'' \<and> h = root \<or> s \<noteq> [] \<and> h = root @ slash # s" and fits: "length h < bufsz"
    using assms guest_root_test [of "slash # s"] alr_rw_buffer_fits [OF assms(5)]
    by (auto simp: alr_rw_def split: if_splits)
  then have "path_below h root" "nul \<notin> set h" using assms by (auto simp: path_below_def)
  then have "alr_path_under h root (length root)" using alr_path_under_iff assms by blast
  then show ?thesis using h fits assms(4) by (cases root) (auto simp: alr_guest_canon_def)
qed

theorem alr_guest_canon_roundtrip_witness:
  "alr_guest_canon ''/r/etc/hosts'' ''/r'' (length ''/r'') 4096 = ''/etc/hosts''"
proof -
  have "normal_path ''/etc/hosts''" by code_simp
  moreover have "alr_rw (Some ''/etc/hosts'') ''/r'' (length ''/r'') 4096 = RwBuf ''/r/etc/hosts''"
    by code_simp
  ultimately show ?thesis
    using alr_guest_canon_roundtrip [of "''etc/hosts''" "''/r''" 4096 "''/r/etc/hosts''"] by simp
qed

end
