(* ===== verification/Alr_Path.thy ===== *)
theory Alr_Path
  imports Alr_Path_Rule
begin

text \<open>
  The C++ path layer, \<^verbatim>\<open>alr_runtime/alr_path.cpp\<close> and \<^verbatim>\<open>alr_path.hpp\<close>: lexical
  normalization of guest paths against a working directory and translation into the rootfs, which
  delegates to the C rule of \<open>Alr_Path_Rule\<close>.  Thrown \<^verbatim>\<open>std::invalid_argument\<close>s are the
  \<^const>\<open>Inl\<close> results.
\<close>

section \<open>Operations\<close>

record path_translation =
  guest_path :: string
  host_path :: string
  escaped_rootfs :: bool

definition reject_nul :: "string \<Rightarrow> string \<Rightarrow> unit res" where
  "reject_nul value name =
     (if sv_find nul value 0 \<noteq> None then Inl (InvalidArgument (name @ '' must not contain NUL bytes''))
      else Inr ())"

function trim_trailing_slashes :: "string \<Rightarrow> string" where
  "trim_trailing_slashes out =
     (if 1 < length out \<and> last out = slash then trim_trailing_slashes (butlast out) else out)"
  by pat_completeness auto
termination by (relation "measure length") auto

declare trim_trailing_slashes.simps [simp del]

text \<open>The body of the component loop, and the loop over the views it visits.\<close>

definition append_component :: "string list \<Rightarrow> string \<Rightarrow> string list" where
  "append_component components component =
     (if component = [] \<or> component = ''.'' then components
      else if component = ''..'' then (if components \<noteq> [] then butlast components else components)
      else components @ [component])"

definition append_components :: "string list \<Rightarrow> string \<Rightarrow> string list" where
  "append_components components path = foldl append_component components (delim_fields slash path 0)"

definition components_to_absolute_path :: "string list \<Rightarrow> string" where
  "components_to_absolute_path components =
     (if components = [] then ''/''
      else foldl (\<lambda>out component. (out @ ''/'') @ component) [] components)"

definition is_guest_absolute_path :: "string \<Rightarrow> bool" where
  "is_guest_absolute_path path \<longleftrightarrow> path \<noteq> [] \<and> hd path = slash"

definition normalize_guest_path :: "string \<Rightarrow> string \<Rightarrow> string res" where
  "normalize_guest_path path cwd =
     res_bind (reject_nul path ''path'') (\<lambda>_.
     res_bind (reject_nul cwd ''cwd'') (\<lambda>_.
     if \<not> is_guest_absolute_path cwd then
       Inl (InvalidArgument ''cwd must be an absolute guest path'')
     else
       let components =
         (if is_guest_absolute_path path then append_components [] path
          else append_components (append_components [] cwd) path)
       in Inr (components_to_absolute_path components)))"

text \<open>\<^verbatim>\<open>char buf[4096]\<close> is the caller's buffer of \<^const>\<open>alr_rw\<close>; a \<^verbatim>\<open>NULL\<close> answer falls
  back to plain prefixing.\<close>

definition translate_rootfs_path :: "string \<Rightarrow> string \<Rightarrow> string \<Rightarrow> path_translation res" where
  "translate_rootfs_path rootfs_dir cwd path =
     res_bind (reject_nul rootfs_dir ''rootfs_dir'') (\<lambda>_.
     if \<not> is_guest_absolute_path rootfs_dir then
       Inl (InvalidArgument ''rootfs_dir must be an absolute host path'')
     else
       let rootfs = trim_trailing_slashes rootfs_dir in
       res_bind (normalize_guest_path path cwd) (\<lambda>guest.
       let rewritten = rw_text guest (alr_rw (Some guest) rootfs (length rootfs) 4096);
           host = (case rewritten of
                     None \<Rightarrow> (if guest = ''/'' then rootfs else rootfs @ guest)
                   | Some r \<Rightarrow> r)
       in Inr \<lparr>guest_path = guest, host_path = host, escaped_rootfs = False\<rparr>))"

section \<open>Refinement of the path specification\<close>

lemma reject_nul_Inr [simp, res_simps]: "reject_nul v n = Inr u \<longleftrightarrow> nul \<notin> set v"
  by (auto simp: reject_nul_def sv_find_None_iff)

lemma reject_nul_eq: "nul \<notin> set v \<Longrightarrow> reject_nul v n = Inr ()"
  by simp

lemma trim_trailing_slashes_eq: "trim_trailing_slashes r = alr_trim_root_loop r"
  by (induction r rule: trim_trailing_slashes.induct)
    (simp add: trim_trailing_slashes.simps alr_trim_root_loop.simps)

lemma trim_trailing_slashes_id:
  "\<not> (1 < length r \<and> last r = slash) \<Longrightarrow> trim_trailing_slashes r = r"
  by (simp add: trim_trailing_slashes_eq alr_trim_root_loop_id)

lemma trim_trailing_slashes_chars:
  "set (trim_trailing_slashes r) \<subseteq> set r" "r \<noteq> [] \<Longrightarrow> trim_trailing_slashes r \<noteq> []"
proof -
  obtain n where "r = alr_trim_root_loop r @ replicate n slash"
    using alr_trim_root_loop_spec [of r] by (auto simp: Let_def)
  then show "set (trim_trailing_slashes r) \<subseteq> set r"
    unfolding trim_trailing_slashes_eq by (metis Un_upper1 set_append)
  show "r \<noteq> [] \<Longrightarrow> trim_trailing_slashes r \<noteq> []"
    using alr_trim_root_loop_spec [of r] by (auto simp: Let_def trim_trailing_slashes_eq)
qed

lemma append_component_step: "append_component = path_step"
  by (intro ext) (auto simp: append_component_def path_step_def)

lemma append_components_resolve: "append_components cs p = lex_resolve cs (split_on slash p)"
  by (simp add: append_components_def lex_resolve_def append_component_step)

lemma components_to_absolute_path_render: "components_to_absolute_path cs = render cs"
proof -
  have "foldl (\<lambda>out c. (out @ ''/'') @ c) acc cs = acc @ concat (map (\<lambda>c. slash # c) cs)" for acc
    by (induction cs arbitrary: acc) auto
  from this [of "[]"] show ?thesis
    unfolding components_to_absolute_path_def render_def by (simp only: append_Nil)
qed

lemma is_guest_absolute_path_iff: "is_guest_absolute_path p \<longleftrightarrow> (\<exists>s. p = slash # s)"
  by (cases p) (auto simp: is_guest_absolute_path_def)

text \<open>The abstract meaning: an absolute path stands alone, a relative one continues the cwd.\<close>

definition resolve_against :: "string \<Rightarrow> string \<Rightarrow> string" where
  "resolve_against cwd path =
     (if is_guest_absolute_path path then normal_form path
      else render (lex_resolve (lex_resolve [] (split_on slash cwd)) (split_on slash path)))"

lemma normalize_guest_path_eq:
  "normalize_guest_path path cwd =
     (if nul \<in> set path then Inl (InvalidArgument ''path must not contain NUL bytes'')
      else if nul \<in> set cwd then Inl (InvalidArgument ''cwd must not contain NUL bytes'')
      else if \<not> is_guest_absolute_path cwd then
        Inl (InvalidArgument ''cwd must be an absolute guest path'')
      else Inr (resolve_against cwd path))"
  by (auto simp: normalize_guest_path_def reject_nul_def sv_find_None_iff append_components_resolve
      components_to_absolute_path_render resolve_against_def normal_form_def Let_def)

lemma normalize_guest_path_Inr:
  "normalize_guest_path path cwd = Inr g \<longleftrightarrow>
     nul \<notin> set path \<and> nul \<notin> set cwd \<and> is_guest_absolute_path cwd \<and> g = resolve_against cwd path"
  by (auto simp: normalize_guest_path_eq)

lemma resolve_against_normal [simp]: "normal_path (resolve_against cwd path)"
proof (cases "is_guest_absolute_path path")
  case False
  have "list_all good_component (lex_resolve (lex_resolve [] (split_on slash cwd)) (split_on slash path))"
    by (rule lex_resolve_good) (auto simp: split_on_slash_free)
  with False show ?thesis by (auto simp: resolve_against_def normal_path_render)
qed (simp add: resolve_against_def)

lemma normal_path_absolute: "normal_path p \<Longrightarrow> is_guest_absolute_path p"
  unfolding normal_path_def is_guest_absolute_path_iff using normal_form_absolute by metis

lemma resolve_against_id: "normal_path p \<Longrightarrow> resolve_against cwd p = p"
  using normal_path_absolute [of p] by (simp add: resolve_against_def normal_path_def)

lemma resolve_against_nul_free:
  "nul \<notin> set cwd \<Longrightarrow> nul \<notin> set path \<Longrightarrow> nul \<notin> set (resolve_against cwd path)"
proof (cases "is_guest_absolute_path path")
  case False
  assume nul: "nul \<notin> set cwd" "nul \<notin> set path"
  let ?cs = "lex_resolve (lex_resolve [] (split_on slash cwd)) (split_on slash path)"
  have "set ?cs \<subseteq> set (split_on slash cwd) \<union> set (split_on slash path)"
    using lex_resolve_subset [of "lex_resolve [] (split_on slash cwd)" "split_on slash path"]
      lex_resolve_subset [of "[]" "split_on slash cwd"] by auto
  then have "\<Union> (set ` set ?cs) \<subseteq> set cwd \<union> set path"
    using split_on_chars [of _ slash cwd] split_on_chars [of _ slash path] by fastforce
  then have "set (render ?cs) \<subseteq> insert slash (set cwd \<union> set path)"
    using render_chars [of ?cs] by blast
  then show ?thesis using nul False by (auto simp: resolve_against_def)
qed (simp add: resolve_against_def normal_form_nul_free)

text \<open>The translation in closed form: trimming, normalizing and the abstract rewrite.\<close>

lemma translate_rootfs_path_Inr:
  "translate_rootfs_path rootfs_dir cwd path = Inr t \<longleftrightarrow>
     nul \<notin> set rootfs_dir \<and> is_guest_absolute_path rootfs_dir \<and>
     nul \<notin> set path \<and> nul \<notin> set cwd \<and> is_guest_absolute_path cwd \<and>
     t = \<lparr>guest_path = resolve_against cwd path,
          host_path = rewrite_spec (trim_trailing_slashes rootfs_dir) (resolve_against cwd path),
          escaped_rootfs = False\<rparr>"
  (is "?lhs \<longleftrightarrow> ?rhs")
proof -
  define g where "g = resolve_against cwd path"
  define root where "root = trim_trailing_slashes rootfs_dir"
  have host: "(case rw_text g (alr_rw (Some g) root (length root) 4096) of
        None \<Rightarrow> (if g = ''/'' then root else root @ g) | Some r \<Rightarrow> r) = rewrite_spec root g"
    if nul: "nul \<notin> set rootfs_dir" "nul \<notin> set path" "nul \<notin> set cwd"
      and ab: "is_guest_absolute_path rootfs_dir"
  proof -
    obtain s where s: "g = slash # s"
      using normal_path_absolute [OF resolve_against_normal, of cwd path]
      by (auto simp: g_def is_guest_absolute_path_iff)
    have "normal_path g" unfolding g_def by simp
    then have g: "nul \<notin> set s" "normal_path (slash # s)"
      using nul resolve_against_nul_free [of cwd path] s g_def by auto
    have "rootfs_dir \<noteq> []" using ab by (auto simp: is_guest_absolute_path_def)
    then have root: "nul \<notin> set root" "root \<noteq> []"
      using nul trim_trailing_slashes_chars [of rootfs_dir] by (auto simp: root_def)
    show ?thesis
    proof (cases "alr_rw (Some g) root (length root) 4096")
      case (RwNull e)
      then show ?thesis using alr_rw_normal_Null [OF g(1) root g(2)] s by simp
    qed (use alr_rw_refines [OF g(1) root, of 4096] g(2) s in \<open>auto simp: normal_path_def\<close>)
  qed
  define ok where "ok \<longleftrightarrow> nul \<notin> set rootfs_dir \<and> is_guest_absolute_path rootfs_dir \<and>
     nul \<notin> set path \<and> nul \<notin> set cwd \<and> is_guest_absolute_path cwd"
  have "translate_rootfs_path rootfs_dir cwd path =
      Inr \<lparr>guest_path = g, host_path = rewrite_spec root g, escaped_rootfs = False\<rparr>" if ok
  proof -
    have "normalize_guest_path path cwd = Inr g"
      using that by (simp add: ok_def normalize_guest_path_Inr g_def)
    then show ?thesis
      using that host
      by (simp add: ok_def translate_rootfs_path_def reject_nul_eq root_def [symmetric] Let_def
          split del: if_split)
  qed
  moreover have "translate_rootfs_path rootfs_dir cwd path = Inr t \<Longrightarrow> ok"
    by (auto simp: translate_rootfs_path_def ok_def normalize_guest_path_Inr Let_def split: if_splits)
  ultimately have "translate_rootfs_path rootfs_dir cwd path = Inr t \<longleftrightarrow>
      ok \<and> t = \<lparr>guest_path = g, host_path = rewrite_spec root g, escaped_rootfs = False\<rparr>"
    by (cases ok) auto
  then show ?thesis by (simp only: ok_def g_def root_def conj_assoc)
qed

lemmas translate_rootfs_pathD = translate_rootfs_path_Inr [THEN iffD1]

interpretation cpp_rule: guest_normalizer
  "\<lambda>p. case normalize_guest_path p ''/'' of Inl e \<Rightarrow> None | Inr r \<Rightarrow> Some r"
  by unfold_locales
    (auto simp: normalize_guest_path_eq resolve_against_def is_guest_absolute_path_def split: if_splits)

interpretation rules: two_normalizers "\<lambda>p. alr_normalize_guest_abs p ALR_PBUF"
  "\<lambda>p. case normalize_guest_path p ''/'' of Inl e \<Rightarrow> None | Inr r \<Rightarrow> Some r"
  by unfold_locales

section \<open>Joining and confinement\<close>

lemma resolve_relative:
  assumes "\<not> is_guest_absolute_path path"
  shows "resolve_against cwd path = normal_form (cwd @ slash # path)"
proof -
  have "lex_resolve [] (split_on slash (cwd @ slash # path)) =
      lex_resolve (lex_resolve [] (split_on slash cwd)) (split_on slash path)"
    by (simp add: split_on_append lex_resolve_append)
  then show ?thesis using assms by (simp add: resolve_against_def normal_form_def)
qed

lemma normal_path_prefix:
  assumes "normal_path root" "root \<noteq> ''/''" "normal_path q" "q \<noteq> ''/''"
  shows "normal_path (root @ q)"
proof -
  obtain cs ds where "list_all good_component cs" "root = render cs" "list_all good_component ds" "q = render ds"
    using assms by (auto simp: normal_path_render)
  moreover then have "cs \<noteq> []" "ds \<noteq> []" using assms by (auto simp: render_def)
  ultimately show ?thesis
    using normal_path_render [of "root @ q"] render_append [of cs ds]
    by (metis list_all_append)
qed

definition kernel_dir_path :: "string \<Rightarrow> bool" where
  "kernel_dir_path q \<longleftrightarrow> path_below q ''/proc'' \<or> path_below q ''/sys'' \<or> path_below q ''/dev''"

lemma rewrite_spec_confined:
  assumes "q = slash # s"
  shows "path_below (rewrite_spec root q) root \<or> kernel_dir_path q \<and> rewrite_spec root q = q"
  using assms by (auto simp: rewrite_spec_def kernel_dir_path_def path_below_def)

lemma rewrite_spec_normal:
  assumes "normal_path q" "normal_path root" "root \<noteq> ''/''"
  shows "normal_path (rewrite_spec root q)"
  using assms normal_path_prefix [of root q] by (auto simp: rewrite_spec_def)

lemma rewrite_spec_idem:
  assumes "normal_path q"
  shows "rewrite_spec root (rewrite_spec root q) = rewrite_spec root q"
proof -
  obtain s where "q = slash # s"
    using assms normal_path_absolute by (auto simp: is_guest_absolute_path_iff)
  from rewrite_spec_confined [OF this, of root] show ?thesis
    unfolding kernel_dir_path_def by (auto simp: rewrite_spec_def [of root "rewrite_spec root q"])
qed

section \<open>Properties of the path layer\<close>

text \<open>C1. A translated path cannot leave the rootfs.  For every rootfs directory, working directory and
  guest path that the translation accepts, the guest path is normal (absolute, no empty, dot or
  dot-dot component), and the host path is the trimmed rootfs or a path below it, unless the guest
  path is one of the kernel directories /proc, /sys, /dev, which stay themselves.  When the rootfs
  path is itself normal and not the host root, the host path is normal too, so no dot-dot component
  is left for the kernel to climb with.\<close>

theorem translate_confined:
  assumes "translate_rootfs_path rootfs_dir cwd path = Inr t"
  shows "normal_path (guest_path t) \<and>
         (path_below (host_path t) (trim_trailing_slashes rootfs_dir) \<or>
          kernel_dir_path (guest_path t) \<and> host_path t = guest_path t) \<and>
         (normal_path (trim_trailing_slashes rootfs_dir) \<and> trim_trailing_slashes rootfs_dir \<noteq> ''/''
            \<longrightarrow> normal_path (host_path t))"
proof -
  note t = translate_rootfs_pathD [OF assms]
  then have g: "normal_path (guest_path t)" and
    h: "host_path t = rewrite_spec (trim_trailing_slashes rootfs_dir) (guest_path t)" by simp_all
  obtain s where "guest_path t = slash # s"
    using g normal_path_absolute is_guest_absolute_path_iff by blast
  then show ?thesis using g h rewrite_spec_confined rewrite_spec_normal by metis
qed

theorem translate_confined_witness:
  "\<exists>t. translate_rootfs_path ''/d/r/'' ''/usr'' ''../../../etc//hosts'' = Inr t \<and>
       host_path t = ''/d/r/etc/hosts'' \<and> path_below (host_path t) ''/d/r'' \<and> normal_path (host_path t)"
proof -
  have run: "translate_rootfs_path ''/d/r/'' ''/usr'' ''../../../etc//hosts'' =
      Inr \<lparr>guest_path = ''/etc/hosts'', host_path = ''/d/r/etc/hosts'', escaped_rootfs = False\<rparr>"
    by code_simp
  have trim: "trim_trailing_slashes ''/d/r/'' = ''/d/r''" and n: "normal_path ''/d/r''"
    by code_simp+
  show ?thesis using translate_confined [OF run] run n by (simp add: trim kernel_dir_path_def path_below_def)
qed

text \<open>C3. The two path rewriters of the repository never disagree.  For every absolute guest path and
  every absolute rootfs without a trailing slash, whenever the C rule \<open>alr_rw\<close> with its 4096-byte
  buffer returns a path, the C++ translation succeeds and returns the same host path, whatever the
  working directory; the differential test of the repository checks fourteen instances of this.\<close>

theorem path_rules_agree:
  assumes "nul \<notin> set s" "nul \<notin> set root" "root = slash # r" "\<not> (1 < length root \<and> last root = slash)"
    and "nul \<notin> set cwd" "is_guest_absolute_path cwd"
    and "rw_text (slash # s) (alr_rw (Some (slash # s)) root (length root) ALR_PBUF) = Some h"
  shows "\<exists>t. translate_rootfs_path root cwd (slash # s) = Inr t \<and> host_path t = h"
proof -
  have "h = rewrite_spec root (normal_form (slash # s))"
    using alr_rw_refines [OF assms(1,2) _ assms(7)] assms(3) by simp
  moreover have "resolve_against cwd (slash # s) = normal_form (slash # s)"
    by (simp add: resolve_against_def is_guest_absolute_path_def)
  ultimately show ?thesis
    using assms by (simp add: translate_rootfs_path_Inr trim_trailing_slashes_id is_guest_absolute_path_def)
qed

theorem path_rules_agree_witness:
  "\<exists>t. translate_rootfs_path ''/r'' ''/'' ''/../etc//passwd'' = Inr t \<and> host_path t = ''/r/etc/passwd''"
proof -
  have "rw_text ''/../etc//passwd'' (alr_rw (Some ''/../etc//passwd'') ''/r'' (length ''/r'') ALR_PBUF)
      = Some ''/r/etc/passwd''" by code_simp
  then show ?thesis
    using path_rules_agree [of "''../etc//passwd''" "''/r''" "''r''" "''/''" "''/r/etc/passwd''"]
    by (simp add: is_guest_absolute_path_def)
qed

text \<open>C7. Normalization is total on well-formed input and lexical: it fails exactly when one of the
  strings holds a NUL byte or the working directory is not absolute; otherwise the result is normal,
  normalizing it again changes nothing, and a relative path means the same as the working directory
  followed by a slash and the path.\<close>

theorem normalize_guest_path_correct:
  "((\<exists>g. normalize_guest_path path cwd = Inr g) \<longleftrightarrow>
      nul \<notin> set path \<and> nul \<notin> set cwd \<and> is_guest_absolute_path cwd) \<and>
   (\<forall>g. normalize_guest_path path cwd = Inr g \<longrightarrow>
      normal_path g \<and> normalize_guest_path g cwd = Inr g \<and>
      (\<not> is_guest_absolute_path path \<longrightarrow> normalize_guest_path (cwd @ slash # path) ''/'' = Inr g))"
proof -
  have "normalize_guest_path (cwd @ slash # path) ''/'' = Inr (resolve_against cwd path)"
    if "nul \<notin> set path" "nul \<notin> set cwd" "is_guest_absolute_path cwd" "\<not> is_guest_absolute_path path"
    using that resolve_relative [of path cwd]
    by (auto simp: normalize_guest_path_eq resolve_against_def is_guest_absolute_path_iff)
  then show ?thesis
    by (auto simp: normalize_guest_path_Inr resolve_against_id resolve_against_nul_free)
qed

theorem normalize_guest_path_correct_witness:
  "normalize_guest_path ''../lib/./x'' ''/usr/bin'' = Inr ''/usr/lib/x'' \<and>
   normalize_guest_path ''/usr/bin/../lib/./x'' ''/'' = Inr ''/usr/lib/x''"
proof -
  have "normalize_guest_path ''../lib/./x'' ''/usr/bin'' = Inr ''/usr/lib/x''" by code_simp
  then show ?thesis
    using normalize_guest_path_correct [of "''../lib/./x''" "''/usr/bin''"]
    by (simp add: is_guest_absolute_path_def)
qed

text \<open>Translation is idempotent: a host path handed back to the translation is not prefixed a second
  time.  For a rootfs whose trimmed path is normal and not the host root, translating the host path
  again, from any valid working directory, yields the same host path.\<close>

theorem translate_idempotent:
  assumes "translate_rootfs_path rootfs_dir cwd path = Inr t"
    and "normal_path (trim_trailing_slashes rootfs_dir)" "trim_trailing_slashes rootfs_dir \<noteq> ''/''"
  shows "\<exists>t'. translate_rootfs_path rootfs_dir cwd (host_path t) = Inr t' \<and> host_path t' = host_path t"
proof -
  note t = translate_rootfs_pathD [OF assms(1)]
  let ?root = "trim_trailing_slashes rootfs_dir" and ?g = "resolve_against cwd path"
  have "nul \<notin> set ?root"
    using t trim_trailing_slashes_chars [of rootfs_dir] by auto
  then have nul: "nul \<notin> set (rewrite_spec ?root ?g)"
    using t resolve_against_nul_free [of cwd path] by (auto simp: rewrite_spec_def)
  have "normal_path (rewrite_spec ?root ?g)" using rewrite_spec_normal assms by simp
  then show ?thesis
    using t nul by (simp add: translate_rootfs_path_Inr resolve_against_id rewrite_spec_idem)
qed

theorem translate_idempotent_witness:
  "\<exists>t'. translate_rootfs_path ''/r'' ''/'' ''/r/etc/os-release'' = Inr t' \<and> host_path t' = ''/r/etc/os-release''"
proof -
  have run: "translate_rootfs_path ''/r'' ''/'' ''/etc/os-release'' =
      Inr \<lparr>guest_path = ''/etc/os-release'', host_path = ''/r/etc/os-release'', escaped_rootfs = False\<rparr>"
    by code_simp
  have "trim_trailing_slashes ''/r'' = ''/r''" "normal_path ''/r''" by code_simp+
  then show ?thesis using translate_idempotent [OF run] by simp
qed

end
