(* ===== verification/Alr_Config.thy ===== *)
theory Alr_Config
  imports Alr_Path
begin

text \<open>
  The runtime configuration record and its wire format, \<^verbatim>\<open>alr_runtime/alr_config.cpp\<close> and
  \<^verbatim>\<open>alr_config.hpp\<close>: validation, the escaped line-record serialization, the 64-bit checksum and
  the parser that the trampoline runs on the other side of an exec boundary.
\<close>

unbundle bit_operations_syntax

section \<open>Data\<close>

datatype bind_mount = BindMount (bind_guest: string) (bind_host: string)

text \<open>The order of binds is the comparator that \<^verbatim>\<open>std::sort\<close> is given.\<close>

definition bind_before :: "bind_mount \<Rightarrow> bind_mount \<Rightarrow> bool" where
  "bind_before left right =
     (if bind_guest left = bind_guest right then bind_host left < bind_host right
      else bind_guest left < bind_guest right)"

instantiation bind_mount :: linorder
begin

definition less_bind_mount :: "bind_mount \<Rightarrow> bind_mount \<Rightarrow> bool" where
  "left < right \<longleftrightarrow> bind_before left right"

definition less_eq_bind_mount :: "bind_mount \<Rightarrow> bind_mount \<Rightarrow> bool" where
  "less_eq_bind_mount left right \<longleftrightarrow> left < right \<or> left = right"

instance
proof
  fix x y z :: bind_mount
  show "x < y \<longleftrightarrow> x \<le> y \<and> \<not> y \<le> x"
    by (cases x; cases y) (auto simp: bind_before_def less_bind_mount_def less_eq_bind_mount_def split: if_splits)
  show "x \<le> x" by (simp add: less_eq_bind_mount_def)
  show "x \<le> y \<Longrightarrow> y \<le> z \<Longrightarrow> x \<le> z"
    by (cases x; cases y; cases z)
      (auto simp: bind_before_def less_bind_mount_def less_eq_bind_mount_def split: if_splits)
  show "x \<le> y \<Longrightarrow> y \<le> x \<Longrightarrow> x = y"
    by (cases x; cases y) (auto simp: bind_before_def less_bind_mount_def less_eq_bind_mount_def split: if_splits)
  show "x \<le> y \<or> y \<le> x"
    by (cases x; cases y) (auto simp: bind_before_def less_bind_mount_def less_eq_bind_mount_def split: if_splits)
qed

end

record runtime_config =
  rc_package_name :: string
  rc_rootfs_dir :: string
  rc_cwd :: string
  rc_program :: string
  rc_env :: str_map
  rc_binds :: "bind_mount list"
  rc_hook_path :: string
  rc_interposer_path :: string
  rc_bridge_path :: string
  rc_fake_root :: bool
  rc_verbose :: int
  rc_trace_path :: bool
  rc_trace_exec :: bool

definition default_runtime_config :: runtime_config where
  "default_runtime_config =
     \<lparr>rc_package_name = [], rc_rootfs_dir = [], rc_cwd = ''/'', rc_program = [], rc_env = [],
      rc_binds = [], rc_hook_path = [], rc_interposer_path = [], rc_bridge_path = [],
      rc_fake_root = False, rc_verbose = 0, rc_trace_path = False, rc_trace_exec = False\<rparr>"

record serialized_runtime_config =
  sc_text :: string
  sc_checksum_hex :: string

definition kFormat :: string where "kFormat = ''alr-config-v1''"

section \<open>Checks\<close>

definition is_absolute_host_path :: "string \<Rightarrow> bool" where
  "is_absolute_host_path path \<longleftrightarrow> path \<noteq> [] \<and> hd path = slash"

definition reject_empty :: "string \<Rightarrow> string \<Rightarrow> unit res" where
  "reject_empty value name =
     (if value = [] then Inl (InvalidArgument (name @ '' must not be empty'')) else Inr ())"

definition reject_nul_config :: "string \<Rightarrow> string \<Rightarrow> unit res" where
  "reject_nul_config value name =
     (if sv_find nul value 0 \<noteq> None then Inl (InvalidArgument (name @ '' must not contain NUL bytes''))
      else Inr ())"

definition require_absolute_host :: "string \<Rightarrow> string \<Rightarrow> unit res" where
  "require_absolute_host value name =
     res_bind (reject_empty value name) (\<lambda>_.
     res_bind (reject_nul_config value name) (\<lambda>_.
     if \<not> is_absolute_host_path value then
       Inl (InvalidArgument (name @ '' must be an absolute host path''))
     else Inr ()))"

definition require_optional_absolute_host :: "string \<Rightarrow> string \<Rightarrow> unit res" where
  "require_optional_absolute_host value name =
     res_bind (reject_nul_config value name) (\<lambda>_.
     if value \<noteq> [] \<and> \<not> is_absolute_host_path value then
       Inl (InvalidArgument (name @ '' must be an absolute host path when set''))
     else Inr ())"

text \<open>\<^verbatim>\<open>std::iscntrl\<close> in the C locale.\<close>

definition iscntrl :: "char \<Rightarrow> bool" where
  "iscntrl c \<longleftrightarrow> byte_of c < 0x20 \<or> byte_of c = 0x7F"

definition validate_env_key :: "string \<Rightarrow> unit res" where
  "validate_env_key key =
     res_bind (reject_empty key ''env key'') (\<lambda>_.
     res_bind (reject_nul_config key ''env key'') (\<lambda>_.
     res_each (\<lambda>c. if c = CHR ''='' \<or> iscntrl c
                    then Inl (InvalidArgument ''env key contains an invalid character'')
                    else Inr ()) key))"

definition normalize_required_guest_path :: "string \<Rightarrow> string \<Rightarrow> string res" where
  "normalize_required_guest_path path name =
     res_bind (reject_empty path name) (\<lambda>_.
     res_bind (reject_nul_config path name) (\<lambda>_.
     if \<not> is_guest_absolute_path path then
       Inl (InvalidArgument (name @ '' must be an absolute guest path''))
     else normalize_guest_path path ''/''))"

section \<open>Fields on the wire\<close>

definition escape_char :: "char \<Rightarrow> string" where
  "escape_char c =
     (if c = CHR ''%'' \<or> c = CHR 0x0A \<or> c = CHR 0x0D \<or> c = CHR 0x09 \<or> byte_of c < 0x20 \<or>
         byte_of c = 0x7F
      then CHR ''%'' # pad_zero 2 (map digit_char_upper (base_digits 16 (byte_of c)))
      else [c])"

definition escape_field :: "string \<Rightarrow> string" where
  "escape_field value = concat (map escape_char value)"

definition hex_value :: "char \<Rightarrow> int" where
  "hex_value c =
     (let n = int (byte_of c) in
      if 48 \<le> n \<and> n \<le> 57 then n - 48
      else if 97 \<le> n \<and> n \<le> 102 then 10 + (n - 97)
      else if 65 \<le> n \<and> n \<le> 70 then 10 + (n - 65)
      else -1)"

text \<open>The decoded byte \<^verbatim>\<open>(high << 4) | low\<close> is a sum because \<open>low\<close> is below sixteen.\<close>

fun unescape_field :: "string \<Rightarrow> string res" where
  "unescape_field [] = Inr []"
| "unescape_field (c # rest) =
     (if c \<noteq> CHR ''%'' then res_bind (unescape_field rest) (\<lambda>out. Inr (c # out))
      else
        (case rest of
           h # l # rest' \<Rightarrow>
             if hex_value h < 0 \<or> hex_value l < 0
             then Inl (InvalidArgument ''invalid escape in runtime config'')
             else res_bind (unescape_field rest')
                    (\<lambda>out. Inr (char_of (nat (hex_value h * 16 + hex_value l)) # out))
         | _ \<Rightarrow> Inl (InvalidArgument ''truncated escape in runtime config'')))"

definition split_tabs :: "string \<Rightarrow> string list" where
  "split_tabs line = delim_fields (CHR 0x09) line 0"

definition bool_text :: "bool \<Rightarrow> string" where
  "bool_text value = (if value then ''1'' else ''0'')"

definition parse_bool :: "string \<Rightarrow> string \<Rightarrow> bool res" where
  "parse_bool value name =
     (if value = ''0'' then Inr False
      else if value = ''1'' then Inr True
      else Inl (InvalidArgument (name @ '' must be 0 or 1'')))"

definition parse_int :: "string \<Rightarrow> string \<Rightarrow> int res" where
  "parse_int value name =
     (if value = [] \<or> 2 < length value then Inl (InvalidArgument (name @ '' is out of range''))
      else res_fold (\<lambda>c parsed.
             if byte_of c < 48 \<or> 57 < byte_of c
             then Inl (InvalidArgument (name @ '' must be numeric''))
             else Inr (parsed * 10 + (int (byte_of c) - 48))) value 0)"

section \<open>Validation, serialization, parsing\<close>

definition validate_bind :: "bind_mount \<Rightarrow> bind_mount res" where
  "validate_bind b =
     res_bind (normalize_required_guest_path (bind_guest b) ''bind guest_path'') (\<lambda>g.
     res_bind (require_absolute_host (bind_host b) ''bind host_path'') (\<lambda>_.
     Inr (BindMount g (bind_host b))))"

definition validate_runtime_config :: "runtime_config \<Rightarrow> runtime_config res" where
  "validate_runtime_config config =
     res_bind (reject_empty (rc_package_name config) ''package_name'') (\<lambda>_.
     res_bind (reject_nul_config (rc_package_name config) ''package_name'') (\<lambda>_.
     res_bind (require_absolute_host (rc_rootfs_dir config) ''rootfs_dir'') (\<lambda>_.
     res_bind (normalize_required_guest_path (rc_cwd config) ''cwd'') (\<lambda>cwd'.
     res_bind (normalize_required_guest_path (rc_program config) ''program'') (\<lambda>program'.
     res_bind (require_optional_absolute_host (rc_hook_path config) ''hook_path'') (\<lambda>_.
     res_bind (require_optional_absolute_host (rc_interposer_path config) ''interposer_path'') (\<lambda>_.
     res_bind (require_optional_absolute_host (rc_bridge_path config) ''bridge_path'') (\<lambda>_.
     if rc_verbose config < 0 \<or> 2 < rc_verbose config then
       Inl (InvalidArgument ''verbose must be between 0 and 2'')
     else
       res_bind (res_each (\<lambda>(key, value).
          res_bind (validate_env_key key) (\<lambda>_. reject_nul_config value ''env value'')) (rc_env config)) (\<lambda>_.
       res_bind (res_map validate_bind (rc_binds config)) (\<lambda>binds'.
       Inr (config\<lparr>rc_cwd := cwd', rc_program := program', rc_binds := sort binds'\<rparr>)))))))))))"

definition append_record :: "string \<Rightarrow> string \<Rightarrow> string \<Rightarrow> string" where
  "append_record kind key value = kind @ tab @ escape_field key @ tab @ escape_field value @ nl"

definition checksum_step :: "64 word \<Rightarrow> char \<Rightarrow> 64 word" where
  "checksum_step hash c = (hash XOR of_nat (byte_of c)) * 1099511628211"

definition runtime_config_checksum :: "string \<Rightarrow> 64 word" where
  "runtime_config_checksum text = foldl checksum_step 1469598103934665603 text"

definition runtime_config_checksum_hex :: "string \<Rightarrow> string" where
  "runtime_config_checksum_hex text = pad_zero 16 (hex_nat (unat (runtime_config_checksum text)))"

definition config_records :: "runtime_config \<Rightarrow> (string \<times> string \<times> string) list" where
  "config_records config =
     [(''field'', ''package_name'', rc_package_name config),
      (''field'', ''rootfs_dir'', rc_rootfs_dir config),
      (''field'', ''cwd'', rc_cwd config),
      (''field'', ''program'', rc_program config),
      (''field'', ''hook_path'', rc_hook_path config),
      (''field'', ''interposer_path'', rc_interposer_path config),
      (''field'', ''bridge_path'', rc_bridge_path config),
      (''flag'', ''fake_root'', bool_text (rc_fake_root config)),
      (''flag'', ''verbose'', dec_int (rc_verbose config)),
      (''flag'', ''trace_path'', bool_text (rc_trace_path config)),
      (''flag'', ''trace_exec'', bool_text (rc_trace_exec config))] @
     map (\<lambda>(key, value). (''env'', key, value)) (rc_env config) @
     map (\<lambda>b. (''bind'', bind_guest b, bind_host b)) (rc_binds config)"

definition serialize_runtime_config :: "runtime_config \<Rightarrow> serialized_runtime_config res" where
  "serialize_runtime_config input =
     res_bind (validate_runtime_config input) (\<lambda>config.
     let text = kFormat @ nl @
       concat (map (\<lambda>(kind, key, value). append_record kind key value) (config_records config))
     in Inr \<lparr>sc_text = text, sc_checksum_hex = runtime_config_checksum_hex text\<rparr>)"

definition apply_record :: "string \<Rightarrow> string \<Rightarrow> string \<Rightarrow> runtime_config \<Rightarrow> runtime_config res" where
  "apply_record kind key value config =
     (if kind = ''field'' then
        (if key = ''package_name'' then Inr (config\<lparr>rc_package_name := value\<rparr>)
         else if key = ''rootfs_dir'' then Inr (config\<lparr>rc_rootfs_dir := value\<rparr>)
         else if key = ''cwd'' then Inr (config\<lparr>rc_cwd := value\<rparr>)
         else if key = ''program'' then Inr (config\<lparr>rc_program := value\<rparr>)
         else if key = ''hook_path'' then Inr (config\<lparr>rc_hook_path := value\<rparr>)
         else if key = ''interposer_path'' then Inr (config\<lparr>rc_interposer_path := value\<rparr>)
         else if key = ''bridge_path'' then Inr (config\<lparr>rc_bridge_path := value\<rparr>)
         else Inl (InvalidArgument ''unknown runtime config field''))
      else if kind = ''flag'' then
        (if key = ''fake_root'' then
           res_bind (parse_bool value ''fake_root'') (\<lambda>b. Inr (config\<lparr>rc_fake_root := b\<rparr>))
         else if key = ''verbose'' then
           res_bind (parse_int value ''verbose'') (\<lambda>n. Inr (config\<lparr>rc_verbose := n\<rparr>))
         else if key = ''trace_path'' then
           res_bind (parse_bool value ''trace_path'') (\<lambda>b. Inr (config\<lparr>rc_trace_path := b\<rparr>))
         else if key = ''trace_exec'' then
           res_bind (parse_bool value ''trace_exec'') (\<lambda>b. Inr (config\<lparr>rc_trace_exec := b\<rparr>))
         else Inl (InvalidArgument ''unknown runtime config flag''))
      else if kind = ''env'' then Inr (config\<lparr>rc_env := smap_set key value (rc_env config)\<rparr>)
      else if kind = ''bind'' then Inr (config\<lparr>rc_binds := rc_binds config @ [BindMount key value]\<rparr>)
      else Inl (InvalidArgument ''unknown runtime config record kind''))"

text \<open>One turn of the line loop; the state is \<^verbatim>\<open>saw_header\<close> and the configuration so far.\<close>

definition parse_line :: "string \<Rightarrow> bool \<times> runtime_config \<Rightarrow> (bool \<times> runtime_config) res" where
  "parse_line line st =
     (case st of (saw_header, config) \<Rightarrow>
        if \<not> saw_header then
          (if line \<noteq> kFormat then Inl (InvalidArgument ''unsupported runtime config format'')
           else Inr (True, config))
        else if line \<noteq> [] then
          (let fields = split_tabs line in
           if length fields \<noteq> 3 then
             Inl (InvalidArgument ''runtime config record must have three fields'')
           else
             res_bind (unescape_field (fields ! 0)) (\<lambda>kind.
             res_bind (unescape_field (fields ! 1)) (\<lambda>key.
             res_bind (unescape_field (fields ! 2)) (\<lambda>value.
             res_bind (apply_record kind key value config) (\<lambda>config'. Inr (True, config'))))))
        else Inr (True, config))"

definition parse_runtime_config :: "string \<Rightarrow> runtime_config res" where
  "parse_runtime_config text =
     res_bind (reject_empty text ''runtime config'') (\<lambda>_.
     res_bind (reject_nul_config text ''runtime config'') (\<lambda>_.
     res_bind (res_fold parse_line (delim_fields (CHR 0x0A) text 0) (False, default_runtime_config))
       (\<lambda>(saw_header, config). validate_runtime_config config)))"

section \<open>What a validated configuration is\<close>

definition host_path_ok :: "string \<Rightarrow> bool" where
  "host_path_ok v \<longleftrightarrow> is_absolute_host_path v \<and> nul \<notin> set v"

definition guest_path_ok :: "string \<Rightarrow> bool" where
  "guest_path_ok v \<longleftrightarrow> normal_path v \<and> nul \<notin> set v"

definition env_key_ok :: "string \<Rightarrow> bool" where
  "env_key_ok k \<longleftrightarrow> k \<noteq> [] \<and> (\<forall>c \<in> set k. c \<noteq> CHR ''='' \<and> \<not> iscntrl c)"

definition env_entry_ok :: "string \<times> string \<Rightarrow> bool" where
  "env_entry_ok kv \<longleftrightarrow> env_key_ok (fst kv) \<and> nul \<notin> set (snd kv)"

definition optional_host_path_ok :: "string \<Rightarrow> bool" where
  "optional_host_path_ok v \<longleftrightarrow> v = [] \<or> host_path_ok v"

definition bind_ok :: "bind_mount \<Rightarrow> bool" where
  "bind_ok b \<longleftrightarrow> guest_path_ok (bind_guest b) \<and> host_path_ok (bind_host b)"

definition valid_runtime_config :: "runtime_config \<Rightarrow> bool" where
  "valid_runtime_config c \<longleftrightarrow>
     rc_package_name c \<noteq> [] \<and> nul \<notin> set (rc_package_name c) \<and>
     host_path_ok (rc_rootfs_dir c) \<and> guest_path_ok (rc_cwd c) \<and> guest_path_ok (rc_program c) \<and>
     optional_host_path_ok (rc_hook_path c) \<and> optional_host_path_ok (rc_interposer_path c) \<and>
     optional_host_path_ok (rc_bridge_path c) \<and> 0 \<le> rc_verbose c \<and> rc_verbose c \<le> 2 \<and>
     list_all env_entry_ok (rc_env c) \<and> list_all bind_ok (rc_binds c) \<and> sorted (rc_binds c)"

lemma reject_empty_Inr [simp, res_simps]: "reject_empty v n = Inr u \<longleftrightarrow> v \<noteq> []"
  by (simp add: reject_empty_def)

lemma reject_nul_config_Inr [simp, res_simps]: "reject_nul_config v n = Inr u \<longleftrightarrow> nul \<notin> set v"
  by (simp add: reject_nul_config_def sv_find_None_iff)

lemma require_absolute_host_Inr [simp, res_simps]:
  "require_absolute_host v n = Inr u \<longleftrightarrow> host_path_ok v"
  by (auto simp: require_absolute_host_def host_path_ok_def is_absolute_host_path_def)

lemma require_optional_absolute_host_Inr [simp, res_simps]:
  "require_optional_absolute_host v n = Inr u \<longleftrightarrow> optional_host_path_ok v"
  by (auto simp: require_optional_absolute_host_def optional_host_path_ok_def host_path_ok_def
      is_absolute_host_path_def)

lemma iscntrl_nul [simp]: "iscntrl nul"
  by (simp add: iscntrl_def)

lemma validate_env_key_Inr [simp, res_simps]: "validate_env_key k = Inr u \<longleftrightarrow> env_key_ok k"
proof -
  have "validate_env_key k = Inr u \<longleftrightarrow>
      k \<noteq> [] \<and> nul \<notin> set k \<and> (\<forall>c \<in> set k. \<not> (c = CHR ''='' \<or> iscntrl c))"
    by (simp only: validate_env_key_def res_bind_eq_Inr reject_empty_Inr reject_nul_config_Inr
        res_each_Inr if_Inl_eq_Inr simp_thms ex_simps)
  then show ?thesis unfolding env_key_ok_def using iscntrl_nul by blast
qed

lemma validate_env_Inr [res_simps]:
  "res_each (\<lambda>(key, value). res_bind (validate_env_key key) (\<lambda>_. reject_nul_config value n)) env = Inr u
     \<longleftrightarrow> list_all env_entry_ok env"
  by (auto simp: list_all_iff env_entry_ok_def)

lemma normalize_required_guest_path_Inr [simp, res_simps]:
  "normalize_required_guest_path p n = Inr g \<longleftrightarrow>
     nul \<notin> set p \<and> is_guest_absolute_path p \<and> g = normal_form p"
  by (auto simp: normalize_required_guest_path_def normalize_guest_path_Inr resolve_against_def
      is_guest_absolute_path_def)

lemma validate_bind_Inr [simp, res_simps]:
  "validate_bind b = Inr b' \<longleftrightarrow>
     nul \<notin> set (bind_guest b) \<and> is_guest_absolute_path (bind_guest b) \<and> host_path_ok (bind_host b) \<and>
     b' = BindMount (normal_form (bind_guest b)) (bind_host b)"
  by (auto simp: validate_bind_def)

lemma guest_path_okD: "guest_path_ok p \<Longrightarrow> nul \<notin> set p \<and> is_guest_absolute_path p \<and> normal_form p = p"
  using normal_path_absolute by (auto simp: guest_path_ok_def normal_path_def)

lemma guest_path_ok_normal_form [simp]: "nul \<notin> set p \<Longrightarrow> guest_path_ok (normal_form p)"
  by (simp add: guest_path_ok_def normal_form_nul_free)

lemma validate_runtime_config_Inr:
  "validate_runtime_config c = Inr c' \<longleftrightarrow>
     (rc_package_name c \<noteq> [] \<and> nul \<notin> set (rc_package_name c) \<and> host_path_ok (rc_rootfs_dir c) \<and>
      nul \<notin> set (rc_cwd c) \<and> is_guest_absolute_path (rc_cwd c) \<and>
      nul \<notin> set (rc_program c) \<and> is_guest_absolute_path (rc_program c) \<and>
      optional_host_path_ok (rc_hook_path c) \<and> optional_host_path_ok (rc_interposer_path c) \<and>
      optional_host_path_ok (rc_bridge_path c) \<and> 0 \<le> rc_verbose c \<and> rc_verbose c \<le> 2 \<and>
      list_all env_entry_ok (rc_env c)) \<and>
     (\<exists>binds'. res_map validate_bind (rc_binds c) = Inr binds' \<and>
        c' = c\<lparr>rc_cwd := normal_form (rc_cwd c), rc_program := normal_form (rc_program c),
               rc_binds := sort binds'\<rparr>)"
  by (simp only: validate_runtime_config_def validate_env_Inr res_bind_eq_Inr if_Inl_eq_Inr
      reject_empty_Inr reject_nul_config_Inr require_absolute_host_Inr
      require_optional_absolute_host_Inr normalize_required_guest_path_Inr not_less de_Morgan_disj
      simp_thms ex_simps conj_assoc sum.inject) (auto simp: eq_commute)

lemma validate_runtime_config_valid:
  assumes "validate_runtime_config c = Inr c'"
  shows "valid_runtime_config c'"
proof -
  from assms obtain binds' where binds: "res_map validate_bind (rc_binds c) = Inr binds'"
    and c': "c' = c\<lparr>rc_cwd := normal_form (rc_cwd c), rc_program := normal_form (rc_program c),
               rc_binds := sort binds'\<rparr>"
    unfolding validate_runtime_config_Inr by blast
  have "list_all bind_ok binds'"
    using binds by (auto simp: res_map_Inr list_all2_conv_all_nth list_all_length bind_ok_def)
  then show ?thesis
    using assms unfolding c' valid_runtime_config_def validate_runtime_config_Inr
    by (simp add: list_all_iff)
qed

lemma validate_runtime_config_frame:
  assumes "validate_runtime_config c = Inr c'"
  shows "c' = c\<lparr>rc_cwd := rc_cwd c', rc_program := rc_program c', rc_binds := rc_binds c'\<rparr>"
  using assms by (auto simp: validate_runtime_config_Inr)

lemma validate_runtime_config_id:
  assumes "valid_runtime_config c"
  shows "validate_runtime_config c = Inr c"
proof -
  have "res_map validate_bind (rc_binds c) = Inr (rc_binds c)"
    using assms
    by (intro res_map_id) (auto simp: valid_runtime_config_def list_all_iff bind_ok_def dest!: guest_path_okD)
  moreover have "sort (rc_binds c) = rc_binds c"
    using assms by (simp add: valid_runtime_config_def sorted_sort_id)
  ultimately show ?thesis
    using assms guest_path_okD [of "rc_cwd c"] guest_path_okD [of "rc_program c"]
    unfolding validate_runtime_config_Inr valid_runtime_config_def by simp
qed

section \<open>The wire format round-trips\<close>

lemma byte_of_less [simp]: "byte_of c < (256 :: nat)"
  by (rule nat_of_char_less_256)

lemma digit_char_upper_0: "digit_char_upper 0 = CHR ''0''"
  by code_simp

lemma byte_of_digit_char_upper:
  "d < 16 \<Longrightarrow> byte_of (digit_char_upper d) = (if d < 10 then 48 + d else 55 + d)"
  by (simp add: digit_char_upper_def)

lemma hex_value_digit_char_upper: "d < 16 \<Longrightarrow> hex_value (digit_char_upper d) = int d"
  by (auto simp: hex_value_def Let_def byte_of_digit_char_upper)

lemma hex_byte_digits:
  assumes "n < 256"
  shows "pad_zero 2 (map digit_char_upper (base_digits 16 n)) =
    [digit_char_upper (n div 16), digit_char_upper (n mod 16)]"
proof (cases "n < 16")
  case True
  then show ?thesis
    by (simp add: base_digits.simps [of 16 n] pad_zero_def digit_char_upper_0)
next
  case False
  with assms have "n div 16 < 16" by simp
  with False show ?thesis
    by (simp add: base_digits.simps [of 16 n] base_digits.simps [of 16 "n div 16"] pad_zero_def)
qed

definition escaped_byte :: "char \<Rightarrow> bool" where
  "escaped_byte c \<longleftrightarrow> c = CHR ''%'' \<or> byte_of c < 0x20 \<or> byte_of c = 0x7F"

lemma escape_char_eq:
  "escape_char c =
     (if escaped_byte c
      then [CHR ''%'', digit_char_upper (byte_of c div 16), digit_char_upper (byte_of c mod 16)]
      else [c])"
proof -
  have "c = CHR 0x0A \<or> c = CHR 0x0D \<or> c = CHR 0x09 \<Longrightarrow> byte_of c < (0x20 :: nat)" by auto
  then show ?thesis
    unfolding escape_char_def escaped_byte_def using hex_byte_digits [OF byte_of_less, of c] by auto
qed

lemma escape_char_printable: "x \<in> set (escape_char c) \<Longrightarrow> (0x20 :: nat) \<le> byte_of x"
  by (auto simp: escape_char_eq escaped_byte_def byte_of_digit_char_upper split: if_splits)

lemma escape_field_clean:
  "CHR 0x09 \<notin> set (escape_field v)" "CHR 0x0A \<notin> set (escape_field v)" "nul \<notin> set (escape_field v)"
  using escape_char_printable by (fastforce simp: escape_field_def)+

lemma unescape_escape_char:
  "unescape_field (escape_char c @ s) = res_bind (unescape_field s) (\<lambda>out. Inr (c # out))"
proof (cases "escaped_byte c")
  case True
  have "byte_of c div 16 < (16 :: nat)" using byte_of_less [of c] by (intro less_mult_imp_div_less) simp
  moreover have "nat (int (byte_of c div 16) * 16 + int (byte_of c mod 16)) = byte_of c"
    by (simp add: zmod_int zdiv_int flip: of_nat_add of_nat_mult)
  ultimately show ?thesis using True by (simp add: escape_char_eq hex_value_digit_char_upper)
next
  case False
  then show ?thesis by (simp add: escape_char_eq escaped_byte_def)
qed

lemma unescape_escape_field [simp]: "unescape_field (escape_field v) = Inr v"
  by (induction v) (simp_all add: escape_field_def unescape_escape_char)

lemma unescape_plain: "CHR ''%'' \<notin> set v \<Longrightarrow> unescape_field v = Inr v"
  by (induction v) auto

definition record_line :: "string \<times> string \<times> string \<Rightarrow> string" where
  "record_line r = (case r of (kind, key, value) \<Rightarrow> kind @ tab @ escape_field key @ tab @ escape_field value)"

definition record_kinds :: "string set" where
  "record_kinds = {''field'', ''flag'', ''env'', ''bind''}"

lemma record_kind_clean:
  assumes "kind \<in> record_kinds"
  shows "CHR 0x09 \<notin> set kind" "CHR 0x0A \<notin> set kind" "nul \<notin> set kind" "unescape_field kind = Inr kind"
  using assms by (auto simp: record_kinds_def unescape_plain)

lemma record_line_no_newline: "fst r \<in> record_kinds \<Longrightarrow> CHR 0x0A \<notin> set (record_line r)"
  by (cases r) (auto simp: record_line_def record_kind_clean escape_field_clean)

lemma split_on_lines:
  "(\<And>x. x \<in> set xs \<Longrightarrow> c \<notin> set (f x)) \<Longrightarrow>
     split_on c (concat (map (\<lambda>x. f x @ [c]) xs)) = map f xs @ [[]]"
  by (induction xs) (auto simp: split_on_append_delim)

lemma parse_record_line:
  assumes "kind \<in> record_kinds"
  shows "parse_line (record_line (kind, key, value)) (True, config) =
    res_bind (apply_record kind key value config) (\<lambda>config'. Inr (True, config'))"
proof -
  have "split_tabs (record_line (kind, key, value)) = [kind, escape_field key, escape_field value]"
    using record_kind_clean [OF assms] escape_field_clean
    by (simp add: split_tabs_def record_line_def split_on_append_delim split_on_no_delim)
  moreover have "record_line (kind, key, value) \<noteq> []" by (simp add: record_line_def)
  ultimately show ?thesis
    using record_kind_clean(4) [OF assms] by (simp add: parse_line_def Let_def)
qed

lemma parse_record_lines:
  assumes "\<forall>r \<in> set rs. fst r \<in> record_kinds"
  shows "res_fold parse_line (map record_line rs) (True, config) =
    res_bind (res_fold (\<lambda>(kind, key, value). apply_record kind key value) rs config)
      (\<lambda>config'. Inr (True, config'))"
  using assms
proof (induction rs arbitrary: config)
  case (Cons r rs)
  obtain kind key val where r: "r = (kind, key, val)" by (cases r)
  with Cons.prems have "kind \<in> record_kinds" by simp
  then show ?case
    using Cons by (cases "apply_record kind key val config") (simp_all add: r parse_record_line)
qed simp

lemma parse_bool_text [simp]: "parse_bool (bool_text b) n = Inr b"
  by (simp add: parse_bool_def bool_text_def)

lemma parse_int_dec [simp]:
  assumes "0 \<le> v" "v \<le> 2"
  shows "parse_int (dec_int v) n = Inr v"
proof -
  consider "v = 0" | "v = 1" | "v = 2" using assms by linarith
  then show ?thesis
    by cases (simp_all add: dec_int_def dec_nat_def base_digits.simps digit_char_def parse_int_def)
qed

lemma apply_env_records:
  "res_fold (\<lambda>(kind, key, value). apply_record kind key value)
     (map (Pair ''env'') env) config =
   Inr (config\<lparr>rc_env := fold (\<lambda>(k, v). smap_set k v) env (rc_env config)\<rparr>)"
  by (induction env arbitrary: config) (auto simp: apply_record_def)

lemma apply_bind_records:
  "res_fold (\<lambda>(kind, key, value). apply_record kind key value)
     (map (\<lambda>b. (''bind'', bind_guest b, bind_host b)) binds) config =
   Inr (config\<lparr>rc_binds := rc_binds config @ binds\<rparr>)"
  by (induction binds arbitrary: config) (auto simp: apply_record_def)

lemma apply_config_records:
  assumes "smap_ok (rc_env c)" "0 \<le> rc_verbose c" "rc_verbose c \<le> 2"
  shows "res_fold (\<lambda>(kind, key, value). apply_record kind key value) (config_records c)
    default_runtime_config = Inr c"
proof -
  have env: "fold (\<lambda>(k, v). smap_set k v) (rc_env c) [] = rc_env c"
    using smap_of_sorted [OF assms(1)] by (simp add: smap_of_def)
  show ?thesis
    unfolding config_records_def res_fold_append
    by (simp add: apply_record_def apply_env_records apply_bind_records assms env
        default_runtime_config_def)
qed

lemma config_record_kinds: "\<forall>r \<in> set (config_records c). fst r \<in> record_kinds"
  by (auto simp: config_records_def record_kinds_def)

lemma serialized_text:
  assumes "serialize_runtime_config c = Inr s"
  obtains c' where "validate_runtime_config c = Inr c'"
    and "sc_text s = kFormat @ nl @ concat (map (\<lambda>r. record_line r @ nl) (config_records c'))"
    and "sc_checksum_hex s = runtime_config_checksum_hex (sc_text s)"
proof -
  have "(\<lambda>(kind, key, value). append_record kind key value) = (\<lambda>r. record_line r @ nl)"
    by (auto simp: append_record_def record_line_def)
  with assms that show thesis
    by (auto simp: serialize_runtime_config_def Let_def)
qed

lemma serialized_lines:
  "split_on (CHR 0x0A) (kFormat @ nl @ concat (map (\<lambda>r. record_line r @ nl) (config_records c))) =
     kFormat # map record_line (config_records c) @ [[]]"
proof -
  have "CHR 0x0A \<notin> set kFormat" by (simp add: kFormat_def)
  moreover have "split_on (CHR 0x0A) (concat (map (\<lambda>r. record_line r @ nl) (config_records c))) =
      map record_line (config_records c) @ [[]]"
    using config_record_kinds record_line_no_newline by (intro split_on_lines) blast
  ultimately show ?thesis by (simp add: split_on_append_delim)
qed

lemma serialized_no_nul:
  "nul \<notin> set (kFormat @ nl @ concat (map (\<lambda>r. record_line r @ nl) (config_records c)))"
proof -
  have "nul \<notin> set (record_line r)" if "r \<in> set (config_records c)" for r
    using that config_record_kinds [of c] record_kind_clean [of "fst r"] escape_field_clean
    by (cases r) (auto simp: record_line_def)
  then show ?thesis by (auto simp: kFormat_def)
qed

lemma parse_serialized:
  assumes "serialize_runtime_config c = Inr s" and "validate_runtime_config c = Inr c'"
    and "smap_ok (rc_env c)"
  shows "parse_runtime_config (sc_text s) = Inr c'"
proof -
  have wire: "sc_text s = kFormat @ nl @ concat (map (\<lambda>r. record_line r @ nl) (config_records c'))"
    using assms(1,2) by (auto elim!: serialized_text)
  have valid: "valid_runtime_config c'" using assms(2) by (rule validate_runtime_config_valid)
  have env: "smap_ok (rc_env c')" using assms by (auto simp: validate_runtime_config_Inr)
  have "res_fold parse_line (delim_fields (CHR 0x0A) (sc_text s) 0) (False, default_runtime_config) =
      res_fold parse_line (map record_line (config_records c') @ [[]]) (True, default_runtime_config)"
    unfolding wire delim_fields_0 serialized_lines by (simp add: parse_line_def)
  also have "\<dots> = Inr (True, c')"
  proof -
    have "parse_line [] (True, c') = Inr (True, c')" by (simp add: parse_line_def)
    moreover have "res_fold parse_line (map record_line (config_records c')) (True, default_runtime_config)
        = Inr (True, c')"
      using parse_record_lines [OF config_record_kinds] apply_config_records [OF env] valid
      by (simp add: valid_runtime_config_def)
    ultimately show ?thesis by (simp only: res_fold_append res_bind_Inr res_fold.simps)
  qed
  finally have "res_fold parse_line (delim_fields (CHR 0x0A) (sc_text s) 0)
      (False, default_runtime_config) = Inr (True, c')" .
  moreover have "nul \<notin> set (sc_text s)" unfolding wire by (rule serialized_no_nul)
  moreover have "sc_text s \<noteq> []" by (simp add: wire kFormat_def)
  ultimately show ?thesis
    using validate_runtime_config_id [OF valid]
    by (simp add: parse_runtime_config_def reject_empty_def reject_nul_config_def sv_find_None_iff)
qed

section \<open>The checksum\<close>

text \<open>The multiplier is odd, hence invertible modulo \<open>2^64\<close>: every step is a bijection of the state.\<close>

lemma checksum_multiplier_inverse: "(1099511628211 :: 64 word) * 14886173955864302971 = 1"
  by simp

lemma checksum_mult_inj: "a * 1099511628211 = b * 1099511628211 \<longleftrightarrow> a = (b :: 64 word)"
proof
  assume "a * 1099511628211 = b * 1099511628211"
  then have "a * (1099511628211 * 14886173955864302971) = b * (1099511628211 * 14886173955864302971)"
    by (simp only: mult.assoc [symmetric])
  then show "a = b" by (simp only: checksum_multiplier_inverse mult_1_right)
qed simp

lemma xor_inj_left: "a XOR c = b XOR c \<longleftrightarrow> a = (b :: 64 word)"
proof -
  have undo: "(x XOR c) XOR c = x" for x :: "64 word" by (simp add: xor.assoc)
  have "a = b" if "a XOR c = b XOR c"
    using arg_cong [OF that, of "\<lambda>x. x XOR c"] by (simp only: undo)
  then show ?thesis by blast
qed

lemma byte_word_inj: "(of_nat (byte_of c) :: 64 word) = of_nat (byte_of d) \<longleftrightarrow> c = d"
proof
  assume eq: "(of_nat (byte_of c) :: 64 word) = of_nat (byte_of d)"
  have "unat (of_nat (byte_of x) :: 64 word) = byte_of x" for x
  proof -
    have "byte_of x < (2 ^ 64 :: nat)" by (rule order_less_le_trans [OF byte_of_less]) simp
    then show ?thesis by (simp add: unat_of_nat)
  qed
  with eq show "c = d" by (metis of_char_eq_iff)
qed simp

lemma checksum_step_inj_state: "checksum_step h c = checksum_step k c \<longleftrightarrow> h = k"
  by (simp add: checksum_step_def checksum_mult_inj xor_inj_left)

lemma checksum_step_inj_byte: "checksum_step h c = checksum_step h d \<longleftrightarrow> c = d"
  by (simp add: checksum_step_def checksum_mult_inj) (metis byte_word_inj xor.commute xor_inj_left)

lemma checksum_fold_inj: "foldl checksum_step h s = foldl checksum_step k s \<longleftrightarrow> h = k"
  by (induction s arbitrary: h k) (simp_all add: checksum_step_inj_state)

definition digits_value :: "nat \<Rightarrow> nat list \<Rightarrow> nat" where
  "digits_value b ds = foldl (\<lambda>a d. a * b + d) 0 ds"

lemma digits_value_base_digits: "1 < b \<Longrightarrow> digits_value b (base_digits b n) = n"
proof (induction b n rule: base_digits.induct)
  case (1 b n)
  then show ?case by (auto simp: base_digits.simps [of b n] digits_value_def)
qed

lemma digits_value_zeros: "digits_value b (replicate k 0 @ ds) = digits_value b ds"
  by (induction k) (auto simp: digits_value_def)

definition char_digit :: "char \<Rightarrow> nat" where
  "char_digit c = (if byte_of c < 58 then byte_of c - 48 else byte_of c - 87)"

lemma char_digit_digit_char: "d < 16 \<Longrightarrow> char_digit (digit_char d) = d"
  by (simp add: char_digit_def digit_char_def)

lemma char_digit_0: "char_digit (CHR ''0'') = 0"
  by (simp add: char_digit_def)

lemma padded_hex_value:
  "digits_value 16 (map char_digit (pad_zero w (hex_nat n))) = n"
proof -
  have "map (\<lambda>d. char_digit (digit_char d)) (base_digits 16 n) = base_digits 16 n"
    by (intro map_idI) (auto simp: char_digit_digit_char dest: base_digits_bound [rotated])
  then have "map char_digit (pad_zero w (hex_nat n)) =
      replicate (w - length (hex_nat n)) 0 @ base_digits 16 n"
    by (simp add: pad_zero_def hex_nat_def char_digit_0 comp_def)
  then show ?thesis by (simp add: digits_value_zeros digits_value_base_digits)
qed

lemma checksum_hex_inj:
  "runtime_config_checksum_hex s = runtime_config_checksum_hex t \<longleftrightarrow>
     runtime_config_checksum s = runtime_config_checksum t"
  unfolding runtime_config_checksum_hex_def by (metis padded_hex_value word_unat_eq_iff)

lemma checksum_hex_length: "length (runtime_config_checksum_hex s) = 16"
proof -
  have "unat (runtime_config_checksum s) < 16 ^ 16"
    using unsigned_less [of "runtime_config_checksum s", where ?'a = nat] by simp
  then have "length (hex_nat (unat (runtime_config_checksum s))) \<le> 16"
    unfolding hex_nat_def by (simp add: base_digits_length)
  then show ?thesis by (simp add: runtime_config_checksum_hex_def pad_zero_length)
qed

lemma checksum_substitution:
  "c \<noteq> d \<Longrightarrow> runtime_config_checksum_hex (pre @ c # post) \<noteq> runtime_config_checksum_hex (pre @ d # post)"
  using checksum_fold_inj checksum_step_inj_byte by (simp add: checksum_hex_inj runtime_config_checksum_def)

section \<open>Environment of a parsed configuration\<close>

lemma apply_record_env: "apply_record k key v c = Inr c' \<Longrightarrow> smap_ok (rc_env c) \<Longrightarrow> smap_ok (rc_env c')"
  by (auto simp: apply_record_def smap_ok_set split: if_splits)

lemma parse_line_env:
  "parse_line l (h, c) = Inr (h', c') \<Longrightarrow> smap_ok (rc_env c) \<Longrightarrow> smap_ok (rc_env c')"
  by (auto simp: parse_line_def Let_def dest: apply_record_env split: if_splits)

lemma parse_lines_env:
  "res_fold parse_line ls (h, c) = Inr (h', c') \<Longrightarrow> smap_ok (rc_env c) \<Longrightarrow> smap_ok (rc_env c')"
proof (induction ls arbitrary: h c)
  case (Cons l ls)
  then obtain h1 c1 where "parse_line l (h, c) = Inr (h1, c1)" "res_fold parse_line ls (h1, c1) = Inr (h', c')"
    by auto
  then show ?case using Cons parse_line_env by blast
qed simp

lemma parse_runtime_config_cases:
  assumes "parse_runtime_config t = Inr c"
  obtains h c0 where "res_fold parse_line (delim_fields (CHR 0x0A) t 0) (False, default_runtime_config) = Inr (h, c0)"
    and "validate_runtime_config c0 = Inr c"
  using assms by (auto simp: parse_runtime_config_def)

lemma parse_runtime_config_valid:
  assumes "parse_runtime_config t = Inr c"
  shows "valid_runtime_config c" and "smap_ok (rc_env c)"
proof -
  obtain h c0 where run: "res_fold parse_line (delim_fields (CHR 0x0A) t 0) (False, default_runtime_config) = Inr (h, c0)"
    and v: "validate_runtime_config c0 = Inr c"
    using assms by (rule parse_runtime_config_cases)
  show "valid_runtime_config c" using v by (rule validate_runtime_config_valid)
  have "smap_ok (rc_env c0)" using parse_lines_env [OF run] by (simp add: default_runtime_config_def)
  then show "smap_ok (rc_env c)" using v by (auto simp: validate_runtime_config_Inr)
qed

lemma serialize_valid:
  assumes "valid_runtime_config c"
  shows "\<exists>s. serialize_runtime_config c = Inr s"
  using validate_runtime_config_id [OF assms] by (simp add: serialize_runtime_config_def Let_def)

section \<open>Properties of the configuration format\<close>

text \<open>A configuration used by the witnesses: escapes, an unnormalized cwd, unsorted binds.\<close>

definition sample_config :: runtime_config where
  "sample_config = default_runtime_config
     \<lparr>rc_package_name := ''p'', rc_rootfs_dir := ''/d/r'', rc_cwd := ''/usr/../b'',
      rc_program := ''/b/h'', rc_env := [(''A'', ''1%'' @ nl), (''B'', ''x'')],
      rc_binds := [BindMount ''/t'' ''/y'', BindMount ''/s'' ''/z'']\<rparr>"

lemma sample_config_validated:
  "validate_runtime_config sample_config = Inr (sample_config\<lparr>rc_cwd := ''/b'',
     rc_binds := [BindMount ''/s'' ''/z'', BindMount ''/t'' ''/y'']\<rparr>)"
  by code_simp

text \<open>C2. Configurations survive the exec boundary: whatever configuration (with a key-ordered
  environment map, as std::map always is) the serializer accepts, the parser accepts the text it
  produced and returns exactly the validated configuration, and the checksum shipped with the text
  is the checksum of the text.  Values may hold any bytes but NUL, control characters and the escape
  character included.\<close>

theorem config_roundtrip:
  assumes "serialize_runtime_config c = Inr s" and "smap_ok (rc_env c)"
  shows "\<exists>c'. validate_runtime_config c = Inr c' \<and> parse_runtime_config (sc_text s) = Inr c' \<and>
              sc_checksum_hex s = runtime_config_checksum_hex (sc_text s)"
  using assms parse_serialized [OF assms(1)] by (elim serialized_text) blast

theorem config_roundtrip_witness:
  "\<exists>s. serialize_runtime_config sample_config = Inr s \<and>
       parse_runtime_config (sc_text s) = Inr (sample_config\<lparr>rc_cwd := ''/b'',
         rc_binds := [BindMount ''/s'' ''/z'', BindMount ''/t'' ''/y'']\<rparr>)"
proof -
  obtain s where s: "serialize_runtime_config sample_config = Inr s"
    using sample_config_validated by (simp add: serialize_runtime_config_def Let_def)
  have "smap_ok (rc_env sample_config)" by (simp add: sample_config_def smap_ok_def)
  from config_roundtrip [OF s this] s sample_config_validated show ?thesis by auto
qed

text \<open>C5. Everything the parser returns is a validated configuration, for every input text: absolute
  NUL-free rootfs, normal guest paths for cwd, program and bind targets, environment keys without
  separators or control characters in strictly increasing order, verbosity 0 to 2, sorted binds; and
  the parser is a left inverse on its own range, so re-serializing a parsed configuration loses
  nothing.\<close>

theorem parse_yields_valid_config:
  assumes "parse_runtime_config text = Inr c"
  shows "valid_runtime_config c \<and> smap_ok (rc_env c) \<and>
         (\<exists>s. serialize_runtime_config c = Inr s \<and> parse_runtime_config (sc_text s) = Inr c)"
proof -
  have v: "valid_runtime_config c" "smap_ok (rc_env c)"
    using parse_runtime_config_valid [OF assms] by simp_all
  obtain s where s: "serialize_runtime_config c = Inr s" using serialize_valid [OF v(1)] by blast
  have "parse_runtime_config (sc_text s) = Inr c"
    using parse_serialized [OF s validate_runtime_config_id [OF v(1)] v(2)] .
  with v s show ?thesis by blast
qed

theorem parse_yields_valid_config_witness:
  "valid_runtime_config (default_runtime_config
     \<lparr>rc_package_name := ''p'', rc_rootfs_dir := ''/r'', rc_program := ''/h'', rc_env := [(''A'', ''%'')]\<rparr>)"
proof -
  have "parse_runtime_config (kFormat @ nl @ ''field'' @ tab @ ''package_name'' @ tab @ ''p'' @ nl @
      ''field'' @ tab @ ''rootfs_dir'' @ tab @ ''/r'' @ nl @ ''field'' @ tab @ ''program'' @ tab @ ''/./h'' @ nl @
      ''env'' @ tab @ ''A'' @ tab @ ''%25'' @ nl) = Inr (default_runtime_config
      \<lparr>rc_package_name := ''p'', rc_rootfs_dir := ''/r'', rc_program := ''/h'', rc_env := [(''A'', ''%'')]\<rparr>)"
    by code_simp
  from parse_yields_valid_config [OF this] show ?thesis by simp
qed

text \<open>C9. The checksum is always sixteen hexadecimal digits and detects every single-byte substitution:
  two texts of the shape prefix, one byte, suffix that differ only in that byte never have the same
  checksum.\<close>

theorem checksum_detects_byte_substitution:
  assumes "c \<noteq> d"
  shows "runtime_config_checksum_hex (pre @ c # post) \<noteq> runtime_config_checksum_hex (pre @ d # post) \<and>
         length (runtime_config_checksum_hex (pre @ c # post)) = 16"
  using checksum_substitution [OF assms] checksum_hex_length by blast

theorem checksum_detects_byte_substitution_witness:
  "runtime_config_checksum_hex ''alr'' \<noteq> runtime_config_checksum_hex ''amr'' \<and>
   length (runtime_config_checksum_hex ''alr'') = 16"
  using checksum_detects_byte_substitution [of "CHR ''l''" "CHR ''m''" "''a''" "''r''"] by simp

text \<open>Malformed input is refused with the documented message: an empty text, a wrong header, a record
  that does not have three tab-separated fields and a truncated escape each raise
  std::invalid_argument.\<close>

theorem parse_rejects_malformed:
  "parse_runtime_config [] = Inl (InvalidArgument ''runtime config must not be empty'') \<and>
   (\<forall>line rest. nul \<notin> set (line @ nl @ rest) \<and> CHR 0x0A \<notin> set line \<and> line \<noteq> kFormat \<longrightarrow>
      parse_runtime_config (line @ nl @ rest)
        = Inl (InvalidArgument ''unsupported runtime config format'')) \<and>
   (\<forall>line rest. nul \<notin> set (line @ nl @ rest) \<and> CHR 0x0A \<notin> set line \<and> line \<noteq> [] \<and>
      length (split_on (CHR 0x09) line) \<noteq> 3 \<longrightarrow>
      parse_runtime_config (kFormat @ nl @ line @ nl @ rest)
        = Inl (InvalidArgument ''runtime config record must have three fields'')) \<and>
   (\<forall>v. CHR ''%'' \<notin> set v \<longrightarrow>
      unescape_field (v @ ''%'') = Inl (InvalidArgument ''truncated escape in runtime config''))"
proof (intro conjI allI impI)
  show "parse_runtime_config [] = Inl (InvalidArgument ''runtime config must not be empty'')"
    by (simp add: parse_runtime_config_def reject_empty_def)
next
  fix line rest
  assume "nul \<notin> set (line @ nl @ rest) \<and> CHR 0x0A \<notin> set line \<and> line \<noteq> kFormat"
  then show "parse_runtime_config (line @ nl @ rest)
      = Inl (InvalidArgument ''unsupported runtime config format'')"
    by (simp add: parse_runtime_config_def reject_empty_def reject_nul_config_def sv_find_None_iff
        split_on_append_delim parse_line_def)
next
  fix line rest
  assume "nul \<notin> set (line @ nl @ rest) \<and> CHR 0x0A \<notin> set line \<and> line \<noteq> [] \<and>
    length (split_on (CHR 0x09) line) \<noteq> 3"
  moreover have "CHR 0x0A \<notin> set kFormat" "nul \<notin> set kFormat" by (simp_all add: kFormat_def)
  ultimately show "parse_runtime_config (kFormat @ nl @ line @ nl @ rest)
      = Inl (InvalidArgument ''runtime config record must have three fields'')"
    by (simp add: parse_runtime_config_def reject_empty_def reject_nul_config_def sv_find_None_iff
        split_on_append_delim parse_line_def split_tabs_def)
next
  fix v :: string
  assume "CHR ''%'' \<notin> set v"
  then show "unescape_field (v @ ''%'') = Inl (InvalidArgument ''truncated escape in runtime config'')"
    by (induction v) auto
qed

theorem parse_rejects_malformed_witness:
  "parse_runtime_config (''bad-format'' @ nl) = Inl (InvalidArgument ''unsupported runtime config format'')"
proof -
  have "''bad-format'' \<noteq> kFormat" by (simp add: kFormat_def)
  with parse_rejects_malformed show ?thesis
    by (elim conjE allE [of _ "''bad-format''"] allE [of _ "[]"]) simp
qed

end
