(* ===== verification/Alr_Env.thy ===== *)
theory Alr_Env
  imports Alr_Config
begin

text \<open>
  The guest environment, from \<^verbatim>\<open>alr_runtime/alr_env.cpp\<close> and its header: the minimal variables that
  every backend shares, built from an input record whose fields must not be empty.
\<close>

record guest_environment_input =
  ge_package_name :: string
  ge_rootfs_dir :: string
  ge_home :: string
  ge_tmpdir :: string
  ge_path :: string

definition default_guest_environment_input :: guest_environment_input where
  "default_guest_environment_input =
     \<lparr>ge_package_name = [], ge_rootfs_dir = [], ge_home = ''/root'', ge_tmpdir = ''/tmp'',
      ge_path = ''/usr/local/sbin:/usr/local/bin:/usr/sbin:/usr/bin:/sbin:/bin''\<rparr>"

definition require_non_empty :: "string \<Rightarrow> string \<Rightarrow> unit res" where
  "require_non_empty value name =
     (if value = [] then Inl (InvalidArgument (name @ '' must not be empty'')) else Inr ())"

definition build_guest_environment :: "guest_environment_input \<Rightarrow> str_map res" where
  "build_guest_environment input =
     res_bind (require_non_empty (ge_package_name input) ''package_name'') (\<lambda>_.
     res_bind (require_non_empty (ge_rootfs_dir input) ''rootfs_dir'') (\<lambda>_.
     res_bind (require_non_empty (ge_home input) ''home'') (\<lambda>_.
     res_bind (require_non_empty (ge_tmpdir input) ''tmpdir'') (\<lambda>_.
     res_bind (require_non_empty (ge_path input) ''path'') (\<lambda>_.
     Inr (smap_of [(''ALR_PACKAGE'', ge_package_name input), (''ALR_ROOTFS'', ge_rootfs_dir input),
                   (''HOME'', ge_home input), (''TMPDIR'', ge_tmpdir input),
                   (''PATH'', ge_path input)]))))))"

lemma require_non_empty_Inr [simp, res_simps]: "require_non_empty v n = Inr u \<longleftrightarrow> v \<noteq> []"
  by (simp add: require_non_empty_def)

lemma build_guest_environment_Inr:
  "build_guest_environment i = Inr env \<longleftrightarrow>
     ge_package_name i \<noteq> [] \<and> ge_rootfs_dir i \<noteq> [] \<and> ge_home i \<noteq> [] \<and> ge_tmpdir i \<noteq> [] \<and>
     ge_path i \<noteq> [] \<and>
     env = [(''ALR_PACKAGE'', ge_package_name i), (''ALR_ROOTFS'', ge_rootfs_dir i),
            (''HOME'', ge_home i), (''PATH'', ge_path i), (''TMPDIR'', ge_tmpdir i)]"
  by (auto simp: build_guest_environment_def smap_of_def)

text \<open>The environment is what a configuration accepts: ordered, with well-formed keys.\<close>

lemma build_guest_environment_valid:
  assumes "build_guest_environment i = Inr env"
    and "nul \<notin> set (ge_package_name i @ ge_rootfs_dir i @ ge_home i @ ge_tmpdir i @ ge_path i)"
  shows "smap_ok env \<and> list_all env_entry_ok env"
  using assms
  by (auto simp: build_guest_environment_Inr smap_ok_def env_entry_ok_def env_key_ok_def iscntrl_def)

end
