(* ===== verification/Posix_Host.thy ===== *)
theory Posix_Host
  imports Alr_Prelude
begin

text \<open>
  The operating system as the runtime sees it.  The kernel and libc are not part of the repository, so
  the calls the sources make are fields of one record, and every definition that performs a call takes
  that record as an argument.  A failing call yields its \<^verbatim>\<open>errno\<close> on the left.  Calls that a loop may
  repeat (\<^verbatim>\<open>pread\<close>, \<^verbatim>\<open>read\<close> on a pipe, \<^verbatim>\<open>waitpid\<close>) also take the number of earlier calls, so that two
  equal calls may answer differently: an interrupted call, a short read.
\<close>

unbundle bit_operations_syntax

record stat_buf =
  st_mode :: "32 word"
  st_size :: int

record posix =
  px_stat :: "string \<Rightarrow> int + stat_buf"
  px_open :: "string \<Rightarrow> int + int"
  px_read :: "int \<Rightarrow> nat \<Rightarrow> int + string"
  px_pread :: "nat \<Rightarrow> int \<Rightarrow> nat \<Rightarrow> 64 word \<Rightarrow> int + string"
  px_strerror :: "int \<Rightarrow> string"
  px_getuid :: nat
  px_getgid :: nat
  px_attr_current :: "string option"

definition EINTR :: int where "EINTR = 4"

text \<open>\<^verbatim>\<open>S_ISREG\<close>: the file-type bits \<^verbatim>\<open>0170000\<close> are \<^verbatim>\<open>0100000\<close>.\<close>

definition S_ISREG :: "32 word \<Rightarrow> bool" where
  "S_ISREG m \<longleftrightarrow> m AND 0xF000 = 0x8000"

text \<open>The message helper that every component repeats verbatim.\<close>

definition errno_message :: "posix \<Rightarrow> string \<Rightarrow> int \<Rightarrow> string" where
  "errno_message px action e =
     action @ '' failed errno='' @ dec_int e @ '' message='' @ px_strerror px e"

definition pass_fail :: "bool \<Rightarrow> string" where
  "pass_fail value = (if value then ''PASS'' else ''FAIL'')"

definition true_false :: "bool \<Rightarrow> string" where
  "true_false value = (if value then ''true'' else ''false'')"

text \<open>A report is a sequence of lines joined by newlines; \<open>line_if b l\<close> is a line behind an \<^verbatim>\<open>if\<close>.\<close>

definition report_lines :: "string list \<Rightarrow> string" where
  "report_lines ls = join_with nl ls"

abbreviation line_if :: "bool \<Rightarrow> string \<Rightarrow> string list" where
  "line_if b l \<equiv> (if b then [l] else [])"

lemma errno_message_not_Nil [simp]: "errno_message px a e \<noteq> []"
  by (simp add: errno_message_def)

lemma pass_fail_clean [simp]: "CHR 0x0A \<notin> set (pass_fail b)" "CHR 0x0A \<notin> set (true_false b)"
  by (simp_all add: pass_fail_def true_false_def)

text \<open>A host with a given file system, used by the witnesses: regular files only, every call answers
  at once and in full, descriptor \<open>3 + i\<close> is the \<open>i\<close>-th file.\<close>

definition plain_host :: "(string \<times> string) list \<Rightarrow> posix" where
  "plain_host files =
     \<lparr>px_stat = (\<lambda>p. case map_of files p of None \<Rightarrow> Inl 2
                    | Some c \<Rightarrow> Inr \<lparr>st_mode = 0x81ED, st_size = int (length c)\<rparr>),
      px_open = (\<lambda>p. if p \<in> fst ` set files
                     then Inr (3 + int (length (takeWhile (\<lambda>f. fst f \<noteq> p) files))) else Inl 2),
      px_read = (\<lambda>fd n. if 3 \<le> fd \<and> nat (fd - 3) < length files
                        then Inr (take n (snd (files ! nat (fd - 3)))) else Inl 9),
      px_pread = (\<lambda>t fd n off. if 3 \<le> fd \<and> nat (fd - 3) < length files
                        then Inr (take n (drop (unat off) (snd (files ! nat (fd - 3))))) else Inl 9),
      px_strerror = (\<lambda>e. ''error''), px_getuid = 10123, px_getgid = 10123,
      px_attr_current = Some (''u:r:untrusted_app_27:s0'' @ [nul])\<rparr>"

end
