(* ===== verification/Alr_Exec.thy ===== *)
theory Alr_Exec
  imports Alr_Env Posix_Host
begin

text \<open>
  Resolution and classification of guest executables and the child continuation plan, from
  \<^verbatim>\<open>alr_runtime/alr_exec.cpp\<close>: the candidate list of a command name, the candidate loop with its host
  calls, the shebang parser, and the plan that hands a child to the packaged trampoline.
\<close>

section \<open>Data\<close>

datatype executable_kind = Missing | Elf | Shebang | Unsupported

datatype exec_continuation_kind = Execve | Execvp | PosixSpawn

record shebang_info =
  sh_interpreter :: string
  sh_argument :: string

record executable_resolution =
  er_translation :: path_translation
  er_kind :: executable_kind
  er_resolved :: bool
  er_classified :: bool
  er_shebang :: shebang_info
  er_strategy :: string
  er_error :: string
  er_report :: string

record exec_continuation_plan =
  cp_resolution :: executable_resolution
  cp_kind :: exec_continuation_kind
  cp_planned :: bool
  cp_path_lookup :: bool
  cp_uses_packaged_trampoline :: bool
  cp_config_handoff :: bool
  cp_argv :: "string list"
  cp_env_overrides :: "string list"
  cp_error :: string
  cp_report :: string

definition no_translation :: path_translation where
  "no_translation = \<lparr>guest_path = [], host_path = [], escaped_rootfs = False\<rparr>"

definition default_executable_resolution :: executable_resolution where
  "default_executable_resolution =
     \<lparr>er_translation = no_translation, er_kind = Missing, er_resolved = False, er_classified = False,
      er_shebang = \<lparr>sh_interpreter = [], sh_argument = []\<rparr>, er_strategy = ''plan-only'',
      er_error = [], er_report = []\<rparr>"

definition default_exec_continuation_plan :: exec_continuation_plan where
  "default_exec_continuation_plan =
     \<lparr>cp_resolution = default_executable_resolution, cp_kind = Execve, cp_planned = False,
      cp_path_lookup = False, cp_uses_packaged_trampoline = False, cp_config_handoff = False,
      cp_argv = [], cp_env_overrides = [], cp_error = [], cp_report = []\<rparr>"

section \<open>Candidates\<close>

definition kProbeBytes :: nat where "kProbeBytes = 256"

definition split_colon_paths :: "string \<Rightarrow> string list" where
  "split_colon_paths value =
     filter (\<lambda>part. part \<noteq> [] \<and> is_guest_absolute_path part) (delim_fields (CHR '':'') value 0)"

definition join_guest_path :: "string \<Rightarrow> string \<Rightarrow> string" where
  "join_guest_path dir name = (if dir = ''/'' then ''/'' @ name else dir @ ''/'' @ name)"

definition is_plain_command_name :: "string \<Rightarrow> bool" where
  "is_plain_command_name value \<longleftrightarrow> value \<noteq> [] \<and> sv_find slash value 0 = None"

definition requires_path_lookup :: "string \<Rightarrow> exec_continuation_kind \<Rightarrow> bool" where
  "requires_path_lookup requested kind \<longleftrightarrow> kind = Execvp \<and> is_plain_command_name requested"

definition env_or_empty :: "runtime_config \<Rightarrow> string \<Rightarrow> string" where
  "env_or_empty config key = (case smap_find (rc_env config) key of None \<Rightarrow> [] | Some v \<Rightarrow> v)"

definition configured_trampoline_path :: "runtime_config \<Rightarrow> string" where
  "configured_trampoline_path config = env_or_empty config ''ALR_TRAMPOLINE_PATH''"

definition default_search_path :: string where
  "default_search_path = ''/usr/local/sbin:/usr/local/bin:/usr/sbin:/usr/bin:/sbin:/bin''"

definition candidate_guest_paths :: "runtime_config \<Rightarrow> string \<Rightarrow> string list res" where
  "candidate_guest_paths config requested =
     (if requested = [] then Inl (InvalidArgument ''requested program must not be empty'')
      else if is_guest_absolute_path requested \<or> sv_find slash requested 0 \<noteq> None then
        res_bind (normalize_guest_path requested (rc_cwd config)) (\<lambda>p. Inr [p])
      else if \<not> is_plain_command_name requested then
        Inl (InvalidArgument ''requested program must be an absolute path or PATH command name'')
      else
        let path_value = (case smap_find (rc_env config) ''PATH'' of
                            None \<Rightarrow> default_search_path | Some v \<Rightarrow> v)
        in res_map (\<lambda>dir. normalize_guest_path (join_guest_path dir requested) ''/'')
             (split_colon_paths path_value))"

section \<open>Classification\<close>

definition read_prefix :: "posix \<Rightarrow> string \<Rightarrow> string res" where
  "read_prefix px host =
     (case px_open px host of
        Inl e \<Rightarrow> Inl (RuntimeError (errno_message px ''open executable'' e))
      | Inr fd \<Rightarrow>
          (case px_read px fd kProbeBytes of
             Inl e \<Rightarrow> Inl (RuntimeError (errno_message px ''read executable'' e))
           | Inr bytes \<Rightarrow> Inr bytes))"

definition blank :: "char \<Rightarrow> bool" where
  "blank c \<longleftrightarrow> c = CHR '' '' \<or> c = CHR 0x09"

definition eol_char :: "char \<Rightarrow> bool" where
  "eol_char c \<longleftrightarrow> c = CHR 0x0A \<or> c = CHR 0x0D"

text \<open>The line loop, the two trimming loops and the split of the source, as scans.\<close>

definition parse_shebang :: "string \<Rightarrow> shebang_info" where
  "parse_shebang bytes =
     (let line = takeWhile (\<lambda>c. \<not> eol_char c) (drop 2 bytes);
          trimmed = rev (dropWhile blank (rev (dropWhile blank line)))
      in if \<not> list_ex blank trimmed then \<lparr>sh_interpreter = trimmed, sh_argument = []\<rparr>
         else \<lparr>sh_interpreter = takeWhile (\<lambda>c. \<not> blank c) trimmed,
               sh_argument = dropWhile blank (dropWhile (\<lambda>c. \<not> blank c) trimmed)\<rparr>)"

definition classify_bytes :: "string \<Rightarrow> shebang_info \<Rightarrow> executable_kind \<times> shebang_info" where
  "classify_bytes bytes shebang =
     (if 4 \<le> length bytes \<and> take 4 bytes = [CHR 0x7F, CHR ''E'', CHR ''L'', CHR ''F''] then (Elf, shebang)
      else if 2 \<le> length bytes \<and> take 2 bytes = ''#!'' then
        (let sh = parse_shebang bytes
         in (if sh_interpreter sh = [] then Unsupported else Shebang, sh))
      else (Unsupported, shebang))"

primrec executable_kind_name :: "executable_kind \<Rightarrow> string" where
  "executable_kind_name Missing = ''missing''"
| "executable_kind_name Elf = ''elf''"
| "executable_kind_name Shebang = ''shebang''"
| "executable_kind_name Unsupported = ''unsupported''"

primrec exec_continuation_kind_name :: "exec_continuation_kind \<Rightarrow> string" where
  "exec_continuation_kind_name Execve = ''execve''"
| "exec_continuation_kind_name Execvp = ''execvp''"
| "exec_continuation_kind_name PosixSpawn = ''posix_spawn''"

definition build_resolution_report :: "executable_resolution \<Rightarrow> string" where
  "build_resolution_report result = report_lines (
     [''ALR EXEC RESOLVE: '' @ pass_fail (er_resolved result),
      ''ALR EXEC CLASSIFY: '' @ pass_fail (er_classified result),
      ''ALR EXEC STRATEGY: '' @ er_strategy result,
      ''alr exec guest path='' @ guest_path (er_translation result),
      ''alr exec host path='' @ host_path (er_translation result),
      ''alr exec kind='' @ executable_kind_name (er_kind result)] @
     line_if (sh_interpreter (er_shebang result) \<noteq> [])
       (''alr exec shebang interpreter='' @ sh_interpreter (er_shebang result)) @
     line_if (sh_argument (er_shebang result) \<noteq> [])
       (''alr exec shebang argument='' @ sh_argument (er_shebang result)) @
     line_if (er_error result \<noteq> []) (''alr exec error='' @ er_error result))"

definition with_report :: "executable_resolution \<Rightarrow> executable_resolution" where
  "with_report r = r\<lparr>er_report := build_resolution_report r\<rparr>"

section \<open>Resolution\<close>

text \<open>The part of the loop body behind a successful \<^verbatim>\<open>stat\<close>, which always returns.\<close>

definition classify_candidate :: "posix \<Rightarrow> stat_buf \<Rightarrow> executable_resolution \<Rightarrow> executable_resolution" where
  "classify_candidate px st r =
     (if \<not> S_ISREG (st_mode st) then
        with_report (r\<lparr>er_error := ''resolved executable is not a regular file'',
                       er_kind := Unsupported, er_resolved := True, er_classified := True\<rparr>)
      else
        (let r = r\<lparr>er_resolved := True\<rparr> in
         with_report
           (case read_prefix px (host_path (er_translation r)) of
              Inl exc \<Rightarrow> r\<lparr>er_kind := Unsupported, er_error := what exc\<rparr>
            | Inr bytes \<Rightarrow>
                (let (kind, shebang) = classify_bytes bytes (er_shebang r)
                 in r\<lparr>er_kind := kind, er_shebang := shebang, er_classified := True, er_error := []\<rparr>))))"

text \<open>The candidate loop: the flag says whether the body returned.\<close>

fun resolve_candidates ::
  "posix \<Rightarrow> runtime_config \<Rightarrow> string list \<Rightarrow> executable_resolution \<Rightarrow> (bool \<times> executable_resolution) res"
where
  "resolve_candidates px config [] result = Inr (False, result)"
| "resolve_candidates px config (guest # rest) result =
     res_bind (translate_rootfs_path (rc_rootfs_dir config) (rc_cwd config) guest) (\<lambda>t.
     let result = result\<lparr>er_translation := t\<rparr> in
     (case px_stat px (host_path t) of
        Inl e \<Rightarrow> resolve_candidates px config rest
                   (result\<lparr>er_error := errno_message px ''stat executable'' e\<rparr>)
      | Inr st \<Rightarrow> Inr (True, classify_candidate px st result)))"

definition resolve_guest_executable ::
  "posix \<Rightarrow> runtime_config \<Rightarrow> string \<Rightarrow> executable_resolution res"
where
  "resolve_guest_executable px config requested_program =
     res_bind (candidate_guest_paths config requested_program) (\<lambda>candidates.
     res_bind (resolve_candidates px config candidates default_executable_resolution) (\<lambda>(returned, result).
     if returned then Inr result
     else
       res_bind
         (if guest_path (er_translation result) = [] \<and> candidates \<noteq> []
          then res_bind (translate_rootfs_path (rc_rootfs_dir config) (rc_cwd config) (hd candidates))
                 (\<lambda>t. Inr (result\<lparr>er_translation := t\<rparr>))
          else Inr result)
         (\<lambda>result. Inr (with_report
            (result\<lparr>er_kind := Missing, er_resolved := False, er_classified := False\<rparr>)))))"

section \<open>The continuation plan\<close>

definition child_config_for_continuation :: "runtime_config \<Rightarrow> executable_resolution \<Rightarrow> runtime_config" where
  "child_config_for_continuation config resolution =
     (let target = guest_path (er_translation resolution)
      in config\<lparr>rc_program := target,
                rc_env := smap_set ''ALR_CONTINUATION_TARGET_GUEST_PATH'' target
                            (smap_set ''ALR_PROGRAM'' target (rc_env config))\<rparr>)"

definition plan_status :: "exec_continuation_plan \<Rightarrow> string" where
  "plan_status plan = pass_fail (cp_planned plan)"

definition kind_line_status :: "exec_continuation_plan \<Rightarrow> exec_continuation_kind \<Rightarrow> string" where
  "kind_line_status plan kind = (if cp_kind plan = kind then plan_status plan else ''SKIP'')"

definition build_continuation_report :: "exec_continuation_plan \<Rightarrow> string" where
  "build_continuation_report plan = report_lines (
     [''ALR EXEC CONTINUITY PLAN: '' @ plan_status plan,
      ''ALR EXECVE CHILD CONTINUITY PLAN: '' @ kind_line_status plan Execve,
      ''ALR EXECVP PATH LOOKUP PLAN: '' @ kind_line_status plan Execvp,
      ''ALR POSIX_SPAWN CHILD PLAN: '' @ kind_line_status plan PosixSpawn,
      ''ALR EXEC CONTINUITY TRAMPOLINE: '' @ pass_fail (cp_uses_packaged_trampoline plan),
      ''ALR EXEC CONTINUITY CONFIG HANDOFF: '' @ pass_fail (cp_config_handoff plan),
      ''alr exec continuation kind='' @ exec_continuation_kind_name (cp_kind plan),
      ''alr exec continuation path lookup='' @ true_false (cp_path_lookup plan),
      ''alr exec continuation target guest path='' @ guest_path (er_translation (cp_resolution plan)),
      ''alr exec continuation host path diagnostic='' @ host_path (er_translation (cp_resolution plan)),
      ''alr exec continuation argv count='' @ dec_nat (length (cp_argv plan))] @
     line_if (cp_argv plan \<noteq> []) (''alr exec continuation argv0='' @ hd (cp_argv plan)) @
     [''alr exec continuation env overrides='' @ dec_nat (length (cp_env_overrides plan))] @
     line_if (cp_error plan \<noteq> []) (''alr exec continuation error='' @ cp_error plan))"

definition continuation_argv ::
  "string \<Rightarrow> exec_continuation_kind \<Rightarrow> string \<Rightarrow> string list \<Rightarrow> string list" where
  "continuation_argv trampoline_path kind target arguments =
     [trampoline_path, ''--continue-exec'', ''--kind'', exec_continuation_kind_name kind, ''--'', target] @
     arguments"

definition continuation_env ::
  "serialized_runtime_config \<Rightarrow> exec_continuation_kind \<Rightarrow> string \<Rightarrow> string list \<Rightarrow> bool \<Rightarrow> string list" where
  "continuation_env serialized kind target arguments path_lookup =
     [''ALR_CONFIG_TEXT='' @ sc_text serialized,
      ''ALR_CONFIG_CHECKSUM='' @ sc_checksum_hex serialized,
      ''ALR_CONTINUATION_KIND='' @ exec_continuation_kind_name kind,
      ''ALR_CONTINUATION_TARGET_GUEST_PATH='' @ target,
      ''ALR_CONTINUATION_ARGC='' @ dec_nat (length arguments),
      ''ALR_CONTINUATION_PATH_LOOKUP='' @ (if path_lookup then ''1'' else ''0'')]"

text \<open>The assignments of the \<^verbatim>\<open>try\<close> block that precede a throw stay in the plan, so the block is a
  function from plan to plan with the exception beside it.\<close>

definition plan_handoff ::
  "runtime_config \<Rightarrow> string list \<Rightarrow> exec_continuation_plan \<Rightarrow> exec_continuation_plan" where
  "plan_handoff config arguments plan =
     (let target = guest_path (er_translation (cp_resolution plan));
          trampoline_path = configured_trampoline_path config
      in case res_bind (serialize_runtime_config (child_config_for_continuation config (cp_resolution plan)))
            (\<lambda>serialized. res_bind (parse_runtime_config (sc_text serialized))
               (\<lambda>parsed. Inr (serialized, parsed))) of
           Inl exc \<Rightarrow> plan\<lparr>cp_error := what exc\<rparr>
         | Inr (serialized, parsed) \<Rightarrow>
             (let handoff = (rc_program parsed = target \<and> rc_rootfs_dir parsed = rc_rootfs_dir config \<and>
                    runtime_config_checksum_hex (sc_text serialized) = sc_checksum_hex serialized)
              in plan\<lparr>cp_config_handoff := handoff,
                      cp_argv := continuation_argv trampoline_path (cp_kind plan) target arguments,
                      cp_env_overrides := continuation_env serialized (cp_kind plan) target arguments
                        (cp_path_lookup plan),
                      cp_planned := cp_uses_packaged_trampoline plan \<and> handoff\<rparr>))"

definition build_exec_continuation_plan ::
  "posix \<Rightarrow> runtime_config \<Rightarrow> string \<Rightarrow> string list \<Rightarrow> exec_continuation_kind \<Rightarrow> exec_continuation_plan"
where
  "build_exec_continuation_plan px config requested_program arguments kind =
     (let plan = default_exec_continuation_plan\<lparr>cp_kind := kind,
                   cp_path_lookup := requires_path_lookup requested_program kind\<rparr>;
          plan =
            (case resolve_guest_executable px config requested_program of
               Inl exc \<Rightarrow> plan\<lparr>cp_error := what exc\<rparr>
             | Inr resolution \<Rightarrow>
                 (let plan = plan\<lparr>cp_resolution := resolution\<rparr> in
                  if \<not> er_resolved resolution \<or> er_kind resolution = Missing then
                    plan\<lparr>cp_error := (if er_error resolution = [] then ''child executable was not resolved''
                                       else er_error resolution)\<rparr>
                  else if er_kind resolution = Unsupported then
                    plan\<lparr>cp_error := ''child executable kind is unsupported''\<rparr>
                  else
                    (let plan = plan\<lparr>cp_uses_packaged_trampoline := configured_trampoline_path config \<noteq> []\<rparr>
                     in if \<not> cp_uses_packaged_trampoline plan
                        then plan\<lparr>cp_error := ''ALR_TRAMPOLINE_PATH is not configured''\<rparr>
                        else plan_handoff config arguments plan)))
      in plan\<lparr>cp_report := build_continuation_report plan\<rparr>)"

section \<open>Shebang lines\<close>

definition shebang_line ::
  "string \<Rightarrow> shebang_info \<Rightarrow> bool" where
  "shebang_line bytes sh \<longleftrightarrow>
     (\<exists>b1 b2 b3 eol. bytes = ''#!'' @ b1 @ sh_interpreter sh @ b2 @ sh_argument sh @ b3 @ eol \<and>
        list_all blank b1 \<and> list_all blank b2 \<and> list_all blank b3 \<and>
        (eol = [] \<or> eol_char (hd eol)) \<and>
        sh_interpreter sh \<noteq> [] \<and> list_all (\<lambda>c. \<not> blank c \<and> \<not> eol_char c) (sh_interpreter sh) \<and>
        list_all (\<lambda>c. \<not> eol_char c) (sh_argument sh) \<and>
        (sh_argument sh \<noteq> [] \<longrightarrow>
           b2 \<noteq> [] \<and> \<not> blank (hd (sh_argument sh)) \<and> \<not> blank (last (sh_argument sh))))"

lemma blank_not_eol: "blank c \<Longrightarrow> \<not> eol_char c"
  by (auto simp: blank_def eol_char_def)

lemma shebang_line_parse:
  assumes "shebang_line bytes sh"
  shows "parse_shebang bytes = sh \<and> take 2 bytes = ''#!'' \<and> 2 \<le> length bytes"
proof -
  obtain b1 b2 b3 eol where b: "bytes = ''#!'' @ b1 @ sh_interpreter sh @ b2 @ sh_argument sh @ b3 @ eol"
    and bl: "list_all blank b1" "list_all blank b2" "list_all blank b3"
    and eol: "eol = [] \<or> eol_char (hd eol)"
    and int: "sh_interpreter sh \<noteq> []"
      "list_all (\<lambda>c. \<not> blank c \<and> \<not> eol_char c) (sh_interpreter sh)"
    and arg: "list_all (\<lambda>c. \<not> eol_char c) (sh_argument sh)"
      "sh_argument sh \<noteq> [] \<longrightarrow>
           b2 \<noteq> [] \<and> \<not> blank (hd (sh_argument sh)) \<and> \<not> blank (last (sh_argument sh))"
    using assms unfolding shebang_line_def by blast
  define i a where "i = sh_interpreter sh" and "a = sh_argument sh"
  note ia = i_def [symmetric] a_def [symmetric]
  have line: "takeWhile (\<lambda>c. \<not> eol_char c) (drop 2 bytes) = b1 @ i @ b2 @ a @ b3"
  proof -
    have "list_all (\<lambda>c. \<not> eol_char c) (b1 @ i @ b2 @ a @ b3)"
      using bl int arg blank_not_eol unfolding ia list_all_iff by auto
    then have "takeWhile (\<lambda>c. \<not> eol_char c) ((b1 @ i @ b2 @ a @ b3) @ eol) = b1 @ i @ b2 @ a @ b3"
      using eol by (intro takeWhile_stop) auto
    then show ?thesis by (simp add: b ia)
  qed
  have d: "dropWhile blank (b1 @ i @ b2 @ a @ b3) = i @ b2 @ a @ b3"
    using bl int by (intro dropWhile_stop) (auto simp: ia list_all_iff hd_append)
  define t where "t = (if a = [] then i else i @ b2 @ a)"
  have t: "rev (dropWhile blank (rev (i @ b2 @ a @ b3))) = t"
  proof (cases "a = []")
    case True
    then show ?thesis using strip_right [of i blank "b2 @ b3"] bl int
      by (auto simp: t_def ia list_all_iff)
  next
    case False
    then show ?thesis using strip_right [of "i @ b2 @ a" blank b3] bl arg
      by (auto simp: t_def ia)
  qed
  have ib: "list_all (\<lambda>c. \<not> blank c) i" using int by (auto simp: ia list_all_iff)
  have "parse_shebang bytes = \<lparr>sh_interpreter = i, sh_argument = a\<rparr>"
  proof (cases "a = []")
    case True
    moreover have "\<not> list_ex blank i" using ib by (auto simp: list_ex_iff list_all_iff)
    ultimately show ?thesis unfolding parse_shebang_def Let_def line d t by (simp add: t_def)
  next
    case False
    then have b2: "b2 \<noteq> []" "blank (hd b2)" "\<not> blank (hd a)"
      using arg bl by (auto simp: ia list_all_iff)
    have tw: "takeWhile (\<lambda>c. \<not> blank c) (i @ b2 @ a) = i"
      using b2 ib by (intro takeWhile_stop) auto
    have dw: "dropWhile (\<lambda>c. \<not> blank c) (i @ b2 @ a) = b2 @ a"
      using b2 ib by (intro dropWhile_stop) auto
    have dw2: "dropWhile blank (b2 @ a) = a"
      using b2 bl by (intro dropWhile_stop) auto
    have "list_ex blank (i @ b2 @ a)" using b2 bl by (auto simp: list_ex_iff intro: hd_in_set)
    then show ?thesis
      unfolding parse_shebang_def Let_def line d t using False by (simp add: t_def tw dw dw2)
  qed
  then show ?thesis by (simp add: b i_def a_def)
qed

lemma parse_shebang_line:
  assumes "take 2 bytes = ''#!''" "sh_interpreter (parse_shebang bytes) \<noteq> []"
  shows "shebang_line bytes (parse_shebang bytes)"
proof -
  define line where "line = takeWhile (\<lambda>c. \<not> eol_char c) (drop 2 bytes)"
  define eol where "eol = dropWhile (\<lambda>c. \<not> eol_char c) (drop 2 bytes)"
  define b1 where "b1 = takeWhile blank line"
  define l1 where "l1 = dropWhile blank line"
  define t where "t = rev (dropWhile blank (rev l1))"
  define b3 where "b3 = rev (takeWhile blank (rev l1))"
  have bytes: "bytes = ''#!'' @ line @ eol"
    using append_take_drop_id [of 2 bytes] assms(1) by (simp add: line_def eol_def)
  have l: "line = b1 @ t @ b3"
  proof -
    have "l1 = t @ b3" unfolding t_def b3_def
      by (metis rev_append rev_rev_ident takeWhile_dropWhile_id)
    then show ?thesis using takeWhile_dropWhile_id [of blank line] by (metis b1_def l1_def)
  qed
  have b13: "list_all blank b1" "list_all blank b3"
    by (auto simp: b1_def b3_def list_all_iff dest: set_takeWhileD)
  have eol: "eol = [] \<or> eol_char (hd eol)"
    using hd_dropWhile [of "\<lambda>c. \<not> eol_char c" "drop 2 bytes"] unfolding eol_def by blast
  have clean: "list_all (\<lambda>c. \<not> eol_char c) line"
    by (auto simp: line_def list_all_iff dest: set_takeWhileD)
  have t_last: "t = [] \<or> \<not> blank (last t)"
    using hd_dropWhile [of blank "rev l1"] unfolding t_def by (auto simp: last_rev)
  define i where "i = takeWhile (\<lambda>c. \<not> blank c) t"
  define r where "r = dropWhile (\<lambda>c. \<not> blank c) t"
  define b2 where "b2 = takeWhile blank r"
  define a where "a = dropWhile blank r"
  have t: "t = i @ b2 @ a" by (simp add: i_def r_def b2_def a_def)
  have ps': "parse_shebang bytes =
      (if \<not> list_ex blank t then \<lparr>sh_interpreter = t, sh_argument = []\<rparr>
       else \<lparr>sh_interpreter = i, sh_argument = a\<rparr>)"
    unfolding parse_shebang_def Let_def t_def l1_def line_def i_def a_def r_def by (rule refl)
  have ps: "parse_shebang bytes = \<lparr>sh_interpreter = i, sh_argument = a\<rparr>"
  proof (cases "list_ex blank t")
    case True
    then show ?thesis by (simp add: ps')
  next
    case False
    then have "i = t" "r = []" by (auto simp: i_def r_def list_ex_iff takeWhile_eq_all_conv)
    then have "a = []" by (simp add: a_def)
    with \<open>i = t\<close> False show ?thesis by (simp add: ps')
  qed
  have a1: "a \<noteq> [] \<longrightarrow> b2 \<noteq> [] \<and> \<not> blank (hd a) \<and> \<not> blank (last a)"
  proof
    assume a: "a \<noteq> []"
    then have r: "r \<noteq> []" by (auto simp: a_def)
    have "blank (hd r)" using hd_dropWhile [of "\<lambda>c. \<not> blank c" t] r unfolding r_def by blast
    then have "b2 \<noteq> []" using r unfolding b2_def by (cases r) auto
    moreover have "\<not> blank (hd a)" using hd_dropWhile [of blank r] a unfolding a_def by blast
    moreover have "last t = last a" using a by (simp add: t)
    then have "\<not> blank (last a)" using t_last a t by auto
    ultimately show "b2 \<noteq> [] \<and> \<not> blank (hd a) \<and> \<not> blank (last a)" by blast
  qed
  have "list_all blank b2" by (auto simp: b2_def list_all_iff dest: set_takeWhileD)
  moreover have "list_all (\<lambda>c. \<not> blank c) i" by (auto simp: i_def list_all_iff dest: set_takeWhileD)
  moreover have "bytes = ''#!'' @ b1 @ i @ b2 @ a @ b3 @ eol" using bytes l t by simp
  moreover have "i \<noteq> []" using assms(2) by (simp add: ps)
  ultimately show ?thesis
    unfolding shebang_line_def ps using b13 eol clean a1 l t
    by (intro exI [of _ b1] exI [of _ b2] exI [of _ b3] exI [of _ eol]) (simp add: list_all_iff)
qed

lemma classify_shebang_iff:
  "classify_bytes bytes sh0 = (Shebang, sh) \<longleftrightarrow> shebang_line bytes sh"
proof
  assume c: "classify_bytes bytes sh0 = (Shebang, sh)"
  then have "take 2 bytes = ''#!''" "sh = parse_shebang bytes" "sh_interpreter (parse_shebang bytes) \<noteq> []"
    by (auto simp: classify_bytes_def Let_def split: if_splits)
  then show "shebang_line bytes sh" using parse_shebang_line by simp
next
  assume l: "shebang_line bytes sh"
  have "sh_interpreter sh \<noteq> []" using l by (auto simp: shebang_line_def)
  moreover have "take 4 bytes \<noteq> [CHR 0x7F, CHR ''E'', CHR ''L'', CHR ''F'']"
    using l by (auto simp: shebang_line_def)
  ultimately show "classify_bytes bytes sh0 = (Shebang, sh)"
    using shebang_line_parse [OF l] by (simp add: classify_bytes_def Let_def)
qed

section \<open>The candidate loop\<close>

definition host_of :: "runtime_config \<Rightarrow> string \<Rightarrow> string" where
  "host_of config g = rewrite_spec (trim_trailing_slashes (rc_rootfs_dir config)) g"

definition translation_of :: "runtime_config \<Rightarrow> string \<Rightarrow> path_translation" where
  "translation_of config g = \<lparr>guest_path = g, host_path = host_of config g, escaped_rootfs = False\<rparr>"

lemma translation_of_simps [simp]:
  "guest_path (translation_of config g) = g" "host_path (translation_of config g) = host_of config g"
  by (simp_all add: translation_of_def)

lemma valid_configD:
  assumes "valid_runtime_config c"
  shows "host_path_ok (rc_rootfs_dir c)" "guest_path_ok (rc_cwd c)" "guest_path_ok (rc_program c)"
    "list_all env_entry_ok (rc_env c)"
  using assms by (simp_all add: valid_runtime_config_def)

lemma host_path_ok_absolute: "host_path_ok p \<longleftrightarrow> is_guest_absolute_path p \<and> nul \<notin> set p"
  by (simp add: host_path_ok_def is_absolute_host_path_def is_guest_absolute_path_def)

lemma translate_guest:
  assumes "host_path_ok (rc_rootfs_dir c)" "guest_path_ok (rc_cwd c)" "guest_path_ok g"
  shows "translate_rootfs_path (rc_rootfs_dir c) (rc_cwd c) g = Inr (translation_of c g)"
  using assms guest_path_okD [of "rc_cwd c"]
  by (simp add: translate_rootfs_path_Inr host_path_ok_absolute guest_path_ok_def resolve_against_id
      translation_of_def host_of_def)

lemma smap_find_env_ok:
  assumes "list_all env_entry_ok env" "smap_find env k = Some v"
  shows "nul \<notin> set v"
  using assms map_of_SomeD [of env k v] by (auto simp: smap_find_def list_all_iff env_entry_ok_def)

lemma normalize_guest_ok:
  assumes "nul \<notin> set p" "guest_path_ok cwd"
  shows "normalize_guest_path p cwd = Inr (resolve_against cwd p) \<and> guest_path_ok (resolve_against cwd p)"
  using assms guest_path_okD [of cwd]
  by (simp add: normalize_guest_path_Inr guest_path_ok_def resolve_against_nul_free)

lemma guest_path_ok_root: "guest_path_ok ''/''"
  by (simp add: guest_path_ok_def normal_path_def normal_form_def lex_resolve_def path_step_def render_def)

lemma candidate_guest_paths_total:
  assumes "valid_runtime_config c" "req \<noteq> []" "nul \<notin> set req"
  obtains cs where "candidate_guest_paths c req = Inr cs" "list_all guest_path_ok cs"
proof (cases "is_guest_absolute_path req \<or> sv_find slash req 0 \<noteq> None")
  case True
  then show thesis
    using that [of "[resolve_against (rc_cwd c) req]"] normalize_guest_ok [OF assms(3) valid_configD(2) [OF assms(1)]] assms
    by (simp add: candidate_guest_paths_def)
next
  case False
  define pv where "pv = (case smap_find (rc_env c) ''PATH'' of None \<Rightarrow> default_search_path | Some v \<Rightarrow> v)"
  define f where "f dir = resolve_against ''/'' (join_guest_path dir req)" for dir
  have "nul \<notin> set pv"
    using smap_find_env_ok [OF valid_configD(4) [OF assms(1)], of "''PATH''"]
    by (auto simp: pv_def default_search_path_def split: option.splits)
  then have dirs: "nul \<notin> set (join_guest_path d req)" if "d \<in> set (split_colon_paths pv)" for d
    using that split_on_chars [of d "CHR '':''" pv] assms(3)
    by (auto simp: split_colon_paths_def join_guest_path_def)
  have ok: "normalize_guest_path (join_guest_path d req) ''/'' = Inr (f d) \<and> guest_path_ok (f d)"
    if "d \<in> set (split_colon_paths pv)" for d
    using normalize_guest_ok [OF dirs [OF that] guest_path_ok_root] by (simp add: f_def)
  then have "res_map (\<lambda>dir. normalize_guest_path (join_guest_path dir req) ''/'') (split_colon_paths pv) =
      Inr (map f (split_colon_paths pv))"
    by (auto simp: res_map_Inr list_all2_conv_all_nth)
  moreover have "list_all guest_path_ok (map f (split_colon_paths pv))"
    using ok by (auto simp: list_all_iff)
  ultimately show thesis
    using that [of "map f (split_colon_paths pv)"] False assms
    by (auto simp: candidate_guest_paths_def is_plain_command_name_def pv_def Let_def)
qed

lemma resolve_candidates_step:
  assumes "host_path_ok (rc_rootfs_dir c)" "guest_path_ok (rc_cwd c)" "guest_path_ok g"
  shows "resolve_candidates px c (g # gs) r =
    (case px_stat px (host_of c g) of
       Inl e \<Rightarrow> resolve_candidates px c gs
                  (r\<lparr>er_translation := translation_of c g,
                     er_error := errno_message px ''stat executable'' e\<rparr>)
     | Inr st \<Rightarrow> Inr (True, classify_candidate px st (r\<lparr>er_translation := translation_of c g\<rparr>)))"
  using translate_guest [OF assms] by (simp add: Let_def)

definition exists_on :: "posix \<Rightarrow> runtime_config \<Rightarrow> string \<Rightarrow> bool" where
  "exists_on px c g \<longleftrightarrow> \<not> isl (px_stat px (host_of c g))"

lemma exists_on_iff: "exists_on px c g \<longleftrightarrow> (\<exists>st. px_stat px (host_of c g) = Inr st)"
  by (cases "px_stat px (host_of c g)") (simp_all add: exists_on_def)

lemma resolve_candidates_missing:
  assumes "host_path_ok (rc_rootfs_dir c)" "guest_path_ok (rc_cwd c)" "list_all guest_path_ok cs"
    and "\<forall>g \<in> set cs. \<not> exists_on px c g"
  shows "\<exists>r'. resolve_candidates px c cs r = Inr (False, r') \<and> er_kind r' = er_kind r \<and>
    er_shebang r' = er_shebang r \<and>
    (cs \<noteq> [] \<longrightarrow> er_translation r' = translation_of c (last cs) \<and> er_error r' \<noteq> []) \<and>
    (cs = [] \<longrightarrow> r' = r)"
  using assms(3,4)
proof (induction cs arbitrary: r)
  case (Cons g gs)
  then obtain e where e: "px_stat px (host_of c g) = Inl e"
    by (cases "px_stat px (host_of c g)") (auto simp: exists_on_iff)
  let ?r = "r\<lparr>er_translation := translation_of c g, er_error := errno_message px ''stat executable'' e\<rparr>"
  have "resolve_candidates px c (g # gs) r = resolve_candidates px c gs ?r"
    using resolve_candidates_step [OF assms(1,2)] Cons.prems e by simp
  moreover obtain r' where "resolve_candidates px c gs ?r = Inr (False, r')" "er_kind r' = er_kind r"
    "er_shebang r' = er_shebang r"
    "gs \<noteq> [] \<longrightarrow> er_translation r' = translation_of c (last gs) \<and> er_error r' \<noteq> []"
    "gs = [] \<longrightarrow> r' = ?r"
    using Cons.IH [of ?r] Cons.prems by auto
  ultimately show ?case by auto
qed simp

text \<open>Errors of earlier candidates leave no trace: every branch overwrites the message.\<close>

lemma classify_candidate_error: "classify_candidate px st (r\<lparr>er_error := e\<rparr>) = classify_candidate px st r"
  by (cases r) (simp add: classify_candidate_def Let_def case_prod_beta split: sum.split)

lemma resolve_candidates_found:
  assumes "host_path_ok (rc_rootfs_dir c)" "guest_path_ok (rc_cwd c)" "list_all guest_path_ok (pre @ g # post)"
    and "\<forall>p \<in> set pre. \<not> exists_on px c p" "px_stat px (host_of c g) = Inr st"
  shows "resolve_candidates px c (pre @ g # post) r =
    Inr (True, classify_candidate px st (r\<lparr>er_translation := translation_of c g\<rparr>))"
  using assms(3,4)
proof (induction pre arbitrary: r)
  case Nil
  then show ?case using resolve_candidates_step [OF assms(1,2)] assms(5) by simp
next
  case (Cons p pre)
  then obtain e where e: "px_stat px (host_of c p) = Inl e"
    by (cases "px_stat px (host_of c p)") (auto simp: exists_on_iff)
  let ?r = "r\<lparr>er_translation := translation_of c p, er_error := errno_message px ''stat executable'' e\<rparr>"
  have "resolve_candidates px c ((p # pre) @ g # post) r = resolve_candidates px c (pre @ g # post) ?r"
    using resolve_candidates_step [OF assms(1,2)] Cons.prems e by simp
  also have "\<dots> = Inr (True, classify_candidate px st
      ((r\<lparr>er_translation := translation_of c g\<rparr>)\<lparr>er_error := errno_message px ''stat executable'' e\<rparr>))"
    using Cons.IH [of ?r] Cons.prems by (cases r) simp
  finally show ?case by (simp only: classify_candidate_error)
qed

text \<open>What the resolver reports for the candidate \<open>g\<close>.\<close>

definition resolution_at :: "posix \<Rightarrow> runtime_config \<Rightarrow> stat_buf \<Rightarrow> string \<Rightarrow> executable_resolution" where
  "resolution_at px c st g =
     classify_candidate px st (default_executable_resolution\<lparr>er_translation := translation_of c g\<rparr>)"

lemma resolution_at_simps:
  "er_resolved (resolution_at px c st g)"
  "er_translation (resolution_at px c st g) = translation_of c g"
  "er_kind (resolution_at px c st g) \<noteq> Missing"
  by (auto simp: resolution_at_def classify_candidate_def with_report_def Let_def classify_bytes_def
      split: sum.splits)

lemma classify_supported:
  "fst (classify_bytes bytes sh0) \<noteq> Unsupported \<longleftrightarrow>
     take 4 bytes = CHR 0x7F # ''ELF'' \<or> (\<exists>sh. shebang_line bytes sh)"
proof (cases "take 4 bytes = CHR 0x7F # ''ELF''")
  case True
  have "length (take 4 bytes) = 4" unfolding True by simp
  then have "4 \<le> length bytes" unfolding length_take by linarith
  with True show ?thesis by (simp add: classify_bytes_def)
next
  case False
  then have "fst (classify_bytes bytes sh0) \<noteq> Unsupported \<longleftrightarrow>
      (\<exists>sh. classify_bytes bytes sh0 = (Shebang, sh))"
    by (simp add: classify_bytes_def Let_def)
  with False show ?thesis by (simp add: classify_shebang_iff)
qed

lemma resolution_supported_iff:
  "er_kind (resolution_at px c st g) \<noteq> Unsupported \<longleftrightarrow>
     S_ISREG (st_mode st) \<and>
     (\<exists>bytes. read_prefix px (host_of c g) = Inr bytes \<and>
        (take 4 bytes = CHR 0x7F # ''ELF'' \<or> (\<exists>sh. shebang_line bytes sh)))"
  unfolding classify_supported [of _ "er_shebang default_executable_resolution", symmetric]
  by (auto simp: resolution_at_def classify_candidate_def with_report_def Let_def case_prod_beta
      split: sum.splits)

lemma resolve_guest_executable_cases:
  assumes c: "valid_runtime_config c" and cs: "candidate_guest_paths c req = Inr cs"
    and ok: "list_all guest_path_ok cs"
  shows
    "(\<exists>pre g post st. cs = pre @ g # post \<and> (\<forall>p \<in> set pre. \<not> exists_on px c p) \<and>
        px_stat px (host_of c g) = Inr st \<and>
        resolve_guest_executable px c req = Inr (resolution_at px c st g)) \<or>
     ((\<forall>g \<in> set cs. \<not> exists_on px c g) \<and>
        (\<exists>r. resolve_guest_executable px c req = Inr r \<and> \<not> er_resolved r \<and> er_kind r = Missing \<and>
             (cs \<noteq> [] \<longrightarrow> er_translation r = translation_of c (last cs) \<and> er_error r \<noteq> [])))"
proof (cases "\<exists>g \<in> set cs. exists_on px c g")
  case True
  then obtain pre g post where split: "cs = pre @ g # post" "exists_on px c g"
    "\<forall>p \<in> set pre. \<not> exists_on px c p"
    using split_list_first_prop [of cs "exists_on px c"] by auto
  then obtain st where st: "px_stat px (host_of c g) = Inr st" by (auto simp: exists_on_iff)
  have "resolve_guest_executable px c req = Inr (resolution_at px c st g)"
    using resolve_candidates_found [OF valid_configD(1,2) [OF c] _ split(3) st, of post] ok split(1) cs
    by (simp add: resolve_guest_executable_def resolution_at_def)
  with split st show ?thesis by blast
next
  case False
  then have none: "\<forall>g \<in> set cs. \<not> exists_on px c g" by blast
  obtain r where r: "resolve_candidates px c cs default_executable_resolution = Inr (False, r)"
    "cs \<noteq> [] \<longrightarrow> er_translation r = translation_of c (last cs) \<and> er_error r \<noteq> []"
    using resolve_candidates_missing [OF valid_configD(1,2) [OF c] ok none,
        of default_executable_resolution] by blast
  have "cs \<noteq> [] \<Longrightarrow> last cs \<noteq> []"
    using ok last_in_set guest_path_okD by (fastforce simp: list_all_iff is_guest_absolute_path_def)
  then have named: "\<not> (guest_path (er_translation r) = [] \<and> cs \<noteq> [])"
    using r by (metis translation_of_simps(1))
  define r' where "r' = with_report (r\<lparr>er_kind := Missing, er_resolved := False, er_classified := False\<rparr>)"
  have "resolve_guest_executable px c req = Inr r'"
    unfolding resolve_guest_executable_def cs res_bind_Inr r(1) prod.case
    by (simp only: named if_False res_bind_Inr r'_def)
  moreover have "\<not> er_resolved r' \<and> er_kind r' = Missing \<and> er_translation r' = er_translation r \<and>
      er_error r' = er_error r"
    by (simp add: r'_def with_report_def)
  ultimately show ?thesis using none r(2) by (intro disjI2 conjI exI [of _ r']) simp_all
qed

section \<open>Handing a child to the trampoline\<close>

lemma list_all_smap_set: "list_all P m \<Longrightarrow> P (k, v) \<Longrightarrow> list_all P (smap_set k v m)"
  by (induction k v m rule: smap_set.induct) auto

lemma continuation_keys_ok:
  "nul \<notin> set v \<Longrightarrow> env_entry_ok (''ALR_PROGRAM'', v)"
  "nul \<notin> set v \<Longrightarrow> env_entry_ok (''ALR_CONTINUATION_TARGET_GUEST_PATH'', v)"
  by (auto simp: env_entry_ok_def env_key_ok_def iscntrl_def)

lemma child_config_valid:
  assumes "valid_runtime_config c" "guest_path_ok (guest_path (er_translation r))"
  shows "valid_runtime_config (child_config_for_continuation c r)"
  using assms continuation_keys_ok [of "guest_path (er_translation r)"]
  by (auto simp: valid_runtime_config_def child_config_for_continuation_def Let_def guest_path_ok_def
      intro!: list_all_smap_set)

lemma child_config_simps [simp]:
  "rc_program (child_config_for_continuation c r) = guest_path (er_translation r)"
  "rc_rootfs_dir (child_config_for_continuation c r) = rc_rootfs_dir c"
  "smap_ok (rc_env c) \<Longrightarrow> smap_ok (rc_env (child_config_for_continuation c r))"
  by (simp_all add: child_config_for_continuation_def Let_def smap_ok_set)

lemma serialize_child:
  assumes "valid_runtime_config c" "smap_ok (rc_env c)" "guest_path_ok (guest_path (er_translation r))"
  obtains s where "serialize_runtime_config (child_config_for_continuation c r) = Inr s"
    "parse_runtime_config (sc_text s) = Inr (child_config_for_continuation c r)"
    "runtime_config_checksum_hex (sc_text s) = sc_checksum_hex s"
proof -
  let ?k = "child_config_for_continuation c r"
  have v: "validate_runtime_config ?k = Inr ?k"
    using validate_runtime_config_id [OF child_config_valid [OF assms(1,3)]] .
  then obtain s where s: "serialize_runtime_config ?k = Inr s"
    by (simp add: serialize_runtime_config_def Let_def)
  then show thesis
    using that [OF s parse_serialized [OF s v]] assms(2) by (auto elim!: serialized_text)
qed

lemma plan_handoff_valid:
  assumes "valid_runtime_config c" "smap_ok (rc_env c)"
    and "guest_path_ok (guest_path (er_translation (cp_resolution p)))"
  obtains s where
    "serialize_runtime_config (child_config_for_continuation c (cp_resolution p)) = Inr s"
    "parse_runtime_config (sc_text s) = Inr (child_config_for_continuation c (cp_resolution p))"
    "runtime_config_checksum_hex (sc_text s) = sc_checksum_hex s"
    "plan_handoff c args p = p\<lparr>cp_config_handoff := True,
       cp_argv := continuation_argv (configured_trampoline_path c) (cp_kind p)
         (guest_path (er_translation (cp_resolution p))) args,
       cp_env_overrides := continuation_env s (cp_kind p)
         (guest_path (er_translation (cp_resolution p))) args (cp_path_lookup p),
       cp_planned := cp_uses_packaged_trampoline p\<rparr>"
proof -
  obtain s where s: "serialize_runtime_config (child_config_for_continuation c (cp_resolution p)) = Inr s"
    "parse_runtime_config (sc_text s) = Inr (child_config_for_continuation c (cp_resolution p))"
    "runtime_config_checksum_hex (sc_text s) = sc_checksum_hex s"
    using serialize_child [OF assms] by blast
  show thesis using that [OF s] s by (simp add: plan_handoff_def Let_def)
qed

text \<open>A resolution the plan may continue with.\<close>

definition continuable :: "posix \<Rightarrow> runtime_config \<Rightarrow> string \<Rightarrow> executable_resolution \<Rightarrow> bool" where
  "continuable px c req r \<longleftrightarrow>
     resolve_guest_executable px c req = Inr r \<and> (er_kind r = Elf \<or> er_kind r = Shebang)"

lemma resolve_valid_cases:
  assumes "valid_runtime_config c" "req \<noteq> []" "nul \<notin> set req"
  obtains (missing) r where "resolve_guest_executable px c req = Inr r" "\<not> er_resolved r" "er_kind r = Missing"
  | (found) r where "resolve_guest_executable px c req = Inr r" "er_resolved r" "er_kind r \<noteq> Missing"
      "guest_path_ok (guest_path (er_translation r))"
proof -
  obtain cs where cs: "candidate_guest_paths c req = Inr cs" "list_all guest_path_ok cs"
    using candidate_guest_paths_total [OF assms] by blast
  from resolve_guest_executable_cases [OF assms(1) cs, of px] show thesis
  proof (elim disjE exE conjE)
    fix pre g post st
    assume "cs = pre @ g # post" "resolve_guest_executable px c req = Inr (resolution_at px c st g)"
    then show thesis using found [of "resolution_at px c st g"] cs(2) by (simp add: resolution_at_simps)
  qed (use missing in blast)
qed

lemma plan_planned:
  assumes "valid_runtime_config c" "smap_ok (rc_env c)" "req \<noteq> []" "nul \<notin> set req"
    and "continuable px c req r" "configured_trampoline_path c \<noteq> []"
  obtains s where
    "serialize_runtime_config (child_config_for_continuation c r) = Inr s"
    "parse_runtime_config (sc_text s) = Inr (child_config_for_continuation c r)"
    "runtime_config_checksum_hex (sc_text s) = sc_checksum_hex s"
    "cp_planned (build_exec_continuation_plan px c req args kind)"
    "cp_error (build_exec_continuation_plan px c req args kind) = []"
    "cp_resolution (build_exec_continuation_plan px c req args kind) = r"
    "cp_argv (build_exec_continuation_plan px c req args kind) =
       continuation_argv (configured_trampoline_path c) kind (guest_path (er_translation r)) args"
    "cp_env_overrides (build_exec_continuation_plan px c req args kind) =
       continuation_env s kind (guest_path (er_translation r)) args (requires_path_lookup req kind)"
proof -
  have r: "resolve_guest_executable px c req = Inr r" "er_kind r \<noteq> Missing" "er_kind r \<noteq> Unsupported"
    using assms(5) by (auto simp: continuable_def)
  have ok: "er_resolved r" "guest_path_ok (guest_path (er_translation r))"
    using resolve_valid_cases [OF assms(1,3,4), of px] r by auto
  let ?p = "default_exec_continuation_plan\<lparr>cp_kind := kind, cp_path_lookup := requires_path_lookup req kind,
      cp_resolution := r, cp_uses_packaged_trampoline := True\<rparr>"
  obtain s where s: "serialize_runtime_config (child_config_for_continuation c r) = Inr s"
    "parse_runtime_config (sc_text s) = Inr (child_config_for_continuation c r)"
    "runtime_config_checksum_hex (sc_text s) = sc_checksum_hex s"
    and h: "plan_handoff c args ?p = ?p\<lparr>cp_config_handoff := True,
       cp_argv := continuation_argv (configured_trampoline_path c) kind (guest_path (er_translation r)) args,
       cp_env_overrides := continuation_env s kind (guest_path (er_translation r)) args (requires_path_lookup req kind),
       cp_planned := True\<rparr>"
    using plan_handoff_valid [OF assms(1,2), of ?p args] ok by auto
  have "build_exec_continuation_plan px c req args kind =
      (plan_handoff c args ?p)\<lparr>cp_report := build_continuation_report (plan_handoff c args ?p)\<rparr>"
    using r ok assms(6) by (simp add: build_exec_continuation_plan_def Let_def)
  then show thesis
    using that [OF s] unfolding h by (simp add: default_exec_continuation_plan_def)
qed

lemma plan_not_planned:
  assumes "valid_runtime_config c" "req \<noteq> []" "nul \<notin> set req"
    and "\<not> (\<exists>r. continuable px c req r) \<or> configured_trampoline_path c = []"
  shows "\<not> cp_planned (build_exec_continuation_plan px c req args kind) \<and>
         cp_error (build_exec_continuation_plan px c req args kind) \<noteq> [] \<and>
         cp_argv (build_exec_continuation_plan px c req args kind) = []"
proof (cases rule: resolve_valid_cases [OF assms(1-3), where px = px, case_names missing found])
  case (missing r)
  then show ?thesis
    by (simp add: build_exec_continuation_plan_def Let_def default_exec_continuation_plan_def)
next
  case (found r)
  show ?thesis
  proof (cases "er_kind r = Unsupported")
    case True
    with found show ?thesis
      by (simp add: build_exec_continuation_plan_def Let_def default_exec_continuation_plan_def)
  next
    case False
    with found have "continuable px c req r" by (cases "er_kind r") (auto simp: continuable_def)
    with assms(4) have "configured_trampoline_path c = []" by blast
    with found False show ?thesis
      by (simp add: build_exec_continuation_plan_def Let_def default_exec_continuation_plan_def)
  qed
qed

section \<open>Properties of the exec planner\<close>

text \<open>The shebang parser accepts exactly the documented line shape.  A file prefix is classified as a
  script with a given interpreter and argument if and only if it reads: hash, bang, blanks, the
  interpreter (non-empty, without blanks), blanks, the argument (which may hold inner blanks but neither
  starts nor ends with one), blanks, and then a line end or the end of the prefix.\<close>

theorem shebang_grammar:
  "classify_bytes bytes sh0 = (Shebang, sh) \<longleftrightarrow> shebang_line bytes sh"
  by (rule classify_shebang_iff)

text \<open>C10. Resolution is total on a validated configuration and picks the first candidate that exists.
  For a non-empty program name without NUL bytes, the resolver returns; if no candidate can be
  \<^verbatim>\<open>stat\<close>ed the result is unresolved and missing; otherwise it is the first one that can, its host path is
  the rootfs translation of its guest path (below the rootfs, or a kernel directory), and its kind is
  supported if and only if it is a regular file whose readable prefix is an ELF magic or a shebang line.\<close>

theorem resolve_picks_first_existing:
  assumes "valid_runtime_config c" "req \<noteq> []" "nul \<notin> set req"
  shows "\<exists>cs r. candidate_guest_paths c req = Inr cs \<and> resolve_guest_executable px c req = Inr r \<and>
     (case find (exists_on px c) cs of
        None \<Rightarrow> \<not> er_resolved r \<and> er_kind r = Missing
      | Some g \<Rightarrow>
          er_resolved r \<and> er_translation r = translation_of c g \<and> er_kind r \<noteq> Missing \<and>
          (path_below (host_of c g) (trim_trailing_slashes (rc_rootfs_dir c)) \<or>
           kernel_dir_path g \<and> host_of c g = g) \<and>
          (er_kind r \<noteq> Unsupported \<longleftrightarrow>
             (\<exists>st bytes. px_stat px (host_of c g) = Inr st \<and> S_ISREG (st_mode st) \<and>
                read_prefix px (host_of c g) = Inr bytes \<and>
                (take 4 bytes = CHR 0x7F # ''ELF'' \<or> (\<exists>sh. shebang_line bytes sh)))))"
proof -
  obtain cs where cs: "candidate_guest_paths c req = Inr cs" "list_all guest_path_ok cs"
    using candidate_guest_paths_total [OF assms] by blast
  from resolve_guest_executable_cases [OF assms(1) cs, of px] show ?thesis
  proof (elim disjE exE conjE)
    fix pre g post st
    assume a: "cs = pre @ g # post" "\<forall>p \<in> set pre. \<not> exists_on px c p" "px_stat px (host_of c g) = Inr st"
      "resolve_guest_executable px c req = Inr (resolution_at px c st g)"
    have f: "find (exists_on px c) cs = Some g"
      using a find_first [of pre "exists_on px c" g post] by (auto simp: exists_on_iff)
    have "guest_path_ok g" using cs(2) a(1) by simp
    then obtain s where "g = slash # s"
      using guest_path_okD is_guest_absolute_path_iff by blast
    from rewrite_spec_confined [OF this]
    have conf: "path_below (host_of c g) (trim_trailing_slashes (rc_rootfs_dir c)) \<or>
        kernel_dir_path g \<and> host_of c g = g"
      by (simp add: host_of_def)
    have "er_kind (resolution_at px c st g) \<noteq> Unsupported \<longleftrightarrow>
        S_ISREG (st_mode st) \<and> (\<exists>bytes. read_prefix px (host_of c g) = Inr bytes \<and>
          (take 4 bytes = CHR 0x7F # ''ELF'' \<or> (\<exists>sh. shebang_line bytes sh)))"
      using resolution_supported_iff by blast
    with f a cs conf show ?thesis by (simp add: resolution_at_simps)
  next
    fix r
    assume a: "\<forall>g \<in> set cs. \<not> exists_on px c g" "resolve_guest_executable px c req = Inr r"
      "\<not> er_resolved r" "er_kind r = Missing"
    then have "find (exists_on px c) cs = None" by (simp add: find_None_iff)
    with a cs show ?thesis by simp
  qed
qed

definition sample_guest :: runtime_config where
  "sample_guest = default_runtime_config\<lparr>rc_package_name := ''p'', rc_rootfs_dir := ''/d/r'',
     rc_program := ''/bin/sh'',
     rc_env := [(''ALR_TRAMPOLINE_PATH'', ''/lib/t''), (''PATH'', ''/sbin:/bin'')]\<rparr>"

definition sample_host :: posix where
  "sample_host = plain_host [(''/d/r/bin/run'', ''#! /bin/sh  -e x '' @ nl), (''/d/r/bin/ls'', CHR 0x7F # ''ELF'')]"

lemma sample_guest_ok: "valid_runtime_config sample_guest" "smap_ok (rc_env sample_guest)"
  by code_simp+

lemma sample_continuable:
  "\<exists>r. continuable sample_host sample_guest ''/bin/ls'' r" "configured_trampoline_path sample_guest \<noteq> []"
proof -
  have "(case resolve_guest_executable sample_host sample_guest ''/bin/ls'' of
      Inl _ \<Rightarrow> False | Inr r \<Rightarrow> er_kind r = Elf)"
    by code_simp
  then show "\<exists>r. continuable sample_host sample_guest ''/bin/ls'' r"
    by (auto simp: continuable_def split: sum.splits)
qed code_simp

theorem shebang_grammar_witness:
  "shebang_line (''#! /bin/sh  -e x '' @ nl @ ''exit'')
     \<lparr>sh_interpreter = ''/bin/sh'', sh_argument = ''-e x''\<rparr>"
proof -
  have "classify_bytes (''#! /bin/sh  -e x '' @ nl @ ''exit'') \<lparr>sh_interpreter = [], sh_argument = []\<rparr> =
      (Shebang, \<lparr>sh_interpreter = ''/bin/sh'', sh_argument = ''-e x''\<rparr>)" by code_simp
  then show ?thesis by (simp only: shebang_grammar)
qed

theorem resolve_picks_first_existing_witness:
  "\<exists>r. resolve_guest_executable sample_host sample_guest ''run'' = Inr r \<and> er_resolved r \<and>
       er_translation r = translation_of sample_guest ''/bin/run'' \<and> er_kind r \<noteq> Missing"
proof -
  have cs: "candidate_guest_paths sample_guest ''run'' = Inr [''/sbin/run'', ''/bin/run'']" by code_simp
  have f: "find (exists_on sample_host sample_guest) [''/sbin/run'', ''/bin/run''] = Some ''/bin/run''"
    by code_simp
  have "''run'' \<noteq> ([] :: string)" "nul \<notin> set ''run''" by simp_all
  from resolve_picks_first_existing [OF sample_guest_ok(1) this, of sample_host]
  show ?thesis by (simp only: cs sum.inject simp_thms ex_simps f option.case) blast
qed

text \<open>The continuation plan is made exactly when it can be honoured.  For a validated configuration
  with an ordered environment and any non-empty NUL-free program, the plan is marked planned if and only
  if the program resolves to an ELF file or a script and the packaged trampoline is configured; it
  carries an error if and only if it is not planned; and a planned hand-off has serialized a
  configuration that parses back to the parent's configuration with the program, \<^verbatim>\<open>ALR_PROGRAM\<close> and the
  continuation target set to the resolved guest path, under a matching checksum.\<close>

theorem continuation_planned_iff:
  fixes px :: posix and args :: "string list" and kind :: exec_continuation_kind
  assumes "valid_runtime_config c" "smap_ok (rc_env c)" "req \<noteq> []" "nul \<notin> set req"
  defines "plan \<equiv> build_exec_continuation_plan px c req args kind"
  shows "(cp_planned plan \<longleftrightarrow> (\<exists>r. continuable px c req r) \<and> configured_trampoline_path c \<noteq> []) \<and>
         (cp_error plan = [] \<longleftrightarrow> cp_planned plan) \<and>
         (cp_planned plan \<longrightarrow>
            (\<exists>s :: serialized_runtime_config. ''ALR_CONFIG_TEXT='' @ sc_text s \<in> set (cp_env_overrides plan) \<and>
                 ''ALR_CONFIG_CHECKSUM='' @ runtime_config_checksum_hex (sc_text s) \<in> set (cp_env_overrides plan) \<and>
                 parse_runtime_config (sc_text s) = Inr (child_config_for_continuation c (cp_resolution plan))))"
proof (cases "(\<exists>r. continuable px c req r) \<and> configured_trampoline_path c \<noteq> []")
  case True
  then obtain r where "continuable px c req r" "configured_trampoline_path c \<noteq> []" by blast
  from plan_planned [OF assms(1-4) this, of args kind]
  obtain s :: serialized_runtime_config where s: "parse_runtime_config (sc_text s) = Inr (child_config_for_continuation c r)"
    "runtime_config_checksum_hex (sc_text s) = sc_checksum_hex s"
    and p: "cp_planned plan" "cp_error plan = []" "cp_resolution plan = r"
      "cp_env_overrides plan =
       continuation_env s kind (guest_path (er_translation r)) args (requires_path_lookup req kind)"
    unfolding plan_def by metis
  have "''ALR_CONFIG_TEXT='' @ sc_text s \<in> set (cp_env_overrides plan)"
    "''ALR_CONFIG_CHECKSUM='' @ runtime_config_checksum_hex (sc_text s) \<in> set (cp_env_overrides plan)"
    using s by (simp_all add: p(4) continuation_env_def)
  with True s(1) p(1,2) show ?thesis unfolding p(3) by blast
next
  case False
  then show ?thesis
    using plan_not_planned [OF assms(1,3,4), of px args kind] by (auto simp: plan_def)
qed

theorem continuation_planned_iff_witness:
  "cp_planned (build_exec_continuation_plan sample_host sample_guest ''/bin/ls'' [''-l''] Execve)"
proof -
  have "''/bin/ls'' \<noteq> ([] :: string)" "nul \<notin> set ''/bin/ls''" by simp_all
  then show ?thesis
    using continuation_planned_iff [OF sample_guest_ok, of "''/bin/ls''" sample_host "[''-l'']" Execve]
      sample_continuable by blast
qed

end
