(* ===== verification/Alr_Mediation.thy ===== *)
theory Alr_Mediation
  imports Alr_Exec
begin

text \<open>
  The pure decision functions that the ptrace supervisor consults on an \<^verbatim>\<open>execve\<close>, from
  \<^verbatim>\<open>alr_runtime/alr_exec.cpp\<close>: whether the program path is rewritten into the rootfs, which variables
  are injected into the child's environment, and which sandbox switches are added to a chromium
  child's arguments.
\<close>

section \<open>Program paths\<close>

record exec_path_mediation =
  pm_guest_path :: string
  pm_host_path :: string
  pm_should_rewrite :: bool
  pm_reason :: string

definition path_under :: "string \<Rightarrow> string \<Rightarrow> bool" where
  "path_under path dir =
     (if dir = [] then False
      else if length path < length dir then False
      else if take (length dir) path \<noteq> dir then False
      else if length path = length dir then True
      else path ! length dir = slash)"

definition decide_exec_path_mediation :: "string \<Rightarrow> string \<Rightarrow> exec_path_mediation res" where
  "decide_exec_path_mediation rootfs_dir path =
     (let out = \<lparr>pm_guest_path = path, pm_host_path = [], pm_should_rewrite = False, pm_reason = []\<rparr> in
      if path = [] then Inr (out\<lparr>pm_reason := ''empty''\<rparr>)
      else if hd path \<noteq> slash then Inr (out\<lparr>pm_reason := ''relative''\<rparr>)
      else if path_under path ''/proc'' \<or> path_under path ''/sys'' \<or> path_under path ''/dev'' then
        Inr (out\<lparr>pm_reason := ''sysdir''\<rparr>)
      else if path_under path rootfs_dir then Inr (out\<lparr>pm_reason := ''already-host''\<rparr>)
      else
        res_bind (translate_rootfs_path rootfs_dir ''/'' path) (\<lambda>t.
        Inr (out\<lparr>pm_host_path := host_path t, pm_should_rewrite := True, pm_reason := ''rewrite''\<rparr>)))"

section \<open>Environments\<close>

record exec_envp_injection =
  ei_interpose_so :: string
  ei_rootfs_value :: string
  ei_add_entries :: "string list"
  ei_replace_ld_preload :: bool
  ei_ld_preload_value :: string
  ei_should_inject :: bool
  ei_reason :: string

definition default_exec_envp_injection :: exec_envp_injection where
  "default_exec_envp_injection =
     \<lparr>ei_interpose_so = [], ei_rootfs_value = [], ei_add_entries = [], ei_replace_ld_preload = False,
      ei_ld_preload_value = [], ei_should_inject = False, ei_reason = []\<rparr>"

definition split_env_entry :: "string \<Rightarrow> string \<times> string" where
  "split_env_entry entry =
     (case sv_find (CHR ''='') entry 0 of
        None \<Rightarrow> (entry, [])
      | Some eq \<Rightarrow> (sv_substr entry 0 eq, drop (eq + 1) entry))"

definition colon_list_contains :: "string \<Rightarrow> string \<Rightarrow> bool" where
  "colon_list_contains list needle =
     (if needle = [] then False else list_ex (\<lambda>part. part = needle) (delim_fields (CHR '':'') list 0))"

text \<open>The scan over the entries: the first value of \<^verbatim>\<open>LD_PRELOAD\<close> and whether \<^verbatim>\<open>ALR_ROOTFS\<close> was seen.\<close>

definition scan_entry :: "string option \<times> bool \<Rightarrow> string \<Rightarrow> string option \<times> bool" where
  "scan_entry acc entry =
     (case acc of (ld_preload, have_rootfs) \<Rightarrow>
        let (key, value) = split_env_entry entry in
        if ld_preload = None \<and> key = ''LD_PRELOAD'' then (Some value, have_rootfs)
        else if \<not> have_rootfs \<and> key = ''ALR_ROOTFS'' then (ld_preload, True)
        else acc)"

definition scan_envp :: "string list \<Rightarrow> string option \<times> bool" where
  "scan_envp entries = foldl scan_entry (None, False) entries"

text \<open>The \<^verbatim>\<open>append\<close> lambda; the state is \<^verbatim>\<open>built\<close> and \<^verbatim>\<open>seen\<close>.\<close>

definition append_preload :: "string \<times> string list \<Rightarrow> string \<Rightarrow> string \<times> string list" where
  "append_preload st v =
     (case st of (built, seen) \<Rightarrow>
        if v = [] then st
        else if v \<in> set seen then st
        else ((if built \<noteq> [] then built @ '':'' else built) @ v, seen @ [v]))"

definition interpose_so_of :: "string \<Rightarrow> string" where
  "interpose_so_of rootfs_dir = rootfs_dir @ ''/usr/lib/androlinux/libalr_interpose.so''"

definition fakeroot_so_of :: "string \<Rightarrow> string" where
  "fakeroot_so_of rootfs_dir = rootfs_dir @ ''/usr/lib/androlinux/libalr_fakeroot.so''"

definition desired_shims :: "string \<Rightarrow> bool \<Rightarrow> string list" where
  "desired_shims rootfs_dir fakeroot =
     (if fakeroot then [fakeroot_so_of rootfs_dir] else []) @ [interpose_so_of rootfs_dir]"

definition preload_value :: "string list \<Rightarrow> string option \<Rightarrow> string" where
  "preload_value desired existing =
     (case existing of
        Some old \<Rightarrow>
          fst (foldl append_preload (foldl append_preload ([], []) desired) (delim_fields (CHR '':'') old 0))
      | None \<Rightarrow> foldl (\<lambda>built so. (if built \<noteq> [] then built @ '':'' else built) @ so) [] desired)"

definition decide_exec_envp_injection :: "string \<Rightarrow> string list \<Rightarrow> bool \<Rightarrow> exec_envp_injection" where
  "decide_exec_envp_injection rootfs_dir env_entries fakeroot =
     (if rootfs_dir = [] then default_exec_envp_injection\<lparr>ei_reason := ''already''\<rparr>
      else
        let desired = desired_shims rootfs_dir fakeroot;
            (ld_preload, have_rootfs) = scan_envp env_entries;
            have_ld_preload = (ld_preload \<noteq> None);
            existing = (case ld_preload of None \<Rightarrow> [] | Some v \<Rightarrow> v);
            ld_preload_satisfied = (have_ld_preload \<and> list_all (colon_list_contains existing) desired);
            need_ld = (\<not> ld_preload_satisfied);
            need_rootfs = (\<not> have_rootfs);
            ld_value = (if need_ld then preload_value desired ld_preload else []);
            replace = (need_ld \<and> have_ld_preload);
            add = (if need_ld then [''LD_PRELOAD='' @ ld_value] else []) @
                  (if need_rootfs then [''ALR_ROOTFS='' @ rootfs_dir] else []);
            should_inject = (add \<noteq> [] \<or> replace)
        in \<lparr>ei_interpose_so = interpose_so_of rootfs_dir, ei_rootfs_value = rootfs_dir,
            ei_add_entries = add, ei_replace_ld_preload = replace, ei_ld_preload_value = ld_value,
            ei_should_inject = should_inject,
            ei_reason =
              (if \<not> should_inject then ''already''
               else if replace then (if fakeroot then ''prepend-fakeroot'' else ''prepend-ld'')
               else if need_ld \<and> need_rootfs then ''inject-both''
               else if need_ld then ''inject-ld''
               else ''inject-rootfs'')\<rparr>)"

text \<open>The entries the supervisor then writes for the child: every guest entry, without the replaced
  \<^verbatim>\<open>LD_PRELOAD\<close>, followed by the additions; the guest's own array when nothing is injected.\<close>

definition rebuilt_envp :: "exec_envp_injection \<Rightarrow> string list \<Rightarrow> string list" where
  "rebuilt_envp d entries =
     (if ei_should_inject d then
        filter (\<lambda>e. \<not> (ei_replace_ld_preload d \<and> take 11 e = ''LD_PRELOAD='')) entries @ ei_add_entries d
      else entries)"

section \<open>Chromium children\<close>

record chromium_child_argv =
  cc_should_inject :: bool
  cc_add_flags :: "string list"
  cc_reason :: string

definition path_basename :: "string \<Rightarrow> string" where
  "path_basename p = sv_after_last slash p"

definition kSandboxFlags :: "string list" where
  "kSandboxFlags =
     [''--no-sandbox'', ''--disable-seccomp-filter-sandbox'', ''--disable-setuid-sandbox'',
      ''--disable-namespace-sandbox'', ''--disable-gpu-sandbox'']"

definition decide_chromium_child_argv :: "string \<Rightarrow> string list \<Rightarrow> chromium_child_argv" where
  "decide_chromium_child_argv program_path argv =
     (let out = \<lparr>cc_should_inject = False, cc_add_flags = [], cc_reason = []\<rparr>;
          base = path_basename program_path in
      if base \<noteq> ''chromium'' \<and> base \<noteq> ''chrome'' then out\<lparr>cc_reason := ''not-chromium''\<rparr>
      else
        let add = filter (\<lambda>flag. \<not> list_ex (\<lambda>a. a = flag) argv) kSandboxFlags in
        if add = [] then out\<lparr>cc_reason := ''already''\<rparr>
        else out\<lparr>cc_add_flags := add, cc_should_inject := True, cc_reason := ''inject''\<rparr>)"

definition rebuilt_argv :: "chromium_child_argv \<Rightarrow> string list \<Rightarrow> string list" where
  "rebuilt_argv ci argv = (if cc_should_inject ci then argv @ cc_add_flags ci else argv)"

section \<open>Path mediation and the path rules\<close>

lemma path_under_iff: "path_under p d \<longleftrightarrow> d \<noteq> [] \<and> path_below p d"
proof -
  have "take (length d) p = d \<and> length d < length p \<and> p ! length d = slash \<longleftrightarrow> (\<exists>r. p = d @ slash # r)"
    (is "?l \<longleftrightarrow> ?r")
  proof
    assume ?l
    then show ?r using id_take_nth_drop [of "length d" p] by auto
  qed auto
  then show ?thesis
    unfolding path_under_def path_below_def by (auto simp: not_less)
qed

lemma mediation_sysdir_iff:
  "path_under p ''/proc'' \<or> path_under p ''/sys'' \<or> path_under p ''/dev'' \<longleftrightarrow> kernel_dir_path p"
  by (simp add: path_under_iff kernel_dir_path_def)

text \<open>The path the kernel is asked to load after mediation.\<close>

definition loaded_path :: "exec_path_mediation \<Rightarrow> string" where
  "loaded_path m = (if pm_should_rewrite m then pm_host_path m else pm_guest_path m)"

lemma mediation_absolute:
  assumes "nul \<notin> set p" "is_guest_absolute_path p" "host_path_ok root"
  shows "decide_exec_path_mediation root p = Inr
    (if kernel_dir_path p then \<lparr>pm_guest_path = p, pm_host_path = [], pm_should_rewrite = False, pm_reason = ''sysdir''\<rparr>
     else if path_below p root then \<lparr>pm_guest_path = p, pm_host_path = [], pm_should_rewrite = False, pm_reason = ''already-host''\<rparr>
     else \<lparr>pm_guest_path = p, pm_host_path = rewrite_spec (trim_trailing_slashes root) (normal_form p),
           pm_should_rewrite = True, pm_reason = ''rewrite''\<rparr>)"
proof -
  have p: "p \<noteq> []" "hd p = slash" using assms(2) by (auto simp: is_guest_absolute_path_def)
  have r: "root \<noteq> []" "nul \<notin> set root" "is_guest_absolute_path root"
    using assms(3) by (auto simp: host_path_ok_absolute is_guest_absolute_path_def)
  have "translate_rootfs_path root ''/'' p =
      Inr \<lparr>guest_path = normal_form p, host_path = rewrite_spec (trim_trailing_slashes root) (normal_form p),
           escaped_rootfs = False\<rparr>"
    using assms r
    by (simp add: translate_rootfs_path_Inr resolve_against_def) (simp add: is_guest_absolute_path_def)
  then show ?thesis
    using p r unfolding decide_exec_path_mediation_def Let_def mediation_sysdir_iff
    by (simp add: path_under_iff [of p root])
qed

section \<open>Environments as lists of entries\<close>

definition env_lookup :: "string list \<Rightarrow> string \<Rightarrow> string option" where
  "env_lookup entries key = map_of (map split_env_entry entries) key"

lemma split_env_entry_assign: "CHR ''='' \<notin> set k \<Longrightarrow> split_env_entry (k @ ''='' @ v) = (k, v)"
proof -
  assume k: "CHR ''='' \<notin> set k"
  then have "sv_find (CHR ''='') (k @ ''='' @ v) 0 = Some (length k)"
    by (simp add: sv_find_def takeWhile_append_delim)
  then show ?thesis by (simp add: split_env_entry_def sv_substr_def)
qed

lemma split_env_entry_key:
  "CHR ''='' \<notin> set k \<Longrightarrow> fst (split_env_entry e) = k \<longleftrightarrow> e = k \<or> (\<exists>v. e = k @ ''='' @ v)"
proof (cases "CHR ''='' \<in> set e")
  case True
  then obtain a b where "e = a @ CHR ''='' # b" "CHR ''='' \<notin> set a" by (meson split_list_first)
  moreover assume "CHR ''='' \<notin> set k"
  ultimately show ?thesis
    using split_env_entry_assign [of a b] by (auto simp: append_eq_append_conv2 Cons_eq_append_conv append_eq_Cons_conv)
next
  case False
  then show ?thesis by (auto simp: split_env_entry_def sv_find_def)
qed

lemma scan_envp_lookup:
  "scan_envp entries = (env_lookup entries ''LD_PRELOAD'', env_lookup entries ''ALR_ROOTFS'' \<noteq> None)"
proof -
  have "foldl scan_entry (ld, r) entries =
      ((case ld of None \<Rightarrow> env_lookup entries ''LD_PRELOAD'' | Some v \<Rightarrow> Some v),
       r \<or> env_lookup entries ''ALR_ROOTFS'' \<noteq> None)" for ld r
  proof (induction entries arbitrary: ld r)
    case (Cons e es)
    obtain k v where "split_env_entry e = (k, v)" by (cases "split_env_entry e")
    then have "foldl scan_entry (ld, r) (e # es) = foldl scan_entry
        (if ld = None \<and> k = ''LD_PRELOAD'' then Some v else ld,
         r \<or> k = ''ALR_ROOTFS'') es"
      by (simp add: scan_entry_def [of "(ld, r)" e])
    then show ?case
      using \<open>split_env_entry e = (k, v)\<close> unfolding Cons.IH
      by (cases ld) (auto simp: env_lookup_def split: if_splits)
  qed (simp add: env_lookup_def split: option.splits)
  then show ?thesis by (simp add: scan_envp_def)
qed

lemma env_lookup_append:
  "env_lookup (xs @ ys) k = (case env_lookup xs k of None \<Rightarrow> env_lookup ys k | Some v \<Rightarrow> Some v)"
  by (simp add: env_lookup_def map_add_def split: option.splits)

lemma env_lookup_Nil [simp]: "env_lookup [] k = None"
  by (simp add: env_lookup_def)

lemma env_lookup_Cons:
  "env_lookup (e # es) k =
     (if fst (split_env_entry e) = k then Some (snd (split_env_entry e)) else env_lookup es k)"
  by (cases "split_env_entry e") (simp add: env_lookup_def)

lemma env_lookup_assign [simp]:
  "CHR ''='' \<notin> set k \<Longrightarrow> env_lookup ((k @ ''='' @ v) # es) k' = (if k' = k then Some v else env_lookup es k')"
  using split_env_entry_assign [of k v] by (auto simp: env_lookup_def)

lemma env_lookup_filter:
  assumes "\<And>e. fst (split_env_entry e) = k \<Longrightarrow> P e"
  shows "env_lookup (filter P es) k = env_lookup es k"
  by (induction es) (auto simp: env_lookup_Cons assms)

lemma env_lookup_filter_None:
  assumes "\<And>e. e \<in> set es \<Longrightarrow> fst (split_env_entry e) = k \<Longrightarrow> \<not> P e"
  shows "env_lookup (filter P es) k = None"
  using assms by (induction es) (auto simp: env_lookup_Cons)

lemma ld_preload_prefix: "take 11 e = ''LD_PRELOAD='' \<longleftrightarrow> (\<exists>v. e = ''LD_PRELOAD'' @ ''='' @ v)"
proof
  assume "take 11 e = ''LD_PRELOAD=''"
  then have "e = ''LD_PRELOAD='' @ drop 11 e" using append_take_drop_id [of 11 e] by simp
  then show "\<exists>v. e = ''LD_PRELOAD'' @ ''='' @ v" by (intro exI [of _ "drop 11 e"]) simp
qed auto

section \<open>The preload list\<close>

text \<open>The reference for \<open>append_preload\<close>: keep the first occurrence of every non-empty element.\<close>

definition keep_new :: "string list \<Rightarrow> string \<Rightarrow> string list" where
  "keep_new seen v = (if v = [] \<or> v \<in> set seen then seen else seen @ [v])"

lemma append_preload_keep_new:
  assumes "[] \<notin> set seen"
  shows "foldl append_preload (join_with '':'' seen, seen) xs =
           (join_with '':'' (foldl keep_new seen xs), foldl keep_new seen xs)"
  using assms
proof (induction xs arbitrary: seen)
  case (Cons x xs)
  have "append_preload (join_with '':'' seen, seen) x =
      (join_with '':'' (keep_new seen x), keep_new seen x)" "[] \<notin> set (keep_new seen x)"
    using Cons.prems by (auto simp: append_preload_def keep_new_def join_with_snoc join_with_Nil_iff)
  then show ?case using Cons.IH [of "keep_new seen x"] by simp
qed simp

lemma keep_new_set: "set (foldl keep_new seen xs) = set seen \<union> (set xs - {[]})"
  by (induction xs arbitrary: seen) (auto simp: keep_new_def)

lemma keep_new_distinct: "distinct seen \<Longrightarrow> distinct (foldl keep_new seen xs)"
  by (induction xs arbitrary: seen) (auto simp: keep_new_def)

lemma keep_new_prefix: "\<exists>ys. foldl keep_new seen xs = seen @ ys"
proof (induction xs arbitrary: seen)
  case (Cons x xs)
  obtain ys where "foldl keep_new (keep_new seen x) xs = keep_new seen x @ ys" using Cons.IH by blast
  moreover have "\<exists>zs. keep_new seen x = seen @ zs" by (simp add: keep_new_def)
  ultimately show ?case by auto
qed simp

lemma desired_shims_props:
  "desired_shims r f \<noteq> []" "[] \<notin> set (desired_shims r f)" "distinct (desired_shims r f)"
  "CHR '':'' \<notin> set r \<Longrightarrow> so \<in> set (desired_shims r f) \<Longrightarrow> CHR '':'' \<notin> set so"
  by (auto simp: desired_shims_def interpose_so_of_def fakeroot_so_of_def split: if_splits)

lemma keep_new_id: "[] \<notin> set (seen @ xs) \<Longrightarrow> distinct (seen @ xs) \<Longrightarrow> foldl keep_new seen xs = seen @ xs"
  by (induction xs arbitrary: seen) (auto simp: keep_new_def)

text \<open>The value that is written: the shims first, then what the guest had, once each.\<close>

definition preload_elements :: "string list \<Rightarrow> string option \<Rightarrow> string list" where
  "preload_elements desired existing =
     foldl keep_new desired (case existing of None \<Rightarrow> [] | Some old \<Rightarrow> split_on (CHR '':'') old)"

lemma preload_value_elements:
  "preload_value (desired_shims r f) existing = join_with '':'' (preload_elements (desired_shims r f) existing)"
proof (cases existing)
  case None
  have "foldl (\<lambda>built so. (if built \<noteq> [] then built @ '':'' else built) @ so) [] (desired_shims r f) =
      join_with '':'' (desired_shims r f)"
    by (simp add: desired_shims_def interpose_so_of_def fakeroot_so_of_def)
  then show ?thesis by (simp add: None preload_value_def preload_elements_def)
next
  case (Some old)
  let ?d = "desired_shims r f"
  have "foldl append_preload ([], []) ?d = (join_with '':'' ?d, ?d)"
    using append_preload_keep_new [of "[]" ?d] keep_new_id [of "[]" ?d] desired_shims_props(1-3) [of r f] by simp
  then show ?thesis
    using append_preload_keep_new [of ?d "split_on (CHR '':'') old"] desired_shims_props(1-3) [of r f]
    by (simp add: Some preload_value_def preload_elements_def)
qed

lemma preload_split:
  assumes "CHR '':'' \<notin> set r"
  shows "split_on (CHR '':'') (preload_value (desired_shims r f) existing) =
    preload_elements (desired_shims r f) existing"
proof -
  let ?e = "preload_elements (desired_shims r f) existing"
  have s: "set ?e \<subseteq> set (desired_shims r f) \<union> (case existing of None \<Rightarrow> {} | Some old \<Rightarrow> set (split_on (CHR '':'') old))"
    by (auto simp: preload_elements_def keep_new_set split: option.splits)
  have "CHR '':'' \<notin> set x" if "x \<in> set ?e" for x
    using subsetD [OF s that] desired_shims_props(4) [OF assms] split_on_delim_free [of x "CHR '':''"]
    by (auto split: option.splits)
  moreover have "?e \<noteq> []"
    using keep_new_prefix [of "desired_shims r f" "case existing of None \<Rightarrow> [] | Some old \<Rightarrow> split_on (CHR '':'') old"]
      desired_shims_props(1) [of r f] by (auto simp: preload_elements_def)
  ultimately show ?thesis unfolding preload_value_elements by (intro split_on_join)
qed

lemma colon_list_contains_iff:
  "colon_list_contains l n \<longleftrightarrow> n \<noteq> [] \<and> n \<in> set (split_on (CHR '':'') l)"
  by (auto simp: colon_list_contains_def list_ex_iff)

section \<open>The injection in terms of lookups\<close>

definition preload_satisfied :: "string \<Rightarrow> bool \<Rightarrow> string list \<Rightarrow> bool" where
  "preload_satisfied r f env \<longleftrightarrow>
     (\<exists>old. env_lookup env ''LD_PRELOAD'' = Some old \<and>
        set (desired_shims r f) \<subseteq> set (split_on (CHR '':'') old))"

lemma injection_fields:
  fixes f :: bool and env :: "string list"
  assumes "r \<noteq> []"
  defines "need_ld \<equiv> \<not> preload_satisfied r f env"
  shows "ei_replace_ld_preload (decide_exec_envp_injection r env f) \<longleftrightarrow>
           need_ld \<and> env_lookup env ''LD_PRELOAD'' \<noteq> None"
    and "ei_add_entries (decide_exec_envp_injection r env f) =
           (if need_ld then [''LD_PRELOAD'' @ ''='' @
              preload_value (desired_shims r f) (env_lookup env ''LD_PRELOAD'')] else []) @
           (if env_lookup env ''ALR_ROOTFS'' = None then [''ALR_ROOTFS'' @ ''='' @ r] else [])"
    and "ei_should_inject (decide_exec_envp_injection r env f) \<longleftrightarrow>
           need_ld \<or> env_lookup env ''ALR_ROOTFS'' = None"
proof -
  have sat: "(env_lookup env ''LD_PRELOAD'' \<noteq> None \<and>
      list_all (colon_list_contains (case env_lookup env ''LD_PRELOAD'' of None \<Rightarrow> [] | Some v \<Rightarrow> v))
        (desired_shims r f)) \<longleftrightarrow> preload_satisfied r f env"
    using desired_shims_props(2) [of r f]
    by (auto simp: preload_satisfied_def list_all_iff colon_list_contains_iff)
  note d = decide_exec_envp_injection_def scan_envp_lookup Let_def prod.case sat
  show "ei_replace_ld_preload (decide_exec_envp_injection r env f) \<longleftrightarrow>
      need_ld \<and> env_lookup env ''LD_PRELOAD'' \<noteq> None"
    using assms(1) unfolding d need_ld_def by simp
  show "ei_add_entries (decide_exec_envp_injection r env f) =
           (if need_ld then [''LD_PRELOAD'' @ ''='' @
              preload_value (desired_shims r f) (env_lookup env ''LD_PRELOAD'')] else []) @
           (if env_lookup env ''ALR_ROOTFS'' = None then [''ALR_ROOTFS'' @ ''='' @ r] else [])"
    using assms(1) unfolding d need_ld_def by simp
  show "ei_should_inject (decide_exec_envp_injection r env f) \<longleftrightarrow>
           need_ld \<or> env_lookup env ''ALR_ROOTFS'' = None"
    using assms(1) unfolding d need_ld_def by simp
qed

lemma rebuilt_envp_eq:
  assumes "r \<noteq> []"
  shows "rebuilt_envp (decide_exec_envp_injection r env f) env =
    filter (\<lambda>e. \<not> (\<not> preload_satisfied r f env \<and> env_lookup env ''LD_PRELOAD'' \<noteq> None \<and>
                   take 11 e = ''LD_PRELOAD='')) env @
    (if preload_satisfied r f env then []
     else [''LD_PRELOAD'' @ ''='' @ preload_value (desired_shims r f) (env_lookup env ''LD_PRELOAD'')]) @
    (if env_lookup env ''ALR_ROOTFS'' = None then [''ALR_ROOTFS'' @ ''='' @ r] else [])"
  by (simp add: rebuilt_envp_def injection_fields [OF assms])

lemma ld_preload_dropped:
  assumes "''LD_PRELOAD'' \<notin> set env" "env_lookup env ''LD_PRELOAD'' \<noteq> None \<Longrightarrow> b"
  shows "env_lookup (filter (\<lambda>e. \<not> (b \<and> take 11 e = ''LD_PRELOAD='')) env) ''LD_PRELOAD'' = None"
proof (cases b)
  case True
  have "take 11 e = ''LD_PRELOAD=''" if "e \<in> set env" "fst (split_env_entry e) = ''LD_PRELOAD''" for e
    using that assms(1) split_env_entry_key [of "''LD_PRELOAD''" e] ld_preload_prefix [of e] by auto
  then show ?thesis using True by (intro env_lookup_filter_None) blast
next
  case False
  then have "env_lookup env ''LD_PRELOAD'' = None" using assms(2) by blast
  with False show ?thesis by simp
qed

lemma other_key_kept:
  assumes "k \<noteq> ''LD_PRELOAD''"
  shows "env_lookup (filter (\<lambda>e. \<not> (b \<and> take 11 e = ''LD_PRELOAD='')) env) k = env_lookup env k"
proof (rule env_lookup_filter)
  fix e assume "fst (split_env_entry e) = k"
  then show "\<not> (b \<and> take 11 e = ''LD_PRELOAD='')"
    using assms split_env_entry_assign [of "''LD_PRELOAD''"] by (auto simp only: ld_preload_prefix) simp
qed

lemma rebuilt_lookup_preload:
  assumes "r \<noteq> []" "''LD_PRELOAD'' \<notin> set env"
  shows "env_lookup (rebuilt_envp (decide_exec_envp_injection r env f) env) ''LD_PRELOAD'' =
      (if preload_satisfied r f env then env_lookup env ''LD_PRELOAD''
       else Some (preload_value (desired_shims r f) (env_lookup env ''LD_PRELOAD'')))"
proof (cases "preload_satisfied r f env")
  case True
  then obtain old where "env_lookup env ''LD_PRELOAD'' = Some old" by (auto simp: preload_satisfied_def)
  with True show ?thesis by (simp add: rebuilt_envp_eq [OF assms(1)] env_lookup_append)
next
  case False
  have key: "CHR ''='' \<notin> set ''LD_PRELOAD''" by simp
  show ?thesis
    unfolding rebuilt_envp_eq [OF assms(1)] env_lookup_append conj_assoc [symmetric]
    using False ld_preload_dropped [OF assms(2), of "\<not> preload_satisfied r f env \<and> env_lookup env ''LD_PRELOAD'' \<noteq> None"]
      env_lookup_assign [OF key]
    by (simp del: take_Cons_numeral)
qed

lemma rebuilt_lookup_other:
  assumes "r \<noteq> []" "k \<noteq> ''LD_PRELOAD''"
  shows "env_lookup (rebuilt_envp (decide_exec_envp_injection r env f) env) k =
      (case env_lookup env k of Some w \<Rightarrow> Some w | None \<Rightarrow> if k = ''ALR_ROOTFS'' then Some r else None)"
proof -
  have key: "CHR ''='' \<notin> set ''LD_PRELOAD''" "CHR ''='' \<notin> set ''ALR_ROOTFS''" by simp_all
  have add: "env_lookup ((if preload_satisfied r f env then []
       else [''LD_PRELOAD'' @ ''='' @ preload_value (desired_shims r f) (env_lookup env ''LD_PRELOAD'')]) @
      (if env_lookup env ''ALR_ROOTFS'' = None then [''ALR_ROOTFS'' @ ''='' @ r] else [])) k =
      (if k = ''ALR_ROOTFS'' \<and> env_lookup env ''ALR_ROOTFS'' = None then Some r else None)"
    using assms(2) by (simp only: env_lookup_append if_distribR env_lookup_assign [OF key(1)]
        env_lookup_assign [OF key(2)] env_lookup_Nil split: if_splits option.splits) auto
  show ?thesis
    unfolding rebuilt_envp_eq [OF assms(1)] conj_assoc [symmetric]
    by (subst env_lookup_append) (auto simp only: other_key_kept [OF assms(2)] add split: option.splits if_splits)
qed



text \<open>C12. The exec decision loads what the path rule names.  For every normal guest path and every absolute
  rootfs without a trailing slash, the path the kernel is asked to load after mediation is the abstract
  rewrite of the guest path, hence the answer of \<open>alr_rw\<close> whenever that has one, and mediating the loaded
  path a second time leaves it alone.\<close>

theorem mediation_follows_path_rule:
  assumes "normal_path g" "nul \<notin> set g" "host_path_ok root" "\<not> (1 < length root \<and> last root = slash)"
  shows "\<exists>m m'. decide_exec_path_mediation root g = Inr m \<and> loaded_path m = rewrite_spec root g \<and>
    (\<forall>h. rw_text g (alr_rw (Some g) root (length root) ALR_PBUF) = Some h \<longrightarrow> loaded_path m = h) \<and>
    decide_exec_path_mediation root (loaded_path m) = Inr m' \<and> loaded_path m' = loaded_path m"
proof -
  have g: "is_guest_absolute_path g" "normal_form g = g"
    using assms(1) normal_path_absolute by (auto simp: normal_path_def)
  have trim: "trim_trailing_slashes root = root" using assms(4) by (rule trim_trailing_slashes_id)
  have root: "is_guest_absolute_path root" "nul \<notin> set root" "root \<noteq> []"
    using assms(3) by (auto simp: host_path_ok_absolute is_guest_absolute_path_def)
  define m where "m = projr (decide_exec_path_mediation root g)"
  have m: "decide_exec_path_mediation root g = Inr m" "loaded_path m = rewrite_spec root g"
    unfolding m_def mediation_absolute [OF assms(2) g(1) assms(3)] trim g(2)
    by (auto simp: loaded_path_def rewrite_spec_def kernel_dir_path_def)
  obtain s where s: "g = slash # s" using g(1) by (auto simp: is_guest_absolute_path_iff)
  have rule: "loaded_path m = h" if "rw_text g (alr_rw (Some g) root (length root) ALR_PBUF) = Some h" for h
    using alr_rw_refines [of s root ALR_PBUF h] that assms(2) root(2,3) m(2) g(2) by (simp add: s)
  let ?h = "rewrite_spec root g"
  have h: "nul \<notin> set ?h" "is_guest_absolute_path ?h"
    using assms(2) root g(1) by (auto simp: rewrite_spec_def is_guest_absolute_path_def)
  define m' where "m' = projr (decide_exec_path_mediation root ?h)"
  have "decide_exec_path_mediation root ?h = Inr m'" "loaded_path m' = ?h"
    unfolding m'_def mediation_absolute [OF h assms(3)]
    using rewrite_spec_confined [OF s, of root] by (auto simp: loaded_path_def)
  with m rule show ?thesis by metis
qed

theorem mediation_follows_path_rule_witness:
  "\<exists>m. decide_exec_path_mediation ''/d/r'' ''/bin/sh'' = Inr m \<and> loaded_path m = ''/d/r/bin/sh''"
proof -
  have h: "normal_path ''/bin/sh''" "nul \<notin> set ''/bin/sh''" "host_path_ok ''/d/r''"
    "\<not> (1 < length ''/d/r'' \<and> last ''/d/r'' = slash)" by code_simp+
  have "rewrite_spec ''/d/r'' ''/bin/sh'' = ''/d/r/bin/sh''" by code_simp
  then show ?thesis using mediation_follows_path_rule [OF h] by metis
qed

text \<open>The exec decision looks at the path before normalizing it.  Whatever follows the prefix
  \<^verbatim>\<open>/proc/../\<close>, the decision leaves the path to the host kernel as a kernel directory, although its
  normal form is the same path below the guest root; the shared path rule normalizes first and sends the
  same path into the rootfs (unless what follows is itself a kernel directory or a host path).\<close>

theorem mediation_unnormalized_prefix:
  assumes "nul \<notin> set s" "host_path_ok root" "\<not> (1 < length root \<and> last root = slash)"
  shows "(\<exists>m. decide_exec_path_mediation root (''/proc/../'' @ s) = Inr m \<and> \<not> pm_should_rewrite m \<and>
            pm_reason m = ''sysdir'') \<and>
         normal_form (''/proc/../'' @ s) = normal_form (slash # s) \<and>
         (\<forall>h. rw_text (''/proc/../'' @ s) (alr_rw (Some (''/proc/../'' @ s)) root (length root) ALR_PBUF) = Some h
            \<longrightarrow> h = rewrite_spec root (normal_form (slash # s)))"
proof -
  let ?p = "''/proc/../'' @ s"
  have p: "nul \<notin> set ?p" "is_guest_absolute_path ?p" using assms(1) by (auto simp: is_guest_absolute_path_def)
  have k: "kernel_dir_path ?p" by (auto simp: kernel_dir_path_def path_below_def)
  have root: "nul \<notin> set root" "root \<noteq> []"
    using assms(2) by (auto simp: host_path_ok_absolute is_guest_absolute_path_def)
  have nf: "normal_form ?p = normal_form (slash # s)"
    by (auto simp: normal_form_def lex_resolve_def path_step_def split: list.splits)
  show ?thesis
    using mediation_absolute [OF p assms(2)] k nf alr_rw_refines [of "''proc/../'' @ s" root ALR_PBUF] assms(1) root
    by simp
qed

theorem mediation_unnormalized_prefix_witness:
  "(\<exists>m. decide_exec_path_mediation ''/d/r'' ''/proc/../bin/sh'' = Inr m \<and> \<not> pm_should_rewrite m) \<and>
   rw_text ''/proc/../bin/sh'' (alr_rw (Some ''/proc/../bin/sh'') ''/d/r'' 4 ALR_PBUF) = Some ''/d/r/bin/sh''"
proof -
  have "nul \<notin> set ''bin/sh''" "host_path_ok ''/d/r''" "\<not> (1 < length ''/d/r'' \<and> last ''/d/r'' = slash)"
    by code_simp+
  from mediation_unnormalized_prefix [OF this] have "\<exists>m. decide_exec_path_mediation ''/d/r'' ''/proc/../bin/sh'' = Inr m \<and> \<not> pm_should_rewrite m"
    by auto
  moreover have "rw_text ''/proc/../bin/sh'' (alr_rw (Some ''/proc/../bin/sh'') ''/d/r'' 4 ALR_PBUF) = Some ''/d/r/bin/sh''"
    by code_simp
  ultimately show ?thesis by blast
qed

text \<open>Chromium children get every sandbox switch, once.  If the basename of the program is
  \<^verbatim>\<open>chromium\<close> or \<^verbatim>\<open>chrome\<close>, the rebuilt arguments start with the original ones, contain all five
  switches, add no switch that was present, and a second decision injects nothing; for any other program
  the arguments are untouched.\<close>

theorem chromium_argv_correct:
  fixes prog :: string and argv :: "string list"
  defines "argv' \<equiv> rebuilt_argv (decide_chromium_child_argv prog argv) argv"
  shows "if path_basename prog = ''chromium'' \<or> path_basename prog = ''chrome''
         then (\<exists>add. argv' = argv @ add \<and> distinct add \<and> set add = set kSandboxFlags - set argv) \<and>
              set kSandboxFlags \<subseteq> set argv' \<and>
              \<not> cc_should_inject (decide_chromium_child_argv prog argv')
         else argv' = argv"
proof (cases "path_basename prog = ''chromium'' \<or> path_basename prog = ''chrome''")
  case True
  define add where "add = filter (\<lambda>flag. flag \<notin> set argv) kSandboxFlags"
  have d: "decide_chromium_child_argv prog xs =
      (let add = filter (\<lambda>flag. flag \<notin> set xs) kSandboxFlags in
       if add = [] then \<lparr>cc_should_inject = False, cc_add_flags = [], cc_reason = ''already''\<rparr>
       else \<lparr>cc_should_inject = True, cc_add_flags = add, cc_reason = ''inject''\<rparr>)" for xs
  proof -
    have "filter (\<lambda>flag. \<not> list_ex (\<lambda>a. a = flag) xs) kSandboxFlags = filter (\<lambda>flag. flag \<notin> set xs) kSandboxFlags"
      by (rule filter_cong) (auto simp: list_ex_iff)
    with True show ?thesis unfolding decide_chromium_child_argv_def Let_def by auto
  qed
  have a: "argv' = argv @ add"
    by (simp add: argv'_def d rebuilt_argv_def add_def [symmetric] Let_def)
  have "distinct kSandboxFlags" by code_simp
  then have "distinct add" "set add = set kSandboxFlags - set argv" by (auto simp: add_def)
  moreover from this(2) a have all: "set kSandboxFlags \<subseteq> set argv'" by auto
  moreover have "filter (\<lambda>flag. flag \<notin> set argv') kSandboxFlags = []"
    using all by (auto simp: filter_empty_conv)
  ultimately show ?thesis using True a by (simp add: d Let_def)
next
  case False
  then show ?thesis by (simp add: argv'_def decide_chromium_child_argv_def rebuilt_argv_def)
qed

theorem chromium_argv_correct_witness:
  "rebuilt_argv (decide_chromium_child_argv ''/r/usr/lib/chromium/chromium'' [''c'', ''--no-sandbox''])
     [''c'', ''--no-sandbox''] =
   [''c'', ''--no-sandbox'', ''--disable-seccomp-filter-sandbox'', ''--disable-setuid-sandbox'',
    ''--disable-namespace-sandbox'', ''--disable-gpu-sandbox''] \<and>
   set kSandboxFlags \<subseteq> set (rebuilt_argv (decide_chromium_child_argv ''/chrome'' []) [])"
proof
  show "set kSandboxFlags \<subseteq> set (rebuilt_argv (decide_chromium_child_argv ''/chrome'' []) [])"
  proof -
    have "path_basename ''/chrome'' = ''chrome''" by code_simp
    then show ?thesis using chromium_argv_correct [of "''/chrome''" "[]"] by simp
  qed
qed code_simp

end
