(* ===== verification/Alr_Runtime_Trampoline.thy ===== *)
theory Alr_Runtime_Trampoline
  imports Alr_Mediation
begin

text \<open>
  The packaged trampoline program, from \<^verbatim>\<open>alr_runtime_trampoline.cpp\<close>: the process that a continuation
  plan starts.  A run is a function from the argument vector and the environment to what the process
  prints and its exit code.
\<close>

record process_result =
  pr_stdout :: string
  pr_stderr :: string
  pr_exit :: int

text \<open>\<^verbatim>\<open>std::getenv\<close>: the value of the first entry that starts with the name and an equals sign.\<close>

fun getenv :: "string list \<Rightarrow> string \<Rightarrow> string option" where
  "getenv [] key = None"
| "getenv (e # es) key =
     (if take (length key + 1) e = key @ ''='' then Some (drop (length key + 1) e) else getenv es key)"

definition env_or_none :: "string list \<Rightarrow> string \<Rightarrow> string" where
  "env_or_none environ key =
     (case getenv environ key of None \<Rightarrow> ''none'' | Some v \<Rightarrow> if v = [] then ''none'' else v)"

definition required_env :: "string list \<Rightarrow> string \<Rightarrow> string res" where
  "required_env environ key =
     (case getenv environ key of
        None \<Rightarrow> Inl (RuntimeError (''missing env '' @ key))
      | Some v \<Rightarrow> if v = [] then Inl (RuntimeError (''missing env '' @ key)) else Inr v)"

abbreviation out_lines :: "string list \<Rightarrow> string" where
  "out_lines ls \<equiv> concat (map (\<lambda>l. l @ nl) ls)"

definition run_preflight :: "string list \<Rightarrow> process_result" where
  "run_preflight environ =
     \<lparr>pr_stdout = out_lines
        [''ALR TRAMPOLINE PREFLIGHT: reached (the trampoline is running)'',
         ''alr trampoline mode='' @ env_or_none environ ''ALR_TRAMPOLINE_MODE'',
         ''alr trampoline config checksum='' @ env_or_none environ ''ALR_CONFIG_CHECKSUM'',
         ''alr trampoline target guest='' @ env_or_none environ ''ALR_TRAMPOLINE_TARGET_GUEST_PATH'',
         ''alr trampoline target host='' @ env_or_none environ ''ALR_TRAMPOLINE_TARGET_HOST_PATH'',
         ''alr trampoline elf status='' @ env_or_none environ ''ALR_TRAMPOLINE_ELF_STATUS''],
      pr_stderr = [], pr_exit = 0\<rparr>"

text \<open>The argument loop from index two; the state is \<^verbatim>\<open>kind\<close>, \<^verbatim>\<open>target_arg\<close> and \<^verbatim>\<open>extra_argc\<close>.\<close>

fun scan_arguments :: "string list \<Rightarrow> string \<times> string \<times> nat \<Rightarrow> string \<times> string \<times> nat" where
  "scan_arguments [] st = st"
| "scan_arguments [arg] st = st"
| "scan_arguments (arg # next # rest) (kind, target_arg, extra_argc) =
     (if arg = ''--kind'' then scan_arguments rest (next, target_arg, extra_argc)
      else if arg = ''--'' then (kind, next, length rest)
      else scan_arguments (next # rest) (kind, target_arg, extra_argc))"

definition continue_result ::
  "string \<Rightarrow> string \<Rightarrow> nat \<Rightarrow> string \<Rightarrow> string \<Rightarrow> bool \<Rightarrow> bool \<Rightarrow> bool \<Rightarrow> process_result" where
  "continue_result kind target_arg extra_argc continuation_target rootfs_dir checksum_ok target_ok kind_ok =
     \<lparr>pr_stdout = out_lines
        [''ALR TRAMPOLINE CONTINUE EXEC: '' @ pass_fail (checksum_ok \<and> target_ok \<and> kind_ok),
         ''ALR TRAMPOLINE CONTINUE CONFIG: '' @ pass_fail target_ok,
         ''ALR TRAMPOLINE CONTINUE CHECKSUM: '' @ pass_fail checksum_ok,
         ''ALR TRAMPOLINE CONTINUE KIND: '' @ pass_fail kind_ok,
         ''alr trampoline continue mode=dry-run'',
         ''alr trampoline continue kind='' @ kind,
         ''alr trampoline continue target guest='' @ continuation_target,
         ''alr trampoline continue argv target='' @ target_arg,
         ''alr trampoline continue extra argc='' @ dec_nat extra_argc,
         ''alr trampoline continue rootfs='' @ rootfs_dir],
      pr_stderr = [], pr_exit = (if checksum_ok \<and> target_ok \<and> kind_ok then 0 else 3)\<rparr>"

definition continue_failure :: "error \<Rightarrow> process_result" where
  "continue_failure exc =
     \<lparr>pr_stdout = [],
      pr_stderr = out_lines [''ALR TRAMPOLINE CONTINUE EXEC: FAIL'',
        ''alr trampoline continue error='' @ what exc],
      pr_exit = 4\<rparr>"

definition run_continue_exec :: "string list \<Rightarrow> string list \<Rightarrow> process_result" where
  "run_continue_exec argv environ =
     (let (kind, target_arg, extra_argc) = scan_arguments (drop 2 argv) (''missing'', ''missing'', 0) in
      case
        res_bind (required_env environ ''ALR_CONFIG_TEXT'') (\<lambda>config_text.
        res_bind (required_env environ ''ALR_CONFIG_CHECKSUM'') (\<lambda>expected_checksum.
        res_bind (parse_runtime_config config_text) (\<lambda>parsed.
        res_bind (required_env environ ''ALR_CONTINUATION_KIND'') (\<lambda>continuation_kind.
        res_bind (required_env environ ''ALR_CONTINUATION_TARGET_GUEST_PATH'') (\<lambda>continuation_target.
        Inr (continue_result kind target_arg extra_argc continuation_target (rc_rootfs_dir parsed)
          (runtime_config_checksum_hex config_text = expected_checksum)
          (rc_program parsed = continuation_target \<and> target_arg = continuation_target)
          (kind = continuation_kind)))))))
      of Inr result \<Rightarrow> result
       | Inl exc \<Rightarrow> continue_failure exc)"

definition trampoline_main :: "string list \<Rightarrow> string list \<Rightarrow> process_result" where
  "trampoline_main argv environ =
     (if length argv \<le> 1 then
        \<lparr>pr_stdout = [], pr_stderr = out_lines [''ALR TRAMPOLINE MODE: FAIL'',
           ''alr trampoline reason=missing mode''], pr_exit = 2\<rparr>
      else if argv ! 1 = ''--preflight'' then run_preflight environ
      else if argv ! 1 = ''--continue-exec'' then run_continue_exec argv environ
      else \<lparr>pr_stdout = [], pr_stderr = out_lines [''ALR TRAMPOLINE MODE: FAIL'',
             ''alr trampoline reason=unsupported mode''], pr_exit = 2\<rparr>)"

section \<open>When a continuation succeeds\<close>

lemma getenv_assign [simp]:
  "getenv ((key @ ''='' @ v) # es) key = Some v"
  by simp

lemma required_env_Inr: "required_env environ key = Inr v \<longleftrightarrow> getenv environ key = Some v \<and> v \<noteq> []"
  by (auto simp: required_env_def split: option.splits)

lemma scan_arguments_continuation:
  "scan_arguments (drop 2 (continuation_argv t k target args)) (''missing'', ''missing'', 0) =
     (exec_continuation_kind_name k, target, length args)"
  by (simp add: continuation_argv_def)

text \<open>The exit code of a continuation, as a condition on what it was given.\<close>

lemma run_continue_exec_zero:
  assumes "scan_arguments (drop 2 argv) (''missing'', ''missing'', 0) = (kind, target_arg, extra)"
  shows "pr_exit (run_continue_exec argv environ) = 0 \<longleftrightarrow>
    (\<exists>text parsed. getenv environ ''ALR_CONFIG_TEXT'' = Some text \<and>
       parse_runtime_config text = Inr parsed \<and>
       getenv environ ''ALR_CONFIG_CHECKSUM'' = Some (runtime_config_checksum_hex text) \<and>
       getenv environ ''ALR_CONTINUATION_KIND'' = Some kind \<and> kind \<noteq> [] \<and>
       getenv environ ''ALR_CONTINUATION_TARGET_GUEST_PATH'' = Some target_arg \<and>
       rc_program parsed = target_arg)"
proof -
  have case_zero: "pr_exit (case m of Inr r \<Rightarrow> r | Inl e \<Rightarrow> continue_failure e) = 0 \<longleftrightarrow>
      (\<exists>r. m = Inr r \<and> pr_exit r = 0)" for m :: "process_result res"
    by (cases m) (simp_all add: continue_failure_def)
  have zero: "pr_exit (continue_result k t x u v a b d) = 0 \<longleftrightarrow> a \<and> b \<and> d" for k t x u v a b d
    by (simp add: continue_result_def)
  have nonempty: "s \<noteq> []" "rc_program c \<noteq> []" if "parse_runtime_config s = Inr c" for s c
  proof -
    show "s \<noteq> []" using that by (auto simp: parse_runtime_config_def)
    have "guest_path_ok (rc_program c)"
      using valid_configD(3) parse_runtime_config_valid [OF that] by blast
    then show "rc_program c \<noteq> []" using guest_path_okD by (auto simp: is_guest_absolute_path_def)
  qed
  have sum: "runtime_config_checksum_hex s \<noteq> []" for s
    using checksum_hex_length [of s] by auto
  show ?thesis
    unfolding run_continue_exec_def assms Let_def prod.case
    by (subst case_zero) (use nonempty sum in \<open>auto simp: required_env_Inr zero\<close>)
qed

section \<open>Properties of the hand-off\<close>

lemma planned_cases:
  assumes "valid_runtime_config c" "req \<noteq> []" "nul \<notin> set req"
    and "cp_planned (build_exec_continuation_plan px c req args kind)"
  obtains r where "continuable px c req r" "configured_trampoline_path c \<noteq> []"
  using plan_not_planned [OF assms(1-3), of px args kind] assms(4) by blast

text \<open>C13. Whatever the planner plans, the trampoline accepts.  For a validated configuration and a planned
  continuation, running the trampoline on the planned argument vector, in any environment that starts
  with the planned overrides, verifies the configuration text, the checksum, the target and the kind, and
  exits with code zero.\<close>

theorem trampoline_honours_plan:
  assumes "valid_runtime_config c" "smap_ok (rc_env c)" "req \<noteq> []" "nul \<notin> set req"
    and "plan = build_exec_continuation_plan px c req args kind" "cp_planned plan"
  shows "pr_exit (trampoline_main (cp_argv plan) (cp_env_overrides plan @ rest)) = 0"
proof -
  obtain r where r: "continuable px c req r" "configured_trampoline_path c \<noteq> []"
    using planned_cases [OF assms(1,3,4)] assms(5,6) by blast
  obtain s where s: "parse_runtime_config (sc_text s) = Inr (child_config_for_continuation c r)"
    "runtime_config_checksum_hex (sc_text s) = sc_checksum_hex s"
    and p: "cp_argv plan = continuation_argv (configured_trampoline_path c) kind (guest_path (er_translation r)) args"
      "cp_env_overrides plan =
         continuation_env s kind (guest_path (er_translation r)) args (requires_path_lookup req kind)"
    using plan_planned [OF assms(1-4) r, of args kind] assms(5) by metis
  let ?env = "cp_env_overrides plan @ rest"
  have env: "getenv ?env ''ALR_CONFIG_TEXT'' = Some (sc_text s)"
    "getenv ?env ''ALR_CONFIG_CHECKSUM'' = Some (sc_checksum_hex s)"
    "getenv ?env ''ALR_CONTINUATION_KIND'' = Some (exec_continuation_kind_name kind)"
    "getenv ?env ''ALR_CONTINUATION_TARGET_GUEST_PATH'' = Some (guest_path (er_translation r))"
    by (simp_all add: p(2) continuation_env_def)
  have "exec_continuation_kind_name kind \<noteq> []" by (cases kind) simp_all
  then have "pr_exit (run_continue_exec (cp_argv plan) ?env) = 0"
    using s env run_continue_exec_zero [OF scan_arguments_continuation, of _ _ _ _ ?env] by (simp add: p(1))
  then show ?thesis by (simp add: trampoline_main_def p(1) continuation_argv_def)
qed

theorem trampoline_honours_plan_witness:
  "pr_exit (trampoline_main
      (cp_argv (build_exec_continuation_plan sample_host sample_guest ''/bin/ls'' [''-l''] Execve))
      (cp_env_overrides (build_exec_continuation_plan sample_host sample_guest ''/bin/ls'' [''-l''] Execve) @
       [''HOME=/root''])) = 0"
proof -
  have "cp_planned (build_exec_continuation_plan sample_host sample_guest ''/bin/ls'' [''-l''] Execve)"
    using sample_continuable plan_planned [OF sample_guest_ok, of "''/bin/ls''" sample_host] by auto
  then show ?thesis
    using trampoline_honours_plan [OF sample_guest_ok, of "''/bin/ls''"] by simp
qed

text \<open>A corrupted hand-off is refused.  If the configuration text that reaches the trampoline differs
  from the text the checksum was computed for in a single byte, a continuation never exits with code
  zero, whatever the other arguments and variables are.\<close>

theorem trampoline_refuses_corruption:
  assumes "getenv environ ''ALR_CONFIG_TEXT'' = Some (pre @ d # post)"
    and "getenv environ ''ALR_CONFIG_CHECKSUM'' = Some (runtime_config_checksum_hex (pre @ c # post))"
    and "c \<noteq> d" and "1 < length argv" "argv ! 1 = ''--continue-exec''"
  shows "pr_exit (trampoline_main argv environ) \<noteq> 0"
proof -
  obtain k t x where scan: "scan_arguments (drop 2 argv) (''missing'', ''missing'', 0) = (k, t, x)"
    by (metis prod_cases3)
  have "pr_exit (run_continue_exec argv environ) \<noteq> 0"
    using assms(1,2) checksum_substitution [OF assms(3), of pre post]
    unfolding run_continue_exec_zero [OF scan] by auto
  then show ?thesis using assms(4,5) by (simp add: trampoline_main_def)
qed

theorem trampoline_refuses_corruption_witness:
  "pr_exit (trampoline_main [''t'', ''--continue-exec'']
     [''ALR_CONFIG_TEXT=alr-config-v2'', ''ALR_CONFIG_CHECKSUM='' @ runtime_config_checksum_hex ''alr-config-v1'']) \<noteq> 0"
  using trampoline_refuses_corruption
    [of "[''ALR_CONFIG_TEXT=alr-config-v2'', ''ALR_CONFIG_CHECKSUM='' @ runtime_config_checksum_hex ''alr-config-v1'']"
      "''alr-config-v''" "CHR ''2''" "[]" "CHR ''1''" "[''t'', ''--continue-exec'']"]
  by simp

end
