(* ===== verification/Alr_Elf.thy ===== *)
theory Alr_Elf
  imports Posix_Host
begin

text \<open>
  The ELF load planner, from \<^verbatim>\<open>alr_runtime/alr_elf.cpp\<close> and the header formats of
  \<^verbatim>\<open>alr_elf_format.hpp\<close>: exact reads over \<^verbatim>\<open>pread\<close> with interruptions and short reads, the
  little-endian headers, the program-header loop with its wrapping address arithmetic, and the plan.
  The read loop may never return if every call is interrupted, so it is a partial function.
\<close>

section \<open>Formats\<close>

datatype elf_load_plan_status = ElfUnsupported | StaticExecutable | InterpreterNeeded

record elf_load_plan =
  ep_valid :: bool
  ep_status :: elf_load_plan_status
  ep_error :: string
  ep_elf_class :: string
  ep_machine :: string
  ep_type :: string
  ep_entry :: "64 word"
  ep_min_vaddr :: "64 word"
  ep_max_vaddr :: "64 word"
  ep_load_segment_count :: "32 word"
  ep_interpreter :: string
  ep_report :: string

definition default_elf_load_plan :: elf_load_plan where
  "default_elf_load_plan =
     \<lparr>ep_valid = False, ep_status = ElfUnsupported, ep_error = [], ep_elf_class = [], ep_machine = [],
      ep_type = [], ep_entry = 0, ep_min_vaddr = 0, ep_max_vaddr = 0, ep_load_segment_count = 0,
      ep_interpreter = [], ep_report = []\<rparr>"

text \<open>The fields of the two structures that the planner reads; the others only take up space.\<close>

record elf64_ehdr =
  e_ident :: string
  e_type :: "16 word"
  e_machine :: "16 word"
  e_entry :: "64 word"
  e_phoff :: "64 word"
  e_phentsize :: "16 word"
  e_phnum :: "16 word"

record elf64_phdr =
  p_type :: "32 word"
  p_flags :: "32 word"
  p_offset :: "64 word"
  p_vaddr :: "64 word"
  p_filesz :: "64 word"
  p_memsz :: "64 word"

definition sizeof_ehdr :: nat where "sizeof_ehdr = 64"
definition sizeof_phdr :: nat where "sizeof_phdr = 56"

text \<open>Both structures are read in place on a little-endian machine.\<close>

fun le_word :: "string \<Rightarrow> 'a :: len word" where
  "le_word [] = 0"
| "le_word (b # bs) = of_nat (byte_of b) + 256 * le_word bs"

definition le_field :: "string \<Rightarrow> nat \<Rightarrow> nat \<Rightarrow> 'a :: len word" where
  "le_field bs off n = le_word (take n (drop off bs))"

definition decode_ehdr :: "string \<Rightarrow> elf64_ehdr" where
  "decode_ehdr bs =
     \<lparr>e_ident = take 16 bs, e_type = le_field bs 16 2, e_machine = le_field bs 18 2,
      e_entry = le_field bs 24 8, e_phoff = le_field bs 32 8,
      e_phentsize = le_field bs 54 2, e_phnum = le_field bs 56 2\<rparr>"

definition decode_phdr :: "string \<Rightarrow> elf64_phdr" where
  "decode_phdr bs =
     \<lparr>p_type = le_field bs 0 4, p_flags = le_field bs 4 4, p_offset = le_field bs 8 8,
      p_vaddr = le_field bs 16 8, p_filesz = le_field bs 32 8, p_memsz = le_field bs 40 8\<rparr>"

section \<open>Reading\<close>

text \<open>\<open>out\<close> is the filled part of the buffer, \<open>t\<close> counts the calls made so far.\<close>

partial_function (option) read_exact ::
  "posix \<Rightarrow> int \<Rightarrow> nat \<Rightarrow> 64 word \<Rightarrow> nat \<Rightarrow> string \<Rightarrow> (nat \<times> string res) option"
where
  "read_exact px fd n offset t out =
     (if length out < n then
        (case px_pread px t fd (n - length out) (offset + of_nat (length out)) of
           Inr bytes \<Rightarrow>
             if bytes \<noteq> [] then read_exact px fd n offset (t + 1) (out @ bytes)
             else Some (t + 1, Inl (RuntimeError ''unexpected EOF while reading ELF''))
         | Inl e \<Rightarrow>
             if e \<noteq> EINTR then Some (t + 1, Inl (RuntimeError (errno_message px ''pread ELF'' e)))
             else read_exact px fd n offset (t + 1) out)
      else Some (t, Inr out))"

definition read_string_at ::
  "posix \<Rightarrow> int \<Rightarrow> 64 word \<Rightarrow> 64 word \<Rightarrow> nat \<Rightarrow> (nat \<times> string res) option" where
  "read_string_at px fd offset n t =
     (if n = 0 \<or> 4096 < n then Some (t, Inl (RuntimeError ''invalid ELF string size''))
      else
        map_option (\<lambda>(t, r). (t, res_bind r (\<lambda>buffer. Inr (takeWhile (\<lambda>c. c \<noteq> nul) buffer))))
          (read_exact px fd (unat n) offset t []))"

definition type_name :: "16 word \<Rightarrow> string" where
  "type_name ty = (if ty = 2 then ''exec'' else if ty = 3 then ''dyn'' else ''unsupported'')"

definition machine_name :: "16 word \<Rightarrow> string" where
  "machine_name m = (if m = 183 then ''aarch64'' else ''unsupported'')"

definition hex_value_text :: "64 word \<Rightarrow> string" where
  "hex_value_text v = ''0x'' @ hex_nat (unat v)"

primrec elf_load_plan_status_name :: "elf_load_plan_status \<Rightarrow> string" where
  "elf_load_plan_status_name ElfUnsupported = ''unsupported''"
| "elf_load_plan_status_name StaticExecutable = ''static-executable''"
| "elf_load_plan_status_name InterpreterNeeded = ''interpreter-needed''"

definition build_elf_report :: "elf_load_plan \<Rightarrow> string" where
  "build_elf_report plan = report_lines (
     [''ALR ELF LOAD PLAN: '' @ pass_fail (ep_valid plan),
      ''ALR ELF STATIC HELLO CANDIDATE: '' @ (if ep_status plan = StaticExecutable then ''PASS'' else ''SKIP''),
      ''alr elf class='' @ ep_elf_class plan,
      ''alr elf machine='' @ ep_machine plan,
      ''alr elf type='' @ ep_type plan,
      ''alr elf status='' @ elf_load_plan_status_name (ep_status plan),
      ''alr elf entry='' @ hex_value_text (ep_entry plan),
      ''alr elf min vaddr='' @ hex_value_text (ep_min_vaddr plan),
      ''alr elf max vaddr='' @ hex_value_text (ep_max_vaddr plan),
      ''alr elf interp='' @ (if ep_interpreter plan = [] then ''none'' else ep_interpreter plan),
      ''alr elf load segments='' @ dec_nat (unat (ep_load_segment_count plan))] @
     line_if (ep_error plan \<noteq> []) (''alr elf error='' @ ep_error plan))"

definition with_elf_report :: "elf_load_plan \<Rightarrow> elf_load_plan" where
  "with_elf_report plan = plan\<lparr>ep_report := build_elf_report plan\<rparr>"

section \<open>The plan\<close>

text \<open>The variables of the program-header loop.\<close>

record elf_scan =
  sc_plan :: elf_load_plan
  sc_min :: "64 word"
  sc_max :: "64 word"
  sc_has_load :: bool

text \<open>The loop body behind the read of one program header; the exception, if any, comes last and the
  assignments made before it remain.\<close>

definition visit_phdr ::
  "posix \<Rightarrow> int \<Rightarrow> elf64_phdr \<Rightarrow> nat \<Rightarrow> elf_scan \<Rightarrow> (nat \<times> elf_scan \<times> error option) option" where
  "visit_phdr px fd phdr t s =
     (if p_type phdr = 1 then
        (let s = s\<lparr>sc_has_load := True,
                   sc_plan := (sc_plan s)\<lparr>ep_load_segment_count := ep_load_segment_count (sc_plan s) + 1\<rparr>\<rparr>;
             segment_vaddr = p_vaddr phdr;
             segment_end = segment_vaddr + p_memsz phdr
         in if segment_end < segment_vaddr
            then Some (t, s, Some (RuntimeError ''ELF PT_LOAD segment address overflow''))
            else Some (t, s\<lparr>sc_min := min (sc_min s) segment_vaddr, sc_max := max (sc_max s) segment_end\<rparr>, None))
      else if p_type phdr = 3 then
        map_option (\<lambda>(t, r).
            case r of
              Inl exc \<Rightarrow> (t, s, Some exc)
            | Inr name \<Rightarrow> (t, s\<lparr>sc_plan := (sc_plan s)\<lparr>ep_interpreter := name\<rparr>\<rparr>, None))
          (read_string_at px fd (p_offset phdr) (p_filesz phdr) t)
      else Some (t, s, None))"

fun scan_phdrs ::
  "posix \<Rightarrow> int \<Rightarrow> elf64_ehdr \<Rightarrow> nat list \<Rightarrow> nat \<Rightarrow> elf_scan \<Rightarrow> (nat \<times> elf_scan \<times> error option) option" where
  "scan_phdrs px fd ehdr [] t s = Some (t, s, None)"
| "scan_phdrs px fd ehdr (i # rest) t s =
     Option.bind (read_exact px fd sizeof_phdr (e_phoff ehdr + of_nat i * ucast (e_phentsize ehdr)) t []) (\<lambda>(t, r).
       case r of
         Inl exc \<Rightarrow> Some (t, s, Some exc)
       | Inr bytes \<Rightarrow>
           Option.bind (visit_phdr px fd (decode_phdr bytes) t s) (\<lambda>(t, s, exc).
             case exc of
               Some e \<Rightarrow> Some (t, s, Some e)
             | None \<Rightarrow> scan_phdrs px fd ehdr rest t s))"

definition header_supported :: "elf64_ehdr \<Rightarrow> bool" where
  "header_supported ehdr \<longleftrightarrow>
     e_ident ehdr ! 4 = CHR 0x02 \<and> e_ident ehdr ! 5 = CHR 0x01 \<and> e_ident ehdr ! 6 = CHR 0x01 \<and>
     e_machine ehdr = 183 \<and> e_phentsize ehdr = of_nat sizeof_phdr"

definition finish_plan :: "elf_scan \<Rightarrow> elf_load_plan" where
  "finish_plan s =
     (let plan = sc_plan s in
      if \<not> sc_has_load s then plan\<lparr>ep_error := ''ELF has no PT_LOAD segments''\<rparr>
      else if ep_type plan \<noteq> ''exec'' \<and> ep_type plan \<noteq> ''dyn'' then plan\<lparr>ep_error := ''unsupported ELF type''\<rparr>
      else plan\<lparr>ep_valid := True, ep_min_vaddr := sc_min s, ep_max_vaddr := sc_max s,
                ep_status := (if ep_interpreter plan = [] then StaticExecutable else InterpreterNeeded)\<rparr>)"

definition plan_from_header ::
  "posix \<Rightarrow> int \<Rightarrow> elf64_ehdr \<Rightarrow> nat \<Rightarrow> elf_load_plan \<Rightarrow> elf_load_plan option" where
  "plan_from_header px fd ehdr t plan =
     (if take 4 (e_ident ehdr) \<noteq> CHR 0x7F # ''ELF'' then Some (plan\<lparr>ep_error := ''not an ELF file''\<rparr>)
      else
        let plan = plan\<lparr>ep_elf_class := (if e_ident ehdr ! 4 = CHR 0x02 then ''elf64'' else ''unsupported'')\<rparr> in
        if \<not> header_supported ehdr then
          Some (plan\<lparr>ep_machine := machine_name (e_machine ehdr), ep_type := type_name (e_type ehdr),
                     ep_error := ''unsupported ELF header''\<rparr>)
        else
          let plan = plan\<lparr>ep_machine := ''aarch64'', ep_type := type_name (e_type ehdr), ep_entry := e_entry ehdr\<rparr>
          in map_option (\<lambda>(t, s, exc).
                case exc of None \<Rightarrow> finish_plan s | Some e \<Rightarrow> (sc_plan s)\<lparr>ep_error := what e\<rparr>)
              (scan_phdrs px fd ehdr [0..<unat (e_phnum ehdr)] t
                 \<lparr>sc_plan = plan, sc_min = - 1, sc_max = 0, sc_has_load = False\<rparr>))"

definition build_elf_load_plan :: "posix \<Rightarrow> string \<Rightarrow> elf_load_plan option" where
  "build_elf_load_plan px host =
     map_option with_elf_report
       (case px_open px host of
          Inl e \<Rightarrow> Some (default_elf_load_plan\<lparr>ep_error := errno_message px ''open ELF'' e\<rparr>)
        | Inr fd \<Rightarrow>
            Option.bind (read_exact px fd sizeof_ehdr 0 0 []) (\<lambda>(t, r).
              case r of
                Inl exc \<Rightarrow> Some (default_elf_load_plan\<lparr>ep_error := what exc\<rparr>)
              | Inr bytes \<Rightarrow> plan_from_header px fd (decode_ehdr bytes) t default_elf_load_plan))"

section \<open>Reads against a file\<close>

text \<open>What \<^verbatim>\<open>pread\<close> promises on a descriptor of a regular file: it returns bytes of the file at the offset,
  at most as many as asked, none only at or past the end; it fails with \<^verbatim>\<open>EINTR\<close> at most finitely often
  in a row; an offset that does not fit \<^verbatim>\<open>off_t\<close> is refused with \<^verbatim>\<open>EINVAL\<close>.\<close>

definition serves :: "posix \<Rightarrow> int \<Rightarrow> string \<Rightarrow> bool" where
  "serves px fd img \<longleftrightarrow>
     length img < 2 ^ 63 \<and>
     (\<forall>t n off. 2 ^ 63 \<le> unat off \<longrightarrow> px_pread px t fd n off = Inl 22) \<and>
     (\<forall>t n off e. unat off < 2 ^ 63 \<longrightarrow> px_pread px t fd n off = Inl e \<longrightarrow> e = EINTR) \<and>
     (\<forall>t n off bs. unat off < 2 ^ 63 \<longrightarrow> px_pread px t fd n off = Inr bs \<longrightarrow>
        length bs \<le> n \<and> bs = take (length bs) (drop (unat off) img) \<and>
        (bs = [] \<longrightarrow> n = 0 \<or> length img \<le> unat off)) \<and>
     (\<forall>t n off. unat off < 2 ^ 63 \<longrightarrow> (\<exists>k. px_pread px (t + k) fd n off \<noteq> Inl EINTR))"

definition eof_error :: error where
  "eof_error = RuntimeError ''unexpected EOF while reading ELF''"

definition file_read :: "posix \<Rightarrow> string \<Rightarrow> 64 word \<Rightarrow> nat \<Rightarrow> string res" where
  "file_read px img off n =
     (if n = 0 then Inr []
      else if 2 ^ 63 \<le> unat off then Inl (RuntimeError (errno_message px ''pread ELF'' 22))
      else if n \<le> length (drop (unat off) img) then Inr (take n (drop (unat off) img))
      else Inl eof_error)"

lemma read_exact_skip:
  assumes "length out < n"
    and "\<forall>j < k. px_pread px (t + j) fd (n - length out) (off + of_nat (length out)) = Inl EINTR"
  shows "read_exact px fd n off t out = read_exact px fd n off (t + k) out"
  using assms(2)
proof (induction k arbitrary: t)
  case (Suc k)
  have "px_pread px t fd (n - length out) (off + of_nat (length out)) = Inl EINTR"
    using Suc.prems by (metis add.right_neutral zero_less_Suc)
  then have "read_exact px fd n off t out = read_exact px fd n off (t + 1) out"
    using assms(1) by (simp add: read_exact.simps [of px fd n off t out])
  also have "\<dots> = read_exact px fd n off (t + 1 + k) out"
  proof (rule Suc.IH)
    show "\<forall>j<k. px_pread px (t + 1 + j) fd (n - length out) (off + of_nat (length out)) = Inl EINTR"
    proof (intro allI impI)
      fix j assume "j < k"
      then show "px_pread px (t + 1 + j) fd (n - length out) (off + of_nat (length out)) = Inl EINTR"
        using Suc.prems [rule_format, of "Suc j"] by (simp add: add.assoc)
    qed
  qed
  finally show ?case by simp
qed simp

lemma unat_add_offset:
  assumes "unat off + k < 2 ^ 64"
  shows "unat (off + of_nat k :: 64 word) = unat off + k"
proof -
  have "unat (of_nat k :: 64 word) = k" using assms by (simp add: unat_of_nat)
  then show ?thesis using assms by (simp add: unat_word_ariths)
qed

lemma read_exact_serves:
  assumes s: "serves px fd img" and off: "unat off < 2 ^ 63"
    and "out = take (length out) (drop (unat off) img)" "length out \<le> n"
  shows "\<exists>t'. read_exact px fd n off t out = Some (t',
      if n \<le> length (drop (unat off) img) then Inr (take n (drop (unat off) img)) else Inl eof_error)"
  using assms(3,4)
proof (induction "n - length out" arbitrary: out t rule: less_induct)
  case less
  let ?D = "drop (unat off) img"
  let ?m = "n - length out" and ?o = "off + of_nat (length out)"
  have len: "length out \<le> length ?D" using less.prems(1) by (metis length_take min.cobounded1)
  show ?case
  proof (cases "length out < n")
    case False
    then have "out = take n ?D" using less.prems by simp
    moreover have "n \<le> length ?D" using False less.prems(2) len by linarith
    moreover have "read_exact px fd n off t out = Some (t, Inr out)"
      using False by (simp add: read_exact.simps [of px fd n off t out])
    ultimately show ?thesis by auto
  next
    case True
    have "length img < 2 ^ 63" using s by (simp add: serves_def)
    then have b: "unat off + length out < 2 ^ 63" using off len by (cases "out = []") auto
    have o: "unat ?o = unat off + length out" by (rule unat_add_offset) (use b in simp)
    then have ob: "unat ?o < 2 ^ 63" using b by simp
    define k where "k = (LEAST k. px_pread px (t + k) fd ?m ?o \<noteq> Inl EINTR)"
    have "\<exists>k. px_pread px (t + k) fd ?m ?o \<noteq> Inl EINTR" using s ob unfolding serves_def by blast
    then have k: "px_pread px (t + k) fd ?m ?o \<noteq> Inl EINTR" unfolding k_def by (rule LeastI_ex)
    have "\<forall>j < k. px_pread px (t + j) fd ?m ?o = Inl EINTR"
      unfolding k_def using not_less_Least by blast
    then have skip: "read_exact px fd n off t out = read_exact px fd n off (t + k) out"
      by (rule read_exact_skip [OF True])
    obtain bs where bs: "px_pread px (t + k) fd ?m ?o = Inr bs"
      using k s ob unfolding serves_def by (metis old.sum.exhaust)
    then have c: "length bs \<le> ?m" "bs = take (length bs) (drop (unat ?o) img)"
      "bs = [] \<longrightarrow> ?m = 0 \<or> length img \<le> unat ?o"
      using s ob unfolding serves_def by blast+
    have d: "drop (unat ?o) img = drop (length out) ?D" by (simp add: o add.commute)
    show ?thesis
    proof (cases "bs = []")
      case True
      then have "length ?D \<le> length out" using c(3) \<open>length out < n\<close> o by simp
      then have "\<not> n \<le> length ?D" using \<open>length out < n\<close> by linarith
      moreover have "read_exact px fd n off (t + k) out = Some (t + k + 1, Inl eof_error)"
        using True \<open>length out < n\<close> bs by (simp add: read_exact.simps [of px fd n off "t + k" out] eof_error_def)
      ultimately show ?thesis using skip by auto
    next
      case False
      have step: "read_exact px fd n off (t + k) out = read_exact px fd n off (t + k + 1) (out @ bs)"
        using False \<open>length out < n\<close> bs by (simp add: read_exact.simps [of px fd n off "t + k" out])
      have ext: "out @ bs = take (length (out @ bs)) ?D"
      proof -
        have "take (length out + length bs) ?D = take (length out) ?D @ take (length bs) (drop (length out) ?D)"
          by (rule take_add)
        then show ?thesis using less.prems(1) c(2) unfolding d length_append by metis
      qed
      have "n - length (out @ bs) < n - length out" using False \<open>length out < n\<close> by (cases bs) auto
      moreover have "length (out @ bs) \<le> n" using c(1) \<open>length out < n\<close> by simp
      ultimately show ?thesis using less.hyps [of "out @ bs" "t + k + 1"] ext skip step by simp
    qed
  qed
qed

lemma read_exact_file:
  assumes "serves px fd img"
  shows "\<exists>t'. read_exact px fd n off t [] = Some (t', file_read px img off n)"
proof (cases "n = 0 \<or> 2 ^ 63 \<le> unat off")
  case True
  have refused: "2 ^ 63 \<le> unat off \<Longrightarrow> px_pread px t fd m off = Inl 22" for m
    using assms by (simp add: serves_def)
  then show ?thesis
    using True refused [of n] by (auto simp: read_exact.simps [of px fd n off t] file_read_def EINTR_def)
next
  case False
  then show ?thesis using read_exact_serves [OF assms, of off "[]" n t] by (simp add: file_read_def)
qed

section \<open>The plan of an image\<close>

text \<open>The same planner over the bytes of the file, with no calls: the specification of the real one.\<close>

definition image_string :: "posix \<Rightarrow> string \<Rightarrow> 64 word \<Rightarrow> 64 word \<Rightarrow> string res" where
  "image_string px img off n =
     (if n = 0 \<or> 4096 < n then Inl (RuntimeError ''invalid ELF string size'')
      else res_bind (file_read px img off (unat n)) (\<lambda>b. Inr (takeWhile (\<lambda>c. c \<noteq> nul) b)))"

definition image_visit :: "posix \<Rightarrow> string \<Rightarrow> elf64_phdr \<Rightarrow> elf_scan \<Rightarrow> elf_scan \<times> error option" where
  "image_visit px img ph s =
     (if p_type ph = 1 then
        (let s = s\<lparr>sc_has_load := True,
                   sc_plan := (sc_plan s)\<lparr>ep_load_segment_count := ep_load_segment_count (sc_plan s) + 1\<rparr>\<rparr>
         in if p_vaddr ph + p_memsz ph < p_vaddr ph
            then (s, Some (RuntimeError ''ELF PT_LOAD segment address overflow''))
            else (s\<lparr>sc_min := min (sc_min s) (p_vaddr ph), sc_max := max (sc_max s) (p_vaddr ph + p_memsz ph)\<rparr>, None))
      else if p_type ph = 3 then
        (case image_string px img (p_offset ph) (p_filesz ph) of
           Inl exc \<Rightarrow> (s, Some exc)
         | Inr name \<Rightarrow> (s\<lparr>sc_plan := (sc_plan s)\<lparr>ep_interpreter := name\<rparr>\<rparr>, None))
      else (s, None))"

definition image_phdr :: "posix \<Rightarrow> string \<Rightarrow> elf64_ehdr \<Rightarrow> nat \<Rightarrow> elf64_phdr res" where
  "image_phdr px img h i =
     res_bind (file_read px img (e_phoff h + of_nat i * ucast (e_phentsize h)) sizeof_phdr)
       (\<lambda>b. Inr (decode_phdr b))"

fun image_scan :: "posix \<Rightarrow> string \<Rightarrow> elf64_ehdr \<Rightarrow> nat list \<Rightarrow> elf_scan \<Rightarrow> elf_scan \<times> error option" where
  "image_scan px img h [] s = (s, None)"
| "image_scan px img h (i # rest) s =
     (case image_phdr px img h i of
        Inl exc \<Rightarrow> (s, Some exc)
      | Inr ph \<Rightarrow>
          (case image_visit px img ph s of
             (s, Some e) \<Rightarrow> (s, Some e)
           | (s, None) \<Rightarrow> image_scan px img h rest s))"

definition image_from_header :: "posix \<Rightarrow> string \<Rightarrow> elf64_ehdr \<Rightarrow> elf_load_plan \<Rightarrow> elf_load_plan" where
  "image_from_header px img h p =
     (if take 4 (e_ident h) \<noteq> CHR 0x7F # ''ELF'' then p\<lparr>ep_error := ''not an ELF file''\<rparr>
      else
        let p = p\<lparr>ep_elf_class := (if e_ident h ! 4 = CHR 0x02 then ''elf64'' else ''unsupported'')\<rparr> in
        if \<not> header_supported h then
          p\<lparr>ep_machine := machine_name (e_machine h), ep_type := type_name (e_type h),
            ep_error := ''unsupported ELF header''\<rparr>
        else
          let p = p\<lparr>ep_machine := ''aarch64'', ep_type := type_name (e_type h), ep_entry := e_entry h\<rparr>;
              (s, exc) = image_scan px img h [0..<unat (e_phnum h)]
                \<lparr>sc_plan = p, sc_min = - 1, sc_max = 0, sc_has_load = False\<rparr>
          in (case exc of None \<Rightarrow> finish_plan s | Some e \<Rightarrow> (sc_plan s)\<lparr>ep_error := what e\<rparr>))"

definition image_plan :: "posix \<Rightarrow> string \<Rightarrow> elf_load_plan" where
  "image_plan px img =
     with_elf_report
       (case file_read px img 0 sizeof_ehdr of
          Inl exc \<Rightarrow> default_elf_load_plan\<lparr>ep_error := what exc\<rparr>
        | Inr bytes \<Rightarrow> image_from_header px img (decode_ehdr bytes) default_elf_load_plan)"

lemma read_string_file:
  assumes "serves px fd img"
  shows "\<exists>t'. read_string_at px fd off n t = Some (t', image_string px img off n)"
  using read_exact_file [OF assms, of "unat n" off t]
  by (auto simp: read_string_at_def image_string_def)

lemma visit_file:
  assumes "serves px fd img"
  shows "\<exists>t'. visit_phdr px fd ph t s = Some (t', image_visit px img ph s)"
proof (cases "p_type ph = 3")
  case True
  obtain t' where r: "read_string_at px fd (p_offset ph) (p_filesz ph) t =
      Some (t', image_string px img (p_offset ph) (p_filesz ph))"
    using read_string_file [OF assms] by blast
  show ?thesis
    by (cases "image_string px img (p_offset ph) (p_filesz ph)")
      (simp_all add: visit_phdr_def image_visit_def True r)
qed (simp add: visit_phdr_def image_visit_def Let_def)

lemma scan_file:
  assumes "serves px fd img"
  shows "\<exists>t'. scan_phdrs px fd h is t s = Some (t', image_scan px img h is s)"
proof (induction "is" arbitrary: t s)
  case (Cons i "is")
  obtain t1 where r: "read_exact px fd sizeof_phdr (e_phoff h + of_nat i * ucast (e_phentsize h)) t [] =
      Some (t1, file_read px img (e_phoff h + of_nat i * ucast (e_phentsize h)) sizeof_phdr)"
    using read_exact_file [OF assms] by blast
  show ?case
  proof (cases "file_read px img (e_phoff h + of_nat i * ucast (e_phentsize h)) sizeof_phdr")
    case (Inl e)
    then show ?thesis using r by (simp add: image_phdr_def)
  next
    case (Inr b)
    obtain t2 where v: "visit_phdr px fd (decode_phdr b) t1 s = Some (t2, image_visit px img (decode_phdr b) s)"
      using visit_file [OF assms] by blast
    obtain s' e where iv: "image_visit px img (decode_phdr b) s = (s', e)" by fastforce
    show ?thesis using Inr r v iv Cons.IH [of t2 s'] by (cases e) (auto simp: image_phdr_def)
  qed
qed simp

lemma plan_from_header_image:
  assumes "serves px fd img"
  shows "plan_from_header px fd h t p = Some (image_from_header px img h p)"
proof -
  have "map_option (\<lambda>(t, s, exc). case exc of None \<Rightarrow> finish_plan s | Some e \<Rightarrow> (sc_plan s)\<lparr>ep_error := what e\<rparr>)
      (scan_phdrs px fd h is t s0) =
    Some (case image_scan px img h is s0 of
      (s, exc) \<Rightarrow> (case exc of None \<Rightarrow> finish_plan s | Some e \<Rightarrow> (sc_plan s)\<lparr>ep_error := what e\<rparr>))" for "is" s0
    using scan_file [OF assms, of h "is" t s0] by (auto split: prod.splits)
  then show ?thesis unfolding plan_from_header_def image_from_header_def Let_def by simp
qed

lemma build_elf_load_plan_image:
  assumes "px_open px host = Inr fd" "serves px fd img"
  shows "build_elf_load_plan px host = Some (image_plan px img)"
proof -
  obtain t1 where "read_exact px fd sizeof_ehdr 0 0 [] = Some (t1, file_read px img 0 sizeof_ehdr)"
    using read_exact_file [OF assms(2)] by blast
  then show ?thesis
    using plan_from_header_image [OF assms(2)] assms(1)
    by (simp add: build_elf_load_plan_def image_plan_def split: sum.split)
qed

section \<open>Which images are valid\<close>

definition image_ehdr :: "string \<Rightarrow> elf64_ehdr" where
  "image_ehdr img = decode_ehdr (take sizeof_ehdr img)"

definition phdr_offset :: "elf64_ehdr \<Rightarrow> nat \<Rightarrow> nat" where
  "phdr_offset h i = unat (e_phoff h + of_nat i * ucast (e_phentsize h))"

definition phdr_at :: "string \<Rightarrow> nat \<Rightarrow> elf64_phdr" where
  "phdr_at img i = decode_phdr (take sizeof_phdr (drop (phdr_offset (image_ehdr img) i) img))"

definition is_load :: "elf64_phdr \<Rightarrow> bool" where "is_load ph \<longleftrightarrow> p_type ph = 1"

definition segment_end :: "elf64_phdr \<Rightarrow> nat" where
  "segment_end ph = unat (p_vaddr ph) + unat (p_memsz ph)"

definition phdr_fits :: "string \<Rightarrow> elf64_phdr \<Rightarrow> bool" where
  "phdr_fits img ph \<longleftrightarrow>
     (p_type ph = 1 \<longrightarrow> segment_end ph < 2 ^ 64) \<and>
     (p_type ph = 3 \<longrightarrow> 0 < unat (p_filesz ph) \<and> unat (p_filesz ph) \<le> 4096 \<and>
        unat (p_offset ph) + unat (p_filesz ph) \<le> length img)"

definition phdr_in_file :: "string \<Rightarrow> nat \<Rightarrow> bool" where
  "phdr_in_file img i \<longleftrightarrow>
     phdr_offset (image_ehdr img) i + sizeof_phdr \<le> length img \<and> phdr_fits img (phdr_at img i)"

text \<open>A well-formed AArch64 executable or shared object, over the bytes of the file.\<close>

definition elf_image_ok :: "string \<Rightarrow> bool" where
  "elf_image_ok img \<longleftrightarrow>
     (let h = image_ehdr img; n = unat (e_phnum h) in
      sizeof_ehdr \<le> length img \<and> take 4 img = CHR 0x7F # ''ELF'' \<and> header_supported h \<and>
      (e_type h = 2 \<or> e_type h = 3) \<and>
      list_all (phdr_in_file img) [0..<n] \<and>
      list_ex (\<lambda>i. is_load (phdr_at img i)) [0..<n])"

lemma file_read_Inr:
  assumes "length img < 2 ^ 63" "0 < n"
  shows "file_read px img off n = Inr b \<longleftrightarrow> unat off + n \<le> length img \<and> b = take n (drop (unat off) img)"
  using assms by (auto simp: file_read_def)

lemma word_add_overflow: "(a + b < a) \<longleftrightarrow> 2 ^ 64 \<le> unat a + unat (b :: 64 word)"
proof -
  have a: "unat a < 2 ^ 64" "unat b < 2 ^ 64"
    using unsigned_less [of a, where ?'a = nat] unsigned_less [of b, where ?'a = nat] by simp_all
  have "unat (a + b) = (unat a + unat b) mod 2 ^ 64" by (simp add: unat_word_ariths)
  also have "\<dots> = (if 2 ^ 64 \<le> unat a + unat b then unat a + unat b - 2 ^ 64 else unat a + unat b)"
    using a by (auto simp: le_mod_geq)
  finally show ?thesis using a by (auto simp: word_less_nat_alt)
qed

lemma unat_segment_end: "segment_end ph < 2 ^ 64 \<Longrightarrow> unat (p_vaddr ph + p_memsz ph) = segment_end ph"
  by (simp add: segment_end_def unat_word_ariths)

lemma phdr_fits_code [code]:
  "phdr_fits img ph \<longleftrightarrow>
     (p_type ph = 1 \<longrightarrow> \<not> p_vaddr ph + p_memsz ph < p_vaddr ph) \<and>
     (p_type ph = 3 \<longrightarrow> p_filesz ph \<noteq> 0 \<and> p_filesz ph \<le> 4096 \<and>
        unat (p_offset ph) + unat (p_filesz ph) \<le> length img)"
  by (auto simp: phdr_fits_def word_add_overflow segment_end_def word_le_nat_alt unat_gt_0)

lemma image_visit_None:
  assumes "length img < 2 ^ 63"
  shows "snd (image_visit px img ph s) = None \<longleftrightarrow> phdr_fits img ph"
proof -
  have n: "p_filesz ph = 0 \<or> 4096 < p_filesz ph \<longleftrightarrow> \<not> (0 < unat (p_filesz ph) \<and> unat (p_filesz ph) \<le> 4096)"
    by (auto simp: word_less_nat_alt unat_eq_0 simp flip: unat_gt_0)
  have r: "(\<exists>b. image_string px img (p_offset ph) (p_filesz ph) = Inr b) \<longleftrightarrow>
      0 < unat (p_filesz ph) \<and> unat (p_filesz ph) \<le> 4096 \<and> unat (p_offset ph) + unat (p_filesz ph) \<le> length img"
    using file_read_Inr [OF assms] unfolding image_string_def n by auto
  show ?thesis
  proof (cases "p_type ph = 3")
    case True
    then show ?thesis
      using r by (auto simp: image_visit_def phdr_fits_def split: sum.splits)
  next
    case False
    then show ?thesis
      by (auto simp: image_visit_def phdr_fits_def Let_def word_add_overflow segment_end_def)
  qed
qed

lemma image_phdr_Inr:
  assumes "length img < 2 ^ 63"
  shows "image_phdr px img (image_ehdr img) i = Inr ph \<longleftrightarrow>
    phdr_offset (image_ehdr img) i + sizeof_phdr \<le> length img \<and> ph = phdr_at img i"
  using file_read_Inr [OF assms, of sizeof_phdr]
  by (auto simp: image_phdr_def phdr_offset_def phdr_at_def sizeof_phdr_def)

definition visit_all :: "posix \<Rightarrow> string \<Rightarrow> nat list \<Rightarrow> elf_scan \<Rightarrow> elf_scan" where
  "visit_all px img is s = foldl (\<lambda>s i. fst (image_visit px img (phdr_at img i) s)) s is"

lemma image_scan_ok:
  assumes "length img < 2 ^ 63"
  shows "snd (image_scan px img (image_ehdr img) is s) = None \<longleftrightarrow> list_all (phdr_in_file img) is"
    and "list_all (phdr_in_file img) is \<Longrightarrow>
      image_scan px img (image_ehdr img) is s = (visit_all px img is s, None)"
proof -
  have "(snd (image_scan px img (image_ehdr img) is s) = None \<longleftrightarrow> list_all (phdr_in_file img) is) \<and>
      (list_all (phdr_in_file img) is \<longrightarrow>
        image_scan px img (image_ehdr img) is s = (visit_all px img is s, None))"
  proof (induction "is" arbitrary: s)
    case (Cons i "is")
    show ?case
    proof (cases "phdr_offset (image_ehdr img) i + sizeof_phdr \<le> length img")
      case False
      then have "\<exists>e. image_phdr px img (image_ehdr img) i = Inl e"
        using image_phdr_Inr [OF assms, of px i] by (metis old.sum.exhaust)
      with False show ?thesis by (auto simp: phdr_in_file_def)
    next
      case True
      then have ph: "image_phdr px img (image_ehdr img) i = Inr (phdr_at img i)"
        using image_phdr_Inr [OF assms] by blast
      obtain s' e where v: "image_visit px img (phdr_at img i) s = (s', e)" by fastforce
      then have "e = None \<longleftrightarrow> phdr_fits img (phdr_at img i)"
        using image_visit_None [OF assms, of px "phdr_at img i" s] by simp
      then show ?thesis
        using True ph v Cons.IH [of s'] by (cases e) (auto simp: phdr_in_file_def visit_all_def)
    qed
  qed (simp add: visit_all_def)
  then show "snd (image_scan px img (image_ehdr img) is s) = None \<longleftrightarrow> list_all (phdr_in_file img) is"
    and "list_all (phdr_in_file img) is \<Longrightarrow>
      image_scan px img (image_ehdr img) is s = (visit_all px img is s, None)" by blast+
qed

lemma visit_all_simps [simp]:
  "visit_all px img [] s = s"
  "visit_all px img (i # is) s = visit_all px img is (fst (image_visit px img (phdr_at img i) s))"
  by (simp_all add: visit_all_def)

lemma image_visit_frame:
  "ep_type (sc_plan (fst (image_visit px img ph s))) = ep_type (sc_plan s)"
  "ep_entry (sc_plan (fst (image_visit px img ph s))) = ep_entry (sc_plan s)"
  "ep_valid (sc_plan (fst (image_visit px img ph s))) = ep_valid (sc_plan s)"
  "sc_has_load (fst (image_visit px img ph s)) \<longleftrightarrow> sc_has_load s \<or> is_load ph"
  by (auto simp: image_visit_def is_load_def Let_def split: sum.splits)

lemma visit_all_frame:
  "ep_type (sc_plan (visit_all px img is s)) = ep_type (sc_plan s)"
  "ep_entry (sc_plan (visit_all px img is s)) = ep_entry (sc_plan s)"
  "ep_valid (sc_plan (visit_all px img is s)) = ep_valid (sc_plan s)"
  "sc_has_load (visit_all px img is s) \<longleftrightarrow> sc_has_load s \<or> list_ex (\<lambda>i. is_load (phdr_at img i)) is"
  by (induction "is" arbitrary: s) (auto simp: image_visit_frame)

lemma image_visit_bounds:
  assumes "phdr_fits img ph"
  shows "sc_min (fst (image_visit px img ph s)) = (if is_load ph then min (sc_min s) (p_vaddr ph) else sc_min s)"
    and "sc_max (fst (image_visit px img ph s)) =
      (if is_load ph then max (sc_max s) (p_vaddr ph + p_memsz ph) else sc_max s)"
  using assms
  by (auto simp: image_visit_def is_load_def Let_def phdr_fits_def word_add_overflow segment_end_def
      split: sum.splits)

lemma visit_all_min:
  assumes "list_all (phdr_in_file img) is"
  shows "sc_min (visit_all px img is s) =
    foldl min (sc_min s) (map p_vaddr (filter is_load (map (phdr_at img) is)))"
  using assms
  by (induction "is" arbitrary: s) (auto simp: image_visit_bounds phdr_in_file_def)

lemma visit_all_max:
  assumes "list_all (phdr_in_file img) is"
  shows "sc_max (visit_all px img is s) =
    foldl max (sc_max s) (map (\<lambda>ph. p_vaddr ph + p_memsz ph) (filter is_load (map (phdr_at img) is)))"
  using assms
  by (induction "is" arbitrary: s) (auto simp: image_visit_bounds phdr_in_file_def)

lemma foldl_min_max:
  "foldl min (a :: 'a :: linorder) xs = Min (set (a # xs))" "foldl max a xs = Max (set (a # xs))"
  by (simp_all only: Min.set_eq_fold Max.set_eq_fold foldl_conv_fold min.commute max.commute)

text \<open>The loaded address range of an image.\<close>

definition load_phdrs :: "string \<Rightarrow> elf64_phdr list" where
  "load_phdrs img = filter is_load (map (phdr_at img) [0..<unat (e_phnum (image_ehdr img))])"

lemma min_top_word: "xs \<noteq> [] \<Longrightarrow> Min (set (- 1 # xs)) = (Min (set xs) :: 64 word)"
  by (simp add: Min_insert min_absorb2 del: Min.insert) (metis List.finite_set Min.insert min.absorb2 set_empty word_order.extremum)

lemma max_bot_word: "xs \<noteq> [] \<Longrightarrow> Max (set (0 # xs)) = (Max (set xs) :: 64 word)"
  by (simp add: max_absorb2)

lemma with_elf_report_simps [simp]:
  "ep_valid (with_elf_report p) = ep_valid p" "ep_status (with_elf_report p) = ep_status p"
  "ep_entry (with_elf_report p) = ep_entry p" "ep_min_vaddr (with_elf_report p) = ep_min_vaddr p"
  "ep_max_vaddr (with_elf_report p) = ep_max_vaddr p" "ep_interpreter (with_elf_report p) = ep_interpreter p"
  by (simp_all add: with_elf_report_def)

lemma image_scan_not_valid:
  "ep_valid (sc_plan (fst (image_scan px img h is s))) = ep_valid (sc_plan s)"
proof (induction "is" arbitrary: s)
  case (Cons i "is")
  show ?case
  proof (cases "image_phdr px img h i")
    case (Inr ph)
    obtain s' e where v: "image_visit px img ph s = (s', e)" by fastforce
    then have "ep_valid (sc_plan s') = ep_valid (sc_plan s)"
      using image_visit_frame(3) [of px img ph s] by simp
    with Inr v Cons.IH [of s'] show ?thesis by (cases e) simp_all
  qed simp
qed simp

definition start_scan :: "elf64_ehdr \<Rightarrow> elf_scan" where
  "start_scan h =
     \<lparr>sc_plan = default_elf_load_plan\<lparr>ep_elf_class := (if e_ident h ! 4 = CHR 0x02 then ''elf64'' else ''unsupported''),
        ep_machine := ''aarch64'', ep_type := type_name (e_type h), ep_entry := e_entry h\<rparr>,
      sc_min = - 1, sc_max = 0, sc_has_load = False\<rparr>"

lemma image_plan_header:
  assumes "length img < 2 ^ 63" "sizeof_ehdr \<le> length img" "take 4 img = CHR 0x7F # ''ELF''"
    "header_supported (image_ehdr img)"
  shows "image_plan px img = with_elf_report
    (case image_scan px img (image_ehdr img) [0..<unat (e_phnum (image_ehdr img))] (start_scan (image_ehdr img)) of
       (s, exc) \<Rightarrow> (case exc of None \<Rightarrow> finish_plan s | Some e \<Rightarrow> (sc_plan s)\<lparr>ep_error := what e\<rparr>))"
proof -
  have "file_read px img 0 sizeof_ehdr = Inr (take sizeof_ehdr img)"
    using file_read_Inr [OF assms(1), of sizeof_ehdr px 0] assms(2) by (simp add: sizeof_ehdr_def)
  moreover have "take 4 (e_ident (image_ehdr img)) = take 4 img"
    by (simp add: image_ehdr_def decode_ehdr_def sizeof_ehdr_def)
  ultimately show ?thesis
    using assms(3,4)
    by (simp add: image_plan_def image_from_header_def image_ehdr_def [symmetric] start_scan_def Let_def)
qed

lemma image_plan_bad_header:
  assumes "length img < 2 ^ 63"
    "\<not> (sizeof_ehdr \<le> length img \<and> take 4 img = CHR 0x7F # ''ELF'' \<and> header_supported (image_ehdr img))"
  shows "\<not> ep_valid (image_plan px img)"
proof (cases "sizeof_ehdr \<le> length img")
  case True
  have "file_read px img 0 sizeof_ehdr = Inr (take sizeof_ehdr img)"
    using file_read_Inr [OF assms(1), of sizeof_ehdr px 0] True by (simp add: sizeof_ehdr_def)
  moreover have "take 4 (e_ident (image_ehdr img)) = take 4 img"
    by (simp add: image_ehdr_def decode_ehdr_def sizeof_ehdr_def)
  ultimately show ?thesis
    using assms(2) True
    by (auto simp: image_plan_def image_from_header_def image_ehdr_def [symmetric] Let_def
        default_elf_load_plan_def)
next
  case False
  then have "file_read px img 0 sizeof_ehdr = Inl eof_error"
    by (simp add: file_read_def sizeof_ehdr_def)
  then show ?thesis by (simp add: image_plan_def default_elf_load_plan_def)
qed

lemma elf_image_ok_iff:
  "elf_image_ok img \<longleftrightarrow>
     sizeof_ehdr \<le> length img \<and> take 4 img = CHR 0x7F # ''ELF'' \<and> header_supported (image_ehdr img) \<and>
     (e_type (image_ehdr img) = 2 \<or> e_type (image_ehdr img) = 3) \<and>
     list_all (phdr_in_file img) [0..<unat (e_phnum (image_ehdr img))] \<and> load_phdrs img \<noteq> []"
  by (auto simp: elf_image_ok_def Let_def load_phdrs_def filter_empty_conv list_ex_iff)

lemma type_name_loadable: "type_name ty = ''exec'' \<or> type_name ty = ''dyn'' \<longleftrightarrow> ty = 2 \<or> ty = 3"
  by (auto simp: type_name_def)

lemma image_plan_valid_iff:
  assumes "length img < 2 ^ 63"
  shows "ep_valid (image_plan px img) \<longleftrightarrow> elf_image_ok img"
proof (cases "sizeof_ehdr \<le> length img \<and> take 4 img = CHR 0x7F # ''ELF'' \<and> header_supported (image_ehdr img)")
  case False
  then show ?thesis using image_plan_bad_header [OF assms False] by (simp only: elf_image_ok_iff) blast
next
  case True
  let ?is = "[0..<unat (e_phnum (image_ehdr img))]" and ?s = "start_scan (image_ehdr img)"
  note plan = image_plan_header [OF assms] True
  show ?thesis
  proof (cases "list_all (phdr_in_file img) ?is")
    case False
    obtain s e where sc: "image_scan px img (image_ehdr img) ?is ?s = (s, Some e)"
      using image_scan_ok(1) [OF assms, of px ?is ?s] False
      by (metis not_None_eq prod.collapse)
    moreover have "\<not> ep_valid (sc_plan s)"
      using image_scan_not_valid [of px img "image_ehdr img" ?is ?s] sc
      by (simp add: start_scan_def default_elf_load_plan_def)
    ultimately show ?thesis using False plan by (simp add: elf_image_ok_iff)
  next
    case ok: True
    let ?s' = "visit_all px img ?is ?s"
    have "ep_valid (finish_plan ?s') \<longleftrightarrow>
        sc_has_load ?s' \<and> (type_name (e_type (image_ehdr img)) = ''exec'' \<or> type_name (e_type (image_ehdr img)) = ''dyn'')"
      using visit_all_frame(1,3) [of px img ?is ?s]
      by (auto simp: finish_plan_def Let_def start_scan_def default_elf_load_plan_def)
    also have "\<dots> \<longleftrightarrow> elf_image_ok img"
      unfolding type_name_loadable elf_image_ok_iff visit_all_frame(4)
      using True ok by (auto simp: start_scan_def load_phdrs_def filter_empty_conv list_ex_iff)
    finally show ?thesis using plan image_scan_ok(2) [OF assms ok] by simp
  qed
qed

lemma image_plan_range:
  assumes "length img < 2 ^ 63" "elf_image_ok img"
  shows "ep_entry (image_plan px img) = e_entry (image_ehdr img)"
    and "ep_min_vaddr (image_plan px img) = Min (p_vaddr ` set (load_phdrs img))"
    and "ep_max_vaddr (image_plan px img) = Max ((\<lambda>ph. p_vaddr ph + p_memsz ph) ` set (load_phdrs img))"
    and "ep_status (image_plan px img) = (if ep_interpreter (image_plan px img) = [] then StaticExecutable else InterpreterNeeded)"
proof -
  let ?is = "[0..<unat (e_phnum (image_ehdr img))]" and ?s = "start_scan (image_ehdr img)"
  let ?s' = "visit_all px img ?is ?s"
  have ok: "list_all (phdr_in_file img) ?is" and ld: "load_phdrs img \<noteq> []"
    using assms(2) by (simp_all add: elf_image_ok_iff)
  have "image_plan px img = with_elf_report (finish_plan ?s')"
    using image_plan_header [OF assms(1)] assms(2) image_scan_ok(2) [OF assms(1) ok] by (simp add: elf_image_ok_iff)
  moreover have "ep_valid (finish_plan ?s')"
    using calculation image_plan_valid_iff [OF assms(1), of px] assms(2) by simp
  then have "finish_plan ?s' = (sc_plan ?s')\<lparr>ep_valid := True, ep_min_vaddr := sc_min ?s', ep_max_vaddr := sc_max ?s',
      ep_status := (if ep_interpreter (sc_plan ?s') = [] then StaticExecutable else InterpreterNeeded)\<rparr>"
    using visit_all_frame(3) [of px img ?is ?s]
    by (auto simp: finish_plan_def Let_def start_scan_def default_elf_load_plan_def split: if_splits)
  ultimately have p: "ep_entry (image_plan px img) = ep_entry (sc_plan ?s')" "ep_min_vaddr (image_plan px img) = sc_min ?s'"
    "ep_max_vaddr (image_plan px img) = sc_max ?s'"
    "ep_status (image_plan px img) = (if ep_interpreter (image_plan px img) = [] then StaticExecutable else InterpreterNeeded)"
    by simp_all
  show "ep_entry (image_plan px img) = e_entry (image_ehdr img)"
    unfolding p(1) visit_all_frame(2) by (simp add: start_scan_def)
  show "ep_min_vaddr (image_plan px img) = Min (p_vaddr ` set (load_phdrs img))"
    unfolding p(2) visit_all_min [OF ok] foldl_min_max load_phdrs_def [symmetric]
    using min_top_word [of "map p_vaddr (load_phdrs img)"] ld by (simp add: start_scan_def)
  show "ep_max_vaddr (image_plan px img) = Max ((\<lambda>ph. p_vaddr ph + p_memsz ph) ` set (load_phdrs img))"
    unfolding p(3) visit_all_max [OF ok] foldl_min_max load_phdrs_def [symmetric]
    using max_bot_word [of "map (\<lambda>ph. p_vaddr ph + p_memsz ph) (load_phdrs img)"] ld by (simp add: start_scan_def)
  show "ep_status (image_plan px img) = (if ep_interpreter (image_plan px img) = [] then StaticExecutable else InterpreterNeeded)"
    by (rule p(4))
qed

section \<open>Properties of the ELF planner\<close>

text \<open>A host that interrupts every other read and otherwise returns at most three bytes, for the witnesses.\<close>

definition choppy_host :: "string \<Rightarrow> posix" where
  "choppy_host img = (plain_host [(''/f'', img)])
     \<lparr>px_pread := \<lambda>t fd n off.
        if 2 ^ 63 \<le> unat off then Inl 22
        else if even t then Inl EINTR
        else Inr (take (min n 3) (drop (unat off) img))\<rparr>"

lemma choppy_host_serves: "length img < 2 ^ 63 \<Longrightarrow> serves (choppy_host img) fd img"
proof -
  have odd: "\<exists>k. odd (t + k)" for t :: nat by (rule exI [of _ "Suc t"]) simp
  assume "length img < 2 ^ 63"
  with odd show ?thesis by (auto simp: serves_def choppy_host_def min_def)
qed

definition sample_image :: string where
  "sample_image =
     [CHR 0x7F, CHR 0x45, CHR 0x4C, CHR 0x46, CHR 0x02, CHR 0x01, CHR 0x01] @ replicate 9 nul @
     [CHR 0x02, CHR 0x00, CHR 0xB7, CHR 0x00, CHR 0x01, CHR 0x00, CHR 0x00, CHR 0x00, CHR 0x10, CHR 0x00, CHR 0x40] @
     replicate 5 nul @ [CHR 0x40] @ replicate 19 nul @
     [CHR 0x40, CHR 0x00, CHR 0x38, CHR 0x00, CHR 0x01] @ replicate 7 nul @
     [CHR 0x01, CHR 0x00, CHR 0x00, CHR 0x00, CHR 0x05] @ replicate 13 nul @ [CHR 0x40] @
     replicate 7 nul @ [CHR 0x40] @ replicate 5 nul @ [CHR 0x78] @ replicate 8 nul @ [CHR 0x01] @
     replicate 7 nul @ [CHR 0x10] @ replicate 6 nul"

lemma sample_image_served:
  "px_open (choppy_host sample_image) ''/f'' = Inr 3" "serves (choppy_host sample_image) 3 sample_image"
proof -
  show "px_open (choppy_host sample_image) ''/f'' = Inr 3" by (simp add: choppy_host_def plain_host_def)
  have "length sample_image = 120" by (simp add: sample_image_def)
  then show "serves (choppy_host sample_image) 3 sample_image" by (intro choppy_host_serves) simp
qed

lemma sample_image_header:
  "image_ehdr sample_image =
     \<lparr>e_ident = take 16 sample_image, e_type = 2, e_machine = 183, e_entry = 0x400010, e_phoff = 64,
      e_phentsize = 56, e_phnum = 1\<rparr>"
  by code_simp

lemma sample_image_phdr:
  "decode_phdr (take 56 (drop 64 sample_image)) =
     \<lparr>p_type = 1, p_flags = 5, p_offset = 0, p_vaddr = 0x400000, p_filesz = 120, p_memsz = 256\<rparr>"
  by code_simp

lemma sample_image_loads:
  "load_phdrs sample_image =
     [\<lparr>p_type = 1, p_flags = 5, p_offset = 0, p_vaddr = 0x400000, p_filesz = 120, p_memsz = 256\<rparr>]"
  by (simp add: load_phdrs_def phdr_at_def phdr_offset_def sizeof_phdr_def sample_image_header
      sample_image_phdr is_load_def)

lemma sample_image_ok: "elf_image_ok sample_image"
proof -
  have "phdr_at sample_image 0 =
     \<lparr>p_type = 1, p_flags = 5, p_offset = 0, p_vaddr = 0x400000, p_filesz = 120, p_memsz = 256\<rparr>"
    by (simp add: phdr_at_def phdr_offset_def sizeof_phdr_def sample_image_header sample_image_phdr)
  moreover have "length sample_image = 120" "take 4 sample_image = CHR 0x7F # ''ELF''"
    "take 16 sample_image ! 4 = CHR 0x02" "take 16 sample_image ! 5 = CHR 0x01" "take 16 sample_image ! 6 = CHR 0x01"
    by (simp_all add: sample_image_def)
  ultimately show ?thesis
    unfolding elf_image_ok_iff sample_image_loads
    by (simp add: sample_image_header header_supported_def sizeof_phdr_def sizeof_ehdr_def phdr_in_file_def
        phdr_offset_def phdr_fits_code)
qed

text \<open>C15. The ELF planner always returns, and its plan depends on the file only.  However the kernel splits
  or interrupts the reads of an opened regular file, the planner terminates and returns the plan that the
  specification computes from the bytes of the file.\<close>

theorem elf_plan_refines_image:
  assumes "px_open px host = Inr fd" "serves px fd img"
  shows "build_elf_load_plan px host = Some (image_plan px img)"
  using assms by (rule build_elf_load_plan_image)

theorem elf_plan_refines_image_witness:
  "build_elf_load_plan (choppy_host sample_image) ''/f'' = Some (image_plan (choppy_host sample_image) sample_image)"
  using elf_plan_refines_image [OF sample_image_served] .

text \<open>C14. A plan is valid exactly for well-formed AArch64 executables and shared objects: complete header
  with the right identification, every program header inside the file, every load segment inside the
  64-bit address space, every interpreter name of one to 4096 bytes inside the file, and at least one load
  segment.  A valid plan has the entry point of the header, and its address range is the least start and
  the greatest end of the load segments, so that every load segment lies in it.\<close>

theorem elf_plan_valid_exactly:
  assumes "px_open px host = Inr fd" "serves px fd img"
  shows "\<exists>plan. build_elf_load_plan px host = Some plan \<and> (ep_valid plan \<longleftrightarrow> elf_image_ok img) \<and>
     (ep_valid plan \<longrightarrow>
        ep_entry plan = e_entry (image_ehdr img) \<and>
        ep_min_vaddr plan = Min (p_vaddr ` set (load_phdrs img)) \<and>
        ep_max_vaddr plan = Max ((\<lambda>ph. p_vaddr ph + p_memsz ph) ` set (load_phdrs img)) \<and>
        (\<forall>ph \<in> set (load_phdrs img).
           unat (ep_min_vaddr plan) \<le> unat (p_vaddr ph) \<and> segment_end ph \<le> unat (ep_max_vaddr plan)) \<and>
        ep_status plan = (if ep_interpreter plan = [] then StaticExecutable else InterpreterNeeded))"
proof -
  let ?plan = "image_plan px img"
  have len: "length img < 2 ^ 63" using assms(2) by (simp add: serves_def)
  have "unat (ep_min_vaddr ?plan) \<le> unat (p_vaddr ph) \<and> segment_end ph \<le> unat (ep_max_vaddr ?plan)"
    if "ph \<in> set (load_phdrs img)" "elf_image_ok img" for ph
  proof -
    have "p_type ph = 1" "phdr_fits img ph"
      using that by (auto simp: elf_image_ok_iff load_phdrs_def is_load_def list_all_iff phdr_in_file_def)
    then have "segment_end ph = unat (p_vaddr ph + p_memsz ph)"
      using unat_segment_end by (simp add: phdr_fits_def)
    moreover have "ep_min_vaddr ?plan \<le> p_vaddr ph" "p_vaddr ph + p_memsz ph \<le> ep_max_vaddr ?plan"
      using that(1) by (auto simp: image_plan_range [OF len that(2)] intro!: Min_le Max_ge)
    ultimately show ?thesis by (simp add: word_le_nat_alt)
  qed
  then show ?thesis
    using build_elf_load_plan_image [OF assms] image_plan_valid_iff [OF len, of px] image_plan_range [OF len]
    by blast
qed

theorem elf_plan_valid_exactly_witness:
  "\<exists>plan. build_elf_load_plan (choppy_host sample_image) ''/f'' = Some plan \<and> ep_valid plan \<and>
     ep_entry plan = 0x400010 \<and> ep_min_vaddr plan = 0x400000 \<and> ep_max_vaddr plan = 0x400100"
  using elf_plan_valid_exactly [OF sample_image_served] sample_image_ok
  by (auto simp: sample_image_loads sample_image_header)

end
