(* ===== verification/Alr_Launch.thy ===== *)
theory Alr_Launch
  imports Alr_Runtime_Trampoline Alr_Elf
begin

text \<open>
  Launch attempts, from \<^verbatim>\<open>alr_runtime/alr_trampoline.cpp\<close> and \<^verbatim>\<open>alr_runtime/alr_launch.cpp\<close>: the policy
  decisions, and the child process that either attempt starts and whose output it captures.  What the
  kernel answers to \<^verbatim>\<open>pipe\<close>, \<^verbatim>\<open>fork\<close>, \<^verbatim>\<open>read\<close> and \<^verbatim>\<open>waitpid\<close> is a parameter; the open descriptors
  and the programs started are the state.  Reads and waits may be interrupted for ever, so these loops
  are partial functions.
\<close>

unbundle bit_operations_syntax

section \<open>Child processes\<close>

text \<open>The answers of the kernel: the \<open>n\<close>-th \<^verbatim>\<open>pipe\<close>, the \<^verbatim>\<open>fork\<close>, the \<open>n\<close>-th \<^verbatim>\<open>read\<close> on a
  descriptor, the \<open>n\<close>-th \<^verbatim>\<open>waitpid\<close>; an error is an \<^verbatim>\<open>errno\<close> on the left.\<close>

record child_io =
  ci_pipe :: "nat \<Rightarrow> int + int \<times> int"
  ci_fork :: "int + int"
  ci_read :: "nat \<Rightarrow> int \<Rightarrow> int + string"
  ci_waitpid :: "nat \<Rightarrow> int + int"

record os_state =
  os_fds :: "int set"
  os_execs :: "(string \<times> string list \<times> string list) list"

definition sys_close :: "int \<Rightarrow> os_state \<Rightarrow> os_state" where
  "sys_close fd st = st\<lparr>os_fds := os_fds st - {fd}\<rparr>"

definition sys_pipe :: "child_io \<Rightarrow> nat \<Rightarrow> os_state \<Rightarrow> (int + int \<times> int) \<times> os_state" where
  "sys_pipe io i st =
     (case ci_pipe io i of
        Inl e \<Rightarrow> (Inl e, st)
      | Inr (r, w) \<Rightarrow> (Inr (r, w), st\<lparr>os_fds := os_fds st \<union> {r, w}\<rparr>))"

definition trim_newlines :: "string \<Rightarrow> string" where
  "trim_newlines out = rev (dropWhile (\<lambda>c. c = CHR 0x0A \<or> c = CHR 0x0D) (rev out))"

text \<open>The action names that the two copies of the code put into their error messages.\<close>

record capture_labels =
  lb_pipe_out :: string
  lb_pipe_err :: string
  lb_fork :: string
  lb_read :: string
  lb_wait :: string

partial_function (option) read_all_from_fd ::
  "posix \<Rightarrow> child_io \<Rightarrow> string \<Rightarrow> int \<Rightarrow> nat \<Rightarrow> string \<Rightarrow> (nat \<times> string res) option"
where
  "read_all_from_fd px io action fd t out =
     (case ci_read io t fd of
        Inr bytes \<Rightarrow>
          if bytes \<noteq> [] then read_all_from_fd px io action fd (t + 1) (out @ bytes)
          else Some (t + 1, Inr (trim_newlines out))
      | Inl e \<Rightarrow>
          if e = EINTR then read_all_from_fd px io action fd (t + 1) out
          else Some (t + 1, Inl (RuntimeError (errno_message px action e))))"

partial_function (option) wait_child :: "posix \<Rightarrow> child_io \<Rightarrow> string \<Rightarrow> nat \<Rightarrow> (string + int) option" where
  "wait_child px io action t =
     (case ci_waitpid io t of
        Inr status \<Rightarrow> Some (Inr status)
      | Inl e \<Rightarrow>
          if e \<noteq> EINTR then Some (Inl (errno_message px action e))
          else wait_child px io action (t + 1))"

text \<open>\<^verbatim>\<open>WIFEXITED\<close>, \<^verbatim>\<open>WEXITSTATUS\<close>, \<^verbatim>\<open>WIFSIGNALED\<close> and \<^verbatim>\<open>WTERMSIG\<close>.\<close>

definition exit_code_of :: "int \<Rightarrow> int" where
  "exit_code_of status =
     (let termsig = status AND 0x7F
      in if termsig = 0 then drop_bit 8 status AND 0xFF
         else if 1 \<le> termsig \<and> termsig \<le> 126 then 128 + termsig
         else -1)"

record captured =
  cap_attempted :: bool
  cap_stdout :: string
  cap_stderr :: string
  cap_error :: string
  cap_exit :: int

definition no_capture :: captured where
  "no_capture = \<lparr>cap_attempted = False, cap_stdout = [], cap_stderr = [], cap_error = [], cap_exit = -1\<rparr>"

text \<open>The parent after the fork: both outputs are read to their ends, the read ends are closed, the child is
  awaited.  A failing read is kept as the error and does not stop the wait.\<close>

definition read_outputs ::
  "posix \<Rightarrow> child_io \<Rightarrow> capture_labels \<Rightarrow> int \<Rightarrow> int \<Rightarrow> captured \<Rightarrow> captured option" where
  "read_outputs px io lb out_r err_r c =
     Option.bind (read_all_from_fd px io (lb_read lb) out_r 0 []) (\<lambda>(t, r).
       case r of
         Inl exc \<Rightarrow> Some (c\<lparr>cap_error := what exc\<rparr>)
       | Inr out \<Rightarrow>
           map_option (\<lambda>(t, r). case r of
               Inl exc \<Rightarrow> c\<lparr>cap_stdout := out, cap_error := what exc\<rparr>
             | Inr err \<Rightarrow> c\<lparr>cap_stdout := out, cap_stderr := err\<rparr>)
             (read_all_from_fd px io (lb_read lb) err_r t []))"

definition await_child :: "posix \<Rightarrow> child_io \<Rightarrow> capture_labels \<Rightarrow> captured \<Rightarrow> captured option" where
  "await_child px io lb c =
     map_option (\<lambda>r. case r of
         Inl msg \<Rightarrow> c\<lparr>cap_error := msg\<rparr>
       | Inr status \<Rightarrow> c\<lparr>cap_exit := exit_code_of status\<rparr>)
       (wait_child px io (lb_wait lb) 0)"

definition run_captured ::
  "posix \<Rightarrow> child_io \<Rightarrow> capture_labels \<Rightarrow> string \<Rightarrow> string list \<Rightarrow> string list \<Rightarrow> os_state \<Rightarrow>
     (captured \<times> os_state) option" where
  "run_captured px io lb path argv envp st =
     (case sys_pipe io 0 st of
        (Inl e, st) \<Rightarrow> Some (no_capture\<lparr>cap_error := errno_message px (lb_pipe_out lb) e\<rparr>, st)
      | (Inr (out_r, out_w), st) \<Rightarrow>
          (case sys_pipe io 1 st of
             (Inl e, st) \<Rightarrow>
               Some (no_capture\<lparr>cap_error := errno_message px (lb_pipe_err lb) e\<rparr>,
                     sys_close out_w (sys_close out_r st))
           | (Inr (err_r, err_w), st) \<Rightarrow>
               (case ci_fork io of
                  Inl e \<Rightarrow>
                    Some (no_capture\<lparr>cap_error := errno_message px (lb_fork lb) e\<rparr>,
                          sys_close err_w (sys_close err_r (sys_close out_w (sys_close out_r st))))
                | Inr pid \<Rightarrow>
                    let st = st\<lparr>os_execs := os_execs st @ [(path, argv, envp)]\<rparr>;
                        st = sys_close err_w (sys_close out_w st)
                    in Option.bind (read_outputs px io lb out_r err_r (no_capture\<lparr>cap_attempted := True\<rparr>)) (\<lambda>c.
                         map_option (\<lambda>c. (c, sys_close err_r (sys_close out_r st))) (await_child px io lb c)))))"

section \<open>The packaged trampoline\<close>

record trampoline_attempt_policy =
  tp_packaged_trampoline_path :: string
  tp_allow_trampoline_exec :: bool

record trampoline_attempt_result =
  tr_available :: bool
  tr_config_handoff :: bool
  tr_policy_preflight :: bool
  tr_attempted :: bool
  tr_static_hello_executed :: bool
  tr_exit_code :: int
  tr_path :: string
  tr_stdout_text :: string
  tr_stderr_text :: string
  tr_error :: string
  tr_report :: string

definition default_trampoline_attempt :: trampoline_attempt_result where
  "default_trampoline_attempt =
     \<lparr>tr_available = False, tr_config_handoff = False, tr_policy_preflight = False, tr_attempted = False,
      tr_static_hello_executed = False, tr_exit_code = -1, tr_path = [], tr_stdout_text = [],
      tr_stderr_text = [], tr_error = [], tr_report = []\<rparr>"

definition attempt_trampoline_path :: "runtime_config \<Rightarrow> trampoline_attempt_policy \<Rightarrow> string" where
  "attempt_trampoline_path config policy =
     (if tp_packaged_trampoline_path policy \<noteq> [] then tp_packaged_trampoline_path policy
      else case smap_find (rc_env config) ''ALR_TRAMPOLINE_PATH'' of None \<Rightarrow> [] | Some v \<Rightarrow> v)"

definition is_hello :: "string \<Rightarrow> bool" where
  "is_hello requested \<longleftrightarrow> requested = ''/bin/hello'' \<or> requested = ''hello''"

definition is_static_hello_candidate :: "string \<Rightarrow> executable_resolution \<Rightarrow> elf_load_plan \<Rightarrow> bool" where
  "is_static_hello_candidate requested resolution elf_plan \<longleftrightarrow>
     is_hello requested \<and> er_resolved resolution \<and> er_kind resolution = Elf \<and> ep_valid elf_plan \<and>
     ep_status elf_plan = StaticExecutable"

definition env_strings :: "runtime_config \<Rightarrow> string list" where
  "env_strings config = map (\<lambda>(key, value). key @ ''='' @ value) (rc_env config)"

definition build_trampoline_env ::
  "runtime_config \<Rightarrow> serialized_runtime_config \<Rightarrow> executable_resolution \<Rightarrow> elf_load_plan \<Rightarrow> string list" where
  "build_trampoline_env config serialized resolution elf_plan =
     env_strings config @
     [''ALR_CONFIG_TEXT='' @ sc_text serialized,
      ''ALR_CONFIG_CHECKSUM='' @ sc_checksum_hex serialized,
      ''ALR_TRAMPOLINE_TARGET_GUEST_PATH='' @ guest_path (er_translation resolution),
      ''ALR_TRAMPOLINE_TARGET_HOST_PATH='' @ host_path (er_translation resolution),
      ''ALR_TRAMPOLINE_ELF_STATUS='' @ elf_load_plan_status_name (ep_status elf_plan),
      ''ALR_TRAMPOLINE_ELF_ENTRY='' @ dec_nat (unat (ep_entry elf_plan)),
      ''ALR_TRAMPOLINE_MODE=preflight'']"

definition trampoline_labels :: capture_labels where
  "trampoline_labels =
     \<lparr>lb_pipe_out = ''pipe trampoline stdout'', lb_pipe_err = ''pipe trampoline stderr'',
      lb_fork = ''fork trampoline'', lb_read = ''read trampoline pipe'', lb_wait = ''waitpid trampoline''\<rparr>"

definition execute_trampoline ::
  "posix \<Rightarrow> child_io \<Rightarrow> runtime_config \<Rightarrow> serialized_runtime_config \<Rightarrow> executable_resolution \<Rightarrow> elf_load_plan \<Rightarrow>
     trampoline_attempt_result \<Rightarrow> os_state \<Rightarrow> (trampoline_attempt_result \<times> os_state) option" where
  "execute_trampoline px io config serialized resolution elf_plan r st =
     map_option (\<lambda>(c, st).
         (r\<lparr>tr_attempted := cap_attempted c, tr_stdout_text := cap_stdout c, tr_stderr_text := cap_stderr c,
            tr_error := cap_error c, tr_exit_code := cap_exit c\<rparr>, st))
       (run_captured px io trampoline_labels (tr_path r) [tr_path r, ''--preflight'']
          (build_trampoline_env config serialized resolution elf_plan) st)"

definition pass_skip :: "bool \<Rightarrow> string" where
  "pass_skip b = (if b then ''PASS'' else ''SKIP'')"

definition build_trampoline_report :: "trampoline_attempt_result \<Rightarrow> string" where
  "build_trampoline_report r = report_lines (
     [''ALR TRAMPOLINE AVAILABLE: '' @ pass_skip (tr_available r),
      ''ALR TRAMPOLINE CONFIG HANDOFF: '' @ pass_skip (tr_config_handoff r),
      ''ALR TRAMPOLINE POLICY PREFLIGHT: '' @ pass_skip (tr_policy_preflight r),
      ''ALR STATIC HELLO VIA TRAMPOLINE: '' @ pass_skip (tr_static_hello_executed r),
      ''alr trampoline path='' @ (if tr_path r = [] then ''none'' else tr_path r),
      ''alr trampoline exit='' @ (if tr_attempted r then dec_int (tr_exit_code r) else ''not-run''),
      ''alr trampoline stdout='' @ tr_stdout_text r,
      ''alr trampoline stderr='' @ tr_stderr_text r] @
     line_if (tr_error r \<noteq> []) (''alr trampoline error='' @ tr_error r))"

definition with_trampoline_report :: "trampoline_attempt_result \<Rightarrow> trampoline_attempt_result" where
  "with_trampoline_report r = r\<lparr>tr_report := build_trampoline_report r\<rparr>"

definition static_hello_marker :: string where
  "static_hello_marker = ''ALR TRAMPOLINE STATIC HELLO EXECUTION: PASS''"

definition attempt_packaged_trampoline ::
  "posix \<Rightarrow> child_io \<Rightarrow> runtime_config \<Rightarrow> string \<Rightarrow> executable_resolution \<Rightarrow> elf_load_plan \<Rightarrow>
     trampoline_attempt_policy \<Rightarrow> os_state \<Rightarrow> (trampoline_attempt_result \<times> os_state) option" where
  "attempt_packaged_trampoline px io config requested resolution elf_plan policy st =
     (let r = default_trampoline_attempt\<lparr>tr_path := attempt_trampoline_path config policy\<rparr>;
          r = r\<lparr>tr_available := tr_path r \<noteq> []\<rparr>
      in if \<not> tr_available r then Some (with_trampoline_report r, st)
         else
           case res_bind (serialize_runtime_config config) (\<lambda>serialized.
                res_bind (parse_runtime_config (sc_text serialized)) (\<lambda>parsed. Inr (serialized, parsed)))
           of
             Inl exc \<Rightarrow> Some (with_trampoline_report (r\<lparr>tr_error := what exc\<rparr>), st)
           | Inr (serialized, parsed) \<Rightarrow>
               let handoff = (rc_rootfs_dir parsed = rc_rootfs_dir config \<and> rc_program parsed = rc_program config \<and>
                     runtime_config_checksum_hex (sc_text serialized) = sc_checksum_hex serialized);
                   candidate = is_static_hello_candidate requested resolution elf_plan;
                   r = r\<lparr>tr_config_handoff := handoff, tr_policy_preflight := handoff \<and> candidate\<rparr>
               in if \<not> tp_allow_trampoline_exec policy then Some (with_trampoline_report r, st)
                  else map_option (\<lambda>(r, st).
                      (with_trampoline_report (r\<lparr>tr_static_hello_executed :=
                         (candidate \<and> tr_attempted r \<and> tr_exit_code r = 0 \<and>
                          sv_contains (tr_stdout_text r) static_hello_marker)\<rparr>), st))
                    (execute_trampoline px io config serialized resolution elf_plan r st))"

section \<open>Launch attempts\<close>

record launch_attempt_policy =
  lp_allow_direct_host_exec :: bool
  lp_trampoline :: trampoline_attempt_policy

record launch_attempt_result =
  la_resolution :: executable_resolution
  la_attempted :: bool
  la_policy_blocked :: bool
  la_exit_code :: int
  la_stdout_text :: string
  la_stderr_text :: string
  la_error :: string
  la_trampoline :: trampoline_attempt_result
  la_continuation :: exec_continuation_plan
  la_report :: string

definition status_for_attempt :: "launch_attempt_result \<Rightarrow> string" where
  "status_for_attempt r =
     (if la_policy_blocked r then ''SKIP'' else if \<not> la_attempted r then ''FAIL''
      else pass_fail (la_exit_code r = 0))"

definition hello_status_for_attempt :: "string \<Rightarrow> launch_attempt_result \<Rightarrow> string" where
  "hello_status_for_attempt requested r = (if \<not> is_hello requested then ''SKIP'' else status_for_attempt r)"

definition elf_report_skipped :: string where
  "elf_report_skipped = report_lines
     [''ALR ELF LOAD PLAN: SKIP'', ''ALR ELF STATIC HELLO CANDIDATE: SKIP'', ''alr elf class=none'',
      ''alr elf machine=none'', ''alr elf type=none'', ''alr elf status=unsupported'', ''alr elf entry=0x0'',
      ''alr elf min vaddr=0x0'', ''alr elf max vaddr=0x0'', ''alr elf interp=none'', ''alr elf load segments=0'']"

definition trampoline_report_skipped :: string where
  "trampoline_report_skipped = report_lines
     [''ALR TRAMPOLINE AVAILABLE: SKIP'', ''ALR TRAMPOLINE CONFIG HANDOFF: SKIP'',
      ''ALR TRAMPOLINE POLICY PREFLIGHT: SKIP'', ''ALR STATIC HELLO VIA TRAMPOLINE: SKIP'',
      ''alr trampoline path=none'', ''alr trampoline exit=not-run'', ''alr trampoline stdout='',
      ''alr trampoline stderr='']"

text \<open>The ELF plan of an executable, or the default plan for anything else.\<close>

definition elf_plan_for :: "posix \<Rightarrow> bool \<Rightarrow> executable_resolution \<Rightarrow> elf_load_plan option" where
  "elf_plan_for px plan_it resolution =
     (if plan_it then build_elf_load_plan px (host_path (er_translation resolution))
      else Some default_elf_load_plan)"

definition build_launch_report :: "posix \<Rightarrow> string \<Rightarrow> launch_attempt_result \<Rightarrow> string option" where
  "build_launch_report px requested r =
     map_option (\<lambda>elf_plan. report_lines (
         [''ALR LAUNCH ATTEMPT: '' @ status_for_attempt r,
          ''ALR LAUNCH MODE: '' @ (if la_policy_blocked r then ''policy-preflight'' else ''direct-host-exec''),
          ''ALR LOW-OVERHEAD RUNTIME HELLO EXECUTION: '' @ hello_status_for_attempt requested r,
          (if ep_report elf_plan = [] then elf_report_skipped else ep_report elf_plan),
          (if tr_report (la_trampoline r) = [] then trampoline_report_skipped else tr_report (la_trampoline r))] @
         line_if (cp_report (la_continuation r) \<noteq> []) (cp_report (la_continuation r)) @
         [''alr launch exit='' @ dec_int (la_exit_code r),
          ''alr launch stdout='' @ la_stdout_text r,
          ''alr launch stderr='' @ la_stderr_text r] @
         line_if (la_error r \<noteq> []) (''alr launch error='' @ la_error r)))
       (elf_plan_for px (er_resolved (la_resolution r) \<and> er_kind (la_resolution r) = Elf) (la_resolution r))"

definition with_launch_report ::
  "posix \<Rightarrow> string \<Rightarrow> launch_attempt_result \<Rightarrow> os_state \<Rightarrow> (launch_attempt_result res \<times> os_state) option" where
  "with_launch_report px requested r st =
     map_option (\<lambda>rep. (Inr (r\<lparr>la_report := rep\<rparr>), st)) (build_launch_report px requested r)"

definition launch_labels :: capture_labels where
  "launch_labels =
     \<lparr>lb_pipe_out = ''pipe stdout'', lb_pipe_err = ''pipe stderr'', lb_fork = ''fork'', lb_read = ''read pipe'',
      lb_wait = ''waitpid''\<rparr>"

definition initial_launch_result :: "executable_resolution \<Rightarrow> exec_continuation_plan \<Rightarrow> launch_attempt_result" where
  "initial_launch_result resolution continuation =
     \<lparr>la_resolution = resolution, la_attempted = False, la_policy_blocked = False, la_exit_code = -1,
      la_stdout_text = [], la_stderr_text = [], la_error = [], la_trampoline = default_trampoline_attempt,
      la_continuation = continuation, la_report = []\<rparr>"

definition attempt_guest_launch ::
  "posix \<Rightarrow> child_io \<Rightarrow> runtime_config \<Rightarrow> string \<Rightarrow> string list \<Rightarrow> launch_attempt_policy \<Rightarrow> os_state \<Rightarrow>
     (launch_attempt_result res \<times> os_state) option" where
  "attempt_guest_launch px io config requested arguments policy st =
     (case resolve_guest_executable px config requested of
        Inl exc \<Rightarrow> Some (Inl exc, st)
      | Inr resolution \<Rightarrow>
          let r = initial_launch_result resolution
                (build_exec_continuation_plan px config requested arguments Execve);
              host = host_path (er_translation resolution)
          in if \<not> er_resolved resolution \<or> er_kind resolution = Missing then
               with_launch_report px requested
                 (r\<lparr>la_error := (if er_error resolution = [] then ''executable was not resolved''
                                  else er_error resolution)\<rparr>) st
             else if er_kind resolution = Unsupported then
               with_launch_report px requested (r\<lparr>la_error := ''resolved executable kind is unsupported''\<rparr>) st
             else if \<not> lp_allow_direct_host_exec policy then
               let r = r\<lparr>la_policy_blocked := True, la_error := ''direct rootfs host exec disabled by ALR policy''\<rparr>
               in Option.bind (elf_plan_for px (er_kind resolution = Elf) resolution) (\<lambda>elf_plan.
                  Option.bind (attempt_packaged_trampoline px io config requested resolution elf_plan
                     (lp_trampoline policy) st) (\<lambda>(tr, st).
                  with_launch_report px requested (r\<lparr>la_trampoline := tr\<rparr>) st))
             else
               Option.bind (run_captured px io launch_labels host (host # arguments) (env_strings config) st) (\<lambda>(c, st).
               with_launch_report px requested
                 (r\<lparr>la_attempted := cap_attempted c, la_stdout_text := cap_stdout c, la_stderr_text := cap_stderr c,
                    la_error := cap_error c, la_exit_code := cap_exit c\<rparr>) st))"

section \<open>Descriptors and programs\<close>

text \<open>What the kernel promises: a pipe gives two descriptors that were not open, a pipe's reader sees the end or an
  error eventually, and \<^verbatim>\<open>waitpid\<close> is not interrupted for ever.\<close>

definition fresh_pipe :: "int + int \<times> int \<Rightarrow> int set \<Rightarrow> bool" where
  "fresh_pipe p fds \<longleftrightarrow> (case p of Inl e \<Rightarrow> True | Inr (r, w) \<Rightarrow> r \<noteq> w \<and> r \<notin> fds \<and> w \<notin> fds)"

definition pipe_fds :: "int + int \<times> int \<Rightarrow> int set" where
  "pipe_fds p = (case p of Inl e \<Rightarrow> {} | Inr (r, w) \<Rightarrow> {r, w})"

definition read_ends :: "child_io \<Rightarrow> nat \<Rightarrow> int \<Rightarrow> bool" where
  "read_ends io n fd \<longleftrightarrow> (case ci_read io n fd of Inl e \<Rightarrow> e \<noteq> EINTR | Inr bytes \<Rightarrow> bytes = [])"

definition child_io_ok :: "child_io \<Rightarrow> int set \<Rightarrow> bool" where
  "child_io_ok io fds \<longleftrightarrow>
     fresh_pipe (ci_pipe io 0) fds \<and> fresh_pipe (ci_pipe io 1) (fds \<union> pipe_fds (ci_pipe io 0)) \<and>
     (\<forall>fd t. \<exists>k. read_ends io (t + k) fd) \<and> (\<forall>t. \<exists>k. ci_waitpid io (t + k) \<noteq> Inl EINTR)"

lemma read_all_returns: "read_ends io (t + k) fd \<Longrightarrow> \<exists>r. read_all_from_fd px io a fd t out = Some r"
proof (induction k arbitrary: t out)
  case 0
  then show ?case
    by (subst read_all_from_fd.simps) (auto simp: read_ends_def split: sum.splits)
next
  case (Suc k)
  then have "\<exists>r. read_all_from_fd px io a fd (t + 1) out' = Some r" for out' by simp
  then show ?case by (subst read_all_from_fd.simps) (auto split: sum.split)
qed

lemma wait_child_returns: "ci_waitpid io (t + k) \<noteq> Inl EINTR \<Longrightarrow> \<exists>r. wait_child px io a t = Some r"
proof (induction k arbitrary: t)
  case 0
  then show ?case by (subst wait_child.simps) (auto split: sum.split)
next
  case (Suc k)
  then have "\<exists>r. wait_child px io a (t + 1) = Some r" by simp
  then show ?case by (subst wait_child.simps) (auto split: sum.split)
qed

lemma read_outputs_returns:
  assumes "\<forall>fd t. \<exists>k. read_ends io (t + k) fd"
  shows "\<exists>c'. read_outputs px io lb o_r e_r c = Some c' \<and> cap_attempted c' = cap_attempted c"
proof -
  have "\<exists>r. read_all_from_fd px io a fd t out = Some r" for a fd t out
    using assms read_all_returns by blast
  then obtain f where f: "\<And>a fd t out. read_all_from_fd px io a fd t out = Some (f a fd t out)" by metis
  show ?thesis by (auto simp: read_outputs_def f split: prod.split sum.split)
qed

lemma await_child_returns:
  assumes "\<forall>t. \<exists>k. ci_waitpid io (t + k) \<noteq> Inl EINTR"
  shows "\<exists>c'. await_child px io lb c = Some c' \<and> cap_attempted c' = cap_attempted c"
proof -
  obtain r where "wait_child px io (lb_wait lb) 0 = Some r" using assms wait_child_returns by blast
  then show ?thesis by (auto simp: await_child_def split: sum.split)
qed

lemma sys_close_simps [simp]:
  "os_fds (sys_close fd st) = os_fds st - {fd}" "os_execs (sys_close fd st) = os_execs st"
  by (simp_all add: sys_close_def)

text \<open>Every path of a captured run closes what it opened, and a program is started exactly when the run counts as
  attempted.\<close>

definition starts :: "os_state \<Rightarrow> (string \<times> string list \<times> string list) list \<Rightarrow> os_state \<Rightarrow> bool" where
  "starts st programs st' \<longleftrightarrow> os_fds st' = os_fds st \<and> os_execs st' = os_execs st @ programs"

lemma run_captured_contained:
  assumes "child_io_ok io (os_fds st)"
  shows "\<exists>c st'. run_captured px io lb path argv envp st = Some (c, st') \<and>
    starts st (if cap_attempted c then [(path, argv, envp)] else []) st'"
proof (cases "ci_pipe io 0")
  case (Inl e)
  then show ?thesis by (simp add: run_captured_def sys_pipe_def starts_def no_capture_def)
next
  case (Inr p)
  then obtain a b where p0: "ci_pipe io 0 = Inr (a, b)" by (metis surj_pair)
  then have ab: "a \<noteq> b" "a \<notin> os_fds st" "b \<notin> os_fds st"
    using assms by (auto simp: child_io_ok_def fresh_pipe_def)
  show ?thesis
  proof (cases "ci_pipe io 1")
    case (Inl e)
    then have "run_captured px io lb path argv envp st =
        Some (no_capture\<lparr>cap_error := errno_message px (lb_pipe_err lb) e\<rparr>,
          sys_close b (sys_close a (st\<lparr>os_fds := os_fds st \<union> {a, b}\<rparr>)))"
      using p0 by (simp add: run_captured_def sys_pipe_def)
    then show ?thesis using ab by (simp add: starts_def no_capture_def)
  next
    case (Inr q)
    then obtain c d where p1: "ci_pipe io 1 = Inr (c, d)" by (metis surj_pair)
    then have cd: "c \<noteq> d" "c \<notin> os_fds st" "d \<notin> os_fds st" "c \<notin> {a, b}" "d \<notin> {a, b}"
      using assms p0 by (auto simp: child_io_ok_def fresh_pipe_def pipe_fds_def)
    have fds: "os_fds st \<union> {a, b} \<union> {c, d} - {a, b, c, d} = os_fds st" using ab cd by blast
    have drop4: "A - {x1} - {x2} - {x3} - {x4} = A - {x1, x2, x3, x4}" for A :: "int set" and x1 x2 x3 x4 by blast
    show ?thesis
    proof (cases "ci_fork io")
      case (Inl e)
      then have "run_captured px io lb path argv envp st =
          Some (no_capture\<lparr>cap_error := errno_message px (lb_fork lb) e\<rparr>,
            sys_close d (sys_close c (sys_close b (sys_close a (st\<lparr>os_fds := os_fds st \<union> {a, b} \<union> {c, d}\<rparr>)))))"
        using p0 p1 by (simp add: run_captured_def sys_pipe_def)
      then show ?thesis by (simp add: starts_def no_capture_def drop4 fds del: Un_insert_right)
    next
      case (Inr pid)
      obtain c1 where c1: "read_outputs px io lb a c (no_capture\<lparr>cap_attempted := True\<rparr>) = Some c1" "cap_attempted c1"
        using read_outputs_returns [of io px lb a c "no_capture\<lparr>cap_attempted := True\<rparr>"] assms
        by (auto simp: child_io_ok_def)
      obtain c2 where c2: "await_child px io lb c1 = Some c2" "cap_attempted c2"
        using await_child_returns [of io px lb c1] assms c1(2) by (auto simp: child_io_ok_def)
      have "run_captured px io lb path argv envp st =
          Some (c2, sys_close c (sys_close a (sys_close d (sys_close b
            (st\<lparr>os_fds := os_fds st \<union> {a, b} \<union> {c, d}, os_execs := os_execs st @ [(path, argv, envp)]\<rparr>)))))"
        using p0 p1 Inr c1(1) c2(1) by (simp add: run_captured_def sys_pipe_def)
      moreover have "{b, d, a, c} = {a, b, c, d}" by (simp add: insert_commute)
      ultimately show ?thesis using c2(2) by (simp add: starts_def drop4 fds del: Un_insert_right)
    qed
  qed
qed

lemma attempt_packaged_contained:
  assumes "child_io_ok io (os_fds st)"
  shows "\<exists>tr st'. attempt_packaged_trampoline px io c req res plan pol st = Some (tr, st') \<and>
    (if tr_attempted tr
     then tp_allow_trampoline_exec pol \<and>
       (\<exists>s. serialize_runtime_config c = Inr s \<and>
         starts st [(attempt_trampoline_path c pol, [attempt_trampoline_path c pol, ''--preflight''],
                     build_trampoline_env c s res plan)] st')
     else starts st [] st')"
proof -
  let ?p = "attempt_trampoline_path c pol"
  let ?m = "res_bind (serialize_runtime_config c) (\<lambda>s. res_bind (parse_runtime_config (sc_text s)) (\<lambda>q. Inr (s, q)))"
  consider "?p = []" | e where "?p \<noteq> []" "?m = Inl e" | s q where "?p \<noteq> []" "?m = Inr (s, q)"
    by (cases ?m) auto
  then show ?thesis
  proof cases
    case 1
    then show ?thesis
      by (simp add: attempt_packaged_trampoline_def with_trampoline_report_def default_trampoline_attempt_def starts_def)
  next
    case 2
    then show ?thesis
      by (simp add: attempt_packaged_trampoline_def with_trampoline_report_def default_trampoline_attempt_def starts_def)
  next
    case 3
    let ?env = "build_trampoline_env c s res plan"
    have s: "serialize_runtime_config c = Inr s" using 3(2) by (auto simp: res_bind_def split: sum.splits)
    obtain cap st' where run: "run_captured px io trampoline_labels ?p [?p, ''--preflight''] ?env st = Some (cap, st')"
      "starts st (if cap_attempted cap then [(?p, [?p, ''--preflight''], ?env)] else []) st'"
      using run_captured_contained [OF assms] by blast
    show ?thesis
    proof (cases "tp_allow_trampoline_exec pol")
      case True
      then show ?thesis using run 3 s
        by (cases "cap_attempted cap") (simp_all add: attempt_packaged_trampoline_def execute_trampoline_def
            with_trampoline_report_def default_trampoline_attempt_def Let_def)
    next
      case False
      then show ?thesis using 3
        by (simp add: attempt_packaged_trampoline_def with_trampoline_report_def default_trampoline_attempt_def
            starts_def Let_def)
    qed
  qed
qed

text \<open>The ELF planner answers on every host whose open files are regular files.\<close>

definition serves_files :: "posix \<Rightarrow> bool" where
  "serves_files px \<longleftrightarrow> (\<forall>host fd. px_open px host = Inr fd \<longrightarrow> (\<exists>img. serves px fd img))"

lemma elf_plan_returns:
  assumes "serves_files px"
  shows "\<exists>p. elf_plan_for px b res = Some p"
proof (cases "px_open px (host_path (er_translation res))")
  case (Inl e)
  then show ?thesis by (simp add: elf_plan_for_def build_elf_load_plan_def)
next
  case (Inr fd)
  then obtain img where "serves px fd img" using assms by (auto simp: serves_files_def)
  from build_elf_load_plan_image [OF Inr this] show ?thesis by (simp add: elf_plan_for_def)
qed

lemma launch_report_returns:
  assumes "serves_files px"
  shows "\<exists>rep. with_launch_report px req r st = Some (Inr (r\<lparr>la_report := rep\<rparr>), st)"
proof -
  obtain p where "elf_plan_for px (er_resolved (la_resolution r) \<and> er_kind (la_resolution r) = Elf) (la_resolution r) = Some p"
    using elf_plan_returns [OF assms] by blast
  then have "\<exists>rep. build_launch_report px req r = Some rep" unfolding build_launch_report_def by simp
  then show ?thesis by (auto simp: with_launch_report_def)
qed

lemma attempt_guest_launch_contained:
  assumes valid: "valid_runtime_config c" "req \<noteq> []" "nul \<notin> set req"
    and env: "child_io_ok io (os_fds st)" "serves_files px"
  shows "\<exists>r st'. attempt_guest_launch px io c req args pol st = Some (Inr r, st') \<and>
    (if la_attempted r
     then lp_allow_direct_host_exec pol \<and> er_kind (la_resolution r) \<in> {Elf, Shebang} \<and>
       (let host = host_path (er_translation (la_resolution r)) in starts st [(host, host # args, env_strings c)] st')
     else if tr_attempted (la_trampoline r)
     then \<not> lp_allow_direct_host_exec pol \<and> tp_allow_trampoline_exec (lp_trampoline pol) \<and>
       (\<exists>s plan. serialize_runtime_config c = Inr s \<and>
         (let t = attempt_trampoline_path c (lp_trampoline pol)
          in starts st [(t, [t, ''--preflight''], build_trampoline_env c s (la_resolution r) plan)] st'))
     else starts st [] st')"
proof -
  obtain res where res: "resolve_guest_executable px c req = Inr res"
    using resolve_valid_cases [OF valid] by metis
  let ?r = "initial_launch_result res (build_exec_continuation_plan px c req args Execve)"
  let ?host = "host_path (er_translation res)"
  have rep: "\<exists>rep. with_launch_report px req r s = Some (Inr (r\<lparr>la_report := rep\<rparr>), s)" for r s
    using launch_report_returns [OF env(2)] by blast
  have fresh: "tr_attempted (la_trampoline ?r) = False" "la_attempted ?r = False" "la_resolution ?r = res"
    by (simp_all add: initial_launch_result_def default_trampoline_attempt_def)
  consider "\<not> er_resolved res \<or> er_kind res = Missing \<or> er_kind res = Unsupported"
    | "er_resolved res" "er_kind res \<in> {Elf, Shebang}" "\<not> lp_allow_direct_host_exec pol"
    | "er_resolved res" "er_kind res \<in> {Elf, Shebang}" "lp_allow_direct_host_exec pol"
    by (cases "er_kind res") auto
  then show ?thesis
  proof cases
    case 1
    then obtain e where "attempt_guest_launch px io c req args pol st = with_launch_report px req (?r\<lparr>la_error := e\<rparr>) st"
      using res by (cases "\<not> er_resolved res \<or> er_kind res = Missing") (auto simp: attempt_guest_launch_def Let_def)
    then obtain rp where "attempt_guest_launch px io c req args pol st =
        Some (Inr (?r\<lparr>la_error := e, la_report := rp\<rparr>), st)"
      using rep [of "?r\<lparr>la_error := e\<rparr>" st] by auto
    then show ?thesis using fresh by (simp add: starts_def)
  next
    case 2
    obtain plan where plan: "elf_plan_for px (er_kind res = Elf) res = Some plan"
      using elf_plan_returns [OF env(2)] by blast
    obtain tr st' where tr: "attempt_packaged_trampoline px io c req res plan (lp_trampoline pol) st = Some (tr, st')"
      "if tr_attempted tr
       then tp_allow_trampoline_exec (lp_trampoline pol) \<and>
         (\<exists>s. serialize_runtime_config c = Inr s \<and>
           starts st [(attempt_trampoline_path c (lp_trampoline pol),
             [attempt_trampoline_path c (lp_trampoline pol), ''--preflight''], build_trampoline_env c s res plan)] st')
       else starts st [] st'"
      using attempt_packaged_contained [OF env(1)] by blast
    let ?r' = "?r\<lparr>la_policy_blocked := True, la_error := ''direct rootfs host exec disabled by ALR policy'',
      la_trampoline := tr\<rparr>"
    have "attempt_guest_launch px io c req args pol st = with_launch_report px req ?r' st'"
      using 2 res plan tr(1) by (auto simp: attempt_guest_launch_def Let_def)
    then obtain rp where "attempt_guest_launch px io c req args pol st = Some (Inr (?r'\<lparr>la_report := rp\<rparr>), st')"
      using rep [of ?r' st'] by auto
    then show ?thesis using 2 tr(2) fresh by (cases "tr_attempted tr") (simp_all add: Let_def, blast)
  next
    case 3
    obtain cap st' where cap: "run_captured px io launch_labels ?host (?host # args) (env_strings c) st = Some (cap, st')"
      "starts st (if cap_attempted cap then [(?host, ?host # args, env_strings c)] else []) st'"
      using run_captured_contained [OF env(1)] by blast
    let ?r' = "?r\<lparr>la_attempted := cap_attempted cap, la_stdout_text := cap_stdout cap,
      la_stderr_text := cap_stderr cap, la_error := cap_error cap, la_exit_code := cap_exit cap\<rparr>"
    have "attempt_guest_launch px io c req args pol st = with_launch_report px req ?r' st'"
      using 3 res cap(1) by (auto simp: attempt_guest_launch_def Let_def)
    then obtain rp where "attempt_guest_launch px io c req args pol st = Some (Inr (?r'\<lparr>la_report := rp\<rparr>), st')"
      using rep [of ?r' st'] by auto
    then show ?thesis using 3 cap(2) fresh by (cases "cap_attempted cap") (simp_all add: Let_def)
  qed
qed

text \<open>A launch attempt starts nothing but what its policy allows, and leaks nothing.  For a validated
  configuration, however the kernel answers, the attempt returns; the open descriptors are what they were;
  and the programs it started are exactly one of: the resolved executable at its confined host path with the
  caller's arguments and the configured environment, when direct execution is allowed; the packaged
  trampoline in preflight mode with the serialized configuration, when only the trampoline is allowed;
  nothing.\<close>

theorem launch_attempt_contained:
  assumes valid: "valid_runtime_config c" "req \<noteq> []" "nul \<notin> set req"
    and env: "child_io_ok io (os_fds st)" "serves_files px"
  shows "\<exists>r st'. attempt_guest_launch px io c req args pol st = Some (Inr r, st') \<and>
    (if la_attempted r
     then lp_allow_direct_host_exec pol \<and> er_kind (la_resolution r) \<in> {Elf, Shebang} \<and>
       (let host = host_path (er_translation (la_resolution r)) in starts st [(host, host # args, env_strings c)] st')
     else if tr_attempted (la_trampoline r)
     then \<not> lp_allow_direct_host_exec pol \<and> tp_allow_trampoline_exec (lp_trampoline pol) \<and>
       (\<exists>s plan. serialize_runtime_config c = Inr s \<and>
         (let t = attempt_trampoline_path c (lp_trampoline pol)
          in starts st [(t, [t, ''--preflight''], build_trampoline_env c s (la_resolution r) plan)] st'))
     else starts st [] st')"
  using assms by (rule attempt_guest_launch_contained)

text \<open>A host that serves one image, and a child that prints a line and exits.\<close>

definition launch_host :: "string \<Rightarrow> posix" where
  "launch_host img = sample_host\<lparr>px_pread := \<lambda>t fd n off.
     if 2 ^ 63 \<le> unat off then Inl 22 else Inr (take n (drop (unat off) img))\<rparr>"

definition greeting_child :: child_io where
  "greeting_child =
     \<lparr>ci_pipe = (\<lambda>i. if i = 0 then Inr (3, 4) else Inr (5, 6)), ci_fork = Inr 100,
      ci_read = (\<lambda>t fd. if t = 0 then Inr (''hi'' @ nl) else Inr []), ci_waitpid = (\<lambda>t. Inr 0)\<rparr>"

lemma launch_host_serves:
  assumes "length img < 2 ^ 63"
  shows "serves_files (launch_host img)"
proof -
  have "serves (launch_host img) fd img" for fd
    using assms by (auto simp: serves_def launch_host_def min_def split: if_splits)
  then show ?thesis by (auto simp: serves_files_def)
qed

lemma greeting_child_ok: "child_io_ok greeting_child {0, 1, 2}"
proof -
  have "read_ends greeting_child (t + 1) fd" for t fd by (simp add: read_ends_def greeting_child_def)
  then have "\<forall>fd t. \<exists>k. read_ends greeting_child (t + k) fd" by blast
  then show ?thesis by (simp add: child_io_ok_def fresh_pipe_def pipe_fds_def) (simp add: greeting_child_def)
qed

theorem launch_attempt_contained_witness:
  "\<exists>r st'. attempt_guest_launch (launch_host (CHR 0x7F # ''ELF'')) greeting_child sample_guest ''/bin/ls'' [''-l'']
      \<lparr>lp_allow_direct_host_exec = True, lp_trampoline = \<lparr>tp_packaged_trampoline_path = [], tp_allow_trampoline_exec = False\<rparr>\<rparr>
      \<lparr>os_fds = {0, 1, 2}, os_execs = []\<rparr> = Some (Inr r, st') \<and> os_fds st' = {0, 1, 2}"
proof -
  have "child_io_ok greeting_child (os_fds \<lparr>os_fds = {0, 1, 2}, os_execs = []\<rparr>)" using greeting_child_ok by simp
  from launch_attempt_contained [OF sample_guest_ok(1) _ _ this launch_host_serves [of "CHR 0x7F # ''ELF''"], of "''/bin/ls''" "[''-l'']"
      "\<lparr>lp_allow_direct_host_exec = True,
        lp_trampoline = \<lparr>tp_packaged_trampoline_path = [], tp_allow_trampoline_exec = False\<rparr>\<rparr>"]
  show ?thesis by (auto simp: starts_def Let_def split: if_splits)
qed

section \<open>The preflight of the packaged trampoline\<close>

lemma sv_contains_set: "sv_contains s needle \<Longrightarrow> set needle \<subseteq> set s"
proof (induction s needle rule: sv_contains.induct)
  case (2 c cs needle)
  then show ?case by (metis set_subset_Cons set_take_subset subset_trans sv_contains.simps(2))
qed simp

text \<open>The trampoline never prints the marker that the attempt looks for: it could only come from a value that the
  preflight echoes.\<close>

theorem preflight_prints_no_marker:
  assumes "\<forall>key \<in> {''ALR_TRAMPOLINE_MODE'', ''ALR_CONFIG_CHECKSUM'', ''ALR_TRAMPOLINE_TARGET_GUEST_PATH'',
      ''ALR_TRAMPOLINE_TARGET_HOST_PATH'', ''ALR_TRAMPOLINE_ELF_STATUS''}. CHR ''X'' \<notin> set (env_or_none environ key)"
  shows "\<not> sv_contains (pr_stdout (trampoline_main [path, ''--preflight''] environ)) static_hello_marker"
proof -
  have "CHR ''X'' \<notin> set (pr_stdout (run_preflight environ))"
    using assms by (simp add: run_preflight_def)
  moreover have "CHR ''X'' \<in> set static_hello_marker" by (simp add: static_hello_marker_def)
  ultimately show ?thesis using sv_contains_set by (auto simp: trampoline_main_def)
qed

end
