(* ===== verification/Runtime_Plan.thy ===== *)
theory Runtime_Plan
  imports Alr_Launch
begin

text \<open>
  The runtime plan and report, from \<^verbatim>\<open>runtime_plan.cpp\<close>, and the launcher library of
  \<^verbatim>\<open>alr_runtime_launcher.cpp\<close>: the launch plans of the three backends, the configuration derived from the
  plan, and the report, which resolves the program and makes a launch attempt under the default policy.
\<close>

section \<open>Inputs and plans\<close>

record runtime_report_input =
  ri_package_name :: string
  ri_native_library_dir :: string
  ri_app_files_dir :: string
  ri_app_cache_dir :: string
  ri_rootfs_name :: string
  ri_program :: string
  ri_optional_runtime_backend_name :: string
  ri_optional_runtime_backend_path :: string

record optional_runtime_backend_probe =
  ob_framework_status :: string
  ob_available_status :: string
  ob_source :: string
  ob_backend :: string
  ob_candidate_path :: string
  ob_can_execute :: bool
  ob_reason :: string

record runtime_report =
  rr_loader_executable :: string
  rr_rootfs_dir :: string
  rr_text :: string

record loader_launch_plan =
  ll_executable :: string
  ll_argv :: "string list"
  ll_env :: str_map

datatype execution_backend_kind = PlanOnly | AndroidNativeTestCommand | Proot | GlibcLoader | AlrRuntime

record execution_backend =
  eb_kind :: execution_backend_kind
  eb_name :: string
  eb_can_execute :: bool
  eb_reason :: string

definition join_path :: "string \<Rightarrow> string \<Rightarrow> string" where
  "join_path left right =
     (if left = [] then right else if last left = slash then left @ right else left @ ''/'' @ right)"

definition rootfs_dir_for :: "runtime_report_input \<Rightarrow> string" where
  "rootfs_dir_for input = join_path (join_path (ri_app_files_dir input) ''rootfs'') (ri_rootfs_name input)"

definition loader_executable_for :: "runtime_report_input \<Rightarrow> string" where
  "loader_executable_for input = join_path (ri_native_library_dir input) ''libalr-loader.so''"

definition proot_loader_for :: "runtime_report_input \<Rightarrow> string" where
  "proot_loader_for input = join_path (ri_native_library_dir input) ''libproot-loader.so''"

definition alr_runtime_launcher_for :: "runtime_report_input \<Rightarrow> string" where
  "alr_runtime_launcher_for input = join_path (ri_native_library_dir input) ''libalr_runtime_launcher.so''"

definition alr_runtime_hook_for :: "runtime_report_input \<Rightarrow> string" where
  "alr_runtime_hook_for input = join_path (ri_native_library_dir input) ''libalr_runtime_hook.so''"

definition alr_runtime_interposer_for :: "runtime_report_input \<Rightarrow> string" where
  "alr_runtime_interposer_for input = join_path (ri_native_library_dir input) ''libalr_runtime_interposer.so''"

definition alr_runtime_trampoline_for :: "runtime_report_input \<Rightarrow> string" where
  "alr_runtime_trampoline_for input = join_path (ri_native_library_dir input) ''libalr_runtime_trampoline.so''"

definition alr_runtime_bridge_for :: "runtime_report_input \<Rightarrow> string" where
  "alr_runtime_bridge_for input = join_path (ri_native_library_dir input) ''libalr_runtime_bridge.so''"

definition proot_tmp_dir_for :: "runtime_report_input \<Rightarrow> string" where
  "proot_tmp_dir_for input = join_path (ri_app_cache_dir input) ''proot-tmp''"

definition validate_input :: "runtime_report_input \<Rightarrow> unit res" where
  "validate_input input =
     (if ri_program input = [] \<or> hd (ri_program input) \<noteq> slash
      then Inl (InvalidArgument ''program must be an absolute path inside the rootfs'') else Inr ())"

definition guest_home_env :: "(string \<times> string) list" where
  "guest_home_env = [(''HOME'', ''/root''), (''TMPDIR'', ''/tmp''), (''PATH'', default_search_path)]"

definition build_loader_launch_plan :: "runtime_report_input \<Rightarrow> loader_launch_plan res" where
  "build_loader_launch_plan input =
     res_bind (validate_input input) (\<lambda>_.
     let executable = loader_executable_for input; rootfs_dir = rootfs_dir_for input
     in Inr \<lparr>ll_executable = executable,
             ll_argv = [executable, ''--rootfs'', rootfs_dir, ''--program'', ri_program input],
             ll_env = smap_of ([(''ALR_PACKAGE'', ri_package_name input), (''ALR_ROOTFS'', rootfs_dir),
               (''ALR_PROGRAM'', ri_program input), (''ALR_BACKEND'', ''loader'')] @ guest_home_env)\<rparr>)"

definition build_proot_launch_plan :: "runtime_report_input \<Rightarrow> loader_launch_plan res" where
  "build_proot_launch_plan input =
     res_bind (validate_input input) (\<lambda>_.
     let rootfs_dir = rootfs_dir_for input;
         executable = join_path (ri_native_library_dir input) ''libalr_proot.so''
     in Inr \<lparr>ll_executable = executable,
             ll_argv = [executable, ''-R'', rootfs_dir, ''-w'', ''/'', ri_program input],
             ll_env = smap_of ([(''ALR_PACKAGE'', ri_package_name input), (''ALR_ROOTFS'', rootfs_dir),
               (''ALR_PROGRAM'', ri_program input), (''ALR_BACKEND'', ''proot''),
               (''PROOT_LOADER'', proot_loader_for input), (''PROOT_TMP_DIR'', proot_tmp_dir_for input),
               (''PROOT_NO_SECCOMP'', ''1''), (''PROOT_VERBOSE'', ''-1''),
               (''LD_LIBRARY_PATH'', ri_native_library_dir input)] @ guest_home_env)\<rparr>)"

definition alr_runtime_env :: "runtime_report_input \<Rightarrow> (string \<times> string) list" where
  "alr_runtime_env input =
     [(''ALR_PACKAGE'', ri_package_name input), (''ALR_ROOTFS'', rootfs_dir_for input),
      (''ALR_PROGRAM'', ri_program input), (''ALR_BACKEND'', ''alr-runtime''),
      (''ALR_HOOK_PATH'', alr_runtime_hook_for input),
      (''ALR_INTERPOSER_PATH'', alr_runtime_interposer_for input),
      (''ALR_TRAMPOLINE_PATH'', alr_runtime_trampoline_for input),
      (''ALR_BRIDGE_PATH'', alr_runtime_bridge_for input),
      (''ALR_CONFIG_FORMAT'', ''alr-config-v1''), (''ALR_FAKE_ROOT'', ''0''), (''ALR_VERBOSE'', ''0''),
      (''ALR_TRACE_PATH'', ''0''), (''ALR_TRACE_EXEC'', ''0'')] @ guest_home_env"

definition build_alr_runtime_launch_plan :: "runtime_report_input \<Rightarrow> loader_launch_plan res" where
  "build_alr_runtime_launch_plan input =
     res_bind (validate_input input) (\<lambda>_.
     let rootfs_dir = rootfs_dir_for input; executable = alr_runtime_launcher_for input
     in Inr \<lparr>ll_executable = executable,
             ll_argv = [executable, ''--rootfs'', rootfs_dir, ''--cwd'', ''/'', ''--program'', ri_program input,
               ''--dry-run''],
             ll_env = smap_of (alr_runtime_env input)\<rparr>)"

definition build_alr_runtime_config :: "runtime_report_input \<Rightarrow> loader_launch_plan \<Rightarrow> runtime_config res" where
  "build_alr_runtime_config input launch =
     res_bind (smap_at (ll_env launch) ''ALR_ROOTFS'') (\<lambda>rootfs_dir.
     res_bind (smap_at (ll_env launch) ''ALR_HOOK_PATH'') (\<lambda>hook_path.
     res_bind (smap_at (ll_env launch) ''ALR_INTERPOSER_PATH'') (\<lambda>interposer_path.
     res_bind (smap_at (ll_env launch) ''ALR_BRIDGE_PATH'') (\<lambda>bridge_path.
     res_bind (smap_at (ll_env launch) ''ALR_FAKE_ROOT'') (\<lambda>fake_root.
     res_bind (smap_at (ll_env launch) ''ALR_VERBOSE'') (\<lambda>verbose.
     Inr \<lparr>rc_package_name = ri_package_name input, rc_rootfs_dir = rootfs_dir, rc_cwd = ''/'',
          rc_program = ri_program input, rc_env = ll_env launch, rc_binds = [], rc_hook_path = hook_path,
          rc_interposer_path = interposer_path, rc_bridge_path = bridge_path, rc_fake_root = (fake_root = ''1''),
          rc_verbose = (if verbose = ''0'' then 0 else 1), rc_trace_path = False, rc_trace_exec = False\<rparr>))))))"

definition probe_optional_runtime_backend ::
  "runtime_report_input \<Rightarrow> optional_runtime_backend_probe res" where
  "probe_optional_runtime_backend input =
     (if ri_optional_runtime_backend_path input = [] then
        Inr \<lparr>ob_framework_status = ''PASS'', ob_available_status = ''SKIP'', ob_source = ''none'',
             ob_backend = ''none'', ob_candidate_path = [], ob_can_execute = False,
             ob_reason = ''no optional external runtime backend configured''\<rparr>
      else if hd (ri_optional_runtime_backend_path input) \<noteq> slash then
        Inl (InvalidArgument ''absolute optional runtime backend path required'')
      else
        Inr \<lparr>ob_framework_status = ''PASS'', ob_available_status = ''PASS'', ob_source = ''external'',
             ob_backend = (if ri_optional_runtime_backend_name input = [] then ''external''
                           else ri_optional_runtime_backend_name input),
             ob_candidate_path = ri_optional_runtime_backend_path input, ob_can_execute = False,
             ob_reason = ''external candidate declared for future probe integration; not executed by absent-safe scaffolding''\<rparr>)"

text \<open>A value outside the enumeration cannot be written here; the source throws on it.\<close>

primrec select_execution_backend :: "execution_backend_kind \<Rightarrow> execution_backend" where
  "select_execution_backend PlanOnly =
     \<lparr>eb_kind = PlanOnly, eb_name = ''plan-only'', eb_can_execute = False,
      eb_reason = ''writable app-data rootfs binaries are not direct exec entrypoints on modern Android; use a packaged native loader/proot/glibc-loader backend''\<rparr>"
| "select_execution_backend AndroidNativeTestCommand =
     \<lparr>eb_kind = AndroidNativeTestCommand, eb_name = ''android-native-test-command'', eb_can_execute = True,
      eb_reason = ''executes only packaged/native-library-dir test commands, not rootfs app-data binaries''\<rparr>"
| "select_execution_backend Proot =
     \<lparr>eb_kind = Proot, eb_name = ''proot'', eb_can_execute = True,
      eb_reason = ''packaged PRoot backend validated for static arm64 ELF smoke execution inside app-private rootfs''\<rparr>"
| "select_execution_backend GlibcLoader =
     \<lparr>eb_kind = GlibcLoader, eb_name = ''glibc-loader'', eb_can_execute = False,
      eb_reason = ''planned backend; requires packaged executable glibc loader and path virtualization strategy''\<rparr>"
| "select_execution_backend AlrRuntime =
     \<lparr>eb_kind = AlrRuntime, eb_name = ''alr-runtime'', eb_can_execute = False,
      eb_reason = ''clean-room ALR launcher/config skeleton is packaged but guest execution is not implemented yet''\<rparr>"

section \<open>The report\<close>

text \<open>The two UTF-8 tags of the source, as bytes.\<close>

definition measured_tag :: string where
  "measured_tag = ''('' @ [CHR 0xEC, CHR 0xB8, CHR 0xA1, CHR 0xEC, CHR 0xA0, CHR 0x95] @ '')''"

definition aggregated_tag :: string where
  "aggregated_tag = ''('' @ [CHR 0xEC, CHR 0xA7, CHR 0x91, CHR 0xEA, CHR 0xB3, CHR 0x84] @ '')''"

definition alr_runtime_launcher_status :: string where
  "alr_runtime_launcher_status = ''ALR RUNTIME LAUNCHER AVAILABLE: '' @ measured_tag @ '' ALR BACKEND AVAILABLE''"

definition alr_runtime_launcher_policy :: string where
  "alr_runtime_launcher_policy =
     ''ALR RUNTIME DIRECT APP-DATA EXEC POLICY: '' @ measured_tag @ '' ALR DIRECT APP-DATA EXECVE''"

definition alr_runtime_launcher_can_execute_guest :: bool where
  "alr_runtime_launcher_can_execute_guest = False"

definition default_launch_policy :: launch_attempt_policy where
  "default_launch_policy =
     \<lparr>lp_allow_direct_host_exec = False,
      lp_trampoline = \<lparr>tp_packaged_trampoline_path = [], tp_allow_trampoline_exec = False\<rparr>\<rparr>"

definition yes_no :: "bool \<Rightarrow> string" where
  "yes_no b = (if b then ''yes'' else ''no'')"

text \<open>\<^verbatim>\<open>plan.env.at(key)\<close> for the keys that every plan of this kind has.\<close>

definition env_value :: "loader_launch_plan \<Rightarrow> string \<Rightarrow> string" where
  "env_value plan key = (case smap_find (ll_env plan) key of None \<Rightarrow> [] | Some v \<Rightarrow> v)"

definition report_text ::
  "runtime_report_input \<Rightarrow> execution_backend \<Rightarrow> optional_runtime_backend_probe \<Rightarrow> loader_launch_plan \<Rightarrow>
     runtime_config \<Rightarrow> serialized_runtime_config \<Rightarrow> runtime_config \<Rightarrow> executable_resolution \<Rightarrow>
     launch_attempt_result \<Rightarrow> string" where
  "report_text input backend ob plan config serialized parsed resolution attempt =
     concat (map (\<lambda>l. l @ nl)
      [''AndroLinux Runtime Lab'', [],
       ''package: '' @ ri_package_name input,
       ''nativeLibraryDir: '' @ ri_native_library_dir input,
       ''loader executable: '' @ loader_executable_for input,
       ''app files dir: '' @ ri_app_files_dir input,
       ''rootfs dir: '' @ rootfs_dir_for input,
       ''program: '' @ ri_program input,
       ''execution backend: '' @ eb_name backend,
       ''can execute: '' @ yes_no (eb_can_execute backend),
       ''backend reason: '' @ eb_reason backend,
       alr_runtime_launcher_status,
       ''ALR RUNTIME CONFIG BUILD: '' @ pass_fail (smap_find (ll_env plan) ''ALR_ROOTFS'' \<noteq> None),
       alr_runtime_launcher_policy,
       ''ALR HOOK LOAD: '' @ aggregated_tag @ '' alr_hook smoke'',
       ''ALR HOOK CONFIG BUILD: '' @ aggregated_tag @ '' alr_hook smoke'',
       ''ALR INTERPOSER LOAD: '' @ aggregated_tag @ '' alr_interposer smoke'',
       ''ALR INTERPOSER CONFIG BUILD: '' @ aggregated_tag @ '' alr_interposer smoke'',
       ''ALR CONFIG SERIALIZE: '' @
         pass_fail (sc_text serialized \<noteq> [] \<and> rc_rootfs_dir parsed = rc_rootfs_dir config),
       ''ALR CONFIG PARSE: '' @ pass_fail (rc_program parsed = ri_program input),
       er_report resolution,
       la_report attempt,
       ''alr runtime launcher path='' @ ll_executable plan,
       ''alr runtime hook path='' @ env_value plan ''ALR_HOOK_PATH'',
       ''alr runtime interposer path='' @ env_value plan ''ALR_INTERPOSER_PATH'',
       ''alr runtime trampoline path='' @ env_value plan ''ALR_TRAMPOLINE_PATH'',
       ''alr runtime bridge path='' @ env_value plan ''ALR_BRIDGE_PATH'',
       ''alr runtime config source=env-skeleton'',
       ''alr runtime config format=alr-config-v1'',
       ''alr runtime config bytes='' @ dec_nat (length (sc_text serialized)),
       ''alr runtime config checksum='' @ sc_checksum_hex serialized,
       ''alr runtime guest execution=not-claimed'',
       ''LOW-OVERHEAD BACKEND PROBE FRAMEWORK: '' @ ob_framework_status ob,
       ''OPTIONAL RUNTIME BACKEND AVAILABLE: '' @ ob_available_status ob,
       ''optional runtime backend source='' @ ob_source ob,
       ''optional runtime backend name='' @ ob_backend ob,
       ''optional runtime backend path='' @ (if ob_candidate_path ob = [] then ''none'' else ob_candidate_path ob),
       ''optional runtime backend executable='' @ yes_no (ob_can_execute ob),
       ''optional runtime backend reason='' @ ob_reason ob, []]) @
     ''Runtime policy: rootfs files stay in app-private writable storage; execution enters through packaged native backends.''"

definition build_runtime_report ::
  "posix \<Rightarrow> child_io \<Rightarrow> runtime_report_input \<Rightarrow> execution_backend \<Rightarrow> os_state \<Rightarrow>
     (runtime_report res \<times> os_state) option" where
  "build_runtime_report px io input backend st =
     (case
        res_bind (validate_input input) (\<lambda>_.
        res_bind (probe_optional_runtime_backend input) (\<lambda>ob.
        res_bind (build_alr_runtime_launch_plan input) (\<lambda>plan.
        res_bind (build_alr_runtime_config input plan) (\<lambda>config.
        res_bind (serialize_runtime_config config) (\<lambda>serialized.
        res_bind (parse_runtime_config (sc_text serialized)) (\<lambda>parsed.
        res_bind (resolve_guest_executable px parsed (ri_program input)) (\<lambda>resolution.
        Inr (ob, plan, config, serialized, parsed, resolution))))))))
      of
        Inl exc \<Rightarrow> Some (Inl exc, st)
      | Inr (ob, plan, config, serialized, parsed, resolution) \<Rightarrow>
          map_option (\<lambda>(attempt, st).
              (res_bind attempt (\<lambda>attempt.
                 Inr \<lparr>rr_loader_executable = loader_executable_for input, rr_rootfs_dir = rootfs_dir_for input,
                      rr_text = report_text input backend ob plan config serialized parsed resolution attempt\<rparr>), st))
            (attempt_guest_launch px io parsed (ri_program input) [] default_launch_policy st))"

definition build_default_runtime_report ::
  "posix \<Rightarrow> child_io \<Rightarrow> runtime_report_input \<Rightarrow> os_state \<Rightarrow> (runtime_report res \<times> os_state) option" where
  "build_default_runtime_report px io input st =
     build_runtime_report px io input (select_execution_backend PlanOnly) st"

section \<open>The launcher library\<close>

text \<open>A \<^verbatim>\<open>NULL\<close> argument is read as the empty string; the optional backend fields have their defaults.\<close>

definition or_empty :: "string option \<Rightarrow> string" where
  "or_empty s = (case s of None \<Rightarrow> [] | Some v \<Rightarrow> v)"

definition launcher_input ::
  "string option \<Rightarrow> string option \<Rightarrow> string option \<Rightarrow> string option \<Rightarrow> string option \<Rightarrow> string option \<Rightarrow>
     runtime_report_input" where
  "launcher_input package_name native_library_dir app_files_dir app_cache_dir rootfs_name program =
     \<lparr>ri_package_name = or_empty package_name, ri_native_library_dir = or_empty native_library_dir,
      ri_app_files_dir = or_empty app_files_dir, ri_app_cache_dir = or_empty app_cache_dir,
      ri_rootfs_name = or_empty rootfs_name, ri_program = or_empty program,
      ri_optional_runtime_backend_name = [], ri_optional_runtime_backend_path = []\<rparr>"

definition launcher_config :: "runtime_report_input \<Rightarrow> loader_launch_plan \<Rightarrow> runtime_config res" where
  "launcher_config input launch =
     map_sum id (\<lambda>c. c\<lparr>rc_fake_root := False, rc_verbose := 0\<rparr>) (build_alr_runtime_config input launch)"

definition alr_runtime_launcher_build_report ::
  "posix \<Rightarrow> child_io \<Rightarrow> runtime_report_input \<Rightarrow> os_state \<Rightarrow> (string res \<times> os_state) option" where
  "alr_runtime_launcher_build_report px io input st =
     (case
        res_bind (build_alr_runtime_launch_plan input) (\<lambda>launch.
        res_bind (launcher_config input launch) (\<lambda>config.
        res_bind (resolve_guest_executable px config (ri_program input)) (\<lambda>resolution.
        Inr (launch, config, resolution))))
      of
        Inl exc \<Rightarrow> Some (Inl exc, st)
      | Inr (launch, config, resolution) \<Rightarrow>
          map_option (\<lambda>(attempt, st).
              (res_bind attempt (\<lambda>attempt. Inr (report_lines
                 [alr_runtime_launcher_status, ''ALR RUNTIME CONFIG BUILD: PASS'', alr_runtime_launcher_policy,
                  er_report resolution, la_report attempt,
                  ''can execute guest='' @ yes_no alr_runtime_launcher_can_execute_guest,
                  ''launcher executable='' @ ll_executable launch,
                  ''rootfs='' @ env_value launch ''ALR_ROOTFS'', ''program='' @ env_value launch ''ALR_PROGRAM''])), st))
            (attempt_guest_launch px io config (ri_program input) [] default_launch_policy st))"

section \<open>The configuration of a plan\<close>

definition report_input_ok :: "runtime_report_input \<Rightarrow> bool" where
  "report_input_ok input \<longleftrightarrow>
     is_guest_absolute_path (ri_program input) \<and> nul \<notin> set (ri_program input) \<and>
     ri_package_name input \<noteq> [] \<and> nul \<notin> set (ri_package_name input) \<and>
     host_path_ok (ri_native_library_dir input) \<and> host_path_ok (ri_app_files_dir input) \<and>
     nul \<notin> set (ri_rootfs_name input) \<and>
     (ri_optional_runtime_backend_path input = [] \<or> is_absolute_host_path (ri_optional_runtime_backend_path input))"

lemma host_path_ok_join:
  "host_path_ok (join_path l r) \<longleftrightarrow> (if l = [] then host_path_ok r else host_path_ok l \<and> nul \<notin> set r)"
  by (cases l) (auto simp: host_path_ok_def join_path_def is_absolute_host_path_def)

lemma join_path_empty: "join_path l r = [] \<longleftrightarrow> l = [] \<and> r = []"
  by (simp add: join_path_def)

lemma rootfs_dir_ok: "host_path_ok (rootfs_dir_for input) \<longleftrightarrow>
    host_path_ok (ri_app_files_dir input) \<and> nul \<notin> set (ri_rootfs_name input)"
  by (auto simp: rootfs_dir_for_def host_path_ok_join join_path_empty)
    (simp_all add: host_path_ok_def is_absolute_host_path_def)

definition config_of :: "runtime_report_input \<Rightarrow> runtime_config" where
  "config_of input =
     \<lparr>rc_package_name = ri_package_name input, rc_rootfs_dir = rootfs_dir_for input, rc_cwd = ''/'',
      rc_program = ri_program input, rc_env = smap_of (alr_runtime_env input), rc_binds = [],
      rc_hook_path = alr_runtime_hook_for input, rc_interposer_path = alr_runtime_interposer_for input,
      rc_bridge_path = alr_runtime_bridge_for input, rc_fake_root = False, rc_verbose = 0,
      rc_trace_path = False, rc_trace_exec = False\<rparr>"

lemma plan_config:
  assumes "build_alr_runtime_launch_plan input = Inr plan"
  shows "build_alr_runtime_config input plan = Inr (config_of input)"
    and "launcher_config input plan = Inr (config_of input)"
proof -
  have "ll_env plan = smap_of (alr_runtime_env input)"
    using assms by (auto simp: build_alr_runtime_launch_plan_def Let_def)
  then show "build_alr_runtime_config input plan = Inr (config_of input)"
    by (simp add: build_alr_runtime_config_def smap_at_def smap_find_of alr_runtime_env_def guest_home_env_def config_of_def)
  then show "launcher_config input plan = Inr (config_of input)"
    by (simp add: launcher_config_def config_of_def)
qed

lemma smap_of_subset: "set (smap_of kvs) \<subseteq> set kvs"
proof -
  have "set (smap_set k v m) \<subseteq> insert (k, v) (set m)" for k v m
    by (induction k v m rule: smap_set.induct) auto
  then have "set (fold (\<lambda>(k, v). smap_set k v) kvs m) \<subseteq> set kvs \<union> set m" for m
    by (induction kvs arbitrary: m) fastforce+
  then show ?thesis unfolding smap_of_def by (metis empty_set sup_bot.right_neutral)
qed

lemma join_path_nul: "nul \<notin> set l \<Longrightarrow> nul \<notin> set r \<Longrightarrow> nul \<notin> set (join_path l r)"
  by (simp add: join_path_def)

lemma native_lib_ok:
  "is_absolute_host_path n = False \<or> n = [] \<Longrightarrow> r \<noteq> [] \<Longrightarrow> hd r \<noteq> slash \<Longrightarrow> \<not> optional_host_path_ok (join_path n r)"
  by (cases n) (auto simp: optional_host_path_ok_def host_path_ok_def join_path_def is_absolute_host_path_def)

lemma runtime_env_ok:
  assumes "nul \<notin> set (ri_package_name input)" "nul \<notin> set (ri_program input)" "nul \<notin> set (ri_native_library_dir input)"
    "nul \<notin> set (ri_app_files_dir input)" "nul \<notin> set (ri_rootfs_name input)"
  shows "list_all env_entry_ok (smap_of (alr_runtime_env input))"
proof -
  have "list_all env_entry_ok (alr_runtime_env input)"
    using assms by (simp add: alr_runtime_env_def guest_home_env_def env_entry_ok_def env_key_ok_def iscntrl_def
        rootfs_dir_for_def alr_runtime_hook_for_def alr_runtime_interposer_for_def alr_runtime_trampoline_for_def
        alr_runtime_bridge_for_def join_path_nul default_search_path_def)
  then show ?thesis using smap_of_subset [of "alr_runtime_env input"] by (auto simp: list_all_iff)
qed

lemma host_path_okD: "host_path_ok p \<Longrightarrow> nul \<notin> set p \<and> is_absolute_host_path p \<and> p \<noteq> []"
  by (auto simp: host_path_ok_def is_absolute_host_path_def)

lemma config_of_valid:
  assumes "report_input_ok input"
  shows "validate_runtime_config (config_of input) =
    Inr (config_of input\<lparr>rc_cwd := normal_form ''/'', rc_program := normal_form (ri_program input)\<rparr>)"
proof -
  have opt: "optional_host_path_ok (join_path (ri_native_library_dir input) r)" if "nul \<notin> set r" for r
    using assms that host_path_okD by (auto simp: report_input_ok_def optional_host_path_ok_def host_path_ok_join)
  have env: "list_all env_entry_ok (smap_of (alr_runtime_env input))"
    using assms by (intro runtime_env_ok) (auto simp: report_input_ok_def dest: host_path_okD)
  show ?thesis
    unfolding validate_runtime_config_Inr
    using assms opt env rootfs_dir_ok [of input]
    by (simp add: config_of_def report_input_ok_def alr_runtime_hook_for_def alr_runtime_interposer_for_def
        alr_runtime_bridge_for_def is_guest_absolute_path_def)
qed

lemma config_of_rejects:
  assumes "validate_runtime_config (config_of input) = Inr c" "probe_optional_runtime_backend input = Inr ob"
  shows "report_input_ok input"
proof -
  have native: "host_path_ok (ri_native_library_dir input)"
  proof -
    have "optional_host_path_ok (join_path (ri_native_library_dir input) ''libalr_runtime_hook.so'')"
      using assms(1) by (simp add: validate_runtime_config_Inr config_of_def alr_runtime_hook_for_def)
    then show ?thesis using native_lib_ok [of "ri_native_library_dir input" "''libalr_runtime_hook.so''"]
      by (auto simp: optional_host_path_ok_def host_path_ok_join join_path_empty split: if_splits)
  qed
  have "ri_optional_runtime_backend_path input = [] \<or> is_absolute_host_path (ri_optional_runtime_backend_path input)"
    using assms(2) by (auto simp: probe_optional_runtime_backend_def is_absolute_host_path_def split: if_splits)
  then show ?thesis
    using native assms(1) rootfs_dir_ok [of input]
    by (simp add: report_input_ok_def validate_runtime_config_Inr config_of_def)
qed

section \<open>The report starts nothing\<close>

lemma default_policy_inert:
  assumes "valid_runtime_config c" "req \<noteq> []" "nul \<notin> set req" "child_io_ok io (os_fds st)" "serves_files px"
  obtains r st' where "attempt_guest_launch px io c req args default_launch_policy st = Some (Inr r, st')" "starts st [] st'"
  using attempt_guest_launch_contained [OF assms, of args default_launch_policy] that
  by (auto simp: default_launch_policy_def split: if_splits)

lemma line_in_text:
  "l \<in> set ls \<Longrightarrow> CHR 0x0A \<notin> set l \<Longrightarrow> l \<in> set (split_on (CHR 0x0A) (concat (map (\<lambda>l. l @ nl) ls) @ z))"
  by (induction ls) (auto simp: split_on_append split_on_no_delim)

lemma report_lines_present:
  "''ALR CONFIG SERIALIZE: '' @ pass_fail (sc_text s \<noteq> [] \<and> rc_rootfs_dir parsed = rc_rootfs_dir config)
     \<in> set (split_on (CHR 0x0A) (report_text input backend ob plan config s parsed res att))"
  "''ALR CONFIG PARSE: '' @ pass_fail (rc_program parsed = ri_program input)
     \<in> set (split_on (CHR 0x0A) (report_text input backend ob plan config s parsed res att))"
  unfolding report_text_def by (rule line_in_text; simp)+

text \<open>Unusable inputs are refused before anything is attempted.\<close>

lemma report_rejected:
  assumes "\<not> report_input_ok input"
  shows "\<exists>e. build_runtime_report px io input backend st = Some (Inl e, st)"
proof (cases "res_bind (validate_input input) (\<lambda>_. res_bind (probe_optional_runtime_backend input) (\<lambda>ob.
    res_bind (build_alr_runtime_launch_plan input) (\<lambda>plan. res_bind (build_alr_runtime_config input plan) (\<lambda>config.
    res_bind (serialize_runtime_config config) (\<lambda>s. Inr (ob, plan, config, s))))))")
  case (Inl e)
  then show ?thesis by (auto simp: build_runtime_report_def res_bind_def split: sum.splits)
next
  case (Inr x)
  then obtain ob plan s where "probe_optional_runtime_backend input = Inr ob"
    "build_alr_runtime_launch_plan input = Inr plan" "build_alr_runtime_config input plan = Inr (config_of input)"
    "serialize_runtime_config (config_of input) = Inr s"
    using plan_config(1) by auto
  then show ?thesis using assms config_of_rejects by (auto simp: serialize_runtime_config_def)
qed

text \<open>A report is inert and its verdicts are earned.  However the kernel answers, the report returns, no
  program is started and no descriptor is left open; it is a report exactly when the program and the
  directories are absolute, the package is named and nothing holds a NUL byte, and an exception otherwise;
  in a report the configuration always passes its serialization check, and passes the parse check exactly
  when the program path is in normal form.\<close>

theorem runtime_report_inert:
  assumes "child_io_ok io (os_fds st)" "serves_files px"
  shows "\<exists>r st'. build_runtime_report px io input backend st = Some (r, st') \<and> starts st [] st' \<and>
    ((\<exists>rep. r = Inr rep) \<longleftrightarrow> report_input_ok input) \<and>
    (\<forall>rep. r = Inr rep \<longrightarrow> rr_rootfs_dir rep = rootfs_dir_for input \<and>
      ''ALR CONFIG SERIALIZE: PASS'' \<in> set (split_on (CHR 0x0A) (rr_text rep)) \<and>
      ''ALR CONFIG PARSE: '' @ pass_fail (normal_path (ri_program input)) \<in> set (split_on (CHR 0x0A) (rr_text rep)))"
proof (cases "report_input_ok input")
  case True
  let ?c = "config_of input" and ?req = "ri_program input"
  let ?p = "?c\<lparr>rc_cwd := normal_form ''/'', rc_program := normal_form ?req\<rparr>"
  have req: "?req \<noteq> []" "nul \<notin> set ?req" "hd ?req = slash"
    using True by (auto simp: report_input_ok_def is_guest_absolute_path_def)
  obtain ob where ob: "probe_optional_runtime_backend input = Inr ob"
    using True by (auto simp: probe_optional_runtime_backend_def report_input_ok_def is_absolute_host_path_def)
  obtain plan where plan: "build_alr_runtime_launch_plan input = Inr plan"
    using req by (auto simp: build_alr_runtime_launch_plan_def validate_input_def Let_def)
  obtain s where s: "serialize_runtime_config ?c = Inr s"
    using config_of_valid [OF True] by (auto simp: serialize_runtime_config_def Let_def)
  have parsed: "parse_runtime_config (sc_text s) = Inr ?p"
    using parse_serialized [OF s config_of_valid [OF True]] by (simp add: config_of_def)
  have valid: "valid_runtime_config ?p" using parse_runtime_config_valid(1) [OF parsed] .
  obtain res where res: "resolve_guest_executable px ?p ?req = Inr res"
    using resolve_valid_cases [OF valid req(1,2)] by metis
  obtain att st' where att: "attempt_guest_launch px io ?p ?req [] default_launch_policy st = Some (Inr att, st')"
    "starts st [] st'"
    using default_policy_inert [OF valid req(1,2) assms] by blast
  let ?rep = "\<lparr>rr_loader_executable = loader_executable_for input, rr_rootfs_dir = rootfs_dir_for input,
      rr_text = report_text input backend ob plan ?c s ?p res att\<rparr>"
  have "build_runtime_report px io input backend st = Some (Inr ?rep, st')"
    using req ob plan plan_config(1) [OF plan] s parsed res att(1)
    by (simp add: build_runtime_report_def validate_input_def)
  moreover have "sc_text s \<noteq> []" using parsed by (auto simp: parse_runtime_config_def)
  then have "''ALR CONFIG SERIALIZE: PASS'' \<in> set (split_on (CHR 0x0A) (rr_text ?rep))"
    using report_lines_present(1) [of s ?p ?c input backend ob plan res att] by (simp add: pass_fail_def)
  moreover have "''ALR CONFIG PARSE: '' @ pass_fail (normal_path ?req) \<in> set (split_on (CHR 0x0A) (rr_text ?rep))"
    using report_lines_present(2) [of ?p input backend ob plan ?c s res att] by (simp add: normal_path_def eq_commute [of ?req])
  ultimately show ?thesis using att(2) True by simp
next
  case False
  from report_rejected [OF False, of px io backend st] show ?thesis using False by (auto simp: starts_def)
qed

definition sample_input :: runtime_report_input where
  "sample_input = launcher_input (Some ''p'') (Some ''/n'') (Some ''/d'') (Some ''/c'') (Some ''r'') (Some ''/bin/hello'')"

lemma sample_input_ok: "report_input_ok sample_input"
  by (simp add: report_input_ok_def sample_input_def launcher_input_def or_empty_def is_guest_absolute_path_def
      host_path_ok_def is_absolute_host_path_def)

theorem runtime_report_inert_witness:
  "\<exists>rep st'. build_runtime_report (launch_host []) greeting_child sample_input (select_execution_backend Proot)
      \<lparr>os_fds = {0, 1, 2}, os_execs = []\<rparr> = Some (Inr rep, st') \<and> os_execs st' = []"
proof -
  have "child_io_ok greeting_child (os_fds \<lparr>os_fds = {0, 1, 2}, os_execs = []\<rparr>)" using greeting_child_ok by simp
  from runtime_report_inert [OF this launch_host_serves [of "[]"], of sample_input "select_execution_backend Proot"]
  show ?thesis using sample_input_ok by (auto simp: starts_def)
qed

text \<open>The three backends agree on what they are given, and only the environment tells them apart.\<close>

lemma launch_plans_agree:
  assumes "is_guest_absolute_path (ri_program input)"
  obtains lp pp ap where "build_loader_launch_plan input = Inr lp" "build_proot_launch_plan input = Inr pp"
    "build_alr_runtime_launch_plan input = Inr ap"
    "\<forall>k \<in> {''ALR_PACKAGE'', ''ALR_ROOTFS'', ''ALR_PROGRAM'', ''HOME'', ''TMPDIR'', ''PATH''}.
       smap_find (ll_env lp) k = smap_find (ll_env pp) k \<and> smap_find (ll_env pp) k = smap_find (ll_env ap) k"
    "hd (ll_argv lp) = ll_executable lp" "hd (ll_argv pp) = ll_executable pp" "hd (ll_argv ap) = ll_executable ap"
proof -
  have v: "validate_input input = Inr ()"
    using assms by (simp add: validate_input_def is_guest_absolute_path_def)
  show thesis
    by (rule that [OF build_loader_launch_plan_def [of input, unfolded v res_bind_Inr Let_def]
          build_proot_launch_plan_def [of input, unfolded v res_bind_Inr Let_def]
          build_alr_runtime_launch_plan_def [of input, unfolded v res_bind_Inr Let_def]])
      (simp_all add: smap_find_of alr_runtime_env_def guest_home_env_def)
qed

end
