(* ===== verification/Alr_Procfs.thy ===== *)
theory Alr_Procfs
  imports Alr_Mediation
begin

text \<open>
  The procfs views a guest must observe, from \<^verbatim>\<open>alr_runtime/alr_procfs.cpp\<close>: the target of
  \<^verbatim>\<open>/proc/self/exe\<close>, the identity in \<^verbatim>\<open>/proc/self/status\<close>, the synthesized mount table with its leak
  guard, and the plan that combines them.
\<close>

section \<open>Views\<close>

record procfs_self_exe_view =
  se_guest_view :: string
  se_host_truth :: string
  se_requires_virtualization :: bool
  se_interpose_paths :: "string list"
  se_interpose_syscalls :: "string list"
  se_valid :: bool

record procfs_self_status_view =
  ss_name :: string
  ss_uid :: int
  ss_gid :: int
  ss_fakeroot :: bool
  ss_lines :: "string list"
  ss_valid :: bool

record procfs_mount_entry =
  me_source :: string
  me_target :: string
  me_fstype :: string
  me_options :: string
  me_host_backing :: string

record procfs_mounts_view =
  mv_entries :: "procfs_mount_entry list"
  mv_leaked_host_tokens :: "string list"
  mv_has_guest_root :: bool
  mv_has_proc :: bool
  mv_valid :: bool

record procfs_host_facts =
  hf_self_exe_truth :: string
  hf_has_identity :: bool
  hf_uid :: int
  hf_gid :: int

definition default_procfs_host_facts :: procfs_host_facts where
  "default_procfs_host_facts = \<lparr>hf_self_exe_truth = [], hf_has_identity = False, hf_uid = 0, hf_gid = 0\<rparr>"

record procfs_virtualization_plan =
  vp_self_exe :: procfs_self_exe_view
  vp_self_status :: procfs_self_status_view
  vp_mounts :: procfs_mounts_view
  vp_planned :: bool
  vp_error :: string
  vp_report :: string

section \<open>Building the views\<close>

definition generic_host_leak_tokens :: "string list" where
  "generic_host_leak_tokens =
     [''/data/'', ''/system'', ''/vendor'', ''/apex'', ''/storage'', ''/mnt/'', ''/dev/block'', ''magisk'']"

definition env_value :: "runtime_config \<Rightarrow> string \<Rightarrow> string" where
  "env_value config key = (case smap_find (rc_env config) key of None \<Rightarrow> [] | Some v \<Rightarrow> v)"

definition basename_of :: "string \<Rightarrow> string" where
  "basename_of path = (if path = [] then [] else sv_after_last slash path)"

definition join_csv :: "string list \<Rightarrow> string" where
  "join_csv values = join_with '','' values"

definition resolve_guest_view :: "posix \<Rightarrow> runtime_config \<Rightarrow> string \<Rightarrow> string" where
  "resolve_guest_view px config requested_program =
     (let lexical =
        (if requested_program \<noteq> [] \<and> sv_find slash requested_program 0 \<noteq> None then
           (case normalize_guest_path requested_program (rc_cwd config) of Inr g \<Rightarrow> g | Inl _ \<Rightarrow> [])
         else [])
      in case resolve_guest_executable px config requested_program of
           Inr resolution \<Rightarrow>
             if guest_path (er_translation resolution) \<noteq> [] then guest_path (er_translation resolution)
             else lexical
         | Inl _ \<Rightarrow> lexical)"

definition build_self_exe_view ::
  "posix \<Rightarrow> runtime_config \<Rightarrow> string \<Rightarrow> procfs_host_facts \<Rightarrow> procfs_self_exe_view" where
  "build_self_exe_view px config requested_program host_facts =
     (let guest_view = resolve_guest_view px config requested_program;
          host_truth = (if hf_self_exe_truth host_facts = [] then env_value config ''ALR_TRAMPOLINE_PATH''
                        else hf_self_exe_truth host_facts)
      in \<lparr>se_guest_view = guest_view, se_host_truth = host_truth,
          se_requires_virtualization = (host_truth \<noteq> [] \<and> host_truth \<noteq> guest_view),
          se_interpose_paths = [''/proc/self/exe'', ''/proc/<pid>/exe''],
          se_interpose_syscalls = [''readlink'', ''readlinkat'', ''openat''],
          se_valid = is_guest_absolute_path guest_view\<rparr>)"

definition id_line :: "string \<Rightarrow> int \<Rightarrow> string" where
  "id_line label i =
     label @ tab @ dec_int i @ tab @ dec_int i @ tab @ dec_int i @ tab @ dec_int i"

definition build_self_status_view ::
  "posix \<Rightarrow> runtime_config \<Rightarrow> procfs_self_exe_view \<Rightarrow> procfs_host_facts \<Rightarrow> procfs_self_status_view" where
  "build_self_status_view px config self_exe host_facts =
     (let name = basename_of (se_guest_view self_exe);
          (uid, gid) =
            (if rc_fake_root config then (0, 0)
             else if hf_has_identity host_facts then (hf_uid host_facts, hf_gid host_facts)
             else (int (px_getuid px), int (px_getgid px)))
      in \<lparr>ss_name = name, ss_uid = uid, ss_gid = gid, ss_fakeroot = rc_fake_root config,
          ss_lines = [''Name:'' @ tab @ name, id_line ''Uid:'' uid, id_line ''Gid:'' gid],
          ss_valid = (name \<noteq> [] \<and> 0 \<le> uid \<and> 0 \<le> gid)\<rparr>)"

abbreviation mount_entry :: "string \<Rightarrow> string \<Rightarrow> string \<Rightarrow> string \<Rightarrow> string \<Rightarrow> procfs_mount_entry" where
  "mount_entry src tgt fs opts backing \<equiv>
     \<lparr>me_source = src, me_target = tgt, me_fstype = fs, me_options = opts, me_host_backing = backing\<rparr>"

definition bind_entry :: "runtime_config \<Rightarrow> bind_mount \<Rightarrow> procfs_mount_entry" where
  "bind_entry config b =
     mount_entry ''alr_bind''
       (case normalize_guest_path (bind_guest b) (rc_cwd config) of Inr g \<Rightarrow> g | Inl _ \<Rightarrow> bind_guest b)
       ''none'' ''rw,bind,relatime'' (bind_host b)"

definition mount_entries :: "runtime_config \<Rightarrow> procfs_mount_entry list" where
  "mount_entries config =
     [mount_entry ''alr_rootfs'' ''/'' ''overlay'' ''rw,relatime'' (rc_rootfs_dir config),
      mount_entry ''proc'' ''/proc'' ''proc'' ''rw,nosuid,nodev,noexec,relatime'' [],
      mount_entry ''sysfs'' ''/sys'' ''sysfs'' ''rw,nosuid,nodev,noexec,relatime'' [],
      mount_entry ''tmpfs'' ''/tmp'' ''tmpfs'' ''rw,nosuid,nodev,relatime'' [],
      mount_entry ''devpts'' ''/dev/pts'' ''devpts'' ''rw,nosuid,noexec,relatime'' [],
      mount_entry ''tmpfs'' ''/dev/shm'' ''tmpfs'' ''rw,nosuid,nodev,relatime'' []] @
     map (bind_entry config) (rc_binds config)"

definition leak_text :: "procfs_mount_entry list \<Rightarrow> string" where
  "leak_text entries = concat (map (\<lambda>e. me_source e @ '' '' @ me_options e @ nl) entries)"

definition leak_tokens :: "runtime_config \<Rightarrow> string list" where
  "leak_tokens config =
     generic_host_leak_tokens @
     (if rc_rootfs_dir config \<noteq> [] then [rc_rootfs_dir config] else []) @
     filter (\<lambda>h. h \<noteq> []) (map bind_host (rc_binds config))"

definition build_mounts_view :: "runtime_config \<Rightarrow> procfs_mounts_view" where
  "build_mounts_view config =
     (let entries = mount_entries config;
          has_guest_root = list_ex (\<lambda>e. me_target e = ''/'') entries;
          has_proc = list_ex (\<lambda>e. me_target e = ''/proc'') entries
      in \<lparr>mv_entries = entries,
          mv_leaked_host_tokens =
            filter (\<lambda>token. token \<noteq> [] \<and> sv_contains (leak_text entries) token) (leak_tokens config),
          mv_has_guest_root = has_guest_root, mv_has_proc = has_proc,
          mv_valid = (has_guest_root \<and> has_proc \<and> entries \<noteq> [])\<rparr>)"

definition self_exe_plan_ok :: "procfs_self_exe_view \<Rightarrow> bool" where
  "self_exe_plan_ok view \<longleftrightarrow>
     se_valid view \<and> se_requires_virtualization view \<and> se_interpose_paths view \<noteq> [] \<and>
     se_interpose_syscalls view \<noteq> []"

definition mount_line :: "procfs_mount_entry \<Rightarrow> string" where
  "mount_line e = me_source e @ '' '' @ me_target e @ '' '' @ me_fstype e @ '' '' @ me_options e"

definition build_procfs_report :: "procfs_virtualization_plan \<Rightarrow> string" where
  "build_procfs_report plan =
     (let exe = vp_self_exe plan; status = vp_self_status plan; mounts = vp_mounts plan in
      report_lines (
       [''ALR PROCFS PLAN: '' @ pass_fail (vp_planned plan),
        ''ALR PROCFS SELF EXE PLAN: '' @ pass_fail (self_exe_plan_ok exe),
        ''ALR PROCFS SELF STATUS FAKEROOT PLAN: '' @ pass_fail (ss_valid status),
        ''ALR PROCFS MOUNTS PLAN: '' @ pass_fail (mv_valid mounts),
        ''ALR PROCFS HOST LEAK GUARD: '' @ pass_fail (mv_leaked_host_tokens mounts = []),
        ''alr procfs self exe guest view='' @ se_guest_view exe,
        ''alr procfs self exe host truth='' @ se_host_truth exe,
        ''alr procfs self exe requires virtualization='' @ true_false (se_requires_virtualization exe),
        ''alr procfs self exe interpose paths='' @ join_csv (se_interpose_paths exe),
        ''alr procfs self exe interpose syscalls='' @ join_csv (se_interpose_syscalls exe),
        ''alr procfs self status name='' @ ss_name status,
        ''alr procfs self status uid='' @ dec_int (ss_uid status),
        ''alr procfs self status gid='' @ dec_int (ss_gid status),
        ''alr procfs self status fakeroot='' @ true_false (ss_fakeroot status),
        ''alr procfs mounts entries='' @ dec_nat (length (mv_entries mounts)),
        ''alr procfs mounts has guest root='' @ true_false (mv_has_guest_root mounts),
        ''alr procfs mounts has proc='' @ true_false (mv_has_proc mounts),
        ''alr procfs mounts host leak tokens='' @ dec_nat (length (mv_leaked_host_tokens mounts))] @
       map (\<lambda>i. ''alr procfs mount['' @ dec_nat i @ '']='' @ mount_line (mv_entries mounts ! i))
         [0..<length (mv_entries mounts)] @
       line_if (vp_error plan \<noteq> []) (''alr procfs error='' @ vp_error plan)))"

definition render_guest_mounts :: "procfs_mounts_view \<Rightarrow> string" where
  "render_guest_mounts mounts = concat (map (\<lambda>e. mount_line e @ '' 0 0'' @ nl) (mv_entries mounts))"

text \<open>No statement of the \<^verbatim>\<open>try\<close> block throws: the resolver's exceptions are caught inside the view.\<close>

definition build_procfs_virtualization_plan ::
  "posix \<Rightarrow> runtime_config \<Rightarrow> string \<Rightarrow> procfs_host_facts \<Rightarrow> procfs_virtualization_plan" where
  "build_procfs_virtualization_plan px config requested_program host_facts =
     (let exe = build_self_exe_view px config requested_program host_facts;
          status = build_self_status_view px config exe host_facts;
          mounts = build_mounts_view config;
          planned = (self_exe_plan_ok exe \<and> ss_valid status \<and> mv_valid mounts \<and>
                     mv_leaked_host_tokens mounts = []);
          error =
            (if planned then []
             else if \<not> se_valid exe then ''self-exe guest view could not be resolved''
             else if \<not> se_requires_virtualization exe then
               ''self-exe host truth is unknown so virtualization gap is undefined''
             else if \<not> ss_valid status then ''self-status identity is incomplete''
             else if \<not> mv_valid mounts then
               ''synthesized mount table is missing the guest root or /proc''
             else if mv_leaked_host_tokens mounts \<noteq> [] then
               ''synthesized mount table leaks an android host path''
             else []);
          plan = \<lparr>vp_self_exe = exe, vp_self_status = status, vp_mounts = mounts, vp_planned = planned,
                  vp_error = error, vp_report = []\<rparr>
      in plan\<lparr>vp_report := build_procfs_report plan\<rparr>)"

section \<open>The mount table hides the host\<close>

lemma sv_contains_chars: "sv_contains s t \<Longrightarrow> set t \<subseteq> set s"
proof (induction s t rule: sv_contains.induct)
  case (2 c cs t)
  then show ?case using set_take_subset [of "length t" "c # cs"] by auto
qed simp

lemma leak_text_chars:
  "slash \<notin> set (leak_text (mount_entries c))" "CHR ''g'' \<notin> set (leak_text (mount_entries c))"
  by (auto simp: leak_text_def mount_entries_def bind_entry_def)

lemma no_leaks:
  assumes "valid_runtime_config c"
  shows "mv_leaked_host_tokens (build_mounts_view c) = []"
proof -
  have "slash \<in> set t \<or> CHR ''g'' \<in> set t" if "t \<in> set (leak_tokens c)" for t
  proof -
    have "slash \<in> set h" if "host_path_ok h" for h
      using that by (cases h) (auto simp: host_path_ok_def is_absolute_host_path_def)
    then show ?thesis
      using that assms
      by (auto simp: leak_tokens_def generic_host_leak_tokens_def valid_runtime_config_def list_all_iff
          bind_ok_def split: if_splits)
  qed
  then have "\<not> sv_contains (leak_text (mount_entries c)) t" if "t \<in> set (leak_tokens c)" for t
    using that sv_contains_chars leak_text_chars [of c] by blast
  then show ?thesis by (simp add: build_mounts_view_def Let_def)
qed

lemma mounts_view_valid: "mv_valid (build_mounts_view c)"
  by (simp add: build_mounts_view_def mount_entries_def Let_def)

text \<open>Two configurations that the guest cannot tell apart by its own paths.\<close>

definition same_guest_side :: "runtime_config \<Rightarrow> runtime_config \<Rightarrow> bool" where
  "same_guest_side c d \<longleftrightarrow>
     rc_cwd c = rc_cwd d \<and> map bind_guest (rc_binds c) = map bind_guest (rc_binds d)"

lemma mount_line_backing: "mount_line (mount_entry a b f opts h) = a @ '' '' @ b @ '' '' @ f @ '' '' @ opts"
  by (simp add: mount_line_def)

lemma mount_lines_guest_side:
  assumes "same_guest_side c d"
  shows "map mount_line (mount_entries c) = map mount_line (mount_entries d)"
proof -
  have "map (\<lambda>b. mount_line (bind_entry c b)) bs = map (\<lambda>b. mount_line (bind_entry d b)) ds"
    if "map bind_guest bs = map bind_guest ds" for bs ds
  proof -
    have "(\<lambda>b. mount_line (bind_entry c b)) = (\<lambda>g. mount_line (bind_entry c (BindMount g []))) \<circ> bind_guest"
      "(\<lambda>b. mount_line (bind_entry d b)) = (\<lambda>g. mount_line (bind_entry c (BindMount g []))) \<circ> bind_guest"
      using assms
      by (intro ext; simp add: mount_line_def bind_entry_def same_guest_side_def split: sum.split)+
    then show ?thesis using that by (metis list.map_comp)
  qed
  then have "map (mount_line \<circ> bind_entry c) (rc_binds c) = map (mount_line \<circ> bind_entry d) (rc_binds d)"
    using assms by (simp add: same_guest_side_def comp_def)
  then show ?thesis by (simp add: mount_entries_def mount_line_backing)
qed

section \<open>The guest's own path\<close>

text \<open>A program given by a path is shown under its normal form, whether or not it exists.\<close>

lemma resolve_guest_view_path:
  assumes "valid_runtime_config c" "nul \<notin> set req" "slash \<in> set req"
  shows "resolve_guest_view px c req = resolve_against (rc_cwd c) req"
proof -
  let ?g = "resolve_against (rc_cwd c) req"
  have req: "req \<noteq> []" using assms(3) by auto
  have n: "normalize_guest_path req (rc_cwd c) = Inr ?g" and ok: "guest_path_ok ?g"
    using normalize_guest_ok [OF assms(2) valid_configD(2) [OF assms(1)]] by auto
  have cs: "candidate_guest_paths c req = Inr [?g]"
    using req assms(3) n by (simp add: candidate_guest_paths_def sv_find_None_iff)
  have ne: "?g \<noteq> []" using ok guest_path_okD by (auto simp: is_guest_absolute_path_def)
  have "\<exists>r. resolve_guest_executable px c req = Inr r \<and> guest_path (er_translation r) = ?g"
    using resolve_guest_executable_cases [OF assms(1) cs, of px] ok
    by (auto simp: resolution_at_simps Cons_eq_append_conv)
  with ne show ?thesis by (auto simp: resolve_guest_view_def Let_def)
qed

section \<open>Properties of the procfs views\<close>

text \<open>The synthesized mount table reveals nothing about the host.  The text a guest reads is the same for
  any two configurations that agree on the working directory and the guest side of the binds, whatever
  their rootfs directory and host paths are; and for a validated configuration the leak guard never fires
  and the table has its root and its procfs.\<close>

theorem mounts_hide_host:
  "(same_guest_side c d \<longrightarrow>
      render_guest_mounts (build_mounts_view c) = render_guest_mounts (build_mounts_view d)) \<and>
   (valid_runtime_config c \<longrightarrow>
      mv_leaked_host_tokens (build_mounts_view c) = [] \<and> mv_valid (build_mounts_view c))"
proof -
  have "render_guest_mounts (build_mounts_view x) =
      concat (map (\<lambda>l. l @ '' 0 0'' @ nl) (map mount_line (mount_entries x)))" for x
    by (simp add: render_guest_mounts_def build_mounts_view_def Let_def comp_def)
  then have "same_guest_side c d \<longrightarrow>
      render_guest_mounts (build_mounts_view c) = render_guest_mounts (build_mounts_view d)"
    using mount_lines_guest_side [of c d] by (simp only:) simp
  then show ?thesis using no_leaks mounts_view_valid by blast
qed

theorem mounts_hide_host_witness:
  "render_guest_mounts (build_mounts_view
     (sample_guest\<lparr>rc_rootfs_dir := ''/data/user/0/app/rootfs'', rc_binds := [BindMount ''/mnt/s'' ''/storage/x'']\<rparr>)) =
   render_guest_mounts (build_mounts_view
     (sample_guest\<lparr>rc_binds := [BindMount ''/mnt/s'' ''/q'']\<rparr>)) \<and>
   mv_leaked_host_tokens (build_mounts_view sample_guest) = []"
proof -
  let ?c = "sample_guest\<lparr>rc_rootfs_dir := ''/data/user/0/app/rootfs'', rc_binds := [BindMount ''/mnt/s'' ''/storage/x'']\<rparr>"
  let ?d = "sample_guest\<lparr>rc_binds := [BindMount ''/mnt/s'' ''/q'']\<rparr>"
  have "same_guest_side ?c ?d" by (simp add: same_guest_side_def)
  then show ?thesis
    using mounts_hide_host [of ?c ?d] mounts_hide_host [of sample_guest sample_guest] sample_guest_ok(1) by blast
qed

text \<open>The procfs plan is made exactly when the guest can be told a consistent story.  For a
  validated configuration, the plan is planned if and only if the guest's own executable path is known and
  not the root directory, the host's answer is known and differs from it, and the identity is
  non-negative; a plan carries an error if and only if it is not planned; and under fake root the status
  lines show user and group zero.\<close>

theorem procfs_planned_iff:
  assumes "valid_runtime_config c" "plan = build_procfs_virtualization_plan px c req facts"
  shows "(vp_planned plan \<longleftrightarrow>
            is_guest_absolute_path (se_guest_view (vp_self_exe plan)) \<and>
            basename_of (se_guest_view (vp_self_exe plan)) \<noteq> [] \<and>
            se_host_truth (vp_self_exe plan) \<noteq> [] \<and>
            se_host_truth (vp_self_exe plan) \<noteq> se_guest_view (vp_self_exe plan) \<and>
            0 \<le> ss_uid (vp_self_status plan) \<and> 0 \<le> ss_gid (vp_self_status plan)) \<and>
         (vp_error plan = [] \<longleftrightarrow> vp_planned plan) \<and>
         (rc_fake_root c \<longrightarrow> ss_lines (vp_self_status plan) =
            [''Name:'' @ tab @ basename_of (se_guest_view (vp_self_exe plan)),
             ''Uid:'' @ tab @ ''0'' @ tab @ ''0'' @ tab @ ''0'' @ tab @ ''0'',
             ''Gid:'' @ tab @ ''0'' @ tab @ ''0'' @ tab @ ''0'' @ tab @ ''0''])"
proof -
  define exe where "exe = build_self_exe_view px c req facts"
  define st where "st = build_self_status_view px c exe facts"
  have p: "vp_self_exe plan = exe" "vp_self_status plan = st"
    "vp_planned plan \<longleftrightarrow> self_exe_plan_ok exe \<and> ss_valid st"
    using no_leaks [OF assms(1)] mounts_view_valid [of c]
    by (simp_all add: assms(2) build_procfs_virtualization_plan_def Let_def exe_def st_def)
  have e: "vp_error plan = [] \<longleftrightarrow> vp_planned plan"
    using no_leaks [OF assms(1)] mounts_view_valid [of c] p(3)
    by (simp add: assms(2) build_procfs_virtualization_plan_def Let_def exe_def [symmetric] st_def [symmetric])
      (auto simp: exe_def build_self_exe_view_def self_exe_plan_ok_def Let_def)
  have x: "self_exe_plan_ok exe \<longleftrightarrow> is_guest_absolute_path (se_guest_view exe) \<and> se_host_truth exe \<noteq> [] \<and>
      se_host_truth exe \<noteq> se_guest_view exe"
    by (auto simp: exe_def build_self_exe_view_def self_exe_plan_ok_def Let_def)
  have s: "ss_valid st \<longleftrightarrow> basename_of (se_guest_view exe) \<noteq> [] \<and> 0 \<le> ss_uid st \<and> 0 \<le> ss_gid st"
    by (auto simp: st_def build_self_status_view_def Let_def)
  have "dec_int 0 = ''0''" by code_simp
  then have l: "rc_fake_root c \<longrightarrow> ss_lines st =
            [''Name:'' @ tab @ basename_of (se_guest_view exe),
             ''Uid:'' @ tab @ ''0'' @ tab @ ''0'' @ tab @ ''0'' @ tab @ ''0'',
             ''Gid:'' @ tab @ ''0'' @ tab @ ''0'' @ tab @ ''0'' @ tab @ ''0'']"
    by (simp add: st_def build_self_status_view_def Let_def id_line_def)
  show ?thesis using e l unfolding p x s by blast
qed

theorem procfs_planned_iff_witness:
  "vp_planned (build_procfs_virtualization_plan sample_host sample_guest ''/bin/ls'' default_procfs_host_facts)"
proof -
  let ?p = "build_procfs_virtualization_plan sample_host sample_guest ''/bin/ls'' default_procfs_host_facts"
  have v: "vp_self_exe ?p = build_self_exe_view sample_host sample_guest ''/bin/ls'' default_procfs_host_facts"
    "vp_self_status ?p = build_self_status_view sample_host sample_guest (vp_self_exe ?p) default_procfs_host_facts"
    by (simp_all add: build_procfs_virtualization_plan_def Let_def)
  have "resolve_against (rc_cwd sample_guest) ''/bin/ls'' = ''/bin/ls''" by code_simp
  then have g: "resolve_guest_view sample_host sample_guest ''/bin/ls'' = ''/bin/ls''"
    using resolve_guest_view_path [OF sample_guest_ok(1), of "''/bin/ls''" sample_host] by simp
  have t: "env_value sample_guest ''ALR_TRAMPOLINE_PATH'' = ''/lib/t''" by code_simp
  have b: "basename_of ''/bin/ls'' = ''ls''" by code_simp
  have "se_guest_view (vp_self_exe ?p) = ''/bin/ls''" "se_host_truth (vp_self_exe ?p) = ''/lib/t''"
    "0 \<le> ss_uid (vp_self_status ?p)" "0 \<le> ss_gid (vp_self_status ?p)"
    unfolding v
    by (simp_all add: build_self_exe_view_def build_self_status_view_def Let_def g t default_procfs_host_facts_def)
  then show ?thesis
    using procfs_planned_iff [OF sample_guest_ok(1) refl, of sample_host "''/bin/ls''" default_procfs_host_facts] b
    by (simp add: is_guest_absolute_path_def)
qed

end
