(* ===== verification/Alr_Hook.thy ===== *)
theory Alr_Hook
  imports Alr_Path Posix_Host
begin

text \<open>
  The path-hook smoke test, from \<^verbatim>\<open>alr_runtime/alr_hook.cpp\<close> and its exported entry points in
  \<^verbatim>\<open>alr_runtime_hook.cpp\<close>: translate a guest path, stat and open the host path, and show its first bytes
  in printable form.
\<close>

record path_hook_smoke_result =
  hs_translation :: path_translation
  hs_opened :: bool
  hs_stated :: bool
  hs_size_bytes :: int
  hs_first_bytes :: string
  hs_error :: string
  hs_report :: string

definition sanitize_byte :: "char \<Rightarrow> char" where
  "sanitize_byte c =
     (if c = CHR 0x0A \<or> c = CHR 0x0D \<or> c = CHR 0x09 then CHR '' ''
      else if 0x20 \<le> byte_of c \<and> byte_of c < 0x7F then c
      else CHR ''.'')"

text \<open>The \<^verbatim>\<open>count\<close> bytes that \<^verbatim>\<open>read\<close> left in the buffer are the list \<open>bytes\<close>.\<close>

definition sanitize_first_bytes :: "string \<Rightarrow> string" where
  "sanitize_first_bytes bytes = map sanitize_byte bytes"

definition read_size :: "nat \<Rightarrow> nat" where
  "read_size max_read_bytes = (if max_read_bytes = 0 then 1 else max_read_bytes)"

definition build_hook_report :: "path_hook_smoke_result \<Rightarrow> string" where
  "build_hook_report result = report_lines (
     [''ALR HOOK LOAD: '' @ pass_fail (hs_opened result \<and> hs_stated result \<and> hs_error result = [])] @
     line_if (hs_error result \<noteq> []) (''alr hook error='' @ hs_error result) @
     [''ALR HOOK MODE: host-path-smoke'',
      ''ALR HOOK GUEST PATH: '' @ guest_path (hs_translation result),
      ''ALR HOOK HOST PATH: '' @ host_path (hs_translation result),
      ''ALR STAT ROOTFS FILE: '' @ pass_fail (hs_stated result),
      ''ALR OPEN ROOTFS FILE: '' @ pass_fail (hs_opened result),
      ''ALR HOOK FILE SIZE: '' @ dec_int (hs_size_bytes result),
      ''ALR HOOK FIRST BYTES: '' @ hs_first_bytes result] @
     line_if (hs_error result \<noteq> []) (''ALR HOOK ERROR: '' @ hs_error result))"

definition hook_stat :: "posix \<Rightarrow> path_hook_smoke_result \<Rightarrow> path_hook_smoke_result" where
  "hook_stat px r =
     (case px_stat px (host_path (hs_translation r)) of
        Inr st \<Rightarrow> r\<lparr>hs_stated := True, hs_size_bytes := st_size st\<rparr>
      | Inl e \<Rightarrow> r\<lparr>hs_error := errno_message px ''stat'' e\<rparr>)"

definition hook_open_read :: "posix \<Rightarrow> nat \<Rightarrow> path_hook_smoke_result \<Rightarrow> path_hook_smoke_result" where
  "hook_open_read px max_read_bytes r =
     (case px_open px (host_path (hs_translation r)) of
        Inr fd \<Rightarrow>
          (let r = r\<lparr>hs_opened := True\<rparr> in
           case px_read px fd (read_size max_read_bytes) of
             Inr bytes \<Rightarrow> r\<lparr>hs_first_bytes := sanitize_first_bytes bytes\<rparr>
           | Inl e \<Rightarrow> if hs_error r = [] then r\<lparr>hs_error := errno_message px ''read'' e\<rparr> else r)
      | Inl e \<Rightarrow> if hs_error r = [] then r\<lparr>hs_error := errno_message px ''open'' e\<rparr> else r)"

definition run_path_hook_smoke ::
  "posix \<Rightarrow> string \<Rightarrow> string \<Rightarrow> string \<Rightarrow> nat \<Rightarrow> path_hook_smoke_result res" where
  "run_path_hook_smoke px rootfs_dir cwd path max_read_bytes =
     res_bind (translate_rootfs_path rootfs_dir cwd path) (\<lambda>t.
       let r = hook_open_read px max_read_bytes (hook_stat px
             \<lparr>hs_translation = t, hs_opened = False, hs_stated = False, hs_size_bytes = -1,
              hs_first_bytes = [], hs_error = [], hs_report = []\<rparr>)
       in Inr (r\<lparr>hs_report := build_hook_report r\<rparr>))"

text \<open>The C entry point: null pointers become defaults, exceptions become a failing report.  \<open>status\<close> is the
  constant line of \<^verbatim>\<open>alr_runtime_hook_status\<close>, whose text is not ASCII.\<close>

definition alr_runtime_hook_smoke_report ::
  "posix \<Rightarrow> string \<Rightarrow> string option \<Rightarrow> string option \<Rightarrow> string option \<Rightarrow> string" where
  "alr_runtime_hook_smoke_report px status rootfs_dir cwd path =
     (case run_path_hook_smoke px (case rootfs_dir of None \<Rightarrow> [] | Some s \<Rightarrow> s)
             (case cwd of None \<Rightarrow> ''/'' | Some s \<Rightarrow> s) (case path of None \<Rightarrow> [] | Some s \<Rightarrow> s) 128 of
        Inr result \<Rightarrow> hs_report result
      | Inl exc \<Rightarrow> status @ nl @ ''ALR HOOK SMOKE: FAIL'' @ nl @ ''ALR HOOK ERROR: '' @ what exc)"

section \<open>Printable bytes\<close>

lemma sanitize_byte_printable: "0x20 \<le> (byte_of (sanitize_byte c) :: nat) \<and> byte_of (sanitize_byte c) < (0x7F :: nat)"
  by (simp add: sanitize_byte_def)

lemma sanitize_first_bytes_id:
  "list_all (\<lambda>c. 0x20 \<le> (byte_of c :: nat) \<and> byte_of c < (0x7F :: nat)) s \<Longrightarrow> sanitize_first_bytes s = s"
  by (induction s) (auto simp: sanitize_first_bytes_def sanitize_byte_def)

lemma hook_stages [simp]:
  "hs_translation (hook_stat px r) = hs_translation r" "hs_translation (hook_open_read px n r) = hs_translation r"
  "hs_stated (hook_open_read px n r) = hs_stated r" "hs_size_bytes (hook_open_read px n r) = hs_size_bytes r"
  by (auto simp: hook_stat_def hook_open_read_def Let_def split: sum.splits)

end
