(* ===== verification/Alr_Interposer.thy ===== *)
theory Alr_Interposer
  imports Alr_Procfs Alr_Hook
begin

text \<open>
  The in-process interposer, from \<^verbatim>\<open>alr_runtime/alr_interposer.cpp\<close> and its entry points in
  \<^verbatim>\<open>alr_runtime_interposer.cpp\<close>: which guest accesses are answered from the synthesized procfs views and
  which go to a translated host path, and the open/stat smoke test.
\<close>

record interposer_config =
  ic_rootfs_dir :: string
  ic_cwd :: string

datatype interposed_kind = RootfsPath | ProcSelfExe | ProcSelfStatus | ProcMounts

record interposed_resolution =
  ir_kind :: interposed_kind
  ir_virtualized :: bool
  ir_guest_path :: string
  ir_host_path :: string
  ir_synthetic_link_target :: string
  ir_synthetic_content :: string
  ir_report :: string

record interposed_path_result =
  ip_translation :: path_translation
  ip_opened :: bool
  ip_stated :: bool
  ip_open_errno :: int
  ip_stat_errno :: int
  ip_size_bytes :: int
  ip_first_bytes :: string
  ip_report :: string

definition is_all_digits :: "string \<Rightarrow> bool" where
  "is_all_digits value \<longleftrightarrow> value \<noteq> [] \<and> list_all (\<lambda>c. 48 \<le> byte_of c \<and> byte_of c \<le> 57) value"

definition matches_proc_suffix :: "string \<Rightarrow> string \<Rightarrow> bool" where
  "matches_proc_suffix normalized suffix =
     (if take 6 normalized \<noteq> ''/proc/'' then False
      else
        let rest = drop 6 normalized in
        case sv_find slash rest 0 of
          None \<Rightarrow> False
        | Some i \<Rightarrow>
            (let owner = sv_substr rest 0 i; tail = drop (i + 1) rest
             in if owner \<noteq> ''self'' \<and> \<not> is_all_digits owner then False else tail = suffix))"

definition build_interposer_report :: "interposed_path_result \<Rightarrow> string" where
  "build_interposer_report result = report_lines (
     [''ALR INTERPOSER LOAD: '' @ pass_fail (ip_opened result \<and> ip_stated result)] @
     line_if (\<not> ip_opened result) (''alr interposer open errno='' @ dec_int (ip_open_errno result)) @
     line_if (\<not> ip_stated result) (''alr interposer stat errno='' @ dec_int (ip_stat_errno result)) @
     [''ALR INTERPOSER MODE: translated-open-stat-smoke'',
      ''ALR INTERPOSER GUEST PATH: '' @ guest_path (ip_translation result),
      ''ALR INTERPOSER HOST PATH: '' @ host_path (ip_translation result),
      ''ALR INTERPOSER STAT PATH: '' @ pass_fail (ip_stated result),
      ''ALR INTERPOSER OPEN PATH: '' @ pass_fail (ip_opened result),
      ''ALR INTERPOSER FILE SIZE: '' @ dec_int (ip_size_bytes result),
      ''ALR INTERPOSER FIRST BYTES: '' @ ip_first_bytes result] @
     line_if (\<not> ip_stated result) (''ALR INTERPOSER STAT ERRNO: '' @ dec_int (ip_stat_errno result)) @
     line_if (\<not> ip_opened result) (''ALR INTERPOSER OPEN ERRNO: '' @ dec_int (ip_open_errno result)))"

definition interposer_stat :: "posix \<Rightarrow> interposed_path_result \<Rightarrow> interposed_path_result" where
  "interposer_stat px r =
     (case px_stat px (host_path (ip_translation r)) of
        Inr st \<Rightarrow> r\<lparr>ip_stated := True, ip_size_bytes := st_size st\<rparr>
      | Inl e \<Rightarrow> r\<lparr>ip_stat_errno := e\<rparr>)"

definition interposer_open_read :: "posix \<Rightarrow> nat \<Rightarrow> interposed_path_result \<Rightarrow> interposed_path_result" where
  "interposer_open_read px max_read_bytes r =
     (case px_open px (host_path (ip_translation r)) of
        Inr fd \<Rightarrow>
          (let r = r\<lparr>ip_opened := True\<rparr> in
           case px_read px fd (read_size max_read_bytes) of
             Inr bytes \<Rightarrow> r\<lparr>ip_first_bytes := sanitize_first_bytes bytes\<rparr>
           | Inl e \<Rightarrow> r)
      | Inl e \<Rightarrow> r\<lparr>ip_open_errno := e\<rparr>)"

definition run_interposer_path_smoke ::
  "posix \<Rightarrow> interposer_config \<Rightarrow> string \<Rightarrow> nat \<Rightarrow> interposed_path_result res" where
  "run_interposer_path_smoke px config path max_read_bytes =
     res_bind (translate_rootfs_path (ic_rootfs_dir config) (ic_cwd config) path) (\<lambda>t.
       let r = interposer_open_read px max_read_bytes (interposer_stat px
             \<lparr>ip_translation = t, ip_opened = False, ip_stated = False, ip_open_errno = 0, ip_stat_errno = 0,
              ip_size_bytes = -1, ip_first_bytes = [], ip_report = []\<rparr>)
       in Inr (r\<lparr>ip_report := build_interposer_report r\<rparr>))"

primrec interposed_kind_name :: "interposed_kind \<Rightarrow> string" where
  "interposed_kind_name RootfsPath = ''rootfs-path''"
| "interposed_kind_name ProcSelfExe = ''proc-self-exe''"
| "interposed_kind_name ProcSelfStatus = ''proc-self-status''"
| "interposed_kind_name ProcMounts = ''proc-mounts''"

definition interposed_kind_of :: "string \<Rightarrow> interposed_kind" where
  "interposed_kind_of path =
     (if matches_proc_suffix path ''exe'' then ProcSelfExe
      else if matches_proc_suffix path ''status'' then ProcSelfStatus
      else if path = ''/proc/mounts'' \<or> matches_proc_suffix path ''mounts'' then ProcMounts
      else RootfsPath)"

definition build_interpose_report :: "interposed_resolution \<Rightarrow> string" where
  "build_interpose_report result = report_lines (
     [''ALR INTERPOSE RESOLVE: '' @ pass_fail (ir_host_path result \<noteq> [] \<or>
         ir_synthetic_link_target result \<noteq> [] \<or> ir_synthetic_content result \<noteq> []),
      ''ALR INTERPOSE KIND: '' @ interposed_kind_name (ir_kind result),
      ''ALR INTERPOSE VIRTUALIZED: '' @ (if ir_virtualized result then ''PASS'' else ''SKIP''),
      ''alr interpose guest path='' @ ir_guest_path result,
      ''alr interpose host path='' @ (if ir_host_path result = [] then ''synthetic'' else ir_host_path result)] @
     line_if (ir_kind result = ProcSelfExe)
       (''alr interpose synthetic link target='' @ ir_synthetic_link_target result) @
     line_if (ir_kind result = ProcSelfStatus \<or> ir_kind result = ProcMounts)
       (''alr interpose synthetic content bytes='' @ dec_nat (length (ir_synthetic_content result))))"

definition resolve_interposed_access ::
  "posix \<Rightarrow> runtime_config \<Rightarrow> string \<Rightarrow> string \<Rightarrow> interposed_resolution res" where
  "resolve_interposed_access px config requested_program access_path =
     res_bind (normalize_guest_path access_path (rc_cwd config)) (\<lambda>g.
       let kind = interposed_kind_of g;
           plan = build_procfs_virtualization_plan px config requested_program default_procfs_host_facts;
           r = \<lparr>ir_kind = kind, ir_virtualized = False, ir_guest_path = g, ir_host_path = [],
                ir_synthetic_link_target = [], ir_synthetic_content = [], ir_report = []\<rparr>
       in res_bind
            (case kind of
               ProcSelfExe \<Rightarrow>
                 Inr (r\<lparr>ir_synthetic_link_target := se_guest_view (vp_self_exe plan),
                        ir_virtualized := se_valid (vp_self_exe plan)\<rparr>)
             | ProcSelfStatus \<Rightarrow>
                 Inr (r\<lparr>ir_synthetic_content := concat (map (\<lambda>l. l @ nl) (ss_lines (vp_self_status plan))),
                        ir_virtualized := ss_valid (vp_self_status plan)\<rparr>)
             | ProcMounts \<Rightarrow>
                 Inr (r\<lparr>ir_synthetic_content := render_guest_mounts (vp_mounts plan),
                        ir_virtualized := mv_valid (vp_mounts plan)\<rparr>)
             | RootfsPath \<Rightarrow>
                 res_bind (translate_rootfs_path (rc_rootfs_dir config) (rc_cwd config) access_path) (\<lambda>t.
                 Inr (r\<lparr>ir_host_path := host_path t, ir_virtualized := False\<rparr>)))
            (\<lambda>r. Inr (r\<lparr>ir_report := build_interpose_report r\<rparr>)))"

definition alr_runtime_interposer_smoke_report ::
  "posix \<Rightarrow> string \<Rightarrow> string option \<Rightarrow> string option \<Rightarrow> string option \<Rightarrow> string" where
  "alr_runtime_interposer_smoke_report px status rootfs_dir cwd path =
     (case run_interposer_path_smoke px
             \<lparr>ic_rootfs_dir = (case rootfs_dir of None \<Rightarrow> [] | Some s \<Rightarrow> s),
              ic_cwd = (case cwd of None \<Rightarrow> ''/'' | Some s \<Rightarrow> s)\<rparr>
             (case path of None \<Rightarrow> [] | Some s \<Rightarrow> s) 128 of
        Inr result \<Rightarrow> ip_report result
      | Inl exc \<Rightarrow> status @ nl @ ''ALR INTERPOSER SMOKE: FAIL'' @ nl @ ''ALR INTERPOSER ERROR: '' @ what exc)"

section \<open>Which paths are virtual\<close>

lemma matches_proc_suffix_iff:
  "matches_proc_suffix p suffix \<longleftrightarrow>
     (\<exists>owner. p = ''/proc/'' @ owner @ slash # suffix \<and> slash \<notin> set owner \<and>
        (owner = ''self'' \<or> is_all_digits owner))"
proof
  assume m: "matches_proc_suffix p suffix"
  then have "take 6 p = ''/proc/''" by (simp add: matches_proc_suffix_def split: if_splits)
  then have p: "p = ''/proc/'' @ drop 6 p" by (metis append_take_drop_id)
  from m have "slash \<in> set (drop 6 p)"
    by (auto simp: matches_proc_suffix_def Let_def sv_find_def split: if_splits)
  then obtain owner tl where d: "drop 6 p = owner @ slash # tl" and o: "slash \<notin> set owner"
    by (meson split_list_first)
  then have "sv_find slash (drop 6 p) 0 = Some (length owner)"
    by (simp add: sv_find_def takeWhile_append_delim)
  then have "(owner = ''self'' \<or> is_all_digits owner) \<and> tl = suffix"
    using m by (auto simp: matches_proc_suffix_def Let_def d sv_substr_def split: if_splits)
  with p d o show "\<exists>owner. p = ''/proc/'' @ owner @ slash # suffix \<and> slash \<notin> set owner \<and>
        (owner = ''self'' \<or> is_all_digits owner)" by metis
next
  assume "\<exists>owner. p = ''/proc/'' @ owner @ slash # suffix \<and> slash \<notin> set owner \<and>
        (owner = ''self'' \<or> is_all_digits owner)"
  then obtain owner where p: "p = ''/proc/'' @ owner @ slash # suffix" "slash \<notin> set owner"
    "owner = ''self'' \<or> is_all_digits owner" by blast
  then have "sv_find slash (owner @ slash # suffix) 0 = Some (length owner)"
    by (simp add: sv_find_def takeWhile_append_delim)
  with p show "matches_proc_suffix p suffix" by (auto simp: matches_proc_suffix_def Let_def sv_substr_def)
qed

lemma virtual_kernel_dir:
  assumes "interposed_kind_of p \<noteq> RootfsPath"
  shows "kernel_dir_path p"
proof -
  have "\<exists>r. p = ''/proc'' @ slash # r"
    using assms by (auto simp: interposed_kind_of_def matches_proc_suffix_iff split: if_splits)
  then show ?thesis by (auto simp: kernel_dir_path_def path_below_def)
qed

text \<open>The access decision of a validated configuration, by kind.\<close>

lemma interposed_access_cases:
  assumes c: "valid_runtime_config c" and a: "nul \<notin> set acc"
  defines "g \<equiv> resolve_against (rc_cwd c) acc"
  shows "\<exists>r. resolve_interposed_access px c prog acc = Inr r \<and> ir_kind r = interposed_kind_of g \<and>
    ir_guest_path r = g \<and>
    (interposed_kind_of g = RootfsPath \<longrightarrow> ir_host_path r = host_of c g \<and> \<not> ir_virtualized r \<and>
       ir_synthetic_content r = [] \<and> ir_synthetic_link_target r = []) \<and>
    (interposed_kind_of g \<noteq> RootfsPath \<longrightarrow> ir_host_path r = []) \<and>
    (interposed_kind_of g = ProcSelfExe \<longrightarrow> ir_synthetic_link_target r = resolve_guest_view px c prog) \<and>
    (interposed_kind_of g = ProcMounts \<longrightarrow> ir_virtualized r \<and>
       ir_synthetic_content r = render_guest_mounts (build_mounts_view c)) \<and>
    (interposed_kind_of g = ProcSelfStatus \<longrightarrow> ir_synthetic_content r =
       concat (map (\<lambda>l. l @ nl) (ss_lines (build_self_status_view px c
         (build_self_exe_view px c prog default_procfs_host_facts) default_procfs_host_facts))))"
proof -
  have n: "normalize_guest_path acc (rc_cwd c) = Inr g"
    using normalize_guest_ok [OF a valid_configD(2) [OF c]] by (simp add: g_def)
  have t: "translate_rootfs_path (rc_rootfs_dir c) (rc_cwd c) acc =
      Inr \<lparr>guest_path = g, host_path = host_of c g, escaped_rootfs = False\<rparr>"
    using valid_configD(1,2) [OF c] a guest_path_okD [of "rc_cwd c"]
    by (simp add: translate_rootfs_path_Inr host_path_ok_absolute g_def host_of_def)
  have p: "se_guest_view (vp_self_exe (build_procfs_virtualization_plan px c prog f)) = resolve_guest_view px c prog"
    "vp_mounts (build_procfs_virtualization_plan px c prog f) = build_mounts_view c"
    "vp_self_status (build_procfs_virtualization_plan px c prog f) =
       build_self_status_view px c (build_self_exe_view px c prog f) f" for f
    by (simp_all add: build_procfs_virtualization_plan_def build_self_exe_view_def Let_def)
  show ?thesis
    by (cases "interposed_kind_of g")
      (simp_all add: resolve_interposed_access_def n t Let_def p mounts_view_valid)
qed

section \<open>Properties of the interposer\<close>

text \<open>Synthesized procfs answers never name a host path, and everything else stays in the rootfs.  For a
  validated configuration and any access path without NUL bytes, the access is answered; it is virtual
  exactly when its normal form is \<^verbatim>\<open>/proc/mounts\<close> or \<^verbatim>\<open>/proc/self/...\<close> or \<^verbatim>\<open>/proc/<digits>/...\<close> with the last
  component \<^verbatim>\<open>exe\<close>, \<^verbatim>\<open>status\<close> or \<^verbatim>\<open>mounts\<close>, and then no host path is returned; otherwise the host path is
  below the rootfs, unless the path is in a kernel directory.\<close>

theorem interposed_access_contained:
  assumes "valid_runtime_config c" "nul \<notin> set acc"
  shows "\<exists>r. resolve_interposed_access px c prog acc = Inr r \<and>
     ir_guest_path r = resolve_against (rc_cwd c) acc \<and>
     (ir_kind r \<noteq> RootfsPath \<longleftrightarrow>
        ir_guest_path r = ''/proc/mounts'' \<or>
        (\<exists>owner leaf. ir_guest_path r = ''/proc/'' @ owner @ slash # leaf \<and>
           (owner = ''self'' \<or> is_all_digits owner) \<and> slash \<notin> set owner \<and>
           leaf \<in> {''exe'', ''status'', ''mounts''})) \<and>
     (ir_kind r \<noteq> RootfsPath \<longrightarrow> ir_host_path r = []) \<and>
     (ir_kind r = RootfsPath \<longrightarrow>
        path_below (ir_host_path r) (trim_trailing_slashes (rc_rootfs_dir c)) \<or>
        kernel_dir_path (ir_guest_path r) \<and> ir_host_path r = ir_guest_path r)"
proof -
  let ?g = "resolve_against (rc_cwd c) acc"
  obtain r where r: "resolve_interposed_access px c prog acc = Inr r" "ir_kind r = interposed_kind_of ?g"
    "ir_guest_path r = ?g" "interposed_kind_of ?g = RootfsPath \<longrightarrow> ir_host_path r = host_of c ?g"
    "interposed_kind_of ?g \<noteq> RootfsPath \<longrightarrow> ir_host_path r = []"
    using interposed_access_cases [OF assms, of px prog] by blast
  have k: "interposed_kind_of ?g \<noteq> RootfsPath \<longleftrightarrow> ?g = ''/proc/mounts'' \<or>
      (\<exists>owner leaf. ?g = ''/proc/'' @ owner @ slash # leaf \<and> (owner = ''self'' \<or> is_all_digits owner) \<and>
         slash \<notin> set owner \<and> leaf \<in> {''exe'', ''status'', ''mounts''})"
    unfolding interposed_kind_of_def matches_proc_suffix_iff by auto
  obtain s where "?g = slash # s"
    using normal_path_absolute [OF resolve_against_normal] is_guest_absolute_path_iff by blast
  from rewrite_spec_confined [OF this]
  have "path_below (host_of c ?g) (trim_trailing_slashes (rc_rootfs_dir c)) \<or>
      kernel_dir_path ?g \<and> host_of c ?g = ?g" by (simp add: host_of_def)
  with r k show ?thesis by auto
qed

theorem interposed_access_contained_witness:
  "\<exists>r. resolve_interposed_access sample_host sample_guest ''/bin/ls'' ''/proc/self/../42/exe'' = Inr r \<and>
       ir_kind r \<noteq> RootfsPath \<and> ir_host_path r = []"
proof -
  have g: "resolve_against (rc_cwd sample_guest) ''/proc/self/../42/exe'' = ''/proc/'' @ ''42'' @ slash # ''exe''"
    by code_simp
  have d: "is_all_digits ''42''" by code_simp
  have "nul \<notin> set ''/proc/self/../42/exe''" by simp
  from interposed_access_contained [OF sample_guest_ok(1) this, of sample_host "''/bin/ls''"] obtain r
    where r: "resolve_interposed_access sample_host sample_guest ''/bin/ls'' ''/proc/self/../42/exe'' = Inr r"
      "ir_guest_path r = ''/proc/'' @ ''42'' @ slash # ''exe''"
      "(\<exists>owner leaf. ir_guest_path r = ''/proc/'' @ owner @ slash # leaf \<and>
           (owner = ''self'' \<or> is_all_digits owner) \<and> slash \<notin> set owner \<and>
           leaf \<in> {''exe'', ''status'', ''mounts''}) \<Longrightarrow> ir_kind r \<noteq> RootfsPath"
      "ir_kind r \<noteq> RootfsPath \<longrightarrow> ir_host_path r = []"
    unfolding g by blast
  have "ir_kind r \<noteq> RootfsPath"
    using d by (intro r(3) exI [of _ "''42''"] exI [of _ "''exe''"]) (simp add: r(2))
  then show ?thesis using r by blast
qed

text \<open>The hook and the interposer smoke tests tell the same story.  On the same host, rootfs, working
  directory and path, both throw the same exception or both return, with the same translation, flags,
  size and first bytes; the bytes shown are printable ASCII; and the two verdicts differ only when the
  file opens but cannot be read, where the hook fails and the interposer passes.\<close>

theorem smoke_tests_agree:
  "case (run_path_hook_smoke px root cwd path n,
         run_interposer_path_smoke px \<lparr>ic_rootfs_dir = root, ic_cwd = cwd\<rparr> path n) of
     (Inl e, Inl e') \<Rightarrow> e = e'
   | (Inr h, Inr i) \<Rightarrow>
       hs_translation h = ip_translation i \<and> hs_opened h = ip_opened i \<and> hs_stated h = ip_stated i \<and>
       hs_size_bytes h = ip_size_bytes i \<and> hs_first_bytes h = ip_first_bytes i \<and>
       (\<forall>ch \<in> set (hs_first_bytes h). 0x20 \<le> (byte_of ch :: nat) \<and> byte_of ch < (0x7F :: nat)) \<and>
       ((hs_opened h \<and> hs_stated h \<and> hs_error h = []) \<longleftrightarrow>
          ip_opened i \<and> ip_stated i \<and>
          (\<forall>fd. px_open px (host_path (ip_translation i)) = Inr fd \<longrightarrow> \<not> isl (px_read px fd (read_size n))))
   | _ \<Rightarrow> False"
proof (cases "translate_rootfs_path root cwd path")
  case (Inl e)
  then show ?thesis by (simp add: run_path_hook_smoke_def run_interposer_path_smoke_def)
next
  case (Inr t)
  then show ?thesis
    using sanitize_byte_printable
    by (cases "px_stat px (host_path t)"; cases "px_open px (host_path t)")
      (simp_all add: run_path_hook_smoke_def run_interposer_path_smoke_def hook_stat_def hook_open_read_def
        interposer_stat_def interposer_open_read_def Let_def sanitize_first_bytes_def split: sum.split)
qed

theorem smoke_tests_agree_witness:
  "case (run_path_hook_smoke sample_host ''/d/r'' ''/'' ''/bin/run'' 4,
         run_interposer_path_smoke sample_host \<lparr>ic_rootfs_dir = ''/d/r'', ic_cwd = ''/''\<rparr> ''/bin/run'' 4) of
     (Inr h, Inr i) \<Rightarrow> hs_first_bytes h = ''#! /'' \<and> ip_first_bytes i = ''#! /'' | _ \<Rightarrow> False"
proof -
  have t: "translate_rootfs_path ''/d/r'' ''/'' ''/bin/run'' =
      Inr \<lparr>guest_path = ''/bin/run'', host_path = ''/d/r/bin/run'', escaped_rootfs = False\<rparr>" by code_simp
  have io: "px_stat sample_host ''/d/r/bin/run'' = Inr \<lparr>st_mode = 0x81ED, st_size = 18\<rparr>"
    "px_open sample_host ''/d/r/bin/run'' = Inr 3" "px_read sample_host 3 4 = Inr ''#! /''"
    by (simp_all add: sample_host_def plain_host_def)
  have s: "sanitize_first_bytes ''#! /'' = ''#! /''" by code_simp
  have "(case run_path_hook_smoke sample_host ''/d/r'' ''/'' ''/bin/run'' 4 of
      Inr h \<Rightarrow> hs_first_bytes h = ''#! /'' | Inl _ \<Rightarrow> False)"
    by (simp add: run_path_hook_smoke_def t hook_stat_def hook_open_read_def Let_def io s read_size_def
        del: char.inject)
  then show ?thesis
    using smoke_tests_agree [where px = sample_host and root = "''/d/r''" and cwd = "''/''" and path = "''/bin/run''" and n = 4]
    by (auto split: sum.splits)
qed

end
