(* ===== verification/Alr_Wx.thy ===== *)
theory Alr_Wx
  imports Alr_Procfs
begin

text \<open>
  The exec strategy under Android's write-xor-execute rules, from \<^verbatim>\<open>alr_runtime/alr_wx.cpp\<close>: the SELinux
  domain decides whether app data may be executed, and with it which load methods are ranked, which are
  rejected and whether the strategy is viable.
\<close>

datatype guest_load_method = DirectRootfsExecve | MemfdExecveat | AnonMmapLoader | ProotBaseline

datatype rejected_exec_method = RejectedDirectRootfsExecve | RejectedFileBackedMmapExec

record guest_load_candidate =
  lc_method :: guest_load_method
  lc_name :: string
  lc_requires_device_selinux_check :: bool
  lc_selinux_lean :: string
  lc_rationale :: string

record rejected_exec_candidate =
  rj_method :: rejected_exec_method
  rj_name :: string
  rj_reason :: string

record wx_safe_exec_strategy =
  wx_entrypoint :: string
  wx_target_host_path :: string
  wx_entrypoint_is_packaged :: bool
  wx_app_data_exec_allowed :: bool
  wx_selinux_domain :: string
  wx_rejects_direct_rootfs_exec :: bool
  wx_ranked_methods :: "guest_load_candidate list"
  wx_rejected_methods :: "rejected_exec_candidate list"
  wx_primary :: guest_load_method
  wx_proot_baseline_available :: bool
  wx_planned :: bool
  wx_error :: string
  wx_report :: string

definition path_is_inside :: "string \<Rightarrow> string \<Rightarrow> bool" where
  "path_is_inside path prefix =
     (if prefix = [] \<or> length path < length prefix then False
      else if take (length prefix) path \<noteq> prefix then False
      else length path = length prefix \<or> path ! length prefix = slash \<or> last prefix = slash)"

definition trim_trailing :: "(char \<Rightarrow> bool) \<Rightarrow> string \<Rightarrow> string" where
  "trim_trailing P s = rev (dropWhile P (rev s))"

text \<open>\<^verbatim>\<open>std::getline\<close> stops at the first newline; an unreadable file leaves the string empty.\<close>

definition current_selinux_domain :: "posix \<Rightarrow> string" where
  "current_selinux_domain px =
     (let s = (case px_attr_current px of None \<Rightarrow> [] | Some c \<Rightarrow> takeWhile (\<lambda>ch. ch \<noteq> CHR 0x0A) c)
      in trim_trailing (\<lambda>ch. ch = nul \<or> ch = CHR 0x0A) s)"

definition domain_allows_app_data_exec :: "string \<Rightarrow> bool" where
  "domain_allows_app_data_exec domain \<longleftrightarrow>
     sv_contains domain '':untrusted_app_27:'' \<or> sv_contains domain '':untrusted_app_25:'' \<or>
     sv_contains domain '':runas_app:''"

definition ranked_guest_load_methods :: "bool \<Rightarrow> guest_load_candidate list" where
  "ranked_guest_load_methods app_data_exec_allowed =
     (if app_data_exec_allowed then
        [\<lparr>lc_method = DirectRootfsExecve, lc_name = ''direct-rootfs-execve'',
          lc_requires_device_selinux_check = True,
          lc_selinux_lean = ''app_data_file:file execute_no_trans for this domain'',
          lc_rationale = ''the domain grants execute on app-private files, so the guest loader '' @
            ''can be exec'' @ [CHR 0x27] @ ''d directly -- no in-memory copy, no userspace loader''\<rparr>]
      else []) @
     [\<lparr>lc_method = AnonMmapLoader, lc_name = ''anon-mmap-loader'',
       lc_requires_device_selinux_check = True,
       lc_selinux_lean = ''execmem for the app domain'',
       lc_rationale = ''a userspace loader copies segments into anonymous RW->RX memory, so no '' @
         ''writable file ever carries execute permission''\<rparr>,
      \<lparr>lc_method = MemfdExecveat, lc_name = ''memfd-execveat'',
       lc_requires_device_selinux_check = True,
       lc_selinux_lean = ''execute on the anonymous memfd/tmpfs label for the app domain'',
       lc_rationale = ''copies the guest ELF into an anonymous in-memory fd; MEASURED DENIED '' @
         ''on this device (EACCES) so it ranks below the anon-mmap loader''\<rparr>,
      \<lparr>lc_method = ProotBaseline, lc_name = ''proot-baseline'',
       lc_requires_device_selinux_check = False,
       lc_selinux_lean = ''none (ptrace-mediated, no native exec page is created)'',
       lc_rationale = ''known-working fallback with the highest overhead; keeps a guaranteed path '' @
         ''when the native mechanisms are blocked by device policy''\<rparr>]"

definition rejected_exec_methods :: "string \<Rightarrow> bool \<Rightarrow> rejected_exec_candidate list" where
  "rejected_exec_methods target_host_path app_data_exec_allowed =
     (if app_data_exec_allowed then []
      else
        [\<lparr>rj_method = RejectedDirectRootfsExecve, rj_name = ''direct-rootfs-execve'',
          rj_reason = ''execve() needs execute permission on '' @ target_host_path @
            '' which is an app_data_file; this domain lacks execute_no_trans''\<rparr>,
         \<lparr>rj_method = RejectedFileBackedMmapExec, rj_name = ''file-backed-mmap-exec'',
          rj_reason = ''mmap PROT_EXEC of '' @ target_host_path @
            '' needs file execute permission, also denied in this domain''\<rparr>])"

definition fallback_chain :: "guest_load_candidate list \<Rightarrow> string" where
  "fallback_chain methods = join_with '','' (map lc_name methods)"

definition file_backed_mmap_rejected :: "rejected_exec_candidate list \<Rightarrow> bool" where
  "file_backed_mmap_rejected rejected = list_ex (\<lambda>c. rj_method c = RejectedFileBackedMmapExec) rejected"

primrec guest_load_method_name :: "guest_load_method \<Rightarrow> string" where
  "guest_load_method_name DirectRootfsExecve = ''direct-rootfs-execve''"
| "guest_load_method_name MemfdExecveat = ''memfd-execveat''"
| "guest_load_method_name AnonMmapLoader = ''anon-mmap-loader''"
| "guest_load_method_name ProotBaseline = ''proot-baseline''"

definition build_wx_report :: "wx_safe_exec_strategy \<Rightarrow> string" where
  "build_wx_report s = report_lines (
     [''ALR WX-SAFE EXEC STRATEGY: '' @ pass_fail (wx_planned s),
      ''ALR WX-SAFE ENTRYPOINT IS PACKAGED: '' @ pass_fail (wx_entrypoint_is_packaged s),
      ''alr wx selinux domain='' @ (if wx_selinux_domain s = [] then ''(unknown)'' else wx_selinux_domain s),
      ''alr wx app-data exec allowed='' @ (if wx_app_data_exec_allowed s then ''yes'' else ''no''),
      ''ALR WX-SAFE DIRECT ROOTFS EXEC REJECTED: '' @
        (if wx_app_data_exec_allowed s then ''N/A (this domain permits it)''
         else pass_fail (wx_rejects_direct_rootfs_exec s)),
      ''ALR WX-SAFE FILE-BACKED MMAP EXEC REJECTED: '' @
        (if wx_app_data_exec_allowed s then ''N/A (this domain permits file execute)''
         else pass_fail (file_backed_mmap_rejected (wx_rejected_methods s))),
      ''ALR WX-SAFE PROOT BASELINE AVAILABLE: '' @ pass_fail (wx_proot_baseline_available s),
      ''alr wx entrypoint='' @ wx_entrypoint s,
      ''alr wx target rootfs host path diagnostic='' @ wx_target_host_path s,
      ''alr wx primary method='' @ guest_load_method_name (wx_primary s),
      ''alr wx fallback chain='' @ fallback_chain (wx_ranked_methods s)] @
     map (\<lambda>i. let m = wx_ranked_methods s ! i in
        ''alr wx method['' @ dec_nat i @ '']='' @ lc_name m @ '' device-selinux-check='' @
        true_false (lc_requires_device_selinux_check m) @ '' leans-on='' @ lc_selinux_lean m)
       [0..<length (wx_ranked_methods s)] @
     map (\<lambda>i. let r = wx_rejected_methods s ! i in
        ''alr wx rejected['' @ dec_nat i @ '']='' @ rj_name r @ '' reason='' @ rj_reason r)
       [0..<length (wx_rejected_methods s)] @
     line_if (wx_error s \<noteq> []) (''alr wx error='' @ wx_error s))"

definition build_wx_safe_exec_strategy ::
  "posix \<Rightarrow> runtime_config \<Rightarrow> executable_resolution \<Rightarrow> wx_safe_exec_strategy" where
  "build_wx_safe_exec_strategy px config resolution =
     (let entrypoint = env_value config ''ALR_TRAMPOLINE_PATH'';
          target = host_path (er_translation resolution);
          packaged = (entrypoint \<noteq> [] \<and> \<not> path_is_inside entrypoint (rc_rootfs_dir config));
          domain = current_selinux_domain px;
          allowed = domain_allows_app_data_exec domain;
          ranked = ranked_guest_load_methods allowed;
          rejected = rejected_exec_methods target allowed;
          rejects = (\<not> allowed);
          primary = (if ranked = [] then ProotBaseline else lc_method (hd ranked));
          proot = list_ex (\<lambda>m. lc_method m = ProotBaseline) ranked;
          planned = (ranked \<noteq> [] \<and> primary \<noteq> ProotBaseline \<and> proot \<and>
            (allowed \<or> packaged \<and> rejects \<and> file_backed_mmap_rejected rejected));
          error =
            (if planned then []
             else if \<not> packaged then ''entrypoint is missing or inside the writable rootfs''
             else if primary = ProotBaseline then ''no native-exec primary method is available''
             else if \<not> proot then ''proot baseline fallback is unavailable''
             else []);
          s = \<lparr>wx_entrypoint = entrypoint, wx_target_host_path = target, wx_entrypoint_is_packaged = packaged,
               wx_app_data_exec_allowed = allowed, wx_selinux_domain = domain,
               wx_rejects_direct_rootfs_exec = rejects, wx_ranked_methods = ranked,
               wx_rejected_methods = rejected, wx_primary = primary, wx_proot_baseline_available = proot,
               wx_planned = planned, wx_error = error, wx_report = []\<rparr>
      in s\<lparr>wx_report := build_wx_report s\<rparr>)"

section \<open>Properties of the strategy\<close>

lemma domain_allows_fields:
  "domain_allows_app_data_exec d \<longleftrightarrow>
     (\<exists>ty \<in> set (butlast (tl (split_on (CHR '':'') d))).
        ty = ''untrusted_app_27'' \<or> ty = ''untrusted_app_25'' \<or> ty = ''runas_app'')"
  using sv_contains_field [of "CHR '':''" "''untrusted_app_27''" d]
    sv_contains_field [of "CHR '':''" "''untrusted_app_25''" d]
    sv_contains_field [of "CHR '':''" "''runas_app''" d]
  by (auto simp: domain_allows_app_data_exec_def)

text \<open>The tables by method only.\<close>

lemma ranked_methods:
  "map lc_method (ranked_guest_load_methods b) =
     (if b then [DirectRootfsExecve] else []) @ [AnonMmapLoader, MemfdExecveat, ProotBaseline]"
  by (simp only: ranked_guest_load_methods_def list.map append.simps if_distrib map_append
      guest_load_candidate.simps split: if_split) simp

lemma rejected_methods:
  "map rj_method (rejected_exec_methods p b) =
     (if b then [] else [RejectedDirectRootfsExecve, RejectedFileBackedMmapExec])"
  by (simp only: rejected_exec_methods_def list.map rejected_exec_candidate.simps split: if_split) simp

lemma ranked_facts:
  "ranked_guest_load_methods b \<noteq> []"
  "lc_method (hd (ranked_guest_load_methods b)) = (if b then DirectRootfsExecve else AnonMmapLoader)"
  "lc_method (last (ranked_guest_load_methods b)) = ProotBaseline"
  "list_ex (\<lambda>m. lc_method m = ProotBaseline) (ranked_guest_load_methods b)"
proof -
  let ?r = "ranked_guest_load_methods b"
  have "map lc_method ?r \<noteq> []" by (simp add: ranked_methods)
  then show n: "?r \<noteq> []" by auto
  have "lc_method (hd ?r) = hd (map lc_method ?r)" "lc_method (last ?r) = last (map lc_method ?r)"
    using n by (simp_all add: hd_map last_map)
  then show "lc_method (hd ?r) = (if b then DirectRootfsExecve else AnonMmapLoader)"
    "lc_method (last ?r) = ProotBaseline" by (simp_all add: ranked_methods)
  have "ProotBaseline \<in> set (map lc_method ?r)" unfolding ranked_methods by simp
  then show "list_ex (\<lambda>m. lc_method m = ProotBaseline) ?r"
    unfolding list_ex_iff set_map image_iff by metis
qed

lemma mmap_rejected: "file_backed_mmap_rejected (rejected_exec_methods p b) \<longleftrightarrow> \<not> b"
proof -
  have m: "file_backed_mmap_rejected xs \<longleftrightarrow> RejectedFileBackedMmapExec \<in> set (map rj_method xs)" for xs
    unfolding file_backed_mmap_rejected_def list_ex_iff set_map image_iff by metis
  show ?thesis unfolding m rejected_methods by simp
qed

lemma path_is_inside_iff:
  "last prefix \<noteq> slash \<Longrightarrow> path_is_inside p prefix \<longleftrightarrow> prefix \<noteq> [] \<and> path_below p prefix"
proof -
  assume l: "last prefix \<noteq> slash"
  have "take (length prefix) p = prefix \<and> length prefix < length p \<and> p ! length prefix = slash \<longleftrightarrow>
      (\<exists>r. p = prefix @ slash # r)" (is "?l \<longleftrightarrow> ?r")
  proof
    assume ?l
    then show ?r using id_take_nth_drop [of "length prefix" p] by auto
  qed auto
  with l show ?thesis unfolding path_is_inside_def path_below_def by (auto simp: not_less)
qed

text \<open>The strategy follows the SELinux domain that the kernel reports.  Direct execution of rootfs files
  is the primary method, and nothing is rejected, exactly when an inner field of the context is one of the
  three exempt domains; in every other domain direct and file-backed execution are rejected and the
  anonymous loader is primary.  PRoot is always ranked and always last.  The strategy is planned exactly
  when the domain is exempt or the entry point is set and outside the rootfs, and it has an error exactly
  when it is not planned.\<close>

theorem wx_strategy_follows_domain:
  assumes "s = build_wx_safe_exec_strategy px config resolution"
  defines "exempt \<equiv> \<exists>ty \<in> set (butlast (tl (split_on (CHR '':'') (wx_selinux_domain s)))).
        ty = ''untrusted_app_27'' \<or> ty = ''untrusted_app_25'' \<or> ty = ''runas_app''"
  shows "(wx_primary s = (if exempt then DirectRootfsExecve else AnonMmapLoader)) \<and>
         (map rj_method (wx_rejected_methods s) =
            (if exempt then [] else [RejectedDirectRootfsExecve, RejectedFileBackedMmapExec])) \<and>
         lc_method (last (wx_ranked_methods s)) = ProotBaseline \<and>
         distinct (map lc_method (wx_ranked_methods s)) \<and>
         (wx_planned s \<longleftrightarrow> exempt \<or>
            wx_entrypoint s \<noteq> [] \<and> \<not> path_is_inside (wx_entrypoint s) (rc_rootfs_dir config)) \<and>
         (wx_error s = [] \<longleftrightarrow> wx_planned s)"
proof -
  have "wx_app_data_exec_allowed s = domain_allows_app_data_exec (wx_selinux_domain s)"
    by (simp add: assms(1) build_wx_safe_exec_strategy_def Let_def)
  then have a: "wx_app_data_exec_allowed s \<longleftrightarrow> exempt" by (simp add: domain_allows_fields exempt_def)
  show ?thesis
    unfolding a [symmetric]
    by (simp add: assms(1) build_wx_safe_exec_strategy_def Let_def ranked_methods rejected_methods
        ranked_facts mmap_rejected)
qed

theorem wx_strategy_follows_domain_witness:
  "wx_primary (build_wx_safe_exec_strategy (plain_host []) sample_guest default_executable_resolution) =
     DirectRootfsExecve"
proof -
  let ?s = "build_wx_safe_exec_strategy (plain_host []) sample_guest default_executable_resolution"
  have "wx_selinux_domain ?s = current_selinux_domain (plain_host [])"
    by (simp add: build_wx_safe_exec_strategy_def Let_def)
  also have "\<dots> = ''u:r:untrusted_app_27:s0''" by code_simp
  finally have d: "wx_selinux_domain ?s = ''u:r:untrusted_app_27:s0''" .
  have "split_on (CHR '':'') ''u:r:untrusted_app_27:s0'' = [''u'', ''r'', ''untrusted_app_27'', ''s0'']" by code_simp
  then show ?thesis using wx_strategy_follows_domain [OF refl, of "plain_host []" sample_guest default_executable_resolution]
    unfolding d by simp
qed

end
