(* ===== verification/Alr_Words.thy ===== *)
theory Alr_Words
  imports Alr_Prelude
begin

text \<open>
  Machine integers and rings of bytes: the names of the unsigned types the sources use, powers of two and
  their masks, and the two views of a ring that the transport lemmas share.  \<open>window d a n\<close> reads
  \<open>n\<close> slots of the ring \<open>d\<close> from the absolute position \<open>a\<close>, and
  \<open>poke d a xs\<close> writes \<open>xs\<close> from there; positions are taken modulo the length of the ring.
\<close>

unbundle bit_operations_syntax

type_synonym byte = "8 word"
type_synonym u16 = "16 word"
type_synonym u32 = "32 word"
type_synonym u64 = "64 word"

section \<open>Powers of two and masks\<close>

lemma and_pred_nat: "0 < n \<Longrightarrow> n AND (n - 1) = 0 \<Longrightarrow> \<exists>k. n = 2 ^ k" for n :: nat
proof (induction n rule: less_induct)
  case (less n)
  show ?case
  proof (cases "even n")
    case True
    then obtain m where m: "n = 2 * m" by auto
    with less.prems have "0 < m" by simp
    have "n - 1 = 2 * (m - 1) + 1" using m \<open>0 < m\<close> by simp
    with m have "n AND (n - 1) = 2 * (m AND (m - 1))" by (simp add: and_nat_rec [of "2 * m"])
    with less.prems less.IH [of m] m \<open>0 < m\<close> obtain k where "m = 2 ^ k" by auto
    with m have "n = 2 ^ Suc k" by simp
    then show ?thesis by blast
  next
    case False
    then obtain m where m: "n = 2 * m + 1" by (elim oddE)
    then have "n AND (n - 1) = 2 * m" by (simp add: and_nat_rec [of "Suc (2 * m)"])
    with less.prems m have "n = 2 ^ 0" by simp
    then show ?thesis by blast
  qed
qed

lemma power_of_two_word:
  fixes w :: "'a::len word"
  assumes "w \<noteq> 0" "w AND (w - 1) = 0"
  shows "\<exists>k < LENGTH('a). unat w = 2 ^ k"
proof -
  have "unat (w AND (w - 1)) = unat w AND unat (w - 1)" by (simp add: unsigned_and_eq)
  moreover have "unat (w - 1) = unat w - 1" using assms(1) by (simp add: unat_minus_one)
  ultimately have "unat w AND (unat w - 1) = 0" using assms(2) by simp
  moreover have "0 < unat w" using assms(1) by (simp add: unat_gt_0)
  ultimately obtain k where k: "unat w = 2 ^ k" using and_pred_nat by blast
  moreover have "k < LENGTH('a)" using k unsigned_less [where 'a = nat, of w] by simp
  ultimately show ?thesis by blast
qed

lemma unat_ucast_64 [simp]: "unat (ucast m :: 64 word) = unat m" for m :: "32 word"
proof -
  have "unat m < 2 ^ 32" using unsigned_less [where 'a = nat, of m] by simp
  then show ?thesis by (simp add: unsigned_ucast_eq take_bit_nat_eq_self)
qed

lemma and_pow2_minus_one:
  fixes x :: "64 word" and m :: "32 word"
  assumes "unat m = 2 ^ k" "k < 32"
  shows "unat (x AND ucast (m - 1)) = unat x mod 2 ^ k"
proof -
  have "m \<noteq> 0" using assms(1) by auto
  then have "unat (m - 1) = 2 ^ k - 1" using assms(1) by (simp add: unat_minus_one)
  then have "unat (ucast (m - 1) :: 64 word) = 2 ^ k - 1" by simp
  then have "unat (x AND ucast (m - 1)) = unat x AND (2 ^ k - 1)" by (simp add: unsigned_and_eq)
  also have "\<dots> = take_bit k (unat x)" by (simp only: take_bit_eq_mask mask_eq_exp_minus_1)
  finally show ?thesis by (simp add: take_bit_eq_mod)
qed

lemma unat_ucast_32: "unat x < 2 ^ 32 \<Longrightarrow> unat (ucast x :: u32) = unat x" for x :: u64
  by (simp add: unsigned_ucast_eq take_bit_nat_eq_self)

lemma unat_diff_mod:
  fixes h t :: u64
  assumes "L dvd 2 ^ 64"
  shows "(unat t + unat (h - t)) mod L = unat h mod L"
proof -
  have "unat h = unat (t + (h - t))" by simp
  also have "\<dots> = (unat t + unat (h - t)) mod 2 ^ 64" by (simp only: unat_word_ariths) simp
  finally show ?thesis using assms by (simp add: mod_mod_cancel)
qed

section \<open>Rings\<close>

definition window :: "'a list \<Rightarrow> nat \<Rightarrow> nat \<Rightarrow> 'a list" where
  "window d a n = map (\<lambda>i. d ! ((a + i) mod length d)) [0..<n]"

primrec poke :: "'a list \<Rightarrow> nat \<Rightarrow> 'a list \<Rightarrow> 'a list" where
  "poke d a [] = d"
| "poke d a (x # xs) = poke (d[a mod length d := x]) (Suc a) xs"

lemma length_window [simp]: "length (window d a n) = n"
  by (simp add: window_def)

lemma window_0 [simp]: "window d a 0 = []"
  by (simp add: window_def)

lemma nth_window: "i < n \<Longrightarrow> window d a n ! i = d ! ((a + i) mod length d)"
  by (simp add: window_def)

lemma window_add: "window d a (m + n) = window d a m @ window d (a + m) n"
  by (rule nth_equalityI) (auto simp: nth_window nth_append)

lemma take_window: "take m (window d a n) = window d a (min m n)"
  by (rule nth_equalityI) (auto simp: nth_window)

lemma drop_window: "drop m (window d a n) = window d (a + m) (n - m)"
  by (rule nth_equalityI) (auto simp: nth_window add.assoc)

lemma window_cong_mod: "a mod length d = b mod length d \<Longrightarrow> window d a n = window d b n"
  unfolding window_def by (simp only: mod_add_left_eq [of a, symmetric] mod_add_left_eq [of b, symmetric])

lemma window_slice:
  assumes "a mod length d + n \<le> length d"
  shows "window d a n = take n (drop (a mod length d) d)"
proof (rule nth_equalityI)
  fix i assume "i < length (window d a n)"
  then have i: "i < n" by simp
  then have "a mod length d + i < length d" using assms by simp
  then have "(a + i) mod length d = a mod length d + i"
    using mod_add_left_eq [of a "length d" i] by simp
  then show "window d a n ! i = take n (drop (a mod length d) d) ! i" using i assms by (simp add: nth_window)
qed (use assms in simp)

lemma length_poke [simp]: "length (poke d a xs) = length d"
  by (induction xs arbitrary: d a) simp_all

lemma poke_append: "poke d a (xs @ ys) = poke (poke d a xs) (a + length xs) ys"
  by (induction xs arbitrary: d a) simp_all

lemma poke_cong_mod: "a mod length d = b mod length d \<Longrightarrow> poke d a xs = poke d b xs"
proof (induction xs arbitrary: d a b)
  case (Cons x xs)
  have "Suc a mod length d = Suc b mod length d"
    using Cons.prems by (simp only: mod_Suc)
  then have "poke (d[a mod length d := x]) (Suc a) xs = poke (d[a mod length d := x]) (Suc b) xs"
    by (intro Cons.IH) simp
  then show ?case by (simp only: poke.simps Cons.prems)
qed simp

lemma poke_slice:
  "a mod length d + length xs \<le> length d \<Longrightarrow>
   poke d a xs = take (a mod length d) d @ xs @ drop (a mod length d + length xs) d"
proof (induction xs arbitrary: d a)
  case (Cons x xs)
  let ?L = "length d" and ?o = "a mod length d"
  have o: "?o < ?L" using Cons.prems by simp
  show ?case
  proof (cases xs)
    case Nil
    then show ?thesis using o by (simp add: upd_conv_take_nth_drop)
  next
    case (Cons y ys)
    with Cons.prems have "Suc ?o < ?L" by simp
    then have s: "Suc a mod ?L = Suc ?o" by (simp add: mod_Suc)
    have "take (Suc ?o) (d[?o := x]) = take ?o d @ [x]" using o by (simp add: take_Suc_conv_app_nth)
    then show ?thesis using Cons.IH [of "Suc a" "d[?o := x]"] Cons.prems o s by simp
  qed
qed simp

lemma poke_other: "(\<And>k. k < length xs \<Longrightarrow> j \<noteq> (a + k) mod length d) \<Longrightarrow> poke d a xs ! j = d ! j"
proof (induction xs arbitrary: d a)
  case (Cons x xs)
  have "j \<noteq> a mod length d" using Cons.prems [of 0] by simp
  moreover have "\<And>k. k < length xs \<Longrightarrow> j \<noteq> (Suc a + k) mod length d" using Cons.prems [of "Suc _"] by simp
  ultimately show ?case using Cons.IH [of "Suc a" "d[a mod length d := x]"] by simp
qed simp

lemma mod_distinct: "j < k \<Longrightarrow> k < j + L \<Longrightarrow> j mod L \<noteq> k mod (L :: nat)"
proof
  assume "j < k" "k < j + L" "j mod L = k mod L"
  then have "L dvd k - j" by (metis less_imp_le mod_eq_dvd_iff_nat)
  with \<open>j < k\<close> \<open>k < j + L\<close> show False by (auto dest: dvd_imp_le)
qed

lemma window_poke_other:
  assumes "b + n \<le> a" "a + length xs \<le> b + length d"
  shows "window (poke d a xs) b n = window d b n"
proof (rule nth_equalityI)
  fix i assume "i < length (window (poke d a xs) b n)"
  then have i: "i < n" by simp
  have "(b + i) mod length d \<noteq> (a + k) mod length d" if "k < length xs" for k
    using assms i that by (intro mod_distinct) auto
  then show "window (poke d a xs) b n ! i = window d b n ! i" using i by (simp add: nth_window poke_other)
qed simp

lemma window_poke_same: "length xs \<le> length d \<Longrightarrow> window (poke d a xs) a (length xs) = xs"
proof (induction xs arbitrary: d a)
  case (Cons x xs)
  let ?d = "d[a mod length d := x]"
  have pos: "a mod length d < length d" using Cons.prems by (intro mod_less_divisor) auto
  have "window (poke ?d (Suc a) xs) a 1 = window ?d a 1"
    using Cons.prems by (intro window_poke_other) auto
  then have "window (poke ?d (Suc a) xs) a 1 = [x]" using pos by (simp add: window_def)
  moreover have "window (poke ?d (Suc a) xs) (Suc a) (length xs) = xs" using Cons.prems by (intro Cons.IH) simp
  ultimately show ?case using window_add [of "poke ?d (Suc a) xs" a 1 "length xs"] by simp
qed simp

section \<open>Little-endian scalars\<close>

definition le32 :: "u32 \<Rightarrow> byte list" where
  "le32 w = [ucast w, ucast (drop_bit 8 w), ucast (drop_bit 16 w), ucast (drop_bit 24 w)]"

fun of_le32 :: "byte list \<Rightarrow> u32" where
  "of_le32 [a, b, c, d] =
     ucast a OR push_bit 8 (ucast b) OR push_bit 16 (ucast c) OR push_bit 24 (ucast d)"
| "of_le32 _ = 0"

lemma length_le32 [simp]: "length (le32 w) = 4"
  by (simp add: le32_def)

lemma of_le32_le32 [simp]: "of_le32 (le32 w) = w"
proof (rule bit_word_eqI)
  fix n assume n: "n < LENGTH(32)"
  consider "n < 8" | "8 \<le> n" "n < 16" | "16 \<le> n" "n < 24" | "24 \<le> n" using n by linarith
  then show "bit (of_le32 (le32 w)) n = bit w n"
    using n by cases (auto simp: le32_def bit_or_iff bit_push_bit_iff bit_ucast_iff bit_drop_bit_eq)
qed

definition le16 :: "u16 \<Rightarrow> byte list" where
  "le16 w = [ucast w, ucast (drop_bit 8 w)]"

fun of_le16 :: "byte list \<Rightarrow> u16" where
  "of_le16 [a, b] = ucast a OR push_bit 8 (ucast b)"
| "of_le16 _ = 0"

lemma length_le16 [simp]: "length (le16 w) = 2"
  by (simp add: le16_def)

lemma of_le16_le16 [simp]: "of_le16 (le16 w) = w"
proof (rule bit_word_eqI)
  fix n assume n: "n < LENGTH(16)"
  consider "n < 8" | "8 \<le> n" using n by linarith
  then show "bit (of_le16 (le16 w)) n = bit w n"
    using n by cases (auto simp: le16_def bit_or_iff bit_push_bit_iff bit_ucast_iff bit_drop_bit_eq)
qed

definition le64 :: "u64 \<Rightarrow> byte list" where
  "le64 w = le32 (ucast w) @ le32 (ucast (drop_bit 32 w))"

definition of_le64 :: "byte list \<Rightarrow> u64" where
  "of_le64 bs = ucast (of_le32 (take 4 bs)) OR push_bit 32 (ucast (of_le32 (drop 4 bs)))"

lemma length_le64 [simp]: "length (le64 w) = 8"
  by (simp add: le64_def)

lemma of_le64_le64 [simp]: "of_le64 (le64 w) = w"
proof (rule bit_word_eqI)
  fix n assume n: "n < LENGTH(64)"
  consider "n < 32" | "32 \<le> n" using n by linarith
  then show "bit (of_le64 (le64 w)) n = bit w n"
    using n by cases (auto simp: of_le64_def le64_def bit_or_iff bit_push_bit_iff bit_ucast_iff bit_drop_bit_eq)
qed

end
