(* ===== verification/Gpu_Ring.thy ===== *)
theory Gpu_Ring
  imports Alr_Words
begin

text \<open>
  The GPU command ring: the shared region, the C++ producer and consumer of \<^verbatim>\<open>alr_gpu/alr_gpu_ring.hpp\<close>
  and the guest's C producer of \<^verbatim>\<open>alr_gpu/guest_shim/alr_gpu_ring_c.h\<close>.  Cursors are 64-bit words that
  may wrap, \<^verbatim>\<open>ring_bytes\<close> and the lengths are 32-bit words.  The ring refines a bounded queue of bytes;
  the contract is a locale, interpreted on the C++ and on the C producer.
\<close>

unbundle bit_operations_syntax

section \<open>The shared region\<close>

definition kRingIdentMax :: nat where "kRingIdentMax = 64"

definition kMagic :: u32 where "kMagic = 0x47524C41"

definition kVersion :: u32 where "kVersion = 1"

record ring_header =
  rh_magic :: u32
  rh_version :: u32
  rh_ring_bytes :: u32
  rh_pad :: u32
  rh_head :: u64
  rh_tail :: u64
  rh_reply_seq :: u32
  rh_req_seq :: u32
  rh_closed :: u32
  rh_pad2 :: u32
  rh_identity_ready :: u32
  rh_identity_pad :: u32
  rh_renderer :: string
  rh_vendor :: string
  rh_gl_version :: string

text \<open>A mapped region is the header followed by the data bytes.\<close>

record ring_region = ring_header +
  rr_data :: "byte list"

definition ring_region_size :: "u32 \<Rightarrow> nat" where
  "ring_region_size ring_bytes = (56 + 3 * kRingIdentMax) + unat ring_bytes"

fun copy_ident :: "nat \<Rightarrow> string \<Rightarrow> string \<Rightarrow> string" where
  "copy_ident n dst [] = dst[n := nul]"
| "copy_ident n dst (c # cs) =
     (if n < kRingIdentMax - 1 \<and> c \<noteq> nul then copy_ident (Suc n) (dst[n := c]) cs else dst[n := nul])"

definition copy_ident_ptr :: "string \<Rightarrow> string option \<Rightarrow> string" where
  "copy_ident_ptr dst src = (case src of None \<Rightarrow> dst[0 := nul] | Some s \<Rightarrow> copy_ident 0 dst s)"

definition ring_set_identity ::
  "ring_region option \<Rightarrow> string option \<Rightarrow> string option \<Rightarrow> string option \<Rightarrow> ring_region option" where
  "ring_set_identity region renderer vendor version =
     map_option (\<lambda>h. h\<lparr>rh_renderer := copy_ident_ptr (rh_renderer h) renderer,
                       rh_vendor := copy_ident_ptr (rh_vendor h) vendor,
                       rh_gl_version := copy_ident_ptr (rh_gl_version h) version,
                       rh_identity_ready := 1\<rparr>) region"

definition pow2 :: "u32 \<Rightarrow> bool" where
  "pow2 n \<longleftrightarrow> n \<noteq> 0 \<and> n AND (n - 1) = 0"

definition ring_init :: "ring_region option \<Rightarrow> u32 \<Rightarrow> bool \<times> ring_region option" where
  "ring_init region ring_bytes =
     (case region of
        None \<Rightarrow> (False, None)
      | Some h \<Rightarrow>
          if \<not> pow2 ring_bytes then (False, Some h)
          else (True, Some (h\<lparr>rh_magic := kMagic, rh_version := kVersion, rh_ring_bytes := ring_bytes,
             rh_pad := 0, rh_head := 0, rh_tail := 0, rh_reply_seq := 0, rh_req_seq := 0, rh_closed := 0,
             rh_pad2 := 0, rh_identity_ready := 0, rh_identity_pad := 0,
             rh_renderer := (rh_renderer h)[0 := nul], rh_vendor := (rh_vendor h)[0 := nul],
             rh_gl_version := (rh_gl_version h)[0 := nul]\<rparr>)))"

definition ring_valid :: "ring_region option \<Rightarrow> bool" where
  "ring_valid region =
     (case region of
        None \<Rightarrow> False
      | Some h \<Rightarrow> rh_magic h = kMagic \<and> rh_version h = kVersion \<and> pow2 (rh_ring_bytes h))"

section \<open>Copies between the data bytes and a caller's buffer\<close>

text \<open>\<^verbatim>\<open>memcpy\<close> into and out of the data region; an access outside the mapped bytes is the value
  \<^term>\<open>None\<close>, so that a result \<^term>\<open>Some r\<close> says that every access was inside.\<close>

definition memcpy_to :: "byte list \<Rightarrow> nat \<Rightarrow> byte list \<Rightarrow> nat \<Rightarrow> byte list option" where
  "memcpy_to d off src n =
     (if off + n \<le> length d \<and> n \<le> length src then Some (take off d @ take n src @ drop (off + n) d) else None)"

definition memcpy_from :: "byte list \<Rightarrow> nat \<Rightarrow> nat \<Rightarrow> byte list option" where
  "memcpy_from d off n = (if off + n \<le> length d then Some (take n (drop off d)) else None)"

section \<open>Producer\<close>

definition ring_mask :: "ring_region option \<Rightarrow> u32" where
  "ring_mask region = (case region of None \<Rightarrow> 0 | Some h \<Rightarrow> rh_ring_bytes h - 1)"

definition producer_valid :: "ring_region option \<Rightarrow> bool" where
  "producer_valid region \<longleftrightarrow> region \<noteq> None \<and> ring_valid region"

definition free_bytes :: "ring_region \<Rightarrow> u64" where
  "free_bytes h = ucast (rh_ring_bytes h - 1) - (rh_head h - rh_tail h)"

definition append_copy :: "u32 \<Rightarrow> ring_region \<Rightarrow> byte list \<Rightarrow> u32 \<Rightarrow> ring_region option" where
  "append_copy msk h src len =
     (let head = rh_head h;
          off = (ucast (head AND ucast msk) :: u32);
          first = (if off + len \<le> rh_ring_bytes h then len else rh_ring_bytes h - off)
      in case memcpy_to (rr_data h) (unat off) src (unat first) of
           None \<Rightarrow> None
         | Some d \<Rightarrow>
             case (if first < len then memcpy_to d 0 (drop (unat first) src) (unat (len - first)) else Some d) of
               None \<Rightarrow> None
             | Some d' \<Rightarrow> Some (h\<lparr>rr_data := d', rh_head := head + ucast len\<rparr>))"

definition producer_append ::
  "u32 \<Rightarrow> ring_region option \<Rightarrow> byte list \<Rightarrow> u32 \<Rightarrow> (bool \<times> ring_region option) option" where
  "producer_append msk region src len =
     (if \<not> producer_valid region \<or> len = 0 then Some (len = 0, region)
      else case region of
          None \<Rightarrow> None
        | Some h \<Rightarrow>
            if free_bytes h < ucast len then Some (False, Some h)
            else map_option (\<lambda>h'. (True, Some h')) (append_copy msk h src len))"

text \<open>\<^verbatim>\<open>flush_and_wait\<close> reads what the other side stored meanwhile: \<open>seen i\<close> is the pair of
  \<^verbatim>\<open>reply_seq\<close> and \<^verbatim>\<open>closed\<close> at the i-th turn of the loop.  The result of the loop is the turn at
  which it stopped; the value returned is loaded once more after it.\<close>

function flush_spin :: "(nat \<Rightarrow> u32 \<times> u32) \<Rightarrow> u32 \<Rightarrow> u32 \<Rightarrow> u32 \<Rightarrow> nat" where
  "flush_spin seen want spin i =
     (if i < spin then
        if want \<le> fst (seen (unat i)) then unat i
        else if snd (seen (unat i)) \<noteq> 0 then unat i
        else flush_spin seen want spin (i + 1)
      else unat i)"
  by pat_completeness auto
termination
proof (relation "measure (\<lambda>(_, _, spin, i). unat spin - unat i)")
  fix seen :: "nat \<Rightarrow> u32 \<times> u32" and want spin i :: u32
  assume "i < spin"
  then have "unat i < unat spin" by (simp add: word_less_nat_alt)
  moreover have "unat (i + 1) = unat i + 1"
  proof -
    have "unat spin < 2 ^ 32" using unsigned_less [where 'a = nat, of spin] by simp
    with \<open>unat i < unat spin\<close> show ?thesis by (simp add: unat_word_ariths)
  qed
  ultimately show "((seen, want, spin, i + 1), seen, want, spin, i) \<in> measure (\<lambda>(_, _, spin, i). unat spin - unat i)"
    by simp
qed simp

declare flush_spin.simps [simp del]

definition producer_flush_and_wait :: "(nat \<Rightarrow> u32 \<times> u32) \<Rightarrow> u32 \<Rightarrow> ring_region \<Rightarrow> u32 \<times> ring_region" where
  "producer_flush_and_wait seen spin h =
     (let want = rh_req_seq h + 1;
          i = flush_spin seen want spin 0
      in (fst (seen (Suc i)), h\<lparr>rh_req_seq := rh_req_seq h + 1\<rparr>))"

definition producer_close :: "ring_region option \<Rightarrow> ring_region option" where
  "producer_close region = map_option (\<lambda>h. h\<lparr>rh_closed := 1\<rparr>) region"

section \<open>Consumer\<close>

definition available :: "ring_region \<Rightarrow> u64" where
  "available h = rh_head h - rh_tail h"

definition snapshot :: "u32 \<Rightarrow> ring_region \<Rightarrow> u32 \<Rightarrow> byte list option" where
  "snapshot msk h out_cap =
     (let avail = available h;
          n = (if avail < ucast out_cap then ucast avail else out_cap)
      in if n = 0 then Some []
         else
           let off = (ucast (rh_tail h AND ucast msk) :: u32);
               first = (if off + n \<le> rh_ring_bytes h then n else rh_ring_bytes h - off)
           in case memcpy_from (rr_data h) (unat off) (unat first) of
                None \<Rightarrow> None
              | Some a \<Rightarrow>
                  if first < n then map_option (\<lambda>b. a @ b) (memcpy_from (rr_data h) 0 (unat (n - first)))
                  else Some a)"

definition advance :: "u32 \<Rightarrow> ring_region \<Rightarrow> ring_region" where
  "advance n h = h\<lparr>rh_tail := rh_tail h + ucast n\<rparr>"

definition post_reply :: "ring_region \<Rightarrow> ring_region" where
  "post_reply h = h\<lparr>rh_reply_seq := rh_req_seq h\<rparr>"

definition producer_closed :: "ring_region \<Rightarrow> bool" where
  "producer_closed h \<longleftrightarrow> rh_closed h \<noteq> 0"

section \<open>The guest's C producer\<close>

definition ALR_RING_MAGIC :: u32 where "ALR_RING_MAGIC = 0x47524C41"

definition ALR_RING_VERSION :: u32 where "ALR_RING_VERSION = 1"

definition alr_ring_region_size :: "u32 \<Rightarrow> nat" where
  "alr_ring_region_size ring_bytes = (56 + 3 * 64) + unat ring_bytes"

definition alr_ring_valid :: "ring_region option \<Rightarrow> bool" where
  "alr_ring_valid region =
     (case region of
        None \<Rightarrow> False
      | Some h \<Rightarrow> rh_magic h = ALR_RING_MAGIC \<and> rh_version h = ALR_RING_VERSION \<and>
          rh_ring_bytes h \<noteq> 0 \<and> rh_ring_bytes h AND (rh_ring_bytes h - 1) = 0)"

text \<open>The C producer keeps whether its header pointer is set and its msk; the region it points to is shared.\<close>

record alr_ring_producer =
  arp_h :: bool
  arp_mask :: u32

definition alr_ring_producer_attach :: "ring_region option \<Rightarrow> int \<times> alr_ring_producer" where
  "alr_ring_producer_attach region =
     (case region of
        Some h \<Rightarrow> if alr_ring_valid region then (0, \<lparr>arp_h = True, arp_mask = rh_ring_bytes h - 1\<rparr>)
                  else (-1, \<lparr>arp_h = False, arp_mask = 0\<rparr>)
      | None \<Rightarrow> (-1, \<lparr>arp_h = False, arp_mask = 0\<rparr>))"

definition alr_ring_producer_valid :: "alr_ring_producer option \<Rightarrow> ring_region \<Rightarrow> bool" where
  "alr_ring_producer_valid p h =
     (case p of None \<Rightarrow> False | Some p \<Rightarrow> arp_h p \<and> alr_ring_valid (Some h))"

datatype alr_ring_ident = ALR_IDENT_RENDERER | ALR_IDENT_VENDOR | ALR_IDENT_VERSION

text \<open>The C string that starts at a character array.\<close>

definition c_string :: "string \<Rightarrow> string" where
  "c_string buf = takeWhile (\<lambda>c. c \<noteq> nul) buf"

definition alr_ring_identity :: "alr_ring_producer option \<Rightarrow> ring_region \<Rightarrow> alr_ring_ident \<Rightarrow> string option" where
  "alr_ring_identity p h which =
     (if \<not> alr_ring_producer_valid p h then None
      else if rh_identity_ready h = 0 then None
      else let s = (case which of ALR_IDENT_RENDERER \<Rightarrow> rh_renderer h | ALR_IDENT_VENDOR \<Rightarrow> rh_vendor h
                    | ALR_IDENT_VERSION \<Rightarrow> rh_gl_version h)
           in if s ! 0 \<noteq> nul then Some (c_string s) else None)"

definition alr_ring_free_bytes :: "ring_region \<Rightarrow> u64" where
  "alr_ring_free_bytes h =
     (let used = rh_head h - rh_tail h in (ucast (rh_ring_bytes h) - 1) - used)"

definition alr_ring_append ::
  "alr_ring_producer option \<Rightarrow> ring_region \<Rightarrow> byte list \<Rightarrow> u32 \<Rightarrow> (int \<times> ring_region) option" where
  "alr_ring_append p h src len =
     (case p of
        None \<Rightarrow> Some (0, h)
      | Some q \<Rightarrow>
          if \<not> alr_ring_producer_valid p h then Some (0, h)
          else if len = 0 then Some (1, h)
          else if alr_ring_free_bytes h < ucast len then Some (0, h)
          else
            let head = rh_head h;
                off = (ucast (head AND ucast (arp_mask q)) :: u32);
                first = (if off + len \<le> rh_ring_bytes h then len else rh_ring_bytes h - off)
            in case memcpy_to (rr_data h) (unat off) src (unat first) of
                 None \<Rightarrow> None
               | Some d \<Rightarrow>
                   case (if first < len then memcpy_to d 0 (drop (unat first) src) (unat (len - first)) else Some d) of
                     None \<Rightarrow> None
                   | Some d' \<Rightarrow> Some (1, h\<lparr>rr_data := d', rh_head := head + ucast len\<rparr>))"

definition alr_ring_flush_and_wait ::
  "alr_ring_producer option \<Rightarrow> (nat \<Rightarrow> u32 \<times> u32) \<Rightarrow> u32 \<Rightarrow> ring_region \<Rightarrow> u32 \<times> ring_region" where
  "alr_ring_flush_and_wait p seen spin h =
     (if \<not> alr_ring_producer_valid p h then (0, h)
      else
        let want = rh_req_seq h + 1;
            spin' = (if spin = 0 then push_bit 20 1 else spin);
            i = flush_spin seen want spin' 0
        in (fst (seen (Suc i)), h\<lparr>rh_req_seq := rh_req_seq h + 1\<rparr>))"

definition alr_ring_close :: "alr_ring_producer option \<Rightarrow> ring_region \<Rightarrow> ring_region" where
  "alr_ring_close p h = (case p of Some q \<Rightarrow> if arp_h q then h\<lparr>rh_closed := 1\<rparr> else h | None \<Rightarrow> h)"

section \<open>The ring as a bounded queue of bytes\<close>

definition ring_cap :: "ring_region \<Rightarrow> nat" where
  "ring_cap h = unat (rh_ring_bytes h) - 1"

definition ring_used :: "ring_region \<Rightarrow> nat" where
  "ring_used h = unat (rh_head h - rh_tail h)"

definition ring_contents :: "ring_region \<Rightarrow> byte list" where
  "ring_contents h = window (rr_data h) (unat (rh_tail h)) (ring_used h)"

definition ring_inv :: "ring_region \<Rightarrow> bool" where
  "ring_inv h \<longleftrightarrow> ring_valid (Some h) \<and> length (rr_data h) = unat (rh_ring_bytes h) \<and> ring_used h \<le> ring_cap h \<and>
     length (rh_renderer h) = kRingIdentMax \<and> length (rh_vendor h) = kRingIdentMax \<and>
     length (rh_gl_version h) = kRingIdentMax"

lemma pow2_exp: "pow2 n \<Longrightarrow> \<exists>k < 32. unat n = 2 ^ k"
  unfolding pow2_def using power_of_two_word [of n] by simp

lemma ring_invE:
  assumes "ring_inv h"
  obtains k where "k < 32" "unat (rh_ring_bytes h) = 2 ^ k" "length (rr_data h) = 2 ^ k" "ring_used h < 2 ^ k"
    "ring_cap h = 2 ^ k - 1" "rh_ring_bytes h \<noteq> 0"
proof -
  from assms have p: "pow2 (rh_ring_bytes h)" by (simp add: ring_inv_def ring_valid_def)
  then obtain k where k: "k < 32" "unat (rh_ring_bytes h) = 2 ^ k" using pow2_exp by blast
  have "(0::nat) < 2 ^ k" by simp
  with k assms have "ring_used h < 2 ^ k" unfolding ring_inv_def ring_cap_def by linarith
  with k assms p that show thesis by (auto simp: ring_inv_def ring_cap_def pow2_def)
qed

lemma length_ring_contents [simp]: "length (ring_contents h) = ring_used h"
  by (simp add: ring_contents_def)

lemma unat_free_bytes: "ring_inv h \<Longrightarrow> unat (free_bytes h) = ring_cap h - ring_used h"
proof (elim ring_invE)
  fix k assume k: "k < 32" "unat (rh_ring_bytes h) = 2 ^ k" "ring_used h < 2 ^ k" "ring_cap h = 2 ^ k - 1"
    and nz: "rh_ring_bytes h \<noteq> 0"
  have c: "unat (ucast (rh_ring_bytes h - 1) :: u64) = ring_cap h"
    using nz k by (simp add: unat_minus_one)
  have "rh_head h - rh_tail h \<le> ucast (rh_ring_bytes h - 1)"
    unfolding word_le_nat_alt c using k(3,4) by (simp add: ring_used_def)
  then show ?thesis unfolding free_bytes_def using c by (simp add: unat_sub ring_used_def)
qed

text \<open>The offset and the split of a copy.  The sum \<^verbatim>\<open>off + len\<close> of 32-bit words does not wrap.\<close>

lemma ring_offset:
  fixes rb :: u32
  assumes "unat rb = 2 ^ k" "k < 32"
  shows "unat (ucast (c AND ucast (rb - 1)) :: u32) = unat (c :: u64) mod 2 ^ k"
proof -
  have m: "unat (c AND ucast (rb - 1)) = unat c mod 2 ^ k" by (rule and_pow2_minus_one [OF assms])
  have "unat c mod 2 ^ k < (2::nat) ^ k" by simp
  also have "\<dots> \<le> 2 ^ 32" using assms(2) by (intro power_increasing) auto
  finally show ?thesis using m by (simp add: unat_ucast_32)
qed

lemma ring_first:
  fixes off len rb :: u32
  assumes "unat rb = 2 ^ k" "k < 32" "unat off < 2 ^ k" "unat len < 2 ^ k"
  defines "fst' \<equiv> (if off + len \<le> rb then len else rb - off)"
  shows "unat fst' = min (unat len) (2 ^ k - unat off)" "fst' < len \<longleftrightarrow> 2 ^ k - unat off < unat len"
    "unat (len - fst') = unat len - min (unat len) (2 ^ k - unat off)"
proof -
  have k31: "(2::nat) ^ k \<le> 2 ^ 31" using assms(2) by (intro power_increasing) auto
  have "unat (off + len) = unat off + unat len" using assms(3,4) k31 by (simp add: unat_word_ariths)
  then have c: "off + len \<le> rb \<longleftrightarrow> unat off + unat len \<le> 2 ^ k" by (simp add: word_le_nat_alt assms(1))
  have d: "unat (rb - off) = 2 ^ k - unat off"
    using assms(1,3) by (subst unat_sub) (simp_all add: word_le_nat_alt)
  show u: "unat fst' = min (unat len) (2 ^ k - unat off)" using c d by (auto simp: fst'_def)
  then show "fst' < len \<longleftrightarrow> 2 ^ k - unat off < unat len" by (auto simp: word_less_nat_alt)
  show "unat (len - fst') = unat len - min (unat len) (2 ^ k - unat off)"
    using u by (subst unat_sub) (simp_all add: word_le_nat_alt)
qed

lemma split_write:
  assumes "length d = L" "0 < L" "off = a mod L" "length src \<le> L"
  defines "f \<equiv> min (length src) (L - off)"
  shows "memcpy_to d off src f = Some (poke d a (take f src))"
    "L - off < length src \<Longrightarrow>
       memcpy_to (poke d a (take f src)) 0 (drop f src) (length src - f) = Some (poke d a src)"
    "\<not> L - off < length src \<Longrightarrow> take f src = src"
proof -
  have o: "off < L" using assms(2,3) by simp
  have "off + f \<le> L" "f \<le> length src" using o by (auto simp: f_def)
  moreover have "poke d a (take f src) = take off d @ take f src @ drop (off + f) d"
    using poke_slice [of a d "take f src"] assms calculation by (simp add: min_absorb2)
  ultimately show "memcpy_to d off src f = Some (poke d a (take f src))"
    by (simp add: memcpy_to_def assms(1))
  show "\<not> L - off < length src \<Longrightarrow> take f src = src" by (simp add: f_def)
  assume w: "L - off < length src"
  then have f: "f = L - off" by (simp add: f_def)
  let ?d = "poke d a (take f src)"
  have "(a + f) mod L = 0"
  proof -
    have "(a + f) mod L = (a mod L + f) mod L" by (rule mod_add_left_eq [symmetric])
    also have "a mod L + f = L" using f o assms(3) by linarith
    finally show ?thesis by simp
  qed
  then have p: "poke ?d (a + f) (drop f src) = drop f src @ drop (length src - f) ?d"
    using poke_slice [of "a + f" ?d "drop f src"] assms(1,4) by simp
  have q: "poke d a src = poke ?d (a + f) (drop f src)"
    using poke_append [of d a "take f src" "drop f src"] w f by (simp add: min_absorb2)
  have "memcpy_to ?d 0 (drop f src) (length src - f) = Some (drop f src @ drop (length src - f) ?d)"
    using assms(1,4) by (simp add: memcpy_to_def)
  then show "memcpy_to ?d 0 (drop f src) (length src - f) = Some (poke d a src)" by (simp only: p q)
qed

lemma split_read:
  assumes "length d = L" "0 < L" "off = a mod L" "n \<le> L"
  defines "f \<equiv> min n (L - off)"
  shows "memcpy_from d off f = Some (window d a f)"
    "L - off < n \<Longrightarrow> memcpy_from d 0 (n - f) = Some (window d (a + f) (n - f))"
    "\<not> L - off < n \<Longrightarrow> f = n"
proof -
  have o: "off < L" using assms(2,3) by simp
  have "off + f \<le> L" using o by (auto simp: f_def)
  then show "memcpy_from d off f = Some (window d a f)"
    using window_slice [of a d f] by (simp add: memcpy_from_def assms(1,3))
  show "\<not> L - off < n \<Longrightarrow> f = n" by (simp add: f_def)
  assume w: "L - off < n"
  have "(a + f) mod L = (a mod L + f) mod L" by (rule mod_add_left_eq [symmetric])
  also have "a mod L + f = L" using w o assms(3) by (simp add: f_def)
  finally have z: "(a + f) mod L = 0" by simp
  then show "memcpy_from d 0 (n - f) = Some (window d (a + f) (n - f))"
    using window_slice [of "a + f" d "n - f"] assms(1,4) by (simp add: memcpy_from_def)
qed

text \<open>Producing: the two copies are one write at the position of the head.\<close>

lemma append_copy_poke:
  assumes "ring_inv h" "unat len \<le> ring_cap h" "length src = unat len"
  shows "append_copy (rh_ring_bytes h - 1) h src len =
    Some (h\<lparr>rr_data := poke (rr_data h) (unat (rh_head h)) src, rh_head := rh_head h + ucast len\<rparr>)"
proof -
  obtain k where k: "k < 32" "unat (rh_ring_bytes h) = 2 ^ k" "length (rr_data h) = 2 ^ k"
      "ring_cap h = 2 ^ k - 1" using assms(1) by (elim ring_invE)
  have pos: "(0::nat) < 2 ^ k" by simp
  have l: "unat len < 2 ^ k" using assms(2) k(4) pos by linarith
  let ?off = "ucast (rh_head h AND ucast (rh_ring_bytes h - 1)) :: u32"
  have o: "unat ?off = unat (rh_head h) mod 2 ^ k" by (rule ring_offset [OF k(2,1)])
  have o': "unat ?off < 2 ^ k" using o by simp
  note f = ring_first [OF k(2,1) o' l]
  note s = split_write [OF k(3) pos o, of src, unfolded assms(3)]
  show ?thesis
    unfolding append_copy_def Let_def f using s l by (cases "2 ^ k - unat ?off < unat len") simp_all
qed

lemma append_refines:
  assumes inv: "ring_inv h" and len: "length src = unat len"
  shows "unat len \<le> ring_cap h - ring_used h \<Longrightarrow>
      \<exists>h'. append_copy (rh_ring_bytes h - 1) h src len = Some h' \<and> ring_inv h' \<and>
           ring_contents h' = ring_contents h @ src \<and> ring_cap h' = ring_cap h"
proof -
  assume fits: "unat len \<le> ring_cap h - ring_used h"
  obtain k where k: "k < 32" "unat (rh_ring_bytes h) = 2 ^ k" "length (rr_data h) = 2 ^ k" "ring_used h < 2 ^ k"
      "ring_cap h = 2 ^ k - 1" using inv by (elim ring_invE)
  let ?d = "poke (rr_data h) (unat (rh_head h)) src"
  let ?h = "h\<lparr>rr_data := ?d, rh_head := rh_head h + ucast len\<rparr>"
  let ?t = "unat (rh_tail h)"
  have bound: "ring_used h + unat len < 2 ^ k" using fits k(4,5) by linarith
  have k64: "(2::nat) ^ k \<le> 2 ^ 64" "(2::nat) ^ k dvd 2 ^ 64" 
    using k(1) power_increasing [of k 64 "2::nat"] le_imp_power_dvd [of k 64 "2::nat"] by auto
  have u: "ring_used ?h = ring_used h + unat len"
  proof -
    have "unat (rh_head h + ucast len - rh_tail h) = unat ((rh_head h - rh_tail h) + ucast len)"
      by (simp add: algebra_simps)
    also have "\<dots> = (ring_used h + unat len) mod 2 ^ 64"
      by (simp only: unat_word_ariths(1) ring_used_def unat_ucast_64) simp
    finally show ?thesis using bound k64(1) by (simp add: ring_used_def)
  qed
  have c: "ring_cap ?h = ring_cap h" by (simp add: ring_cap_def)
  have "(?t + ring_used h) mod 2 ^ k = unat (rh_head h) mod 2 ^ k"
    unfolding ring_used_def by (rule unat_diff_mod [OF k64(2)])
  then have d: "?d = poke (rr_data h) (?t + ring_used h) src" using k(3) by (intro poke_cong_mod) simp
  have "ring_contents ?h = window ?d ?t (ring_used h) @ window ?d (?t + ring_used h) (length src)"
    by (simp add: ring_contents_def u len window_add)
  also have "window ?d ?t (ring_used h) = ring_contents h"
    unfolding ring_contents_def d using bound len k(3) by (intro window_poke_other) auto
  also have "window ?d (?t + ring_used h) (length src) = src"
    unfolding d using bound len k(3) by (intro window_poke_same) auto
  finally have "ring_contents ?h = ring_contents h @ src" .
  moreover have "ring_inv ?h" using inv u c bound k by (simp add: ring_inv_def ring_valid_def)
  moreover have "append_copy (rh_ring_bytes h - 1) h src len = Some ?h"
    using fits len by (intro append_copy_poke [OF inv]) auto
  ultimately show ?thesis using c by blast
qed

lemma producer_append_spec:
  assumes inv: "ring_inv h" and len: "length src = unat len" and msk: "msk = ring_mask (Some h)"
  shows "producer_append msk (Some h) src len =
           (if length src \<le> ring_cap h - ring_used h then
              Some (True, if len = 0 then Some h else append_copy (rh_ring_bytes h - 1) h src len)
            else Some (False, Some h))"
proof -
  have v: "producer_valid (Some h)" using inv by (simp add: producer_valid_def ring_inv_def)
  have f: "free_bytes h < ucast len \<longleftrightarrow> \<not> length src \<le> ring_cap h - ring_used h"
    using unat_free_bytes [OF inv] len by (auto simp: word_less_nat_alt)
  show ?thesis
  proof (cases "len = 0")
    case True
    with len v show ?thesis by (simp add: producer_append_def)
  next
    case False
    then show ?thesis using v f append_refines [OF inv len] len
      by (auto simp: producer_append_def msk ring_mask_def split: option.splits)
  qed
qed

text \<open>Consuming.\<close>

lemma snapshot_refines:
  assumes inv: "ring_inv h"
  shows "snapshot (ring_mask (Some h)) h cap = Some (take (unat cap) (ring_contents h))"
proof -
  obtain k where k: "k < 32" "unat (rh_ring_bytes h) = 2 ^ k" "length (rr_data h) = 2 ^ k" "ring_used h < 2 ^ k"
      "ring_cap h = 2 ^ k - 1" using inv by (elim ring_invE)
  have k32: "(2::nat) ^ k \<le> 2 ^ 32" using k(1) power_increasing [of k 32 "2::nat"] by auto
  define n :: u32 where "n = (if available h < ucast cap then ucast (available h) else cap)"
  have a: "unat (available h) = ring_used h" by (simp add: available_def ring_used_def)
  then have "unat (ucast (available h) :: u32) = ring_used h" using k(4) k32 by (simp add: unat_ucast_32)
  then have n: "unat n = min (unat cap) (ring_used h)" using a by (auto simp: n_def word_less_nat_alt)
  have t: "take (unat cap) (ring_contents h) = window (rr_data h) (unat (rh_tail h)) (unat n)"
    by (simp add: ring_contents_def take_window n)
  have pos: "(0::nat) < 2 ^ k" by simp
  have l: "unat n < 2 ^ k" using n k(4) by linarith
  let ?off = "ucast (rh_tail h AND ucast (rh_ring_bytes h - 1)) :: u32"
  have o: "unat ?off = unat (rh_tail h) mod 2 ^ k" by (rule ring_offset [OF k(2,1)])
  have o': "unat ?off < 2 ^ k" using o by simp
  note f = ring_first [OF k(2,1) o' l]
  note s = split_read [OF k(3) pos o less_imp_le [OF l]]
  let ?w = "window (rr_data h) (unat (rh_tail h))"
  have j: "?w (min (unat n) (2 ^ k - unat ?off)) @
      window (rr_data h) (unat (rh_tail h) + min (unat n) (2 ^ k - unat ?off)) (unat n - min (unat n) (2 ^ k - unat ?off)) = ?w (unat n)"
    using window_add [of "rr_data h" "unat (rh_tail h)" "min (unat n) (2 ^ k - unat ?off)"
        "unat n - min (unat n) (2 ^ k - unat ?off)"] by simp
  show ?thesis
  proof (cases "n = 0")
    case True
    then show ?thesis unfolding t by (simp add: snapshot_def Let_def flip: n_def)
  next
    case False
    then show ?thesis unfolding t snapshot_def Let_def ring_mask_def option.case n_def [symmetric] f
      using s j by (cases "2 ^ k - unat ?off < unat n") simp_all
  qed
qed

lemma advance_refines:
  assumes inv: "ring_inv h" and n: "unat n \<le> ring_used h"
  shows "ring_inv (advance n h) \<and> ring_contents (advance n h) = drop (unat n) (ring_contents h) \<and>
         ring_cap (advance n h) = ring_cap h"
proof -
  obtain k where k: "k < 32" "unat (rh_ring_bytes h) = 2 ^ k" "length (rr_data h) = 2 ^ k" "ring_used h < 2 ^ k"
      "ring_cap h = 2 ^ k - 1" using inv by (elim ring_invE)
  have dvd: "(2::nat) ^ k dvd 2 ^ 64" using k(1) le_imp_power_dvd [of k 64 "2::nat"] by auto
  let ?n = "ucast n :: u64"
  have le: "?n \<le> rh_head h - rh_tail h" using n by (simp add: word_le_nat_alt ring_used_def)
  have "ring_used (advance n h) = unat ((rh_head h - rh_tail h) - ?n)"
    by (simp add: ring_used_def advance_def algebra_simps)
  also have "\<dots> = ring_used h - unat n" by (simp only: unat_sub [OF le] ring_used_def unat_ucast_64)
  finally have u: "ring_used (advance n h) = ring_used h - unat n" .
  have c: "ring_cap (advance n h) = ring_cap h" by (simp add: ring_cap_def advance_def)
  have "unat (rh_tail h + ?n) mod 2 ^ k = (unat (rh_tail h) + unat n) mod 2 ^ k"
    using dvd by (simp add: unat_word_ariths mod_mod_cancel)
  then have "window (rr_data h) (unat (rh_tail h + ?n)) m = window (rr_data h) (unat (rh_tail h) + unat n) m" for m
    using k(3) by (intro window_cong_mod) simp
  then have "ring_contents (advance n h) = drop (unat n) (ring_contents h)"
    by (simp add: ring_contents_def u drop_window) (simp add: advance_def)
  moreover have "ring_used h - unat n \<le> ring_cap h" using k(4,5) by linarith
  then have "ring_inv (advance n h)" using inv u c
    by (simp add: ring_inv_def ring_valid_def) (simp add: advance_def)
  ultimately show ?thesis using c by blast
qed

lemma ring_init_refines:
  assumes "pow2 rb" "length (rr_data h) = unat rb" "length (rh_renderer h) = kRingIdentMax"
    "length (rh_vendor h) = kRingIdentMax" "length (rh_gl_version h) = kRingIdentMax"
  shows "\<exists>h'. ring_init (Some h) rb = (True, Some h') \<and> ring_inv h' \<and> ring_contents h' = [] \<and> ring_cap h' = unat rb - 1"
  using assms
  by (simp add: ring_init_def ring_inv_def ring_valid_def ring_used_def ring_cap_def ring_contents_def)

section \<open>The queue contract\<close>

datatype queue_op = Put "byte list" | Drain u32 u32

text \<open>A schedule of calls: what was accepted is appended to \<open>sent\<close>, what the consumer took is appended to
  \<open>got\<close>.  \<open>Drain cap n\<close> takes a snapshot of at most \<open>cap\<close> bytes and advances past at most
  \<open>n\<close> of them.\<close>

fun run_queue ::
  "(byte list \<Rightarrow> 'r \<Rightarrow> (bool \<times> 'r) option) \<Rightarrow> (u32 \<Rightarrow> 'r \<Rightarrow> byte list option) \<Rightarrow> (u32 \<Rightarrow> 'r \<Rightarrow> 'r) \<Rightarrow>
   queue_op list \<Rightarrow> 'r \<Rightarrow> byte list \<Rightarrow> byte list \<Rightarrow> ('r \<times> byte list \<times> byte list) option" where
  "run_queue put peek adv [] r sent got = Some (r, sent, got)"
| "run_queue put peek adv (Put xs # ops) r sent got =
     (case put xs r of
        None \<Rightarrow> None
      | Some (b, r') \<Rightarrow> run_queue put peek adv ops r' (if b then sent @ xs else sent) got)"
| "run_queue put peek adv (Drain c n # ops) r sent got =
     (case peek c r of
        None \<Rightarrow> None
      | Some snap \<Rightarrow>
          let m = min n (of_nat (length snap))
          in run_queue put peek adv ops (adv m r) sent (got @ take (unat m) snap))"

definition queue_op_ok :: "queue_op \<Rightarrow> bool" where
  "queue_op_ok op = (case op of Put xs \<Rightarrow> length xs < 2 ^ 32 | Drain _ _ \<Rightarrow> True)"

locale byte_queue =
  fixes inv :: "'r \<Rightarrow> bool"
    and cap :: "'r \<Rightarrow> nat"
    and contents :: "'r \<Rightarrow> byte list"
    and put :: "byte list \<Rightarrow> 'r \<Rightarrow> (bool \<times> 'r) option"
    and peek :: "u32 \<Rightarrow> 'r \<Rightarrow> byte list option"
    and adv :: "u32 \<Rightarrow> 'r \<Rightarrow> 'r"
  assumes bounded: "inv r \<Longrightarrow> length (contents r) \<le> cap r"
    and cap_bound: "inv r \<Longrightarrow> cap r < 2 ^ 32"
    and put_accepts: "inv r \<Longrightarrow> length xs < 2 ^ 32 \<Longrightarrow> length (contents r) + length xs \<le> cap r \<Longrightarrow>
          \<exists>r'. put xs r = Some (True, r') \<and> inv r' \<and> contents r' = contents r @ xs \<and> cap r' = cap r"
    and put_refuses: "inv r \<Longrightarrow> length xs < 2 ^ 32 \<Longrightarrow> cap r < length (contents r) + length xs \<Longrightarrow>
          put xs r = Some (False, r)"
    and peek_prefix: "inv r \<Longrightarrow> peek c r = Some (take (unat c) (contents r))"
    and adv_drops: "inv r \<Longrightarrow> unat n \<le> length (contents r) \<Longrightarrow>
          inv (adv n r) \<and> contents (adv n r) = drop (unat n) (contents r) \<and> cap (adv n r) = cap r"
begin

lemma put_cases:
  assumes "inv r" "length xs < 2 ^ 32"
  obtains r' where "put xs r = Some (True, r')" "inv r'" "contents r' = contents r @ xs" "cap r' = cap r"
  | "put xs r = Some (False, r)"
  using put_accepts [OF assms] put_refuses [OF assms] by (cases "length (contents r) + length xs \<le> cap r") auto

lemma run_fifo:
  assumes "inv r" "list_all queue_op_ok ops"
  shows "\<exists>r' sent' got'. run_queue put peek adv ops r sent got = Some (r', sent @ sent', got @ got') \<and> inv r' \<and>
           contents r @ sent' = got' @ contents r' \<and> cap r' = cap r"
  using assms
proof (induction ops arbitrary: r sent got)
  case (Cons op ops)
  then have ok: "queue_op_ok op" "list_all queue_op_ok ops" by simp_all
  show ?case
  proof (cases op)
    case (Put xs)
    with ok have l: "length xs < 2 ^ 32" by (simp add: queue_op_ok_def)
    from Cons.prems(1) l show ?thesis
    proof (cases rule: put_cases)
      case (1 r')
      with Cons.IH [OF 1(2) ok(2), of "sent @ xs" got] Put show ?thesis
        by (clarsimp simp del: append_assoc) (metis append_assoc)
    next
      case 2
      with Cons.IH [OF Cons.prems(1) ok(2)] Put show ?thesis by simp
    qed
  next
    case (Drain c n)
    let ?s = "take (unat c) (contents r)"
    let ?m = "min n (of_nat (length ?s)) :: u32"
    have "length ?s < 2 ^ 32" using bounded cap_bound Cons.prems(1) by (metis le_less_trans length_take min.cobounded1 min.commute)
    then have "unat (of_nat (length ?s) :: u32) = length ?s" by (simp add: unat_of_nat)
    then have m: "unat ?m \<le> length ?s" by (metis min.cobounded2 word_le_nat_alt)
    then have a: "inv (adv ?m r)" "contents (adv ?m r) = drop (unat ?m) (contents r)" "cap (adv ?m r) = cap r"
      using adv_drops [OF Cons.prems(1), of ?m] by auto
    have "take (unat ?m) ?s @ drop (unat ?m) (contents r) = contents r" using m by (simp add: min_absorb1)
    with Cons.IH [OF a(1) ok(2), of sent "got @ take (unat ?m) ?s"] Drain a peek_prefix [OF Cons.prems(1), of c]
    show ?thesis by (clarsimp simp: Let_def simp del: append_assoc) (metis append_assoc)
  qed
qed simp

end

section \<open>Both producers meet the contract\<close>

definition cpp_put :: "byte list \<Rightarrow> ring_region \<Rightarrow> (bool \<times> ring_region) option" where
  "cpp_put xs h =
     (case producer_append (ring_mask (Some h)) (Some h) xs (of_nat (length xs)) of
        Some (b, Some h') \<Rightarrow> Some (b, h')
      | _ \<Rightarrow> None)"

definition cpp_peek :: "u32 \<Rightarrow> ring_region \<Rightarrow> byte list option" where
  "cpp_peek c h = snapshot (ring_mask (Some h)) h c"

definition c_put :: "byte list \<Rightarrow> ring_region \<Rightarrow> (bool \<times> ring_region) option" where
  "c_put xs h =
     map_option (\<lambda>(rc, h'). (rc = 1, h'))
       (alr_ring_append (Some (snd (alr_ring_producer_attach (Some h)))) h xs (of_nat (length xs)))"

lemma alr_ring_valid_eq: "alr_ring_valid = ring_valid"
  by (auto simp: alr_ring_valid_def ring_valid_def ALR_RING_MAGIC_def kMagic_def ALR_RING_VERSION_def kVersion_def
      pow2_def fun_eq_iff split: option.splits)

lemma alr_ring_free_bytes_eq: "rh_ring_bytes h \<noteq> 0 \<Longrightarrow> alr_ring_free_bytes h = free_bytes h"
proof -
  assume nz: "rh_ring_bytes h \<noteq> 0"
  then have "(1 :: u64) \<le> ucast (rh_ring_bytes h)"
    by (simp add: word_le_nat_alt) (metis Suc_leI unat_gt_0)
  then have "ucast (rh_ring_bytes h) - 1 = (ucast (rh_ring_bytes h - 1) :: u64)"
    using nz by (simp add: word_unat_eq_iff unat_sub unat_minus_one)
  then show ?thesis by (simp only: alr_ring_free_bytes_def free_bytes_def Let_def)
qed

lemma alr_ring_append_eq:
  assumes "ring_valid (Some h)"
  shows "map_option (\<lambda>(rc, h'). (rc = 1, Some h'))
           (alr_ring_append (Some (snd (alr_ring_producer_attach (Some h)))) h src len) =
         producer_append (ring_mask (Some h)) (Some h) src len"
proof -
  have nz: "rh_ring_bytes h \<noteq> 0" using assms by (simp add: ring_valid_def pow2_def)
  have p: "alr_ring_producer_attach (Some h) = (0, \<lparr>arp_h = True, arp_mask = rh_ring_bytes h - 1\<rparr>)"
    using assms by (simp add: alr_ring_producer_attach_def alr_ring_valid_eq)
  show ?thesis
    using assms
    by (simp add: p alr_ring_append_def alr_ring_producer_valid_def alr_ring_valid_eq alr_ring_free_bytes_eq [OF nz]
        producer_append_def producer_valid_def append_copy_def ring_mask_def Let_def split: option.splits)
qed

lemma ring_cap_bound: "ring_cap h < 2 ^ 32"
  using unsigned_less [where 'a = nat, of "rh_ring_bytes h"] by (simp add: ring_cap_def)

lemma cpp_put_cases:
  assumes inv: "ring_inv h" and l: "length xs < 2 ^ 32"
  shows "ring_used h + length xs \<le> ring_cap h \<Longrightarrow>
      \<exists>h'. cpp_put xs h = Some (True, h') \<and> ring_inv h' \<and> ring_contents h' = ring_contents h @ xs \<and> ring_cap h' = ring_cap h"
    "ring_cap h < ring_used h + length xs \<Longrightarrow> cpp_put xs h = Some (False, h)"
proof -
  have u: "length xs = unat (of_nat (length xs) :: u32)" using l by (simp add: unat_of_nat)
  note spec = producer_append_spec [OF inv u refl]
  { assume "ring_used h + length xs \<le> ring_cap h"
    then have f: "length xs \<le> ring_cap h - ring_used h" by simp
    show "\<exists>h'. cpp_put xs h = Some (True, h') \<and> ring_inv h' \<and> ring_contents h' = ring_contents h @ xs \<and> ring_cap h' = ring_cap h"
    proof (cases "(of_nat (length xs) :: u32) = 0")
      case True
      with u have "xs = []" by simp
      with True f inv show ?thesis unfolding cpp_put_def spec by simp
    next
      case False
      with append_refines [OF inv u] f u show ?thesis unfolding cpp_put_def spec by auto
    qed }
  { assume "ring_cap h < ring_used h + length xs"
    moreover have "ring_used h \<le> ring_cap h" using inv by (simp add: ring_inv_def)
    ultimately have "\<not> length xs \<le> ring_cap h - ring_used h" by simp
    then show "cpp_put xs h = Some (False, h)" unfolding cpp_put_def spec by simp }
qed

lemma c_put_eq: "ring_inv h \<Longrightarrow> c_put xs h = cpp_put xs h"
proof -
  assume "ring_inv h"
  then have "ring_valid (Some h)" by (simp add: ring_inv_def)
  note e = alr_ring_append_eq [OF this, of xs "of_nat (length xs)"]
  show ?thesis unfolding c_put_def cpp_put_def e [symmetric]
    by (auto split: option.splits)
qed

lemma ring_used_le_cap: "ring_inv h \<Longrightarrow> length (ring_contents h) \<le> ring_cap h"
  by (simp add: ring_inv_def)

interpretation cppq: byte_queue ring_inv ring_cap ring_contents cpp_put cpp_peek advance
proof (unfold_locales, goal_cases)
  case (1 r) then show ?case by (rule ring_used_le_cap)
next
  case 2 show ?case by (rule ring_cap_bound)
next
  case (3 r xs) then show ?case using cpp_put_cases(1) by simp
next
  case (4 r xs) then show ?case using cpp_put_cases(2) by simp
next
  case (5 r c) then show ?case by (simp add: cpp_peek_def snapshot_refines)
next
  case (6 r n) then show ?case by (simp add: advance_refines)
qed

interpretation cq: byte_queue ring_inv ring_cap ring_contents c_put cpp_peek advance
proof (unfold_locales, goal_cases)
  case (3 r xs) then show ?case using cppq.put_accepts by (simp add: c_put_eq)
next
  case (4 r xs) then show ?case using cppq.put_refuses by (simp add: c_put_eq)
qed (use cppq.bounded cppq.cap_bound cppq.peek_prefix cppq.adv_drops in blast)+

section \<open>Identity strings\<close>

lemma copy_ident_eq:
  "n + length s < kRingIdentMax \<Longrightarrow> nul \<notin> set s \<Longrightarrow> length dst = kRingIdentMax \<Longrightarrow>
   copy_ident n dst s = take n dst @ s @ nul # drop (Suc (n + length s)) dst"
proof (induction s arbitrary: n dst)
  case (Cons c s)
  have "copy_ident (Suc n) (dst[n := c]) s = take (Suc n) (dst[n := c]) @ s @ nul # drop (Suc (Suc n + length s)) (dst[n := c])"
    using Cons.prems by (intro Cons.IH) auto
  moreover have "n < kRingIdentMax - 1" "c \<noteq> nul" using Cons.prems by auto
  ultimately show ?case using Cons.prems by (simp add: take_Suc_conv_app_nth)
qed (simp add: upd_conv_take_nth_drop)

lemma copy_ident_long:
  "n + length s \<ge> kRingIdentMax \<Longrightarrow> n < kRingIdentMax \<Longrightarrow> nul \<notin> set s \<Longrightarrow> length dst = kRingIdentMax \<Longrightarrow>
   copy_ident n dst s = take n dst @ take (kRingIdentMax - 1 - n) s @ [nul]"
proof (induction s arbitrary: n dst)
  case (Cons c s)
  show ?case
  proof (cases "n < kRingIdentMax - 1")
    case True
    then have "copy_ident (Suc n) (dst[n := c]) s =
        take (Suc n) (dst[n := c]) @ take (kRingIdentMax - 1 - Suc n) s @ [nul]"
      using Cons.prems by (intro Cons.IH) auto
    moreover have "kRingIdentMax - 1 - n = Suc (kRingIdentMax - 1 - Suc n)" using True by simp
    moreover have "c \<noteq> nul" using Cons.prems by auto
    ultimately show ?thesis using Cons.prems True by (simp add: take_Suc_conv_app_nth)
  next
    case False
    then show ?thesis using Cons.prems by (simp add: upd_conv_take_nth_drop)
  qed
qed simp

lemma length_copy_ident [simp]: "length (copy_ident n dst s) = length dst"
  by (induction n dst s rule: copy_ident.induct) auto

lemma c_string_copy_ident:
  assumes "nul \<notin> set s" "length dst = kRingIdentMax"
  shows "c_string (copy_ident 0 dst s) = take (kRingIdentMax - 1) s" "copy_ident 0 dst s ! 0 = nul \<longleftrightarrow> s = []"
proof -
  have "\<exists>ys. copy_ident 0 dst s = take (kRingIdentMax - 1) s @ nul # ys"
    using copy_ident_eq [of 0 s dst] copy_ident_long [of 0 s dst] assms
    by (cases "length s < kRingIdentMax") (auto simp: kRingIdentMax_def)
  then obtain ys where ys: "copy_ident 0 dst s = take (kRingIdentMax - 1) s @ nul # ys" by blast
  have n: "c \<in> set (take (kRingIdentMax - 1) s) \<Longrightarrow> c \<noteq> nul" for c using assms(1) by (auto dest: in_set_takeD)
  then show "c_string (copy_ident 0 dst s) = take (kRingIdentMax - 1) s"
    unfolding ys c_string_def by (subst takeWhile_append2) auto
  show "copy_ident 0 dst s ! 0 = nul \<longleftrightarrow> s = []"
    unfolding ys using assms(1) by (cases s) (auto simp: kRingIdentMax_def)
qed

section \<open>Waiting for a reply\<close>

lemma flush_spin_stops:
  fixes seen :: "nat \<Rightarrow> u32 \<times> u32" and want :: u32
  assumes "unat i \<le> unat spin"
  defines "j \<equiv> flush_spin seen want spin i"
  shows "unat i \<le> j" "j \<le> unat spin"
    "j < unat spin \<Longrightarrow> want \<le> fst (seen j) \<or> snd (seen j) \<noteq> 0"
    "\<forall>m. unat i \<le> m \<and> m < j \<longrightarrow> fst (seen m) < want \<and> snd (seen m) = 0"
proof -
  have "unat i \<le> j \<and> j \<le> unat spin \<and> (j < unat spin \<longrightarrow> want \<le> fst (seen j) \<or> snd (seen j) \<noteq> 0) \<and>
    (\<forall>m. unat i \<le> m \<and> m < j \<longrightarrow> fst (seen m) < want \<and> snd (seen m) = 0)"
    unfolding j_def using assms(1)
  proof (induction seen want spin i rule: flush_spin.induct)
    case (1 seen want spin i)
    show ?case
    proof (cases "i < spin \<and> \<not> want \<le> fst (seen (unat i)) \<and> snd (seen (unat i)) = 0")
      case True
      then have lt: "unat i < unat spin" by (simp add: word_less_nat_alt)
      have "unat spin < 2 ^ 32" using unsigned_less [where 'a = nat, of spin] by simp
      with lt have s: "unat (i + 1) = Suc (unat i)" by (simp add: unat_word_ariths)
      have "flush_spin seen want spin i = flush_spin seen want spin (i + 1)"
        using True by (subst flush_spin.simps) simp
      moreover have ih: "Suc (unat i) \<le> flush_spin seen want spin (i + 1)"
          "flush_spin seen want spin (i + 1) \<le> unat spin"
          "flush_spin seen want spin (i + 1) < unat spin \<longrightarrow>
            want \<le> fst (seen (flush_spin seen want spin (i + 1))) \<or> snd (seen (flush_spin seen want spin (i + 1))) \<noteq> 0"
          "\<And>m. Suc (unat i) \<le> m \<Longrightarrow> m < flush_spin seen want spin (i + 1) \<Longrightarrow> fst (seen m) < want \<and> snd (seen m) = 0"
        using 1(1) True lt s by auto
      moreover have "fst (seen m) < want \<and> snd (seen m) = 0"
        if "unat i \<le> m" "m < flush_spin seen want spin (i + 1)" for m
        using that ih(4) [of m] True by (cases "m = unat i") (auto simp: not_le)
      ultimately show ?thesis by simp
    next
      case False
      have "flush_spin seen want spin i = unat i" using False by (subst flush_spin.simps) auto
      with False 1(2) show ?thesis by (auto simp: word_less_nat_alt not_le)
    qed
  qed
  then show "unat i \<le> j" "j \<le> unat spin"
    "j < unat spin \<Longrightarrow> want \<le> fst (seen j) \<or> snd (seen j) \<noteq> 0"
    "\<forall>m. unat i \<le> m \<and> m < j \<longrightarrow> fst (seen m) < want \<and> snd (seen m) = 0" by auto
qed

section \<open>Properties of the ring\<close>

definition fresh_region :: "u32 \<Rightarrow> ring_region" where
  "fresh_region rb =
     \<lparr>rh_magic = 0, rh_version = 0, rh_ring_bytes = 0, rh_pad = 0, rh_head = 0, rh_tail = 0, rh_reply_seq = 0,
      rh_req_seq = 0, rh_closed = 0, rh_pad2 = 0, rh_identity_ready = 0, rh_identity_pad = 0,
      rh_renderer = replicate kRingIdentMax nul, rh_vendor = replicate kRingIdentMax nul,
      rh_gl_version = replicate kRingIdentMax nul, rr_data = replicate (unat rb) 0\<rparr>"

definition initial_ring :: "u32 \<Rightarrow> ring_region" where
  "initial_ring rb = the (snd (ring_init (Some (fresh_region rb)) rb))"

lemma initial_ring:
  assumes "pow2 rb"
  shows "ring_init (Some (fresh_region rb)) rb = (True, Some (initial_ring rb))" "ring_inv (initial_ring rb)"
    "ring_contents (initial_ring rb) = []" "ring_cap (initial_ring rb) = unat rb - 1"
  using ring_init_refines [OF assms, of "fresh_region rb"]
  by (auto simp: initial_ring_def fresh_region_def [of rb])

text \<open>C17. The ring is a bounded queue of bytes.  A zeroed region of a power-of-two size is accepted by
  \<^verbatim>\<open>ring_init\<close>, and then, whatever sequence of appends, snapshots and advances follows, with the C++
  or with the C producer, no copy leaves the data region, the bytes the consumer has taken followed by the
  bytes in the ring are exactly the bytes of the accepted appends in order, and at most
  \<^verbatim>\<open>ring_bytes - 1\<close> bytes are in the ring.  The cursors may wrap.\<close>

theorem ring_is_bounded_fifo:
  assumes "pow2 rb" "list_all queue_op_ok ops" "put = cpp_put \<or> put = c_put"
  shows "\<exists>h. ring_init (Some (fresh_region rb)) rb = (True, Some h) \<and>
          (\<exists>h' sent got. run_queue put cpp_peek advance ops h [] [] = Some (h', sent, got) \<and>
             sent = got @ ring_contents h' \<and> length (ring_contents h') \<le> unat rb - 1)"
proof -
  note i = initial_ring [OF assms(1)]
  from assms(3) obtain h' sent got where
    r: "run_queue put cpp_peek advance ops (initial_ring rb) [] [] = Some (h', sent, got)" "ring_inv h'"
      "sent = got @ ring_contents h'" "ring_cap h' = unat rb - 1"
    using cppq.run_fifo [OF i(2) assms(2), of "[]" "[]"] cq.run_fifo [OF i(2) assms(2), of "[]" "[]"] i(3,4) by auto
  from r(2,4) have "length (ring_contents h') \<le> unat rb - 1" using ring_used_le_cap by metis
  with r(1,3) i(1) show ?thesis by blast
qed

theorem ring_is_bounded_fifo_witness:
  "\<exists>h. ring_init (Some (fresh_region 4)) 4 = (True, Some h) \<and>
     (\<exists>h' sent got. run_queue c_put cpp_peek advance [Put [1, 2, 3], Put [4], Drain 2 2, Put [5, 6]] h [] [] =
        Some (h', sent, got) \<and> sent = got @ ring_contents h' \<and> length (ring_contents h') \<le> unat (4::u32) - 1)"
  by (rule ring_is_bounded_fifo) (simp_all add: pow2_def queue_op_ok_def)

text \<open>The guest's C producer and the C++ producer write the same bytes.  On a valid region an attached
  \<^verbatim>\<open>alr_ring_append\<close> and \<^verbatim>\<open>RingProducer::append\<close> succeed, refuse and change the region alike; on a
  region that is not a ring the C producer refuses to attach and neither changes anything, but the C++
  producer reports success for an empty append where the C producer reports failure.\<close>

theorem ring_producers_agree:
  "(ring_valid (Some h) \<longrightarrow>
      map_option (\<lambda>(rc, h'). (rc = 1, Some h'))
        (alr_ring_append (Some (snd (alr_ring_producer_attach (Some h)))) h src len) =
      producer_append (ring_mask (Some h)) (Some h) src len) \<and>
   (\<not> ring_valid (Some h) \<longrightarrow>
      fst (alr_ring_producer_attach (Some h)) = -1 \<and>
      alr_ring_append (Some (snd (alr_ring_producer_attach (Some h)))) h src len = Some (0, h) \<and>
      producer_append (ring_mask (Some h)) (Some h) src len = Some (len = 0, Some h))"
  using alr_ring_append_eq [of h src len]
  by (simp add: alr_ring_producer_attach_def alr_ring_valid_eq alr_ring_append_def alr_ring_producer_valid_def
      producer_append_def producer_valid_def)

theorem ring_producers_agree_witness:
  "map_option (\<lambda>(rc, h'). (rc = 1, Some h'))
     (alr_ring_append (Some (snd (alr_ring_producer_attach (Some (initial_ring 4))))) (initial_ring 4) [7] 1) =
   producer_append (ring_mask (Some (initial_ring 4))) (Some (initial_ring 4)) [7] 1"
proof -
  have "ring_valid (Some (initial_ring 4))"
    using initial_ring(2) [of 4] by (simp add: pow2_def ring_inv_def)
  then show ?thesis using ring_producers_agree [of "initial_ring 4" "[7]" 1] by simp
qed

text \<open>The identity strings travel from host to guest.  Before the host publishes them the guest reads
  none; after \<^verbatim>\<open>ring_set_identity\<close> the guest reads each non-empty string cut to 63 characters, and
  none for an empty one.\<close>

theorem ring_identity_roundtrip:
  assumes "ring_inv h" "nul \<notin> set r" "nul \<notin> set v" "nul \<notin> set g"
    and "p = Some (snd (alr_ring_producer_attach (Some h)))"
  shows "(rh_identity_ready h = 0 \<longrightarrow> alr_ring_identity p h which = None) \<and>
    (\<exists>h'. ring_set_identity (Some h) (Some r) (Some v) (Some g) = Some h' \<and> ring_inv h' \<and>
       ring_contents h' = ring_contents h \<and>
       alr_ring_identity p h' which =
         (let s = (case which of ALR_IDENT_RENDERER \<Rightarrow> r | ALR_IDENT_VENDOR \<Rightarrow> v | ALR_IDENT_VERSION \<Rightarrow> g)
          in if s = [] then None else Some (take 63 s)))"
proof -
  let ?h = "h\<lparr>rh_renderer := copy_ident 0 (rh_renderer h) r, rh_vendor := copy_ident 0 (rh_vendor h) v,
    rh_gl_version := copy_ident 0 (rh_gl_version h) g, rh_identity_ready := 1\<rparr>"
  have l: "length (rh_renderer h) = kRingIdentMax" "length (rh_vendor h) = kRingIdentMax"
    "length (rh_gl_version h) = kRingIdentMax" and v: "ring_valid (Some h)" using assms(1) by (simp_all add: ring_inv_def)
  then have p: "p = Some \<lparr>arp_h = True, arp_mask = rh_ring_bytes h - 1\<rparr>"
    by (simp add: assms(5) alr_ring_producer_attach_def alr_ring_valid_eq)
  have v': "ring_valid (Some ?h)" using v by (simp add: ring_valid_def)
  have "ring_inv ?h" "ring_contents ?h = ring_contents h"
    using assms(1) v' by (simp_all add: ring_inv_def ring_used_def ring_cap_def ring_contents_def)
  moreover have "alr_ring_identity p ?h which =
      (let s = (case which of ALR_IDENT_RENDERER \<Rightarrow> r | ALR_IDENT_VENDOR \<Rightarrow> v | ALR_IDENT_VERSION \<Rightarrow> g)
       in if s = [] then None else Some (take 63 s))"
    using v' c_string_copy_ident [OF assms(2) l(1)] c_string_copy_ident [OF assms(3) l(2)]
      c_string_copy_ident [OF assms(4) l(3)]
    by (cases which) (simp_all add: alr_ring_identity_def alr_ring_producer_valid_def p alr_ring_valid_eq Let_def
        kRingIdentMax_def)
  ultimately show ?thesis
    by (simp add: ring_set_identity_def copy_ident_ptr_def alr_ring_identity_def)
qed

theorem ring_identity_roundtrip_witness:
  "\<exists>h'. ring_set_identity (Some (initial_ring 4)) (Some ''Mali'') (Some ''ARM'') (Some []) = Some h' \<and>
     alr_ring_identity (Some (snd (alr_ring_producer_attach (Some (initial_ring 4))))) h' ALR_IDENT_RENDERER = Some ''Mali''"
proof -
  have "ring_inv (initial_ring 4)" by (rule initial_ring) (simp add: pow2_def)
  then show ?thesis
    using ring_identity_roundtrip [of "initial_ring 4" "''Mali''" "''ARM''" "[]" _ ALR_IDENT_RENDERER, OF _ _ _ _ refl]
    by auto
qed

text \<open>C18. \<^verbatim>\<open>flush_and_wait\<close> ends after at most \<^verbatim>\<open>spin\<close> turns: it stops at the first turn at which the
  reply counter has reached the request or the ring is closed, and at no earlier one.  The request counter
  wraps: the request after \<open>2\<^sup>3\<^sup>2 - 1\<close> waits for nothing, because the comparison is not modular.\<close>

theorem flush_and_wait_stops:
  assumes "want = rh_req_seq h + 1"
    and "j = flush_spin seen want spin 0"
  shows "producer_flush_and_wait seen spin h = (fst (seen (Suc j)), h\<lparr>rh_req_seq := want\<rparr>) \<and>
    j \<le> unat spin \<and>
    (j < unat spin \<longrightarrow> want \<le> fst (seen j) \<or> snd (seen j) \<noteq> 0) \<and>
    (\<forall>m < j. fst (seen m) < want \<and> snd (seen m) = 0) \<and>
    (rh_req_seq h = - 1 \<and> 0 < spin \<longrightarrow> j = 0 \<and> want \<le> fst (seen 0))"
proof -
  have w: "rh_req_seq h = - 1 \<Longrightarrow> want = 0" using assms(1) by simp
  have "rh_req_seq h = - 1 \<Longrightarrow> 0 < spin \<Longrightarrow> j = 0" using w assms(2) by (simp add: flush_spin.simps [of _ _ _ 0])
  with w show ?thesis
    using flush_spin_stops [of 0 spin seen want] assms by (auto simp: producer_flush_and_wait_def Let_def)
qed

theorem flush_and_wait_stops_witness:
  "fst (producer_flush_and_wait (\<lambda>i. (if 2 \<le> i then 1 else 0, 0)) 5 (initial_ring 4)) = 1"
proof -
  let ?seen = "\<lambda>i::nat. (if 2 \<le> i then 1 else 0 :: u32, 0 :: u32)"
  let ?j = "flush_spin ?seen (rh_req_seq (initial_ring 4) + 1) 5 0"
  have q: "rh_req_seq (initial_ring 4) = 0" by (simp add: initial_ring_def fresh_region_def ring_init_def pow2_def)
  note f = flush_and_wait_stops [OF refl refl, of ?seen 5 "initial_ring 4"]
  have "2 \<le> ?j"
  proof (rule ccontr)
    assume "\<not> 2 \<le> ?j"
    then have "?j < unat (5::u32)" "fst (?seen ?j) = 0" "snd (?seen ?j) = 0" by simp_all
    with f q show False by simp
  qed
  with f show ?thesis by simp
qed

end
