(* ===== verification/Gles_Wire.thy ===== *)
theory Gles_Wire
  imports Gpu_Ring
begin

text \<open>
  The GLES wire format: the opcodes of \<^verbatim>\<open>alr_gpu/alr_gpu_decode.hpp\<close> and of its guest copy
  \<^verbatim>\<open>alr_gpu/guest_shim/alr_gles_proto.h\<close>, both encoders and the host's bounds-checked reader.  Scalars are
  32-bit little-endian patterns: signed integers and floats are carried as their bits.
\<close>

unbundle bit_operations_syntax

section \<open>Opcodes\<close>

text \<open>The opcodes in the groups of the enumeration.\<close>

datatype core_op = OP_END | OP_VIEWPORT | OP_CLEARCOLOR | OP_CLEAR | OP_ENABLE_SCISSOR | OP_SCISSOR | OP_DISABLE_SCISSOR

datatype shader_op = OP_CREATE_SHADER | OP_SHADER_SOURCE | OP_COMPILE_SHADER | OP_CREATE_PROGRAM | OP_ATTACH_SHADER
  | OP_BIND_ATTRIB_LOCATION | OP_LINK_PROGRAM | OP_USE_PROGRAM

datatype buffer_op = OP_GEN_BUFFER | OP_BIND_BUFFER | OP_BUFFER_DATA | OP_BUFFER_SUBDATA | OP_ENABLE_VAA
  | OP_VERTEX_ATTRIB_POINTER | OP_DRAW_ARRAYS

datatype uniform_op = OP_UNIFORM_MATRIX4FV | OP_UNIFORM1I | OP_UNIFORM_FV | OP_UNIFORM_IV | OP_UNIFORM_MATRIX_FV

datatype texture_op = OP_GEN_TEXTURE | OP_ACTIVE_TEXTURE | OP_BIND_TEXTURE | OP_TEX_PARAMETERI | OP_TEX_IMAGE_2D
  | OP_GENERATE_MIPMAP | OP_TEX_SUBIMAGE_2D | OP_ENABLE | OP_DISABLE | OP_DEPTH_FUNC | OP_CULL_FACE | OP_FRONT_FACE

datatype attrib_op = OP_ENABLE_VAA_NAMED | OP_VERTEX_ATTRIB_POINTER_NAMED | OP_DRAW_ELEMENTS | OP_VERTEX_ATTRIB_F
  | OP_VERTEX_ATTRIB_F_NAMED

datatype fbo_op = OP_GEN_FRAMEBUFFER | OP_BIND_FRAMEBUFFER | OP_FRAMEBUFFER_TEXTURE2D | OP_GEN_RENDERBUFFER
  | OP_BIND_RENDERBUFFER | OP_RENDERBUFFER_STORAGE | OP_FRAMEBUFFER_RENDERBUFFER | OP_GEN_VERTEX_ARRAY
  | OP_BIND_VERTEX_ARRAY | OP_DRAW_ARRAYS_INSTANCED | OP_DRAW_ELEMENTS_INSTANCED | OP_VERTEX_ATTRIB_DIVISOR
  | OP_VERTEX_ATTRIB_DIVISOR_NAMED

datatype raster_op = OP_BLEND_FUNC | OP_BLEND_FUNC_SEPARATE | OP_BLEND_EQUATION | OP_BLEND_EQUATION_SEPARATE
  | OP_BLEND_COLOR | OP_COLOR_MASK | OP_DEPTH_MASK | OP_DEPTH_RANGEF | OP_CLEAR_DEPTHF | OP_CLEAR_STENCIL
  | OP_STENCIL_FUNC | OP_STENCIL_FUNC_SEPARATE | OP_STENCIL_OP | OP_STENCIL_OP_SEPARATE | OP_STENCIL_MASK
  | OP_STENCIL_MASK_SEPARATE | OP_POLYGON_OFFSET | OP_LINE_WIDTH | OP_SAMPLE_COVERAGE

datatype gles3_op = OP_BIND_BUFFER_BASE | OP_BIND_BUFFER_RANGE | OP_UNIFORM_BLOCK_BINDING | OP_GEN_SAMPLER
  | OP_BIND_SAMPLER | OP_SAMPLER_PARAMETERI | OP_DRAW_BUFFERS | OP_READ_BUFFER | OP_INVALIDATE_FRAMEBUFFER

datatype gles_op = CoreOp core_op | ShaderOp shader_op | BufferOp buffer_op | UniformOp uniform_op
  | TextureOp texture_op | AttribOp attrib_op | FboOp fbo_op | RasterOp raster_op | Gles3Op gles3_op

text \<open>Every group with its byte, as the host's enumeration numbers it.\<close>

definition core_codes :: "(byte \<times> gles_op) list" where
  "core_codes = map (map_prod id CoreOp) [(0, OP_END), (1, OP_VIEWPORT), (2, OP_CLEARCOLOR), (3, OP_CLEAR),
     (4, OP_ENABLE_SCISSOR), (5, OP_SCISSOR), (6, OP_DISABLE_SCISSOR)]"

definition shader_codes :: "(byte \<times> gles_op) list" where
  "shader_codes = map (map_prod id ShaderOp) [(20, OP_CREATE_SHADER), (21, OP_SHADER_SOURCE), (22, OP_COMPILE_SHADER),
     (23, OP_CREATE_PROGRAM), (24, OP_ATTACH_SHADER), (25, OP_BIND_ATTRIB_LOCATION), (26, OP_LINK_PROGRAM),
     (27, OP_USE_PROGRAM)]"

definition buffer_codes :: "(byte \<times> gles_op) list" where
  "buffer_codes = map (map_prod id BufferOp) [(30, OP_GEN_BUFFER), (31, OP_BIND_BUFFER), (32, OP_BUFFER_DATA),
     (33, OP_BUFFER_SUBDATA), (40, OP_ENABLE_VAA), (41, OP_VERTEX_ATTRIB_POINTER), (42, OP_DRAW_ARRAYS)]"

definition uniform_codes :: "(byte \<times> gles_op) list" where
  "uniform_codes = map (map_prod id UniformOp) [(50, OP_UNIFORM_MATRIX4FV), (51, OP_UNIFORM1I), (52, OP_UNIFORM_FV),
     (53, OP_UNIFORM_IV), (54, OP_UNIFORM_MATRIX_FV)]"

definition texture_codes :: "(byte \<times> gles_op) list" where
  "texture_codes = map (map_prod id TextureOp) [(60, OP_GEN_TEXTURE), (61, OP_ACTIVE_TEXTURE), (62, OP_BIND_TEXTURE),
     (63, OP_TEX_PARAMETERI), (64, OP_TEX_IMAGE_2D), (65, OP_GENERATE_MIPMAP), (66, OP_TEX_SUBIMAGE_2D),
     (70, OP_ENABLE), (71, OP_DISABLE), (72, OP_DEPTH_FUNC), (73, OP_CULL_FACE), (74, OP_FRONT_FACE)]"

definition attrib_codes :: "(byte \<times> gles_op) list" where
  "attrib_codes = map (map_prod id AttribOp) [(80, OP_ENABLE_VAA_NAMED), (81, OP_VERTEX_ATTRIB_POINTER_NAMED),
     (82, OP_DRAW_ELEMENTS), (84, OP_VERTEX_ATTRIB_F), (85, OP_VERTEX_ATTRIB_F_NAMED)]"

definition fbo_codes :: "(byte \<times> gles_op) list" where
  "fbo_codes = map (map_prod id FboOp) [(90, OP_GEN_FRAMEBUFFER), (91, OP_BIND_FRAMEBUFFER),
     (92, OP_FRAMEBUFFER_TEXTURE2D), (93, OP_GEN_RENDERBUFFER), (94, OP_BIND_RENDERBUFFER),
     (95, OP_RENDERBUFFER_STORAGE), (96, OP_FRAMEBUFFER_RENDERBUFFER), (100, OP_GEN_VERTEX_ARRAY),
     (101, OP_BIND_VERTEX_ARRAY), (102, OP_DRAW_ARRAYS_INSTANCED), (103, OP_DRAW_ELEMENTS_INSTANCED),
     (104, OP_VERTEX_ATTRIB_DIVISOR), (105, OP_VERTEX_ATTRIB_DIVISOR_NAMED)]"

definition raster_codes :: "(byte \<times> gles_op) list" where
  "raster_codes = map (map_prod id RasterOp) [(110, OP_BLEND_FUNC), (111, OP_BLEND_FUNC_SEPARATE), (112, OP_BLEND_EQUATION),
     (113, OP_BLEND_EQUATION_SEPARATE), (114, OP_BLEND_COLOR), (115, OP_COLOR_MASK), (116, OP_DEPTH_MASK),
     (117, OP_DEPTH_RANGEF), (118, OP_CLEAR_DEPTHF), (119, OP_CLEAR_STENCIL), (120, OP_STENCIL_FUNC),
     (121, OP_STENCIL_FUNC_SEPARATE), (122, OP_STENCIL_OP), (123, OP_STENCIL_OP_SEPARATE), (124, OP_STENCIL_MASK),
     (125, OP_STENCIL_MASK_SEPARATE), (126, OP_POLYGON_OFFSET), (127, OP_LINE_WIDTH), (128, OP_SAMPLE_COVERAGE)]"

definition gles3_codes :: "(byte \<times> gles_op) list" where
  "gles3_codes = map (map_prod id Gles3Op) [(130, OP_BIND_BUFFER_BASE), (131, OP_BIND_BUFFER_RANGE),
     (132, OP_UNIFORM_BLOCK_BINDING), (133, OP_GEN_SAMPLER), (134, OP_BIND_SAMPLER), (135, OP_SAMPLER_PARAMETERI),
     (136, OP_DRAW_BUFFERS), (137, OP_READ_BUFFER), (138, OP_INVALIDATE_FRAMEBUFFER)]"

definition op_codes :: "(byte \<times> gles_op) list" where
  "op_codes = core_codes @ shader_codes @ buffer_codes @ uniform_codes @ texture_codes @ attrib_codes @ fbo_codes @
     raster_codes @ gles3_codes"

definition op_of_byte :: "byte \<Rightarrow> gles_op option" where
  "op_of_byte b = map_of op_codes b"

text \<open>The guest's enumeration.\<close>

primrec alr_core_code :: "core_op \<Rightarrow> byte" where
  "alr_core_code OP_END = 0"
| "alr_core_code OP_VIEWPORT = 1"
| "alr_core_code OP_CLEARCOLOR = 2"
| "alr_core_code OP_CLEAR = 3"
| "alr_core_code OP_ENABLE_SCISSOR = 4"
| "alr_core_code OP_SCISSOR = 5"
| "alr_core_code OP_DISABLE_SCISSOR = 6"

primrec alr_shader_code :: "shader_op \<Rightarrow> byte" where
  "alr_shader_code OP_CREATE_SHADER = 20"
| "alr_shader_code OP_SHADER_SOURCE = 21"
| "alr_shader_code OP_COMPILE_SHADER = 22"
| "alr_shader_code OP_CREATE_PROGRAM = 23"
| "alr_shader_code OP_ATTACH_SHADER = 24"
| "alr_shader_code OP_BIND_ATTRIB_LOCATION = 25"
| "alr_shader_code OP_LINK_PROGRAM = 26"
| "alr_shader_code OP_USE_PROGRAM = 27"

primrec alr_buffer_code :: "buffer_op \<Rightarrow> byte" where
  "alr_buffer_code OP_GEN_BUFFER = 30"
| "alr_buffer_code OP_BIND_BUFFER = 31"
| "alr_buffer_code OP_BUFFER_DATA = 32"
| "alr_buffer_code OP_BUFFER_SUBDATA = 33"
| "alr_buffer_code OP_ENABLE_VAA = 40"
| "alr_buffer_code OP_VERTEX_ATTRIB_POINTER = 41"
| "alr_buffer_code OP_DRAW_ARRAYS = 42"

primrec alr_uniform_code :: "uniform_op \<Rightarrow> byte" where
  "alr_uniform_code OP_UNIFORM_MATRIX4FV = 50"
| "alr_uniform_code OP_UNIFORM1I = 51"
| "alr_uniform_code OP_UNIFORM_FV = 52"
| "alr_uniform_code OP_UNIFORM_IV = 53"
| "alr_uniform_code OP_UNIFORM_MATRIX_FV = 54"

primrec alr_texture_code :: "texture_op \<Rightarrow> byte" where
  "alr_texture_code OP_GEN_TEXTURE = 60"
| "alr_texture_code OP_ACTIVE_TEXTURE = 61"
| "alr_texture_code OP_BIND_TEXTURE = 62"
| "alr_texture_code OP_TEX_PARAMETERI = 63"
| "alr_texture_code OP_TEX_IMAGE_2D = 64"
| "alr_texture_code OP_GENERATE_MIPMAP = 65"
| "alr_texture_code OP_TEX_SUBIMAGE_2D = 66"
| "alr_texture_code OP_ENABLE = 70"
| "alr_texture_code OP_DISABLE = 71"
| "alr_texture_code OP_DEPTH_FUNC = 72"
| "alr_texture_code OP_CULL_FACE = 73"
| "alr_texture_code OP_FRONT_FACE = 74"

primrec alr_attrib_code :: "attrib_op \<Rightarrow> byte" where
  "alr_attrib_code OP_ENABLE_VAA_NAMED = 80"
| "alr_attrib_code OP_VERTEX_ATTRIB_POINTER_NAMED = 81"
| "alr_attrib_code OP_DRAW_ELEMENTS = 82"
| "alr_attrib_code OP_VERTEX_ATTRIB_F = 84"
| "alr_attrib_code OP_VERTEX_ATTRIB_F_NAMED = 85"

primrec alr_fbo_code :: "fbo_op \<Rightarrow> byte" where
  "alr_fbo_code OP_GEN_FRAMEBUFFER = 90"
| "alr_fbo_code OP_BIND_FRAMEBUFFER = 91"
| "alr_fbo_code OP_FRAMEBUFFER_TEXTURE2D = 92"
| "alr_fbo_code OP_GEN_RENDERBUFFER = 93"
| "alr_fbo_code OP_BIND_RENDERBUFFER = 94"
| "alr_fbo_code OP_RENDERBUFFER_STORAGE = 95"
| "alr_fbo_code OP_FRAMEBUFFER_RENDERBUFFER = 96"
| "alr_fbo_code OP_GEN_VERTEX_ARRAY = 100"
| "alr_fbo_code OP_BIND_VERTEX_ARRAY = 101"
| "alr_fbo_code OP_DRAW_ARRAYS_INSTANCED = 102"
| "alr_fbo_code OP_DRAW_ELEMENTS_INSTANCED = 103"
| "alr_fbo_code OP_VERTEX_ATTRIB_DIVISOR = 104"
| "alr_fbo_code OP_VERTEX_ATTRIB_DIVISOR_NAMED = 105"

primrec alr_raster_code :: "raster_op \<Rightarrow> byte" where
  "alr_raster_code OP_BLEND_FUNC = 110"
| "alr_raster_code OP_BLEND_FUNC_SEPARATE = 111"
| "alr_raster_code OP_BLEND_EQUATION = 112"
| "alr_raster_code OP_BLEND_EQUATION_SEPARATE = 113"
| "alr_raster_code OP_BLEND_COLOR = 114"
| "alr_raster_code OP_COLOR_MASK = 115"
| "alr_raster_code OP_DEPTH_MASK = 116"
| "alr_raster_code OP_DEPTH_RANGEF = 117"
| "alr_raster_code OP_CLEAR_DEPTHF = 118"
| "alr_raster_code OP_CLEAR_STENCIL = 119"
| "alr_raster_code OP_STENCIL_FUNC = 120"
| "alr_raster_code OP_STENCIL_FUNC_SEPARATE = 121"
| "alr_raster_code OP_STENCIL_OP = 122"
| "alr_raster_code OP_STENCIL_OP_SEPARATE = 123"
| "alr_raster_code OP_STENCIL_MASK = 124"
| "alr_raster_code OP_STENCIL_MASK_SEPARATE = 125"
| "alr_raster_code OP_POLYGON_OFFSET = 126"
| "alr_raster_code OP_LINE_WIDTH = 127"
| "alr_raster_code OP_SAMPLE_COVERAGE = 128"

primrec alr_gles3_code :: "gles3_op \<Rightarrow> byte" where
  "alr_gles3_code OP_BIND_BUFFER_BASE = 130"
| "alr_gles3_code OP_BIND_BUFFER_RANGE = 131"
| "alr_gles3_code OP_UNIFORM_BLOCK_BINDING = 132"
| "alr_gles3_code OP_GEN_SAMPLER = 133"
| "alr_gles3_code OP_BIND_SAMPLER = 134"
| "alr_gles3_code OP_SAMPLER_PARAMETERI = 135"
| "alr_gles3_code OP_DRAW_BUFFERS = 136"
| "alr_gles3_code OP_READ_BUFFER = 137"
| "alr_gles3_code OP_INVALIDATE_FRAMEBUFFER = 138"

primrec alr_op_code :: "gles_op \<Rightarrow> byte" where
  "alr_op_code (CoreOp x) = alr_core_code x"
| "alr_op_code (ShaderOp x) = alr_shader_code x"
| "alr_op_code (BufferOp x) = alr_buffer_code x"
| "alr_op_code (UniformOp x) = alr_uniform_code x"
| "alr_op_code (TextureOp x) = alr_texture_code x"
| "alr_op_code (AttribOp x) = alr_attrib_code x"
| "alr_op_code (FboOp x) = alr_fbo_code x"
| "alr_op_code (RasterOp x) = alr_raster_code x"
| "alr_op_code (Gles3Op x) = alr_gles3_code x"

lemmas op_code_tables = op_codes_def core_codes_def shader_codes_def buffer_codes_def uniform_codes_def texture_codes_def
  attrib_codes_def fbo_codes_def raster_codes_def gles3_codes_def

lemma op_of_byte_code: "op_of_byte (alr_op_code op) = Some op"
proof (cases op)
  case (CoreOp x) then show ?thesis by (cases x) (simp_all add: op_of_byte_def op_code_tables)
next
  case (ShaderOp x) then show ?thesis by (cases x) (simp_all add: op_of_byte_def op_code_tables)
next
  case (BufferOp x) then show ?thesis by (cases x) (simp_all add: op_of_byte_def op_code_tables)
next
  case (UniformOp x) then show ?thesis by (cases x) (simp_all add: op_of_byte_def op_code_tables)
next
  case (TextureOp x) then show ?thesis by (cases x) (simp_all add: op_of_byte_def op_code_tables)
next
  case (AttribOp x) then show ?thesis by (cases x) (simp_all add: op_of_byte_def op_code_tables)
next
  case (FboOp x) then show ?thesis by (cases x) (simp_all add: op_of_byte_def op_code_tables)
next
  case (RasterOp x) then show ?thesis by (cases x) (simp_all add: op_of_byte_def op_code_tables)
next
  case (Gles3Op x) then show ?thesis by (cases x) (simp_all add: op_of_byte_def op_code_tables)
qed

section \<open>Encoders\<close>

text \<open>The guest's encoder over a caller-owned buffer: the bytes written so far, the capacity and the overflow
  flag that makes every later write a no-op.\<close>

record alr_encoder =
  ae_bytes :: "byte list"
  ae_cap :: nat
  ae_overflow :: bool

definition alr_enc_init :: "nat \<Rightarrow> alr_encoder" where
  "alr_enc_init cap = \<lparr>ae_bytes = [], ae_cap = cap, ae_overflow = False\<rparr>"

definition alr_enc_raw :: "byte list \<Rightarrow> alr_encoder \<Rightarrow> alr_encoder" where
  "alr_enc_raw p e =
     (if ae_overflow e then e
      else if ae_cap e < length (ae_bytes e) + length p then e\<lparr>ae_overflow := True\<rparr>
      else e\<lparr>ae_bytes := ae_bytes e @ p\<rparr>)"

definition alr_enc_u8 :: "byte \<Rightarrow> alr_encoder \<Rightarrow> alr_encoder" where
  "alr_enc_u8 v = alr_enc_raw [v]"

definition alr_enc_u32 :: "u32 \<Rightarrow> alr_encoder \<Rightarrow> alr_encoder" where
  "alr_enc_u32 v = alr_enc_raw (le32 v)"

definition alr_enc_blob :: "byte list \<Rightarrow> alr_encoder \<Rightarrow> alr_encoder" where
  "alr_enc_blob p e =
     (let e' = alr_enc_u32 (of_nat (length p)) e in if p \<noteq> [] then alr_enc_raw p e' else e')"

text \<open>The host's encoder appends without bound.\<close>

definition enc_u8 :: "byte \<Rightarrow> byte list \<Rightarrow> byte list" where
  "enc_u8 v buf = buf @ [v]"

definition enc_u32 :: "u32 \<Rightarrow> byte list \<Rightarrow> byte list" where
  "enc_u32 v buf = buf @ le32 v"

definition enc_blob :: "byte list \<Rightarrow> byte list \<Rightarrow> byte list" where
  "enc_blob p buf = (let buf' = enc_u32 (of_nat (length p)) buf in if p \<noteq> [] then buf' @ p else buf')"

text \<open>The fields of a message: a byte, a 32-bit scalar, or a length-prefixed blob.\<close>

datatype wire_field = F8 byte | F32 u32 | FBlob "byte list"

primrec alr_enc_field :: "wire_field \<Rightarrow> alr_encoder \<Rightarrow> alr_encoder" where
  "alr_enc_field (F8 b) = alr_enc_u8 b"
| "alr_enc_field (F32 w) = alr_enc_u32 w"
| "alr_enc_field (FBlob d) = alr_enc_blob d"

primrec enc_field :: "wire_field \<Rightarrow> byte list \<Rightarrow> byte list" where
  "enc_field (F8 b) = enc_u8 b"
| "enc_field (F32 w) = enc_u32 w"
| "enc_field (FBlob d) = enc_blob d"

section \<open>Reader\<close>

text \<open>The reader's remaining bytes stand for its pointer, size and position; a read that passes the end fails.\<close>

definition r_take :: "nat \<Rightarrow> byte list \<Rightarrow> (byte list \<times> byte list) option" where
  "r_take n r = (if length r < n then None else Some (take n r, drop n r))"

definition r_u8 :: "byte list \<Rightarrow> (byte \<times> byte list) option" where
  "r_u8 r = map_option (\<lambda>(b, r'). (hd b, r')) (r_take 1 r)"

definition r_u32 :: "byte list \<Rightarrow> (u32 \<times> byte list) option" where
  "r_u32 r = map_option (\<lambda>(b, r'). (of_le32 b, r')) (r_take 4 r)"

definition r_blob :: "byte list \<Rightarrow> (byte list \<times> byte list) option" where
  "r_blob r = (case r_u32 r of None \<Rightarrow> None | Some (len, r') \<Rightarrow> r_take (unat len) r')"

primrec r_words :: "nat \<Rightarrow> byte list \<Rightarrow> (u32 list \<times> byte list) option" where
  "r_words 0 r = Some ([], r)"
| "r_words (Suc n) r =
     (case r_u32 r of
        None \<Rightarrow> None
      | Some (w, r') \<Rightarrow> map_option (\<lambda>(ws, r''). (w # ws, r'')) (r_words n r'))"

datatype field_kind = K8 | K32 | KBlob

primrec r_field :: "field_kind \<Rightarrow> byte list \<Rightarrow> (wire_field \<times> byte list) option" where
  "r_field K8 r = map_option (map_prod F8 id) (r_u8 r)"
| "r_field K32 r = map_option (map_prod F32 id) (r_u32 r)"
| "r_field KBlob r = map_option (map_prod FBlob id) (r_blob r)"

primrec r_fields :: "field_kind list \<Rightarrow> byte list \<Rightarrow> (wire_field list \<times> byte list) option" where
  "r_fields [] r = Some ([], r)"
| "r_fields (k # ks) r =
     (case r_field k r of
        None \<Rightarrow> None
      | Some (f, r') \<Rightarrow> map_option (\<lambda>(fs, r''). (f # fs, r'')) (r_fields ks r'))"

section \<open>Encoding and reading\<close>

primrec field_bytes :: "wire_field \<Rightarrow> byte list" where
  "field_bytes (F8 b) = [b]"
| "field_bytes (F32 w) = le32 w"
| "field_bytes (FBlob d) = le32 (of_nat (length d)) @ d"

primrec kind_of :: "wire_field \<Rightarrow> field_kind" where
  "kind_of (F8 b) = K8"
| "kind_of (F32 w) = K32"
| "kind_of (FBlob d) = KBlob"

definition field_ok :: "wire_field \<Rightarrow> bool" where
  "field_ok f = (case f of FBlob d \<Rightarrow> length d < 2 ^ 32 | _ \<Rightarrow> True)"

definition fields_bytes :: "wire_field list \<Rightarrow> byte list" where
  "fields_bytes fs = concat (map field_bytes fs)"

lemma fields_bytes_simps [simp]:
  "fields_bytes [] = []" "fields_bytes (f # fs) = field_bytes f @ fields_bytes fs"
  "fields_bytes (fs @ gs) = fields_bytes fs @ fields_bytes gs"
  by (simp_all add: fields_bytes_def)

lemma enc_field_bytes: "enc_field f buf = buf @ field_bytes f"
  by (cases f) (simp_all add: enc_u8_def enc_u32_def enc_blob_def Let_def)

lemma alr_enc_raw_fits:
  "\<not> ae_overflow e \<Longrightarrow> length (ae_bytes e) + length p \<le> ae_cap e \<Longrightarrow> alr_enc_raw p e = e\<lparr>ae_bytes := ae_bytes e @ p\<rparr>"
  by (simp add: alr_enc_raw_def)

lemma alr_enc_raw_overflow: "ae_overflow e \<Longrightarrow> alr_enc_raw p e = e"
  by (simp add: alr_enc_raw_def)

lemma alr_enc_field_fits:
  "\<not> ae_overflow e \<Longrightarrow> length (ae_bytes e) + length (field_bytes f) \<le> ae_cap e \<Longrightarrow>
   alr_enc_field f e = e\<lparr>ae_bytes := ae_bytes e @ field_bytes f\<rparr>"
  by (cases f) (simp_all add: alr_enc_u8_def alr_enc_u32_def alr_enc_blob_def alr_enc_raw_fits Let_def)

lemma alr_enc_field_overflow:
  "ae_overflow e \<or> ae_cap e < length (ae_bytes e) + length (field_bytes f) \<Longrightarrow> ae_overflow (alr_enc_field f e)"
  by (cases f) (auto simp: alr_enc_u8_def alr_enc_u32_def alr_enc_blob_def alr_enc_raw_def Let_def)

lemma alr_enc_fields_overflow: "ae_overflow e \<Longrightarrow> ae_overflow (fold alr_enc_field fs e)"
  by (induction fs arbitrary: e) (simp_all add: alr_enc_field_overflow)

lemma alr_enc_fields:
  "\<not> ae_overflow e \<Longrightarrow>
   (if length (ae_bytes e) + length (fields_bytes fs) \<le> ae_cap e
    then fold alr_enc_field fs e = e\<lparr>ae_bytes := ae_bytes e @ fields_bytes fs\<rparr>
    else ae_overflow (fold alr_enc_field fs e) \<or> fs = [])"
proof (induction fs arbitrary: e)
  case (Cons f fs)
  show ?case
  proof (cases "length (ae_bytes e) + length (field_bytes f) \<le> ae_cap e")
    case True
    then have e: "alr_enc_field f e = e\<lparr>ae_bytes := ae_bytes e @ field_bytes f\<rparr>"
      using Cons.prems by (intro alr_enc_field_fits) simp_all
    with Cons.IH [of "alr_enc_field f e"] Cons.prems True show ?thesis by (cases fs) (auto split: if_splits)
  next
    case False
    then have "ae_overflow (alr_enc_field f e)" by (intro alr_enc_field_overflow) auto
    with False alr_enc_fields_overflow show ?thesis by auto
  qed
qed (cases e, simp)

lemma r_take_append [simp]: "r_take (length xs) (xs @ ys) = Some (xs, ys)"
  by (simp add: r_take_def)

lemma r_u32_le32 [simp]: "r_u32 (le32 w @ r) = Some (w, r)"
  using r_take_append [of "le32 w" r] by (simp add: r_u32_def)

lemma r_field_bytes: "field_ok f \<Longrightarrow> r_field (kind_of f) (field_bytes f @ r) = Some (f, r)"
  by (cases f) (simp_all add: field_ok_def r_u8_def r_take_def [of "Suc 0"] r_blob_def unat_of_nat)

lemma r_fields_bytes:
  "list_all field_ok fs \<Longrightarrow> r_fields (map kind_of fs) (fields_bytes fs @ r) = Some (fs, r)"
  by (induction fs) (simp_all add: r_field_bytes)

lemma r_words_bytes: "r_words (length ws) (concat (map le32 ws) @ r) = Some (ws, r)"
  by (induction ws) simp_all

text \<open>Every read consumes a prefix.\<close>

lemma r_take_length: "r_take n r = Some (x, r') \<Longrightarrow> length r' \<le> length r"
  by (auto simp: r_take_def split: if_splits)

lemma r_u32_length: "r_u32 r = Some (w, r') \<Longrightarrow> length r' \<le> length r"
  by (auto simp: r_u32_def dest: r_take_length)

lemma r_words_length: "r_words n r = Some (ws, r') \<Longrightarrow> length r' \<le> length r \<and> length ws = n"
  by (induction n arbitrary: r ws) (fastforce split: option.splits dest: r_u32_length)+

lemma r_field_length: "r_field k r = Some (f, r') \<Longrightarrow> length r' \<le> length r"
  by (cases k) (auto simp: r_u8_def r_blob_def split: option.splits dest!: r_take_length r_u32_length)

lemma r_fields_length: "r_fields ks r = Some (fs, r') \<Longrightarrow> length r' \<le> length r"
  by (induction ks arbitrary: r fs) (fastforce split: option.splits dest: r_field_length)+

end
