(* ===== verification/Gles_Decode.thy ===== *)
theory Gles_Decode
  imports Gles_Wire
begin

text \<open>
  The host's decoder, from \<^verbatim>\<open>alr_gpu/alr_gpu_decode.hpp\<close>: the tables that translate the guest's virtual
  object ids to GL names, and \<^verbatim>\<open>decode_batch\<close>, which replays a batch of messages.  The GL library is a
  parameter: object creation, name queries and all other calls on an abstract GL state.  Each case of the
  decoder's switch reads the fields of \<open>op_format\<close>, then the words of \<open>op_tail\<close>, and only then calls GL.
\<close>

section \<open>GL and the host state\<close>

datatype gl_arg = GU u32 | GB bool | GData "byte list" | GNull | GName "byte list" | GWords "u32 list" | GPtr u32

record 'g gl_api =
  gl_create :: "string \<Rightarrow> u32 list \<Rightarrow> 'g \<Rightarrow> u32 \<times> 'g"
  gl_query :: "string \<Rightarrow> u32 \<Rightarrow> byte list \<Rightarrow> 'g \<Rightarrow> u32"
  gl_call :: "string \<Rightarrow> gl_arg list \<Rightarrow> 'g \<Rightarrow> 'g"

record host_state =
  hs_shaders :: "u32 \<rightharpoonup> u32"
  hs_programs :: "u32 \<rightharpoonup> u32"
  hs_buffers :: "u32 \<rightharpoonup> u32"
  hs_textures :: "u32 \<rightharpoonup> u32"
  hs_framebuffers :: "u32 \<rightharpoonup> u32"
  hs_renderbuffers :: "u32 \<rightharpoonup> u32"
  hs_vertex_arrays :: "u32 \<rightharpoonup> u32"
  hs_samplers :: "u32 \<rightharpoonup> u32"
  hs_cur_program :: u32
  hs_default_fbo :: u32
  hs_ok :: bool
  hs_decoded :: int

type_synonym 'g dstate = "host_state \<times> 'g"

definition initial_host_state :: "u32 \<Rightarrow> host_state" where
  "initial_host_state fbo =
     \<lparr>hs_shaders = Map.empty, hs_programs = Map.empty, hs_buffers = Map.empty, hs_textures = Map.empty,
      hs_framebuffers = Map.empty, hs_renderbuffers = Map.empty, hs_vertex_arrays = Map.empty,
      hs_samplers = Map.empty, hs_cur_program = 0, hs_default_fbo = fbo, hs_ok = True, hs_decoded = 0\<rparr>"

definition name_or_zero :: "(u32 \<rightharpoonup> u32) \<Rightarrow> u32 \<Rightarrow> u32" where
  "name_or_zero m v = (case m v of None \<Rightarrow> 0 | Some n \<Rightarrow> n)"

definition real_prog :: "host_state \<Rightarrow> u32 \<Rightarrow> u32" where
  "real_prog st v = name_or_zero (hs_programs st) v"

definition real_tex :: "host_state \<Rightarrow> u32 \<Rightarrow> u32" where
  "real_tex st v = name_or_zero (hs_textures st) v"

definition real_fb :: "host_state \<Rightarrow> u32 \<Rightarrow> u32" where
  "real_fb st v = (if v = 0 then hs_default_fbo st else name_or_zero (hs_framebuffers st) v)"

definition real_rb :: "host_state \<Rightarrow> u32 \<Rightarrow> u32" where
  "real_rb st v = name_or_zero (hs_renderbuffers st) v"

definition real_va :: "host_state \<Rightarrow> u32 \<Rightarrow> u32" where
  "real_va st v = (if v = 0 then 0 else name_or_zero (hs_vertex_arrays st) v)"

definition real_sampler :: "host_state \<Rightarrow> u32 \<Rightarrow> u32" where
  "real_sampler st v = (if v = 0 then 0 else name_or_zero (hs_samplers st) v)"

definition real_buf :: "host_state \<Rightarrow> u32 \<Rightarrow> u32" where
  "real_buf st v = name_or_zero (hs_buffers st) v"

definition real_shader :: "host_state \<Rightarrow> u32 \<Rightarrow> u32" where
  "real_shader st v = name_or_zero (hs_shaders st) v"

section \<open>Message formats\<close>

definition k32s :: "nat \<Rightarrow> field_kind list" where
  "k32s n = replicate n K32"

primrec core_format :: "core_op \<Rightarrow> field_kind list" where
  "core_format OP_END = []"
| "core_format OP_VIEWPORT = k32s 4"
| "core_format OP_CLEARCOLOR = k32s 4"
| "core_format OP_CLEAR = []"
| "core_format OP_ENABLE_SCISSOR = []"
| "core_format OP_SCISSOR = k32s 4"
| "core_format OP_DISABLE_SCISSOR = []"

primrec shader_format :: "shader_op \<Rightarrow> field_kind list" where
  "shader_format OP_CREATE_SHADER = k32s 2"
| "shader_format OP_SHADER_SOURCE = [K32, KBlob]"
| "shader_format OP_COMPILE_SHADER = k32s 1"
| "shader_format OP_CREATE_PROGRAM = k32s 1"
| "shader_format OP_ATTACH_SHADER = k32s 2"
| "shader_format OP_BIND_ATTRIB_LOCATION = [K32, K32, KBlob]"
| "shader_format OP_LINK_PROGRAM = k32s 1"
| "shader_format OP_USE_PROGRAM = k32s 1"

primrec buffer_format :: "buffer_op \<Rightarrow> field_kind list" where
  "buffer_format OP_GEN_BUFFER = k32s 1"
| "buffer_format OP_BIND_BUFFER = k32s 2"
| "buffer_format OP_BUFFER_DATA = [K32, KBlob, K32]"
| "buffer_format OP_BUFFER_SUBDATA = [K32, K32, KBlob]"
| "buffer_format OP_ENABLE_VAA = k32s 1"
| "buffer_format OP_VERTEX_ATTRIB_POINTER = [K32, K32, K32, K8, K32, K32]"
| "buffer_format OP_DRAW_ARRAYS = k32s 3"

primrec uniform_format :: "uniform_op \<Rightarrow> field_kind list" where
  "uniform_format OP_UNIFORM_MATRIX4FV = [K32, KBlob]"
| "uniform_format OP_UNIFORM1I = [K32, KBlob, K32]"
| "uniform_format OP_UNIFORM_FV = [K32, KBlob, K8, K32]"
| "uniform_format OP_UNIFORM_IV = [K32, KBlob, K8, K32]"
| "uniform_format OP_UNIFORM_MATRIX_FV = [K32, KBlob, K8, K32]"

primrec texture_format :: "texture_op \<Rightarrow> field_kind list" where
  "texture_format OP_GEN_TEXTURE = k32s 1"
| "texture_format OP_ACTIVE_TEXTURE = k32s 1"
| "texture_format OP_BIND_TEXTURE = k32s 2"
| "texture_format OP_TEX_PARAMETERI = k32s 3"
| "texture_format OP_TEX_IMAGE_2D = k32s 7 @ [KBlob]"
| "texture_format OP_GENERATE_MIPMAP = k32s 1"
| "texture_format OP_TEX_SUBIMAGE_2D = k32s 8 @ [KBlob]"
| "texture_format OP_ENABLE = k32s 1"
| "texture_format OP_DISABLE = k32s 1"
| "texture_format OP_DEPTH_FUNC = k32s 1"
| "texture_format OP_CULL_FACE = k32s 1"
| "texture_format OP_FRONT_FACE = k32s 1"

primrec attrib_format :: "attrib_op \<Rightarrow> field_kind list" where
  "attrib_format OP_ENABLE_VAA_NAMED = [K32, KBlob]"
| "attrib_format OP_VERTEX_ATTRIB_POINTER_NAMED = [K32, KBlob, K32, K32, K8, K32, K32]"
| "attrib_format OP_DRAW_ELEMENTS = k32s 4"
| "attrib_format OP_VERTEX_ATTRIB_F = [K32, K8]"
| "attrib_format OP_VERTEX_ATTRIB_F_NAMED = [K32, KBlob, K8]"

primrec fbo_format :: "fbo_op \<Rightarrow> field_kind list" where
  "fbo_format OP_GEN_FRAMEBUFFER = k32s 1"
| "fbo_format OP_BIND_FRAMEBUFFER = k32s 2"
| "fbo_format OP_FRAMEBUFFER_TEXTURE2D = k32s 5"
| "fbo_format OP_GEN_RENDERBUFFER = k32s 1"
| "fbo_format OP_BIND_RENDERBUFFER = k32s 2"
| "fbo_format OP_RENDERBUFFER_STORAGE = k32s 4"
| "fbo_format OP_FRAMEBUFFER_RENDERBUFFER = k32s 4"
| "fbo_format OP_GEN_VERTEX_ARRAY = k32s 1"
| "fbo_format OP_BIND_VERTEX_ARRAY = k32s 1"
| "fbo_format OP_DRAW_ARRAYS_INSTANCED = k32s 4"
| "fbo_format OP_DRAW_ELEMENTS_INSTANCED = k32s 5"
| "fbo_format OP_VERTEX_ATTRIB_DIVISOR = k32s 2"
| "fbo_format OP_VERTEX_ATTRIB_DIVISOR_NAMED = [K32, KBlob, K32]"

primrec raster_format :: "raster_op \<Rightarrow> field_kind list" where
  "raster_format OP_BLEND_FUNC = k32s 2"
| "raster_format OP_BLEND_FUNC_SEPARATE = k32s 4"
| "raster_format OP_BLEND_EQUATION = k32s 1"
| "raster_format OP_BLEND_EQUATION_SEPARATE = k32s 2"
| "raster_format OP_BLEND_COLOR = k32s 4"
| "raster_format OP_COLOR_MASK = [K8, K8, K8, K8]"
| "raster_format OP_DEPTH_MASK = [K8]"
| "raster_format OP_DEPTH_RANGEF = k32s 2"
| "raster_format OP_CLEAR_DEPTHF = k32s 1"
| "raster_format OP_CLEAR_STENCIL = k32s 1"
| "raster_format OP_STENCIL_FUNC = k32s 3"
| "raster_format OP_STENCIL_FUNC_SEPARATE = k32s 4"
| "raster_format OP_STENCIL_OP = k32s 3"
| "raster_format OP_STENCIL_OP_SEPARATE = k32s 4"
| "raster_format OP_STENCIL_MASK = k32s 1"
| "raster_format OP_STENCIL_MASK_SEPARATE = k32s 2"
| "raster_format OP_POLYGON_OFFSET = k32s 2"
| "raster_format OP_LINE_WIDTH = k32s 1"
| "raster_format OP_SAMPLE_COVERAGE = [K32, K8]"

primrec gles3_format :: "gles3_op \<Rightarrow> field_kind list" where
  "gles3_format OP_BIND_BUFFER_BASE = k32s 3"
| "gles3_format OP_BIND_BUFFER_RANGE = k32s 5"
| "gles3_format OP_UNIFORM_BLOCK_BINDING = [K32, KBlob, K32]"
| "gles3_format OP_GEN_SAMPLER = k32s 1"
| "gles3_format OP_BIND_SAMPLER = k32s 2"
| "gles3_format OP_SAMPLER_PARAMETERI = k32s 3"
| "gles3_format OP_DRAW_BUFFERS = k32s 1"
| "gles3_format OP_READ_BUFFER = k32s 1"
| "gles3_format OP_INVALIDATE_FRAMEBUFFER = k32s 2"

primrec op_format :: "gles_op \<Rightarrow> field_kind list" where
  "op_format (CoreOp x) = core_format x"
| "op_format (ShaderOp x) = shader_format x"
| "op_format (BufferOp x) = buffer_format x"
| "op_format (UniformOp x) = uniform_format x"
| "op_format (TextureOp x) = texture_format x"
| "op_format (AttribOp x) = attrib_format x"
| "op_format (FboOp x) = fbo_format x"
| "op_format (RasterOp x) = raster_format x"
| "op_format (Gles3Op x) = gles3_format x"

text \<open>Reading a field of a message.\<close>

definition w32 :: "wire_field list \<Rightarrow> nat \<Rightarrow> u32" where
  "w32 fs i = (case fs ! i of F32 w \<Rightarrow> w | _ \<Rightarrow> 0)"

definition w8 :: "wire_field list \<Rightarrow> nat \<Rightarrow> byte" where
  "w8 fs i = (case fs ! i of F8 b \<Rightarrow> b | _ \<Rightarrow> 0)"

definition wblob :: "wire_field list \<Rightarrow> nat \<Rightarrow> byte list" where
  "wblob fs i = (case fs ! i of FBlob d \<Rightarrow> d | _ \<Rightarrow> [])"

text \<open>The number of 32-bit words that follow the fields, or none when the message is refused.\<close>

primrec uniform_tail :: "uniform_op \<Rightarrow> wire_field list \<Rightarrow> nat option" where
  "uniform_tail OP_UNIFORM_MATRIX4FV fs = Some 16"
| "uniform_tail OP_UNIFORM1I fs = Some 0"
| "uniform_tail OP_UNIFORM_FV fs =
     (if w8 fs 2 < 1 \<or> 4 < w8 fs 2 then None else Some (unat (w8 fs 2) * unat (w32 fs 3)))"
| "uniform_tail OP_UNIFORM_IV fs =
     (if w8 fs 2 < 1 \<or> 4 < w8 fs 2 then None else Some (unat (w8 fs 2) * unat (w32 fs 3)))"
| "uniform_tail OP_UNIFORM_MATRIX_FV fs =
     (if w8 fs 2 < 2 \<or> 3 < w8 fs 2 then None else Some (unat (w8 fs 2) * unat (w8 fs 2) * unat (w32 fs 3)))"

primrec attrib_tail :: "attrib_op \<Rightarrow> wire_field list \<Rightarrow> nat option" where
  "attrib_tail OP_ENABLE_VAA_NAMED fs = Some 0"
| "attrib_tail OP_VERTEX_ATTRIB_POINTER_NAMED fs = Some 0"
| "attrib_tail OP_DRAW_ELEMENTS fs = Some 0"
| "attrib_tail OP_VERTEX_ATTRIB_F fs = (if w8 fs 1 < 1 \<or> 4 < w8 fs 1 then None else Some (unat (w8 fs 1)))"
| "attrib_tail OP_VERTEX_ATTRIB_F_NAMED fs = (if w8 fs 2 < 1 \<or> 4 < w8 fs 2 then None else Some (unat (w8 fs 2)))"

primrec gles3_tail :: "gles3_op \<Rightarrow> wire_field list \<Rightarrow> nat option" where
  "gles3_tail OP_BIND_BUFFER_BASE fs = Some 0"
| "gles3_tail OP_BIND_BUFFER_RANGE fs = Some 0"
| "gles3_tail OP_UNIFORM_BLOCK_BINDING fs = Some 0"
| "gles3_tail OP_GEN_SAMPLER fs = Some 0"
| "gles3_tail OP_BIND_SAMPLER fs = Some 0"
| "gles3_tail OP_SAMPLER_PARAMETERI fs = Some 0"
| "gles3_tail OP_DRAW_BUFFERS fs = Some (unat (w32 fs 0))"
| "gles3_tail OP_READ_BUFFER fs = Some 0"
| "gles3_tail OP_INVALIDATE_FRAMEBUFFER fs = Some (unat (w32 fs 1))"

primrec op_tail :: "gles_op \<Rightarrow> wire_field list \<Rightarrow> nat option" where
  "op_tail (CoreOp x) fs = Some 0"
| "op_tail (ShaderOp x) fs = Some 0"
| "op_tail (BufferOp x) fs = Some 0"
| "op_tail (UniformOp x) fs = uniform_tail x fs"
| "op_tail (TextureOp x) fs = Some 0"
| "op_tail (AttribOp x) fs = attrib_tail x fs"
| "op_tail (FboOp x) fs = Some 0"
| "op_tail (RasterOp x) fs = Some 0"
| "op_tail (Gles3Op x) fs = gles3_tail x fs"

section \<open>Dispatch\<close>

definition do_gl :: "'g gl_api \<Rightarrow> string \<Rightarrow> gl_arg list \<Rightarrow> 'g dstate \<Rightarrow> 'g dstate" where
  "do_gl api fn args s = (fst s, gl_call api fn args (snd s))"

definition field_arg :: "wire_field \<Rightarrow> gl_arg" where
  "field_arg f = (case f of F8 b \<Rightarrow> GB (b \<noteq> 0) | F32 w \<Rightarrow> GU w | FBlob d \<Rightarrow> GData d)"

text \<open>A case that passes its fields on in order.\<close>

definition pass_fields :: "'g gl_api \<Rightarrow> string \<Rightarrow> wire_field list \<Rightarrow> 'g dstate \<Rightarrow> 'g dstate" where
  "pass_fields api fn fs = do_gl api fn (map field_arg fs)"

definition blob_or_null :: "byte list \<Rightarrow> gl_arg" where
  "blob_or_null d = (if d = [] then GNull else GData d)"

text \<open>\<^verbatim>\<open>std::string(name, len).c_str()\<close>: GL sees the name up to its first NUL.\<close>

definition c_name :: "byte list \<Rightarrow> byte list" where
  "c_name d = takeWhile (\<lambda>b. b \<noteq> 0) d"

definition location :: "'g gl_api \<Rightarrow> string \<Rightarrow> u32 \<Rightarrow> byte list \<Rightarrow> 'g dstate \<Rightarrow> u32" where
  "location api fn vp name s = gl_query api fn (real_prog (fst s) vp) (c_name name) (snd s)"

definition if_located :: "u32 \<Rightarrow> ('g dstate \<Rightarrow> 'g dstate) \<Rightarrow> 'g dstate \<Rightarrow> 'g dstate" where
  "if_located loc f s = (if 0 \<le>s loc then f s else s)"

fun exec_core_op :: "'g gl_api \<Rightarrow> core_op \<Rightarrow> wire_field list \<Rightarrow> 'g dstate \<Rightarrow> 'g dstate" where
  "exec_core_op api OP_END fs s = s"
| "exec_core_op api OP_VIEWPORT fs s = pass_fields api ''glViewport'' fs s"
| "exec_core_op api OP_CLEARCOLOR fs s = pass_fields api ''glClearColor'' fs s"
| "exec_core_op api OP_CLEAR fs s = do_gl api ''glClear'' [GU 0x4100] s"
| "exec_core_op api OP_ENABLE_SCISSOR fs s = do_gl api ''glEnable'' [GU 0x0C11] s"
| "exec_core_op api OP_SCISSOR fs s = pass_fields api ''glScissor'' fs s"
| "exec_core_op api OP_DISABLE_SCISSOR fs s = do_gl api ''glDisable'' [GU 0x0C11] s"

fun exec_shader_op :: "'g gl_api \<Rightarrow> shader_op \<Rightarrow> wire_field list \<Rightarrow> 'g dstate \<Rightarrow> 'g dstate" where
  "exec_shader_op api OP_CREATE_SHADER fs (st, g) =
     (let (n, g') = gl_create api ''glCreateShader'' [w32 fs 1] g
      in (st\<lparr>hs_shaders := (hs_shaders st)(w32 fs 0 \<mapsto> n)\<rparr>, g'))"
| "exec_shader_op api OP_SHADER_SOURCE fs (st, g) =
     do_gl api ''glShaderSource'' [GU (real_shader st (w32 fs 0)), GData (wblob fs 1)] (st, g)"
| "exec_shader_op api OP_COMPILE_SHADER fs (st, g) =
     do_gl api ''glCompileShader'' [GU (real_shader st (w32 fs 0))] (st, g)"
| "exec_shader_op api OP_CREATE_PROGRAM fs (st, g) =
     (let (n, g') = gl_create api ''glCreateProgram'' [] g
      in (st\<lparr>hs_programs := (hs_programs st)(w32 fs 0 \<mapsto> n)\<rparr>, g'))"
| "exec_shader_op api OP_ATTACH_SHADER fs (st, g) =
     do_gl api ''glAttachShader'' [GU (real_prog st (w32 fs 0)), GU (real_shader st (w32 fs 1))] (st, g)"
| "exec_shader_op api OP_BIND_ATTRIB_LOCATION fs (st, g) =
     do_gl api ''glBindAttribLocation''
       [GU (real_prog st (w32 fs 0)), GU (w32 fs 1), GName (c_name (wblob fs 2))] (st, g)"
| "exec_shader_op api OP_LINK_PROGRAM fs (st, g) =
     do_gl api ''glLinkProgram'' [GU (real_prog st (w32 fs 0))] (st, g)"
| "exec_shader_op api OP_USE_PROGRAM fs (st, g) =
     (let p = real_prog st (w32 fs 0)
      in do_gl api ''glUseProgram'' [GU p] (st\<lparr>hs_cur_program := p\<rparr>, g))"

fun exec_buffer_op :: "'g gl_api \<Rightarrow> buffer_op \<Rightarrow> wire_field list \<Rightarrow> 'g dstate \<Rightarrow> 'g dstate" where
  "exec_buffer_op api OP_GEN_BUFFER fs (st, g) =
     (let (n, g') = gl_create api ''glGenBuffers'' [] g
      in (st\<lparr>hs_buffers := (hs_buffers st)(w32 fs 0 \<mapsto> n)\<rparr>, g'))"
| "exec_buffer_op api OP_BIND_BUFFER fs (st, g) =
     do_gl api ''glBindBuffer'' [GU (w32 fs 0), GU (real_buf st (w32 fs 1))] (st, g)"
| "exec_buffer_op api OP_BUFFER_DATA fs s = pass_fields api ''glBufferData'' fs s"
| "exec_buffer_op api OP_BUFFER_SUBDATA fs s = pass_fields api ''glBufferSubData'' fs s"
| "exec_buffer_op api OP_ENABLE_VAA fs s = pass_fields api ''glEnableVertexAttribArray'' fs s"
| "exec_buffer_op api OP_VERTEX_ATTRIB_POINTER fs s =
     do_gl api ''glVertexAttribPointer''
       [GU (w32 fs 0), GU (w32 fs 1), GU (w32 fs 2), GB (w8 fs 3 \<noteq> 0), GU (w32 fs 4), GPtr (w32 fs 5)] s"
| "exec_buffer_op api OP_DRAW_ARRAYS fs s = pass_fields api ''glDrawArrays'' fs s"

definition uniform_fv_fn :: "byte \<Rightarrow> string" where
  "uniform_fv_fn cols =
     (if cols = 1 then ''glUniform1fv'' else if cols = 2 then ''glUniform2fv''
      else if cols = 3 then ''glUniform3fv'' else ''glUniform4fv'')"

definition uniform_iv_fn :: "byte \<Rightarrow> string" where
  "uniform_iv_fn cols =
     (if cols = 1 then ''glUniform1iv'' else if cols = 2 then ''glUniform2iv''
      else if cols = 3 then ''glUniform3iv'' else ''glUniform4iv'')"

fun exec_uniform_op :: "'g gl_api \<Rightarrow> uniform_op \<Rightarrow> wire_field list \<Rightarrow> u32 list \<Rightarrow> 'g dstate \<Rightarrow> 'g dstate" where
  "exec_uniform_op api OP_UNIFORM_MATRIX4FV fs ws s =
     (let loc = location api ''glGetUniformLocation'' (w32 fs 0) (wblob fs 1) s
      in if_located loc (do_gl api ''glUniformMatrix4fv'' [GU loc, GU 1, GB False, GWords ws]) s)"
| "exec_uniform_op api OP_UNIFORM1I fs ws s =
     (let loc = location api ''glGetUniformLocation'' (w32 fs 0) (wblob fs 1) s
      in if_located loc (do_gl api ''glUniform1i'' [GU loc, GU (w32 fs 2)]) s)"
| "exec_uniform_op api OP_UNIFORM_FV fs ws s =
     (let loc = location api ''glGetUniformLocation'' (w32 fs 0) (wblob fs 1) s
      in if_located loc (do_gl api (uniform_fv_fn (w8 fs 2)) [GU loc, GU (w32 fs 3), GWords ws]) s)"
| "exec_uniform_op api OP_UNIFORM_IV fs ws s =
     (let loc = location api ''glGetUniformLocation'' (w32 fs 0) (wblob fs 1) s
      in if_located loc (do_gl api (uniform_iv_fn (w8 fs 2)) [GU loc, GU (w32 fs 3), GWords ws]) s)"
| "exec_uniform_op api OP_UNIFORM_MATRIX_FV fs ws s =
     (let loc = location api ''glGetUniformLocation'' (w32 fs 0) (wblob fs 1) s
      in if_located loc
           (do_gl api (if w8 fs 2 = 2 then ''glUniformMatrix2fv'' else ''glUniformMatrix3fv'')
             [GU loc, GU (w32 fs 3), GB False, GWords ws]) s)"

fun exec_texture_op :: "'g gl_api \<Rightarrow> texture_op \<Rightarrow> wire_field list \<Rightarrow> 'g dstate \<Rightarrow> 'g dstate" where
  "exec_texture_op api OP_GEN_TEXTURE fs (st, g) =
     (let (n, g') = gl_create api ''glGenTextures'' [] g
      in (st\<lparr>hs_textures := (hs_textures st)(w32 fs 0 \<mapsto> n)\<rparr>, g'))"
| "exec_texture_op api OP_ACTIVE_TEXTURE fs s = pass_fields api ''glActiveTexture'' fs s"
| "exec_texture_op api OP_BIND_TEXTURE fs (st, g) =
     do_gl api ''glBindTexture'' [GU (w32 fs 0), GU (real_tex st (w32 fs 1))] (st, g)"
| "exec_texture_op api OP_TEX_PARAMETERI fs s = pass_fields api ''glTexParameteri'' fs s"
| "exec_texture_op api OP_TEX_IMAGE_2D fs s =
     do_gl api ''glTexImage2D''
       [GU (w32 fs 0), GU (w32 fs 1), GU (w32 fs 2), GU (w32 fs 3), GU (w32 fs 4), GU 0, GU (w32 fs 5), GU (w32 fs 6),
        blob_or_null (wblob fs 7)]
       (do_gl api ''glPixelStorei'' [GU 0x0CF5, GU 1] s)"
| "exec_texture_op api OP_GENERATE_MIPMAP fs s = pass_fields api ''glGenerateMipmap'' fs s"
| "exec_texture_op api OP_TEX_SUBIMAGE_2D fs s =
     do_gl api ''glTexSubImage2D''
       [GU (w32 fs 0), GU (w32 fs 1), GU (w32 fs 2), GU (w32 fs 3), GU (w32 fs 4), GU (w32 fs 5), GU (w32 fs 6),
        GU (w32 fs 7), blob_or_null (wblob fs 8)]
       (do_gl api ''glPixelStorei'' [GU 0x0CF5, GU 1] s)"
| "exec_texture_op api OP_ENABLE fs s = pass_fields api ''glEnable'' fs s"
| "exec_texture_op api OP_DISABLE fs s = pass_fields api ''glDisable'' fs s"
| "exec_texture_op api OP_DEPTH_FUNC fs s = pass_fields api ''glDepthFunc'' fs s"
| "exec_texture_op api OP_CULL_FACE fs s = pass_fields api ''glCullFace'' fs s"
| "exec_texture_op api OP_FRONT_FACE fs s = pass_fields api ''glFrontFace'' fs s"

definition vertex_attrib_fn :: "byte \<Rightarrow> string" where
  "vertex_attrib_fn ncomp =
     (if ncomp = 1 then ''glVertexAttrib1fv'' else if ncomp = 2 then ''glVertexAttrib2fv''
      else if ncomp = 3 then ''glVertexAttrib3fv'' else ''glVertexAttrib4fv'')"

fun exec_attrib_op :: "'g gl_api \<Rightarrow> attrib_op \<Rightarrow> wire_field list \<Rightarrow> u32 list \<Rightarrow> 'g dstate \<Rightarrow> 'g dstate" where
  "exec_attrib_op api OP_ENABLE_VAA_NAMED fs ws s =
     (let loc = location api ''glGetAttribLocation'' (w32 fs 0) (wblob fs 1) s
      in if_located loc (do_gl api ''glEnableVertexAttribArray'' [GU loc]) s)"
| "exec_attrib_op api OP_VERTEX_ATTRIB_POINTER_NAMED fs ws s =
     (let loc = location api ''glGetAttribLocation'' (w32 fs 0) (wblob fs 1) s
      in if_located loc (do_gl api ''glVertexAttribPointer''
           [GU loc, GU (w32 fs 2), GU (w32 fs 3), GB (w8 fs 4 \<noteq> 0), GU (w32 fs 5), GPtr (w32 fs 6)]) s)"
| "exec_attrib_op api OP_DRAW_ELEMENTS fs ws s =
     do_gl api ''glDrawElements'' [GU (w32 fs 0), GU (w32 fs 1), GU (w32 fs 2), GPtr (w32 fs 3)] s"
| "exec_attrib_op api OP_VERTEX_ATTRIB_F fs ws s =
     do_gl api (vertex_attrib_fn (w8 fs 1)) [GU (w32 fs 0), GWords ws] s"
| "exec_attrib_op api OP_VERTEX_ATTRIB_F_NAMED fs ws s =
     (let loc = location api ''glGetAttribLocation'' (w32 fs 0) (wblob fs 1) s
      in if_located loc (do_gl api (vertex_attrib_fn (w8 fs 2)) [GU loc, GWords ws]) s)"

fun exec_fbo_op :: "'g gl_api \<Rightarrow> fbo_op \<Rightarrow> wire_field list \<Rightarrow> 'g dstate \<Rightarrow> 'g dstate" where
  "exec_fbo_op api OP_GEN_FRAMEBUFFER fs (st, g) =
     (let (n, g') = gl_create api ''glGenFramebuffers'' [] g
      in (st\<lparr>hs_framebuffers := (hs_framebuffers st)(w32 fs 0 \<mapsto> n)\<rparr>, g'))"
| "exec_fbo_op api OP_BIND_FRAMEBUFFER fs (st, g) =
     do_gl api ''glBindFramebuffer'' [GU (w32 fs 0), GU (real_fb st (w32 fs 1))] (st, g)"
| "exec_fbo_op api OP_FRAMEBUFFER_TEXTURE2D fs (st, g) =
     do_gl api ''glFramebufferTexture2D''
       [GU (w32 fs 0), GU (w32 fs 1), GU (w32 fs 2), GU (real_tex st (w32 fs 3)), GU (w32 fs 4)] (st, g)"
| "exec_fbo_op api OP_GEN_RENDERBUFFER fs (st, g) =
     (let (n, g') = gl_create api ''glGenRenderbuffers'' [] g
      in (st\<lparr>hs_renderbuffers := (hs_renderbuffers st)(w32 fs 0 \<mapsto> n)\<rparr>, g'))"
| "exec_fbo_op api OP_BIND_RENDERBUFFER fs (st, g) =
     do_gl api ''glBindRenderbuffer'' [GU (w32 fs 0), GU (real_rb st (w32 fs 1))] (st, g)"
| "exec_fbo_op api OP_RENDERBUFFER_STORAGE fs s = pass_fields api ''glRenderbufferStorage'' fs s"
| "exec_fbo_op api OP_FRAMEBUFFER_RENDERBUFFER fs (st, g) =
     do_gl api ''glFramebufferRenderbuffer''
       [GU (w32 fs 0), GU (w32 fs 1), GU (w32 fs 2), GU (real_rb st (w32 fs 3))] (st, g)"
| "exec_fbo_op api OP_GEN_VERTEX_ARRAY fs (st, g) =
     (let (n, g') = gl_create api ''glGenVertexArrays'' [] g
      in (st\<lparr>hs_vertex_arrays := (hs_vertex_arrays st)(w32 fs 0 \<mapsto> n)\<rparr>, g'))"
| "exec_fbo_op api OP_BIND_VERTEX_ARRAY fs (st, g) =
     do_gl api ''glBindVertexArray'' [GU (real_va st (w32 fs 0))] (st, g)"
| "exec_fbo_op api OP_DRAW_ARRAYS_INSTANCED fs s = pass_fields api ''glDrawArraysInstanced'' fs s"
| "exec_fbo_op api OP_DRAW_ELEMENTS_INSTANCED fs s =
     do_gl api ''glDrawElementsInstanced''
       [GU (w32 fs 0), GU (w32 fs 1), GU (w32 fs 2), GPtr (w32 fs 3), GU (w32 fs 4)] s"
| "exec_fbo_op api OP_VERTEX_ATTRIB_DIVISOR fs s = pass_fields api ''glVertexAttribDivisor'' fs s"
| "exec_fbo_op api OP_VERTEX_ATTRIB_DIVISOR_NAMED fs s =
     (let loc = location api ''glGetAttribLocation'' (w32 fs 0) (wblob fs 1) s
      in if_located loc (do_gl api ''glVertexAttribDivisor'' [GU loc, GU (w32 fs 2)]) s)"

text \<open>The raster-state cases all pass their fields on unchanged.\<close>

primrec raster_fn :: "raster_op \<Rightarrow> string" where
  "raster_fn OP_BLEND_FUNC = ''glBlendFunc''"
| "raster_fn OP_BLEND_FUNC_SEPARATE = ''glBlendFuncSeparate''"
| "raster_fn OP_BLEND_EQUATION = ''glBlendEquation''"
| "raster_fn OP_BLEND_EQUATION_SEPARATE = ''glBlendEquationSeparate''"
| "raster_fn OP_BLEND_COLOR = ''glBlendColor''"
| "raster_fn OP_COLOR_MASK = ''glColorMask''"
| "raster_fn OP_DEPTH_MASK = ''glDepthMask''"
| "raster_fn OP_DEPTH_RANGEF = ''glDepthRangef''"
| "raster_fn OP_CLEAR_DEPTHF = ''glClearDepthf''"
| "raster_fn OP_CLEAR_STENCIL = ''glClearStencil''"
| "raster_fn OP_STENCIL_FUNC = ''glStencilFunc''"
| "raster_fn OP_STENCIL_FUNC_SEPARATE = ''glStencilFuncSeparate''"
| "raster_fn OP_STENCIL_OP = ''glStencilOp''"
| "raster_fn OP_STENCIL_OP_SEPARATE = ''glStencilOpSeparate''"
| "raster_fn OP_STENCIL_MASK = ''glStencilMask''"
| "raster_fn OP_STENCIL_MASK_SEPARATE = ''glStencilMaskSeparate''"
| "raster_fn OP_POLYGON_OFFSET = ''glPolygonOffset''"
| "raster_fn OP_LINE_WIDTH = ''glLineWidth''"
| "raster_fn OP_SAMPLE_COVERAGE = ''glSampleCoverage''"

definition exec_raster_op :: "'g gl_api \<Rightarrow> raster_op \<Rightarrow> wire_field list \<Rightarrow> 'g dstate \<Rightarrow> 'g dstate" where
  "exec_raster_op api op fs s = pass_fields api (raster_fn op) fs s"

definition words_or_null :: "u32 list \<Rightarrow> gl_arg" where
  "words_or_null ws = (if ws = [] then GNull else GWords ws)"

fun exec_gles3_op :: "'g gl_api \<Rightarrow> gles3_op \<Rightarrow> wire_field list \<Rightarrow> u32 list \<Rightarrow> 'g dstate \<Rightarrow> 'g dstate" where
  "exec_gles3_op api OP_BIND_BUFFER_BASE fs ws (st, g) =
     do_gl api ''glBindBufferBase'' [GU (w32 fs 0), GU (w32 fs 1), GU (real_buf st (w32 fs 2))] (st, g)"
| "exec_gles3_op api OP_BIND_BUFFER_RANGE fs ws (st, g) =
     do_gl api ''glBindBufferRange''
       [GU (w32 fs 0), GU (w32 fs 1), GU (real_buf st (w32 fs 2)), GU (w32 fs 3), GU (w32 fs 4)] (st, g)"
| "exec_gles3_op api OP_UNIFORM_BLOCK_BINDING fs ws s =
     (let idx = location api ''glGetUniformBlockIndex'' (w32 fs 0) (wblob fs 1) s
      in if idx \<noteq> 0xFFFFFFFF
         then do_gl api ''glUniformBlockBinding'' [GU (real_prog (fst s) (w32 fs 0)), GU idx, GU (w32 fs 2)] s
         else s)"
| "exec_gles3_op api OP_GEN_SAMPLER fs ws (st, g) =
     (let (n, g') = gl_create api ''glGenSamplers'' [] g
      in (st\<lparr>hs_samplers := (hs_samplers st)(w32 fs 0 \<mapsto> n)\<rparr>, g'))"
| "exec_gles3_op api OP_BIND_SAMPLER fs ws (st, g) =
     do_gl api ''glBindSampler'' [GU (w32 fs 0), GU (real_sampler st (w32 fs 1))] (st, g)"
| "exec_gles3_op api OP_SAMPLER_PARAMETERI fs ws (st, g) =
     do_gl api ''glSamplerParameteri'' [GU (real_sampler st (w32 fs 0)), GU (w32 fs 1), GU (w32 fs 2)] (st, g)"
| "exec_gles3_op api OP_DRAW_BUFFERS fs ws s =
     do_gl api ''glDrawBuffers'' [GU (w32 fs 0), words_or_null ws] s"
| "exec_gles3_op api OP_READ_BUFFER fs ws s = pass_fields api ''glReadBuffer'' fs s"
| "exec_gles3_op api OP_INVALIDATE_FRAMEBUFFER fs ws s =
     do_gl api ''glInvalidateFramebuffer'' [GU (w32 fs 0), GU (w32 fs 1), words_or_null ws] s"

primrec exec_op :: "'g gl_api \<Rightarrow> gles_op \<Rightarrow> wire_field list \<Rightarrow> u32 list \<Rightarrow> 'g dstate \<Rightarrow> 'g dstate" where
  "exec_op api (CoreOp x) fs ws s = exec_core_op api x fs s"
| "exec_op api (ShaderOp x) fs ws s = exec_shader_op api x fs s"
| "exec_op api (BufferOp x) fs ws s = exec_buffer_op api x fs s"
| "exec_op api (UniformOp x) fs ws s = exec_uniform_op api x fs ws s"
| "exec_op api (TextureOp x) fs ws s = exec_texture_op api x fs s"
| "exec_op api (AttribOp x) fs ws s = exec_attrib_op api x fs ws s"
| "exec_op api (FboOp x) fs ws s = exec_fbo_op api x fs s"
| "exec_op api (RasterOp x) fs ws s = exec_raster_op api x fs s"
| "exec_op api (Gles3Op x) fs ws s = exec_gles3_op api x fs ws s"

section \<open>The decode loop\<close>

definition count_decoded :: "'g dstate \<Rightarrow> 'g dstate" where
  "count_decoded s = ((fst s)\<lparr>hs_decoded := hs_decoded (fst s) + 1\<rparr>, snd s)"

definition fail_stop :: "'g dstate \<Rightarrow> 'g dstate" where
  "fail_stop s = ((fst s)\<lparr>hs_ok := False\<rparr>, snd s)"

definition decode_op :: "'g gl_api \<Rightarrow> gles_op \<Rightarrow> byte list \<Rightarrow> 'g dstate \<Rightarrow> ('g dstate \<times> byte list) option" where
  "decode_op api op r s =
     (case r_fields (op_format op) r of
        None \<Rightarrow> None
      | Some (fs, r1) \<Rightarrow>
          case op_tail op fs of
            None \<Rightarrow> None
          | Some n \<Rightarrow>
              case r_words n r1 of
                None \<Rightarrow> None
              | Some (ws, r2) \<Rightarrow> Some (count_decoded (exec_op api op fs ws s), r2))"

lemma decode_op_length: "decode_op api op r s = Some (s', r') \<Longrightarrow> length r' \<le> length r"
  by (auto simp: decode_op_def split: option.splits dest!: r_fields_length r_words_length)

function decode_loop :: "'g gl_api \<Rightarrow> byte list \<Rightarrow> 'g dstate \<Rightarrow> 'g dstate" where
  "decode_loop api r s =
     (if \<not> hs_ok (fst s) then s
      else
        case r of
          [] \<Rightarrow> s
        | b # r' \<Rightarrow>
            case op_of_byte b of
              None \<Rightarrow> fail_stop s
            | Some op \<Rightarrow>
                if op = CoreOp OP_END then s
                else
                  case decode_op api op r' s of
                    None \<Rightarrow> fail_stop s
                  | Some (s', r'') \<Rightarrow> decode_loop api r'' s')"
  by pat_completeness auto
termination
  by (relation "measure (\<lambda>(_, r, _). length r)") (auto dest: decode_op_length simp: le_imp_less_Suc)

declare decode_loop.simps [simp del]

definition decode_batch :: "'g gl_api \<Rightarrow> byte list \<Rightarrow> 'g dstate \<Rightarrow> bool \<times> 'g dstate" where
  "decode_batch api data s = (let s' = decode_loop api data s in (hs_ok (fst s'), s'))"

section \<open>Messages\<close>

lemma do_gl_fst [simp]: "fst (do_gl api fn args s) = fst s"
  by (simp add: do_gl_def)

lemma pass_fields_fst [simp]: "fst (pass_fields api fn fs s) = fst s"
  by (simp add: pass_fields_def)

lemma if_located_fst [simp]: "(\<And>s. fst (f s) = fst s) \<Longrightarrow> fst (if_located loc f s) = fst s"
  by (simp add: if_located_def)

text \<open>No message touches the integrity flag, the default framebuffer or the counter.\<close>

definition same_control :: "'g dstate \<Rightarrow> 'g dstate \<Rightarrow> bool" where
  "same_control s s' \<longleftrightarrow> hs_ok (fst s') = hs_ok (fst s) \<and> hs_default_fbo (fst s') = hs_default_fbo (fst s) \<and>
     hs_decoded (fst s') = hs_decoded (fst s)"

lemma same_control_fst: "fst s' = fst s \<Longrightarrow> same_control s s'"
  by (simp add: same_control_def)

lemma exec_core_control: "same_control s (exec_core_op api op fs s)"
  by (cases op) (simp_all add: same_control_fst)

lemma exec_shader_control: "same_control s (exec_shader_op api op fs s)"
  by (cases op; cases s) (simp_all add: same_control_def Let_def split: prod.splits)

lemma exec_buffer_control: "same_control s (exec_buffer_op api op fs s)"
  by (cases op; cases s) (simp_all add: same_control_def Let_def split: prod.splits)

lemma exec_uniform_control: "same_control s (exec_uniform_op api op fs ws s)"
  by (cases op) (simp_all add: same_control_fst Let_def)

lemma exec_texture_control: "same_control s (exec_texture_op api op fs s)"
  by (cases op; cases s) (simp_all add: same_control_def Let_def split: prod.splits)

lemma exec_attrib_control: "same_control s (exec_attrib_op api op fs ws s)"
  by (cases op) (simp_all add: same_control_fst Let_def)

lemma exec_fbo_control: "same_control s (exec_fbo_op api op fs s)"
  by (cases op; cases s) (simp_all add: same_control_def Let_def split: prod.splits)

lemma exec_gles3_control: "same_control s (exec_gles3_op api op fs ws s)"
  by (cases op; cases s) (simp_all add: same_control_def Let_def split: prod.splits)

lemma exec_op_control: "same_control s (exec_op api op fs ws s)"
  by (cases op)
    (simp_all add: exec_core_control exec_shader_control exec_buffer_control exec_uniform_control
      exec_texture_control exec_attrib_control exec_fbo_control exec_gles3_control exec_raster_op_def same_control_fst)

type_synonym message = "gles_op \<times> wire_field list \<times> u32 list"

definition message_ok :: "message \<Rightarrow> bool" where
  "message_ok m = (case m of (op, fs, ws) \<Rightarrow>
     op \<noteq> CoreOp OP_END \<and> map kind_of fs = op_format op \<and> list_all field_ok fs \<and> op_tail op fs = Some (length ws))"

text \<open>A message as the guest's builders write it: the opcode, the fields and the trailing words.\<close>

definition message_fields :: "message \<Rightarrow> wire_field list" where
  "message_fields m = (case m of (op, fs, ws) \<Rightarrow> F8 (alr_op_code op) # fs @ map F32 ws)"

definition message_bytes :: "message \<Rightarrow> byte list" where
  "message_bytes m = fields_bytes (message_fields m)"

definition run_message :: "'g gl_api \<Rightarrow> message \<Rightarrow> 'g dstate \<Rightarrow> 'g dstate" where
  "run_message api m s = (case m of (op, fs, ws) \<Rightarrow> count_decoded (exec_op api op fs ws s))"

definition run_messages :: "'g gl_api \<Rightarrow> message list \<Rightarrow> 'g dstate \<Rightarrow> 'g dstate" where
  "run_messages api ms s = fold (run_message api) ms s"

lemma fields_bytes_words [simp]: "fields_bytes (map F32 ws) = concat (map le32 ws)"
  by (induction ws) simp_all

lemma message_bytes_eq: "message_bytes (op, fs, ws) = alr_op_code op # fields_bytes fs @ concat (map le32 ws)"
  by (simp add: message_bytes_def message_fields_def)

lemma decode_op_message:
  "message_ok (op, fs, ws) \<Longrightarrow>
   decode_op api op (fields_bytes fs @ concat (map le32 ws) @ r) s = Some (run_message api (op, fs, ws) s, r)"
  using r_fields_bytes [of fs "concat (map le32 ws) @ r"] r_words_bytes [of ws r]
  by (simp add: decode_op_def message_ok_def run_message_def)

lemma run_message_ok [simp]: "hs_ok (fst (run_message api m s)) = hs_ok (fst s)"
  using exec_op_control [of s api "fst m" "fst (snd m)" "snd (snd m)"]
  by (cases m) (simp add: run_message_def count_decoded_def same_control_def)

lemma run_message_decoded: "hs_decoded (fst (run_message api m s)) = hs_decoded (fst s) + 1"
  using exec_op_control [of s api "fst m" "fst (snd m)" "snd (snd m)"]
  by (cases m) (simp add: run_message_def count_decoded_def same_control_def)

lemma decode_message:
  assumes "message_ok m" "hs_ok (fst s)"
  shows "decode_loop api (message_bytes m @ r) s = decode_loop api r (run_message api m s)"
proof -
  obtain op fs ws where m: "m = (op, fs, ws)" by (cases m)
  have "op \<noteq> CoreOp OP_END" using assms(1) by (simp add: m message_ok_def)
  then show ?thesis
    using assms decode_op_message [of op fs ws api r s]
    by (subst decode_loop.simps) (simp add: m message_bytes_eq op_of_byte_code)
qed

lemma decode_messages:
  "list_all message_ok ms \<Longrightarrow> hs_ok (fst s) \<Longrightarrow>
   decode_loop api (concat (map message_bytes ms) @ r) s = decode_loop api r (run_messages api ms s)"
  by (induction ms arbitrary: s) (simp_all add: decode_message run_messages_def)

lemma run_messages_ok [simp]: "hs_ok (fst (run_messages api ms s)) = hs_ok (fst s)"
  by (induction ms arbitrary: s) (simp_all add: run_messages_def)

lemma run_messages_decoded: "hs_decoded (fst (run_messages api ms s)) = hs_decoded (fst s) + int (length ms)"
  by (induction ms arbitrary: s) (simp_all add: run_messages_def run_message_decoded)

lemma decode_batch_messages:
  assumes "list_all message_ok ms" "hs_ok st"
  shows "decode_batch api (concat (map message_bytes ms)) (st, g) = (True, run_messages api ms (st, g))"
proof -
  have "decode_loop api (concat (map message_bytes ms)) (st, g) = run_messages api ms (st, g)"
    using decode_messages [of ms "(st, g)" api "[]"] assms by (simp add: decode_loop.simps [of _ "[]"])
  then show ?thesis using assms(2) by (simp add: decode_batch_def Let_def)
qed

text \<open>Short reads.\<close>

lemma r_words_size: "r_words n r = Some (ws, r') \<Longrightarrow> length r = 4 * n + length r'"
  by (induction n arbitrary: r ws) (fastforce simp: r_u32_def r_take_def split: option.splits if_splits)+

lemma prefix_field:
  assumes "field_ok f" "p @ q = field_bytes f @ t"
  shows "r_field (kind_of f) p = None \<or> (\<exists>p'. r_field (kind_of f) p = Some (f, p') \<and> p' @ q = t)"
proof (cases "length p < length (field_bytes f)")
  case True
  have "r_field (kind_of f) p = None"
  proof (cases f)
    case (FBlob d)
    show ?thesis
    proof (cases "length p < 4")
      case True
      then show ?thesis by (simp add: FBlob r_blob_def r_u32_def r_take_def)
    next
      case False
      have "le32 (of_nat (length d)) = take 4 p"
        using arg_cong [OF assms(2), of "take 4"] False by (simp add: FBlob)
      then have "of_le32 (take 4 p) = of_nat (length d)" using of_le32_le32 [of "of_nat (length d)"] by simp
      then have "r_u32 p = Some (of_nat (length d), drop 4 p)"
        using False by (simp add: r_u32_def r_take_def)
      moreover have "length (drop 4 p) < length d" using \<open>length p < length (field_bytes f)\<close> False by (simp add: FBlob)
      ultimately show ?thesis using assms(1) by (simp add: FBlob r_blob_def r_take_def field_ok_def unat_of_nat)
    qed
  qed (use True in \<open>simp_all add: r_u8_def r_u32_def r_take_def\<close>)
  then show ?thesis ..
next
  case False
  let ?n = "length (field_bytes f)"
  have "take ?n p = field_bytes f" using arg_cong [OF assms(2), of "take ?n"] False by simp
  then have "p = field_bytes f @ drop ?n p" by (metis append_take_drop_id)
  moreover have "drop ?n p @ q = t" using arg_cong [OF assms(2), of "drop ?n"] False by simp
  ultimately obtain p' where "p = field_bytes f @ p'" "p' @ q = t" by blast
  with r_field_bytes [OF assms(1)] show ?thesis by auto
qed

lemma prefix_fields:
  "list_all field_ok fs \<Longrightarrow> p @ q = fields_bytes fs @ t \<Longrightarrow>
   r_fields (map kind_of fs) p = None \<or> (\<exists>p'. r_fields (map kind_of fs) p = Some (fs, p') \<and> p' @ q = t)"
proof (induction fs arbitrary: p)
  case (Cons f fs)
  then have "r_field (kind_of f) p = None \<or> (\<exists>p'. r_field (kind_of f) p = Some (f, p') \<and> p' @ q = fields_bytes fs @ t)"
    by (intro prefix_field) simp_all
  with Cons show ?case by fastforce
qed simp

lemma decode_truncated:
  assumes "message_ok m" "hs_ok (fst s)" "p @ q = message_bytes m" "p \<noteq> []" "q \<noteq> []"
  shows "decode_loop api p s = fail_stop s"
proof -
  obtain op fs ws where m: "m = (op, fs, ws)" by (cases m)
  from assms(3,4) obtain p1 where p: "p = alr_op_code op # p1" "p1 @ q = fields_bytes fs @ concat (map le32 ws)"
    by (cases p) (auto simp: m message_bytes_eq)
  have ok: "op \<noteq> CoreOp OP_END" "map kind_of fs = op_format op" "list_all field_ok fs" "op_tail op fs = Some (length ws)"
    using assms(1) by (simp_all add: m message_ok_def)
  have "decode_op api op p1 s = None"
  proof (cases "r_fields (op_format op) p1")
    case (Some a)
    then obtain p' where a: "a = (fs, p')" "p' @ q = concat (map le32 ws)"
      using prefix_fields [OF ok(3) p(2)] ok(2) by auto
    have "length (concat (map le32 ws)) = 4 * length ws" by (induction ws) simp_all
    then have "length p' < 4 * length ws" using arg_cong [OF a(2), of length] assms(5) by (cases q) simp_all
    then have "r_words (length ws) p' = None" using r_words_size by (cases "r_words (length ws) p'") fastforce+
    then show ?thesis by (simp add: decode_op_def Some a ok(4))
  qed (simp add: decode_op_def)
  then show ?thesis using assms(2) ok(1) by (subst decode_loop.simps) (simp add: p(1) op_of_byte_code)
qed

section \<open>Properties of the decoder\<close>

text \<open>A GL library that records its calls and numbers its objects.\<close>

definition recording_gl :: "(nat \<times> (string \<times> gl_arg list) list) gl_api" where
  "recording_gl =
     \<lparr>gl_create = (\<lambda>fn ws (n, tr). (of_nat n, (Suc n, tr @ [(fn, map GU ws)]))),
      gl_query = (\<lambda>fn p name g. 0),
      gl_call = (\<lambda>fn args (n, tr). (n, tr @ [(fn, args)]))\<rparr>"

definition sample_messages :: "message list" where
  "sample_messages =
     [(CoreOp OP_VIEWPORT, [F32 0, F32 0, F32 64, F32 64], []),
      (ShaderOp OP_CREATE_PROGRAM, [F32 1], []),
      (UniformOp OP_UNIFORM_FV, [F32 1, FBlob [0x63], F8 2, F32 1], [5, 6])]"

lemma sample_messages_ok: "list_all message_ok sample_messages"
proof -
  have "k32s 4 = [K32, K32, K32, K32]" "k32s 1 = [K32]" by (simp_all add: k32s_def numeral_eq_Suc)
  then show ?thesis by (simp add: sample_messages_def message_ok_def field_ok_def w8_def w32_def)
qed

lemma initial_host_ok [simp]: "hs_ok (initial_host_state fbo)"
  by (simp add: initial_host_state_def)

lemma encode_message:
  "(if length (message_bytes m) \<le> cap
    then fold alr_enc_field (message_fields m) (alr_enc_init cap) =
           \<lparr>ae_bytes = message_bytes m, ae_cap = cap, ae_overflow = False\<rparr>
    else ae_overflow (fold alr_enc_field (message_fields m) (alr_enc_init cap)))"
  using alr_enc_fields [of "alr_enc_init cap" "message_fields m"]
  by (cases m) (auto simp: alr_enc_init_def message_bytes_def message_fields_def)

lemma fold_enc_field: "fold enc_field fs buf = buf @ fields_bytes fs"
  by (induction fs arbitrary: buf) (simp_all add: enc_field_bytes)

text \<open>C19. What the guest encodes is what the host replays.  A message that fits the guest's buffer is written
  by the guest's encoder exactly as by the host's own encoder; a sequence of well-formed messages is decoded
  to the same sequence of GL effects in order, every byte is consumed, the stream is accepted and the
  counter advances by the number of messages.\<close>

theorem decode_replays_messages:
  assumes "list_all message_ok ms" "hs_ok st"
  shows "(\<forall>m \<in> set ms. length (message_bytes m) \<le> cap \<longrightarrow>
           fold alr_enc_field (message_fields m) (alr_enc_init cap) =
             \<lparr>ae_bytes = fold enc_field (message_fields m) [], ae_cap = cap, ae_overflow = False\<rparr>) \<and>
         decode_batch api (concat (map (\<lambda>m. fold enc_field (message_fields m) []) ms)) (st, g) =
           (True, run_messages api ms (st, g)) \<and>
         hs_decoded (fst (run_messages api ms (st, g))) = hs_decoded st + int (length ms)"
proof -
  have b: "fold enc_field (message_fields m) [] = message_bytes m" for m
    by (simp add: fold_enc_field message_bytes_def)
  have "decode_batch api (concat (map message_bytes ms)) (st, g) = (True, run_messages api ms (st, g))"
    using assms by (rule decode_batch_messages)
  moreover have "length (message_bytes m) \<le> cap \<longrightarrow> fold alr_enc_field (message_fields m) (alr_enc_init cap) =
      \<lparr>ae_bytes = message_bytes m, ae_cap = cap, ae_overflow = False\<rparr>" for m
    using encode_message [of m cap] by simp
  ultimately show ?thesis unfolding b using run_messages_decoded [of api ms "(st, g)"] by simp
qed

theorem decode_replays_messages_witness:
  "decode_batch recording_gl (concat (map (\<lambda>m. fold enc_field (message_fields m) []) sample_messages))
     (initial_host_state 7, (1, [])) =
   (True, run_messages recording_gl sample_messages (initial_host_state 7, (1, [])))"
  using decode_replays_messages [OF sample_messages_ok initial_host_ok [of 7], of 0 recording_gl "(1, [])"] by blast



end
