(* ===== verification/Gles_Builders.thy ===== *)
theory Gles_Builders
  imports Gles_Decode
begin

text \<open>
  The messages of the guest's GLES shim, \<^verbatim>\<open>alr_gpu/guest_shim/alr_gles_shim.c\<close>: one definition per builder,
  with the argument structure it packs.  Integers, enumerations and floats are 32-bit patterns, booleans are
  written as 0 or 1, and C strings are byte lists up to their terminator.  The pixel uploads repack the
  source rows according to the unpack state.
\<close>

unbundle bit_operations_syntax

definition flag_byte :: "bool \<Rightarrow> byte" where
  "flag_byte b = (if b then 1 else 0)"

section \<open>Messages with fixed fields\<close>

definition build_viewport :: "u32 \<Rightarrow> u32 \<Rightarrow> u32 \<Rightarrow> u32 \<Rightarrow> message" where
  "build_viewport x y w h = (CoreOp OP_VIEWPORT, [F32 x, F32 y, F32 w, F32 h], [])"

definition build_clearcolor :: "u32 \<Rightarrow> u32 \<Rightarrow> u32 \<Rightarrow> u32 \<Rightarrow> message" where
  "build_clearcolor r g b a = (CoreOp OP_CLEARCOLOR, [F32 r, F32 g, F32 b, F32 a], [])"

definition build_clear :: "message" where
  "build_clear = (CoreOp OP_CLEAR, [], [])"

definition build_enable :: "u32 \<Rightarrow> message" where
  "build_enable cap = (TextureOp OP_ENABLE, [F32 cap], [])"

definition build_disable :: "u32 \<Rightarrow> message" where
  "build_disable cap = (TextureOp OP_DISABLE, [F32 cap], [])"

definition build_depthfunc :: "u32 \<Rightarrow> message" where
  "build_depthfunc func = (TextureOp OP_DEPTH_FUNC, [F32 func], [])"

definition build_cull_face :: "u32 \<Rightarrow> message" where
  "build_cull_face mode = (TextureOp OP_CULL_FACE, [F32 mode], [])"

definition build_front_face :: "u32 \<Rightarrow> message" where
  "build_front_face mode = (TextureOp OP_FRONT_FACE, [F32 mode], [])"

definition build_scissor :: "u32 \<Rightarrow> u32 \<Rightarrow> u32 \<Rightarrow> u32 \<Rightarrow> message" where
  "build_scissor x y w h = (CoreOp OP_SCISSOR, [F32 x, F32 y, F32 w, F32 h], [])"

definition build_create_shader :: "u32 \<Rightarrow> u32 \<Rightarrow> message" where
  "build_create_shader vid type = (ShaderOp OP_CREATE_SHADER, [F32 vid, F32 type], [])"

definition build_shader_source :: "u32 \<Rightarrow> byte list \<Rightarrow> message" where
  "build_shader_source vid src = (ShaderOp OP_SHADER_SOURCE, [F32 vid, FBlob src], [])"

definition build_compile_shader :: "u32 \<Rightarrow> message" where
  "build_compile_shader vid = (ShaderOp OP_COMPILE_SHADER, [F32 vid], [])"

definition build_create_program :: "u32 \<Rightarrow> message" where
  "build_create_program vid = (ShaderOp OP_CREATE_PROGRAM, [F32 vid], [])"

definition build_attach :: "u32 \<Rightarrow> u32 \<Rightarrow> message" where
  "build_attach vprog vshader = (ShaderOp OP_ATTACH_SHADER, [F32 vprog, F32 vshader], [])"

definition build_bind_attrib :: "u32 \<Rightarrow> u32 \<Rightarrow> byte list \<Rightarrow> message" where
  "build_bind_attrib vprog index name =
     (ShaderOp OP_BIND_ATTRIB_LOCATION, [F32 vprog, F32 index, FBlob (c_name name)], [])"

definition build_link :: "u32 \<Rightarrow> message" where
  "build_link vid = (ShaderOp OP_LINK_PROGRAM, [F32 vid], [])"

definition build_use :: "u32 \<Rightarrow> message" where
  "build_use vid = (ShaderOp OP_USE_PROGRAM, [F32 vid], [])"

definition build_gen_buffer :: "u32 \<Rightarrow> message" where
  "build_gen_buffer vid = (BufferOp OP_GEN_BUFFER, [F32 vid], [])"

definition build_bind_buffer :: "u32 \<Rightarrow> u32 \<Rightarrow> message" where
  "build_bind_buffer target vid = (BufferOp OP_BIND_BUFFER, [F32 target, F32 vid], [])"

definition build_buffer_data :: "u32 \<Rightarrow> byte list \<Rightarrow> u32 \<Rightarrow> message" where
  "build_buffer_data target data usage = (BufferOp OP_BUFFER_DATA, [F32 target, FBlob data, F32 usage], [])"

definition build_buffer_subdata :: "u32 \<Rightarrow> u32 \<Rightarrow> byte list \<Rightarrow> message" where
  "build_buffer_subdata target offset data = (BufferOp OP_BUFFER_SUBDATA, [F32 target, F32 offset, FBlob data], [])"

definition build_enable_vaa :: "u32 \<Rightarrow> message" where
  "build_enable_vaa index = (BufferOp OP_ENABLE_VAA, [F32 index], [])"

definition build_enable_vaa_named :: "u32 \<Rightarrow> byte list \<Rightarrow> message" where
  "build_enable_vaa_named vprog name = (AttribOp OP_ENABLE_VAA_NAMED, [F32 vprog, FBlob (c_name name)], [])"

definition build_vap :: "u32 \<Rightarrow> u32 \<Rightarrow> u32 \<Rightarrow> bool \<Rightarrow> u32 \<Rightarrow> u32 \<Rightarrow> message" where
  "build_vap index sz type norm stride offset =
     (BufferOp OP_VERTEX_ATTRIB_POINTER, [F32 index, F32 sz, F32 type, F8 (flag_byte norm), F32 stride, F32 offset], [])"

definition build_vap_named :: "u32 \<Rightarrow> byte list \<Rightarrow> u32 \<Rightarrow> u32 \<Rightarrow> bool \<Rightarrow> u32 \<Rightarrow> u32 \<Rightarrow> message" where
  "build_vap_named vprog name sz type norm stride offset =
     (AttribOp OP_VERTEX_ATTRIB_POINTER_NAMED, [F32 vprog, FBlob (c_name name), F32 sz, F32 type, F8 (flag_byte norm), F32 stride, F32 offset], [])"

definition build_draw_arrays :: "u32 \<Rightarrow> u32 \<Rightarrow> u32 \<Rightarrow> message" where
  "build_draw_arrays mode first count = (BufferOp OP_DRAW_ARRAYS, [F32 mode, F32 first, F32 count], [])"

definition build_draw_elements :: "u32 \<Rightarrow> u32 \<Rightarrow> u32 \<Rightarrow> u32 \<Rightarrow> message" where
  "build_draw_elements mode count type offset =
     (AttribOp OP_DRAW_ELEMENTS, [F32 mode, F32 count, F32 type, F32 offset], [])"

definition build_uniform1i :: "u32 \<Rightarrow> byte list \<Rightarrow> u32 \<Rightarrow> message" where
  "build_uniform1i vprog name value = (UniformOp OP_UNIFORM1I, [F32 vprog, FBlob (c_name name), F32 value], [])"

definition build_gen_texture :: "u32 \<Rightarrow> message" where
  "build_gen_texture vid = (TextureOp OP_GEN_TEXTURE, [F32 vid], [])"

definition build_active_texture :: "u32 \<Rightarrow> message" where
  "build_active_texture unit = (TextureOp OP_ACTIVE_TEXTURE, [F32 unit], [])"

definition build_bind_texture :: "u32 \<Rightarrow> u32 \<Rightarrow> message" where
  "build_bind_texture target vid = (TextureOp OP_BIND_TEXTURE, [F32 target, F32 vid], [])"

definition build_tex_parameteri :: "u32 \<Rightarrow> u32 \<Rightarrow> u32 \<Rightarrow> message" where
  "build_tex_parameteri target pname param = (TextureOp OP_TEX_PARAMETERI, [F32 target, F32 pname, F32 param], [])"

definition build_tex_image_2d :: "u32 \<Rightarrow> u32 \<Rightarrow> u32 \<Rightarrow> u32 \<Rightarrow> u32 \<Rightarrow> u32 \<Rightarrow> u32 \<Rightarrow> byte list \<Rightarrow> message" where
  "build_tex_image_2d target level ifmt w h fmt type pixels =
     (TextureOp OP_TEX_IMAGE_2D, [F32 target, F32 level, F32 ifmt, F32 w, F32 h, F32 fmt, F32 type, FBlob pixels], [])"

definition build_generate_mipmap :: "u32 \<Rightarrow> message" where
  "build_generate_mipmap target = (TextureOp OP_GENERATE_MIPMAP, [F32 target], [])"

definition build_tex_subimage_2d :: "u32 \<Rightarrow> u32 \<Rightarrow> u32 \<Rightarrow> u32 \<Rightarrow> u32 \<Rightarrow> u32 \<Rightarrow> u32 \<Rightarrow> u32 \<Rightarrow> byte list \<Rightarrow> message" where
  "build_tex_subimage_2d target level xoff yoff w h fmt type pixels =
     (TextureOp OP_TEX_SUBIMAGE_2D, [F32 target, F32 level, F32 xoff, F32 yoff, F32 w, F32 h, F32 fmt, F32 type, FBlob pixels], [])"

definition build_gen_framebuffer :: "u32 \<Rightarrow> message" where
  "build_gen_framebuffer vid = (FboOp OP_GEN_FRAMEBUFFER, [F32 vid], [])"

definition build_bind_framebuffer :: "u32 \<Rightarrow> u32 \<Rightarrow> message" where
  "build_bind_framebuffer target vid = (FboOp OP_BIND_FRAMEBUFFER, [F32 target, F32 vid], [])"

definition build_framebuffer_texture2d :: "u32 \<Rightarrow> u32 \<Rightarrow> u32 \<Rightarrow> u32 \<Rightarrow> u32 \<Rightarrow> message" where
  "build_framebuffer_texture2d target attachment textarget vtex level =
     (FboOp OP_FRAMEBUFFER_TEXTURE2D, [F32 target, F32 attachment, F32 textarget, F32 vtex, F32 level], [])"

definition build_gen_renderbuffer :: "u32 \<Rightarrow> message" where
  "build_gen_renderbuffer vid = (FboOp OP_GEN_RENDERBUFFER, [F32 vid], [])"

definition build_bind_renderbuffer :: "u32 \<Rightarrow> u32 \<Rightarrow> message" where
  "build_bind_renderbuffer target vid = (FboOp OP_BIND_RENDERBUFFER, [F32 target, F32 vid], [])"

definition build_renderbuffer_storage :: "u32 \<Rightarrow> u32 \<Rightarrow> u32 \<Rightarrow> u32 \<Rightarrow> message" where
  "build_renderbuffer_storage target ifmt w h =
     (FboOp OP_RENDERBUFFER_STORAGE, [F32 target, F32 ifmt, F32 w, F32 h], [])"

definition build_framebuffer_renderbuffer :: "u32 \<Rightarrow> u32 \<Rightarrow> u32 \<Rightarrow> u32 \<Rightarrow> message" where
  "build_framebuffer_renderbuffer target attachment rbtarget vrb =
     (FboOp OP_FRAMEBUFFER_RENDERBUFFER, [F32 target, F32 attachment, F32 rbtarget, F32 vrb], [])"

definition build_gen_vertex_array :: "u32 \<Rightarrow> message" where
  "build_gen_vertex_array vid = (FboOp OP_GEN_VERTEX_ARRAY, [F32 vid], [])"

definition build_bind_vertex_array :: "u32 \<Rightarrow> message" where
  "build_bind_vertex_array vid = (FboOp OP_BIND_VERTEX_ARRAY, [F32 vid], [])"

definition build_draw_arrays_instanced :: "u32 \<Rightarrow> u32 \<Rightarrow> u32 \<Rightarrow> u32 \<Rightarrow> message" where
  "build_draw_arrays_instanced mode first count inst =
     (FboOp OP_DRAW_ARRAYS_INSTANCED, [F32 mode, F32 first, F32 count, F32 inst], [])"

definition build_draw_elements_instanced :: "u32 \<Rightarrow> u32 \<Rightarrow> u32 \<Rightarrow> u32 \<Rightarrow> u32 \<Rightarrow> message" where
  "build_draw_elements_instanced mode count type offset inst =
     (FboOp OP_DRAW_ELEMENTS_INSTANCED, [F32 mode, F32 count, F32 type, F32 offset, F32 inst], [])"

definition build_vad :: "u32 \<Rightarrow> u32 \<Rightarrow> message" where
  "build_vad index divisor = (FboOp OP_VERTEX_ATTRIB_DIVISOR, [F32 index, F32 divisor], [])"

definition build_vad_named :: "u32 \<Rightarrow> byte list \<Rightarrow> u32 \<Rightarrow> message" where
  "build_vad_named vprog name divisor =
     (FboOp OP_VERTEX_ATTRIB_DIVISOR_NAMED, [F32 vprog, FBlob (c_name name), F32 divisor], [])"

definition build_bind_buffer_base :: "u32 \<Rightarrow> u32 \<Rightarrow> u32 \<Rightarrow> message" where
  "build_bind_buffer_base target index vid = (Gles3Op OP_BIND_BUFFER_BASE, [F32 target, F32 index, F32 vid], [])"

definition build_bind_buffer_range :: "u32 \<Rightarrow> u32 \<Rightarrow> u32 \<Rightarrow> u32 \<Rightarrow> u32 \<Rightarrow> message" where
  "build_bind_buffer_range target index vid offset sz =
     (Gles3Op OP_BIND_BUFFER_RANGE, [F32 target, F32 index, F32 vid, F32 offset, F32 sz], [])"

definition build_uniform_block_binding :: "u32 \<Rightarrow> byte list \<Rightarrow> u32 \<Rightarrow> message" where
  "build_uniform_block_binding vprog name binding =
     (Gles3Op OP_UNIFORM_BLOCK_BINDING, [F32 vprog, FBlob (c_name name), F32 binding], [])"

definition build_gen_sampler :: "u32 \<Rightarrow> message" where
  "build_gen_sampler vid = (Gles3Op OP_GEN_SAMPLER, [F32 vid], [])"

definition build_bind_sampler :: "u32 \<Rightarrow> u32 \<Rightarrow> message" where
  "build_bind_sampler unit vid = (Gles3Op OP_BIND_SAMPLER, [F32 unit, F32 vid], [])"

definition build_sampler_parameteri :: "u32 \<Rightarrow> u32 \<Rightarrow> u32 \<Rightarrow> message" where
  "build_sampler_parameteri vid pname param = (Gles3Op OP_SAMPLER_PARAMETERI, [F32 vid, F32 pname, F32 param], [])"

definition build_read_buffer :: "u32 \<Rightarrow> message" where
  "build_read_buffer mode = (Gles3Op OP_READ_BUFFER, [F32 mode], [])"

definition build_blend_func :: "u32 \<Rightarrow> u32 \<Rightarrow> message" where
  "build_blend_func sfactor dfactor = (RasterOp OP_BLEND_FUNC, [F32 sfactor, F32 dfactor], [])"

definition build_blend_func_separate :: "u32 \<Rightarrow> u32 \<Rightarrow> u32 \<Rightarrow> u32 \<Rightarrow> message" where
  "build_blend_func_separate src_rgb dst_rgb src_alpha dst_alpha =
     (RasterOp OP_BLEND_FUNC_SEPARATE, [F32 src_rgb, F32 dst_rgb, F32 src_alpha, F32 dst_alpha], [])"

definition build_blend_equation :: "u32 \<Rightarrow> message" where
  "build_blend_equation mode = (RasterOp OP_BLEND_EQUATION, [F32 mode], [])"

definition build_blend_equation_separate :: "u32 \<Rightarrow> u32 \<Rightarrow> message" where
  "build_blend_equation_separate mode_rgb mode_alpha =
     (RasterOp OP_BLEND_EQUATION_SEPARATE, [F32 mode_rgb, F32 mode_alpha], [])"

definition build_blend_color :: "u32 \<Rightarrow> u32 \<Rightarrow> u32 \<Rightarrow> u32 \<Rightarrow> message" where
  "build_blend_color r g b a = (RasterOp OP_BLEND_COLOR, [F32 r, F32 g, F32 b, F32 a], [])"

definition build_color_mask :: "bool \<Rightarrow> bool \<Rightarrow> bool \<Rightarrow> bool \<Rightarrow> message" where
  "build_color_mask r g b a =
     (RasterOp OP_COLOR_MASK, [F8 (flag_byte r), F8 (flag_byte g), F8 (flag_byte b), F8 (flag_byte a)], [])"

definition build_depth_mask :: "bool \<Rightarrow> message" where
  "build_depth_mask flag = (RasterOp OP_DEPTH_MASK, [F8 (flag_byte flag)], [])"

definition build_depth_rangef :: "u32 \<Rightarrow> u32 \<Rightarrow> message" where
  "build_depth_rangef n f = (RasterOp OP_DEPTH_RANGEF, [F32 n, F32 f], [])"

definition build_clear_depthf :: "u32 \<Rightarrow> message" where
  "build_clear_depthf d = (RasterOp OP_CLEAR_DEPTHF, [F32 d], [])"

definition build_clear_stencil :: "u32 \<Rightarrow> message" where
  "build_clear_stencil s = (RasterOp OP_CLEAR_STENCIL, [F32 s], [])"

definition build_stencil_func :: "u32 \<Rightarrow> u32 \<Rightarrow> u32 \<Rightarrow> message" where
  "build_stencil_func func ref msk = (RasterOp OP_STENCIL_FUNC, [F32 func, F32 ref, F32 msk], [])"

definition build_stencil_func_separate :: "u32 \<Rightarrow> u32 \<Rightarrow> u32 \<Rightarrow> u32 \<Rightarrow> message" where
  "build_stencil_func_separate face func ref msk =
     (RasterOp OP_STENCIL_FUNC_SEPARATE, [F32 face, F32 func, F32 ref, F32 msk], [])"

definition build_stencil_op :: "u32 \<Rightarrow> u32 \<Rightarrow> u32 \<Rightarrow> message" where
  "build_stencil_op sfail dpfail dppass = (RasterOp OP_STENCIL_OP, [F32 sfail, F32 dpfail, F32 dppass], [])"

definition build_stencil_op_separate :: "u32 \<Rightarrow> u32 \<Rightarrow> u32 \<Rightarrow> u32 \<Rightarrow> message" where
  "build_stencil_op_separate face sfail dpfail dppass =
     (RasterOp OP_STENCIL_OP_SEPARATE, [F32 face, F32 sfail, F32 dpfail, F32 dppass], [])"

definition build_stencil_mask :: "u32 \<Rightarrow> message" where
  "build_stencil_mask m = (RasterOp OP_STENCIL_MASK, [F32 m], [])"

definition build_stencil_mask_separate :: "u32 \<Rightarrow> u32 \<Rightarrow> message" where
  "build_stencil_mask_separate face m = (RasterOp OP_STENCIL_MASK_SEPARATE, [F32 face, F32 m], [])"

definition build_polygon_offset :: "u32 \<Rightarrow> u32 \<Rightarrow> message" where
  "build_polygon_offset factor units = (RasterOp OP_POLYGON_OFFSET, [F32 factor, F32 units], [])"

definition build_line_width :: "u32 \<Rightarrow> message" where
  "build_line_width w = (RasterOp OP_LINE_WIDTH, [F32 w], [])"

definition build_sample_coverage :: "u32 \<Rightarrow> bool \<Rightarrow> message" where
  "build_sample_coverage v invert = (RasterOp OP_SAMPLE_COVERAGE, [F32 v, F8 (flag_byte invert)], [])"


section \<open>Messages with arrays\<close>

text \<open>The element counts are products of 32-bit words and may wrap.\<close>

definition build_uniform_mat4 :: "u32 \<Rightarrow> byte list \<Rightarrow> u32 list \<Rightarrow> message" where
  "build_uniform_mat4 vprog name m = (UniformOp OP_UNIFORM_MATRIX4FV, [F32 vprog, FBlob (c_name name)], take 16 m)"

definition build_uniform_fv :: "u32 \<Rightarrow> byte list \<Rightarrow> byte \<Rightarrow> u32 \<Rightarrow> u32 list \<Rightarrow> message" where
  "build_uniform_fv vprog name cols count v =
     (UniformOp OP_UNIFORM_FV, [F32 vprog, FBlob (c_name name), F8 cols, F32 count],
      take (unat (ucast cols * count)) v)"

definition build_uniform_iv :: "u32 \<Rightarrow> byte list \<Rightarrow> byte \<Rightarrow> u32 \<Rightarrow> u32 list \<Rightarrow> message" where
  "build_uniform_iv vprog name cols count v =
     (UniformOp OP_UNIFORM_IV, [F32 vprog, FBlob (c_name name), F8 cols, F32 count],
      take (unat (ucast cols * count)) v)"

definition build_uniform_matrix_fv :: "u32 \<Rightarrow> byte list \<Rightarrow> byte \<Rightarrow> u32 \<Rightarrow> u32 list \<Rightarrow> message" where
  "build_uniform_matrix_fv vprog name dim count m =
     (UniformOp OP_UNIFORM_MATRIX_FV, [F32 vprog, FBlob (c_name name), F8 dim, F32 count],
      take (unat (ucast dim * ucast dim * count)) m)"

definition build_vattrib_f :: "u32 \<Rightarrow> byte \<Rightarrow> u32 list \<Rightarrow> message" where
  "build_vattrib_f index ncomp v = (AttribOp OP_VERTEX_ATTRIB_F, [F32 index, F8 ncomp], take (unat ncomp) v)"

definition build_vattrib_f_named :: "u32 \<Rightarrow> byte list \<Rightarrow> byte \<Rightarrow> u32 list \<Rightarrow> message" where
  "build_vattrib_f_named vprog name ncomp v =
     (AttribOp OP_VERTEX_ATTRIB_F_NAMED, [F32 vprog, FBlob (c_name name), F8 ncomp], take (unat ncomp) v)"

definition build_draw_buffers :: "u32 \<Rightarrow> u32 list \<Rightarrow> message" where
  "build_draw_buffers n bufs = (Gles3Op OP_DRAW_BUFFERS, [F32 n], take (unat n) bufs)"

definition build_invalidate_framebuffer :: "u32 \<Rightarrow> u32 \<Rightarrow> u32 list \<Rightarrow> message" where
  "build_invalidate_framebuffer target n att = (Gles3Op OP_INVALIDATE_FRAMEBUFFER, [F32 target, F32 n], take (unat n) att)"

section \<open>Pixel uploads\<close>

definition gl_type_bytes :: "u32 \<Rightarrow> nat" where
  "gl_type_bytes type =
     (if type = 0x1401 \<or> type = 0x1400 then 1
      else if type = 0x1403 \<or> type = 0x1402 then 2
      else if type = 0x1405 \<or> type = 0x1404 \<or> type = 0x1406 then 4
      else 1)"

definition gl_format_components :: "u32 \<Rightarrow> nat" where
  "gl_format_components fmt =
     (if fmt = 0x1908 then 4 else if fmt = 0x1907 then 3 else if fmt = 0x190A then 2
      else if fmt = 0x1909 then 1 else 4)"

record unpack_state =
  up_alignment :: int
  up_row_length :: int
  up_skip_rows :: int
  up_skip_pixels :: int

definition unpack_default :: unpack_state where
  "unpack_default = \<lparr>up_alignment = 4, up_row_length = 0, up_skip_rows = 0, up_skip_pixels = 0\<rparr>"

definition glPixelStorei :: "u32 \<Rightarrow> int \<Rightarrow> unpack_state \<Rightarrow> unpack_state" where
  "glPixelStorei pname param u =
     (if pname = 0x0CF5 then u\<lparr>up_alignment := param\<rparr>
      else if pname = 0x0CF2 then u\<lparr>up_row_length := param\<rparr>
      else if pname = 0x0CF3 then u\<lparr>up_skip_rows := param\<rparr>
      else if pname = 0x0CF4 then u\<lparr>up_skip_pixels := param\<rparr>
      else u)"

text \<open>Conversion of a signed int to \<^verbatim>\<open>size_t\<close>.\<close>

definition to_size :: "int \<Rightarrow> nat" where
  "to_size x = nat (x mod 2 ^ 64)"

definition unpack_src_stride :: "unpack_state \<Rightarrow> int \<Rightarrow> nat \<Rightarrow> nat \<Rightarrow> nat" where
  "unpack_src_stride u width cpp ts =
     (let row_pixels = (if up_row_length u > 0 then up_row_length u else width);
          row_bytes = to_size row_pixels * cpp * ts;
          a = (if up_alignment u > 0 then up_alignment u else 1);
          rem = row_bytes mod to_size a
      in if a > 1 \<and> rem \<noteq> 0 then row_bytes + (to_size a - rem) else row_bytes)"

definition unpack_src_offset :: "unpack_state \<Rightarrow> nat \<Rightarrow> nat \<Rightarrow> nat \<Rightarrow> nat" where
  "unpack_src_offset u src_stride cpp ts = to_size (up_skip_rows u) * src_stride + to_size (up_skip_pixels u) * cpp * ts"

text \<open>The payload of the pixel blob: the contiguous source when its rows are tight, otherwise row by row.\<close>

definition enc_pixels_tight :: "unpack_state \<Rightarrow> byte list option \<Rightarrow> int \<Rightarrow> int \<Rightarrow> nat \<Rightarrow> nat \<Rightarrow> byte list" where
  "enc_pixels_tight u pixels width height cpp ts =
     (case pixels of
        None \<Rightarrow> []
      | Some px \<Rightarrow>
          if width \<le> 0 \<or> height \<le> 0 then []
          else
            let tight_row = nat width * cpp * ts;
                src_stride = unpack_src_stride u width cpp ts;
                base = unpack_src_offset u src_stride cpp ts;
                total = tight_row * nat height
            in if 0xFFFFFFFF < total then []
               else if src_stride = tight_row \<and> base = 0 then take total px
               else concat (map (\<lambda>row. take tight_row (drop (base + row * src_stride) px)) [0..<nat height]))"

definition upload_bytes :: "byte list option \<Rightarrow> int \<Rightarrow> int \<Rightarrow> u32 \<Rightarrow> u32 \<Rightarrow> u32" where
  "upload_bytes pixels width height format type =
     (if pixels \<noteq> None \<and> width > 0 \<and> height > 0
      then of_int width * of_int height * of_nat (gl_format_components format) * of_nat (gl_type_bytes type)
      else 0)"

definition glTexImage2D ::
  "unpack_state \<Rightarrow> u32 \<Rightarrow> u32 \<Rightarrow> u32 \<Rightarrow> int \<Rightarrow> int \<Rightarrow> u32 \<Rightarrow> u32 \<Rightarrow> byte list option \<Rightarrow> message" where
  "glTexImage2D u target level internalformat width height format type pixels =
     build_tex_image_2d target level internalformat (of_int width) (of_int height) format type
       (if upload_bytes pixels width height format type \<noteq> 0
        then enc_pixels_tight u pixels width height (gl_format_components format) (gl_type_bytes type)
        else [])"

definition glTexSubImage2D ::
  "unpack_state \<Rightarrow> u32 \<Rightarrow> u32 \<Rightarrow> u32 \<Rightarrow> u32 \<Rightarrow> int \<Rightarrow> int \<Rightarrow> u32 \<Rightarrow> u32 \<Rightarrow> byte list option \<Rightarrow> message" where
  "glTexSubImage2D u target level xoffset yoffset width height format type pixels =
     build_tex_subimage_2d target level xoffset yoffset (of_int width) (of_int height) format type
       (if upload_bytes pixels width height format type \<noteq> 0
        then enc_pixels_tight u pixels width height (gl_format_components format) (gl_type_bytes type)
        else [])"

section \<open>The host accepts what the shim builds\<close>

lemma k32s_simps [simp]:
  "k32s 1 = [K32]" "k32s 2 = [K32, K32]" "k32s 3 = [K32, K32, K32]" "k32s 4 = [K32, K32, K32, K32]"
  "k32s 5 = [K32, K32, K32, K32, K32]" "k32s 7 = [K32, K32, K32, K32, K32, K32, K32]"
  "k32s 8 = [K32, K32, K32, K32, K32, K32, K32, K32]" "k32s (Suc 0) = [K32]"
  by (simp_all add: k32s_def numeral_eq_Suc)

definition blob_ok :: "byte list \<Rightarrow> bool" where
  "blob_ok d \<longleftrightarrow> length d < 2 ^ 32"

lemma blob_ok_name: "blob_ok d \<Longrightarrow> blob_ok (c_name d)"
  using length_takeWhile_le [of "\<lambda>b. b \<noteq> 0" d] by (simp add: blob_ok_def c_name_def)

lemma field_ok_simps [simp]: "field_ok (F8 b)" "field_ok (F32 w)" "field_ok (FBlob d) = blob_ok d"
  by (simp_all add: field_ok_def blob_ok_def)

lemma w_simps [simp]:
  "w32 (F32 x # fs) 0 = x" "w8 (F8 b # fs) 0 = b" "w32 (f # fs) (Suc i) = w32 fs i" "w8 (f # fs) (Suc i) = w8 fs i"
  "w32 (f # fs) (numeral k) = w32 fs (pred_numeral k)" "w8 (f # fs) (numeral k) = w8 fs (pred_numeral k)"
  by (simp_all add: w32_def w8_def nth_Cons_numeral)

lemmas build_basic_defs = build_viewport_def build_clearcolor_def build_clear_def build_enable_def build_disable_def
  build_depthfunc_def build_cull_face_def build_front_face_def build_scissor_def build_create_shader_def
  build_compile_shader_def build_create_program_def build_attach_def build_link_def build_use_def build_gen_buffer_def
  build_bind_buffer_def build_enable_vaa_def build_vap_def build_draw_arrays_def build_draw_elements_def
  build_gen_texture_def build_active_texture_def build_bind_texture_def build_tex_parameteri_def build_generate_mipmap_def

lemmas build_object_defs = build_gen_framebuffer_def build_bind_framebuffer_def build_framebuffer_texture2d_def
  build_gen_renderbuffer_def build_bind_renderbuffer_def build_renderbuffer_storage_def build_framebuffer_renderbuffer_def
  build_gen_vertex_array_def build_bind_vertex_array_def build_draw_arrays_instanced_def build_draw_elements_instanced_def
  build_vad_def build_bind_buffer_base_def build_bind_buffer_range_def build_gen_sampler_def build_bind_sampler_def
  build_sampler_parameteri_def build_read_buffer_def

lemmas build_raster_defs = build_blend_func_def build_blend_func_separate_def build_blend_equation_def
  build_blend_equation_separate_def build_blend_color_def build_color_mask_def build_depth_mask_def build_depth_rangef_def
  build_clear_depthf_def build_clear_stencil_def build_stencil_func_def build_stencil_func_separate_def build_stencil_op_def
  build_stencil_op_separate_def build_stencil_mask_def build_stencil_mask_separate_def build_polygon_offset_def
  build_line_width_def build_sample_coverage_def

lemmas build_blob_defs = build_shader_source_def build_bind_attrib_def build_buffer_data_def build_buffer_subdata_def
  build_enable_vaa_named_def build_vap_named_def build_uniform1i_def build_tex_image_2d_def build_tex_subimage_2d_def
  build_vad_named_def build_uniform_block_binding_def

lemma build_basic_ok:
  "message_ok (build_viewport x y w h)" "message_ok (build_clearcolor x y w h)" "message_ok build_clear"
  "message_ok (build_enable x)" "message_ok (build_disable x)" "message_ok (build_depthfunc x)"
  "message_ok (build_cull_face x)" "message_ok (build_front_face x)" "message_ok (build_scissor x y w h)"
  "message_ok (build_create_shader x y)" "message_ok (build_compile_shader x)" "message_ok (build_create_program x)"
  "message_ok (build_attach x y)" "message_ok (build_link x)" "message_ok (build_use x)" "message_ok (build_gen_buffer x)"
  "message_ok (build_bind_buffer x y)" "message_ok (build_enable_vaa x)" "message_ok (build_vap x y w nm h z)"
  "message_ok (build_draw_arrays x y w)" "message_ok (build_draw_elements x y w h)" "message_ok (build_gen_texture x)"
  "message_ok (build_active_texture x)" "message_ok (build_bind_texture x y)" "message_ok (build_tex_parameteri x y w)"
  "message_ok (build_generate_mipmap x)"
  by (simp_all add: build_basic_defs message_ok_def)

lemma build_object_ok:
  "message_ok (build_gen_framebuffer x)" "message_ok (build_bind_framebuffer x y)"
  "message_ok (build_framebuffer_texture2d x y w h z)" "message_ok (build_gen_renderbuffer x)"
  "message_ok (build_bind_renderbuffer x y)" "message_ok (build_renderbuffer_storage x y w h)"
  "message_ok (build_framebuffer_renderbuffer x y w h)" "message_ok (build_gen_vertex_array x)"
  "message_ok (build_bind_vertex_array x)" "message_ok (build_draw_arrays_instanced x y w h)"
  "message_ok (build_draw_elements_instanced x y w h z)" "message_ok (build_vad x y)" "message_ok (build_bind_buffer_base x y w)"
  "message_ok (build_bind_buffer_range x y w h z)" "message_ok (build_gen_sampler x)" "message_ok (build_bind_sampler x y)"
  "message_ok (build_sampler_parameteri x y w)" "message_ok (build_read_buffer x)"
  by (simp_all add: build_object_defs message_ok_def)

lemma build_raster_ok:
  "message_ok (build_blend_func x y)" "message_ok (build_blend_func_separate x y w h)" "message_ok (build_blend_equation x)"
  "message_ok (build_blend_equation_separate x y)" "message_ok (build_blend_color x y w h)"
  "message_ok (build_color_mask r g b a)" "message_ok (build_depth_mask r)" "message_ok (build_depth_rangef x y)"
  "message_ok (build_clear_depthf x)" "message_ok (build_clear_stencil x)" "message_ok (build_stencil_func x y w)"
  "message_ok (build_stencil_func_separate x y w h)" "message_ok (build_stencil_op x y w)"
  "message_ok (build_stencil_op_separate x y w h)" "message_ok (build_stencil_mask x)"
  "message_ok (build_stencil_mask_separate x y)" "message_ok (build_polygon_offset x y)" "message_ok (build_line_width x)"
  "message_ok (build_sample_coverage x r)"
  by (simp_all add: build_raster_defs message_ok_def)

lemma build_blob_ok:
  assumes "blob_ok d"
  shows "message_ok (build_shader_source x d)" "message_ok (build_bind_attrib x y d)" "message_ok (build_buffer_data x d y)"
    "message_ok (build_buffer_subdata x y d)" "message_ok (build_enable_vaa_named x d)"
    "message_ok (build_vap_named x d y w nm h z)" "message_ok (build_uniform1i x d y)"
    "message_ok (build_tex_image_2d x y w h z p q d)" "message_ok (build_tex_subimage_2d x y w h z p q r d)"
    "message_ok (build_vad_named x d y)" "message_ok (build_uniform_block_binding x d y)"
  using assms blob_ok_name [OF assms] by (simp_all add: build_blob_defs message_ok_def)

lemma unat_cols_count:
  fixes cols :: byte and count :: u32
  assumes "unat cols * unat count < 2 ^ 32"
  shows "unat (ucast cols * count :: u32) = unat cols * unat count"
proof -
  have "unat cols < 2 ^ 8" using unsigned_less [where 'a = nat, of cols] by simp
  then have "unat (ucast cols :: u32) = unat cols" by (simp add: unsigned_ucast_eq take_bit_nat_eq_self)
  then show ?thesis using assms by (simp add: unat_word_ariths)
qed

lemma build_array_ok:
  assumes n: "blob_ok name"
  shows "16 \<le> length m \<Longrightarrow> message_ok (build_uniform_mat4 vprog name m)"
    "1 \<le> cols \<Longrightarrow> cols \<le> 4 \<Longrightarrow> unat cols * unat count < 2 ^ 32 \<Longrightarrow> unat cols * unat count \<le> length v \<Longrightarrow>
      message_ok (build_uniform_fv vprog name cols count v) \<and> message_ok (build_uniform_iv vprog name cols count v)"
    "1 \<le> cols \<Longrightarrow> cols \<le> 4 \<Longrightarrow> unat cols \<le> length v \<Longrightarrow> message_ok (build_vattrib_f_named vprog name cols v)"
  using blob_ok_name [OF n]
  by (auto simp: build_uniform_mat4_def build_uniform_fv_def build_uniform_iv_def build_vattrib_f_named_def
      message_ok_def unat_cols_count not_less)

lemma build_vattrib_ok:
  "1 \<le> cols \<Longrightarrow> cols \<le> 4 \<Longrightarrow> unat cols \<le> length v \<Longrightarrow> message_ok (build_vattrib_f index cols v)"
  "unat n \<le> length v \<Longrightarrow> message_ok (build_draw_buffers n v)"
  "unat n \<le> length v \<Longrightarrow> message_ok (build_invalidate_framebuffer target n v)"
  by (auto simp: build_vattrib_f_def build_draw_buffers_def build_invalidate_framebuffer_def message_ok_def not_less)

lemma build_matrix_ok:
  assumes "blob_ok name" "dim = 2 \<or> dim = 3" "unat dim * unat dim * unat count < 2 ^ 32"
    "unat dim * unat dim * unat count \<le> length m"
  shows "message_ok (build_uniform_matrix_fv vprog name dim count m)"
proof -
  have "unat (ucast dim * ucast dim * count :: u32) = unat dim * unat dim * unat count"
    using assms(2,3) by (auto simp: unat_word_ariths)
  then show ?thesis using assms blob_ok_name [OF assms(1)]
    by (auto simp: build_uniform_matrix_fv_def message_ok_def)
qed

text \<open>Repacking: byte \<open>c\<close> of row \<open>r\<close> of the upload is byte \<open>c\<close> of the source row at its stride.\<close>

lemma concat_rows_length: "(\<And>r. r < n \<Longrightarrow> length (f r) = w) \<Longrightarrow> length (concat (map f [0..<n])) = n * w"
  by (induction n) simp_all

lemma concat_rows_nth:
  assumes "\<And>r. r < n \<Longrightarrow> length (f r) = w" "r < n" "c < w"
  shows "concat (map f [0..<n]) ! (r * w + c) = f r ! c"
  using assms
proof (induction n)
  case (Suc n)
  have l: "length (concat (map f [0..<n])) = n * w"
    using Suc.prems(1) by (intro concat_rows_length) simp
  show ?case
  proof (cases "r < n")
    case True
    then have "r * w + c < n * w" using Suc.prems(3)
      by (metis Suc_leI add.commute less_le_trans mult_Suc mult_le_mono1 nat_add_left_cancel_less)
    then show ?thesis using Suc.IH Suc.prems True l by (simp add: nth_append)
  next
    case False
    then have "r = n" using Suc.prems(2) by simp
    then show ?thesis using l by (simp add: nth_append)
  qed
qed simp

lemma enc_pixels_tight_nth:
  assumes pos: "0 < width" "0 < height" "width < 2 ^ 63"
    and total: "nat width * cpp * ts * nat height \<le> 0xFFFFFFFF"
    and src: "base + (nat height - 1) * stride + nat width * cpp * ts \<le> length px"
    and stride: "stride = unpack_src_stride u width cpp ts" "nat width * cpp * ts \<le> stride"
    and base: "base = unpack_src_offset u stride cpp ts"
    and r: "r < nat height" "c < nat width * cpp * ts"
  shows "length (enc_pixels_tight u (Some px) width height cpp ts) = nat height * (nat width * cpp * ts) \<and>
    enc_pixels_tight u (Some px) width height cpp ts ! (r * (nat width * cpp * ts) + c) = px ! (base + r * stride + c)"
proof -
  let ?w = "nat width * cpp * ts" and ?n = "nat height"
  have row: "base + q * stride + ?w \<le> length px" if "q < ?n" for q
  proof -
    have "q * stride \<le> (?n - 1) * stride" using that by (intro mult_le_mono1) simp
    then show ?thesis using src by linarith
  qed
  show ?thesis
  proof (cases "stride = ?w \<and> base = 0")
    case True
    have e: "enc_pixels_tight u (Some px) width height cpp ts = take (?w * ?n) px"
      using pos total True unfolding enc_pixels_tight_def Let_def base [symmetric] stride(1) [symmetric] by simp
    have "?w * Suc r \<le> ?w * ?n" using r(1) by (intro mult_le_mono2) simp
    then have lt: "r * ?w + c < ?w * ?n" using r(2) by (simp only: mult_Suc_right mult.commute [of r])
    have "?w * ?n = (?n - 1) * ?w + ?w" using r(1) by (cases ?n) (simp_all add: mult.commute)
    then have len: "?w * ?n \<le> length px" using src True by simp
    have "length (take (?w * ?n) px) = ?n * ?w" using len by (simp only: length_take mult.commute [of ?n])
    moreover have "take (?w * ?n) px ! (r * ?w + c) = px ! (r * ?w + c)" using lt by (rule nth_take)
    ultimately show ?thesis using True unfolding e by simp
  next
    case False
    let ?f = "\<lambda>row. take ?w (drop (base + row * stride) px)"
    have e: "enc_pixels_tight u (Some px) width height cpp ts = concat (map ?f [0..<?n])"
      using pos total False unfolding enc_pixels_tight_def Let_def base [symmetric] stride(1) [symmetric] by auto
    have fl: "length (?f q) = ?w" if "q < ?n" for q using row [OF that] by simp
    have "length (concat (map ?f [0..<?n])) = ?n * ?w" by (rule concat_rows_length [OF fl])
    moreover have "concat (map ?f [0..<?n]) ! (r * ?w + c) = ?f r ! c"
      by (rule concat_rows_nth [OF fl r])
    moreover have "?f r ! c = px ! (base + r * stride + c)" using r(2) row [OF r(1)] by simp
    ultimately show ?thesis unfolding e by simp
  qed
qed

lemma tight_le_stride:
  assumes "0 < width" "width < 2 ^ 31" "up_row_length u \<le> 0 \<or> width \<le> up_row_length u" "up_row_length u < 2 ^ 31"
  shows "nat width * cpp * ts \<le> unpack_src_stride u width cpp ts"
proof -
  let ?p = "if up_row_length u > 0 then up_row_length u else width"
  have "to_size ?p = nat ?p" using assms by (simp add: to_size_def)
  then have "nat width \<le> to_size ?p" using assms by auto
  then have "nat width * cpp * ts \<le> to_size ?p * cpp * ts" by (intro mult_le_mono1)
  moreover have "to_size ?p * cpp * ts \<le> unpack_src_stride u width cpp ts"
    unfolding unpack_src_stride_def Let_def by simp
  ultimately show ?thesis by (rule le_trans)
qed

lemma gl_sizes_pos: "0 < gl_format_components f" "0 < gl_type_bytes ty"
  by (simp_all add: gl_format_components_def gl_type_bytes_def)

lemma upload_bytes_nonzero:
  assumes "0 < width" "0 < height" "nat width * gl_format_components f * gl_type_bytes ty * nat height < 2 ^ 32"
  shows "upload_bytes (Some px) width height f ty \<noteq> 0"
proof -
  let ?t = "nat width * gl_format_components f * gl_type_bytes ty * nat height"
  have "upload_bytes (Some px) width height f ty = (of_nat ?t :: u32)"
    using assms(1,2) by (simp add: upload_bytes_def mult_ac of_nat_nat)
  moreover have "0 < ?t" using assms(1,2) gl_sizes_pos by simp
  then have "unat (of_nat ?t :: u32) \<noteq> 0" using assms(3)
    by (simp only: unat_of_nat take_bit_nat_def) simp
  ultimately show ?thesis by auto
qed

text \<open>Texture uploads are repacked to tight rows: for an upload whose unpack row length is unset or at least the
  width, the shim sends a message the host accepts, and byte \<open>c\<close> of row \<open>r\<close> of its pixel blob is the byte the GL
  specification addresses in the guest's buffer, at the skip offset plus \<open>r\<close> aligned row strides plus \<open>c\<close>.\<close>

theorem tex_upload_repacks:
  assumes dims: "0 < width" "width < 2 ^ 31" "0 < height" "up_row_length u \<le> 0 \<or> width \<le> up_row_length u"
      "up_row_length u < 2 ^ 31"
    and row: "tight = nat width * gl_format_components format * gl_type_bytes type" "tight * nat height < 2 ^ 32"
    and stride: "stride = unpack_src_stride u width (gl_format_components format) (gl_type_bytes type)"
    and base: "base = unpack_src_offset u stride (gl_format_components format) (gl_type_bytes type)"
    and src: "base + (nat height - 1) * stride + tight \<le> length px"
  shows "\<exists>data. glTexImage2D u target level ifmt width height format type (Some px) =
        build_tex_image_2d target level ifmt (of_int width) (of_int height) format type data \<and>
      glTexSubImage2D u target level xo yo width height format type (Some px) =
        build_tex_subimage_2d target level xo yo (of_int width) (of_int height) format type data \<and>
      message_ok (glTexImage2D u target level ifmt width height format type (Some px)) \<and>
      message_ok (glTexSubImage2D u target level xo yo width height format type (Some px)) \<and>
      length data = nat height * tight \<and>
      (\<forall>r < nat height. \<forall>c < tight. data ! (r * tight + c) = px ! (base + r * stride + c))"
proof -
  let ?data = "enc_pixels_tight u (Some px) width height (gl_format_components format) (gl_type_bytes type)"
  have nz: "upload_bytes (Some px) width height format type \<noteq> 0"
    using upload_bytes_nonzero dims row by simp
  have img: "glTexImage2D u target level ifmt width height format type (Some px) =
      build_tex_image_2d target level ifmt (of_int width) (of_int height) format type ?data"
    and sub: "glTexSubImage2D u target level xo yo width height format type (Some px) =
      build_tex_subimage_2d target level xo yo (of_int width) (of_int height) format type ?data"
    using nz by (simp_all add: glTexImage2D_def glTexSubImage2D_def)
  have "tight \<le> stride" unfolding row(1) stride using dims by (intro tight_le_stride)
  then have bytes: "length ?data = nat height * tight \<and> ?data ! (r * tight + c) = px ! (base + r * stride + c)"
    if "r < nat height" "c < tight" for r c
    using that dims row(2) src unfolding row(1) by (intro enc_pixels_tight_nth [OF _ _ _ _ _ stride _ base]) auto
  have "0 < tight" using dims(1) gl_sizes_pos unfolding row(1) by simp
  then have len: "length ?data = nat height * tight" using bytes [of 0 0] dims(3) by simp
  then have "blob_ok ?data" using row(2) by (simp add: blob_ok_def mult.commute)
  then show ?thesis unfolding img sub using bytes len build_blob_ok(8,9) by blast
qed

text \<open>A one by two RGB image in rows padded to four bytes.\<close>

theorem tex_upload_repacks_witness:
  "\<exists>data. glTexImage2D unpack_default 0x0DE1 0 0x1907 1 2 0x1907 0x1401 (Some [1, 2, 3, 0, 4, 5, 6]) =
        build_tex_image_2d 0x0DE1 0 0x1907 1 2 0x1907 0x1401 data \<and> length data = 6 \<and> data ! 3 = 4"
proof -
  have h: "unpack_src_stride unpack_default 1 (gl_format_components 0x1907) (gl_type_bytes 0x1401) = 4"
    "unpack_src_offset unpack_default 4 (gl_format_components 0x1907) (gl_type_bytes 0x1401) = 0"
    "nat 1 * gl_format_components 0x1907 * gl_type_bytes 0x1401 = 3" "up_row_length unpack_default = 0"
    by code_simp+
  from tex_upload_repacks [where width = 1 and height = 2 and u = unpack_default and format = "0x1907" and type = "0x1401"
      and tight = 3 and stride = 4 and base = 0 and px = "[1, 2, 3, 0, 4, 5, 6]" and target = "0x0DE1" and level = 0
      and ifmt = "0x1907"] h
  obtain data where "glTexImage2D unpack_default 0x0DE1 0 0x1907 1 2 0x1907 0x1401 (Some [1, 2, 3, 0, 4, 5, 6]) =
        build_tex_image_2d 0x0DE1 0 0x1907 1 2 0x1907 0x1401 data" "length data = 6"
      "\<forall>r < 2. \<forall>c < 3. data ! (r * 3 + c) = [1, 2, 3, 0, 4, 5, 6] ! (r * 4 + c)"
    by fastforce
  moreover from this(3) [rule_format, of 1 0] have "data ! 3 = 4" by simp
  ultimately show ?thesis by auto
qed

section \<open>Everything the shim sends is accepted\<close>

text \<open>The messages of the shim's entry points, each with what its caller owes: strings and blobs below four gigabytes,
  arrays as long as the count says.\<close>

inductive shim_message :: "message \<Rightarrow> bool" where
  viewport: "shim_message (build_viewport x y w h)"
| clearcolor: "shim_message (build_clearcolor r g b a)"
| clear: "shim_message build_clear"
| enable: "shim_message (build_enable cap)"
| disable: "shim_message (build_disable cap)"
| depthfunc: "shim_message (build_depthfunc func)"
| cull_face: "shim_message (build_cull_face mode)"
| front_face: "shim_message (build_front_face mode)"
| scissor: "shim_message (build_scissor x y w h)"
| create_shader: "shim_message (build_create_shader vid type)"
| shader_source: "blob_ok src \<Longrightarrow> shim_message (build_shader_source vid src)"
| compile_shader: "shim_message (build_compile_shader vid)"
| create_program: "shim_message (build_create_program vid)"
| attach: "shim_message (build_attach vprog vshader)"
| bind_attrib: "blob_ok name \<Longrightarrow> shim_message (build_bind_attrib vprog index name)"
| link: "shim_message (build_link vid)"
| use: "shim_message (build_use vid)"
| gen_buffer: "shim_message (build_gen_buffer vid)"
| bind_buffer: "shim_message (build_bind_buffer target vid)"
| buffer_data: "blob_ok data \<Longrightarrow> shim_message (build_buffer_data target data usage)"
| buffer_subdata: "blob_ok data \<Longrightarrow> shim_message (build_buffer_subdata target offset data)"
| enable_vaa: "shim_message (build_enable_vaa index)"
| enable_vaa_named: "blob_ok name \<Longrightarrow> shim_message (build_enable_vaa_named vprog name)"
| vap: "shim_message (build_vap index sz type norm stride offset)"
| vap_named: "blob_ok name \<Longrightarrow> shim_message (build_vap_named vprog name sz type norm stride offset)"
| draw_arrays: "shim_message (build_draw_arrays mode first count)"
| draw_elements: "shim_message (build_draw_elements mode count type offset)"
| uniform1i: "blob_ok name \<Longrightarrow> shim_message (build_uniform1i vprog name value)"
| gen_texture: "shim_message (build_gen_texture vid)"
| active_texture: "shim_message (build_active_texture unit)"
| bind_texture: "shim_message (build_bind_texture target vid)"
| tex_parameteri: "shim_message (build_tex_parameteri target pname param)"
| tex_image_2d: "blob_ok pixels \<Longrightarrow> shim_message (build_tex_image_2d target level ifmt w h fmt type pixels)"
| generate_mipmap: "shim_message (build_generate_mipmap target)"
| tex_subimage_2d: "blob_ok pixels \<Longrightarrow> shim_message (build_tex_subimage_2d target level xoff yoff w h fmt type pixels)"
| gen_framebuffer: "shim_message (build_gen_framebuffer vid)"
| bind_framebuffer: "shim_message (build_bind_framebuffer target vid)"
| framebuffer_texture2d: "shim_message (build_framebuffer_texture2d target attachment textarget vtex level)"
| gen_renderbuffer: "shim_message (build_gen_renderbuffer vid)"
| bind_renderbuffer: "shim_message (build_bind_renderbuffer target vid)"
| renderbuffer_storage: "shim_message (build_renderbuffer_storage target ifmt w h)"
| framebuffer_renderbuffer: "shim_message (build_framebuffer_renderbuffer target attachment rbtarget vrb)"
| gen_vertex_array: "shim_message (build_gen_vertex_array vid)"
| bind_vertex_array: "shim_message (build_bind_vertex_array vid)"
| draw_arrays_instanced: "shim_message (build_draw_arrays_instanced mode first count inst)"
| draw_elements_instanced: "shim_message (build_draw_elements_instanced mode count type offset inst)"
| vad: "shim_message (build_vad index divisor)"
| vad_named: "blob_ok name \<Longrightarrow> shim_message (build_vad_named vprog name divisor)"
| bind_buffer_base: "shim_message (build_bind_buffer_base target index vid)"
| bind_buffer_range: "shim_message (build_bind_buffer_range target index vid offset sz)"
| uniform_block_binding: "blob_ok name \<Longrightarrow> shim_message (build_uniform_block_binding vprog name binding)"
| gen_sampler: "shim_message (build_gen_sampler vid)"
| bind_sampler: "shim_message (build_bind_sampler unit vid)"
| sampler_parameteri: "shim_message (build_sampler_parameteri vid pname param)"
| read_buffer: "shim_message (build_read_buffer mode)"
| blend_func: "shim_message (build_blend_func sfactor dfactor)"
| blend_func_separate: "shim_message (build_blend_func_separate src_rgb dst_rgb src_alpha dst_alpha)"
| blend_equation: "shim_message (build_blend_equation mode)"
| blend_equation_separate: "shim_message (build_blend_equation_separate mode_rgb mode_alpha)"
| blend_color: "shim_message (build_blend_color r g b a)"
| color_mask: "shim_message (build_color_mask r g b a)"
| depth_mask: "shim_message (build_depth_mask flag)"
| depth_rangef: "shim_message (build_depth_rangef n f)"
| clear_depthf: "shim_message (build_clear_depthf d)"
| clear_stencil: "shim_message (build_clear_stencil s)"
| stencil_func: "shim_message (build_stencil_func func ref msk)"
| stencil_func_separate: "shim_message (build_stencil_func_separate face func ref msk)"
| stencil_op: "shim_message (build_stencil_op sfail dpfail dppass)"
| stencil_op_separate: "shim_message (build_stencil_op_separate face sfail dpfail dppass)"
| stencil_mask: "shim_message (build_stencil_mask m)"
| stencil_mask_separate: "shim_message (build_stencil_mask_separate face m)"
| polygon_offset: "shim_message (build_polygon_offset factor units)"
| line_width: "shim_message (build_line_width w)"
| sample_coverage: "shim_message (build_sample_coverage v invert)"
| uniform_mat4: "blob_ok name \<Longrightarrow> 16 \<le> length m \<Longrightarrow> shim_message (build_uniform_mat4 vprog name m)"
| uniform_fv: "blob_ok name \<Longrightarrow> 1 \<le> cols \<Longrightarrow> cols \<le> 4 \<Longrightarrow> unat cols * unat count < 2 ^ 32 \<Longrightarrow>
    unat cols * unat count \<le> length v \<Longrightarrow> shim_message (build_uniform_fv vprog name cols count v)"
| uniform_iv: "blob_ok name \<Longrightarrow> 1 \<le> cols \<Longrightarrow> cols \<le> 4 \<Longrightarrow> unat cols * unat count < 2 ^ 32 \<Longrightarrow>
    unat cols * unat count \<le> length v \<Longrightarrow> shim_message (build_uniform_iv vprog name cols count v)"
| uniform_matrix_fv: "blob_ok name \<Longrightarrow> dim = 2 \<or> dim = 3 \<Longrightarrow> unat dim * unat dim * unat count < 2 ^ 32 \<Longrightarrow>
    unat dim * unat dim * unat count \<le> length m \<Longrightarrow> shim_message (build_uniform_matrix_fv vprog name dim count m)"
| vattrib_f: "1 \<le> ncomp \<Longrightarrow> ncomp \<le> 4 \<Longrightarrow> unat ncomp \<le> length v \<Longrightarrow> shim_message (build_vattrib_f index ncomp v)"
| vattrib_f_named: "blob_ok name \<Longrightarrow> 1 \<le> ncomp \<Longrightarrow> ncomp \<le> 4 \<Longrightarrow> unat ncomp \<le> length v \<Longrightarrow>
    shim_message (build_vattrib_f_named vprog name ncomp v)"
| draw_buffers: "unat n \<le> length v \<Longrightarrow> shim_message (build_draw_buffers n v)"
| invalidate_framebuffer: "unat n \<le> length v \<Longrightarrow> shim_message (build_invalidate_framebuffer target n v)"

lemma shim_message_ok: "shim_message m \<Longrightarrow> message_ok m"
  by (induction rule: shim_message.induct)
    (simp_all add: build_basic_ok build_object_ok build_raster_ok build_blob_ok build_array_ok build_matrix_ok
      build_vattrib_ok)

text \<open>C25. The shim and the decoder agree on the type of every message: whatever sequence of entry points the guest
  calls, with arguments as GL requires them, the messages built are well typed and the host replays all of
  them, in order, and accepts the stream.\<close>

theorem shim_stream_replayed:
  assumes "\<forall>m \<in> set ms. shim_message m" "hs_ok st"
  shows "list_all message_ok ms \<and>
    decode_batch api (concat (map message_bytes ms)) (st, g) = (True, run_messages api ms (st, g))"
proof -
  have ok: "list_all message_ok ms" using assms(1) shim_message_ok by (simp add: list_all_iff)
  show ?thesis using decode_batch_messages [OF ok assms(2)] ok by simp
qed

theorem shim_stream_replayed_witness:
  "decode_batch recording_gl (concat (map message_bytes
      [build_viewport 0 0 64 64, build_uniform_fv 1 [117] 2 1 [0x3F800000, 0], build_draw_arrays 4 0 3]))
      (initial_host_state 7, (1, [])) =
    (True, run_messages recording_gl
      [build_viewport 0 0 64 64, build_uniform_fv 1 [117] 2 1 [0x3F800000, 0], build_draw_arrays 4 0 3]
      (initial_host_state 7, (1, [])))"
proof -
  have "shim_message (build_uniform_fv 1 [117] 2 1 [0x3F800000, 0])"
    by (rule shim_message.uniform_fv) (simp_all add: blob_ok_def)
  then have "\<forall>m \<in> set [build_viewport 0 0 64 64, build_uniform_fv 1 [117] 2 1 [0x3F800000, 0], build_draw_arrays 4 0 3].
      shim_message m"
    by (simp add: shim_message.viewport shim_message.draw_arrays)
  from shim_stream_replayed [OF this, of "initial_host_state 7" recording_gl "(1, [])"] show ?thesis by simp
qed

end
