(* ===== verification/Gles_Shim.thy ===== *)
theory Gles_Shim
  imports Gles_Builders
begin

text \<open>
  The guest's shim library: the runtime of \<^verbatim>\<open>alr_gpu/guest_shim/alr_shim_runtime.c\<close> (one message into the
  scratch buffer and from there into the ring, the name tables behind locations, the cache of source
  lengths) and the entry points of \<^verbatim>\<open>alr_gles_shim.c\<close>.  The ring region is shared with the host: what the
  host did to it while a call waited is a parameter.  Names are C strings without their terminator.
\<close>

unbundle bit_operations_syntax

section \<open>State\<close>

definition ALR_SHIM_SCRATCH_BYTES :: nat where "ALR_SHIM_SCRATCH_BYTES = 8 * 1024 * 1024"
definition ALR_SHIM_MAX_PROGRAMS :: nat where "ALR_SHIM_MAX_PROGRAMS = 64"
definition ALR_SHIM_MAX_UNIFORMS_PER_PROG :: nat where "ALR_SHIM_MAX_UNIFORMS_PER_PROG = 32"
definition ALR_SHIM_MAX_UNIFORM_NAME :: nat where "ALR_SHIM_MAX_UNIFORM_NAME = 64"
definition ALR_SHIM_MAX_SHADERS :: nat where "ALR_SHIM_MAX_SHADERS = 256"

text \<open>The names of a program; their number is \<^verbatim>\<open>count\<close>.\<close>

record alr_program_uniforms =
  pu_vprog :: u32
  pu_names :: "byte list list"

record alr_shim_state =
  sh_ring_ok :: bool
  sh_producer :: alr_ring_producer
  sh_ring :: ring_region
  sh_doorbell_fd :: int
  sh_doorbells :: nat
  sh_next_shader :: u32
  sh_next_program :: u32
  sh_next_buffer :: u32
  sh_next_texture :: u32
  sh_next_framebuffer :: u32
  sh_next_renderbuffer :: u32
  sh_next_vertex_array :: u32
  sh_next_sampler :: u32
  sh_shaders :: "(u32 \<times> u32) list"
  sh_progs :: "alr_program_uniforms list"
  sh_attribs :: "alr_program_uniforms list"
  sh_gl_error :: u32
  sh_unpack :: unpack_state

text \<open>The host while the guest waits: the values of \<^verbatim>\<open>reply_seq\<close> and \<^verbatim>\<open>closed\<close> seen by each turn of the
  waiting loop, and the region when the wait is over.\<close>

record ring_host =
  host_seen :: "nat \<Rightarrow> u32 \<times> u32"
  host_wait :: "ring_region \<Rightarrow> ring_region"

text \<open>\<^verbatim>\<open>strtol(v, &end, 10)\<close>: leading white space, a sign, digits; nothing converted leaves \<^verbatim>\<open>end == v\<close>; out of
  range saturates.\<close>

definition c_digit :: "char \<Rightarrow> bool" where
  "c_digit c \<longleftrightarrow> 48 \<le> byte_of c \<and> byte_of c \<le> (57 :: nat)"

definition c_space :: "char \<Rightarrow> bool" where
  "c_space c \<longleftrightarrow> c = CHR '' '' \<or> (9 \<le> byte_of c \<and> byte_of c \<le> (13 :: nat))"

definition strtol :: "string \<Rightarrow> int option" where
  "strtol v =
     (let v = dropWhile c_space v;
          (neg, digits) = (case v of c # cs \<Rightarrow> if c = CHR ''-'' then (True, cs) else if c = CHR ''+'' then (False, cs)
                             else (False, v) | [] \<Rightarrow> (False, []));
          ds = takeWhile c_digit digits;
          n = foldl (\<lambda>n c. n * 10 + (int (byte_of c) - 48)) 0 ds
      in if ds = [] then None else Some (if neg then max (- (2 ^ 63)) (- n) else min (2 ^ 63 - 1) n))"

definition env_long :: "(string \<Rightarrow> string option) \<Rightarrow> string \<Rightarrow> int \<Rightarrow> int" where
  "env_long getenv key dflt =
     (case getenv key of
        None \<Rightarrow> dflt
      | Some v \<Rightarrow> if v = [] then dflt else case strtol v of None \<Rightarrow> dflt | Some n \<Rightarrow> n)"

definition empty_names :: "alr_program_uniforms list" where
  "empty_names = replicate ALR_SHIM_MAX_PROGRAMS \<lparr>pu_vprog = 0, pu_names = []\<rparr>"

text \<open>\<^verbatim>\<open>shim_init_once\<close>; \<open>map_ring fd size\<close> is the region that \<^verbatim>\<open>mmap\<close> gives, if it succeeds.\<close>

definition no_ring :: ring_region where
  "no_ring = \<lparr>rh_magic = 0, rh_version = 0, rh_ring_bytes = 0, rh_pad = 0, rh_head = 0, rh_tail = 0,
     rh_reply_seq = 0, rh_req_seq = 0, rh_closed = 0, rh_pad2 = 0, rh_identity_ready = 0, rh_identity_pad = 0,
     rh_renderer = [], rh_vendor = [], rh_gl_version = [], rr_data = []\<rparr>"

definition shim_init_once ::
  "(string \<Rightarrow> string option) \<Rightarrow> (int \<Rightarrow> nat \<Rightarrow> ring_region option) \<Rightarrow> alr_shim_state" where
  "shim_init_once getenv map_ring =
     (let s = \<lparr>sh_ring_ok = False, sh_producer = \<lparr>arp_h = False, arp_mask = 0\<rparr>, sh_ring = no_ring,
               sh_doorbell_fd = -1, sh_doorbells = 0, sh_next_shader = 1, sh_next_program = 1, sh_next_buffer = 1,
               sh_next_texture = 1, sh_next_framebuffer = 1, sh_next_renderbuffer = 1, sh_next_vertex_array = 1,
               sh_next_sampler = 1, sh_shaders = replicate ALR_SHIM_MAX_SHADERS (0, 0), sh_progs = empty_names,
               sh_attribs = empty_names, sh_gl_error = 0, sh_unpack = unpack_default\<rparr>;
          ring_fd = env_long getenv ''ALR_GPU_RING_FD'' (-1);
          ring_bytes = env_long getenv ''ALR_GPU_RING_BYTES'' 0;
          bell_fd = env_long getenv ''ALR_GPU_RING_DOORBELL_FD'' (-1);
          s = (if 0 \<le> ring_fd \<and> 0 < ring_bytes then
                 case map_ring ring_fd (alr_ring_region_size (of_int ring_bytes)) of
                   None \<Rightarrow> s
                 | Some region \<Rightarrow>
                     (case alr_ring_producer_attach (Some region) of (rc, p) \<Rightarrow>
                        if rc = 0 then s\<lparr>sh_producer := p, sh_ring := region, sh_ring_ok := True\<rparr>
                        else s\<lparr>sh_producer := p\<rparr>)
               else s)
      in if 0 \<le> bell_fd then s\<lparr>sh_doorbell_fd := bell_fd\<rparr> else s)"

section \<open>Emitting\<close>

definition ring_doorbell :: "alr_shim_state \<Rightarrow> alr_shim_state" where
  "ring_doorbell s = (if 0 \<le> sh_doorbell_fd s then s\<lparr>sh_doorbells := Suc (sh_doorbells s)\<rparr> else s)"

definition shim_wait :: "ring_host \<Rightarrow> alr_shim_state \<Rightarrow> alr_shim_state" where
  "shim_wait host s =
     s\<lparr>sh_ring := host_wait host (snd (alr_ring_flush_and_wait (Some (sh_producer s)) (host_seen host) 0 (sh_ring s)))\<rparr>"

definition GL_OUT_OF_MEMORY :: u32 where "GL_OUT_OF_MEMORY = 0x0505"

text \<open>\<^const>\<open>None\<close> is a write outside the ring.\<close>

definition alr_shim_emit :: "ring_host \<Rightarrow> message \<Rightarrow> alr_shim_state \<Rightarrow> alr_shim_state option" where
  "alr_shim_emit host m s =
     (if \<not> sh_ring_ok s then Some s
      else
        let e = fold alr_enc_field (message_fields m) (alr_enc_init ALR_SHIM_SCRATCH_BYTES);
            append = (\<lambda>s. alr_ring_append (Some (sh_producer s)) (sh_ring s) (ae_bytes e) (of_nat (length (ae_bytes e))))
        in if ae_overflow e then Some (s\<lparr>sh_gl_error := GL_OUT_OF_MEMORY\<rparr>)
           else
             case append s of
               None \<Rightarrow> None
             | Some (ok, ring) \<Rightarrow>
                 if ok \<noteq> 0 then Some (s\<lparr>sh_ring := ring\<rparr>)
                 else
                   let s = shim_wait host (ring_doorbell s)
                   in case append s of
                        None \<Rightarrow> None
                      | Some (ok, ring) \<Rightarrow>
                          if ok \<noteq> 0 then Some (s\<lparr>sh_ring := ring\<rparr>)
                          else Some (s\<lparr>sh_ring := ring, sh_gl_error := GL_OUT_OF_MEMORY\<rparr>))"

definition alr_shim_flush_and_wait :: "ring_host \<Rightarrow> alr_shim_state \<Rightarrow> alr_shim_state" where
  "alr_shim_flush_and_wait host s = (if \<not> sh_ring_ok s then s else shim_wait host (ring_doorbell s))"

definition alr_shim_flush :: "alr_shim_state \<Rightarrow> alr_shim_state" where
  "alr_shim_flush s = (if \<not> sh_ring_ok s then s else ring_doorbell s)"

section \<open>Name tables\<close>

text \<open>The first index that satisfies a predicate.\<close>

definition first_index :: "('a \<Rightarrow> bool) \<Rightarrow> 'a list \<Rightarrow> nat option" where
  "first_index P xs = (let i = length (takeWhile (\<lambda>x. \<not> P x) xs) in if i < length xs then Some i else None)"

definition find_in ::
  "alr_program_uniforms list \<Rightarrow> u32 \<Rightarrow> bool \<Rightarrow> (nat \<times> alr_program_uniforms list) option" where
  "find_in table vprog create =
     (case first_index (\<lambda>p. pu_vprog p = vprog \<and> vprog \<noteq> 0) table of
        Some i \<Rightarrow> Some (i, table)
      | None \<Rightarrow>
          (case first_index (\<lambda>p. pu_vprog p = 0) table of
             Some j \<Rightarrow> if create then Some (j, table[j := \<lparr>pu_vprog = vprog, pu_names = []\<rparr>]) else None
           | None \<Rightarrow> None))"

text \<open>\<^verbatim>\<open>strncmp(a, b, n) == 0\<close> on strings given without their terminators.\<close>

definition strncmp_eq :: "byte list \<Rightarrow> byte list \<Rightarrow> nat \<Rightarrow> bool" where
  "strncmp_eq a b n \<longleftrightarrow> take n (a @ [0]) = take n (b @ [0])"

definition name_intern :: "alr_program_uniforms list \<Rightarrow> u32 \<Rightarrow> byte list \<Rightarrow> int \<times> alr_program_uniforms list" where
  "name_intern table vprog name =
     (case find_in table vprog True of
        None \<Rightarrow> (-1, table)
      | Some (j, table) \<Rightarrow>
          let names = pu_names (table ! j) in
          case first_index (\<lambda>stored. strncmp_eq stored name ALR_SHIM_MAX_UNIFORM_NAME) names of
            Some i \<Rightarrow> (int i, table)
          | None \<Rightarrow>
              if ALR_SHIM_MAX_UNIFORMS_PER_PROG \<le> length names then (-1, table)
              else (int (length names),
                    table[j := (table ! j)\<lparr>pu_names := names @ [take (ALR_SHIM_MAX_UNIFORM_NAME - 1) name]\<rparr>]))"

definition name_lookup :: "alr_program_uniforms list \<Rightarrow> u32 \<Rightarrow> int \<Rightarrow> byte list option" where
  "name_lookup table vprog handle =
     (if handle < 0 then None
      else case find_in table vprog False of
             None \<Rightarrow> None
           | Some (j, _) \<Rightarrow> if nat handle < length (pu_names (table ! j)) then Some (pu_names (table ! j) ! nat handle) else None)"

definition alr_shim_uniform_intern :: "u32 \<Rightarrow> byte list option \<Rightarrow> alr_shim_state \<Rightarrow> int \<times> alr_shim_state" where
  "alr_shim_uniform_intern vprog name s =
     (case name of
        None \<Rightarrow> (-1, s)
      | Some n \<Rightarrow> (case name_intern (sh_progs s) vprog n of (i, t) \<Rightarrow> (i, s\<lparr>sh_progs := t\<rparr>)))"

definition alr_shim_uniform_name :: "u32 \<Rightarrow> int \<Rightarrow> alr_shim_state \<Rightarrow> byte list option" where
  "alr_shim_uniform_name vprog handle s = name_lookup (sh_progs s) vprog handle"

definition alr_shim_attrib_intern :: "u32 \<Rightarrow> byte list option \<Rightarrow> alr_shim_state \<Rightarrow> int \<times> alr_shim_state" where
  "alr_shim_attrib_intern vprog name s =
     (case name of
        None \<Rightarrow> (-1, s)
      | Some n \<Rightarrow> (case name_intern (sh_attribs s) vprog n of (i, t) \<Rightarrow> (i, s\<lparr>sh_attribs := t\<rparr>)))"

definition alr_shim_attrib_name :: "u32 \<Rightarrow> int \<Rightarrow> alr_shim_state \<Rightarrow> byte list option" where
  "alr_shim_attrib_name vprog handle s = name_lookup (sh_attribs s) vprog handle"

definition names_count :: "alr_program_uniforms list \<Rightarrow> u32 \<Rightarrow> nat" where
  "names_count table vprog =
     (case find_in table vprog False of None \<Rightarrow> 0 | Some (j, _) \<Rightarrow> length (pu_names (table ! j)))"

definition alr_shim_uniform_count :: "u32 \<Rightarrow> alr_shim_state \<Rightarrow> nat" where
  "alr_shim_uniform_count vprog s = names_count (sh_progs s) vprog"

definition alr_shim_attrib_count :: "u32 \<Rightarrow> alr_shim_state \<Rightarrow> nat" where
  "alr_shim_attrib_count vprog s = names_count (sh_attribs s) vprog"

definition names_reset :: "alr_program_uniforms list \<Rightarrow> u32 \<Rightarrow> alr_program_uniforms list" where
  "names_reset table vprog =
     (case find_in table vprog False of None \<Rightarrow> table | Some (j, _) \<Rightarrow> table[j := (table ! j)\<lparr>pu_names := []\<rparr>])"

definition alr_shim_program_reset :: "u32 \<Rightarrow> alr_shim_state \<Rightarrow> alr_shim_state" where
  "alr_shim_program_reset vprog s =
     s\<lparr>sh_progs := names_reset (sh_progs s) vprog, sh_attribs := names_reset (sh_attribs s) vprog\<rparr>"

definition alr_shim_shader_set_srclen :: "u32 \<Rightarrow> u32 \<Rightarrow> alr_shim_state \<Rightarrow> alr_shim_state" where
  "alr_shim_shader_set_srclen vshader src_len s =
     (if vshader = 0 then s
      else case first_index (\<lambda>e. fst e = vshader) (sh_shaders s) of
             Some i \<Rightarrow> s\<lparr>sh_shaders := (sh_shaders s)[i := (vshader, src_len)]\<rparr>
           | None \<Rightarrow>
               (case first_index (\<lambda>e. fst e = 0) (sh_shaders s) of
                  Some j \<Rightarrow> s\<lparr>sh_shaders := (sh_shaders s)[j := (vshader, src_len)]\<rparr>
                | None \<Rightarrow> s))"

definition alr_shim_shader_srclen :: "u32 \<Rightarrow> alr_shim_state \<Rightarrow> u32 option" where
  "alr_shim_shader_srclen vshader s =
     (if vshader = 0 then None
      else map_option (\<lambda>i. snd (sh_shaders s ! i)) (first_index (\<lambda>e. fst e = vshader) (sh_shaders s)))"

section \<open>Handles\<close>

definition ALR_UNIFORM_PACK :: "u32 \<Rightarrow> int \<Rightarrow> u32" where
  "ALR_UNIFORM_PACK vprog idx = (push_bit 16 vprog) OR (of_int idx AND 0xFFFF)"

definition ALR_UNIFORM_VPROG :: "u32 \<Rightarrow> u32" where
  "ALR_UNIFORM_VPROG h = drop_bit 16 h"

definition ALR_UNIFORM_IDX :: "u32 \<Rightarrow> int" where
  "ALR_UNIFORM_IDX h = uint (h AND 0xFFFF)"

text \<open>Locations are signed; \<^term>\<open>-1 :: u32\<close> is \<^verbatim>\<open>-1\<close>.\<close>

definition glGetUniformLocation :: "u32 \<Rightarrow> byte list option \<Rightarrow> alr_shim_state \<Rightarrow> u32 \<times> alr_shim_state" where
  "glGetUniformLocation program name s =
     (case alr_shim_uniform_intern program name s of
        (idx, s) \<Rightarrow> if idx < 0 then (-1, s) else (ALR_UNIFORM_PACK program idx, s))"

definition glGetAttribLocation :: "u32 \<Rightarrow> byte list option \<Rightarrow> alr_shim_state \<Rightarrow> u32 \<times> alr_shim_state" where
  "glGetAttribLocation program name s =
     (case alr_shim_attrib_intern program name s of
        (idx, s) \<Rightarrow> if idx < 0 then (-1, s) else (ALR_UNIFORM_PACK program idx, s))"

definition glGetUniformBlockIndex :: "u32 \<Rightarrow> byte list option \<Rightarrow> alr_shim_state \<Rightarrow> u32 \<times> alr_shim_state" where
  "glGetUniformBlockIndex program name s =
     (case alr_shim_uniform_intern program name s of
        (idx, s) \<Rightarrow> if idx < 0 then (0xFFFFFFFF, s) else (ALR_UNIFORM_PACK program idx, s))"

text \<open>The program and the name behind a uniform loc, and behind a packed attribute index.\<close>

definition uniform_behind :: "u32 \<Rightarrow> alr_shim_state \<Rightarrow> (u32 \<times> byte list) option" where
  "uniform_behind loc s =
     (let vprog = ALR_UNIFORM_VPROG loc
      in map_option (\<lambda>n. (vprog, n)) (alr_shim_uniform_name vprog (ALR_UNIFORM_IDX loc) s))"

definition attrib_behind :: "u32 \<Rightarrow> alr_shim_state \<Rightarrow> (u32 \<times> byte list) option" where
  "attrib_behind index s =
     (if drop_bit 16 index \<noteq> 0 then
        let vprog = ALR_UNIFORM_VPROG index
        in map_option (\<lambda>n. (vprog, n)) (alr_shim_attrib_name vprog (ALR_UNIFORM_IDX index) s)
      else None)"

text \<open>A setter does nothing on a negative loc or an unknown handle.\<close>

definition emit_for_uniform ::
  "ring_host \<Rightarrow> u32 \<Rightarrow> (u32 \<Rightarrow> byte list \<Rightarrow> message) \<Rightarrow> alr_shim_state \<Rightarrow> alr_shim_state option" where
  "emit_for_uniform host loc build s =
     (if loc <s 0 then Some s
      else case uniform_behind loc s of None \<Rightarrow> Some s | Some (vprog, name) \<Rightarrow> alr_shim_emit host (build vprog name) s)"

section \<open>Entry points that send one message\<close>

definition glViewport :: "ring_host \<Rightarrow> u32 \<Rightarrow> u32 \<Rightarrow> u32 \<Rightarrow> u32 \<Rightarrow> alr_shim_state \<Rightarrow> alr_shim_state option" where
  "glViewport host x y w h = alr_shim_emit host (build_viewport x y w h)"

definition glClearColor :: "ring_host \<Rightarrow> u32 \<Rightarrow> u32 \<Rightarrow> u32 \<Rightarrow> u32 \<Rightarrow> alr_shim_state \<Rightarrow> alr_shim_state option" where
  "glClearColor host r g b a = alr_shim_emit host (build_clearcolor r g b a)"

definition glClear :: "ring_host \<Rightarrow> u32 \<Rightarrow> alr_shim_state \<Rightarrow> alr_shim_state option" where
  "glClear host msk = alr_shim_emit host build_clear"

definition glEnable :: "ring_host \<Rightarrow> u32 \<Rightarrow> alr_shim_state \<Rightarrow> alr_shim_state option" where
  "glEnable host cap = alr_shim_emit host (build_enable cap)"

definition glDisable :: "ring_host \<Rightarrow> u32 \<Rightarrow> alr_shim_state \<Rightarrow> alr_shim_state option" where
  "glDisable host cap = alr_shim_emit host (build_disable cap)"

definition glDepthFunc :: "ring_host \<Rightarrow> u32 \<Rightarrow> alr_shim_state \<Rightarrow> alr_shim_state option" where
  "glDepthFunc host func = alr_shim_emit host (build_depthfunc func)"

definition glCullFace :: "ring_host \<Rightarrow> u32 \<Rightarrow> alr_shim_state \<Rightarrow> alr_shim_state option" where
  "glCullFace host mode = alr_shim_emit host (build_cull_face mode)"

definition glFrontFace :: "ring_host \<Rightarrow> u32 \<Rightarrow> alr_shim_state \<Rightarrow> alr_shim_state option" where
  "glFrontFace host mode = alr_shim_emit host (build_front_face mode)"

definition glScissor :: "ring_host \<Rightarrow> u32 \<Rightarrow> u32 \<Rightarrow> u32 \<Rightarrow> u32 \<Rightarrow> alr_shim_state \<Rightarrow> alr_shim_state option" where
  "glScissor host x y w h = alr_shim_emit host (build_scissor x y w h)"

definition glCompileShader :: "ring_host \<Rightarrow> u32 \<Rightarrow> alr_shim_state \<Rightarrow> alr_shim_state option" where
  "glCompileShader host shader = alr_shim_emit host (build_compile_shader shader)"

definition glAttachShader :: "ring_host \<Rightarrow> u32 \<Rightarrow> u32 \<Rightarrow> alr_shim_state \<Rightarrow> alr_shim_state option" where
  "glAttachShader host program shader = alr_shim_emit host (build_attach program shader)"

definition glUseProgram :: "ring_host \<Rightarrow> u32 \<Rightarrow> alr_shim_state \<Rightarrow> alr_shim_state option" where
  "glUseProgram host program = alr_shim_emit host (build_use program)"

definition glBindBuffer :: "ring_host \<Rightarrow> u32 \<Rightarrow> u32 \<Rightarrow> alr_shim_state \<Rightarrow> alr_shim_state option" where
  "glBindBuffer host target buffer = alr_shim_emit host (build_bind_buffer target buffer)"

definition glDrawArrays :: "ring_host \<Rightarrow> u32 \<Rightarrow> u32 \<Rightarrow> u32 \<Rightarrow> alr_shim_state \<Rightarrow> alr_shim_state option" where
  "glDrawArrays host mode first count = alr_shim_emit host (build_draw_arrays mode first count)"

definition glDrawElements :: "ring_host \<Rightarrow> u32 \<Rightarrow> u32 \<Rightarrow> u32 \<Rightarrow> u32 \<Rightarrow> alr_shim_state \<Rightarrow> alr_shim_state option" where
  "glDrawElements host mode count type indices = alr_shim_emit host (build_draw_elements mode count type indices)"

definition glActiveTexture :: "ring_host \<Rightarrow> u32 \<Rightarrow> alr_shim_state \<Rightarrow> alr_shim_state option" where
  "glActiveTexture host texture = alr_shim_emit host (build_active_texture texture)"

definition glBindTexture :: "ring_host \<Rightarrow> u32 \<Rightarrow> u32 \<Rightarrow> alr_shim_state \<Rightarrow> alr_shim_state option" where
  "glBindTexture host target texture = alr_shim_emit host (build_bind_texture target texture)"

definition glTexParameteri :: "ring_host \<Rightarrow> u32 \<Rightarrow> u32 \<Rightarrow> u32 \<Rightarrow> alr_shim_state \<Rightarrow> alr_shim_state option" where
  "glTexParameteri host target pname param = alr_shim_emit host (build_tex_parameteri target pname param)"

definition glGenerateMipmap :: "ring_host \<Rightarrow> u32 \<Rightarrow> alr_shim_state \<Rightarrow> alr_shim_state option" where
  "glGenerateMipmap host target = alr_shim_emit host (build_generate_mipmap target)"

definition glBindFramebuffer :: "ring_host \<Rightarrow> u32 \<Rightarrow> u32 \<Rightarrow> alr_shim_state \<Rightarrow> alr_shim_state option" where
  "glBindFramebuffer host target framebuffer = alr_shim_emit host (build_bind_framebuffer target framebuffer)"

definition glFramebufferTexture2D :: "ring_host \<Rightarrow> u32 \<Rightarrow> u32 \<Rightarrow> u32 \<Rightarrow> u32 \<Rightarrow> u32 \<Rightarrow> alr_shim_state \<Rightarrow> alr_shim_state option" where
  "glFramebufferTexture2D host target attachment textarget texture level =
     alr_shim_emit host (build_framebuffer_texture2d target attachment textarget texture level)"

definition glBindRenderbuffer :: "ring_host \<Rightarrow> u32 \<Rightarrow> u32 \<Rightarrow> alr_shim_state \<Rightarrow> alr_shim_state option" where
  "glBindRenderbuffer host target renderbuffer = alr_shim_emit host (build_bind_renderbuffer target renderbuffer)"

definition glRenderbufferStorage :: "ring_host \<Rightarrow> u32 \<Rightarrow> u32 \<Rightarrow> u32 \<Rightarrow> u32 \<Rightarrow> alr_shim_state \<Rightarrow> alr_shim_state option" where
  "glRenderbufferStorage host target internalformat width height =
     alr_shim_emit host (build_renderbuffer_storage target internalformat width height)"

definition glFramebufferRenderbuffer :: "ring_host \<Rightarrow> u32 \<Rightarrow> u32 \<Rightarrow> u32 \<Rightarrow> u32 \<Rightarrow> alr_shim_state \<Rightarrow> alr_shim_state option" where
  "glFramebufferRenderbuffer host target attachment renderbuffertarget renderbuffer =
     alr_shim_emit host (build_framebuffer_renderbuffer target attachment renderbuffertarget renderbuffer)"

definition glBindVertexArray :: "ring_host \<Rightarrow> u32 \<Rightarrow> alr_shim_state \<Rightarrow> alr_shim_state option" where
  "glBindVertexArray host array = alr_shim_emit host (build_bind_vertex_array array)"

definition glDrawArraysInstanced :: "ring_host \<Rightarrow> u32 \<Rightarrow> u32 \<Rightarrow> u32 \<Rightarrow> u32 \<Rightarrow> alr_shim_state \<Rightarrow> alr_shim_state option" where
  "glDrawArraysInstanced host mode first count instancecount =
     alr_shim_emit host (build_draw_arrays_instanced mode first count instancecount)"

definition glDrawElementsInstanced :: "ring_host \<Rightarrow> u32 \<Rightarrow> u32 \<Rightarrow> u32 \<Rightarrow> u32 \<Rightarrow> u32 \<Rightarrow> alr_shim_state \<Rightarrow> alr_shim_state option" where
  "glDrawElementsInstanced host mode count type indices instancecount =
     alr_shim_emit host (build_draw_elements_instanced mode count type indices instancecount)"

definition glBindBufferBase :: "ring_host \<Rightarrow> u32 \<Rightarrow> u32 \<Rightarrow> u32 \<Rightarrow> alr_shim_state \<Rightarrow> alr_shim_state option" where
  "glBindBufferBase host target index buffer = alr_shim_emit host (build_bind_buffer_base target index buffer)"

definition glBindSampler :: "ring_host \<Rightarrow> u32 \<Rightarrow> u32 \<Rightarrow> alr_shim_state \<Rightarrow> alr_shim_state option" where
  "glBindSampler host unit sampler = alr_shim_emit host (build_bind_sampler unit sampler)"

definition glSamplerParameteri :: "ring_host \<Rightarrow> u32 \<Rightarrow> u32 \<Rightarrow> u32 \<Rightarrow> alr_shim_state \<Rightarrow> alr_shim_state option" where
  "glSamplerParameteri host sampler pname param = alr_shim_emit host (build_sampler_parameteri sampler pname param)"

definition glReadBuffer :: "ring_host \<Rightarrow> u32 \<Rightarrow> alr_shim_state \<Rightarrow> alr_shim_state option" where
  "glReadBuffer host src = alr_shim_emit host (build_read_buffer src)"

definition glBlendFunc :: "ring_host \<Rightarrow> u32 \<Rightarrow> u32 \<Rightarrow> alr_shim_state \<Rightarrow> alr_shim_state option" where
  "glBlendFunc host sfactor dfactor = alr_shim_emit host (build_blend_func sfactor dfactor)"

definition glBlendFuncSeparate :: "ring_host \<Rightarrow> u32 \<Rightarrow> u32 \<Rightarrow> u32 \<Rightarrow> u32 \<Rightarrow> alr_shim_state \<Rightarrow> alr_shim_state option" where
  "glBlendFuncSeparate host src_rgb dst_rgb src_alpha dst_alpha =
     alr_shim_emit host (build_blend_func_separate src_rgb dst_rgb src_alpha dst_alpha)"

definition glBlendEquation :: "ring_host \<Rightarrow> u32 \<Rightarrow> alr_shim_state \<Rightarrow> alr_shim_state option" where
  "glBlendEquation host mode = alr_shim_emit host (build_blend_equation mode)"

definition glBlendEquationSeparate :: "ring_host \<Rightarrow> u32 \<Rightarrow> u32 \<Rightarrow> alr_shim_state \<Rightarrow> alr_shim_state option" where
  "glBlendEquationSeparate host mode_rgb mode_alpha =
     alr_shim_emit host (build_blend_equation_separate mode_rgb mode_alpha)"

definition glBlendColor :: "ring_host \<Rightarrow> u32 \<Rightarrow> u32 \<Rightarrow> u32 \<Rightarrow> u32 \<Rightarrow> alr_shim_state \<Rightarrow> alr_shim_state option" where
  "glBlendColor host r g b a = alr_shim_emit host (build_blend_color r g b a)"

definition glColorMask :: "ring_host \<Rightarrow> bool \<Rightarrow> bool \<Rightarrow> bool \<Rightarrow> bool \<Rightarrow> alr_shim_state \<Rightarrow> alr_shim_state option" where
  "glColorMask host r g b a = alr_shim_emit host (build_color_mask r g b a)"

definition glDepthMask :: "ring_host \<Rightarrow> bool \<Rightarrow> alr_shim_state \<Rightarrow> alr_shim_state option" where
  "glDepthMask host f = alr_shim_emit host (build_depth_mask f)"

definition glDepthRangef :: "ring_host \<Rightarrow> u32 \<Rightarrow> u32 \<Rightarrow> alr_shim_state \<Rightarrow> alr_shim_state option" where
  "glDepthRangef host n f = alr_shim_emit host (build_depth_rangef n f)"

definition glClearDepthf :: "ring_host \<Rightarrow> u32 \<Rightarrow> alr_shim_state \<Rightarrow> alr_shim_state option" where
  "glClearDepthf host d = alr_shim_emit host (build_clear_depthf d)"

definition glClearStencil :: "ring_host \<Rightarrow> u32 \<Rightarrow> alr_shim_state \<Rightarrow> alr_shim_state option" where
  "glClearStencil host st = alr_shim_emit host (build_clear_stencil st)"

definition glStencilFunc :: "ring_host \<Rightarrow> u32 \<Rightarrow> u32 \<Rightarrow> u32 \<Rightarrow> alr_shim_state \<Rightarrow> alr_shim_state option" where
  "glStencilFunc host func ref msk = alr_shim_emit host (build_stencil_func func ref msk)"

definition glStencilFuncSeparate :: "ring_host \<Rightarrow> u32 \<Rightarrow> u32 \<Rightarrow> u32 \<Rightarrow> u32 \<Rightarrow> alr_shim_state \<Rightarrow> alr_shim_state option" where
  "glStencilFuncSeparate host face func ref msk = alr_shim_emit host (build_stencil_func_separate face func ref msk)"

definition glStencilOp :: "ring_host \<Rightarrow> u32 \<Rightarrow> u32 \<Rightarrow> u32 \<Rightarrow> alr_shim_state \<Rightarrow> alr_shim_state option" where
  "glStencilOp host sfail dpfail dppass = alr_shim_emit host (build_stencil_op sfail dpfail dppass)"

definition glStencilOpSeparate :: "ring_host \<Rightarrow> u32 \<Rightarrow> u32 \<Rightarrow> u32 \<Rightarrow> u32 \<Rightarrow> alr_shim_state \<Rightarrow> alr_shim_state option" where
  "glStencilOpSeparate host face sfail dpfail dppass =
     alr_shim_emit host (build_stencil_op_separate face sfail dpfail dppass)"

definition glStencilMask :: "ring_host \<Rightarrow> u32 \<Rightarrow> alr_shim_state \<Rightarrow> alr_shim_state option" where
  "glStencilMask host m = alr_shim_emit host (build_stencil_mask m)"

definition glStencilMaskSeparate :: "ring_host \<Rightarrow> u32 \<Rightarrow> u32 \<Rightarrow> alr_shim_state \<Rightarrow> alr_shim_state option" where
  "glStencilMaskSeparate host face m = alr_shim_emit host (build_stencil_mask_separate face m)"

definition glPolygonOffset :: "ring_host \<Rightarrow> u32 \<Rightarrow> u32 \<Rightarrow> alr_shim_state \<Rightarrow> alr_shim_state option" where
  "glPolygonOffset host factor units = alr_shim_emit host (build_polygon_offset factor units)"

definition glLineWidth :: "ring_host \<Rightarrow> u32 \<Rightarrow> alr_shim_state \<Rightarrow> alr_shim_state option" where
  "glLineWidth host w = alr_shim_emit host (build_line_width w)"

definition glSampleCoverage :: "ring_host \<Rightarrow> u32 \<Rightarrow> bool \<Rightarrow> alr_shim_state \<Rightarrow> alr_shim_state option" where
  "glSampleCoverage host v invert = alr_shim_emit host (build_sample_coverage v invert)"

section \<open>Objects\<close>

text \<open>\<^verbatim>\<open>alloc_id\<close> hands out the counter and steps it.  The loops of the \<^verbatim>\<open>glGen\<close> calls allocate and announce
  one id at a time; a non-positive count or a \<^verbatim>\<open>NULL\<close> array does nothing.\<close>

datatype object_kind = Shaders | Programs | Buffers | Textures | Framebuffers | Renderbuffers | VertexArrays | Samplers

primrec alloc_id :: "object_kind \<Rightarrow> alr_shim_state \<Rightarrow> u32 \<times> alr_shim_state" where
  "alloc_id Shaders s = (sh_next_shader s, s\<lparr>sh_next_shader := sh_next_shader s + 1\<rparr>)"
| "alloc_id Programs s = (sh_next_program s, s\<lparr>sh_next_program := sh_next_program s + 1\<rparr>)"
| "alloc_id Buffers s = (sh_next_buffer s, s\<lparr>sh_next_buffer := sh_next_buffer s + 1\<rparr>)"
| "alloc_id Textures s = (sh_next_texture s, s\<lparr>sh_next_texture := sh_next_texture s + 1\<rparr>)"
| "alloc_id Framebuffers s = (sh_next_framebuffer s, s\<lparr>sh_next_framebuffer := sh_next_framebuffer s + 1\<rparr>)"
| "alloc_id Renderbuffers s = (sh_next_renderbuffer s, s\<lparr>sh_next_renderbuffer := sh_next_renderbuffer s + 1\<rparr>)"
| "alloc_id VertexArrays s = (sh_next_vertex_array s, s\<lparr>sh_next_vertex_array := sh_next_vertex_array s + 1\<rparr>)"
| "alloc_id Samplers s = (sh_next_sampler s, s\<lparr>sh_next_sampler := sh_next_sampler s + 1\<rparr>)"

definition create_object ::
  "ring_host \<Rightarrow> object_kind \<Rightarrow> (u32 \<Rightarrow> message) \<Rightarrow> alr_shim_state \<Rightarrow> (u32 \<times> alr_shim_state) option" where
  "create_object host kind build s =
     (case alloc_id kind s of (vid, s) \<Rightarrow> map_option (\<lambda>s. (vid, s)) (alr_shim_emit host (build vid) s))"

definition glCreateShader :: "ring_host \<Rightarrow> u32 \<Rightarrow> alr_shim_state \<Rightarrow> (u32 \<times> alr_shim_state) option" where
  "glCreateShader host type = create_object host Shaders (\<lambda>vid. build_create_shader vid type)"

definition glCreateProgram :: "ring_host \<Rightarrow> alr_shim_state \<Rightarrow> (u32 \<times> alr_shim_state) option" where
  "glCreateProgram host = create_object host Programs build_create_program"

primrec gen_loop ::
  "ring_host \<Rightarrow> object_kind \<Rightarrow> (u32 \<Rightarrow> message) \<Rightarrow> nat \<Rightarrow> alr_shim_state \<Rightarrow> (u32 list \<times> alr_shim_state) option" where
  "gen_loop host kind build 0 s = Some ([], s)"
| "gen_loop host kind build (Suc n) s =
     (case create_object host kind build s of
        None \<Rightarrow> None
      | Some (vid, s) \<Rightarrow> map_option (\<lambda>(ids, s). (vid # ids, s)) (gen_loop host kind build n s))"

definition gen_objects ::
  "ring_host \<Rightarrow> object_kind \<Rightarrow> (u32 \<Rightarrow> message) \<Rightarrow> int \<Rightarrow> bool \<Rightarrow> alr_shim_state \<Rightarrow> (u32 list \<times> alr_shim_state) option" where
  "gen_objects host kind build n have_array s =
     (if n \<le> 0 \<or> \<not> have_array then Some ([], s) else gen_loop host kind build (nat n) s)"

definition glGenBuffers :: "ring_host \<Rightarrow> int \<Rightarrow> bool \<Rightarrow> alr_shim_state \<Rightarrow> (u32 list \<times> alr_shim_state) option" where
  "glGenBuffers host = gen_objects host Buffers build_gen_buffer"

definition glGenTextures :: "ring_host \<Rightarrow> int \<Rightarrow> bool \<Rightarrow> alr_shim_state \<Rightarrow> (u32 list \<times> alr_shim_state) option" where
  "glGenTextures host = gen_objects host Textures build_gen_texture"

definition glGenFramebuffers :: "ring_host \<Rightarrow> int \<Rightarrow> bool \<Rightarrow> alr_shim_state \<Rightarrow> (u32 list \<times> alr_shim_state) option" where
  "glGenFramebuffers host = gen_objects host Framebuffers build_gen_framebuffer"

definition glGenRenderbuffers :: "ring_host \<Rightarrow> int \<Rightarrow> bool \<Rightarrow> alr_shim_state \<Rightarrow> (u32 list \<times> alr_shim_state) option" where
  "glGenRenderbuffers host = gen_objects host Renderbuffers build_gen_renderbuffer"

definition glGenVertexArrays :: "ring_host \<Rightarrow> int \<Rightarrow> bool \<Rightarrow> alr_shim_state \<Rightarrow> (u32 list \<times> alr_shim_state) option" where
  "glGenVertexArrays host = gen_objects host VertexArrays build_gen_vertex_array"

definition glGenSamplers :: "ring_host \<Rightarrow> int \<Rightarrow> bool \<Rightarrow> alr_shim_state \<Rightarrow> (u32 list \<times> alr_shim_state) option" where
  "glGenSamplers host = gen_objects host Samplers build_gen_sampler"

section \<open>Shaders and programs\<close>

text \<open>The chunks of a source with the length the caller gave, if any: a missing string is empty, a missing or
  negative length means up to the terminator.\<close>

definition chunk_bytes :: "byte list option \<times> int option \<Rightarrow> byte list" where
  "chunk_bytes c =
     (let src = (case fst c of None \<Rightarrow> [] | Some s \<Rightarrow> s)
      in case snd c of
           Some n \<Rightarrow> if 0 \<le> n then take (nat n) src else c_name src
         | None \<Rightarrow> c_name src)"

definition glShaderSource ::
  "ring_host \<Rightarrow> u32 \<Rightarrow> (byte list option \<times> int option) list \<Rightarrow> alr_shim_state \<Rightarrow> alr_shim_state option" where
  "glShaderSource host shader chunks s =
     (if chunks = [] then Some s
      else
        let src = concat (map chunk_bytes chunks)
        in alr_shim_emit host (build_shader_source shader src)
             (alr_shim_shader_set_srclen shader (of_nat (length src)) s))"

definition glBindAttribLocation ::
  "ring_host \<Rightarrow> u32 \<Rightarrow> u32 \<Rightarrow> byte list option \<Rightarrow> alr_shim_state \<Rightarrow> alr_shim_state option" where
  "glBindAttribLocation host program index name s =
     (case name of None \<Rightarrow> Some s | Some n \<Rightarrow> alr_shim_emit host (build_bind_attrib program index n) s)"

definition glLinkProgram :: "ring_host \<Rightarrow> u32 \<Rightarrow> alr_shim_state \<Rightarrow> alr_shim_state option" where
  "glLinkProgram host program s = alr_shim_emit host (build_link program) (alr_shim_program_reset program s)"

definition glDeleteProgram :: "u32 \<Rightarrow> alr_shim_state \<Rightarrow> alr_shim_state" where
  "glDeleteProgram program s = alr_shim_program_reset program s"

section \<open>Attributes\<close>

definition glEnableVertexAttribArray :: "ring_host \<Rightarrow> u32 \<Rightarrow> alr_shim_state \<Rightarrow> alr_shim_state option" where
  "glEnableVertexAttribArray host index s =
     (case attrib_behind index s of
        Some (vprog, name) \<Rightarrow> alr_shim_emit host (build_enable_vaa_named vprog name) s
      | None \<Rightarrow> alr_shim_emit host (build_enable_vaa index) s)"

definition glVertexAttribPointer ::
  "ring_host \<Rightarrow> u32 \<Rightarrow> u32 \<Rightarrow> u32 \<Rightarrow> bool \<Rightarrow> u32 \<Rightarrow> u32 \<Rightarrow> alr_shim_state \<Rightarrow> alr_shim_state option" where
  "glVertexAttribPointer host index sz type normalized stride pointer s =
     (case attrib_behind index s of
        Some (vprog, name) \<Rightarrow> alr_shim_emit host (build_vap_named vprog name sz type normalized stride pointer) s
      | None \<Rightarrow> alr_shim_emit host (build_vap index sz type normalized stride pointer) s)"

definition glVertexAttribDivisor :: "ring_host \<Rightarrow> u32 \<Rightarrow> u32 \<Rightarrow> alr_shim_state \<Rightarrow> alr_shim_state option" where
  "glVertexAttribDivisor host index divisor s =
     (case attrib_behind index s of
        Some (vprog, name) \<Rightarrow> alr_shim_emit host (build_vad_named vprog name divisor) s
      | None \<Rightarrow> alr_shim_emit host (build_vad index divisor) s)"

text \<open>\<^verbatim>\<open>glVertexAttrib1f\<close> to \<^verbatim>\<open>4fv\<close>; \<open>v\<close> holds \<open>ncomp\<close> values.\<close>

definition emit_vertex_attrib_f :: "ring_host \<Rightarrow> u32 \<Rightarrow> byte \<Rightarrow> u32 list \<Rightarrow> alr_shim_state \<Rightarrow> alr_shim_state option" where
  "emit_vertex_attrib_f host index ncomp v s =
     (case attrib_behind index s of
        Some (vprog, name) \<Rightarrow> alr_shim_emit host (build_vattrib_f_named vprog name ncomp v) s
      | None \<Rightarrow> alr_shim_emit host (build_vattrib_f index ncomp v) s)"

definition glVertexAttrib1f :: "ring_host \<Rightarrow> u32 \<Rightarrow> u32 \<Rightarrow> alr_shim_state \<Rightarrow> alr_shim_state option" where
  "glVertexAttrib1f host i x = emit_vertex_attrib_f host i 1 [x]"

definition glVertexAttrib2f :: "ring_host \<Rightarrow> u32 \<Rightarrow> u32 \<Rightarrow> u32 \<Rightarrow> alr_shim_state \<Rightarrow> alr_shim_state option" where
  "glVertexAttrib2f host i x y = emit_vertex_attrib_f host i 2 [x, y]"

definition glVertexAttrib3f :: "ring_host \<Rightarrow> u32 \<Rightarrow> u32 \<Rightarrow> u32 \<Rightarrow> u32 \<Rightarrow> alr_shim_state \<Rightarrow> alr_shim_state option" where
  "glVertexAttrib3f host i x y z = emit_vertex_attrib_f host i 3 [x, y, z]"

definition glVertexAttrib4f :: "ring_host \<Rightarrow> u32 \<Rightarrow> u32 \<Rightarrow> u32 \<Rightarrow> u32 \<Rightarrow> u32 \<Rightarrow> alr_shim_state \<Rightarrow> alr_shim_state option" where
  "glVertexAttrib4f host i x y z w = emit_vertex_attrib_f host i 4 [x, y, z, w]"

definition glVertexAttrib1fv :: "ring_host \<Rightarrow> u32 \<Rightarrow> u32 list option \<Rightarrow> alr_shim_state \<Rightarrow> alr_shim_state option" where
  "glVertexAttrib1fv host i v s = (case v of None \<Rightarrow> Some s | Some v \<Rightarrow> emit_vertex_attrib_f host i 1 v s)"

definition glVertexAttrib2fv :: "ring_host \<Rightarrow> u32 \<Rightarrow> u32 list option \<Rightarrow> alr_shim_state \<Rightarrow> alr_shim_state option" where
  "glVertexAttrib2fv host i v s = (case v of None \<Rightarrow> Some s | Some v \<Rightarrow> emit_vertex_attrib_f host i 2 v s)"

definition glVertexAttrib3fv :: "ring_host \<Rightarrow> u32 \<Rightarrow> u32 list option \<Rightarrow> alr_shim_state \<Rightarrow> alr_shim_state option" where
  "glVertexAttrib3fv host i v s = (case v of None \<Rightarrow> Some s | Some v \<Rightarrow> emit_vertex_attrib_f host i 3 v s)"

definition glVertexAttrib4fv :: "ring_host \<Rightarrow> u32 \<Rightarrow> u32 list option \<Rightarrow> alr_shim_state \<Rightarrow> alr_shim_state option" where
  "glVertexAttrib4fv host i v s = (case v of None \<Rightarrow> Some s | Some v \<Rightarrow> emit_vertex_attrib_f host i 4 v s)"

section \<open>Uniforms\<close>

definition glUniform1i :: "ring_host \<Rightarrow> u32 \<Rightarrow> u32 \<Rightarrow> alr_shim_state \<Rightarrow> alr_shim_state option" where
  "glUniform1i host loc v0 = emit_for_uniform host loc (\<lambda>vprog name. build_uniform1i vprog name v0)"

text \<open>\<^verbatim>\<open>value\<close> is \<^const>\<open>None\<close> for \<^verbatim>\<open>NULL\<close>.  The transposition moves entry \<open>(r, c)\<close> to \<open>(c, r)\<close>.\<close>

definition transposed :: "nat \<Rightarrow> u32 list \<Rightarrow> u32 list" where
  "transposed dim m = map (\<lambda>i. m ! ((i mod dim) * dim + i div dim)) [0..<dim * dim]"

definition glUniformMatrix4fv ::
  "ring_host \<Rightarrow> u32 \<Rightarrow> int \<Rightarrow> bool \<Rightarrow> u32 list option \<Rightarrow> alr_shim_state \<Rightarrow> alr_shim_state option" where
  "glUniformMatrix4fv host loc count flip value s =
     (case value of
        None \<Rightarrow> Some s
      | Some m \<Rightarrow>
          if count \<le> 0 then Some s
          else emit_for_uniform host loc
                 (\<lambda>vprog name. build_uniform_mat4 vprog name (if flip then transposed 4 m else m)) s)"

definition emit_uniform_fv ::
  "ring_host \<Rightarrow> u32 \<Rightarrow> byte \<Rightarrow> int \<Rightarrow> u32 list option \<Rightarrow> alr_shim_state \<Rightarrow> alr_shim_state option" where
  "emit_uniform_fv host loc cols count v s =
     (case v of
        None \<Rightarrow> Some s
      | Some v \<Rightarrow>
          if count \<le> 0 then Some s
          else emit_for_uniform host loc (\<lambda>vprog name. build_uniform_fv vprog name cols (of_int count) v) s)"

definition emit_uniform_iv ::
  "ring_host \<Rightarrow> u32 \<Rightarrow> byte \<Rightarrow> int \<Rightarrow> u32 list option \<Rightarrow> alr_shim_state \<Rightarrow> alr_shim_state option" where
  "emit_uniform_iv host loc cols count v s =
     (case v of
        None \<Rightarrow> Some s
      | Some v \<Rightarrow>
          if count \<le> 0 then Some s
          else emit_for_uniform host loc (\<lambda>vprog name. build_uniform_iv vprog name cols (of_int count) v) s)"

definition emit_uniform_matrix_fv ::
  "ring_host \<Rightarrow> u32 \<Rightarrow> byte \<Rightarrow> int \<Rightarrow> bool \<Rightarrow> u32 list option \<Rightarrow> alr_shim_state \<Rightarrow> alr_shim_state option" where
  "emit_uniform_matrix_fv host loc dim count flip value s =
     (case value of
        None \<Rightarrow> Some s
      | Some m \<Rightarrow>
          if count \<le> 0 then Some s
          else if flip \<and> count = 1 then
            emit_for_uniform host loc (\<lambda>vprog name. build_uniform_matrix_fv vprog name dim 1 (transposed (unat dim) m)) s
          else emit_for_uniform host loc (\<lambda>vprog name. build_uniform_matrix_fv vprog name dim (of_int count) m) s)"

definition glUniform1f :: "ring_host \<Rightarrow> u32 \<Rightarrow> u32 \<Rightarrow> alr_shim_state \<Rightarrow> alr_shim_state option" where
  "glUniform1f host loc x = emit_uniform_fv host loc 1 1 (Some [x])"

definition glUniform2f :: "ring_host \<Rightarrow> u32 \<Rightarrow> u32 \<Rightarrow> u32 \<Rightarrow> alr_shim_state \<Rightarrow> alr_shim_state option" where
  "glUniform2f host loc x y = emit_uniform_fv host loc 2 1 (Some [x, y])"

definition glUniform3f :: "ring_host \<Rightarrow> u32 \<Rightarrow> u32 \<Rightarrow> u32 \<Rightarrow> u32 \<Rightarrow> alr_shim_state \<Rightarrow> alr_shim_state option" where
  "glUniform3f host loc x y z = emit_uniform_fv host loc 3 1 (Some [x, y, z])"

definition glUniform4f :: "ring_host \<Rightarrow> u32 \<Rightarrow> u32 \<Rightarrow> u32 \<Rightarrow> u32 \<Rightarrow> u32 \<Rightarrow> alr_shim_state \<Rightarrow> alr_shim_state option" where
  "glUniform4f host loc x y z w = emit_uniform_fv host loc 4 1 (Some [x, y, z, w])"

definition glUniform1fv :: "ring_host \<Rightarrow> u32 \<Rightarrow> int \<Rightarrow> u32 list option \<Rightarrow> alr_shim_state \<Rightarrow> alr_shim_state option" where
  "glUniform1fv host loc count v = emit_uniform_fv host loc 1 count v"

definition glUniform2fv :: "ring_host \<Rightarrow> u32 \<Rightarrow> int \<Rightarrow> u32 list option \<Rightarrow> alr_shim_state \<Rightarrow> alr_shim_state option" where
  "glUniform2fv host loc count v = emit_uniform_fv host loc 2 count v"

definition glUniform3fv :: "ring_host \<Rightarrow> u32 \<Rightarrow> int \<Rightarrow> u32 list option \<Rightarrow> alr_shim_state \<Rightarrow> alr_shim_state option" where
  "glUniform3fv host loc count v = emit_uniform_fv host loc 3 count v"

definition glUniform4fv :: "ring_host \<Rightarrow> u32 \<Rightarrow> int \<Rightarrow> u32 list option \<Rightarrow> alr_shim_state \<Rightarrow> alr_shim_state option" where
  "glUniform4fv host loc count v = emit_uniform_fv host loc 4 count v"

definition glUniform2i :: "ring_host \<Rightarrow> u32 \<Rightarrow> u32 \<Rightarrow> u32 \<Rightarrow> alr_shim_state \<Rightarrow> alr_shim_state option" where
  "glUniform2i host loc x y = emit_uniform_iv host loc 2 1 (Some [x, y])"

definition glUniform3i :: "ring_host \<Rightarrow> u32 \<Rightarrow> u32 \<Rightarrow> u32 \<Rightarrow> u32 \<Rightarrow> alr_shim_state \<Rightarrow> alr_shim_state option" where
  "glUniform3i host loc x y z = emit_uniform_iv host loc 3 1 (Some [x, y, z])"

definition glUniform4i :: "ring_host \<Rightarrow> u32 \<Rightarrow> u32 \<Rightarrow> u32 \<Rightarrow> u32 \<Rightarrow> u32 \<Rightarrow> alr_shim_state \<Rightarrow> alr_shim_state option" where
  "glUniform4i host loc x y z w = emit_uniform_iv host loc 4 1 (Some [x, y, z, w])"

definition glUniform1iv :: "ring_host \<Rightarrow> u32 \<Rightarrow> int \<Rightarrow> u32 list option \<Rightarrow> alr_shim_state \<Rightarrow> alr_shim_state option" where
  "glUniform1iv host loc count v = emit_uniform_iv host loc 1 count v"

definition glUniform2iv :: "ring_host \<Rightarrow> u32 \<Rightarrow> int \<Rightarrow> u32 list option \<Rightarrow> alr_shim_state \<Rightarrow> alr_shim_state option" where
  "glUniform2iv host loc count v = emit_uniform_iv host loc 2 count v"

definition glUniform3iv :: "ring_host \<Rightarrow> u32 \<Rightarrow> int \<Rightarrow> u32 list option \<Rightarrow> alr_shim_state \<Rightarrow> alr_shim_state option" where
  "glUniform3iv host loc count v = emit_uniform_iv host loc 3 count v"

definition glUniform4iv :: "ring_host \<Rightarrow> u32 \<Rightarrow> int \<Rightarrow> u32 list option \<Rightarrow> alr_shim_state \<Rightarrow> alr_shim_state option" where
  "glUniform4iv host loc count v = emit_uniform_iv host loc 4 count v"

definition glUniformMatrix2fv :: "ring_host \<Rightarrow> u32 \<Rightarrow> int \<Rightarrow> bool \<Rightarrow> u32 list option \<Rightarrow> alr_shim_state \<Rightarrow> alr_shim_state option" where
  "glUniformMatrix2fv host loc count flip v = emit_uniform_matrix_fv host loc 2 count flip v"

definition glUniformMatrix3fv :: "ring_host \<Rightarrow> u32 \<Rightarrow> int \<Rightarrow> bool \<Rightarrow> u32 list option \<Rightarrow> alr_shim_state \<Rightarrow> alr_shim_state option" where
  "glUniformMatrix3fv host loc count flip v = emit_uniform_matrix_fv host loc 3 count flip v"

definition glUniformBlockBinding :: "ring_host \<Rightarrow> u32 \<Rightarrow> u32 \<Rightarrow> u32 \<Rightarrow> alr_shim_state \<Rightarrow> alr_shim_state option" where
  "glUniformBlockBinding host program uniformBlockIndex binding s =
     (if uniformBlockIndex = 0xFFFFFFFF then Some s
      else case uniform_behind uniformBlockIndex s of
             None \<Rightarrow> Some s
           | Some (vprog, name) \<Rightarrow> alr_shim_emit host (build_uniform_block_binding vprog name binding) s)"

section \<open>Data\<close>

text \<open>The bytes behind the pointer, \<^verbatim>\<open>size\<close> of them; a positive size with a \<^verbatim>\<open>NULL\<close> pointer reads address zero, which
  is \<^const>\<open>None\<close> here.\<close>

definition blob_of :: "int \<Rightarrow> byte list option \<Rightarrow> byte list option" where
  "blob_of sz data =
     (let len = (if 0 < sz then unat (of_int sz :: u32) else 0)
      in if len = 0 then Some [] else map_option (take len) data)"

definition glBufferData ::
  "ring_host \<Rightarrow> u32 \<Rightarrow> int \<Rightarrow> byte list option \<Rightarrow> u32 \<Rightarrow> alr_shim_state \<Rightarrow> alr_shim_state option" where
  "glBufferData host target sz data usage s =
     (if \<not> sh_ring_ok s then Some s
      else Option.bind (blob_of sz data) (\<lambda>d. alr_shim_emit host (build_buffer_data target d usage) s))"

definition glBufferSubData ::
  "ring_host \<Rightarrow> u32 \<Rightarrow> u32 \<Rightarrow> int \<Rightarrow> byte list option \<Rightarrow> alr_shim_state \<Rightarrow> alr_shim_state option" where
  "glBufferSubData host target offset sz data s =
     (if \<not> sh_ring_ok s then Some s
      else Option.bind (blob_of sz data) (\<lambda>d. alr_shim_emit host (build_buffer_subdata target offset d) s))"

definition glBindBufferRange ::
  "ring_host \<Rightarrow> u32 \<Rightarrow> u32 \<Rightarrow> u32 \<Rightarrow> u32 \<Rightarrow> int \<Rightarrow> alr_shim_state \<Rightarrow> alr_shim_state option" where
  "glBindBufferRange host target index buffer offset sz =
     alr_shim_emit host (build_bind_buffer_range target index buffer offset (of_int (if 0 < sz then sz else 0)))"

definition glDrawBuffers :: "ring_host \<Rightarrow> int \<Rightarrow> u32 list option \<Rightarrow> alr_shim_state \<Rightarrow> alr_shim_state option" where
  "glDrawBuffers host n bufs s =
     (if n < 0 then Some s
      else case bufs of
             None \<Rightarrow> if 0 < n then Some s else alr_shim_emit host (build_draw_buffers 0 []) s
           | Some b \<Rightarrow> alr_shim_emit host (build_draw_buffers (of_int n) b) s)"

definition glInvalidateFramebuffer ::
  "ring_host \<Rightarrow> u32 \<Rightarrow> int \<Rightarrow> u32 list option \<Rightarrow> alr_shim_state \<Rightarrow> alr_shim_state option" where
  "glInvalidateFramebuffer host target n attachments s =
     (if n < 0 then Some s
      else case attachments of
             None \<Rightarrow> if 0 < n then Some s else alr_shim_emit host (build_invalidate_framebuffer target 0 []) s
           | Some b \<Rightarrow> alr_shim_emit host (build_invalidate_framebuffer target (of_int n) b) s)"

definition shim_pixel_store :: "u32 \<Rightarrow> int \<Rightarrow> alr_shim_state \<Rightarrow> alr_shim_state" where
  "shim_pixel_store pname param s = s\<lparr>sh_unpack := glPixelStorei pname param (sh_unpack s)\<rparr>"

definition shim_tex_image_2d ::
  "ring_host \<Rightarrow> u32 \<Rightarrow> u32 \<Rightarrow> u32 \<Rightarrow> int \<Rightarrow> int \<Rightarrow> u32 \<Rightarrow> u32 \<Rightarrow> byte list option \<Rightarrow> alr_shim_state \<Rightarrow> alr_shim_state option" where
  "shim_tex_image_2d host target level internalformat width height format type pixels s =
     alr_shim_emit host (glTexImage2D (sh_unpack s) target level internalformat width height format type pixels) s"

definition shim_tex_subimage_2d ::
  "ring_host \<Rightarrow> u32 \<Rightarrow> u32 \<Rightarrow> u32 \<Rightarrow> u32 \<Rightarrow> int \<Rightarrow> int \<Rightarrow> u32 \<Rightarrow> u32 \<Rightarrow> byte list option \<Rightarrow> alr_shim_state \<Rightarrow>
     alr_shim_state option" where
  "shim_tex_subimage_2d host target level xoffset yoffset width height format type pixels s =
     alr_shim_emit host
       (glTexSubImage2D (sh_unpack s) target level xoffset yoffset width height format type pixels) s"

section \<open>Queries\<close>

definition glGetError :: "alr_shim_state \<Rightarrow> u32 \<times> alr_shim_state" where
  "glGetError s = (sh_gl_error s, s\<lparr>sh_gl_error := 0\<rparr>)"

definition glGetShaderiv :: "u32 \<Rightarrow> u32 \<Rightarrow> alr_shim_state \<Rightarrow> u32" where
  "glGetShaderiv shader pname s =
     (if pname = 0x8B81 then 1
      else if pname = 0x8B84 then 0
      else if pname = 0x8B88 then (case alr_shim_shader_srclen shader s of None \<Rightarrow> 0 | Some l \<Rightarrow> l + 1)
      else 0)"

definition glGetProgramiv :: "u32 \<Rightarrow> u32 \<Rightarrow> alr_shim_state \<Rightarrow> u32" where
  "glGetProgramiv program pname s =
     (if pname = 0x8B82 then 1
      else if pname = 0x8B84 then 0
      else if pname = 0x8B86 then of_nat (alr_shim_uniform_count program s)
      else if pname = 0x8B89 then of_nat (alr_shim_attrib_count program s)
      else if pname = 0x8B87 \<or> pname = 0x8B8A then of_nat ALR_SHIM_MAX_UNIFORM_NAME
      else 0)"

definition glGetIntegerv :: "u32 \<Rightarrow> u32 list" where
  "glGetIntegerv pname =
     (if pname = 0x8869 then [16] else if pname = 0x0D33 then [4096] else if pname = 0x8872 then [16]
      else if pname = 0x8B4D then [32] else if pname = 0x8B4C then [16] else if pname = 0x8DFB then [256]
      else if pname = 0x8DFD then [15] else if pname = 0x8DFC then [224] else if pname = 0x84E8 then [16]
      else if pname = 0x0D3A then [16384, 16384] else [0])"

definition or_string :: "string option \<Rightarrow> string \<Rightarrow> string" where
  "or_string host dflt = (case host of None \<Rightarrow> dflt | Some v \<Rightarrow> v)"

definition glGetString :: "u32 \<Rightarrow> alr_shim_state \<Rightarrow> string" where
  "glGetString name s =
     (let ident = (\<lambda>which. alr_ring_identity (Some (sh_producer s)) (sh_ring s) which)
      in if name = 0x1F00 then or_string (ident ALR_IDENT_VENDOR) ''Android-on-Linux (ALR)''
         else if name = 0x1F01 then or_string (ident ALR_IDENT_RENDERER) ''ALR command-stream (host GPU passthrough)''
         else if name = 0x1F02 then or_string (ident ALR_IDENT_VERSION) ''OpenGL ES 2.0 ALR''
         else if name = 0x8B8C then ''OpenGL ES GLSL ES 1.00''
         else [])"

text \<open>The name query: \<open>size\<close>, \<open>type\<close>, the text written to the caller's buffer (if one is given) and its length;
  the text is cut so that its terminator fits.\<close>

record active_name =
  an_size :: nat
  an_type :: u32
  an_written :: nat
  an_name :: "byte list option"

definition active_name_common :: "byte list option \<Rightarrow> int \<Rightarrow> bool \<Rightarrow> active_name" where
  "active_name_common nm buf have_name =
     (let out = (if have_name \<and> 0 < buf
                 then Some (case nm of None \<Rightarrow> [] | Some n \<Rightarrow> take (nat (buf - 1)) n) else None)
      in \<lparr>an_size = (case nm of None \<Rightarrow> 0 | Some _ \<Rightarrow> 1), an_type = 0,
          an_written = (case out of None \<Rightarrow> 0 | Some n \<Rightarrow> length n), an_name = out\<rparr>)"

definition glGetActiveUniform :: "u32 \<Rightarrow> u32 \<Rightarrow> int \<Rightarrow> bool \<Rightarrow> alr_shim_state \<Rightarrow> active_name" where
  "glGetActiveUniform p i buf have_name s = active_name_common (alr_shim_uniform_name p (sint i) s) buf have_name"

definition glGetActiveAttrib :: "u32 \<Rightarrow> u32 \<Rightarrow> int \<Rightarrow> bool \<Rightarrow> alr_shim_state \<Rightarrow> active_name" where
  "glGetActiveAttrib p i buf have_name s = active_name_common (alr_shim_attrib_name p (sint i) s) buf have_name"

definition glReadPixels :: "int \<Rightarrow> int \<Rightarrow> u32 \<Rightarrow> u32 \<Rightarrow> byte list option \<Rightarrow> byte list option" where
  "glReadPixels w h fmt type data =
     (case data of
        None \<Rightarrow> None
      | Some d \<Rightarrow>
          if 0 < w \<and> 0 < h then
            let n = (nat w * nat h * gl_format_components fmt * gl_type_bytes type) mod 2 ^ 64
            in Some (replicate (min n (length d)) 0 @ drop n d)
          else Some d)"

definition glFlush :: "alr_shim_state \<Rightarrow> alr_shim_state" where
  "glFlush = alr_shim_flush"

definition glFinish :: "ring_host \<Rightarrow> alr_shim_state \<Rightarrow> alr_shim_state" where
  "glFinish host = alr_shim_flush_and_wait host"

section \<open>The name tables as maps\<close>

lemma first_index_simps [simp]:
  "first_index P [] = None"
  "first_index P (x # xs) = (if P x then Some 0 else map_option Suc (first_index P xs))"
  by (simp_all add: first_index_def Let_def)

lemma first_index_Some:
  "first_index P xs = Some i \<longleftrightarrow> i < length xs \<and> P (xs ! i) \<and> (\<forall>j < i. \<not> P (xs ! j))"
proof (induction xs arbitrary: i)
  case (Cons x xs)
  then show ?case by (cases i) (auto simp: All_less_Suc2)
qed simp

lemma first_index_None: "first_index P xs = None \<longleftrightarrow> (\<forall>x \<in> set xs. \<not> P x)"
  by (induction xs) auto

text \<open>Overwriting a slot.\<close>

lemma first_index_update_same:
  "first_index P xs = Some j \<Longrightarrow> P x \<Longrightarrow> first_index P (xs[j := x]) = Some j"
  by (simp add: first_index_Some)

lemma first_index_update_new:
  "first_index P xs = None \<Longrightarrow> j < length xs \<Longrightarrow> P x \<Longrightarrow> first_index P (xs[j := x]) = Some j"
  by (auto simp: first_index_None first_index_Some)

lemma first_index_update_other:
  "\<not> P (xs ! j) \<Longrightarrow> \<not> P x \<Longrightarrow> first_index P (xs[j := x]) = first_index P xs"
  by (induction xs arbitrary: j) (auto split: nat.splits)

text \<open>What the table records of a program: its names, if it has a slot.\<close>

definition names_of :: "alr_program_uniforms list \<Rightarrow> u32 \<Rightarrow> byte list list option" where
  "names_of table vprog =
     map_option (\<lambda>i. pu_names (table ! i)) (first_index (\<lambda>p. pu_vprog p = vprog \<and> vprog \<noteq> 0) table)"

definition has_free_slot :: "alr_program_uniforms list \<Rightarrow> bool" where
  "has_free_slot table \<longleftrightarrow> (\<exists>p \<in> set table. pu_vprog p = 0)"


lemma names_of_zero [simp]: "names_of t 0 = None"
  by (simp add: names_of_def first_index_None)

lemma find_in_existing: "find_in t p c = Some (j, t) \<and> names_of t p = Some (pu_names (t ! j))"
  if "first_index (\<lambda>e. pu_vprog e = p \<and> p \<noteq> 0) t = Some j"
  using that by (simp add: find_in_def names_of_def)

lemma names_of_update:
  assumes "pu_vprog (t ! j) = p \<or> pu_vprog (t ! j) = 0" "q \<noteq> p"
  shows "names_of (t[j := e\<lparr>pu_vprog := p\<rparr>]) q = names_of t q"
proof -
  let ?P = "\<lambda>e. pu_vprog e = q \<and> q \<noteq> 0"
  have f: "first_index ?P (t[j := e\<lparr>pu_vprog := p\<rparr>]) = first_index ?P t"
    using assms by (intro first_index_update_other) auto
  show ?thesis unfolding names_of_def f
  proof (rule option.map_cong [OF refl])
    fix i assume "i \<in> set_option (first_index ?P t)"
    then have "pu_vprog (t ! i) = q \<and> q \<noteq> 0" by (simp add: first_index_Some)
    then have "i \<noteq> j" using assms by auto
    then show "pu_names (t[j := e\<lparr>pu_vprog := p\<rparr>] ! i) = pu_names (t ! i)" by simp
  qed
qed

lemma names_of_update_same:
  assumes "first_index (\<lambda>e. pu_vprog e = p \<and> p \<noteq> 0) t = Some j"
  shows "names_of (t[j := (t ! j)\<lparr>pu_names := ns\<rparr>]) = (names_of t)(p \<mapsto> ns)"
proof
  fix q
  have j: "j < length t" "pu_vprog (t ! j) = p" "p \<noteq> 0" using assms by (simp_all add: first_index_Some)
  have e: "(t ! j)\<lparr>pu_names := ns\<rparr> = (t ! j)\<lparr>pu_names := ns\<rparr>\<lparr>pu_vprog := p\<rparr>" using j(2) by (cases "t ! j") simp
  show "names_of (t[j := (t ! j)\<lparr>pu_names := ns\<rparr>]) q = ((names_of t)(p \<mapsto> ns)) q"
  proof (cases "q = p")
    case True
    then show ?thesis using first_index_update_same [OF assms, of "(t ! j)\<lparr>pu_names := ns\<rparr>"] j
      by (simp add: names_of_def)
  next
    case False
    then show ?thesis using names_of_update [of t j p q "(t ! j)\<lparr>pu_names := ns\<rparr>"] j(2) e by simp
  qed
qed

lemma names_of_update_new:
  assumes "names_of t p = None" "p \<noteq> 0" "first_index (\<lambda>e. pu_vprog e = 0) t = Some j"
  shows "names_of (t[j := \<lparr>pu_vprog = p, pu_names = ns\<rparr>]) = (names_of t)(p \<mapsto> ns)"
proof
  fix q
  have j: "j < length t" "pu_vprog (t ! j) = 0" using assms(3) by (simp_all add: first_index_Some)
  have none: "first_index (\<lambda>e. pu_vprog e = p \<and> p \<noteq> 0) t = None" using assms(1) by (simp add: names_of_def)
  show "names_of (t[j := \<lparr>pu_vprog = p, pu_names = ns\<rparr>]) q = ((names_of t)(p \<mapsto> ns)) q"
  proof (cases "q = p")
    case True
    then show ?thesis using first_index_update_new [OF none j(1), of "\<lparr>pu_vprog = p, pu_names = ns\<rparr>"] assms(2) j
      by (simp add: names_of_def)
  next
    case False
    then show ?thesis using names_of_update [of t j p q "\<lparr>pu_vprog = p, pu_names = ns\<rparr>"] j(2) by simp
  qed
qed

text \<open>Interning, looking up, counting and resetting on the map.\<close>

lemma name_lookup_names_of:
  "name_lookup t p h = (if h < 0 then None else
     case names_of t p of None \<Rightarrow> None | Some ns \<Rightarrow> if nat h < length ns then Some (ns ! nat h) else None)"
  by (auto simp: name_lookup_def names_of_def find_in_def split: option.splits)

lemma names_count_names_of: "names_count t p = (case names_of t p of None \<Rightarrow> 0 | Some ns \<Rightarrow> length ns)"
  by (auto simp: names_count_def names_of_def find_in_def split: option.splits)

lemma names_of_reset: "names_of (names_reset t p) = (names_of t)(p := map_option (\<lambda>_. []) (names_of t p))"
proof (cases "first_index (\<lambda>e. pu_vprog e = p \<and> p \<noteq> 0) t")
  case None
  then have "names_of t p = None" "names_reset t p = t"
    by (auto simp: names_of_def names_reset_def find_in_def split: option.splits)
  then show ?thesis by auto
next
  case (Some j)
  then have "names_reset t p = t[j := (t ! j)\<lparr>pu_names := []\<rparr>]" by (simp add: names_reset_def find_in_def)
  with find_in_existing [OF Some, of False] show ?thesis by (simp add: names_of_update_same [OF Some])
qed

definition name_slot :: "byte list \<Rightarrow> byte list list \<Rightarrow> nat option" where
  "name_slot name ns = first_index (\<lambda>stored. strncmp_eq stored name ALR_SHIM_MAX_UNIFORM_NAME) ns"

lemma name_intern_existing:
  assumes "names_of t p = Some ns"
  shows "name_intern t p name =
    (case name_slot name ns of
       Some i \<Rightarrow> (int i, t)
     | None \<Rightarrow> if ALR_SHIM_MAX_UNIFORMS_PER_PROG \<le> length ns then (-1, t)
              else (int (length ns), snd (name_intern t p name)))"
    "name_slot name ns = None \<Longrightarrow> length ns < ALR_SHIM_MAX_UNIFORMS_PER_PROG \<Longrightarrow>
      names_of (snd (name_intern t p name)) =
        (names_of t)(p \<mapsto> ns @ [take (ALR_SHIM_MAX_UNIFORM_NAME - 1) name])"
proof -
  obtain j where j: "first_index (\<lambda>e. pu_vprog e = p \<and> p \<noteq> 0) t = Some j"
    using assms by (auto simp: names_of_def)
  have f: "find_in t p True = Some (j, t)" "pu_names (t ! j) = ns" using find_in_existing [OF j] assms by simp_all
  show "name_intern t p name =
    (case name_slot name ns of
       Some i \<Rightarrow> (int i, t)
     | None \<Rightarrow> if ALR_SHIM_MAX_UNIFORMS_PER_PROG \<le> length ns then (-1, t)
              else (int (length ns), snd (name_intern t p name)))"
    by (simp add: name_intern_def f name_slot_def split: option.splits)
  assume "name_slot name ns = None" "length ns < ALR_SHIM_MAX_UNIFORMS_PER_PROG"
  then show "names_of (snd (name_intern t p name)) =
        (names_of t)(p \<mapsto> ns @ [take (ALR_SHIM_MAX_UNIFORM_NAME - 1) name])"
    by (simp add: name_intern_def f name_slot_def names_of_update_same [OF j])
qed

lemma name_intern_new:
  assumes "names_of t p = None" "p \<noteq> 0"
  shows "has_free_slot t \<Longrightarrow> fst (name_intern t p name) = 0 \<and>
      names_of (snd (name_intern t p name)) = (names_of t)(p \<mapsto> [take (ALR_SHIM_MAX_UNIFORM_NAME - 1) name])"
    and "\<not> has_free_slot t \<Longrightarrow> name_intern t p name = (-1, t)"
proof -
  have none: "first_index (\<lambda>e. pu_vprog e = p \<and> p \<noteq> 0) t = None" using assms(1) by (simp add: names_of_def)
  { assume "has_free_slot t"
    then obtain j where j: "first_index (\<lambda>e. pu_vprog e = 0) t = Some j"
      by (cases "first_index (\<lambda>e. pu_vprog e = 0) t") (auto simp: has_free_slot_def first_index_None)
    then have "j < length t" by (simp add: first_index_Some)
    moreover have "find_in t p True = Some (j, t[j := \<lparr>pu_vprog = p, pu_names = []\<rparr>])"
      unfolding find_in_def none j by simp
    ultimately show "fst (name_intern t p name) = 0 \<and>
      names_of (snd (name_intern t p name)) = (names_of t)(p \<mapsto> [take (ALR_SHIM_MAX_UNIFORM_NAME - 1) name])"
      using names_of_update_new [OF assms j, of "[take (ALR_SHIM_MAX_UNIFORM_NAME - 1) name]"]
      by (simp add: name_intern_def ALR_SHIM_MAX_UNIFORMS_PER_PROG_def) }
  assume "\<not> has_free_slot t"
  then have "first_index (\<lambda>e. pu_vprog e = 0) t = None" by (auto simp: has_free_slot_def first_index_None)
  then show "name_intern t p name = (-1, t)" using none by (simp add: name_intern_def find_in_def)
qed

text \<open>A table never holds more or longer names than its arrays do.\<close>

definition names_wf :: "alr_program_uniforms list \<Rightarrow> bool" where
  "names_wf t \<longleftrightarrow> (\<forall>e \<in> set t. length (pu_names e) \<le> ALR_SHIM_MAX_UNIFORMS_PER_PROG \<and>
     (\<forall>n \<in> set (pu_names e). length n < ALR_SHIM_MAX_UNIFORM_NAME))"

lemma names_wf_update: "names_wf t \<Longrightarrow> length (pu_names e) \<le> ALR_SHIM_MAX_UNIFORMS_PER_PROG \<Longrightarrow>
    (\<forall>n \<in> set (pu_names e). length n < ALR_SHIM_MAX_UNIFORM_NAME) \<Longrightarrow> names_wf (t[j := e])"
  unfolding names_wf_def by (auto dest!: set_update_subset_insert [THEN subsetD])

lemma names_wf_nth: "names_wf t \<Longrightarrow> j < length t \<Longrightarrow> length (pu_names (t ! j)) \<le> ALR_SHIM_MAX_UNIFORMS_PER_PROG \<and>
     (\<forall>n \<in> set (pu_names (t ! j)). length n < ALR_SHIM_MAX_UNIFORM_NAME)"
  using nth_mem unfolding names_wf_def by blast

lemma find_in_wf: "names_wf t \<Longrightarrow> find_in t p c = Some (j, t') \<Longrightarrow> names_wf t' \<and> j < length t'"
  by (auto simp: find_in_def first_index_Some split: option.splits if_splits intro!: names_wf_update)

lemma names_wf_intern: "names_wf t \<Longrightarrow> names_wf (snd (name_intern t p name))"
proof (cases "find_in t p True")
  case (Some jt)
  obtain j t' where jt: "jt = (j, t')" by (cases jt)
  assume "names_wf t"
  then have w: "names_wf t'" "j < length t'" using find_in_wf Some jt by blast+
  have "names_wf (t'[j := (t' ! j)\<lparr>pu_names := pu_names (t' ! j) @ [take (ALR_SHIM_MAX_UNIFORM_NAME - 1) name]\<rparr>])"
    if "length (pu_names (t' ! j)) < ALR_SHIM_MAX_UNIFORMS_PER_PROG"
    using that names_wf_nth [OF w] by (intro names_wf_update [OF w(1)]) (auto simp: ALR_SHIM_MAX_UNIFORM_NAME_def)
  then show ?thesis using Some jt w(1) by (simp add: name_intern_def Let_def split: option.splits)
qed (simp add: name_intern_def)

lemma names_wf_reset: "names_wf t \<Longrightarrow> names_wf (names_reset t p)"
  by (auto simp: names_reset_def intro!: names_wf_update split: option.splits)

lemma names_of_wf: "names_wf t \<Longrightarrow> names_of t p = Some ns \<Longrightarrow>
    length ns \<le> ALR_SHIM_MAX_UNIFORMS_PER_PROG \<and> (\<forall>n \<in> set ns. length n < ALR_SHIM_MAX_UNIFORM_NAME)"
  by (auto simp: names_of_def first_index_Some dest!: names_wf_nth)

lemma strncmp_eq_short:
  "length a < n \<Longrightarrow> length b < n \<Longrightarrow> strncmp_eq a b n \<longleftrightarrow> a = b"
  by (simp add: strncmp_eq_def)

text \<open>The index of an interned name leads back to it.\<close>

lemma name_intern_lookup:
  assumes wf: "names_wf t" and p: "p \<noteq> 0" and i: "name_intern t p name = (i, t')" "0 \<le> i"
    and short: "length name < ALR_SHIM_MAX_UNIFORM_NAME"
  obtains ns where "names_of t' p = Some ns" "nat i < length ns" "ns ! nat i = name"
    "i < int ALR_SHIM_MAX_UNIFORMS_PER_PROG"
proof (cases "names_of t p")
  case None
  have "has_free_slot t" using name_intern_new(2) [OF None p, of name] i by (cases "has_free_slot t") auto
  with name_intern_new(1) [OF None p this, of name] i short show ?thesis
    by (intro that [of "[name]"]) (simp_all add: ALR_SHIM_MAX_UNIFORMS_PER_PROG_def)
next
  case (Some ns)
  have w: "length ns \<le> ALR_SHIM_MAX_UNIFORMS_PER_PROG" "\<forall>n \<in> set ns. length n < ALR_SHIM_MAX_UNIFORM_NAME"
    using names_of_wf [OF wf Some] by simp_all
  show ?thesis
  proof (cases "name_slot name ns")
    case (Some k)
    then have "k < length ns" "strncmp_eq (ns ! k) name ALR_SHIM_MAX_UNIFORM_NAME"
      by (simp_all add: name_slot_def first_index_Some)
    then have "ns ! k = name" using w(2) short by (simp add: strncmp_eq_short)
    moreover have "i = int k" "t' = t" using name_intern_existing(1) [OF \<open>names_of t p = Some ns\<close>, of name] i Some by simp_all
    ultimately show ?thesis using \<open>names_of t p = Some ns\<close> \<open>k < length ns\<close> w(1) by (intro that [of ns]) simp_all
  next
    case None
    have "fst (name_intern t p name) = (if ALR_SHIM_MAX_UNIFORMS_PER_PROG \<le> length ns then -1 else int (length ns))"
      by (subst name_intern_existing(1) [OF Some]) (simp add: None)
    with i have len: "length ns < ALR_SHIM_MAX_UNIFORMS_PER_PROG" "i = int (length ns)" by (auto split: if_splits)
    with name_intern_existing(2) [OF Some None] i short show ?thesis by (intro that [of "ns @ [name]"]) simp_all
  qed
qed

text \<open>Interning only ever extends the names of a program.\<close>

lemma name_intern_extends:
  assumes "names_of t q = Some ns"
  shows "\<exists>more. names_of (snd (name_intern t p name)) q = Some (ns @ more)"
proof (cases "p = 0")
  case True
  have "first_index (\<lambda>e. pu_vprog e = 0) t = Some j \<Longrightarrow> q \<noteq> 0 \<Longrightarrow>
      names_of (t[j := \<lparr>pu_vprog = 0, pu_names = x\<rparr>]) q = names_of t q" for j x
    using names_of_update [of t j 0 q "\<lparr>pu_vprog = 0, pu_names = x\<rparr>"] by (simp add: first_index_Some)
  moreover have "q \<noteq> 0" using assms by auto
  ultimately show ?thesis using True assms
    by (auto simp: name_intern_def find_in_def Let_def first_index_None first_index_Some split: option.splits)
next
  case False
  show ?thesis
  proof (cases "names_of t p")
    case None
    then show ?thesis using name_intern_new [OF None False, of name] assms by (cases "has_free_slot t") auto
  next
    case (Some ms)
    note e = name_intern_existing [OF Some, of name]
    show ?thesis
    proof (cases "name_slot name ms = None \<and> length ms < ALR_SHIM_MAX_UNIFORMS_PER_PROG")
      case True
      then show ?thesis using e(2) assms Some by auto
    next
      case False
      then have "snd (name_intern t p name) = t" by (subst e(1)) (auto split: option.splits)
      then show ?thesis using assms by simp
    qed
  qed
qed

section \<open>Calls\<close>

text \<open>What an entry point can do to the state; the label is the program whose names are reset, if any.\<close>

inductive shim_step :: "ring_host \<Rightarrow> u32 option \<Rightarrow> alr_shim_state \<Rightarrow> alr_shim_state \<Rightarrow> bool" for host where
  emit: "alr_shim_emit host m s = Some s' \<Longrightarrow> shim_step host None s s'"
| uniform_intern: "shim_step host None s (snd (alr_shim_uniform_intern p name s))"
| attrib_intern: "shim_step host None s (snd (alr_shim_attrib_intern p name s))"
| set_srclen: "shim_step host None s (alr_shim_shader_set_srclen sh n s)"
| alloc: "shim_step host None s (snd (alloc_id kind s))"
| get_error: "shim_step host None s (snd (glGetError s))"
| pixel_store: "shim_step host None s (shim_pixel_store pname param s)"
| flush: "shim_step host None s (alr_shim_flush s)"
| flush_and_wait: "shim_step host None s (alr_shim_flush_and_wait host s)"
| program_reset: "shim_step host (Some p) s (alr_shim_program_reset p s)"

inductive_cases shim_stepE: "shim_step host l s s'"

inductive shim_run :: "ring_host \<Rightarrow> u32 list \<Rightarrow> alr_shim_state \<Rightarrow> alr_shim_state \<Rightarrow> bool" for host where
  stop: "shim_run host [] s s"
| silent: "shim_step host None s s' \<Longrightarrow> shim_run host ps s' s'' \<Longrightarrow> shim_run host ps s s''"
| reset: "shim_step host (Some p) s s' \<Longrightarrow> shim_run host ps s' s'' \<Longrightarrow> shim_run host (p # ps) s s''"

lemma shim_run_step: "shim_step host None s s' \<Longrightarrow> shim_run host [] s s'"
  by (blast intro: shim_run.intros)

lemma shim_run_append: "shim_run host ps s s' \<Longrightarrow> shim_run host qs s' s'' \<Longrightarrow> shim_run host (ps @ qs) s s''"
  by (induction rule: shim_run.induct) (auto intro: shim_run.intros)

lemma shim_run_emit: "alr_shim_emit host m s = Some s' \<Longrightarrow> shim_run host [] s s'"
  by (rule shim_run_step) (rule shim_step.emit)

lemma shim_run_step_emit: "shim_step host None s s1 \<Longrightarrow> alr_shim_emit host m s1 = Some s' \<Longrightarrow> shim_run host [] s s'"
  by (erule shim_run.silent) (rule shim_run_emit)

text \<open>The entry points that do more than send one message are runs.\<close>

lemma emit_for_uniform_run: "emit_for_uniform host loc b s = Some s' \<Longrightarrow> shim_run host [] s s'"
  by (auto simp: emit_for_uniform_def split: if_splits option.splits intro: shim_run.stop shim_run_emit)

lemma create_object_run: "create_object host kind b s = Some (v, s') \<Longrightarrow> shim_run host [] s s'"
  using shim_run_step_emit [OF shim_step.alloc [of host s kind], of "b v" s']
  by (cases "alloc_id kind s") (auto simp: create_object_def)

lemma gen_loop_run: "gen_loop host kind b n s = Some (ids, s') \<Longrightarrow> shim_run host [] s s'"
proof (induction n arbitrary: s ids)
  case (Suc n)
  then obtain v s1 ids1 where "create_object host kind b s = Some (v, s1)" "gen_loop host kind b n s1 = Some (ids1, s')"
    by (auto split: option.splits)
  with Suc.IH create_object_run shim_run_append show ?case by fastforce
qed (auto intro: shim_run.stop)

lemma glShaderSource_run: "glShaderSource host shader cs s = Some s' \<Longrightarrow> shim_run host [] s s'"
  using shim_run_step_emit [OF shim_step.set_srclen]
  by (auto simp: glShaderSource_def Let_def split: if_splits intro: shim_run.stop)

lemma glLinkProgram_run: "glLinkProgram host program s = Some s' \<Longrightarrow> shim_run host [program] s s'"
  unfolding glLinkProgram_def by (rule shim_run.reset [OF shim_step.program_reset shim_run_emit])

lemma glDeleteProgram_run: "shim_run host [program] s (glDeleteProgram program s)"
  unfolding glDeleteProgram_def by (rule shim_run.reset [OF shim_step.program_reset shim_run.stop])

text \<open>Messages leave the tables alone.\<close>

lemma alr_shim_emit_keeps:
  "alr_shim_emit host m s = Some s' \<Longrightarrow>
     sh_progs s' = sh_progs s \<and> sh_attribs s' = sh_attribs s \<and> sh_shaders s' = sh_shaders s \<and> sh_unpack s' = sh_unpack s"
  by (auto simp: alr_shim_emit_def shim_wait_def ring_doorbell_def Let_def split: if_splits option.splits)

definition shim_wf :: "alr_shim_state \<Rightarrow> bool" where
  "shim_wf s \<longleftrightarrow> names_wf (sh_progs s) \<and> names_wf (sh_attribs s)"

lemma names_wf_empty: "names_wf empty_names"
  by (simp add: names_wf_def empty_names_def)

lemma shim_wf_init: "shim_wf (shim_init_once getenv map_ring)"
  by (auto simp: shim_init_once_def shim_wf_def names_wf_empty Let_def split: option.splits prod.splits)

lemma shim_step_tables:
  assumes "shim_step host l s s'"
  shows "(sh_progs s' = sh_progs s \<or> (\<exists>p name. sh_progs s' = snd (name_intern (sh_progs s) p name)) \<or>
            (\<exists>p. l = Some p \<and> sh_progs s' = names_reset (sh_progs s) p)) \<and>
         (sh_attribs s' = sh_attribs s \<or> (\<exists>p name. sh_attribs s' = snd (name_intern (sh_attribs s) p name)) \<or>
            (\<exists>p. l = Some p \<and> sh_attribs s' = names_reset (sh_attribs s) p))"
  using assms
proof cases
  case (emit m)
  then show ?thesis using alr_shim_emit_keeps by blast
next
  case (uniform_intern p name)
  then show ?thesis by (cases name) (auto simp: alr_shim_uniform_intern_def split: prod.splits, metis snd_conv)
next
  case (attrib_intern p name)
  then show ?thesis by (cases name) (auto simp: alr_shim_attrib_intern_def split: prod.splits, metis snd_conv)
next
  case (alloc kind)
  then show ?thesis by (cases kind) simp_all
qed (auto simp: alr_shim_shader_set_srclen_def glGetError_def shim_pixel_store_def alr_shim_flush_def
    alr_shim_flush_and_wait_def shim_wait_def ring_doorbell_def alr_shim_program_reset_def split: option.splits)

lemma shim_step_wf: "shim_step host l s s' \<Longrightarrow> shim_wf s \<Longrightarrow> shim_wf s'"
  unfolding shim_wf_def using shim_step_tables [of host l s s'] names_wf_intern names_wf_reset by metis

lemma shim_run_wf: "shim_run host ps s s' \<Longrightarrow> shim_wf s \<Longrightarrow> shim_wf s'"
  by (induction rule: shim_run.induct) (auto dest: shim_step_wf)

lemma names_of_reset_other: "p \<noteq> q \<Longrightarrow> names_of (names_reset t p) q = names_of t q"
  by (simp add: names_of_reset)

lemma shim_step_names:
  assumes "shim_step host l s s'" "names_of (sh_progs s) q = Some ns" "l \<noteq> Some q"
  shows "\<exists>more. names_of (sh_progs s') q = Some (ns @ more)"
  using shim_step_tables [OF assms(1)] assms(2,3) name_intern_extends [OF assms(2)]
  by (metis append_Nil2 names_of_reset_other)

lemma shim_run_names:
  assumes "shim_run host ps s s'" "names_of (sh_progs s) q = Some ns" "q \<notin> set ps"
  shows "\<exists>more. names_of (sh_progs s') q = Some (ns @ more)"
  using assms
proof (induction arbitrary: ns rule: shim_run.induct)
  case (stop s)
  then show ?case by simp
next
  case (silent s s' ps s'')
  then obtain more where "names_of (sh_progs s') q = Some (ns @ more)" using shim_step_names by blast
  with silent.IH silent.prems(2) show ?case by fastforce
next
  case (reset p s s' ps s'')
  then obtain more where "names_of (sh_progs s') q = Some (ns @ more)" using shim_step_names [OF reset.hyps(1)] by fastforce
  with reset.IH reset.prems(2) show ?case by fastforce
qed

section \<open>Handles lead back to names\<close>

lemma pack_bits:
  "bit (ALR_UNIFORM_PACK p i) n \<longleftrightarrow> n < 32 \<and> (if n < 16 then bit i n else bit p (n - 16))"
proof -
  have m: "(0xFFFF :: u32) = mask 16" by (simp add: mask_eq_exp_minus_1)
  show ?thesis unfolding ALR_UNIFORM_PACK_def m
    by (auto simp: bit_simps dest: bit_imp_le_length)
qed

lemma less_exp_bit: "(w :: u32) < 2 ^ k \<Longrightarrow> bit w n \<Longrightarrow> n < k"
  by (metis bit_and_iff bit_mask_iff less_mask_eq)

lemma pack_vprog: "p < 0x10000 \<Longrightarrow> ALR_UNIFORM_VPROG (ALR_UNIFORM_PACK p i) = p"
proof -
  assume "p < 0x10000"
  then have "bit p n \<Longrightarrow> n < 16" for n using less_exp_bit [of p 16] by simp
  then show ?thesis unfolding ALR_UNIFORM_VPROG_def
    by (intro bit_eqI) (auto simp: bit_drop_bit_eq pack_bits)
qed

lemma pack_idx: "0 \<le> i \<Longrightarrow> i < 0x10000 \<Longrightarrow> ALR_UNIFORM_IDX (ALR_UNIFORM_PACK p i) = i"
proof -
  assume i: "0 \<le> i" "i < 0x10000"
  have m: "(0xFFFF :: u32) = mask 16" by (simp add: mask_eq_exp_minus_1)
  have "ALR_UNIFORM_PACK p i AND 0xFFFF = take_bit 16 (of_int i)"
    unfolding m by (intro bit_eqI) (auto simp: bit_simps pack_bits)
  then have "ALR_UNIFORM_IDX (ALR_UNIFORM_PACK p i) = take_bit 16 (take_bit 32 i)"
    by (simp add: ALR_UNIFORM_IDX_def unsigned_take_bit_eq unsigned_of_int)
  then show ?thesis using i by (simp add: take_bit_int_eq_self)
qed

lemma pack_nonneg: "p < 0x8000 \<Longrightarrow> \<not> ALR_UNIFORM_PACK p i <s 0"
proof -
  assume p: "p < 0x8000"
  then have "\<not> bit p 15" using less_exp_bit [of p 15] by fastforce
  then have "\<not> bit (ALR_UNIFORM_PACK p i) 31" by (simp add: pack_bits)
  then show ?thesis by (simp add: word_sless_alt bit_last_iff [symmetric, where 'a = 32, simplified])
qed

lemma location_leads_back:
  assumes wf: "shim_wf s" and loc: "glGetUniformLocation program (Some name) s = (h, s1)" "h \<noteq> -1"
    and p: "0 < program" "program < 0x8000" and short: "length name < ALR_SHIM_MAX_UNIFORM_NAME"
  obtains i ns where "h = ALR_UNIFORM_PACK program i" "0 \<le> i" "i < 32"
    "names_of (sh_progs s1) program = Some ns" "nat i < length ns" "ns ! nat i = name"
proof -
  obtain i t' where i: "name_intern (sh_progs s) program name = (i, t')" by (cases "name_intern (sh_progs s) program name")
  with loc have h: "0 \<le> i" "h = ALR_UNIFORM_PACK program i" "sh_progs s1 = t'"
    by (auto simp: glGetUniformLocation_def alr_shim_uniform_intern_def split: if_splits)
  have "names_wf (sh_progs s)" "program \<noteq> 0" using wf p(1) by (auto simp: shim_wf_def)
  from name_intern_lookup [OF this i h(1) short] h that show ?thesis
    by (auto simp: ALR_SHIM_MAX_UNIFORMS_PER_PROG_def)
qed

lemma uniform_behind_pack:
  assumes "program < 0x8000" "0 \<le> i" "i < 32" "names_of (sh_progs s) program = Some ns" "nat i < length ns"
  shows "uniform_behind (ALR_UNIFORM_PACK program i) s = Some (program, ns ! nat i)"
proof -
  have "program < 0x10000" using assms(1) by (rule less_trans) simp
  then show ?thesis using assms
    by (simp add: uniform_behind_def Let_def pack_vprog pack_idx alr_shim_uniform_name_def name_lookup_names_of)
qed



text \<open>Slots are never given back: once 64 programs have one, no other program gets a location, however many of
  them are deleted.\<close>

lemma map_vprog_update: "map pu_vprog (t[a := (t ! a)\<lparr>pu_names := x\<rparr>]) = map pu_vprog t"
  by (cases "a < length t") (auto intro!: nth_equalityI simp: nth_list_update)

lemma name_intern_full:
  assumes "\<not> has_free_slot t"
  shows "map pu_vprog (snd (name_intern t q n)) = map pu_vprog t"
proof -
  have "first_index (\<lambda>e. pu_vprog e = 0) t = None" using assms by (auto simp: has_free_slot_def first_index_None)
  then have f: "find_in t q True = Some (j, t') \<Longrightarrow> t' = t" for j t'
    by (auto simp: find_in_def split: option.splits)
  show ?thesis
    by (cases "find_in t q True") (auto simp: name_intern_def Let_def map_vprog_update dest!: f split: option.splits)
qed

lemma names_reset_vprogs: "map pu_vprog (names_reset t q) = map pu_vprog t"
  by (auto simp: names_reset_def map_vprog_update split: option.splits)

lemma has_free_slot_vprogs: "has_free_slot t \<longleftrightarrow> 0 \<in> set (map pu_vprog t)"
  by (force simp: has_free_slot_def)

lemma names_of_None_vprogs: "p \<noteq> 0 \<Longrightarrow> names_of t p = None \<longleftrightarrow> p \<notin> set (map pu_vprog t)"
  by (auto simp: names_of_def first_index_None)

lemma full_table_run:
  "shim_run host ps s s' \<Longrightarrow> \<not> has_free_slot (sh_progs s) \<Longrightarrow> map pu_vprog (sh_progs s') = map pu_vprog (sh_progs s)"
proof (induction rule: shim_run.induct)
  case (silent s s' ps s'')
  have "map pu_vprog (sh_progs s') = map pu_vprog (sh_progs s)"
    using shim_step_tables [OF silent.hyps(1)] name_intern_full [OF silent.prems] by auto
  with silent show ?case by (simp add: has_free_slot_vprogs)
next
  case (reset p s s' ps s'')
  have "map pu_vprog (sh_progs s') = map pu_vprog (sh_progs s)"
    using shim_step_tables [OF reset.hyps(1)] name_intern_full [OF reset.prems] names_reset_vprogs by auto
  with reset show ?case by (simp add: has_free_slot_vprogs)
qed simp

lemma full_table_refuses:
  assumes "shim_run host ps s s'" "\<not> has_free_slot (sh_progs s)" "names_of (sh_progs s) p = None" "p \<noteq> 0"
  shows "fst (glGetUniformLocation p (Some n) s') = -1"
proof -
  have v: "map pu_vprog (sh_progs s') = map pu_vprog (sh_progs s)" by (rule full_table_run [OF assms(1,2)])
  have "\<not> has_free_slot (sh_progs s')" "names_of (sh_progs s') p = None"
    using assms(2-4) v by (simp_all add: has_free_slot_vprogs names_of_None_vprogs)
  then show ?thesis using name_intern_new(2) assms(4)
    by (simp add: glGetUniformLocation_def alr_shim_uniform_intern_def)
qed

section \<open>Messages reach the ring or are flagged\<close>

definition shim_ring_inv :: "alr_shim_state \<Rightarrow> bool" where
  "shim_ring_inv s \<longleftrightarrow> ring_inv (sh_ring s) \<and> sh_producer s = snd (alr_ring_producer_attach (Some (sh_ring s)))"

text \<open>A host that only consumes: after a wait the ring is as it was, short of a prefix of its bytes.\<close>

definition host_consumes :: "ring_host \<Rightarrow> bool" where
  "host_consumes host \<longleftrightarrow> (\<forall>r. ring_inv r \<longrightarrow> ring_inv (host_wait host r) \<and> ring_cap (host_wait host r) = ring_cap r \<and>
     (\<exists>k. ring_contents (host_wait host r) = drop k (ring_contents r)))"

lemma ring_inv_attach: "ring_inv r \<Longrightarrow> alr_ring_producer_attach (Some r) = (0, \<lparr>arp_h = True, arp_mask = of_nat (ring_cap r)\<rparr>)"
proof -
  assume r: "ring_inv r"
  then have v: "ring_valid (Some r)" by (simp add: ring_inv_def)
  then have nz: "rh_ring_bytes r \<noteq> 0" by (simp add: ring_valid_def pow2_def)
  then have "(of_nat (ring_cap r) :: u32) = rh_ring_bytes r - 1"
    by (simp add: ring_cap_def of_nat_diff unat_gt_0 Suc_le_eq)
  then show ?thesis using v by (simp add: alr_ring_producer_attach_def alr_ring_valid_eq)
qed

lemma alr_ring_append_rc: "alr_ring_append p h src len = Some (rc, h') \<Longrightarrow> rc = 0 \<or> rc = 1"
  by (auto simp: alr_ring_append_def Let_def split: option.splits if_splits)

lemma shim_append_cases:
  assumes "ring_inv r" "length xs < 2 ^ 32"
  obtains r' where "alr_ring_append (Some (snd (alr_ring_producer_attach (Some r)))) r xs (of_nat (length xs)) = Some (1, r')"
      "ring_inv r'" "ring_contents r' = ring_contents r @ xs" "ring_cap r' = ring_cap r"
    | "alr_ring_append (Some (snd (alr_ring_producer_attach (Some r)))) r xs (of_nat (length xs)) = Some (0, r)"
      "ring_cap r < length (ring_contents r) + length xs"
proof (cases "length (ring_contents r) + length xs \<le> ring_cap r")
  case True
  then show ?thesis using cq.put_accepts [OF assms True] that(1) by (auto simp: c_put_def)
next
  case False
  then have "c_put xs r = Some (False, r)" using cq.put_refuses [OF assms] by simp
  then show ?thesis using that(2) False by (auto simp: c_put_def dest: alr_ring_append_rc)
qed

lemma shim_wait_ring:
  assumes "shim_ring_inv s" "host_consumes host"
  shows "shim_ring_inv (shim_wait host s)"
    "\<exists>k. ring_contents (sh_ring (shim_wait host s)) = drop k (ring_contents (sh_ring s))"
    "ring_cap (sh_ring (shim_wait host s)) = ring_cap (sh_ring s)"
proof -
  let ?r = "snd (alr_ring_flush_and_wait (Some (sh_producer s)) (host_seen host) 0 (sh_ring s))"
  have r: "ring_inv ?r" "ring_cap ?r = ring_cap (sh_ring s)" "ring_contents ?r = ring_contents (sh_ring s)"
    using assms(1) by (simp_all add: shim_ring_inv_def alr_ring_flush_and_wait_def Let_def ring_inv_def ring_cap_def
        ring_contents_def ring_used_def ring_valid_def)
  then have w: "ring_inv (host_wait host ?r)" "ring_cap (host_wait host ?r) = ring_cap (sh_ring s)"
    "\<exists>k. ring_contents (host_wait host ?r) = drop k (ring_contents (sh_ring s))"
    using assms(2) unfolding host_consumes_def by metis+
  then show "shim_ring_inv (shim_wait host s)"
    "\<exists>k. ring_contents (sh_ring (shim_wait host s)) = drop k (ring_contents (sh_ring s))"
    "ring_cap (sh_ring (shim_wait host s)) = ring_cap (sh_ring s)"
    using assms(1) by (simp_all add: shim_ring_inv_def shim_wait_def ring_inv_attach)
qed

lemma shim_doorbell_ring [simp]: "sh_ring (ring_doorbell s) = sh_ring s" "sh_producer (ring_doorbell s) = sh_producer s"
    "sh_gl_error (ring_doorbell s) = sh_gl_error s" "sh_ring_ok (ring_doorbell s) = sh_ring_ok s"
  by (simp_all add: ring_doorbell_def)

lemma shim_wait_keeps [simp]: "sh_gl_error (shim_wait host s) = sh_gl_error s" "sh_ring_ok (shim_wait host s) = sh_ring_ok s"
  by (simp_all add: shim_wait_def)

lemma shim_doorbell_inv [simp]: "shim_ring_inv (ring_doorbell s) = shim_ring_inv s"
  by (simp add: shim_ring_inv_def)

lemma scratch_encoding:
  "fold alr_enc_field (message_fields m) (alr_enc_init ALR_SHIM_SCRATCH_BYTES) =
     \<lparr>ae_bytes = message_bytes m, ae_cap = ALR_SHIM_SCRATCH_BYTES, ae_overflow = False\<rparr>"
  if "length (message_bytes m) \<le> ALR_SHIM_SCRATCH_BYTES"
  using that alr_enc_fields [of "alr_enc_init ALR_SHIM_SCRATCH_BYTES" "message_fields m"]
  by (simp add: alr_enc_init_def message_bytes_def)

lemma scratch_overflow:
  "ae_overflow (fold alr_enc_field (message_fields m) (alr_enc_init ALR_SHIM_SCRATCH_BYTES))"
  if "ALR_SHIM_SCRATCH_BYTES < length (message_bytes m)"
  using that alr_enc_fields [of "alr_enc_init ALR_SHIM_SCRATCH_BYTES" "message_fields m"]
  by (cases m) (auto simp: alr_enc_init_def message_bytes_def message_fields_def)

text \<open>What a call leaves behind: the message after what is left of the ring, or the sticky error.\<close>

definition delivered :: "message \<Rightarrow> alr_shim_state \<Rightarrow> alr_shim_state \<Rightarrow> bool" where
  "delivered m s s' \<longleftrightarrow>
     sh_gl_error s' = sh_gl_error s \<and>
     (\<exists>k. ring_contents (sh_ring s') = drop k (ring_contents (sh_ring s)) @ message_bytes m)"

definition flagged :: "alr_shim_state \<Rightarrow> alr_shim_state \<Rightarrow> bool" where
  "flagged s s' \<longleftrightarrow>
     sh_gl_error s' = GL_OUT_OF_MEMORY \<and> (\<exists>k. ring_contents (sh_ring s') = drop k (ring_contents (sh_ring s)))"

lemma shim_ring_inv_step:
  "shim_ring_inv s \<Longrightarrow> ring_inv r \<Longrightarrow> ring_cap r = ring_cap (sh_ring s) \<Longrightarrow> shim_ring_inv (s\<lparr>sh_ring := r\<rparr>)"
  by (simp add: shim_ring_inv_def ring_inv_attach)

lemma emit_no_wait:
  assumes ok: "sh_ring_ok s" "shim_ring_inv s"
    and fits: "length (message_bytes m) \<le> ALR_SHIM_SCRATCH_BYTES"
      "length (ring_contents (sh_ring s)) + length (message_bytes m) \<le> ring_cap (sh_ring s)"
  shows "\<exists>r. alr_shim_emit host m s = Some (s\<lparr>sh_ring := r\<rparr>) \<and> shim_ring_inv (s\<lparr>sh_ring := r\<rparr>) \<and>
    ring_contents r = ring_contents (sh_ring s) @ message_bytes m \<and> ring_cap r = ring_cap (sh_ring s)"
proof -
  have inv: "ring_inv (sh_ring s)" and p: "sh_producer s = snd (alr_ring_producer_attach (Some (sh_ring s)))"
    using ok(2) by (simp_all add: shim_ring_inv_def)
  have l: "length (message_bytes m) < 2 ^ 32" using fits(1) by (simp add: ALR_SHIM_SCRATCH_BYTES_def)
  from inv l show ?thesis
  proof (cases rule: shim_append_cases)
    case (1 r)
    then show ?thesis using ok p shim_ring_inv_step [OF ok(2)]
      by (intro exI [of _ r]) (simp add: alr_shim_emit_def scratch_encoding [OF fits(1)] Let_def)
  next
    case 2
    then show ?thesis using fits(2) by simp
  qed
qed

lemma emit_delivers:
  assumes ok: "sh_ring_ok s" "shim_ring_inv s" and host: "host_consumes host"
  shows "\<exists>s'. alr_shim_emit host m s = Some s' \<and> sh_ring_ok s' \<and> shim_ring_inv s' \<and> (delivered m s s' \<or> flagged s s')"
proof (cases "length (message_bytes m) \<le> ALR_SHIM_SCRATCH_BYTES")
  case False
  then show ?thesis using ok scratch_overflow [of m]
    by (auto simp: alr_shim_emit_def Let_def flagged_def shim_ring_inv_def intro: exI [of _ 0])
next
  case small: True
  have inv: "ring_inv (sh_ring s)" and p: "sh_producer s = snd (alr_ring_producer_attach (Some (sh_ring s)))"
    using ok(2) by (simp_all add: shim_ring_inv_def)
  have l: "length (message_bytes m) < 2 ^ 32" using small by (simp add: ALR_SHIM_SCRATCH_BYTES_def)
  show ?thesis
  proof (cases "length (ring_contents (sh_ring s)) + length (message_bytes m) \<le> ring_cap (sh_ring s)")
    case True
    from emit_no_wait [OF ok small True, of host] ok(1) show ?thesis
      by (auto simp: delivered_def intro!: exI [of _ "0 :: nat"])
  next
    case full: False
    let ?w = "shim_wait host (ring_doorbell s)"
    obtain k where w: "shim_ring_inv ?w" "ring_contents (sh_ring ?w) = drop k (ring_contents (sh_ring s))"
      using shim_wait_ring [OF _ host, of "ring_doorbell s"] ok(2) by auto
    have wi: "ring_inv (sh_ring ?w)" and wp: "sh_producer ?w = snd (alr_ring_producer_attach (Some (sh_ring ?w)))"
      using w(1) by (simp_all add: shim_ring_inv_def)
    have first: "alr_ring_append (Some (sh_producer s)) (sh_ring s) (message_bytes m) (of_nat (length (message_bytes m))) =
        Some (0, sh_ring s)"
      using inv l
    proof (cases rule: shim_append_cases)
      case (1 r')
      then have "length (ring_contents r') \<le> ring_cap r'" by (intro ring_used_le_cap)
      with 1 full show ?thesis by (simp del: length_ring_contents)
    qed (simp add: p)
    from wi l show ?thesis
    proof (cases rule: shim_append_cases)
      case (1 r)
      then show ?thesis using ok first w wp shim_ring_inv_step [OF w(1)]
        by (auto simp: alr_shim_emit_def scratch_encoding [OF small] Let_def delivered_def)
    next
      case 2
      then show ?thesis using ok first w wp
        by (auto simp: alr_shim_emit_def scratch_encoding [OF small] Let_def flagged_def shim_ring_inv_def)
    qed
  qed
qed


text \<open>C23. No command is lost in silence.  On an attached ring and with a host that only consumes, emitting a
  message never writes outside the ring and keeps it well formed; either the whole message follows what is left of
  the ring's bytes and the sticky error is unchanged, or nothing of it is in the ring and the error is
  \<^verbatim>\<open>GL_OUT_OF_MEMORY\<close>.  A message that fits both the scratch buffer and the free space is always
  delivered, behind everything that was there.\<close>

theorem emit_delivers_or_flags:
  assumes "sh_ring_ok s" "shim_ring_inv s" "host_consumes host"
  shows "\<exists>s'. alr_shim_emit host m s = Some s' \<and> shim_ring_inv s' \<and> (delivered m s s' \<or> flagged s s') \<and>
    (length (message_bytes m) \<le> ALR_SHIM_SCRATCH_BYTES \<and>
     length (ring_contents (sh_ring s)) + length (message_bytes m) \<le> ring_cap (sh_ring s) \<longrightarrow>
       delivered m s s' \<and> ring_contents (sh_ring s') = ring_contents (sh_ring s) @ message_bytes m)"
proof (cases "length (message_bytes m) \<le> ALR_SHIM_SCRATCH_BYTES \<and>
     length (ring_contents (sh_ring s)) + length (message_bytes m) \<le> ring_cap (sh_ring s)")
  case True
  then obtain r where r: "alr_shim_emit host m s = Some (s\<lparr>sh_ring := r\<rparr>)" "shim_ring_inv (s\<lparr>sh_ring := r\<rparr>)"
    "ring_contents r = ring_contents (sh_ring s) @ message_bytes m" using emit_no_wait [OF assms(1,2)] by blast
  then have "delivered m s (s\<lparr>sh_ring := r\<rparr>)" by (auto simp: delivered_def intro!: exI [of _ "0 :: nat"])
  with r show ?thesis by auto
next
  case False
  then show ?thesis using emit_delivers [OF assms, of m] by blast
qed

definition ring_state :: "alr_shim_state" where
  "ring_state = (shim_init_once (\<lambda>_. None) (\<lambda>_ _. None))
     \<lparr>sh_ring_ok := True, sh_ring := initial_ring 64, sh_producer := snd (alr_ring_producer_attach (Some (initial_ring 64)))\<rparr>"

theorem emit_delivers_or_flags_witness:
  "\<exists>s'. alr_shim_emit \<lparr>host_seen = (\<lambda>_. (0, 0)), host_wait = id\<rparr> (build_viewport 0 0 4 4) ring_state = Some s' \<and>
     ring_contents (sh_ring s') = message_bytes (build_viewport 0 0 4 4)"
proof -
  have p: "pow2 64" by (simp add: pow2_def)
  have r: "ring_inv (initial_ring 64)" "ring_contents (initial_ring 64) = []" "ring_cap (initial_ring 64) = 63"
    using initial_ring [OF p] by (simp_all add: ring_cap_def initial_ring_def)
  have "sh_ring_ok ring_state" "shim_ring_inv ring_state" using r(1) by (simp_all add: ring_state_def shim_ring_inv_def)
  moreover have "host_consumes \<lparr>host_seen = (\<lambda>_. (0, 0)), host_wait = id\<rparr>"
    by (auto simp: host_consumes_def intro: exI [of _ 0])
  moreover have "length (message_bytes (build_viewport 0 0 4 4)) = 17"
    by (simp add: build_viewport_def message_bytes_eq)
  ultimately show ?thesis
    using emit_delivers_or_flags [of ring_state "\<lparr>host_seen = (\<lambda>_. (0, 0)), host_wait = id\<rparr>" "build_viewport 0 0 4 4"] r(2,3)
    by (auto simp: ring_state_def ALR_SHIM_SCRATCH_BYTES_def)
qed

end
