(* ===== verification/Gpu_Ring_Spsc.thy ===== *)
theory Gpu_Ring_Spsc
  imports Gpu_Ring
begin

text \<open>
  The ring under concurrency: one producer and one consumer of \<^verbatim>\<open>alr_gpu/alr_gpu_ring.hpp\<close> on the same
  region, interleaved at the granularity of single loads, single copied bytes and the stores that publish the
  cursors.  The acquire and release orders of the source make each publishing store visible after the copies
  before it, so the interleaving is sequentially consistent on the data.
\<close>

unbundle bit_operations_syntax

section \<open>Steps\<close>

text \<open>Where each side is inside its operation.  \<open>PCopy src i\<close>: \<^verbatim>\<open>append\<close> has passed its checks and
  copied \<open>i\<close> bytes.  \<open>CCopy n acc\<close>: \<^verbatim>\<open>snapshot\<close> has loaded the cursors, wants \<open>n\<close> bytes and has
  copied \<open>acc\<close>.\<close>

datatype producer_pc = PIdle | PCopy "byte list" nat

datatype consumer_pc = CIdle | CCopy nat "byte list"

record spsc =
  sp_ring :: ring_region
  sp_producer :: producer_pc
  sp_consumer :: consumer_pc
  sp_sent :: "byte list"
  sp_got :: "byte list"

text \<open>The data index of the i-th byte of a copy that starts at \<open>cursor\<close>: the first \<^verbatim>\<open>memcpy\<close> covers the
  bytes up to the end of the data region, the second starts at its beginning.\<close>

definition copy_index :: "ring_region \<Rightarrow> u64 \<Rightarrow> nat \<Rightarrow> nat" where
  "copy_index h cursor i =
     (let off = unat (ucast (cursor AND ucast (ring_mask (Some h))) :: u32);
          room = unat (rh_ring_bytes h) - off
      in if i < room then off + i else i - room)"

inductive spsc_step :: "spsc \<Rightarrow> spsc \<Rightarrow> bool" where
  append_check:
    "sp_producer s = PIdle \<Longrightarrow> producer_valid (Some (sp_ring s)) \<Longrightarrow> 0 < length src \<Longrightarrow> length src < 2 ^ 32 \<Longrightarrow>
     \<not> free_bytes (sp_ring s) < of_nat (length src) \<Longrightarrow>
     spsc_step s (s\<lparr>sp_producer := PCopy src 0\<rparr>)"
| append_byte:
    "sp_producer s = PCopy src i \<Longrightarrow> i < length src \<Longrightarrow> h = sp_ring s \<Longrightarrow>
     spsc_step s (s\<lparr>sp_ring := h\<lparr>rr_data := (rr_data h)[copy_index h (rh_head h) i := src ! i]\<rparr>,
                    sp_producer := PCopy src (Suc i)\<rparr>)"
| append_publish:
    "sp_producer s = PCopy src i \<Longrightarrow> i = length src \<Longrightarrow> h = sp_ring s \<Longrightarrow>
     spsc_step s (s\<lparr>sp_ring := h\<lparr>rh_head := rh_head h + of_nat (length src)\<rparr>, sp_producer := PIdle,
                    sp_sent := sp_sent s @ src\<rparr>)"
| snapshot_load:
    "sp_consumer s = CIdle \<Longrightarrow>
     spsc_step s (s\<lparr>sp_consumer := CCopy (min (unat (cap :: u32)) (unat (available (sp_ring s)))) []\<rparr>)"
| snapshot_byte:
    "sp_consumer s = CCopy n acc \<Longrightarrow> length acc < n \<Longrightarrow> h = sp_ring s \<Longrightarrow>
     spsc_step s (s\<lparr>sp_consumer := CCopy n (acc @ [rr_data h ! copy_index h (rh_tail h) (length acc)])\<rparr>)"
| advance_tail:
    "sp_consumer s = CCopy n acc \<Longrightarrow> length acc = n \<Longrightarrow> m \<le> n \<Longrightarrow>
     spsc_step s (s\<lparr>sp_ring := advance (of_nat m) (sp_ring s), sp_consumer := CIdle,
                    sp_got := sp_got s @ take m acc\<rparr>)"

inductive_cases spsc_stepE: "spsc_step s s'"

definition spsc_start :: "u32 \<Rightarrow> spsc" where
  "spsc_start rb = \<lparr>sp_ring = initial_ring rb, sp_producer = PIdle, sp_consumer = CIdle, sp_sent = [], sp_got = []\<rparr>"

section \<open>The invariant\<close>

definition producer_ok :: "ring_region \<Rightarrow> producer_pc \<Rightarrow> bool" where
  "producer_ok h pc =
     (case pc of
        PIdle \<Rightarrow> True
      | PCopy src i \<Rightarrow> i \<le> length src \<and> ring_used h + length src \<le> ring_cap h \<and>
          window (rr_data h) (unat (rh_tail h) + ring_used h) i = take i src)"

definition consumer_ok :: "ring_region \<Rightarrow> consumer_pc \<Rightarrow> bool" where
  "consumer_ok h pc =
     (case pc of
        CIdle \<Rightarrow> True
      | CCopy n acc \<Rightarrow> length acc \<le> n \<and> n \<le> ring_used h \<and> take (length acc) (ring_contents h) = acc)"

definition spsc_inv :: "spsc \<Rightarrow> bool" where
  "spsc_inv s \<longleftrightarrow> ring_inv (sp_ring s) \<and> sp_sent s = sp_got s @ ring_contents (sp_ring s) \<and>
     producer_ok (sp_ring s) (sp_producer s) \<and> consumer_ok (sp_ring s) (sp_consumer s)"

lemma copy_index_mod:
  assumes "ring_inv h" "i \<le> ring_cap h"
  shows "copy_index h cursor i = (unat cursor + i) mod length (rr_data h)"
proof -
  obtain k where k: "k < 32" "unat (rh_ring_bytes h) = 2 ^ k" "length (rr_data h) = 2 ^ k" "ring_cap h = 2 ^ k - 1"
    using assms(1) by (elim ring_invE)
  have o: "unat (ucast (cursor AND ucast (ring_mask (Some h))) :: u32) = unat cursor mod 2 ^ k" (is "?o = _")
    unfolding ring_mask_def option.case by (rule ring_offset [OF k(2,1)])
  have ol: "?o < 2 ^ k" unfolding o by simp
  have il: "i < 2 ^ k" using assms(2) k(4) by (metis One_nat_def Suc_pred le_imp_less_Suc zero_less_numeral zero_less_power)
  have e: "(unat cursor + i) mod 2 ^ k = (?o + i) mod 2 ^ k" unfolding o by (simp add: mod_add_left_eq)
  show ?thesis
  proof (cases "i < 2 ^ k - ?o")
    case True
    then have "?o + i < 2 ^ k" by simp
    then show ?thesis using True by (simp add: copy_index_def Let_def k(2,3) e)
  next
    case False
    then have "?o + i = (i - (2 ^ k - ?o)) + 2 ^ k" using ol by simp
    then have "(?o + i) mod 2 ^ k = (i - (2 ^ k - ?o)) mod 2 ^ k" by (simp only: mod_add_self2)
    then show ?thesis using False il ol by (simp add: copy_index_def Let_def k(2,3) e)
  qed
qed

lemma head_position:
  "ring_inv h \<Longrightarrow> (unat (rh_tail h) + ring_used h) mod length (rr_data h) = unat (rh_head h) mod length (rr_data h)"
proof (elim ring_invE)
  fix k assume k: "k < 32" "length (rr_data h) = 2 ^ k"
  have "(2::nat) ^ k dvd 2 ^ 64" using k(1) le_imp_power_dvd [of k 64 "2::nat"] by auto
  then show ?thesis unfolding k(2) ring_used_def by (rule unat_diff_mod)
qed

lemma unat_of_nat_32: "n < 2 ^ 32 \<Longrightarrow> unat (of_nat n :: u32) = n"
  and unat_of_nat_64: "n < 2 ^ 32 \<Longrightarrow> unat (of_nat n :: u64) = n"
  by (simp_all add: unat_of_nat)

lemma ucast_of_nat_32: "n < 2 ^ 32 \<Longrightarrow> (of_nat n :: u64) = ucast (of_nat n :: u32)"
  by (simp add: word_unat_eq_iff unat_of_nat)

text \<open>Writing a byte past the head changes neither the contents nor what was written before it.\<close>

lemma write_byte:
  assumes inv: "ring_inv h" and ok: "producer_ok h (PCopy src i)" and i: "i < length src"
  defines "h' \<equiv> h\<lparr>rr_data := (rr_data h)[copy_index h (rh_head h) i := src ! i]\<rparr>"
  shows "ring_inv h'" "ring_contents h' = ring_contents h" "producer_ok h' (PCopy src (Suc i))"
    "ring_used h' = ring_used h"
proof -
  let ?d = "rr_data h" and ?t = "unat (rh_tail h)" and ?u = "ring_used h"
  from ok have u: "?u + length src \<le> ring_cap h" and w: "window ?d (?t + ?u) i = take i src"
    by (simp_all add: producer_ok_def)
  obtain k where k: "length ?d = 2 ^ k" "ring_cap h = 2 ^ k - 1" using inv by (elim ring_invE)
  have cap: "ring_cap h < length ?d" unfolding k by simp
  have "(?t + ?u) mod length ?d = unat (rh_head h) mod length ?d" by (rule head_position [OF inv])
  then have "(?t + ?u + i) mod length ?d = (unat (rh_head h) + i) mod length ?d" by (metis mod_add_left_eq)
  then have "copy_index h (rh_head h) i = (?t + ?u + i) mod length ?d"
    using copy_index_mod [OF inv, of i "rh_head h"] u i by simp
  then have d: "rr_data h' = poke ?d (?t + ?u + i) [src ! i]" by (simp add: h'_def)
  show us: "ring_used h' = ?u" by (simp add: h'_def ring_used_def)
  have c: "ring_cap h' = ring_cap h" by (simp add: h'_def ring_cap_def)
  show "ring_inv h'" using inv us c by (simp add: ring_inv_def ring_valid_def) (simp add: h'_def)
  have "rh_tail h' = rh_tail h" by (simp add: h'_def)
  then show "ring_contents h' = ring_contents h"
    unfolding ring_contents_def us d using u i cap by (simp only:) (intro window_poke_other, auto)
  have "window (rr_data h') (?t + ?u) i = window ?d (?t + ?u) i"
    unfolding d using u i cap by (intro window_poke_other) auto
  moreover have "window (rr_data h') (?t + ?u + i) 1 = [src ! i]"
    unfolding d using window_poke_same [of "[src ! i]" ?d "?t + ?u + i"] cap by simp
  ultimately have "window (rr_data h') (?t + ?u) (Suc i) = take (Suc i) src"
    using window_add [of "rr_data h'" "?t + ?u" i 1] w i by (simp add: take_Suc_conv_app_nth)
  then show "producer_ok h' (PCopy src (Suc i))" using us c u i \<open>rh_tail h' = rh_tail h\<close> by (simp add: producer_ok_def)
qed

lemma publish_head:
  assumes inv: "ring_inv h" and ok: "producer_ok h (PCopy src (length src))"
  defines "h' \<equiv> h\<lparr>rh_head := rh_head h + of_nat (length src)\<rparr>"
  shows "ring_inv h'" "ring_contents h' = ring_contents h @ src" "ring_used h' = ring_used h + length src"
proof -
  from ok have u: "ring_used h + length src \<le> ring_cap h"
    and w: "window (rr_data h) (unat (rh_tail h) + ring_used h) (length src) = src" by (simp_all add: producer_ok_def)
  have s: "ring_used h + length src < 2 ^ 32" using u ring_cap_bound [of h] by simp
  have "unat (rh_head h' - rh_tail h') = unat ((rh_head h - rh_tail h) + of_nat (length src))"
    by (simp add: h'_def algebra_simps)
  also have "\<dots> = (ring_used h + length src) mod 2 ^ 64"
    using s by (simp only: unat_word_ariths(1) ring_used_def) (simp add: unat_of_nat)
  finally show us: "ring_used h' = ring_used h + length src" using s by (simp add: ring_used_def)
  have "ring_cap h' = ring_cap h" by (simp add: h'_def ring_cap_def)
  then show "ring_inv h'" using inv us u by (simp add: ring_inv_def ring_valid_def) (simp add: h'_def)
  show "ring_contents h' = ring_contents h @ src"
    unfolding ring_contents_def us window_add using w by (simp add: h'_def)
qed

lemma read_byte:
  assumes inv: "ring_inv h" and n: "n < ring_used h"
  shows "rr_data h ! copy_index h (rh_tail h) n = ring_contents h ! n"
proof -
  have "n \<le> ring_cap h" using n ring_used_le_cap [OF inv] by simp
  then show ?thesis using n by (simp add: copy_index_mod [OF inv] ring_contents_def nth_window)
qed

lemma consumer_ok_extend:
  "consumer_ok h pc \<Longrightarrow> ring_contents h' = ring_contents h @ xs \<Longrightarrow> consumer_ok h' pc"
proof -
  assume a: "consumer_ok h pc" "ring_contents h' = ring_contents h @ xs"
  have "ring_used h' = ring_used h + length xs" using arg_cong [OF a(2), of length] by simp
  with a show ?thesis by (auto simp: consumer_ok_def split: consumer_pc.splits)
qed

lemma producer_ok_advance:
  assumes inv: "ring_inv h" and ok: "producer_ok h pc" and m: "unat m \<le> ring_used h"
  shows "producer_ok (advance m h) pc"
proof -
  note a = advance_refines [OF inv m]
  have l: "ring_used (advance m h) = ring_used h - unat m"
    using arg_cong [OF conjunct1 [OF conjunct2 [OF a]], of length] by simp
  have d: "rr_data (advance m h) = rr_data h" and hd: "rh_head (advance m h) = rh_head h" by (simp_all add: advance_def)
  have "(unat (rh_tail (advance m h)) + ring_used (advance m h)) mod length (rr_data h) =
      (unat (rh_tail h) + ring_used h) mod length (rr_data h)"
    using head_position [OF inv] head_position [of "advance m h"] a by (simp add: d hd)
  then have "window (rr_data h) (unat (rh_tail (advance m h)) + ring_used (advance m h)) i =
      window (rr_data h) (unat (rh_tail h) + ring_used h) i" for i by (rule window_cong_mod)
  with ok a l show ?thesis by (auto simp: producer_ok_def d split: producer_pc.splits)
qed

lemma spsc_inv_start: "pow2 rb \<Longrightarrow> spsc_inv (spsc_start rb)"
  using initial_ring [of rb] by (simp add: spsc_inv_def spsc_start_def producer_ok_def consumer_ok_def)

lemma spsc_inv_step:
  assumes "spsc_step s s'" "spsc_inv s"
  shows "spsc_inv s'"
  using assms(1)
proof (cases rule: spsc_stepE [consumes 1, case_names append_check append_byte append_publish snapshot_load snapshot_byte advance_tail])
  case (append_check src)
  have inv: "ring_inv (sp_ring s)" using assms(2) by (simp add: spsc_inv_def)
  have "length src \<le> ring_cap (sp_ring s) - ring_used (sp_ring s)"
    using append_check unat_free_bytes [OF inv] by (simp add: word_less_nat_alt unat_of_nat_64)
  moreover have "ring_used (sp_ring s) \<le> ring_cap (sp_ring s)" using ring_used_le_cap [OF inv] by simp
  ultimately show ?thesis using assms(2) append_check by (simp add: spsc_inv_def producer_ok_def)
next
  case (append_byte src i)
  let ?h = "sp_ring s"
  from assms(2) append_byte have inv: "ring_inv ?h" and ok: "producer_ok ?h (PCopy src i)" by (simp_all add: spsc_inv_def)
  note w = write_byte [OF inv ok append_byte(3)]
  have "consumer_ok (?h\<lparr>rr_data := (rr_data ?h)[copy_index ?h (rh_head ?h) i := src ! i]\<rparr>) (sp_consumer s)"
    using assms(2) w(2) append_byte by - (rule consumer_ok_extend [of ?h _ _ "[]"], simp_all add: spsc_inv_def)
  then show ?thesis using assms(2) append_byte w by (simp add: spsc_inv_def)
next
  case (append_publish src)
  let ?h = "sp_ring s"
  from assms(2) append_publish have inv: "ring_inv ?h" and ok: "producer_ok ?h (PCopy src (length src))" by (simp_all add: spsc_inv_def)
  note w = publish_head [OF inv ok]
  have "consumer_ok (?h\<lparr>rh_head := rh_head ?h + of_nat (length src)\<rparr>) (sp_consumer s)"
    using assms(2) w(2) append_publish by - (rule consumer_ok_extend [of ?h _ _ src], simp_all add: spsc_inv_def)
  then show ?thesis using assms(2) append_publish w by (simp add: spsc_inv_def producer_ok_def)
next
  case (snapshot_load cap)
  then show ?thesis using assms(2) by (simp add: spsc_inv_def consumer_ok_def available_def ring_used_def)
next
  case (snapshot_byte n acc)
  let ?h = "sp_ring s"
  from assms(2) snapshot_byte have inv: "ring_inv ?h" and ok: "consumer_ok ?h (CCopy n acc)" by (simp_all add: spsc_inv_def)
  then have l: "length acc < ring_used ?h" and a: "take (length acc) (ring_contents ?h) = acc"
    using snapshot_byte(3) by (simp_all add: consumer_ok_def)
  have "acc @ [ring_contents ?h ! length acc] = take (Suc (length acc)) (ring_contents ?h)"
    using l a by (simp add: take_Suc_conv_app_nth)
  then show ?thesis using assms(2) snapshot_byte ok l read_byte [OF inv l]
    by (simp add: spsc_inv_def consumer_ok_def)
next
  case (advance_tail acc m)
  let ?h = "sp_ring s" and ?n = "length acc"
  from assms(2) advance_tail have inv: "ring_inv ?h" and n: "?n \<le> ring_used ?h" and a: "take ?n (ring_contents ?h) = acc"
    by (auto simp: spsc_inv_def consumer_ok_def)
  have "ring_used ?h < 2 ^ 32" using ring_used_le_cap [OF inv] ring_cap_bound [of ?h] by simp
  then have m: "unat (of_nat m :: u32) = m" using n advance_tail(3) by (simp add: unat_of_nat)
  then have le: "unat (of_nat m :: u32) \<le> ring_used ?h" using n advance_tail(3) by simp
  have "take m acc = take m (ring_contents ?h)" using arg_cong [OF a, of "take m"] advance_tail(3) by (simp add: min_absorb1)
  then have "sp_sent s = (sp_got s @ take m acc) @ drop m (ring_contents ?h)"
    using assms(2) by (simp add: spsc_inv_def)
  then show ?thesis
    using assms(2) advance_tail advance_refines [OF inv le] producer_ok_advance [OF inv _ le, of "sp_producer s"]
    by (simp add: spsc_inv_def consumer_ok_def m)
qed

lemma spsc_inv_reachable: "spsc_step\<^sup>*\<^sup>* (spsc_start rb) s \<Longrightarrow> pow2 rb \<Longrightarrow> spsc_inv s"
  by (induction rule: rtranclp_induct) (auto intro: spsc_inv_start spsc_inv_step)

section \<open>The functions are runs of the steps\<close>

lemma append_bytes_run:
  assumes "spsc_inv s" "sp_producer s = PCopy src i"
  shows "spsc_step\<^sup>*\<^sup>* s (s\<lparr>sp_ring := (sp_ring s)\<lparr>rr_data := poke (rr_data (sp_ring s)) (unat (rh_head (sp_ring s)) + i) (drop i src)\<rparr>,
    sp_producer := PCopy src (length src)\<rparr>)"
  using assms
proof (induction "length src - i" arbitrary: s i)
  case 0
  then have "i = length src" by (simp add: spsc_inv_def producer_ok_def)
  then show ?case using 0 by (cases s) simp
next
  case (Suc n)
  let ?h = "sp_ring s"
  let ?s = "s\<lparr>sp_ring := ?h\<lparr>rr_data := (rr_data ?h)[copy_index ?h (rh_head ?h) i := src ! i]\<rparr>, sp_producer := PCopy src (Suc i)\<rparr>"
  have i: "i < length src" using Suc(2) by simp
  have st: "spsc_step s ?s" using append_byte [OF Suc(4) i refl] by simp
  have "producer_ok ?h (PCopy src i)" "ring_inv ?h" using Suc(3,4) by (simp_all add: spsc_inv_def)
  then have "copy_index ?h (rh_head ?h) i = (unat (rh_head ?h) + i) mod length (rr_data ?h)"
    using i by (intro copy_index_mod) (simp_all add: producer_ok_def)
  then have p: "poke (rr_data (sp_ring ?s)) (unat (rh_head ?h) + Suc i) (drop (Suc i) src) =
      poke (rr_data ?h) (unat (rh_head ?h) + i) (drop i src)" using i by (simp add: Cons_nth_drop_Suc [symmetric])
  have "spsc_step\<^sup>*\<^sup>* ?s (?s\<lparr>sp_ring := (sp_ring ?s)\<lparr>rr_data := poke (rr_data (sp_ring ?s)) (unat (rh_head (sp_ring ?s)) + Suc i) (drop (Suc i) src)\<rparr>,
    sp_producer := PCopy src (length src)\<rparr>)"
    using Suc(2) spsc_inv_step [OF st Suc(3)] by (intro Suc(1)) simp_all
  with p st show ?case by (simp add: converse_rtranclp_into_rtranclp)
qed

lemma append_run:
  assumes inv: "spsc_inv s" and "sp_producer s = PIdle" "src \<noteq> []" "length src < 2 ^ 32"
    and put: "cpp_put src (sp_ring s) = Some (True, h')"
  shows "spsc_step\<^sup>*\<^sup>* s (s\<lparr>sp_ring := h', sp_sent := sp_sent s @ src\<rparr>)"
proof -
  let ?h = "sp_ring s" and ?len = "of_nat (length src) :: u32"
  have r: "ring_inv ?h" using inv by (simp add: spsc_inv_def)
  have u: "length src = unat ?len" using assms(4) by (simp add: unat_of_nat)
  then have nz: "?len \<noteq> 0" using assms(3) by auto
  have fits: "length src \<le> ring_cap ?h - ring_used ?h"
    using put cpp_put_cases(2) [OF r assms(4)] ring_used_le_cap [OF r] by fastforce
  have "append_copy (rh_ring_bytes ?h - 1) ?h src ?len = Some h'"
    using put producer_append_spec [OF r u refl] fits nz by (auto simp: cpp_put_def split: option.splits)
  then have h': "h' = ?h\<lparr>rr_data := poke (rr_data ?h) (unat (rh_head ?h)) src, rh_head := rh_head ?h + of_nat (length src)\<rparr>"
    using append_copy_poke [OF r _ u] fits u ucast_of_nat_32 [OF assms(4)] by simp
  let ?s1 = "s\<lparr>sp_producer := PCopy src 0\<rparr>"
  have "\<not> free_bytes ?h < of_nat (length src)"
    using fits unat_free_bytes [OF r] by (simp add: word_less_nat_alt unat_of_nat_64 [OF assms(4)])
  then have s1: "spsc_step s ?s1"
    using assms(2-4) r by (intro append_check) (simp_all add: producer_valid_def ring_inv_def)
  let ?s2 = "?s1\<lparr>sp_ring := ?h\<lparr>rr_data := poke (rr_data ?h) (unat (rh_head ?h)) src\<rparr>, sp_producer := PCopy src (length src)\<rparr>"
  have s2: "spsc_step\<^sup>*\<^sup>* ?s1 ?s2"
    using append_bytes_run [OF spsc_inv_step [OF s1 inv], of src 0] by simp
  have "spsc_step ?s2 (?s2\<lparr>sp_ring := (sp_ring ?s2)\<lparr>rh_head := rh_head (sp_ring ?s2) + of_nat (length src)\<rparr>,
      sp_producer := PIdle, sp_sent := sp_sent ?s2 @ src\<rparr>)"
    by (rule append_publish [OF _ refl refl]) simp
  also have "?s2\<lparr>sp_ring := (sp_ring ?s2)\<lparr>rh_head := rh_head (sp_ring ?s2) + of_nat (length src)\<rparr>,
      sp_producer := PIdle, sp_sent := sp_sent ?s2 @ src\<rparr> = s\<lparr>sp_ring := h', sp_sent := sp_sent s @ src\<rparr>"
    using assms(2) by (simp add: h')
  finally show ?thesis using s1 s2 by (meson converse_rtranclp_into_rtranclp rtranclp.rtrancl_into_rtrancl)
qed

lemma snapshot_bytes_run:
  assumes "spsc_inv s" "sp_consumer s = CCopy n acc"
  shows "spsc_step\<^sup>*\<^sup>* s (s\<lparr>sp_consumer := CCopy n (take n (ring_contents (sp_ring s)))\<rparr>)"
  using assms
proof (induction "n - length acc" arbitrary: s acc)
  case 0
  then have "take n (ring_contents (sp_ring s)) = acc" by (auto simp: spsc_inv_def consumer_ok_def)
  then show ?case using 0 by (cases s) simp
next
  case (Suc m)
  let ?h = "sp_ring s"
  let ?b = "rr_data ?h ! copy_index ?h (rh_tail ?h) (length acc)"
  let ?s = "s\<lparr>sp_consumer := CCopy n (acc @ [?b])\<rparr>"
  have l: "length acc < n" using Suc(2) by simp
  have st: "spsc_step s ?s" by (rule snapshot_byte [OF Suc(4) l refl])
  have "spsc_step\<^sup>*\<^sup>* ?s (?s\<lparr>sp_consumer := CCopy n (take n (ring_contents (sp_ring ?s)))\<rparr>)"
    using Suc(2) spsc_inv_step [OF st Suc(3)] by (intro Suc(1)) simp_all
  with st show ?case by (simp add: converse_rtranclp_into_rtranclp)
qed

lemma snapshot_run:
  assumes "spsc_inv s" "sp_consumer s = CIdle" "cpp_peek cap (sp_ring s) = Some out"
  shows "spsc_step\<^sup>*\<^sup>* s (s\<lparr>sp_consumer := CCopy (length out) out\<rparr>)"
proof -
  let ?h = "sp_ring s" and ?n = "min (unat cap) (ring_used (sp_ring s))"
  have out: "out = take (unat cap) (ring_contents ?h)"
    using assms(1,3) snapshot_refines [of ?h cap] by (simp add: cpp_peek_def spsc_inv_def)
  then have "length out = ?n" by simp
  moreover have "take ?n (ring_contents ?h) = out" unfolding out by (metis length_ring_contents min.commute take_all_iff take_take order_refl)
  moreover have st: "spsc_step s (s\<lparr>sp_consumer := CCopy ?n []\<rparr>)"
    using snapshot_load [OF assms(2), of cap] by (simp add: available_def ring_used_def)
  ultimately show ?thesis
    using snapshot_bytes_run [OF spsc_inv_step [OF st assms(1)], of ?n "[]"]
    by (simp add: converse_rtranclp_into_rtranclp)
qed

text \<open>The consumer alone can always finish and empty the ring.\<close>

lemma consumer_drains:
  assumes "spsc_inv s" "sp_consumer s = CCopy n acc"
  shows "\<exists>s'. spsc_step\<^sup>*\<^sup>* s s' \<and> spsc_inv s' \<and> sp_consumer s' = CIdle \<and> sp_producer s' = sp_producer s \<and>
    sp_sent s' = sp_sent s \<and> sp_got s' = sp_got s @ take n (ring_contents (sp_ring s))"
proof -
  let ?h = "sp_ring s"
  let ?s = "s\<lparr>sp_consumer := CCopy n (take n (ring_contents ?h))\<rparr>"
  have r: "spsc_step\<^sup>*\<^sup>* s ?s" by (rule snapshot_bytes_run [OF assms])
  have n: "n \<le> ring_used ?h" using assms by (simp add: spsc_inv_def consumer_ok_def)
  let ?t = "?s\<lparr>sp_ring := advance (of_nat n) (sp_ring ?s), sp_consumer := CIdle,
    sp_got := sp_got ?s @ take n (take n (ring_contents ?h))\<rparr>"
  have "spsc_step ?s ?t" using n by (intro advance_tail [of ?s n "take n (ring_contents ?h)" n]) simp_all
  then have "spsc_step\<^sup>*\<^sup>* s ?t" using r by simp
  moreover from this have "spsc_inv ?t" using assms(1)
    by (induction rule: rtranclp_induct) (auto intro: spsc_inv_step)
  ultimately show ?thesis by (intro exI [of _ ?t]) simp
qed

lemma drain_all:
  assumes "spsc_inv s"
  shows "\<exists>s'. spsc_step\<^sup>*\<^sup>* s s' \<and> spsc_inv s' \<and> sp_consumer s' = CIdle \<and> sp_sent s' = sp_sent s \<and> sp_got s' = sp_sent s'"
proof -
  have idle: "\<exists>s'. spsc_step\<^sup>*\<^sup>* s s' \<and> spsc_inv s' \<and> sp_consumer s' = CIdle \<and> sp_sent s' = sp_sent s \<and> sp_got s' = sp_sent s'"
    if inv: "spsc_inv s" and c: "sp_consumer s = CIdle" for s
  proof -
    let ?n = "ring_used (sp_ring s)"
    have u: "?n < 2 ^ 32" using ring_used_le_cap [of "sp_ring s"] ring_cap_bound [of "sp_ring s"] inv
      by (simp add: spsc_inv_def)
    let ?s = "s\<lparr>sp_consumer := CCopy ?n []\<rparr>"
    have "unat (of_nat ?n :: u32) = ?n" using u by (rule unat_of_nat_32)
    then have st: "spsc_step s ?s" using snapshot_load [OF c, of "of_nat ?n"]
      by (simp add: available_def flip: ring_used_def)
    obtain s' where s': "spsc_step\<^sup>*\<^sup>* ?s s'" "spsc_inv s'" "sp_consumer s' = CIdle" "sp_sent s' = sp_sent s"
        "sp_got s' = sp_got s @ ring_contents (sp_ring s)"
      using consumer_drains [OF spsc_inv_step [OF st inv], of ?n "[]"] by auto
    moreover have "spsc_step\<^sup>*\<^sup>* s s'" using st s'(1) by (rule converse_rtranclp_into_rtranclp)
    moreover have "sp_got s' = sp_sent s'" using s'(4,5) inv by (simp add: spsc_inv_def)
    ultimately show ?thesis by blast
  qed
  show ?thesis
  proof (cases "sp_consumer s")
    case CIdle
    then show ?thesis by (rule idle [OF assms])
  next
    case (CCopy n acc)
    then obtain s1 where s1: "spsc_step\<^sup>*\<^sup>* s s1" "spsc_inv s1" "sp_consumer s1 = CIdle" "sp_sent s1 = sp_sent s"
      using consumer_drains [OF assms] by blast
    from idle [OF s1(2,3)] s1(1,4) show ?thesis by (metis rtranclp_trans)
  qed
qed

section \<open>Properties\<close>

text \<open>C16. No interleaving of one producer and one consumer corrupts the stream.  In every reachable state the
  bytes taken by the consumer followed by the bytes in the ring are the published bytes in order, at most
  \<^verbatim>\<open>ring_bytes - 1\<close> bytes are in flight, a finished snapshot is the front of the ring, and the slot the
  producer is about to write is never one of the slots the consumer's snapshot covers.\<close>

theorem spsc_interleaving_safe:
  assumes "pow2 rb" "spsc_step\<^sup>*\<^sup>* (spsc_start rb) s"
  shows "sp_sent s = sp_got s @ ring_contents (sp_ring s) \<and>
    length (ring_contents (sp_ring s)) \<le> ring_cap (sp_ring s) \<and>
    (\<forall>n acc. sp_consumer s = CCopy n acc \<and> length acc = n \<longrightarrow> acc = take n (ring_contents (sp_ring s))) \<and>
    (\<forall>src i n acc j. sp_producer s = PCopy src i \<and> i < length src \<and> sp_consumer s = CCopy n acc \<and> j < n \<longrightarrow>
       copy_index (sp_ring s) (rh_head (sp_ring s)) i \<noteq> copy_index (sp_ring s) (rh_tail (sp_ring s)) j)"
proof -
  have inv: "spsc_inv s" by (rule spsc_inv_reachable [OF assms(2,1)])
  let ?h = "sp_ring s"
  have r: "ring_inv ?h" using inv by (simp add: spsc_inv_def)
  have race: "copy_index ?h (rh_head ?h) i \<noteq> copy_index ?h (rh_tail ?h) j"
    if "ring_used ?h + length src \<le> ring_cap ?h" "i < length src" "j < ring_used ?h" for src i j
  proof -
    obtain k where k: "length (rr_data ?h) = 2 ^ k" "ring_cap ?h = 2 ^ k - 1" using r by (elim ring_invE)
    have "(2::nat) ^ k > 0" by simp
    then have b: "unat (rh_tail ?h) + ring_used ?h + i < unat (rh_tail ?h) + j + length (rr_data ?h)"
      using that k by linarith
    have "copy_index ?h (rh_head ?h) i = (unat (rh_tail ?h) + ring_used ?h + i) mod length (rr_data ?h)"
      using that copy_index_mod [OF r, of i "rh_head ?h"] head_position [OF r] by (simp, metis mod_add_left_eq)
    moreover have "copy_index ?h (rh_tail ?h) j = (unat (rh_tail ?h) + j) mod length (rr_data ?h)"
      using that by (intro copy_index_mod [OF r]) simp
    moreover have "(unat (rh_tail ?h) + j) mod length (rr_data ?h) \<noteq> (unat (rh_tail ?h) + ring_used ?h + i) mod length (rr_data ?h)"
      using that b by (intro mod_distinct) simp_all
    ultimately show ?thesis by simp
  qed
  have "copy_index ?h (rh_head ?h) i \<noteq> copy_index ?h (rh_tail ?h) j"
    if "sp_producer s = PCopy src i" "i < length src" "sp_consumer s = CCopy n acc" "j < n" for src i n acc j
    using that inv by (intro race [of src]) (simp_all add: spsc_inv_def producer_ok_def consumer_ok_def)
  moreover have "acc = take n (ring_contents ?h)" if "sp_consumer s = CCopy n acc" "length acc = n" for n acc
    using that inv by (auto simp: spsc_inv_def consumer_ok_def)
  ultimately show ?thesis using inv ring_used_le_cap [OF r] unfolding spsc_inv_def by blast
qed

theorem spsc_interleaving_safe_witness:
  "spsc_step\<^sup>*\<^sup>* (spsc_start 4) ((spsc_start 4)\<lparr>sp_producer := PCopy [9] 0\<rparr>) \<and>
   sp_sent ((spsc_start 4)\<lparr>sp_producer := PCopy [9] 0\<rparr>) =
     sp_got ((spsc_start 4)\<lparr>sp_producer := PCopy [9] 0\<rparr>) @ ring_contents (sp_ring ((spsc_start 4)\<lparr>sp_producer := PCopy [9] 0\<rparr>))"
proof -
  have p: "pow2 4" by (simp add: pow2_def)
  note i = initial_ring [OF p]
  have v: "producer_valid (Some (initial_ring 4))" using i(2) by (simp add: producer_valid_def ring_inv_def)
  have "ring_used (initial_ring 4) = 0" using arg_cong [OF i(3), of length] by simp
  then have f: "unat (free_bytes (initial_ring 4)) = 3" using unat_free_bytes [OF i(2)] i(4) by simp
  have s: "spsc_step (spsc_start 4) ((spsc_start 4)\<lparr>sp_producer := PCopy [9] 0\<rparr>)"
    using v f by (intro append_check) (simp_all add: spsc_start_def word_less_nat_alt)
  then have "spsc_step\<^sup>*\<^sup>* (spsc_start 4) ((spsc_start 4)\<lparr>sp_producer := PCopy [9] 0\<rparr>)" by (rule r_into_rtranclp)
  with spsc_interleaving_safe [OF p this] show ?thesis by blast
qed

text \<open>The functions are runs of the fine-grained steps, and the consumer is never stuck.  From every
  reachable state with an idle producer a successful \<^verbatim>\<open>append\<close> is a run of steps to the region it
  returns; with an idle consumer \<^verbatim>\<open>snapshot\<close> is a run of steps that copies what it returns; and from every
  reachable state the consumer alone can take all published bytes.\<close>

theorem spsc_runs:
  assumes "pow2 rb" "spsc_step\<^sup>*\<^sup>* (spsc_start rb) s"
  shows "(\<forall>src h'. sp_producer s = PIdle \<and> src \<noteq> [] \<and> length src < 2 ^ 32 \<and> cpp_put src (sp_ring s) = Some (True, h') \<longrightarrow>
            spsc_step\<^sup>*\<^sup>* s (s\<lparr>sp_ring := h', sp_sent := sp_sent s @ src\<rparr>)) \<and>
         (\<forall>cap out. sp_consumer s = CIdle \<and> cpp_peek cap (sp_ring s) = Some out \<longrightarrow>
            spsc_step\<^sup>*\<^sup>* s (s\<lparr>sp_consumer := CCopy (length out) out\<rparr>)) \<and>
         (\<exists>s'. spsc_step\<^sup>*\<^sup>* s s' \<and> sp_sent s' = sp_sent s \<and> sp_got s' = sp_sent s')"
proof -
  have inv: "spsc_inv s" by (rule spsc_inv_reachable [OF assms(2,1)])
  show ?thesis using append_run [OF inv] snapshot_run [OF inv] drain_all [OF inv] by blast
qed

theorem spsc_runs_witness:
  "\<exists>s'. spsc_step\<^sup>*\<^sup>* (spsc_start 4) s' \<and> sp_sent s' = sp_sent (spsc_start 4) \<and> sp_got s' = sp_sent s'"
proof -
  have "pow2 4" by (simp add: pow2_def)
  from spsc_runs [OF this rtranclp.rtrancl_refl] show ?thesis by blast
qed

end
