(* ===== verification/Gpu_Executor.thy ===== *)
theory Gpu_Executor
  imports Gles_Shim Gpu_Ring_Spsc
begin

text \<open>
  The host's consumer thread, \<^verbatim>\<open>GpuExecutorService::run_consume_loop\<close> and \<^verbatim>\<open>stop\<close> of
  \<^verbatim>\<open>alr_gpu/alr_gpu_host_service.hpp\<close>, beside a guest that appends messages and flushes.  The loop is cut
  at every load of shared memory, so the guest may act between any two of them.  GL, \<^verbatim>\<open>glFinish\<close>, the present
  callback and the window blit are parameters on an abstract GL state.
\<close>

section \<open>State\<close>

text \<open>Where the thread is: before a load of \<^verbatim>\<open>available()\<close> in the first or the second drain loop (the second knows
  the request it serves), before the snapshot, before the load of \<^verbatim>\<open>req_seq\<close>, before decoding, before the
  load of \<^verbatim>\<open>stop_\<close>, between the two loads of the final check, and after the loop.\<close>

datatype drain_phase = FirstDrain | SecondDrain u32

datatype executor_pc =
    Draining drain_phase
  | Snapshotting drain_phase
  | Checking
  | Serving u32
  | StopCheck
  | FinalCheck u32
  | Exited

record 'g executor =
  ex_pc :: executor_pc
  ex_scratch :: nat
  ex_frame :: "byte list"
  ex_replied :: u32
  ex_gl :: "'g dstate"
  ex_presented :: u32

text \<open>The executor with what it shares: the ring region and \<^verbatim>\<open>stop_\<close>.\<close>

record 'g pipeline =
  pl_ring :: ring_region
  pl_stop :: bool
  pl_ex :: "'g executor"

text \<open>The present parts of a frame: the callback and the blit to the window.\<close>

record 'g presenter =
  pr_fbo :: u32
  pr_callback :: "'g \<Rightarrow> 'g"
  pr_window :: "'g \<Rightarrow> 'g"

section \<open>The loop\<close>

definition GL_FRAMEBUFFER :: u32 where "GL_FRAMEBUFFER = 0x8D40"

text \<open>One turn of a drain loop after its load of \<^verbatim>\<open>available()\<close>: the scratch vector grew then; the snapshot sees
  the ring as it is now.\<close>

definition grow_scratch :: "u64 \<Rightarrow> 'g executor \<Rightarrow> 'g executor" where
  "grow_scratch avail e = (if ex_scratch e < unat avail then e\<lparr>ex_scratch := unat avail\<rparr> else e)"

definition drain_load :: "drain_phase \<Rightarrow> ring_region \<Rightarrow> 'g executor \<Rightarrow> 'g executor" where
  "drain_load ph r e =
     (if available r = 0
      then e\<lparr>ex_pc := (case ph of FirstDrain \<Rightarrow> Checking | SecondDrain req \<Rightarrow> Serving req)\<rparr>
      else (grow_scratch (available r) e)\<lparr>ex_pc := Snapshotting ph\<rparr>)"

definition drain_snapshot ::
  "drain_phase \<Rightarrow> ring_region \<Rightarrow> 'g executor \<Rightarrow> (ring_region \<times> 'g executor) option" where
  "drain_snapshot ph r e =
     (case snapshot (ring_mask (Some r)) r (of_nat (ex_scratch e)) of
        None \<Rightarrow> None
      | Some got \<Rightarrow>
          if got = []
          then Some (r, e\<lparr>ex_pc := (case ph of FirstDrain \<Rightarrow> Checking | SecondDrain req \<Rightarrow> Serving req)\<rparr>)
          else Some (advance (of_nat (length got)) r, e\<lparr>ex_frame := ex_frame e @ got, ex_pc := Draining ph\<rparr>))"

text \<open>The body that serves a frame up to, and without, the reply.\<close>

definition render_frame :: "'g gl_api \<Rightarrow> 'g presenter \<Rightarrow> byte list \<Rightarrow> 'g dstate \<Rightarrow> 'g dstate" where
  "render_frame api pr frame s =
     (let s = do_gl api ''glBindFramebuffer'' [GU GL_FRAMEBUFFER, GU (pr_fbo pr)] s;
          s = (if frame = [] then s else snd (decode_batch api frame s));
          s = do_gl api ''glFinish'' [] s
      in (fst s, pr_window pr (pr_callback pr (snd s))))"

definition serve_frame :: "'g gl_api \<Rightarrow> 'g presenter \<Rightarrow> u32 \<Rightarrow> 'g executor \<Rightarrow> 'g executor" where
  "serve_frame api pr req e =
     e\<lparr>ex_gl := render_frame api pr (ex_frame e) (ex_gl e), ex_presented := ex_presented e + 1, ex_frame := [],
       ex_replied := req, ex_pc := Draining FirstDrain\<rparr>"

definition consume_step :: "'g gl_api \<Rightarrow> 'g presenter \<Rightarrow> 'g pipeline \<Rightarrow> 'g pipeline option" where
  "consume_step api pr p =
     (let e = pl_ex p; r = pl_ring p in
      case ex_pc e of
        Draining ph \<Rightarrow> Some (p\<lparr>pl_ex := drain_load ph r e\<rparr>)
      | Snapshotting ph \<Rightarrow> map_option (\<lambda>(r, e). p\<lparr>pl_ring := r, pl_ex := e\<rparr>) (drain_snapshot ph r e)
      | Checking \<Rightarrow>
          Some (p\<lparr>pl_ex := e\<lparr>ex_pc := if rh_req_seq r \<noteq> ex_replied e then Draining (SecondDrain (rh_req_seq r)) else StopCheck\<rparr>\<rparr>)
      | Serving req \<Rightarrow> Some (p\<lparr>pl_ring := post_reply r, pl_ex := serve_frame api pr req e\<rparr>)
      | StopCheck \<Rightarrow> Some (p\<lparr>pl_ex := e\<lparr>ex_pc := if pl_stop p then FinalCheck (rh_req_seq r) else Draining FirstDrain\<rparr>\<rparr>)
      | FinalCheck final_req \<Rightarrow>
          Some (p\<lparr>pl_ex := e\<lparr>ex_pc := if final_req = ex_replied e \<and> available r = 0 then Exited else Draining FirstDrain\<rparr>\<rparr>)
      | Exited \<Rightarrow> Some p)"

text \<open>\<^verbatim>\<open>stop()\<close> up to the join.\<close>

definition executor_stop :: "'g pipeline \<Rightarrow> 'g pipeline" where
  "executor_stop p =
     (let p = p\<lparr>pl_stop := True\<rparr>
      in if ring_valid (Some (pl_ring p)) then p\<lparr>pl_ring := (pl_ring p)\<lparr>rh_closed := 1\<rparr>\<rparr> else p)"

definition executor_start :: "'g dstate \<Rightarrow> u32 \<Rightarrow> 'g pipeline" where
  "executor_start s rb =
     \<lparr>pl_ring = initial_ring rb, pl_stop = False,
      pl_ex = \<lparr>ex_pc = Draining FirstDrain, ex_scratch = 0, ex_frame = [], ex_replied = 0, ex_gl = s, ex_presented = 0\<rparr>\<rparr>"

section \<open>Guest and host\<close>

text \<open>A run of both, with what the guest did so far: the messages it appended, and how many of them before its last
  flush.  A synchronous guest flushes only when its previous flush was answered, as \<^verbatim>\<open>flush_and_wait\<close> does
  unless its spin bound runs out.\<close>

record 'g run =
  run_pl :: "'g pipeline"
  run_sent :: "message list"
  run_flushed :: nat

definition request :: "ring_region \<Rightarrow> ring_region" where
  "request r = r\<lparr>rh_req_seq := rh_req_seq r + 1\<rparr>"

abbreviation run_ring :: "'g run \<Rightarrow> ring_region" where
  "run_ring s \<equiv> pl_ring (run_pl s)"

inductive gpu_step :: "'g gl_api \<Rightarrow> 'g presenter \<Rightarrow> bool \<Rightarrow> 'g run \<Rightarrow> 'g run \<Rightarrow> bool" for api pr sync where
  append: "message_ok m \<Longrightarrow> length (message_bytes m) < 2 ^ 32 \<Longrightarrow> c_put (message_bytes m) (run_ring s) = Some (True, r) \<Longrightarrow>
    gpu_step api pr sync s (s\<lparr>run_pl := (run_pl s)\<lparr>pl_ring := r\<rparr>, run_sent := run_sent s @ [m]\<rparr>)"
| flush: "(sync \<longrightarrow> rh_reply_seq (run_ring s) = rh_req_seq (run_ring s)) \<Longrightarrow>
    gpu_step api pr sync s (s\<lparr>run_pl := (run_pl s)\<lparr>pl_ring := request (run_ring s)\<rparr>, run_flushed := length (run_sent s)\<rparr>)"
| stop: "gpu_step api pr sync s (s\<lparr>run_pl := executor_stop (run_pl s)\<rparr>)"
| host: "consume_step api pr (run_pl s) = Some p \<Longrightarrow> gpu_step api pr sync s (s\<lparr>run_pl := p\<rparr>)"

definition run_start :: "'g dstate \<Rightarrow> u32 \<Rightarrow> 'g run" where
  "run_start s rb = \<lparr>run_pl = executor_start s rb, run_sent = [], run_flushed = 0\<rparr>"

section \<open>The invariant\<close>

abbreviation bytes_of :: "message list \<Rightarrow> byte list" where
  "bytes_of ms \<equiv> concat (map message_bytes ms)"

definition render_messages :: "'g gl_api \<Rightarrow> 'g presenter \<Rightarrow> message list \<Rightarrow> 'g dstate \<Rightarrow> 'g dstate" where
  "render_messages api pr ms s =
     (let s = do_gl api ''glBindFramebuffer'' [GU GL_FRAMEBUFFER, GU (pr_fbo pr)] s;
          s = do_gl api ''glFinish'' [] (run_messages api ms s)
      in (fst s, pr_window pr (pr_callback pr (snd s))))"

lemma message_bytes_nonempty [simp]: "message_bytes m \<noteq> []"
  by (cases m) (simp add: message_bytes_eq)

lemma decode_messages_state:
  "list_all message_ok ms \<Longrightarrow> hs_ok (fst s) \<Longrightarrow> decode_batch api (bytes_of ms) s = (True, run_messages api ms s)"
  using decode_batch_messages [of ms "fst s" api "snd s"] by simp

lemma render_frame_messages:
  "list_all message_ok ms \<Longrightarrow> hs_ok (fst s) \<Longrightarrow> render_frame api pr (bytes_of ms) s = render_messages api pr ms s"
proof -
  assume ok: "list_all message_ok ms" "hs_ok (fst s)"
  let ?s = "do_gl api ''glBindFramebuffer'' [GU GL_FRAMEBUFFER, GU (pr_fbo pr)] s"
  have "(if bytes_of ms = [] then ?s else snd (decode_batch api (bytes_of ms) ?s)) = run_messages api ms ?s"
  proof (cases "ms = []")
    case False
    then have "bytes_of ms \<noteq> []" by (cases ms) simp_all
    then show ?thesis using ok by (simp add: decode_messages_state)
  qed (simp add: run_messages_def)
  then show ?thesis by (simp add: render_frame_def render_messages_def Let_def)
qed

lemma render_messages_ok [simp]: "hs_ok (fst (render_messages api pr ms s)) = hs_ok (fst s)"
  by (simp add: render_messages_def Let_def)

text \<open>The executor's own data: the scratch vector never exceeds the ring, and a snapshot is taken of a non-empty
  ring into a non-empty vector.\<close>

definition executor_ok :: "'g pipeline \<Rightarrow> bool" where
  "executor_ok p \<longleftrightarrow> ring_inv (pl_ring p) \<and> ex_scratch (pl_ex p) \<le> ring_cap (pl_ring p) \<and>
     (\<forall>ph. ex_pc (pl_ex p) = Snapshotting ph \<longrightarrow> 0 < ex_scratch (pl_ex p) \<and> ring_contents (pl_ring p) \<noteq> []) \<and>
     (\<not> pl_stop p \<longrightarrow> ex_pc (pl_ex p) \<noteq> Exited \<and> (\<forall>f. ex_pc (pl_ex p) \<noteq> FinalCheck f))"

text \<open>The bytes of \<open>k\<close> messages are in the frame, those of the others in the ring.\<close>

definition split_at :: "message list \<Rightarrow> nat \<Rightarrow> 'g pipeline \<Rightarrow> bool" where
  "split_at ms k p \<longleftrightarrow> k \<le> length ms \<and> ex_frame (pl_ex p) = bytes_of (take k ms) \<and> ring_contents (pl_ring p) = bytes_of (drop k ms)"

definition stream_inv :: "'g gl_api \<Rightarrow> 'g presenter \<Rightarrow> 'g dstate \<Rightarrow> message list list \<Rightarrow> message list \<Rightarrow> 'g run \<Rightarrow> bool" where
  "stream_inv api pr s0 frames ms s \<longleftrightarrow>
     run_sent s = concat frames @ ms \<and> list_all message_ok (run_sent s) \<and> run_flushed s \<le> length (run_sent s) \<and>
     ex_frame (pl_ex (run_pl s)) @ ring_contents (run_ring s) = bytes_of ms \<and>
     ex_gl (pl_ex (run_pl s)) = fold (render_messages api pr) frames s0 \<and>
     ex_presented (pl_ex (run_pl s)) = of_nat (length frames)"

text \<open>When a frame is about to be served, it holds whole messages, and all that were flushed.\<close>

definition serving_inv :: "bool \<Rightarrow> message list list \<Rightarrow> message list \<Rightarrow> 'g run \<Rightarrow> bool" where
  "serving_inv sync frames ms s \<longleftrightarrow>
     (\<forall>req. ex_pc (pl_ex (run_pl s)) = Serving req \<longrightarrow>
        (\<exists>k. split_at ms k (run_pl s) \<and> (sync \<longrightarrow> run_flushed s \<le> length (concat frames) + k)))"

definition handshake_inv :: "message list list \<Rightarrow> 'g run \<Rightarrow> bool" where
  "handshake_inv frames s \<longleftrightarrow>
     rh_reply_seq (run_ring s) = ex_replied (pl_ex (run_pl s)) \<and>
     (rh_reply_seq (run_ring s) = rh_req_seq (run_ring s) \<longrightarrow> run_flushed s \<le> length (concat frames)) \<and>
     (\<forall>req. ex_pc (pl_ex (run_pl s)) \<in> {Draining (SecondDrain req), Snapshotting (SecondDrain req), Serving req} \<longrightarrow>
        req = rh_req_seq (run_ring s) \<and> req \<noteq> ex_replied (pl_ex (run_pl s)))"

definition run_inv :: "'g gl_api \<Rightarrow> 'g presenter \<Rightarrow> bool \<Rightarrow> 'g dstate \<Rightarrow> 'g run \<Rightarrow> bool" where
  "run_inv api pr sync s0 s \<longleftrightarrow> hs_ok (fst s0) \<and> executor_ok (run_pl s) \<and>
     (\<exists>frames ms. stream_inv api pr s0 frames ms s \<and> serving_inv sync frames ms s \<and> (sync \<longrightarrow> handshake_inv frames s))"

lemma run_invI:
  "hs_ok (fst s0) \<Longrightarrow> executor_ok (run_pl s) \<Longrightarrow> stream_inv api pr s0 frames ms s \<Longrightarrow> serving_inv sync frames ms s \<Longrightarrow>
   (sync \<Longrightarrow> handshake_inv frames s) \<Longrightarrow> run_inv api pr sync s0 s"
  unfolding run_inv_def by blast

lemma run_invE:
  assumes "run_inv api pr sync s0 s"
  obtains frames ms where "hs_ok (fst s0)" "executor_ok (run_pl s)" "stream_inv api pr s0 frames ms s"
    "serving_inv sync frames ms s" "sync \<Longrightarrow> handshake_inv frames s"
  using assms unfolding run_inv_def by blast

lemma run_inv_start: "pow2 rb \<Longrightarrow> hs_ok (fst s0) \<Longrightarrow> run_inv api pr sync s0 (run_start s0 rb)"
proof -
  assume rb: "pow2 rb" and ok: "hs_ok (fst s0)"
  have "rh_reply_seq (initial_ring rb) = 0" using rb by (simp add: initial_ring_def ring_init_def)
  then show ?thesis using initial_ring [OF rb] ok
    by (intro run_invI [of _ _ _ _ "[]" "[]"])
       (simp_all add: run_start_def executor_start_def executor_ok_def stream_inv_def serving_inv_def handshake_inv_def)
qed

section \<open>Steps of the guest\<close>

lemma c_put_True:
  assumes "ring_inv h" "length xs < 2 ^ 32" "c_put xs h = Some (True, r)"
  shows "ring_inv r" "ring_contents r = ring_contents h @ xs" "ring_cap r = ring_cap h"
    "rh_req_seq r = rh_req_seq h" "rh_reply_seq r = rh_reply_seq h"
proof -
  show "ring_inv r" "ring_contents r = ring_contents h @ xs" "ring_cap r = ring_cap h"
    using cq.put_accepts [OF assms(1,2)] cq.put_refuses [OF assms(1,2)] assms(3)
    by (cases "length (ring_contents h) + length xs \<le> ring_cap h"; force)+
  show "rh_req_seq r = rh_req_seq h" "rh_reply_seq r = rh_reply_seq h"
    using assms(3) by (auto simp: c_put_def alr_ring_append_def Let_def split: option.splits if_splits)
qed

lemma request_simps [simp]:
  "ring_inv (request r) = ring_inv r" "ring_contents (request r) = ring_contents r" "ring_cap (request r) = ring_cap r"
  "rh_reply_seq (request r) = rh_reply_seq r" "rh_req_seq (request r) = rh_req_seq r + 1"
  by (simp_all add: request_def ring_inv_def ring_contents_def ring_cap_def ring_used_def ring_valid_def)

lemma closed_simps [simp]:
  "ring_inv (r\<lparr>rh_closed := c\<rparr>) = ring_inv r" "ring_contents (r\<lparr>rh_closed := c\<rparr>) = ring_contents r"
  "ring_cap (r\<lparr>rh_closed := c\<rparr>) = ring_cap r"
  by (simp_all add: ring_inv_def ring_contents_def ring_cap_def ring_used_def ring_valid_def)

lemma post_reply_simps [simp]:
  "ring_inv (post_reply r) = ring_inv r" "ring_contents (post_reply r) = ring_contents r" "ring_cap (post_reply r) = ring_cap r"
  "rh_reply_seq (post_reply r) = rh_req_seq r" "rh_req_seq (post_reply r) = rh_req_seq r"
  by (simp_all add: post_reply_def ring_inv_def ring_contents_def ring_cap_def ring_used_def ring_valid_def)

lemma advance_simps [simp]: "rh_reply_seq (advance n r) = rh_reply_seq r" "rh_req_seq (advance n r) = rh_req_seq r"
  by (simp_all add: advance_def)

lemma executor_stop_simps [simp]:
  "pl_ex (executor_stop p) = pl_ex p" "ring_contents (pl_ring (executor_stop p)) = ring_contents (pl_ring p)"
  "ring_inv (pl_ring (executor_stop p)) = ring_inv (pl_ring p)" "ring_cap (pl_ring (executor_stop p)) = ring_cap (pl_ring p)"
  "rh_req_seq (pl_ring (executor_stop p)) = rh_req_seq (pl_ring p)"
  "rh_reply_seq (pl_ring (executor_stop p)) = rh_reply_seq (pl_ring p)" "pl_stop (executor_stop p)"
  by (simp_all add: executor_stop_def Let_def)

lemma split_at_append:
  "split_at ms k p \<Longrightarrow> ring_contents r = ring_contents (pl_ring p) @ message_bytes m \<Longrightarrow>
   split_at (ms @ [m]) k (p\<lparr>pl_ring := r\<rparr>)"
  by (simp add: split_at_def)

lemma append_inv:
  assumes inv: "run_inv api pr sync s0 s" and m: "message_ok m" "length (message_bytes m) < 2 ^ 32"
    and put: "c_put (message_bytes m) (run_ring s) = Some (True, r)"
  shows "run_inv api pr sync s0 (s\<lparr>run_pl := (run_pl s)\<lparr>pl_ring := r\<rparr>, run_sent := run_sent s @ [m]\<rparr>)"
  using inv
proof (rule run_invE)
  fix frames ms
  assume i: "hs_ok (fst s0)" "executor_ok (run_pl s)" "stream_inv api pr s0 frames ms s" "serving_inv sync frames ms s"
    "sync \<Longrightarrow> handshake_inv frames s"
  have "ring_inv (run_ring s)" using i(2) by (simp add: executor_ok_def)
  note r = c_put_True [OF this m(2) put]
  let ?s = "s\<lparr>run_pl := (run_pl s)\<lparr>pl_ring := r\<rparr>, run_sent := run_sent s @ [m]\<rparr>"
  have "executor_ok (run_pl ?s)" using i(2) r by (simp add: executor_ok_def)
  moreover have "stream_inv api pr s0 frames (ms @ [m]) ?s" using i(3) r m(1) by (auto simp: stream_inv_def)
  moreover have "serving_inv sync frames (ms @ [m]) ?s" using i(4) split_at_append [OF _ r(2)] unfolding serving_inv_def by auto
  moreover have "handshake_inv frames ?s" if sync using i(5) [OF that] r by (simp add: handshake_inv_def)
  ultimately show ?thesis using i(1) by (intro run_invI)
qed

lemma flush_inv:
  assumes inv: "run_inv api pr sync s0 s" and answered: "sync \<longrightarrow> rh_reply_seq (run_ring s) = rh_req_seq (run_ring s)"
  shows "run_inv api pr sync s0
    (s\<lparr>run_pl := (run_pl s)\<lparr>pl_ring := request (run_ring s)\<rparr>, run_flushed := length (run_sent s)\<rparr>)" (is "run_inv _ _ _ _ ?s")
  using inv
proof (rule run_invE)
  fix frames ms
  assume i: "hs_ok (fst s0)" "executor_ok (run_pl s)" "stream_inv api pr s0 frames ms s" "serving_inv sync frames ms s"
    "sync \<Longrightarrow> handshake_inv frames s"
  have "executor_ok (run_pl ?s)" using i(2) by (simp add: executor_ok_def)
  moreover have "stream_inv api pr s0 frames ms ?s" using i(3) by (auto simp: stream_inv_def)
  moreover have h: "handshake_inv frames ?s" if sync
    using i(5) [OF that] answered that by (auto simp: handshake_inv_def)
  moreover have "serving_inv sync frames ms ?s"
  proof (cases sync)
    case True
    then have "ex_pc (pl_ex (run_pl s)) \<noteq> Serving req" for req
      using i(5) [OF True] answered by (auto simp: handshake_inv_def)
    then show ?thesis by (simp add: serving_inv_def)
  next
    case False
    then show ?thesis using i(4) by (fastforce simp: serving_inv_def split_at_def)
  qed
  ultimately show ?thesis using i(1) by (intro run_invI)
qed

lemma stop_inv:
  assumes "run_inv api pr sync s0 s"
  shows "run_inv api pr sync s0 (s\<lparr>run_pl := executor_stop (run_pl s)\<rparr>)"
  using assms
proof (rule run_invE)
  fix frames ms
  assume i: "hs_ok (fst s0)" "executor_ok (run_pl s)" "stream_inv api pr s0 frames ms s" "serving_inv sync frames ms s"
    "sync \<Longrightarrow> handshake_inv frames s"
  let ?s = "s\<lparr>run_pl := executor_stop (run_pl s)\<rparr>"
  have "executor_ok (run_pl ?s)" "stream_inv api pr s0 frames ms ?s" "serving_inv sync frames ms ?s"
    using i(2-4) by (auto simp: executor_ok_def stream_inv_def serving_inv_def split_at_def)
  moreover have "handshake_inv frames ?s" if sync using i(5) [OF that] by (simp add: handshake_inv_def)
  ultimately show ?thesis using i(1) by (intro run_invI)
qed

section \<open>Steps of the host\<close>

lemma available_zero: "available r = 0 \<longleftrightarrow> ring_contents r = []"
proof -
  have "available r = 0 \<longleftrightarrow> ring_used r = 0" by (simp add: available_def ring_used_def unat_eq_0)
  also have "\<dots> \<longleftrightarrow> ring_contents r = []" by (metis length_0_conv length_ring_contents)
  finally show ?thesis .
qed

lemma unat_available: "unat (available r) = length (ring_contents r)"
  by (simp add: available_def ring_used_def)

text \<open>A snapshot into the vector takes a non-empty prefix of the ring.\<close>

lemma take_min_length: "take (min k (length xs)) xs = take k xs"
  by (simp add: min_def)

lemma drain_snapshot_spec:
  assumes ok: "executor_ok p" and pc: "ex_pc (pl_ex p) = Snapshotting ph"
  obtains n r where "0 < n" "n \<le> length (ring_contents (pl_ring p))" "n = min (ex_scratch (pl_ex p)) (length (ring_contents (pl_ring p)))"
    "drain_snapshot ph (pl_ring p) (pl_ex p) =
       Some (r, (pl_ex p)\<lparr>ex_frame := ex_frame (pl_ex p) @ take n (ring_contents (pl_ring p)), ex_pc := Draining ph\<rparr>)"
    "ring_inv r" "ring_contents r = drop n (ring_contents (pl_ring p))" "ring_cap r = ring_cap (pl_ring p)"
    "rh_req_seq r = rh_req_seq (pl_ring p)" "rh_reply_seq r = rh_reply_seq (pl_ring p)"
proof -
  let ?c = "ring_contents (pl_ring p)" and ?e = "pl_ex p"
  have inv: "ring_inv (pl_ring p)" and sc: "ex_scratch ?e \<le> ring_cap (pl_ring p)" "0 < ex_scratch ?e" and ne: "?c \<noteq> []"
    using ok pc by (auto simp: executor_ok_def)
  define n where "n = min (ex_scratch ?e) (length ?c)"
  have u: "unat (of_nat (ex_scratch ?e) :: u32) = ex_scratch ?e"
    using sc(1) ring_cap_bound [of "pl_ring p"] by (intro unat_of_nat_32) simp
  have snap: "snapshot (ring_mask (Some (pl_ring p))) (pl_ring p) (of_nat (ex_scratch ?e)) = Some (take n ?c)"
    unfolding snapshot_refines [OF inv] u n_def by (simp add: take_min_length del: length_ring_contents)
  have n: "0 < n" "n \<le> length ?c" "take n ?c \<noteq> []" using sc(2) ne by (auto simp: n_def simp del: length_ring_contents)
  have "n < 2 ^ 32" using n(2) ring_used_le_cap [OF inv] ring_cap_bound [of "pl_ring p"] by linarith
  then have un: "unat (of_nat n :: u32) = n" by (rule unat_of_nat_32)
  have adv: "ring_inv (advance (of_nat n) (pl_ring p))" "ring_contents (advance (of_nat n) (pl_ring p)) = drop n ?c"
    "ring_cap (advance (of_nat n) (pl_ring p)) = ring_cap (pl_ring p)"
    using cq.adv_drops [OF inv, of "of_nat n"] n(2) un by simp_all
  have "length (take n ?c) = n" using n(2) by simp
  then have "drain_snapshot ph (pl_ring p) ?e =
      Some (advance (of_nat n) (pl_ring p), ?e\<lparr>ex_frame := ex_frame ?e @ take n ?c, ex_pc := Draining ph\<rparr>)"
    unfolding drain_snapshot_def snap using n(3) by (simp del: length_take)
  then show ?thesis using that [OF n(1,2) n_def _ adv] by simp
qed

lemma consume_step_total: "executor_ok p \<Longrightarrow> \<exists>p'. consume_step api pr p = Some p'"
proof (cases "ex_pc (pl_ex p)")
  case (Snapshotting ph)
  assume "executor_ok p"
  then show ?thesis using Snapshotting by (rule drain_snapshot_spec) (simp add: consume_step_def Snapshotting Let_def)
qed (simp_all add: consume_step_def Let_def)

text \<open>Each step of the thread keeps the invariant.\<close>

lemma drain_load_inv:
  assumes inv: "run_inv api pr sync s0 s" and pc: "ex_pc (pl_ex (run_pl s)) = Draining ph"
  shows "run_inv api pr sync s0 (s\<lparr>run_pl := (run_pl s)\<lparr>pl_ex := drain_load ph (run_ring s) (pl_ex (run_pl s))\<rparr>\<rparr>)"
    (is "run_inv _ _ _ _ ?s")
  using inv
proof (rule run_invE)
  fix frames ms
  assume i: "hs_ok (fst s0)" "executor_ok (run_pl s)" "stream_inv api pr s0 frames ms s" "serving_inv sync frames ms s"
    "sync \<Longrightarrow> handshake_inv frames s"
  have sc: "unat (available (run_ring s)) \<le> ring_cap (run_ring s)"
    using i(2) ring_used_le_cap by (simp add: executor_ok_def unat_available del: length_ring_contents)
  have "executor_ok (run_pl ?s)"
    using i(2) sc unat_gt_0 [of "available (run_ring s)"]
    by (auto simp: executor_ok_def drain_load_def grow_scratch_def available_zero split: drain_phase.splits)
  moreover have "stream_inv api pr s0 frames ms ?s" using i(3) by (auto simp: stream_inv_def drain_load_def grow_scratch_def)
  moreover have "serving_inv sync frames ms ?s"
  proof (cases "ring_contents (run_ring s) = []")
    case True
    have "split_at ms (length ms) (run_pl ?s)" using i(3) True by (simp add: split_at_def stream_inv_def drain_load_def grow_scratch_def)
    moreover have "run_flushed ?s \<le> length (concat frames) + length ms" using i(3) by (auto simp: stream_inv_def)
    ultimately show ?thesis unfolding serving_inv_def by blast
  next
    case False
    then show ?thesis by (simp add: serving_inv_def drain_load_def available_zero)
  qed
  moreover have "handshake_inv frames ?s" if sync
    using i(5) [OF that] pc by (auto simp: handshake_inv_def drain_load_def grow_scratch_def split: drain_phase.splits)
  ultimately show ?thesis using i(1) by (intro run_invI)
qed

lemma drain_snapshot_inv:
  assumes inv: "run_inv api pr sync s0 s" and pc: "ex_pc (pl_ex (run_pl s)) = Snapshotting ph"
    and step: "drain_snapshot ph (run_ring s) (pl_ex (run_pl s)) = Some (r, e)"
  shows "run_inv api pr sync s0 (s\<lparr>run_pl := (run_pl s)\<lparr>pl_ring := r, pl_ex := e\<rparr>\<rparr>)" (is "run_inv _ _ _ _ ?s")
  using inv
proof (rule run_invE)
  fix frames ms
  assume i: "hs_ok (fst s0)" "executor_ok (run_pl s)" "stream_inv api pr s0 frames ms s" "serving_inv sync frames ms s"
    "sync \<Longrightarrow> handshake_inv frames s"
  obtain n where n: "e = (pl_ex (run_pl s))\<lparr>ex_frame := ex_frame (pl_ex (run_pl s)) @ take n (ring_contents (run_ring s)), ex_pc := Draining ph\<rparr>"
    and r: "ring_inv r" "ring_contents r = drop n (ring_contents (run_ring s))" "ring_cap r = ring_cap (run_ring s)"
      "rh_req_seq r = rh_req_seq (run_ring s)" "rh_reply_seq r = rh_reply_seq (run_ring s)"
    using step by (rule_tac drain_snapshot_spec [OF i(2) pc]) auto
  have "executor_ok (run_pl ?s)" using i(2) n r by (auto simp: executor_ok_def)
  moreover have "stream_inv api pr s0 frames ms ?s" using i(3) n r by (auto simp: stream_inv_def)
  moreover have "serving_inv sync frames ms ?s" using n by (simp add: serving_inv_def)
  moreover have "handshake_inv frames ?s" if sync using i(5) [OF that] pc n r by (auto simp: handshake_inv_def)
  ultimately show ?thesis using i(1) by (intro run_invI)
qed

lemma serve_inv:
  assumes inv: "run_inv api pr sync s0 s" and pc: "ex_pc (pl_ex (run_pl s)) = Serving req"
  shows "run_inv api pr sync s0
    (s\<lparr>run_pl := (run_pl s)\<lparr>pl_ring := post_reply (run_ring s), pl_ex := serve_frame api pr req (pl_ex (run_pl s))\<rparr>\<rparr>)"
    (is "run_inv _ _ _ _ ?s")
  using inv
proof (rule run_invE)
  fix frames ms
  assume i: "hs_ok (fst s0)" "executor_ok (run_pl s)" "stream_inv api pr s0 frames ms s" "serving_inv sync frames ms s"
    "sync \<Longrightarrow> handshake_inv frames s"
  obtain k where k: "split_at ms k (run_pl s)" "sync \<longrightarrow> run_flushed s \<le> length (concat frames) + k"
    using i(4) pc unfolding serving_inv_def by blast
  let ?fs = "frames @ [take k ms]"
  have ok: "list_all message_ok (take k ms)"
    using i(3) by (auto simp: stream_inv_def list_all_iff dest: in_set_takeD)
  have gl: "ex_gl (pl_ex (run_pl s)) = fold (render_messages api pr) frames s0" using i(3) by (auto simp: stream_inv_def)
  have "hs_ok (fst (fold (render_messages api pr) fs s))= hs_ok (fst s)" for fs s by (induction fs arbitrary: s) simp_all
  then have "render_frame api pr (ex_frame (pl_ex (run_pl s))) (ex_gl (pl_ex (run_pl s))) = fold (render_messages api pr) ?fs s0"
    using k(1) i(1) ok gl by (simp add: split_at_def render_frame_messages)
  then have "stream_inv api pr s0 ?fs (drop k ms) ?s"
    using i(3) k(1) by (auto simp: stream_inv_def serve_frame_def split_at_def)
  moreover have "executor_ok (run_pl ?s)" using i(2) by (simp add: executor_ok_def serve_frame_def)
  moreover have "serving_inv sync ?fs (drop k ms) ?s" by (simp add: serving_inv_def serve_frame_def)
  moreover have "handshake_inv ?fs ?s" if sync
    using i(5) [OF that] pc k that by (auto simp: handshake_inv_def serve_frame_def split_at_def)
  ultimately show ?thesis using i(1) by (intro run_invI)
qed

text \<open>The remaining loads only move the program counter.\<close>

lemma move_inv:
  assumes inv: "run_inv api pr sync s0 s"
    and pc: "\<And>req. pc \<noteq> Serving req" "\<And>ph. pc \<noteq> Snapshotting ph" "\<not> pl_stop (run_pl s) \<Longrightarrow> pc \<noteq> Exited \<and> (\<forall>f. pc \<noteq> FinalCheck f)"
      "\<And>req. pc = Draining (SecondDrain req) \<Longrightarrow> req = rh_req_seq (run_ring s) \<and> req \<noteq> ex_replied (pl_ex (run_pl s))"
  shows "run_inv api pr sync s0 (s\<lparr>run_pl := (run_pl s)\<lparr>pl_ex := (pl_ex (run_pl s))\<lparr>ex_pc := pc\<rparr>\<rparr>\<rparr>)" (is "run_inv _ _ _ _ ?s")
  using inv
proof (rule run_invE)
  fix frames ms
  assume i: "hs_ok (fst s0)" "executor_ok (run_pl s)" "stream_inv api pr s0 frames ms s" "serving_inv sync frames ms s"
    "sync \<Longrightarrow> handshake_inv frames s"
  have "executor_ok (run_pl ?s)" using i(2) pc(2,3) by (auto simp: executor_ok_def)
  moreover have "stream_inv api pr s0 frames ms ?s" using i(3) by (auto simp: stream_inv_def)
  moreover have "serving_inv sync frames ms ?s" using pc(1) by (simp add: serving_inv_def)
  moreover have "handshake_inv frames ?s" if sync using i(5) [OF that] pc by (auto simp: handshake_inv_def)
  ultimately show ?thesis using i(1) by (intro run_invI)
qed

lemma host_inv:
  assumes inv: "run_inv api pr sync s0 s" and step: "consume_step api pr (run_pl s) = Some p"
  shows "run_inv api pr sync s0 (s\<lparr>run_pl := p\<rparr>)"
proof (cases "ex_pc (pl_ex (run_pl s))")
  case (Draining ph)
  then show ?thesis using step drain_load_inv [OF inv Draining] by (simp add: consume_step_def)
next
  case (Snapshotting ph)
  then obtain r e where "drain_snapshot ph (run_ring s) (pl_ex (run_pl s)) = Some (r, e)" "p = (run_pl s)\<lparr>pl_ring := r, pl_ex := e\<rparr>"
    using step by (auto simp: consume_step_def)
  then show ?thesis using drain_snapshot_inv [OF inv Snapshotting] by simp
next
  case (Serving req)
  then show ?thesis using step serve_inv [OF inv Serving] by (simp add: consume_step_def)
next
  case Exited
  then show ?thesis using step inv by (auto simp: consume_step_def)
next
  case Checking
  then have "p = (run_pl s)\<lparr>pl_ex := (pl_ex (run_pl s))\<lparr>ex_pc :=
      if rh_req_seq (run_ring s) \<noteq> ex_replied (pl_ex (run_pl s)) then Draining (SecondDrain (rh_req_seq (run_ring s))) else StopCheck\<rparr>\<rparr>"
    using step by (simp add: consume_step_def Let_def)
  then show ?thesis by (simp only:) (rule move_inv [OF inv], auto split: if_splits)
next
  case StopCheck
  then have "p = (run_pl s)\<lparr>pl_ex := (pl_ex (run_pl s))\<lparr>ex_pc :=
      if pl_stop (run_pl s) then FinalCheck (rh_req_seq (run_ring s)) else Draining FirstDrain\<rparr>\<rparr>"
    using step by (simp add: consume_step_def Let_def)
  then show ?thesis by (simp only:) (rule move_inv [OF inv], auto split: if_splits)
next
  case (FinalCheck f)
  have "pl_stop (run_pl s)" using inv FinalCheck by (auto simp: run_inv_def executor_ok_def)
  moreover have "p = (run_pl s)\<lparr>pl_ex := (pl_ex (run_pl s))\<lparr>ex_pc :=
      if f = ex_replied (pl_ex (run_pl s)) \<and> available (run_ring s) = 0 then Exited else Draining FirstDrain\<rparr>\<rparr>"
    using step FinalCheck by (simp add: consume_step_def Let_def)
  ultimately show ?thesis by (simp only:) (rule move_inv [OF inv], auto split: if_splits)
qed

lemma gpu_step_inv: "gpu_step api pr sync s s' \<Longrightarrow> run_inv api pr sync s0 s \<Longrightarrow> run_inv api pr sync s0 s'"
proof (induction rule: gpu_step.induct)
  case append then show ?case using append_inv by blast
next
  case flush then show ?case using flush_inv by blast
next
  case stop then show ?case by (rule stop_inv)
next
  case host then show ?case using host_inv by blast
qed

lemma gpu_run_inv:
  "(gpu_step api pr sync)\<^sup>*\<^sup>* (run_start s0 rb) s \<Longrightarrow> pow2 rb \<Longrightarrow> hs_ok (fst s0) \<Longrightarrow> run_inv api pr sync s0 s"
  by (induction rule: rtranclp_induct) (auto intro: run_inv_start gpu_step_inv)

section \<open>The host alone\<close>

definition host_step :: "'g gl_api \<Rightarrow> 'g presenter \<Rightarrow> 'g run \<Rightarrow> 'g run \<Rightarrow> bool" where
  "host_step api pr s s' \<longleftrightarrow> map_option (\<lambda>p. s\<lparr>run_pl := p\<rparr>) (consume_step api pr (run_pl s)) = Some s'"

lemma host_step_inv: "host_step api pr s s' \<Longrightarrow> run_inv api pr sync s0 s \<Longrightarrow> run_inv api pr sync s0 s'"
  using host_inv [of api pr sync s0 s] by (auto simp: host_step_def)

definition drained :: "drain_phase \<Rightarrow> executor_pc" where
  "drained ph = (case ph of FirstDrain \<Rightarrow> Checking | SecondDrain req \<Rightarrow> Serving req)"

text \<open>What the draining leaves alone.\<close>

definition same_requests :: "'g run \<Rightarrow> 'g run \<Rightarrow> bool" where
  "same_requests s s' \<longleftrightarrow> run_sent s' = run_sent s \<and> run_flushed s' = run_flushed s \<and>
     rh_req_seq (run_ring s') = rh_req_seq (run_ring s) \<and> rh_reply_seq (run_ring s') = rh_reply_seq (run_ring s)"

lemma snapshot_progress:
  assumes inv: "run_inv api pr sync s0 s" and pc: "ex_pc (pl_ex (run_pl s)) = Snapshotting ph"
  shows "\<exists>s'. host_step api pr s s' \<and> same_requests s s' \<and> ex_pc (pl_ex (run_pl s')) = Draining ph \<and>
    length (ring_contents (run_ring s')) < length (ring_contents (run_ring s))"
proof -
  have "executor_ok (run_pl s)" using inv by (simp add: run_inv_def)
  then show ?thesis using pc
    by (rule drain_snapshot_spec)
       (fastforce simp: host_step_def consume_step_def pc same_requests_def Let_def simp del: length_ring_contents)
qed

lemma load_progress:
  assumes "ex_pc (pl_ex (run_pl s)) = Draining ph"
  shows "\<exists>s'. host_step api pr s s' \<and> same_requests s s' \<and> ring_contents (run_ring s') = ring_contents (run_ring s) \<and>
    ex_pc (pl_ex (run_pl s')) = (if ring_contents (run_ring s) = [] then drained ph else Snapshotting ph)"
  using assms by (simp add: host_step_def consume_step_def same_requests_def drain_load_def available_zero drained_def Let_def)

lemma same_requests_trans: "same_requests s s' \<Longrightarrow> same_requests s' s'' \<Longrightarrow> same_requests s s''"
  by (simp add: same_requests_def)

lemma drain_completes:
  assumes "run_inv api pr sync s0 s" "ex_pc (pl_ex (run_pl s)) = Draining ph"
  shows "\<exists>s'. (host_step api pr)\<^sup>*\<^sup>* s s' \<and> same_requests s s' \<and> ex_pc (pl_ex (run_pl s')) = drained ph \<and> run_inv api pr sync s0 s'"
  using assms
proof (induction "length (ring_contents (run_ring s))" arbitrary: s rule: less_induct)
  case less
  obtain s1 where s1: "host_step api pr s s1" "same_requests s s1" "ring_contents (run_ring s1) = ring_contents (run_ring s)"
    "ex_pc (pl_ex (run_pl s1)) = (if ring_contents (run_ring s) = [] then drained ph else Snapshotting ph)"
    using load_progress [OF less.prems(2)] by blast
  have i1: "run_inv api pr sync s0 s1" by (rule host_step_inv [OF s1(1) less.prems(1)])
  show ?case
  proof (cases "ring_contents (run_ring s) = []")
    case True
    then show ?thesis using s1 i1 by (metis r_into_rtranclp)
  next
    case False
    then obtain s2 where s2: "host_step api pr s1 s2" "same_requests s1 s2" "ex_pc (pl_ex (run_pl s2)) = Draining ph"
      "length (ring_contents (run_ring s2)) < length (ring_contents (run_ring s1))"
      using snapshot_progress [OF i1] s1(4) by (metis (full_types))
    have i2: "run_inv api pr sync s0 s2" by (rule host_step_inv [OF s2(1) i1])
    then obtain s' where "(host_step api pr)\<^sup>*\<^sup>* s2 s'" "same_requests s2 s'" "ex_pc (pl_ex (run_pl s')) = drained ph" "run_inv api pr sync s0 s'"
      using less.hyps [OF _ i2 s2(3)] s2(4) s1(3) by metis
    moreover have "(host_step api pr)\<^sup>*\<^sup>* s s2" using s1(1) s2(1) by (metis r_into_rtranclp rtranclp.rtrancl_into_rtrancl)
    ultimately show ?thesis using s1(2) s2(2) same_requests_trans by (metis rtranclp_trans)
  qed
qed

text \<open>The thread answers, by itself, the requests it can see.\<close>

definition answers :: "'g gl_api \<Rightarrow> 'g presenter \<Rightarrow> 'g run \<Rightarrow> bool" where
  "answers api pr s \<longleftrightarrow> (\<exists>s'. (host_step api pr)\<^sup>*\<^sup>* s s' \<and> run_sent s' = run_sent s \<and> run_flushed s' = run_flushed s \<and>
     rh_req_seq (run_ring s') = rh_req_seq (run_ring s) \<and> rh_reply_seq (run_ring s') = rh_req_seq (run_ring s'))"

lemma answers_later: "(host_step api pr)\<^sup>*\<^sup>* s s' \<Longrightarrow> same_requests s s' \<Longrightarrow> answers api pr s' \<Longrightarrow> answers api pr s"
  unfolding answers_def same_requests_def by (metis rtranclp_trans)

lemma answers_step: "host_step api pr s s' \<Longrightarrow> same_requests s s' \<Longrightarrow> answers api pr s' \<Longrightarrow> answers api pr s"
  using answers_later by blast

lemma answers_serving: "ex_pc (pl_ex (run_pl s)) = Serving req \<Longrightarrow> answers api pr s"
  unfolding answers_def
  by (rule exI [of _ "s\<lparr>run_pl := (run_pl s)\<lparr>pl_ring := post_reply (run_ring s), pl_ex := serve_frame api pr req (pl_ex (run_pl s))\<rparr>\<rparr>"])
     (simp add: r_into_rtranclp host_step_def consume_step_def Let_def)

lemma answers_second_drain:
  assumes "run_inv api pr sync s0 s" "ex_pc (pl_ex (run_pl s)) = Draining (SecondDrain req)"
  shows "answers api pr s"
proof -
  obtain s' where s': "(host_step api pr)\<^sup>*\<^sup>* s s'" "same_requests s s'" "ex_pc (pl_ex (run_pl s')) = Serving req"
    using drain_completes [OF assms] by (auto simp: drained_def)
  from s'(1,2) answers_serving [OF s'(3)] show ?thesis by (rule answers_later)
qed

lemma answers_checking:
  assumes "run_inv api pr sync s0 s" "ex_pc (pl_ex (run_pl s)) = Checking" "rh_req_seq (run_ring s) \<noteq> ex_replied (pl_ex (run_pl s))"
  shows "answers api pr s"
proof -
  let ?s = "s\<lparr>run_pl := (run_pl s)\<lparr>pl_ex := (pl_ex (run_pl s))\<lparr>ex_pc := Draining (SecondDrain (rh_req_seq (run_ring s)))\<rparr>\<rparr>\<rparr>"
  have h: "host_step api pr s ?s" using assms(2,3) by (simp add: host_step_def consume_step_def Let_def)
  have a: "answers api pr ?s" by (rule answers_second_drain [OF host_step_inv [OF h assms(1)]]) simp
  show ?thesis by (rule answers_step [OF h _ a]) (simp add: same_requests_def)
qed

lemma answers_first_drain:
  assumes "run_inv api pr True s0 s" "ex_pc (pl_ex (run_pl s)) = Draining FirstDrain" "rh_req_seq (run_ring s) \<noteq> rh_reply_seq (run_ring s)"
  shows "answers api pr s"
proof -
  obtain s' where s': "(host_step api pr)\<^sup>*\<^sup>* s s'" "same_requests s s'" "ex_pc (pl_ex (run_pl s')) = Checking" "run_inv api pr True s0 s'"
    using drain_completes [OF assms(1,2)] by (auto simp: drained_def)
  have "rh_reply_seq (run_ring s') = ex_replied (pl_ex (run_pl s'))" using s'(4) by (auto simp: run_inv_def handshake_inv_def)
  then have "answers api pr s'" using answers_checking [OF s'(4,3)] s'(2) assms(3) by (simp add: same_requests_def)
  with s'(1,2) show ?thesis by (rule answers_later)
qed

lemma answers_request:
  assumes inv: "run_inv api pr True s0 s" and run: "\<not> pl_stop (run_pl s)"
  shows "answers api pr s"
proof (cases "rh_req_seq (run_ring s) = rh_reply_seq (run_ring s)")
  case True
  then show ?thesis unfolding answers_def by (metis rtranclp.rtrancl_refl)
next
  case ne: False
  have rep: "rh_reply_seq (run_ring s) = ex_replied (pl_ex (run_pl s))" and ok: "executor_ok (run_pl s)"
    using inv by (auto simp: run_inv_def handshake_inv_def)
  have dr: "answers api pr s'" if "run_inv api pr True s0 s'" "ex_pc (pl_ex (run_pl s')) = Draining ph" "same_requests s s'" for s' ph
    using answers_first_drain [OF that(1)] answers_second_drain [OF that(1)] that(2,3) ne
    by (cases ph) (simp_all add: same_requests_def)
  show ?thesis
  proof (cases "ex_pc (pl_ex (run_pl s))")
    case (Draining ph)
    then show ?thesis using dr inv by (simp add: same_requests_def)
  next
    case (Snapshotting ph)
    then obtain s' where "host_step api pr s s'" "same_requests s s'" "ex_pc (pl_ex (run_pl s')) = Draining ph"
      using snapshot_progress [OF inv] by blast
    then show ?thesis using dr [OF host_step_inv [OF _ inv]] answers_step by blast
  next
    case Checking
    then show ?thesis using answers_checking [OF inv] ne rep by simp
  next
    case (Serving req)
    then show ?thesis by (rule answers_serving)
  next
    case StopCheck
    let ?s = "s\<lparr>run_pl := (run_pl s)\<lparr>pl_ex := (pl_ex (run_pl s))\<lparr>ex_pc := Draining FirstDrain\<rparr>\<rparr>\<rparr>"
    have h: "host_step api pr s ?s" using StopCheck run by (simp add: host_step_def consume_step_def Let_def)
    have same: "same_requests s ?s" by (simp add: same_requests_def)
    have "answers api pr ?s" by (rule dr [OF host_step_inv [OF h inv] _ same]) simp
    with h same show ?thesis by (rule answers_step)
  qed (use ok run in \<open>simp_all add: executor_ok_def\<close>)
qed

lemma host_steps_inv: "(host_step api pr)\<^sup>*\<^sup>* s s' \<Longrightarrow> run_inv api pr sync s0 s \<Longrightarrow> run_inv api pr sync s0 s'"
  by (induction rule: rtranclp_induct) (auto intro: host_step_inv)

section \<open>The pipeline\<close>


abbreviation example_gl :: "(nat \<times> (string \<times> gl_arg list) list) dstate" where
  "example_gl \<equiv> (initial_host_state 7, (1, []))"

definition plain_presenter :: "'g presenter" where
  "plain_presenter = \<lparr>pr_fbo = 7, pr_callback = id, pr_window = id\<rparr>"

text \<open>A guest that appended one message and flushed.\<close>

lemma example_run:
  obtains s where "(gpu_step recording_gl plain_presenter sync)\<^sup>*\<^sup>* (run_start example_gl 64) s"
    "run_sent s = [build_viewport 0 0 4 4]" "run_flushed s = 1" "\<not> pl_stop (run_pl s)"
proof -
  let ?m = "build_viewport 0 0 4 4" and ?s = "run_start example_gl 64"
  have p: "pow2 64" by (simp add: pow2_def)
  have len: "length (message_bytes ?m) = 17" by (simp add: build_viewport_def message_bytes_eq)
  have r: "ring_inv (initial_ring 64)" "ring_contents (initial_ring 64) = []" "ring_cap (initial_ring 64) = 63"
    using initial_ring [OF p] by simp_all
  obtain r1 where r1: "c_put (message_bytes ?m) (initial_ring 64) = Some (True, r1)"
    using cq.put_accepts [OF r(1), of "message_bytes ?m"] r(2,3) len by (auto simp del: length_ring_contents)
  let ?s1 = "?s\<lparr>run_pl := (run_pl ?s)\<lparr>pl_ring := r1\<rparr>, run_sent := run_sent ?s @ [?m]\<rparr>"
  have s1: "gpu_step recording_gl plain_presenter sync ?s ?s1"
    using r1 len by (intro gpu_step.append) (simp_all add: build_basic_ok run_start_def executor_start_def)
  have z: "rh_req_seq (initial_ring 64) = 0" "rh_reply_seq (initial_ring 64) = 0"
    by (simp_all add: initial_ring_def ring_init_def fresh_region_def pow2_def)
  have "length (message_bytes ?m) < 2 ^ 32" using len by simp
  from c_put_True(4,5) [OF r(1) this r1] z have z1: "rh_req_seq r1 = 0" "rh_reply_seq r1 = 0" by simp_all
  have "gpu_step recording_gl plain_presenter sync ?s1
      (?s1\<lparr>run_pl := (run_pl ?s1)\<lparr>pl_ring := request (run_ring ?s1)\<rparr>, run_flushed := length (run_sent ?s1)\<rparr>)" (is "gpu_step _ _ _ _ ?s2")
    by (intro gpu_step.flush) (simp add: z1)
  with s1 have "(gpu_step recording_gl plain_presenter sync)\<^sup>*\<^sup>* ?s ?s2" by (meson r_into_rtranclp rtranclp.rtrancl_into_rtrancl)
  then show ?thesis by (rule that) (simp_all add: run_start_def executor_start_def)
qed


text \<open>C22. A flush is answered.  Whatever happened before, a consumer thread that has not been told to stop reaches, by
  its own steps alone, a state in which the last request of a waiting guest is answered and everything the guest had
  appended before it is rendered.\<close>

theorem flush_is_answered:
  assumes "(gpu_step api pr True)\<^sup>*\<^sup>* (run_start s0 rb) s" "pow2 rb" "hs_ok (fst s0)" "\<not> pl_stop (run_pl s)"
  shows "\<exists>s' frames ms. (host_step api pr)\<^sup>*\<^sup>* s s' \<and> rh_req_seq (run_ring s') = rh_req_seq (run_ring s) \<and>
    rh_reply_seq (run_ring s') = rh_req_seq (run_ring s') \<and> run_sent s = concat frames @ ms \<and>
    run_flushed s \<le> length (concat frames) \<and> ex_gl (pl_ex (run_pl s')) = fold (render_messages api pr) frames s0"
proof -
  have inv: "run_inv api pr True s0 s" by (rule gpu_run_inv [OF assms(1-3)])
  obtain s' where s': "(host_step api pr)\<^sup>*\<^sup>* s s'" "run_sent s' = run_sent s" "run_flushed s' = run_flushed s"
    "rh_req_seq (run_ring s') = rh_req_seq (run_ring s)" "rh_reply_seq (run_ring s') = rh_req_seq (run_ring s')"
    using answers_request [OF inv assms(4)] unfolding answers_def by blast
  from host_steps_inv [OF s'(1) inv] show ?thesis
  proof (rule run_invE)
    fix frames ms
    assume i: "stream_inv api pr s0 frames ms s'" "True \<Longrightarrow> handshake_inv frames s'"
    show ?thesis using i s' by (intro exI [of _ s'] exI [of _ frames] exI [of _ ms]) (simp add: stream_inv_def handshake_inv_def)
  qed
qed

theorem flush_is_answered_witness:
  "\<exists>s s'. (gpu_step recording_gl plain_presenter True)\<^sup>*\<^sup>* (run_start example_gl 64) s \<and>
     run_flushed s = 1 \<and> (host_step recording_gl plain_presenter)\<^sup>*\<^sup>* s s' \<and>
     rh_reply_seq (run_ring s') = rh_req_seq (run_ring s') \<and>
     (\<exists>frames. concat frames = [build_viewport 0 0 4 4] \<and>
       ex_gl (pl_ex (run_pl s')) = fold (render_messages recording_gl plain_presenter) frames example_gl)"
proof -
  obtain s where s: "(gpu_step recording_gl plain_presenter True)\<^sup>*\<^sup>* (run_start example_gl 64) s"
    "run_sent s = [build_viewport 0 0 4 4]" "run_flushed s = 1" "\<not> pl_stop (run_pl s)" by (rule example_run)
  have "pow2 64" "hs_ok (fst example_gl)"
    by (simp_all add: pow2_def initial_host_state_def)
  from flush_is_answered [OF s(1) this s(4)] obtain s' frames ms where
    *: "(host_step recording_gl plain_presenter)\<^sup>*\<^sup>* s s'" "rh_reply_seq (run_ring s') = rh_req_seq (run_ring s')"
      "run_sent s = concat frames @ ms" "run_flushed s \<le> length (concat frames)"
      "ex_gl (pl_ex (run_pl s')) = fold (render_messages recording_gl plain_presenter) frames example_gl"
    by blast
  have "concat frames = [build_viewport 0 0 4 4]" using *(3,4) s(2,3) by (cases "concat frames") auto
  with * s show ?thesis by blast
qed

text \<open>A guest whose wait ran out may flush again while its first request is being served; the reply then carries the
  newer request, whose messages are still in the ring.\<close>

lemma early_reply:
  assumes m: "message_ok m" "length (message_bytes m) \<le> 63"
  shows "\<exists>s. (gpu_step api pr False)\<^sup>*\<^sup>* (run_start s0 64) s \<and> rh_reply_seq (run_ring s) = rh_req_seq (run_ring s) \<and>
    run_sent s = [m] \<and> run_flushed s = 1 \<and> ring_contents (run_ring s) = message_bytes m"
proof -
  have p: "pow2 64" by (simp add: pow2_def)
  have r: "ring_inv (request (initial_ring 64))" "ring_contents (request (initial_ring 64)) = []" "ring_cap (request (initial_ring 64)) = 63"
    using initial_ring [OF p] by simp_all
  have q: "rh_req_seq (initial_ring 64) = 0" by (simp add: initial_ring_def ring_init_def fresh_region_def pow2_def)
  obtain r1 where r1: "c_put (message_bytes m) (request (initial_ring 64)) = Some (True, r1)"
    using cq.put_accepts [OF r(1), of "message_bytes m"] r(2,3) m(2) by (auto simp del: length_ring_contents)
  have l: "length (message_bytes m) < 2 ^ 32" using m(2) by simp
  note c = c_put_True [OF r(1) l r1]
  have a0: "available (request (initial_ring 64)) = 0" using r(2) by (simp add: available_zero)
  let ?e = "pl_ex (executor_start s0 64)"
  let ?st = "\<lambda>ring pc sent fl. \<lparr>run_pl = \<lparr>pl_ring = ring, pl_stop = False, pl_ex = ?e\<lparr>ex_pc := pc\<rparr>\<rparr>, run_sent = sent, run_flushed = fl\<rparr>"
  let ?q = "request (initial_ring 64)"
  let ?g = "gpu_step api pr False"
  have e: "run_start s0 64 = ?st (initial_ring 64) (Draining FirstDrain) [] 0" by (simp add: run_start_def executor_start_def)
  have 1: "?g (run_start s0 64) (?st ?q (Draining FirstDrain) [] 0)"
    unfolding e using gpu_step.flush [of False "?st (initial_ring 64) (Draining FirstDrain) [] 0" api pr] by simp
  have 2: "?g (?st ?q (Draining FirstDrain) [] 0) (?st ?q Checking [] 0)"
    using gpu_step.host [of api pr "?st ?q (Draining FirstDrain) [] 0"] by (simp add: consume_step_def drain_load_def a0)
  have 3: "?g (?st ?q Checking [] 0) (?st ?q (Draining (SecondDrain 1)) [] 0)"
    using gpu_step.host [of api pr "?st ?q Checking [] 0"] by (simp add: consume_step_def Let_def q executor_start_def)
  have 4: "?g (?st ?q (Draining (SecondDrain 1)) [] 0) (?st ?q (Serving 1) [] 0)"
    using gpu_step.host [of api pr "?st ?q (Draining (SecondDrain 1)) [] 0"] by (simp add: consume_step_def drain_load_def a0)
  have 5: "?g (?st ?q (Serving 1) [] 0) (?st r1 (Serving 1) [m] 0)"
    using gpu_step.append [OF m(1) l, of "?st ?q (Serving 1) [] 0" r1 api pr False] r1 by simp
  have 6: "?g (?st r1 (Serving 1) [m] 0) (?st (request r1) (Serving 1) [m] 1)"
    using gpu_step.flush [of False "?st r1 (Serving 1) [m] 0" api pr] by simp
  have 7: "?g (?st (request r1) (Serving 1) [m] 1)
      \<lparr>run_pl = \<lparr>pl_ring = post_reply (request r1), pl_stop = False, pl_ex = serve_frame api pr 1 (?e\<lparr>ex_pc := Serving 1\<rparr>)\<rparr>,
       run_sent = [m], run_flushed = 1\<rparr>"
    using gpu_step.host [of api pr "?st (request r1) (Serving 1) [m] 1"] by (simp add: consume_step_def)
  have "?g\<^sup>*\<^sup>* (run_start s0 64)
      \<lparr>run_pl = \<lparr>pl_ring = post_reply (request r1), pl_stop = False, pl_ex = serve_frame api pr 1 (?e\<lparr>ex_pc := Serving 1\<rparr>)\<rparr>,
       run_sent = [m], run_flushed = 1\<rparr>"
    by (rule converse_rtranclp_into_rtranclp [of ?g, OF 1] converse_rtranclp_into_rtranclp [of ?g, OF 2]
        converse_rtranclp_into_rtranclp [of ?g, OF 3] converse_rtranclp_into_rtranclp [of ?g, OF 4]
        converse_rtranclp_into_rtranclp [of ?g, OF 5] converse_rtranclp_into_rtranclp [of ?g, OF 6]
        converse_rtranclp_into_rtranclp [of ?g, OF 7] rtranclp.rtrancl_refl)+
  then show ?thesis using c r(2) by (intro exI conjI) (assumption, simp_all)
qed

end
