(* ===== verification/Alr_Exec_Rule.thy ===== *)
theory Alr_Exec_Rule
  imports Alr_Mediation
begin

text \<open>
  The exec decisions of the standalone runtime, \<^verbatim>\<open>runtime/alr/src/common/alr_exec_rule.c\<close>: splitting of
  environment entries, colon lists, the value of \<^verbatim>\<open>LD_PRELOAD\<close>, the targets on the Android side and the variables
  that are kept from the guest.  C strings are lists without their terminator; \<^const>\<open>None\<close> is \<^verbatim>\<open>NULL\<close>.  A
  buffer of \<open>outsz\<close> bytes holds a string of less than \<open>outsz\<close> characters.
\<close>

section \<open>Operations\<close>

abbreviation colon :: char where "colon \<equiv> CHR '':''"

text \<open>The key length and the value.\<close>

definition alr_split_env :: "string \<Rightarrow> nat \<times> string" where
  "alr_split_env entry =
     (case sv_find (CHR ''='') entry 0 of
        None \<Rightarrow> (length entry, [])
      | Some eq \<Rightarrow> (eq, drop (eq + 1) entry))"

text \<open>The loop over the elements of a list: \<^verbatim>\<open>for (p = list; *p; )\<close> with \<^verbatim>\<open>strchr\<close>; an empty last element is
  not visited.\<close>

function colon_elems :: "string \<Rightarrow> string list" where
  "colon_elems p =
     (if p = [] then []
      else takeWhile (\<lambda>c. c \<noteq> colon) p #
           (case dropWhile (\<lambda>c. c \<noteq> colon) p of [] \<Rightarrow> [] | _ # rest \<Rightarrow> colon_elems rest))"
  by pat_completeness auto
termination
proof (relation "measure length")
  fix p :: string and c rest
  assume "dropWhile (\<lambda>c. c \<noteq> colon) p = c # rest"
  then show "(rest, p) \<in> measure length" using length_dropWhile_le [of "\<lambda>c. c \<noteq> colon" p] by simp
qed simp

declare colon_elems.simps [simp del]

definition alr_colon_contains :: "string option \<Rightarrow> string option \<Rightarrow> bool" where
  "alr_colon_contains list needle =
     (case (list, needle) of
        (Some l, Some n) \<Rightarrow> l \<noteq> [] \<and> n \<noteq> [] \<and> list_ex (\<lambda>e. e = n) (colon_elems l)
      | _ \<Rightarrow> False)"

definition append_elem :: "nat \<Rightarrow> string \<Rightarrow> string \<Rightarrow> string option" where
  "append_elem outsz out s =
     (if s = [] then Some out
      else if out \<noteq> [] \<and> outsz \<le> length out + 1 then None
      else
        let out = (if out \<noteq> [] then out @ [colon] else out)
        in if outsz \<le> length out + length s then None else Some (out @ s))"

text \<open>The loop that carries over the guest's own entries.\<close>

definition is_ours :: "string \<Rightarrow> string option \<Rightarrow> string \<Rightarrow> bool" where
  "is_ours interpose_so fakeroot_so e \<longleftrightarrow>
     e = interpose_so \<or> (case fakeroot_so of None \<Rightarrow> False | Some f \<Rightarrow> e = f)"

primrec carry_over :: "nat \<Rightarrow> string \<Rightarrow> string option \<Rightarrow> string list \<Rightarrow> string \<Rightarrow> string option" where
  "carry_over outsz interpose_so fakeroot_so [] out = Some out"
| "carry_over outsz interpose_so fakeroot_so (e # es) out =
     (if e \<noteq> [] \<and> \<not> is_ours interpose_so fakeroot_so e
      then Option.bind (append_elem outsz out e) (carry_over outsz interpose_so fakeroot_so es)
      else carry_over outsz interpose_so fakeroot_so es out)"

text \<open>The value and \<^verbatim>\<open>*changed\<close>; \<^const>\<open>None\<close> is the result 0.\<close>

definition alr_build_ld_preload ::
  "string option \<Rightarrow> string option \<Rightarrow> string option \<Rightarrow> nat \<Rightarrow> (string \<times> bool) option" where
  "alr_build_ld_preload cur interpose_so fakeroot_so outsz =
     (case interpose_so of
        None \<Rightarrow> None
      | Some i \<Rightarrow>
          if i = [] \<or> outsz < 2 then None
          else if cur \<noteq> None \<and> cur \<noteq> Some [] \<and> alr_colon_contains cur (Some i) \<and>
                  (fakeroot_so = None \<or> alr_colon_contains cur fakeroot_so) then
            (if outsz < length (the cur) + 1 then None else Some (the cur, False))
          else
            let first = (case fakeroot_so of Some f \<Rightarrow> if f \<noteq> [] then append_elem outsz [] f else Some [] | None \<Rightarrow> Some [])
            in map_option (\<lambda>out. (out, True))
                 (Option.bind (Option.bind first (\<lambda>out. append_elem outsz out i))
                   (carry_over outsz i fakeroot_so (colon_elems (case cur of None \<Rightarrow> [] | Some c \<Rightarrow> c)))))"

definition alr_is_bionic_target :: "string option \<Rightarrow> string option \<Rightarrow> bool" where
  "alr_is_bionic_target host termux_prefix =
     (case host of
        None \<Rightarrow> False
      | Some h \<Rightarrow>
          cchar h 0 = slash \<and>
          (alr_path_under h ''/system'' 7 \<or> alr_path_under h ''/apex'' 5 \<or> alr_path_under h ''/vendor'' 7 \<or>
           (case termux_prefix of None \<Rightarrow> False | Some t \<Rightarrow> t \<noteq> [] \<and> alr_path_under h t (length t))))"

definition blocked_variables :: "string list" where
  "blocked_variables =
     [''ANDROID_ROOT'', ''ANDROID_DATA'', ''ANDROID_ART_ROOT'', ''ANDROID_I18N_ROOT'', ''ANDROID_TZDATA_ROOT'',
      ''ANDROID_ASSETS'', ''ANDROID_STORAGE'', ''BOOTCLASSPATH'', ''DEX2OATBOOTCLASSPATH'', ''SYSTEMSERVERCLASSPATH'',
      ''EXTERNAL_STORAGE'', ''PREFIX'', ''TERMUX_APK_RELEASE'', ''TERMUX_APP_PID'', ''TERMUX_IS_DEBUGGABLE_BUILD'',
      ''TERMUX_MAIN_PACKAGE_FORMAT'', ''TERMUX_VERSION'', ''TERMUX__USER_ID'', ''ANDROID_BOOTLOGO'',
      ''ANDROID_CONSOLE_LOGLEVEL'', ''ANDROID_LOG_TAGS'', ''ASEC_MOUNTPOINT'', ''DOWNLOAD_CACHE'', ''LOOP_MOUNTPOINT'',
      ''EMULATED_STORAGE_SOURCE'', ''EMULATED_STORAGE_TARGET'', ''ENC_EMULATED_STORAGE_SOURCE'',
      ''ENC_EMULATED_STORAGE_TARGET'', ''KNOX_STORAGE'', ''SECONDARY_STORAGE'', ''VENDOR_ROOT'', ''ART_APEX_DATA'',
      ''HOSTNAME'']"

definition alr_env_is_blocked :: "string \<Rightarrow> bool" where
  "alr_env_is_blocked entry =
     (let klen = fst (alr_split_env entry)
      in list_ex (\<lambda>b. length b = klen \<and> take klen entry = b) blocked_variables \<or>
         (15 < klen \<and> take 15 entry = ''ANDROID_SOCKET_'') \<or>
         (7 \<le> klen \<and> take 7 entry = ''TERMUX_'') \<or>
         (5 \<le> klen \<and> take 5 entry = ''KNOX_'') \<or>
         (4 \<le> klen \<and> take 4 entry = ''SEC_''))"

section \<open>Lists of elements\<close>

lemma colon_elems_split: "filter (\<lambda>e. e \<noteq> []) (colon_elems l) = filter (\<lambda>e. e \<noteq> []) (split_on colon l)"
proof (induction l rule: colon_elems.induct)
  case (1 p)
  show ?case
  proof (cases "colon \<in> set p")
    case True
    then obtain a b where p: "p = a @ colon # b" "colon \<notin> set a" by (metis split_list_first)
    then have "dropWhile (\<lambda>c. c \<noteq> colon) p = colon # b" "takeWhile (\<lambda>c. c \<noteq> colon) p = a"
      by (auto simp: takeWhile_append_delim dropWhile_append)
    then show ?thesis using 1 p by (subst colon_elems.simps) (simp add: split_on_append split_on_no_delim)
  next
    case False
    then have "takeWhile (\<lambda>c. c \<noteq> colon) p = p" "dropWhile (\<lambda>c. c \<noteq> colon) p = []"
      by (auto simp: takeWhile_eq_all_conv)
    then have "colon_elems p = (if p = [] then [] else [p])" by (subst colon_elems.simps) (simp only: list.case)
    then show ?thesis unfolding split_on_no_delim [OF False] by simp
  qed
qed

lemma colon_elems_member: "n \<noteq> [] \<Longrightarrow> n \<in> set (colon_elems l) \<longleftrightarrow> n \<in> set (split_on colon l)"
proof -
  assume "n \<noteq> []"
  have "set (filter (\<lambda>e. e \<noteq> []) (colon_elems l)) = set (filter (\<lambda>e. e \<noteq> []) (split_on colon l))"
    by (simp only: colon_elems_split)
  with \<open>n \<noteq> []\<close> show ?thesis by auto
qed

lemma alr_colon_contains_iff: "alr_colon_contains (Some l) (Some n) \<longleftrightarrow> n \<noteq> [] \<and> n \<in> set (split_on colon l)"
  by (cases "l = []") (auto simp: alr_colon_contains_def list_ex_iff colon_elems_member)

text \<open>Appending is joining, as long as it fits.\<close>

lemma append_elem_join:
  assumes "list_all (\<lambda>x. x \<noteq> []) xs" "s \<noteq> []"
  shows "append_elem outsz (join_with [colon] xs) s =
    (if length (join_with [colon] (xs @ [s])) < outsz then Some (join_with [colon] (xs @ [s])) else None)"
  using assms join_with_Nil_iff [of xs "[colon]"] by (auto simp: append_elem_def join_with_snoc Let_def list_all_iff)

definition guest_entries :: "string \<Rightarrow> string option \<Rightarrow> string list \<Rightarrow> string list" where
  "guest_entries i f es = filter (\<lambda>e. e \<noteq> [] \<and> \<not> is_ours i f e) es"

lemma length_join_with_le: "length (join_with d xs) \<le> length (join_with d (xs @ ys))"
  by (cases "xs = [] \<or> ys = []") (auto simp: join_with_append)

lemma carry_over_join:
  assumes "list_all (\<lambda>x. x \<noteq> []) xs" "length (join_with [colon] xs) < outsz"
  shows "carry_over outsz i f es (join_with [colon] xs) =
    (if length (join_with [colon] (xs @ guest_entries i f es)) < outsz
     then Some (join_with [colon] (xs @ guest_entries i f es)) else None)"
  using assms
proof (induction es arbitrary: xs)
  case (Cons e es)
  show ?case
  proof (cases "e \<noteq> [] \<and> \<not> is_ours i f e")
    case True
    then have g: "guest_entries i f (e # es) = e # guest_entries i f es" by (simp add: guest_entries_def)
    show ?thesis
    proof (cases "length (join_with [colon] (xs @ [e])) < outsz")
      case fits: True
      have "carry_over outsz i f es (join_with [colon] (xs @ [e])) =
          (if length (join_with [colon] ((xs @ [e]) @ guest_entries i f es)) < outsz
           then Some (join_with [colon] ((xs @ [e]) @ guest_entries i f es)) else None)"
        using Cons.prems True fits by (intro Cons.IH) simp_all
      then show ?thesis using True fits append_elem_join [OF Cons.prems(1), of e outsz] by (simp add: g)
    next
      case False
      have "length (join_with [colon] (xs @ [e])) \<le> length (join_with [colon] ((xs @ [e]) @ guest_entries i f es))"
        by (rule length_join_with_le)
      then show ?thesis using False True append_elem_join [OF Cons.prems(1), of e outsz] by (simp add: g)
    qed
  next
    case False
    then have "guest_entries i f (e # es) = guest_entries i f es" by (auto simp: guest_entries_def)
    then show ?thesis using False Cons by auto
  qed
qed (simp add: guest_entries_def)

section \<open>The preload value\<close>

definition our_entries :: "string \<Rightarrow> string option \<Rightarrow> string list" where
  "our_entries i f = (case f of None \<Rightarrow> [i] | Some f \<Rightarrow> [f, i])"

definition preload_entries :: "string \<Rightarrow> string option \<Rightarrow> string \<Rightarrow> string list" where
  "preload_entries i f cur = our_entries i f @ guest_entries i f (split_on colon cur)"

text \<open>The value in place: every entry of ours is an element.\<close>

definition preload_satisfied :: "string \<Rightarrow> string option \<Rightarrow> string \<Rightarrow> bool" where
  "preload_satisfied i f cur \<longleftrightarrow> set (our_entries i f) \<subseteq> set (split_on colon cur)"

definition ours_ok :: "string \<Rightarrow> string option \<Rightarrow> bool" where
  "ours_ok i f \<longleftrightarrow> list_all (\<lambda>e. e \<noteq> [] \<and> colon \<notin> set e) (our_entries i f)"

lemma guest_entries_elems: "guest_entries i f (colon_elems c) = guest_entries i f (split_on colon c)"
proof -
  have g: "guest_entries i f es = filter (\<lambda>e. \<not> is_ours i f e) (filter (\<lambda>e. e \<noteq> []) es)" for es
    by (simp add: guest_entries_def conj_commute)
  show ?thesis unfolding g colon_elems_split ..
qed

lemma append_elem_Nil: "s \<noteq> [] \<Longrightarrow> append_elem outsz [] s = (if length s < outsz then Some s else None)"
  using append_elem_join [of "[]" s outsz] by simp

lemma append_ours:
  assumes "ours_ok i f"
  shows "Option.bind (case f of Some f \<Rightarrow> if f \<noteq> [] then append_elem outsz [] f else Some [] | None \<Rightarrow> Some [])
      (\<lambda>out. append_elem outsz out i) =
    (if length (join_with [colon] (our_entries i f)) < outsz then Some (join_with [colon] (our_entries i f)) else None)"
proof (cases f)
  case None
  then show ?thesis using assms by (simp add: our_entries_def ours_ok_def append_elem_Nil)
next
  case (Some g)
  then have "append_elem outsz g i = (if length (join_with [colon] [g, i]) < outsz then Some (join_with [colon] [g, i]) else None)"
    using assms append_elem_join [of "[g]" i outsz] by (simp add: ours_ok_def our_entries_def)
  then show ?thesis using Some assms by (auto simp: our_entries_def ours_ok_def append_elem_Nil)
qed

lemma build_ld_preload_eq:
  assumes ok: "ours_ok i f" and sz: "2 \<le> outsz"
  shows "alr_build_ld_preload (Some cur) (Some i) f outsz =
    (let (v, changed) = (if preload_satisfied i f cur then (cur, False) else (join_with [colon] (preload_entries i f cur), True))
     in if length v < outsz then Some (v, changed) else None)"
proof -
  have i: "i \<noteq> []" using ok by (cases f) (simp_all add: ours_ok_def our_entries_def)
  have sat: "cur \<noteq> [] \<and> alr_colon_contains (Some cur) (Some i) \<and> (f = None \<or> alr_colon_contains (Some cur) f) \<longleftrightarrow>
      preload_satisfied i f cur"
    using ok i by (cases f; cases "cur = []") (auto simp: preload_satisfied_def our_entries_def alr_colon_contains_iff ours_ok_def)
  show ?thesis
  proof (cases "preload_satisfied i f cur")
    case True
    then show ?thesis using sat i sz by (auto simp: alr_build_ld_preload_def)
  next
    case False
    let ?o = "our_entries i f"
    have "list_all (\<lambda>x. x \<noteq> []) ?o" using ok by (auto simp: ours_ok_def list_all_iff)
    then have c: "length (join_with [colon] ?o) < outsz \<Longrightarrow> carry_over outsz i f (colon_elems cur) (join_with [colon] ?o) =
        (if length (join_with [colon] (preload_entries i f cur)) < outsz then Some (join_with [colon] (preload_entries i f cur)) else None)"
      unfolding preload_entries_def by (simp add: carry_over_join guest_entries_elems)
    have "length (join_with [colon] ?o) \<le> length (join_with [colon] (preload_entries i f cur))"
      unfolding preload_entries_def by (rule length_join_with_le)
    moreover have "alr_build_ld_preload (Some cur) (Some i) f outsz = map_option (\<lambda>out. (out, True))
       (Option.bind (Option.bind (case f of Some f \<Rightarrow> if f \<noteq> [] then append_elem outsz [] f else Some [] | None \<Rightarrow> Some [])
          (\<lambda>out. append_elem outsz out i)) (carry_over outsz i f (colon_elems cur)))"
      using False sat i sz by (auto simp: alr_build_ld_preload_def)
    ultimately show ?thesis using c False unfolding append_ours [OF ok] by auto
  qed
qed

lemma preload_entries_split: "ours_ok i f \<Longrightarrow> split_on colon (join_with [colon] (preload_entries i f cur)) = preload_entries i f cur"
  by (rule split_on_join)
     (auto simp: preload_entries_def our_entries_def guest_entries_def ours_ok_def dest: split_on_delim_free split: option.splits)

text \<open>The preload value is right and stable.  Given an interposer and, if enabled, a fakeroot library whose paths are
  non-empty and free of colons, and a buffer of at least two bytes: the call succeeds exactly when the value fits the
  buffer with its terminator; the value lists every library of ours; it is the old value, unchanged, when that already
  lists them, and otherwise fakeroot, the interposer and then the guest's own non-empty entries in their order; and a
  second call on the result changes nothing.\<close>

theorem ld_preload_correct:
  assumes "ours_ok i f" "2 \<le> outsz"
  shows "case alr_build_ld_preload (Some cur) (Some i) f outsz of
      None \<Rightarrow> outsz \<le> length (if preload_satisfied i f cur then cur else join_with [colon] (preload_entries i f cur))
    | Some (v, changed) \<Rightarrow>
        length v < outsz \<and> preload_satisfied i f v \<and>
        (changed \<longleftrightarrow> \<not> preload_satisfied i f cur) \<and> (\<not> changed \<longrightarrow> v = cur) \<and>
        (changed \<longrightarrow> split_on colon v = our_entries i f @ guest_entries i f (split_on colon cur)) \<and>
        alr_build_ld_preload (Some v) (Some i) f outsz = Some (v, False)"
proof -
  have s: "preload_satisfied i f (join_with [colon] (preload_entries i f cur))"
    unfolding preload_satisfied_def preload_entries_split [OF assms(1)] by (simp add: preload_entries_def)
  show ?thesis
    using s preload_entries_split [OF assms(1), of cur]
    by (auto simp: build_ld_preload_eq [OF assms] preload_entries_def split: if_splits)
qed

theorem ld_preload_correct_witness:
  "alr_build_ld_preload (Some ''/l/a.so::/b.so'') (Some ''/i.so'') (Some ''/f.so'') 64 =
     Some (''/f.so:/i.so:/l/a.so:/b.so'', True) \<and>
   alr_build_ld_preload (Some ''/f.so:/i.so:/l/a.so:/b.so'') (Some ''/i.so'') (Some ''/f.so'') 64 =
     Some (''/f.so:/i.so:/l/a.so:/b.so'', False)"
proof -
  have "ours_ok ''/i.so'' (Some ''/f.so'')" by (simp add: ours_ok_def our_entries_def)
  from ld_preload_correct [OF this, of 64 "''/l/a.so::/b.so''"]
  have "case alr_build_ld_preload (Some ''/l/a.so::/b.so'') (Some ''/i.so'') (Some ''/f.so'') 64 of None \<Rightarrow> True
     | Some (v, c) \<Rightarrow> alr_build_ld_preload (Some v) (Some ''/i.so'') (Some ''/f.so'') 64 = Some (v, False)"
    by (auto split: option.splits)
  moreover have "alr_build_ld_preload (Some ''/l/a.so::/b.so'') (Some ''/i.so'') (Some ''/f.so'') 64 =
     Some (''/f.so:/i.so:/l/a.so:/b.so'', True)" by code_simp
  ultimately show ?thesis by simp
qed

section \<open>Agreement with the C++ planner\<close>

lemma alr_split_env_eq: "split_env_entry e = (take (fst (alr_split_env e)) e, snd (alr_split_env e))"
  by (auto simp: split_env_entry_def alr_split_env_def sv_substr_def split: option.splits)

text \<open>The C rules of the standalone runtime decide as the C++ exec planner does: an entry splits into the same key
  and value, a list contains the same elements, and whether a variable is withheld from the guest depends on its key
  only.\<close>

theorem exec_rules_agree:
  "split_env_entry e = (take (fst (alr_split_env e)) e, snd (alr_split_env e)) \<and>
   alr_colon_contains (Some l) (Some n) = colon_list_contains l n \<and>
   alr_env_is_blocked e = alr_env_is_blocked (fst (split_env_entry e))"
proof (intro conjI)
  show "split_env_entry e = (take (fst (alr_split_env e)) e, snd (alr_split_env e))" by (rule alr_split_env_eq)
  show "alr_colon_contains (Some l) (Some n) = colon_list_contains l n"
    by (auto simp: alr_colon_contains_iff colon_list_contains_def list_ex_iff)
  define k where "k = fst (alr_split_env e)"
  have key: "fst (split_env_entry e) = take k e" by (simp add: alr_split_env_eq k_def)
  have "k \<le> length e" by (auto simp: k_def alr_split_env_def sv_find_def length_takeWhile_le split: option.splits)
  moreover have "CHR ''='' \<notin> set (take k e)"
  proof (cases "CHR ''='' \<in> set e")
    case True
    then have "k = length (takeWhile (\<lambda>x. x \<noteq> CHR ''='') e)" by (simp add: k_def alr_split_env_def sv_find_def)
    then show ?thesis by (metis (mono_tags, lifting) set_takeWhileD takeWhile_eq_take)
  next
    case False
    then show ?thesis by (auto dest: in_set_takeD)
  qed
  then have "alr_split_env (take k e) = (length (take k e), [])" by (simp add: alr_split_env_def sv_find_def)
  ultimately show "alr_env_is_blocked e = alr_env_is_blocked (fst (split_env_entry e))"
    unfolding alr_env_is_blocked_def key k_def [symmetric] Let_def by (auto simp: min_def)
qed

end
