(* ===== verification/Alr_Elf_Reader.thy ===== *)
theory Alr_Elf_Reader
  imports Alr_Elf Alr_Exec Alr_Words
begin

text \<open>
  The executable classifier of the standalone runtime, \<^verbatim>\<open>runtime/alr/src/common/alr_elf.c\<close>: the parser of
  \<^verbatim>\<open>#!\<close> lines, the search for \<^verbatim>\<open>PT_INTERP\<close>, the classification, the run path of a dynamic executable and the
  probe for Go programs.  The file is a parameter: \<open>rd n off\<close> are \<open>n\<close> bytes at \<open>off\<close>, or \<^const>\<open>None\<close> where
  \<^verbatim>\<open>pread\<close> returns 0; \<^verbatim>\<open>head\<close> is the list of the first \<^verbatim>\<open>n\<close> bytes.  Offsets are 64-bit words and
  wrap.  The walk over the notes of a segment may not end, so it is a partial function.
\<close>

section \<open>Interpreter lines\<close>

type_synonym reader = "nat \<Rightarrow> u64 \<Rightarrow> string option"

datatype alr_exe_kind = ExeUnsupported | ExeElfDynamic | ExeElfStatic | ExeShebang

record alr_shebang =
  sb_interp :: string
  sb_arg :: string
  sb_has_arg :: bool

definition ALR_SHEBANG_MAX :: nat where "ALR_SHEBANG_MAX = 255"

text \<open>The cut of the line at the first newline or NUL and at the limit, then the scan; \<^const>\<open>None\<close> is the result
  0.\<close>

definition shebang_text :: "string \<Rightarrow> string" where
  "shebang_text line = take ALR_SHEBANG_MAX (takeWhile (\<lambda>c. c \<noteq> CHR 0x0A \<and> c \<noteq> nul) line)"

definition alr_parse_shebang :: "string \<Rightarrow> alr_shebang option" where
  "alr_parse_shebang line =
     (let text0 = dropWhile blank (shebang_text line);
          interp = takeWhile (\<lambda>c. \<not> blank c) text0;
          tail = dropWhile blank (dropWhile (\<lambda>c. \<not> blank c) text0)
      in if text0 = [] then None
         else if interp = [] then None
         else if tail = [] then Some \<lparr>sb_interp = interp, sb_arg = [], sb_has_arg = False\<rparr>
         else let arg = rev (dropWhile blank (rev tail))
              in Some \<lparr>sb_interp = interp, sb_arg = arg, sb_has_arg = arg \<noteq> []\<rparr>)"

section \<open>Classification\<close>

definition phdr_file_off :: "elf64_ehdr \<Rightarrow> nat \<Rightarrow> u64" where
  "phdr_file_off eh i = e_phoff eh + of_nat i * ucast (e_phentsize eh)"

text \<open>The loop from index \<open>i\<close> on; the result is the return value and the string when found.\<close>

fun find_interp_from :: "reader \<Rightarrow> elf64_ehdr \<Rightarrow> nat \<Rightarrow> nat list \<Rightarrow> bool \<times> string option" where
  "find_interp_from rd eh outsz [] = (True, None)"
| "find_interp_from rd eh outsz (i # is) =
     (case rd sizeof_phdr (phdr_file_off eh i) of
        None \<Rightarrow> (False, None)
      | Some bs \<Rightarrow>
          let ph = decode_phdr bs in
          if p_type ph \<noteq> 3 then find_interp_from rd eh outsz is
          else if p_filesz ph = 0 \<or> outsz < unat (p_filesz ph) then (False, None)
          else
            (case rd (unat (p_filesz ph)) (p_offset ph) of
               None \<Rightarrow> (False, None)
             | Some name \<Rightarrow> (True, Some (takeWhile (\<lambda>c. c \<noteq> nul) (take (unat (p_filesz ph) - 1) name)))))"

definition find_interp :: "reader \<Rightarrow> elf64_ehdr \<Rightarrow> nat \<Rightarrow> bool \<times> string option" where
  "find_interp rd eh outsz =
     (if e_phentsize eh \<noteq> of_nat sizeof_phdr then (False, None)
      else if e_phnum eh = 0 \<or> 512 < e_phnum eh then (False, None)
      else find_interp_from rd eh outsz [0..<unat (e_phnum eh)])"

text \<open>The kind, the interpreter line and the string left in \<^verbatim>\<open>interp_out\<close>.  \<open>want_sb\<close> says that \<^verbatim>\<open>sb\<close> is not
  null; a missing reader or buffer is \<^const>\<open>None\<close>.\<close>

definition alr_classify ::
  "string \<Rightarrow> reader option \<Rightarrow> bool \<Rightarrow> nat option \<Rightarrow> alr_exe_kind \<times> alr_shebang option \<times> string option" where
  "alr_classify head rd want_sb interp_sz =
     (if 2 \<le> length head \<and> head ! 0 = CHR ''#'' \<and> head ! 1 = CHR ''!'' then
        (if \<not> want_sb then (ExeUnsupported, None, None)
         else
           (case alr_parse_shebang (drop 2 head) of
              None \<Rightarrow> (ExeUnsupported, None, None)
            | Some sb \<Rightarrow> (ExeShebang, Some sb, None)))
      else if length head < sizeof_ehdr then (ExeUnsupported, None, None)
      else if take 4 head \<noteq> CHR 0x7F # ''ELF'' then (ExeUnsupported, None, None)
      else
        let eh = decode_ehdr head in
        if e_ident eh ! 4 \<noteq> CHR 0x02 then (ExeUnsupported, None, None)
        else if e_ident eh ! 5 \<noteq> CHR 0x01 then (ExeUnsupported, None, None)
        else if e_machine eh \<noteq> 183 then (ExeUnsupported, None, None)
        else if e_type eh \<noteq> 2 \<and> e_type eh \<noteq> 3 then (ExeUnsupported, None, None)
        else
          (case (rd, interp_sz) of
             (Some rd, Some outsz) \<Rightarrow>
               if outsz = 0 then (ExeElfStatic, None, None)
               else
                 (case find_interp rd eh outsz of
                    (True, Some name) \<Rightarrow> (ExeElfDynamic, None, Some name)
                  | _ \<Rightarrow> (ExeElfStatic, None, None))
           | _ \<Rightarrow> (ExeElfStatic, None, None)))"

section \<open>The run path\<close>

text \<open>The program headers that matter: at most sixteen loadable segments, and the dynamic section of the last
  \<^verbatim>\<open>PT_DYNAMIC\<close>.\<close>

record rpath_scan =
  rs_loads :: "elf64_phdr list"
  rs_dyn_off :: u64
  rs_dyn_sz :: u64

definition rpath_visit :: "elf64_phdr \<Rightarrow> rpath_scan \<Rightarrow> rpath_scan" where
  "rpath_visit ph s =
     (if p_type ph = 1 \<and> length (rs_loads s) < 16 then s\<lparr>rs_loads := rs_loads s @ [ph]\<rparr>
      else if p_type ph = 2 then s\<lparr>rs_dyn_off := p_offset ph, rs_dyn_sz := p_filesz ph\<rparr>
      else s)"

fun rpath_phdrs :: "reader \<Rightarrow> elf64_ehdr \<Rightarrow> nat list \<Rightarrow> rpath_scan \<Rightarrow> rpath_scan option" where
  "rpath_phdrs rd eh [] s = Some s"
| "rpath_phdrs rd eh (i # is) s =
     (case rd sizeof_phdr (phdr_file_off eh i) of
        None \<Rightarrow> None
      | Some bs \<Rightarrow> rpath_phdrs rd eh is (rpath_visit (decode_phdr bs) s))"

record rpath_tags =
  rt_strtab :: u64
  rt_rpath :: "u64 option"
  rt_runpath :: "u64 option"

definition tag_visit :: "u64 \<Rightarrow> u64 \<Rightarrow> rpath_tags \<Rightarrow> rpath_tags" where
  "tag_visit tag v s =
     (if tag = 5 then s\<lparr>rt_strtab := v\<rparr>
      else if tag = 15 then s\<lparr>rt_rpath := Some v\<rparr>
      else if tag = 29 then s\<lparr>rt_runpath := Some v\<rparr>
      else s)"

fun rpath_dyns :: "reader \<Rightarrow> u64 \<Rightarrow> nat list \<Rightarrow> rpath_tags \<Rightarrow> rpath_tags option" where
  "rpath_dyns rd dyn_off [] s = Some s"
| "rpath_dyns rd dyn_off (k # ks) s =
     (case rd 16 (dyn_off + of_nat k) of
        None \<Rightarrow> None
      | Some bs \<Rightarrow>
          if le_field bs 0 8 = (0 :: u64) then Some s
          else rpath_dyns rd dyn_off ks (tag_visit (le_field bs 0 8) (le_field bs 8 8) s))"

definition load_covers :: "u64 \<Rightarrow> elf64_phdr \<Rightarrow> bool" where
  "load_covers va ph \<longleftrightarrow> p_vaddr ph \<le> va \<and> va < p_vaddr ph + p_filesz ph"

text \<open>The string at an offset, byte by byte, cut after \<open>m\<close> bytes.\<close>

primrec read_cstr :: "reader \<Rightarrow> u64 \<Rightarrow> nat \<Rightarrow> string option" where
  "read_cstr rd off 0 = Some []"
| "read_cstr rd off (Suc m) =
     (case rd 1 off of
        None \<Rightarrow> None
      | Some bs \<Rightarrow>
          if hd bs = nul then Some [] else map_option (Cons (hd bs)) (read_cstr rd (off + 1) m))"

text \<open>\<^const>\<open>None\<close> is the result 0; otherwise the string left in \<^verbatim>\<open>out\<close>.\<close>

definition alr_rpath :: "reader option \<Rightarrow> string \<Rightarrow> nat \<Rightarrow> string option" where
  "alr_rpath rd head outsz =
     (case rd of
        None \<Rightarrow> None
      | Some rd \<Rightarrow>
          if outsz = 0 \<or> length head < sizeof_ehdr \<or> take 4 head \<noteq> CHR 0x7F # ''ELF'' then None
          else
            let eh = decode_ehdr head in
            if e_ident eh ! 4 \<noteq> CHR 0x02 \<or> e_phentsize eh \<noteq> of_nat sizeof_phdr then None
            else if e_phnum eh = 0 \<or> 512 < e_phnum eh then None
            else
              Option.bind
                (rpath_phdrs rd eh [0..<unat (e_phnum eh)] \<lparr>rs_loads = [], rs_dyn_off = 0, rs_dyn_sz = 0\<rparr>) (\<lambda>s.
                if rs_dyn_sz s = 0 then Some []
                else if 2 ^ 20 < rs_dyn_sz s then None
                else
                  Option.bind
                    (rpath_dyns rd (rs_dyn_off s) (map (\<lambda>k. 16 * k) [0..<unat (rs_dyn_sz s) div 16])
                       \<lparr>rt_strtab = 0, rt_rpath = None, rt_runpath = None\<rparr>) (\<lambda>t.
                    if rt_strtab t = 0 \<or> (rt_rpath t = None \<and> rt_runpath t = None) then Some []
                    else
                      let want = (case rt_runpath t of Some v \<Rightarrow> v | None \<Rightarrow> the (rt_rpath t)) in
                      (case find (load_covers (rt_strtab t)) (rs_loads s) of
                         None \<Rightarrow> None
                       | Some ph \<Rightarrow>
                           read_cstr rd (p_offset ph + (rt_strtab t - p_vaddr ph) + want) (outsz - 1)))))"

section \<open>Go programs\<close>

definition pad4 :: "u32 \<Rightarrow> u32" where
  "pad4 n = (n + 3) AND NOT 3"

text \<open>The step to the next note is computed in 32 bits.\<close>

definition note_step :: "string \<Rightarrow> nat \<Rightarrow> nat" where
  "note_step buf pos = unat (12 + pad4 (le_field buf pos 4) + pad4 (le_field buf (pos + 4) 4))"

definition is_go_note :: "string \<Rightarrow> nat \<Rightarrow> bool" where
  "is_go_note buf pos \<longleftrightarrow>
     (let namesz = le_field buf pos 4 :: u32
      in (namesz = 3 \<or> namesz = 4) \<and> pos + 12 + unat namesz \<le> length buf \<and>
         take 3 (drop (pos + 12) buf) = ''Go'' @ [nul])"

partial_function (option) note_loop :: "string \<Rightarrow> nat \<Rightarrow> bool option" where
  "note_loop buf pos =
     (if pos + 12 \<le> length buf then
        (if is_go_note buf pos then Some True else note_loop buf (pos + note_step buf pos))
      else Some False)"

text \<open>The loop over the program headers; the outer \<^const>\<open>None\<close> is a call that does not return.\<close>

fun is_go_from :: "reader \<Rightarrow> elf64_ehdr \<Rightarrow> nat list \<Rightarrow> bool option" where
  "is_go_from rd eh [] = Some False"
| "is_go_from rd eh (i # is) =
     (case rd sizeof_phdr (phdr_file_off eh i) of
        None \<Rightarrow> Some False
      | Some bs \<Rightarrow>
          let ph = decode_phdr bs in
          if p_type ph \<noteq> 4 \<or> p_filesz ph < 12 then is_go_from rd eh is
          else
            (case rd (if p_filesz ph < 512 then unat (p_filesz ph) else 512) (p_offset ph) of
               None \<Rightarrow> is_go_from rd eh is
             | Some buf \<Rightarrow>
                 Option.bind (note_loop buf 0) (\<lambda>go. if go then Some True else is_go_from rd eh is)))"

definition alr_elf_is_go :: "string \<Rightarrow> reader option \<Rightarrow> bool option" where
  "alr_elf_is_go head rd =
     (case rd of
        None \<Rightarrow> Some False
      | Some rd \<Rightarrow>
          if length head < sizeof_ehdr \<or> take 4 head \<noteq> CHR 0x7F # ''ELF'' then Some False
          else
            let eh = decode_ehdr head in
            if e_ident eh ! 4 \<noteq> CHR 0x02 \<or> e_phentsize eh \<noteq> of_nat sizeof_phdr then Some False
            else if e_phnum eh = 0 \<or> 512 < e_phnum eh then Some False
            else is_go_from rd eh [0..<unat (e_phnum eh)])"

section \<open>Agreement with the C++ parser\<close>

definition rtrim :: "string \<Rightarrow> string" where
  "rtrim xs = rev (dropWhile blank (rev xs))"

lemma rtrim_blank: "list_all blank xs \<Longrightarrow> rtrim xs = []"
  by (simp add: rtrim_def list_all_iff)

lemma rtrim_append: "rtrim (xs @ ys) = (if list_all blank ys then rtrim xs else xs @ rtrim ys)"
proof (cases "list_all blank ys")
  case True
  then have "dropWhile blank (rev ys @ rev xs) = dropWhile blank (rev xs)"
    by (intro dropWhile_append2) (simp add: list_all_iff)
  with True show ?thesis by (simp add: rtrim_def)
next
  case False
  then obtain y where "y \<in> set (rev ys)" "\<not> blank y" by (auto simp: list_all_iff)
  then show ?thesis using False by (simp add: rtrim_def dropWhile_append1)
qed

lemma rtrim_no_blank_end: "xs \<noteq> [] \<Longrightarrow> \<not> blank (last xs) \<Longrightarrow> rtrim xs = xs"
  by (cases xs rule: rev_cases) (simp_all add: rtrim_def)

lemma rtrim_hd: "xs \<noteq> [] \<Longrightarrow> \<not> blank (hd xs) \<Longrightarrow> rtrim xs \<noteq> [] \<and> hd (rtrim xs) = hd xs"
proof (cases xs)
  case (Cons x ys)
  assume "\<not> blank (hd xs)"
  with Cons show ?thesis using rtrim_append [of "[x]" ys] by (auto simp: rtrim_def)
qed simp

text \<open>A trimmed line is cut into interpreter and argument in either order: first at the blank, then trimming the
  argument, or the other way round.\<close>

lemma trim_then_cut:
  assumes x: "x = [] \<or> \<not> blank (hd x)"
  defines "i \<equiv> takeWhile (\<lambda>c. \<not> blank c) x" and "a \<equiv> dropWhile blank (dropWhile (\<lambda>c. \<not> blank c) x)"
  shows "takeWhile (\<lambda>c. \<not> blank c) (rtrim x) = i \<and>
    dropWhile blank (dropWhile (\<lambda>c. \<not> blank c) (rtrim x)) = rtrim a \<and>
    (\<not> list_ex blank (rtrim x) \<longrightarrow> rtrim x = i \<and> a = [])"
proof -
  define d where "d = dropWhile (\<lambda>c. \<not> blank c) x"
  define b where "b = takeWhile blank d"
  have split: "x = i @ b @ a" by (simp add: i_def a_def b_def d_def)
  have ib: "list_all (\<lambda>c. \<not> blank c) i" by (auto simp: i_def list_all_iff dest: set_takeWhileD)
  have bb: "list_all blank b" by (auto simp: b_def list_all_iff dest: set_takeWhileD)
  have ri: "rtrim i = i"
    using ib by (cases i rule: rev_cases) (auto simp: rtrim_def)
  show ?thesis
  proof (cases "a = []")
    case True
    then have "rtrim x = i" using bb ri by (simp add: split rtrim_append)
    moreover have "takeWhile (\<lambda>c. \<not> blank c) i = i" "dropWhile (\<lambda>c. \<not> blank c) i = []"
      using ib by (auto simp: takeWhile_eq_all_conv list_all_iff)
    moreover have "rtrim [] = []" by (simp add: rtrim_def)
    moreover have "\<not> list_ex blank i" using ib by (simp add: list_all_iff list_ex_iff)
    ultimately show ?thesis using True by (simp only: dropWhile.simps simp_thms)
  next
    case False
    then have ah: "\<not> blank (hd a)" unfolding a_def by (rule hd_dropWhile)
    then have na: "\<not> list_all blank a" using False by (cases a) auto
    have b: "b \<noteq> []"
    proof
      assume "b = []"
      moreover have "d = b @ a" by (simp add: a_def b_def d_def)
      ultimately have "d = a" by simp
      moreover have "blank (hd d)" if "d \<noteq> []" using hd_dropWhile [of "\<lambda>c. \<not> blank c" x] that unfolding d_def by simp
      ultimately show False using ah False by simp
    qed
    then have bh: "blank (hd b)" using bb by (cases b) auto
    have r: "rtrim x = i @ b @ rtrim a" using na by (simp add: split rtrim_append)
    have ra: "rtrim a \<noteq> []" "\<not> blank (hd (rtrim a))" using rtrim_hd [OF False ah] ah by auto
    have "takeWhile (\<lambda>c. \<not> blank c) (i @ b @ rtrim a) = i"
      using ib bh b by (intro takeWhile_stop) (auto simp: list_all_iff)
    moreover have "dropWhile (\<lambda>c. \<not> blank c) (i @ b @ rtrim a) = b @ rtrim a"
      using ib bh b by (intro dropWhile_stop) (auto simp: list_all_iff)
    moreover have "dropWhile blank (b @ rtrim a) = rtrim a"
      using bb ra by (intro dropWhile_stop) (auto simp: list_all_iff)
    moreover have "list_ex blank (rtrim x)" using b bh by (cases b) (auto simp: r)
    ultimately show ?thesis by (simp add: r)
  qed
qed

lemma takeWhile_conj: "list_all Q (takeWhile P xs) \<Longrightarrow> takeWhile (\<lambda>c. P c \<and> Q c) xs = takeWhile P xs"
  by (induction xs) auto

definition first_line :: "string \<Rightarrow> string" where
  "first_line bytes = takeWhile (\<lambda>c. c \<noteq> CHR 0x0A) bytes"

text \<open>The two parsers of interpreter lines agree: where the line has no carriage return and no NUL and is within
  the kernel's limit, the C parser finds an interpreter exactly when the C++ parser does, and then both find the same
  interpreter and the same single argument.\<close>

theorem shebang_parsers_agree:
  assumes "CHR 0x0D \<notin> set (first_line (drop 2 bytes))" "nul \<notin> set (first_line (drop 2 bytes))"
    and "length (first_line (drop 2 bytes)) \<le> 255"
  shows "alr_parse_shebang (drop 2 bytes) =
    (let sh = parse_shebang bytes
     in if sh_interpreter sh = [] then None
        else Some \<lparr>sb_interp = sh_interpreter sh, sb_arg = sh_argument sh, sb_has_arg = sh_argument sh \<noteq> []\<rparr>)"
proof -
  define l where "l = first_line (drop 2 bytes)"
  define x where "x = dropWhile blank l"
  have "takeWhile (\<lambda>c. c \<noteq> CHR 0x0A \<and> c \<noteq> nul) (drop 2 bytes) = l"
    using assms(2) unfolding l_def first_line_def by (intro takeWhile_conj) (auto simp: list_all_iff)
  then have c: "shebang_text (drop 2 bytes) = l" using assms(3) by (simp add: shebang_text_def ALR_SHEBANG_MAX_def l_def)
  have e: "takeWhile (\<lambda>c. \<not> eol_char c) (drop 2 bytes) = l"
    using assms(1) takeWhile_conj [of "\<lambda>c. c \<noteq> CHR 0x0D" "\<lambda>c. c \<noteq> CHR 0x0A" "drop 2 bytes"]
    unfolding l_def first_line_def eol_char_def by (auto simp: list_all_iff)
  have x: "x = [] \<or> \<not> blank (hd x)" unfolding x_def using hd_dropWhile by blast
  define i a where "i = takeWhile (\<lambda>c. \<not> blank c) x" and "a = dropWhile blank (dropWhile (\<lambda>c. \<not> blank c) x)"
  have cut: "takeWhile (\<lambda>c. \<not> blank c) (rtrim x) = i" "dropWhile blank (dropWhile (\<lambda>c. \<not> blank c) (rtrim x)) = rtrim a"
    "\<not> list_ex blank (rtrim x) \<Longrightarrow> rtrim x = i \<and> a = []"
    using trim_then_cut [OF x] unfolding i_def a_def by blast+
  have nil: "rtrim [] = []" by (simp add: rtrim_def)
  have p: "parse_shebang bytes = \<lparr>sh_interpreter = i, sh_argument = rtrim a\<rparr>"
    unfolding parse_shebang_def e x_def [symmetric] rtrim_def [symmetric] Let_def cut(1,2) using cut(3) nil by simp
  have "alr_parse_shebang (drop 2 bytes) = (if x = [] \<or> i = [] then None else if a = []
      then Some \<lparr>sb_interp = i, sb_arg = [], sb_has_arg = False\<rparr>
      else Some \<lparr>sb_interp = i, sb_arg = rtrim a, sb_has_arg = rtrim a \<noteq> []\<rparr>)"
    unfolding alr_parse_shebang_def c x_def [symmetric] rtrim_def [symmetric] Let_def i_def [symmetric] a_def [symmetric]
    by simp
  moreover have "i = []" if "x = []" using that by (simp add: i_def)
  ultimately show ?thesis unfolding p Let_def using nil by simp
qed

text \<open>The same line through both parsers.\<close>

theorem shebang_parsers_agree_witness:
  "alr_parse_shebang ('' /usr/bin/env  -S a b '' @ [CHR 0x0A]) =
     Some \<lparr>sb_interp = ''/usr/bin/env'', sb_arg = ''-S a b'', sb_has_arg = True\<rparr>"
proof -
  define bytes where "bytes = ''#! /usr/bin/env  -S a b '' @ [CHR 0x0A]"
  have "CHR 0x0D \<notin> set (first_line (drop 2 bytes))" "nul \<notin> set (first_line (drop 2 bytes))"
    "length (first_line (drop 2 bytes)) \<le> 255"
    by (simp_all add: bytes_def first_line_def)
  from shebang_parsers_agree [OF this]
  show ?thesis by (simp add: bytes_def parse_shebang_def eol_char_def blank_def)
qed

section \<open>The walk over the notes\<close>

text \<open>The offsets at which the walk looks at a note.\<close>

inductive note_reached :: "string \<Rightarrow> nat \<Rightarrow> bool" for buf :: string where
  first: "12 \<le> length buf \<Longrightarrow> note_reached buf 0"
| step: "note_reached buf pos \<Longrightarrow> \<not> is_go_note buf pos \<Longrightarrow> pos + note_step buf pos + 12 \<le> length buf \<Longrightarrow>
    note_reached buf (pos + note_step buf pos)"

lemma note_reached_fits: "note_reached buf pos \<Longrightarrow> pos + 12 \<le> length buf"
  by (induction rule: note_reached.induct) simp_all

text \<open>At a note that is not Go's and whose step is zero the walk does not move.\<close>

definition stuck_note :: "string \<Rightarrow> nat \<Rightarrow> bool" where
  "stuck_note buf pos \<longleftrightarrow> \<not> is_go_note buf pos \<and> note_step buf pos = 0"

lemma note_loop_stuck: "stuck_note buf pos \<Longrightarrow> pos + 12 \<le> length buf \<Longrightarrow> note_loop buf pos = None"
proof (rule ccontr)
  assume stuck: "stuck_note buf pos" "pos + 12 \<le> length buf" and "note_loop buf pos \<noteq> None"
  then obtain r where "note_loop buf pos = Some r" by blast
  then have "\<not> (stuck_note buf pos \<and> pos + 12 \<le> length buf)"
    by (rule note_loop.raw_induct [of "\<lambda>buf pos r. \<not> (stuck_note buf pos \<and> pos + 12 \<le> length buf)", rotated])
       (force simp: stuck_note_def split: if_splits)
  with stuck show False by simp
qed

lemma note_loop_unfold:
  "note_reached buf pos \<Longrightarrow> note_loop buf pos =
     (if is_go_note buf pos then Some True else note_loop buf (pos + note_step buf pos))"
  using note_reached_fits [of buf pos] by (subst note_loop.simps) simp

lemma note_loop_reached: "note_reached buf pos \<Longrightarrow> note_loop buf pos = note_loop buf 0"
  by (induction rule: note_reached.induct) (simp_all add: note_loop_unfold)

lemma note_loop_end: "length buf < pos + 12 \<Longrightarrow> note_loop buf pos = Some False"
  by (subst note_loop.simps) simp

text \<open>With no Go note and no stuck note on its way, the walk runs off the end.\<close>

lemma note_loop_runs_off:
  assumes "note_reached buf pos" "\<And>p. note_reached buf p \<Longrightarrow> \<not> is_go_note buf p \<and> note_step buf p \<noteq> 0"
  shows "note_loop buf pos = Some False"
  using assms(1)
proof (induction "length buf - pos" arbitrary: pos rule: less_induct)
  case less
  let ?next = "pos + note_step buf pos"
  note here = assms(2) [OF less.prems]
  have "note_loop buf ?next = Some False"
  proof (cases "?next + 12 \<le> length buf")
    case True
    then have "note_reached buf ?next" using less.prems here by (intro note_reached.step) simp_all
    moreover have "length buf - ?next < length buf - pos" using here True by (simp add: diff_less_mono2)
    ultimately show ?thesis using less.hyps by blast
  next
    case False
    then show ?thesis by (simp add: note_loop_end)
  qed
  then show ?case using here less.prems by (simp add: note_loop_unfold)
qed


text \<open>A file whose one note has sizes 4294967280 and 4 is not answered.\<close>

definition wrapping_note :: string where
  "wrapping_note = map char_of [0xF0, 0xFF, 0xFF, 0xFF, 4, 0, 0, 0, 0, 0, 0, 0 :: nat]"

lemma go_probe_hangs: "note_loop wrapping_note 0 = None"
proof (rule note_loop_stuck)
  show "stuck_note wrapping_note 0" by code_simp
  show "0 + 12 \<le> length wrapping_note" by (simp add: wrapping_note_def)
qed

section \<open>The run path of a file\<close>

text \<open>The reference: all program headers, the entries of the dynamic section up to the first null tag, the last entry
  of a tag, and the string at the place the tags name.\<close>

definition file_phdrs :: "reader \<Rightarrow> elf64_ehdr \<Rightarrow> elf64_phdr list option" where
  "file_phdrs rd eh =
     those (map (\<lambda>i. map_option decode_phdr (rd sizeof_phdr (phdr_file_off eh i))) [0..<unat (e_phnum eh)])"

definition read_dyn :: "reader \<Rightarrow> u64 \<Rightarrow> nat \<Rightarrow> (u64 \<times> u64) option" where
  "read_dyn rd dyn_off k = map_option (\<lambda>bs. (le_field bs 0 8, le_field bs 8 8)) (rd 16 (dyn_off + of_nat k))"

definition file_dyns :: "reader \<Rightarrow> elf64_phdr \<Rightarrow> (u64 \<times> u64) list option" where
  "file_dyns rd d =
     those (takeWhile (\<lambda>e. map_option fst e \<noteq> Some 0)
       (map (\<lambda>k. read_dyn rd (p_offset d) (16 * k)) [0..<unat (p_filesz d) div 16]))"

definition last_value :: "u64 \<Rightarrow> (u64 \<times> u64) list \<Rightarrow> u64 option" where
  "last_value tag es = map_option snd (find (\<lambda>e. fst e = tag) (rev es))"

definition rpath_reference :: "reader \<Rightarrow> elf64_ehdr \<Rightarrow> nat \<Rightarrow> string option" where
  "rpath_reference rd eh outsz =
     Option.bind (file_phdrs rd eh) (\<lambda>phs.
       case find (\<lambda>ph. p_type ph = 2) (rev phs) of
         None \<Rightarrow> Some []
       | Some d \<Rightarrow>
           if p_filesz d = 0 then Some []
           else if 2 ^ 20 < p_filesz d then None
           else
             Option.bind (file_dyns rd d) (\<lambda>es.
               case (last_value 5 es, if last_value 29 es \<noteq> None then last_value 29 es else last_value 15 es) of
                 (Some strtab, Some want) \<Rightarrow>
                   if strtab = 0 then Some []
                   else
                     Option.bind (find (load_covers strtab) (take 16 (filter (\<lambda>ph. p_type ph = 1) phs))) (\<lambda>ph.
                       read_cstr rd (p_offset ph + (strtab - p_vaddr ph) + want) (outsz - 1))
               | _ \<Rightarrow> Some []))"

lemma find_append: "find P (xs @ ys) = (case find P xs of None \<Rightarrow> find P ys | Some x \<Rightarrow> Some x)"
  by (induction xs) auto

lemma rpath_phdrs_fold:
  "rpath_phdrs rd eh is s =
     map_option (\<lambda>phs. fold rpath_visit phs s)
       (those (map (\<lambda>i. map_option decode_phdr (rd sizeof_phdr (phdr_file_off eh i))) is))"
proof (induction "is" arbitrary: s)
  case (Cons i "is")
  show ?case
    by (cases "rd sizeof_phdr (phdr_file_off eh i)")
       (simp_all add: Cons.IH option.map_comp comp_def)
qed simp

lemma rpath_visit_fields:
  "rs_loads (rpath_visit ph s) = (if p_type ph = 1 \<and> length (rs_loads s) < 16 then rs_loads s @ [ph] else rs_loads s)"
  "rs_dyn_off (rpath_visit ph s) = (if p_type ph = 2 then p_offset ph else rs_dyn_off s)"
  "rs_dyn_sz (rpath_visit ph s) = (if p_type ph = 2 then p_filesz ph else rs_dyn_sz s)"
  by (auto simp: rpath_visit_def)

lemma rpath_visit_loads:
  "length (rs_loads s) \<le> 16 \<Longrightarrow>
   rs_loads (fold rpath_visit phs s) = take 16 (rs_loads s @ filter (\<lambda>ph. p_type ph = 1) phs)"
  by (induction phs arbitrary: s) (simp_all add: rpath_visit_fields take_Cons' Suc_diff_le)

lemma rpath_visit_dyn:
  "rs_dyn_off (fold rpath_visit phs s) =
     (case find (\<lambda>ph. p_type ph = 2) (rev phs) of None \<Rightarrow> rs_dyn_off s | Some d \<Rightarrow> p_offset d)"
  "rs_dyn_sz (fold rpath_visit phs s) =
     (case find (\<lambda>ph. p_type ph = 2) (rev phs) of None \<Rightarrow> rs_dyn_sz s | Some d \<Rightarrow> p_filesz d)"
  by (induction phs arbitrary: s) (auto simp: rpath_visit_fields find_append split: option.splits)

lemma rpath_dyns_fold:
  "rpath_dyns rd off ks s =
     map_option (\<lambda>es. fold (\<lambda>(tag, v). tag_visit tag v) es s)
       (those (takeWhile (\<lambda>e. map_option fst e \<noteq> Some 0) (map (read_dyn rd off) ks)))"
proof (induction ks arbitrary: s)
  case (Cons k ks)
  show ?case
    by (cases "rd 16 (off + of_nat k)")
       (simp_all add: Cons.IH read_dyn_def option.map_comp comp_def)
qed simp

lemma tag_visit_fold:
  fixes es s
  defines "t \<equiv> fold (\<lambda>(tag, v). tag_visit tag v) es s"
  shows "rt_strtab t = (case last_value 5 es of None \<Rightarrow> rt_strtab s | Some v \<Rightarrow> v) \<and>
    rt_rpath t = (case last_value 15 es of None \<Rightarrow> rt_rpath s | Some v \<Rightarrow> Some v) \<and>
    rt_runpath t = (case last_value 29 es of None \<Rightarrow> rt_runpath s | Some v \<Rightarrow> Some v)"
  unfolding t_def
proof (induction es arbitrary: s)
  case (Cons e es)
  obtain tag v where e: "e = (tag, v)" by (cases e)
  show ?case
    using Cons.IH [of "tag_visit tag v s"]
    by (auto simp: e tag_visit_def last_value_def find_append split: option.splits)
qed (simp add: last_value_def)

definition elf_header_ok :: "string \<Rightarrow> bool" where
  "elf_header_ok head \<longleftrightarrow>
     sizeof_ehdr \<le> length head \<and> take 4 head = CHR 0x7F # ''ELF'' \<and> head ! 4 = CHR 0x02 \<and>
     e_phentsize (decode_ehdr head) = of_nat sizeof_phdr \<and>
     e_phnum (decode_ehdr head) \<noteq> 0 \<and> e_phnum (decode_ehdr head) \<le> 512"

lemma ident_4: "sizeof_ehdr \<le> length head \<Longrightarrow> e_ident (decode_ehdr head) ! 4 = head ! 4"
  by (simp add: decode_ehdr_def sizeof_ehdr_def)

lemma alr_rpath_unfold:
  assumes "0 < outsz" and "elf_header_ok head"
  shows "alr_rpath (Some rd) head outsz =
    Option.bind (map_option (\<lambda>phs. fold rpath_visit phs \<lparr>rs_loads = [], rs_dyn_off = 0, rs_dyn_sz = 0\<rparr>) (file_phdrs rd (decode_ehdr head))) (\<lambda>s.
      if rs_dyn_sz s = 0 then Some []
      else if 2 ^ 20 < rs_dyn_sz s then None
      else
        Option.bind
          (rpath_dyns rd (rs_dyn_off s) (map (\<lambda>k. 16 * k) [0..<unat (rs_dyn_sz s) div 16])
             \<lparr>rt_strtab = 0, rt_rpath = None, rt_runpath = None\<rparr>) (\<lambda>t.
          if rt_strtab t = 0 \<or> (rt_rpath t = None \<and> rt_runpath t = None) then Some []
          else
            let want = (case rt_runpath t of Some v \<Rightarrow> v | None \<Rightarrow> the (rt_rpath t)) in
            (case find (load_covers (rt_strtab t)) (rs_loads s) of
               None \<Rightarrow> None
             | Some ph \<Rightarrow> read_cstr rd (p_offset ph + (rt_strtab t - p_vaddr ph) + want) (outsz - 1))))"
  using assms by (auto simp: alr_rpath_def elf_header_ok_def ident_4 rpath_phdrs_fold file_phdrs_def Let_def)

text \<open>C29. The run path is the one the linker would use.  For every file and header: an unsupported header gives no
  answer; otherwise the answer is that of the reference, which reads all program headers, takes the last dynamic
  section, its entries up to the first null tag, the last \<^verbatim>\<open>DT_RUNPATH\<close> or, only without one, the last
  \<^verbatim>\<open>DT_RPATH\<close>, and the string at the file offset which the first covering one of the first sixteen loadable
  segments gives to the string table; a missing section, tag or string table gives the empty string.\<close>

theorem rpath_matches_reference:
  "alr_rpath (Some rd) head outsz =
     (if 0 < outsz \<and> elf_header_ok head then rpath_reference rd (decode_ehdr head) outsz else None)"
proof (cases "0 < outsz \<and> elf_header_ok head")
  case False
  then show ?thesis by (auto simp: alr_rpath_def elf_header_ok_def ident_4 not_le Let_def)
next
  case True
  then have ok: "0 < outsz" "elf_header_ok head" by simp_all
  let ?eh = "decode_ehdr head" and ?s0 = "\<lparr>rs_loads = [], rs_dyn_off = 0, rs_dyn_sz = 0\<rparr>"
  note unfold = alr_rpath_unfold [OF ok, of rd]
  show ?thesis
  proof (cases "file_phdrs rd ?eh")
    case None
    then show ?thesis using ok by (simp add: unfold rpath_reference_def)
  next
    case (Some phs)
    note scan = rpath_visit_dyn [of phs ?s0] rpath_visit_loads [of ?s0 phs]
    show ?thesis
    proof (cases "find (\<lambda>ph. p_type ph = 2) (rev phs)")
      case None
      then show ?thesis using ok Some scan by (simp add: unfold rpath_reference_def)
    next
      case d: (Some d)
      then have "rs_dyn_off (fold rpath_visit phs ?s0) = p_offset d" "rs_dyn_sz (fold rpath_visit phs ?s0) = p_filesz d"
        "rs_loads (fold rpath_visit phs ?s0) = take 16 (filter (\<lambda>ph. p_type ph = 1) phs)"
        using scan by simp_all
      note fields = this
      let ?t0 = "\<lparr>rt_strtab = 0, rt_rpath = None, rt_runpath = None\<rparr>"
      have dyns: "rpath_dyns rd (p_offset d) (map (\<lambda>k. 16 * k) [0..<unat (p_filesz d) div 16]) ?t0 =
          map_option (\<lambda>es. fold (\<lambda>(tag, v). tag_visit tag v) es ?t0) (file_dyns rd d)"
        by (simp add: rpath_dyns_fold file_dyns_def comp_def)
      show ?thesis
      proof (cases "file_dyns rd d")
        case None
        then show ?thesis using ok Some d by (simp add: unfold rpath_reference_def fields dyns)
      next
        case es: (Some es)
        note tags = tag_visit_fold [of es ?t0]
        show ?thesis
          using ok Some d es tags
          by (cases "last_value 5 es"; cases "last_value 29 es"; cases "last_value 15 es")
             (auto simp: unfold rpath_reference_def fields dyns split: option.splits)
      qed
    qed
  qed
qed

end
