(* ===== verification/Doh_Wire.thy ===== *)
theory Doh_Wire
  imports Alr_Words
begin

text \<open>
  The wire format of the DNS-over-HTTPS resolver, \<^verbatim>\<open>alr_doh/alr_doh_wire.c\<close>: the query encoder, base64url, the
  skipping of compressed names and the response parser.  A message is the list of its bytes and the offsets are natural
  numbers below its length, so that no \<^verbatim>\<open>size_t\<close> sum can wrap.  Every read goes through \<open>byte_at\<close>, whose
  \<^const>\<open>None\<close> is a read behind the end; that the parser never does one is a theorem and not a convention of the
  model.  The result of the encoders is the filled part of the buffer.
\<close>

section \<open>Bytes\<close>

datatype doh_error = DohBadType | DohBadName | DohSmallBuf | DohTrunc | DohFormat

definition put16 :: "u16 \<Rightarrow> byte list" where
  "put16 v = [ucast (drop_bit 8 v), ucast (v AND 0xFF)]"

definition byte_at :: "byte list \<Rightarrow> nat \<Rightarrow> byte option" where
  "byte_at msg i = (if i < length msg then Some (msg ! i) else None)"

definition get16 :: "byte list \<Rightarrow> nat \<Rightarrow> u16 option" where
  "get16 msg i =
     Option.bind (byte_at msg i) (\<lambda>p0.
       Option.bind (byte_at msg (i + 1)) (\<lambda>p1. Some (push_bit 8 (ucast p0) OR ucast p1)))"

section \<open>The query encoder\<close>

abbreviation dot :: char where "dot \<equiv> CHR ''.''"

definition ALR_DOH_MAX_QNAME :: nat where "ALR_DOH_MAX_QNAME = 255"

text \<open>The loop over the labels: \<open>p\<close> is the rest of the name, \<open>out\<close> what was written and \<open>n\<close> is
  \<^verbatim>\<open>name_octets\<close>.\<close>

function build_labels :: "nat \<Rightarrow> string \<Rightarrow> byte list \<Rightarrow> nat \<Rightarrow> doh_error + byte list \<times> nat" where
  "build_labels outcap p out n =
     (if p = [] then Inr (out, n)
      else
        let lab = takeWhile (\<lambda>c. c \<noteq> dot) p;
            rest = dropWhile (\<lambda>c. c \<noteq> dot) p;
            llen = length lab
        in if llen = 0 then (if rest = [] then Inr (out, n) else Inl DohBadName)
           else if 63 < llen then Inl DohBadName
           else if ALR_DOH_MAX_QNAME < n + (1 + llen) then Inl DohBadName
           else if outcap < length out + 1 + llen + 1 + 4 then Inl DohSmallBuf
           else build_labels outcap (drop 1 rest) (out @ of_nat llen # map (\<lambda>c. of_nat (byte_of c)) lab) (n + (1 + llen)))"
  by pat_completeness auto
termination
proof (relation "measure (\<lambda>(_, p, _, _). length p)")
  fix outcap :: nat and p :: string and out :: "byte list" and n :: nat and lab rest llen
  assume "p \<noteq> []" "rest = dropWhile (\<lambda>c. c \<noteq> dot) p"
  then show "((outcap, drop 1 rest, out @ of_nat llen # map (\<lambda>c. of_nat (byte_of c)) lab, n + (1 + llen)), outcap, p, out, n)
      \<in> measure (\<lambda>(_, p, _, _). length p)"
    using length_dropWhile_le [of "\<lambda>c. c \<noteq> dot" p] by (cases p) (auto simp: less_Suc_eq_le)
qed simp

declare build_labels.simps [simp del]

definition query_header :: "u16 \<Rightarrow> byte list" where
  "query_header msg_id = put16 msg_id @ put16 0x0100 @ put16 1 @ put16 0 @ put16 0 @ put16 0"

text \<open>A null name is \<^const>\<open>None\<close>.\<close>

definition alr_doh_build_query :: "u16 \<Rightarrow> string option \<Rightarrow> u16 \<Rightarrow> nat \<Rightarrow> doh_error + byte list" where
  "alr_doh_build_query msg_id qname qtype outcap =
     (if qtype \<noteq> 1 \<and> qtype \<noteq> 28 then Inl DohBadType
      else
        case qname of
          None \<Rightarrow> Inl DohBadName
        | Some p \<Rightarrow>
            if outcap < 12 + 1 + 4 then Inl DohSmallBuf
            else
              case build_labels outcap p (query_header msg_id) 0 of
                Inl e \<Rightarrow> Inl e
              | Inr (out, n) \<Rightarrow>
                  if outcap < length out + 1 + 4 then Inl DohSmallBuf
                  else if n = 0 then Inl DohBadName
                  else Inr (out @ [0] @ put16 qtype @ put16 1))"

section \<open>Base 64\<close>

definition b64_alphabet :: string where
  "b64_alphabet = ''ABCDEFGHIJKLMNOPQRSTUVWXYZabcdefghijklmnopqrstuvwxyz0123456789-_''"

definition b64_char :: "u32 \<Rightarrow> nat \<Rightarrow> char" where
  "b64_char v shift = b64_alphabet ! unat (drop_bit shift v AND 0x3F)"

fun b64_encode :: "byte list \<Rightarrow> string" where
  "b64_encode (a # b # c # rest) =
     (let v = push_bit 16 (ucast a) OR push_bit 8 (ucast b) OR ucast c :: u32
      in [b64_char v 18, b64_char v 12, b64_char v 6, b64_char v 0] @ b64_encode rest)"
| "b64_encode [a] = (let v = push_bit 16 (ucast a) :: u32 in [b64_char v 18, b64_char v 12])"
| "b64_encode [a, b] =
     (let v = push_bit 16 (ucast a) OR push_bit 8 (ucast b) :: u32 in [b64_char v 18, b64_char v 12, b64_char v 6])"
| "b64_encode [] = []"

definition b64_need :: "nat \<Rightarrow> nat" where
  "b64_need inlen = (inlen div 3) * 4 + (if inlen mod 3 \<noteq> 0 then inlen mod 3 + 1 else 0)"

definition alr_doh_base64url :: "byte list \<Rightarrow> nat \<Rightarrow> doh_error + string" where
  "alr_doh_base64url input outcap =
     (if outcap < b64_need (length input) + 1 then Inl DohSmallBuf else Inr (b64_encode input))"

section \<open>The response parser\<close>

definition MAX_JUMPS :: nat where "MAX_JUMPS = 64"

text \<open>The loop of \<^verbatim>\<open>skip_name\<close>: \<open>adv\<close> is \<^verbatim>\<open>advanced_to\<close> once a pointer was taken.  The inner \<^const>\<open>None\<close> is
  the result -1, the outer one a read behind the end.\<close>

function skip_name_loop :: "byte list \<Rightarrow> nat \<Rightarrow> nat option \<Rightarrow> nat \<Rightarrow> nat option option" where
  "skip_name_loop msg i adv jumps =
     (if length msg \<le> i then Some None
      else
        case byte_at msg i of
          None \<Rightarrow> None
        | Some b \<Rightarrow>
            if b AND 0xC0 = 0xC0 then
              (if length msg \<le> i + 1 then Some None
               else
                 let adv = (case adv of None \<Rightarrow> Some (i + 2) | Some e \<Rightarrow> Some e) in
                 if MAX_JUMPS < jumps + 1 then Some None
                 else
                   case byte_at msg (i + 1) of
                     None \<Rightarrow> None
                   | Some c \<Rightarrow>
                       let off = push_bit 8 (unat (b AND 0x3F)) OR unat c in
                       if length msg \<le> off then Some None else skip_name_loop msg off adv (jumps + 1))
            else if b AND 0xC0 \<noteq> 0 then Some None
            else if b = 0 then Some (Some (case adv of None \<Rightarrow> i + 1 | Some e \<Rightarrow> e))
            else if length msg < i + (1 + unat b) then Some None
            else skip_name_loop msg (i + (1 + unat b)) adv jumps)"
  by pat_completeness auto
termination
  by (relation "measures [\<lambda>(_, _, _, jumps). MAX_JUMPS - jumps, \<lambda>(msg, i, _, _). length msg - i]") auto

declare skip_name_loop.simps [simp del]

definition skip_name :: "byte list \<Rightarrow> nat \<Rightarrow> nat option option" where
  "skip_name msg pos = skip_name_loop msg pos None 0"

record alr_doh_result =
  dr_rcode :: int
  dr_addrs :: "byte list list"

definition ALR_DOH_MAX_ADDRS :: nat where "ALR_DOH_MAX_ADDRS = 16"

primrec skip_questions :: "byte list \<Rightarrow> nat \<Rightarrow> nat \<Rightarrow> (doh_error + nat) option" where
  "skip_questions msg 0 pos = Some (Inr pos)"
| "skip_questions msg (Suc q) pos =
     Option.bind (skip_name msg pos) (\<lambda>r.
       case r of
         None \<Rightarrow> Some (Inl DohFormat)
       | Some pos \<Rightarrow>
           if length msg < pos + 4 then Some (Inl DohTrunc) else skip_questions msg q (pos + 4))"

text \<open>The copy of an address, byte by byte.\<close>

definition copy_bytes :: "byte list \<Rightarrow> nat \<Rightarrow> nat \<Rightarrow> byte list option" where
  "copy_bytes msg pos n = those (map (\<lambda>i. byte_at msg (pos + i)) [0..<n])"

text \<open>The loop over the answers; the addresses collected so far stay in the result where it stops early.\<close>

primrec walk_answers ::
  "byte list \<Rightarrow> u16 \<Rightarrow> nat \<Rightarrow> nat \<Rightarrow> byte list list \<Rightarrow> (doh_error option \<times> byte list list) option" where
  "walk_answers msg want_qtype 0 pos addrs = Some (None, addrs)"
| "walk_answers msg want_qtype (Suc a) pos addrs =
     Option.bind (skip_name msg pos) (\<lambda>r.
       case r of
         None \<Rightarrow> Some (Some DohFormat, addrs)
       | Some pos \<Rightarrow>
           if length msg < pos + 10 then Some (Some DohTrunc, addrs)
           else
             Option.bind (get16 msg pos) (\<lambda>rtype.
             Option.bind (get16 msg (pos + 2)) (\<lambda>rclass.
             Option.bind (get16 msg (pos + 8)) (\<lambda>rdlen.
               let pos = pos + 10 in
               if length msg < pos + unat rdlen then Some (Some DohTrunc, addrs)
               else
                 let want_len = (if want_qtype = 1 then 4 else 16) in
                 if rclass = 1 \<and> rtype = want_qtype \<and> unat rdlen = want_len \<and> length addrs < ALR_DOH_MAX_ADDRS
                 then Option.bind (copy_bytes msg pos want_len) (\<lambda>ad.
                        walk_answers msg want_qtype a (pos + unat rdlen) (addrs @ [ad]))
                 else walk_answers msg want_qtype a (pos + unat rdlen) addrs))))"

text \<open>The status and the result; \<^const>\<open>None\<close> as a status is \<^verbatim>\<open>ALR_DOH_OK\<close>.\<close>

definition alr_doh_parse_response ::
  "byte list \<Rightarrow> u16 \<Rightarrow> u16 \<Rightarrow> (doh_error option \<times> alr_doh_result) option" where
  "alr_doh_parse_response msg want_id want_qtype =
     (let res = \<lparr>dr_rcode = -1, dr_addrs = []\<rparr> in
      if length msg < 12 then Some (Some DohTrunc, res)
      else
        Option.bind (get16 msg 0) (\<lambda>msg_id.
        Option.bind (get16 msg 2) (\<lambda>flags.
        Option.bind (get16 msg 4) (\<lambda>qdcount.
        Option.bind (get16 msg 6) (\<lambda>ancount.
          if msg_id \<noteq> want_id then Some (Some DohFormat, res)
          else if flags AND 0x8000 = 0 then Some (Some DohFormat, res)
          else
            let res = res\<lparr>dr_rcode := int (unat (flags AND 0x000F))\<rparr> in
            Option.bind (skip_questions msg (unat qdcount) 12) (\<lambda>r.
              case r of
                Inl e \<Rightarrow> Some (Some e, res)
              | Inr pos \<Rightarrow>
                  if dr_rcode res \<noteq> 0 then Some (None, res)
                  else
                    map_option (\<lambda>(st, addrs). (st, res\<lparr>dr_addrs := addrs\<rparr>))
                      (walk_answers msg want_qtype (unat ancount) pos [])))))))"

section \<open>Names\<close>

text \<open>A name at an offset: labels up to the root label, where a pointer stands for the rest.  \<open>j\<close> is the number of
  pointers taken and \<open>e\<close> the offset behind the bytes of the name in place.\<close>

inductive dns_name :: "byte list \<Rightarrow> nat \<Rightarrow> nat \<Rightarrow> nat \<Rightarrow> bool" for msg :: "byte list" where
  root: "i < length msg \<Longrightarrow> msg ! i = 0 \<Longrightarrow> dns_name msg i 0 (i + 1)"
| label: "i < length msg \<Longrightarrow> msg ! i AND 0xC0 = 0 \<Longrightarrow> msg ! i \<noteq> 0 \<Longrightarrow> dns_name msg (i + (1 + unat (msg ! i))) j e \<Longrightarrow>
    dns_name msg i j e"
| pointer: "i + 1 < length msg \<Longrightarrow> msg ! i AND 0xC0 = 0xC0 \<Longrightarrow>
    dns_name msg (push_bit 8 (unat (msg ! i AND 0x3F)) OR unat (msg ! (i + 1))) j e \<Longrightarrow> dns_name msg i (j + 1) (i + 2)"

lemma dns_name_start: "dns_name msg i j e \<Longrightarrow> i < length msg"
  by (induction rule: dns_name.induct) simp_all

lemma dns_name_end: "dns_name msg i j e \<Longrightarrow> i < e \<and> e \<le> length msg"
  by (induction rule: dns_name.induct) auto

lemma C0_not_zero: "(b :: byte) AND 0xC0 = 0xC0 \<Longrightarrow> b AND 0xC0 \<noteq> 0"
  by simp

text \<open>The skipping loop finds exactly the names, up to the limit on pointers, and never reads behind the end.\<close>

lemma skip_name_loop_sound:
  "\<exists>r. skip_name_loop msg i adv jumps = Some r \<and>
     (\<forall>e. r = Some e \<longrightarrow> (\<exists>j e'. dns_name msg i j e' \<and> (j = 0 \<or> jumps + j \<le> MAX_JUMPS) \<and> e = (case adv of None \<Rightarrow> e' | Some a \<Rightarrow> a)))"
proof (induction msg i adv jumps rule: skip_name_loop.induct)
  case (1 msg i adv jumps)
  show ?case
  proof (cases "i < length msg")
    case False
    then show ?thesis by (subst skip_name_loop.simps) simp
  next
    case inside: True
    then have b: "byte_at msg i = Some (msg ! i)" by (simp add: byte_at_def)
    let ?b = "msg ! i"
    consider (ptr) "?b AND 0xC0 = 0xC0" | (bad) "?b AND 0xC0 \<noteq> 0xC0" "?b AND 0xC0 \<noteq> 0" | (zero) "?b AND 0xC0 = 0" "?b = 0"
      | (lab) "?b AND 0xC0 = 0" "?b \<noteq> 0" by blast
    then show ?thesis
    proof cases
      case ptr
      let ?off = "push_bit 8 (unat (?b AND 0x3F)) OR unat (msg ! (i + 1))"
      let ?adv = "case adv of None \<Rightarrow> Some (i + 2) | Some e \<Rightarrow> Some e"
      have u: "skip_name_loop msg i adv jumps =
          (if length msg \<le> i + 1 \<or> MAX_JUMPS < jumps + 1 \<or> length msg \<le> ?off then Some None
           else skip_name_loop msg ?off ?adv (jumps + 1))"
        using inside b ptr by (subst skip_name_loop.simps) (simp add: byte_at_def Let_def)
      show ?thesis
      proof (cases "length msg \<le> i + 1 \<or> MAX_JUMPS < jumps + 1 \<or> length msg \<le> ?off")
        case True
        then show ?thesis using u by simp
      next
        case False
        then have "\<exists>r. skip_name_loop msg ?off ?adv (jumps + 1) = Some r \<and>
          (\<forall>e. r = Some e \<longrightarrow> (\<exists>j e'. dns_name msg ?off j e' \<and> (j = 0 \<or> jumps + 1 + j \<le> MAX_JUMPS) \<and>
             e = (case ?adv of None \<Rightarrow> e' | Some a \<Rightarrow> a)))"
          using inside b ptr by (intro "1.IH"(1)) (auto simp: byte_at_def)
        then obtain r where r: "skip_name_loop msg i adv jumps = Some r"
          and h: "\<And>e. r = Some e \<Longrightarrow> \<exists>j e'. dns_name msg ?off j e' \<and> (j = 0 \<or> jumps + 1 + j \<le> MAX_JUMPS) \<and>
             e = (case ?adv of None \<Rightarrow> e' | Some a \<Rightarrow> a)"
          using u False by auto
        have "\<exists>j e'. dns_name msg i j e' \<and> (j = 0 \<or> jumps + j \<le> MAX_JUMPS) \<and> e = (case adv of None \<Rightarrow> e' | Some a \<Rightarrow> a)"
          if "r = Some e" for e
        proof -
          from h [OF that] obtain j e' where n: "dns_name msg ?off j e'" "j = 0 \<or> jumps + 1 + j \<le> MAX_JUMPS"
            "e = (case ?adv of None \<Rightarrow> e' | Some a \<Rightarrow> a)" by blast
          have "dns_name msg i (j + 1) (i + 2)" using False ptr n(1) by (intro dns_name.pointer) simp_all
          moreover have "jumps + (j + 1) \<le> MAX_JUMPS" using n(2) False by auto
          ultimately show ?thesis using n(3) by (cases adv) auto
        qed
        then show ?thesis using r by blast
      qed
    next
      case bad
      then show ?thesis using inside b by (subst skip_name_loop.simps) simp
    next
      case zero
      then have "skip_name_loop msg i adv jumps = Some (Some (case adv of None \<Rightarrow> i + 1 | Some e \<Rightarrow> e))"
        using inside b by (subst skip_name_loop.simps) simp
      then show ?thesis using dns_name.root [OF inside zero(2)] by (metis option.inject)
    next
      case lab
      let ?i = "i + (1 + unat ?b)"
      have u: "skip_name_loop msg i adv jumps = (if length msg < ?i then Some None else skip_name_loop msg ?i adv jumps)"
        using inside b lab by (subst skip_name_loop.simps) simp
      show ?thesis
      proof (cases "length msg < ?i")
        case False
        then have "\<exists>r. skip_name_loop msg ?i adv jumps = Some r \<and>
          (\<forall>e. r = Some e \<longrightarrow> (\<exists>j e'. dns_name msg ?i j e' \<and> (j = 0 \<or> jumps + j \<le> MAX_JUMPS) \<and> e = (case adv of None \<Rightarrow> e' | Some a \<Rightarrow> a)))"
          using inside b lab by (intro "1.IH"(2)) auto
        then show ?thesis using u False dns_name.label [OF inside lab] by (metis (lifting))
      qed (use u in simp)
    qed
  qed
qed

lemma skip_name_loop_complete:
  "dns_name msg i j e \<Longrightarrow> jumps + j \<le> MAX_JUMPS \<Longrightarrow>
   skip_name_loop msg i adv jumps = Some (Some (case adv of None \<Rightarrow> e | Some a \<Rightarrow> a))"
proof (induction arbitrary: adv jumps rule: dns_name.induct)
  case (root i)
  then show ?case by (subst skip_name_loop.simps) (simp add: byte_at_def)
next
  case (label i j e)
  moreover have "\<not> length msg < i + (1 + unat (msg ! i))" using dns_name_start [OF label.hyps(4)] by simp
  ultimately show ?case by (subst skip_name_loop.simps) (simp add: byte_at_def)
next
  case (pointer i j e)
  let ?off = "push_bit 8 (unat (msg ! i AND 0x3F)) OR unat (msg ! (i + 1))"
  have "skip_name_loop msg ?off (case adv of None \<Rightarrow> Some (i + 2) | Some e \<Rightarrow> Some e) (jumps + 1) =
      Some (Some (case adv of None \<Rightarrow> i + 2 | Some a \<Rightarrow> a))"
    using pointer by (subst pointer.IH) (auto split: option.splits)
  moreover have "\<not> length msg \<le> ?off" using dns_name_start [OF pointer.hyps(3)] by simp
  ultimately show ?case using pointer.hyps(1,2) pointer.prems
    by (subst skip_name_loop.simps) (simp add: byte_at_def Let_def)
qed

lemma skip_name_iff: "skip_name msg pos = Some (Some e) \<longleftrightarrow> (\<exists>j \<le> MAX_JUMPS. dns_name msg pos j e)"
proof
  assume "skip_name msg pos = Some (Some e)"
  then show "\<exists>j \<le> MAX_JUMPS. dns_name msg pos j e"
    using skip_name_loop_sound [of msg pos None 0] by (auto simp: skip_name_def)
next
  assume "\<exists>j \<le> MAX_JUMPS. dns_name msg pos j e"
  then show "skip_name msg pos = Some (Some e)"
    using skip_name_loop_complete [of msg pos _ e 0 None] by (auto simp: skip_name_def)
qed

lemma skip_name_total: "skip_name msg pos \<noteq> None"
  using skip_name_loop_sound [of msg pos None 0] by (auto simp: skip_name_def)

lemma skip_name_cases:
  obtains "skip_name msg pos = Some None" | e where "skip_name msg pos = Some (Some e)" "pos < e" "e \<le> length msg"
proof -
  obtain r where r: "skip_name msg pos = Some r" using skip_name_total by blast
  show ?thesis
  proof (cases r)
    case (Some e)
    then obtain j where "dns_name msg pos j e" using r skip_name_iff by blast
    then show ?thesis using that(2) r Some dns_name_end by blast
  qed (use r that(1) in simp)
qed

section \<open>Messages\<close>

definition be16 :: "byte list \<Rightarrow> nat \<Rightarrow> u16" where
  "be16 msg i = push_bit 8 (ucast (msg ! i)) OR ucast (msg ! (i + 1))"

lemma get16_be16 [simp]: "i + 1 < length msg \<Longrightarrow> get16 msg i = Some (be16 msg i)"
  by (simp add: get16_def byte_at_def be16_def)

lemma those_Some_map: "those (map (\<lambda>x. Some (f x)) xs) = Some (map f xs)"
  by (induction xs) simp_all

lemma copy_bytes_eq [simp]: "pos + n \<le> length msg \<Longrightarrow> copy_bytes msg pos n = Some (take n (drop pos msg))"
proof -
  assume n: "pos + n \<le> length msg"
  then have "map (\<lambda>i. byte_at msg (pos + i)) [0..<n] = map (\<lambda>i. Some (msg ! (pos + i))) [0..<n]"
    by (simp add: byte_at_def)
  moreover have "map (\<lambda>i. msg ! (pos + i)) [0..<n] = take n (drop pos msg)"
    using n by (intro nth_equalityI) simp_all
  ultimately show ?thesis unfolding copy_bytes_def by (metis those_Some_map)
qed

text \<open>A resource record: type, class and data.  \<open>answers msg pos rrs\<close> says that the records \<open>rrs\<close> stand one after
  the other from \<open>pos\<close> on.\<close>

type_synonym rr = "u16 \<times> u16 \<times> byte list"

fun answers :: "byte list \<Rightarrow> nat \<Rightarrow> rr list \<Rightarrow> bool" where
  "answers msg pos [] \<longleftrightarrow> True"
| "answers msg pos ((rtype, rclass, rdata) # rrs) \<longleftrightarrow>
     (\<exists>e. (\<exists>j \<le> MAX_JUMPS. dns_name msg pos j e) \<and> e + 10 + length rdata \<le> length msg \<and>
        be16 msg e = rtype \<and> be16 msg (e + 2) = rclass \<and> unat (be16 msg (e + 8)) = length rdata \<and>
        take (length rdata) (drop (e + 10) msg) = rdata \<and> answers msg (e + 10 + length rdata) rrs)"

fun questions :: "byte list \<Rightarrow> nat \<Rightarrow> nat \<Rightarrow> nat \<Rightarrow> bool" where
  "questions msg 0 pos e \<longleftrightarrow> e = pos"
| "questions msg (Suc q) pos e \<longleftrightarrow>
     (\<exists>m. (\<exists>j \<le> MAX_JUMPS. dns_name msg pos j m) \<and> m + 4 \<le> length msg \<and> questions msg q (m + 4) e)"

definition addr_len :: "u16 \<Rightarrow> nat" where
  "addr_len qtype = (if qtype = 1 then 4 else 16)"

definition wanted :: "u16 \<Rightarrow> rr list \<Rightarrow> byte list list" where
  "wanted qtype rrs =
     map (\<lambda>(_, _, rdata). rdata)
       (filter (\<lambda>(rtype, rclass, rdata). rclass = 1 \<and> rtype = qtype \<and> length rdata = addr_len qtype) rrs)"

lemma skip_questions_iff:
  "skip_questions msg q pos \<noteq> None \<and> (skip_questions msg q pos = Some (Inr e) \<longleftrightarrow> questions msg q pos e)"
proof (induction q arbitrary: pos)
  case (Suc q)
  show ?case
  proof (cases rule: skip_name_cases [of msg pos])
    case 1
    then show ?thesis using skip_name_iff [of msg pos] by auto
  next
    case (2 m)
    then have "(\<exists>j \<le> MAX_JUMPS. dns_name msg pos j x) \<longleftrightarrow> x = m" for x using skip_name_iff [of msg pos x] by auto
    then show ?thesis using 2 Suc.IH [of "m + 4"] by auto
  qed
qed auto

text \<open>One answer, and the walk over all of them.\<close>

lemma walk_answers_step:
  assumes "skip_name msg pos = Some (Some e)" "e + 10 + unat (be16 msg (e + 8)) \<le> length msg"
  shows "walk_answers msg qtype (Suc a) pos addrs =
    walk_answers msg qtype a (e + 10 + unat (be16 msg (e + 8)))
      (if be16 msg (e + 2) = 1 \<and> be16 msg e = qtype \<and> unat (be16 msg (e + 8)) = addr_len qtype \<and>
          length addrs < ALR_DOH_MAX_ADDRS
       then addrs @ [take (addr_len qtype) (drop (e + 10) msg)] else addrs)"
  using assms by (simp add: addr_len_def Let_def)

lemma walk_answers_stop:
  assumes "skip_name msg pos = Some (Some e)" "length msg < e + 10 \<or> length msg < e + 10 + unat (be16 msg (e + 8))"
  shows "walk_answers msg qtype (Suc a) pos addrs = Some (Some DohTrunc, addrs)"
  using assms by (cases "length msg < e + 10") (simp_all add: Let_def)

definition address_of :: "byte list \<Rightarrow> nat \<Rightarrow> byte list \<Rightarrow> bool" where
  "address_of msg n ad \<longleftrightarrow> length ad = n \<and> (\<exists>p. p + n \<le> length msg \<and> ad = take n (drop p msg))"

lemma walk_answers_safe:
  assumes "list_all (address_of msg (addr_len qtype)) addrs" "length addrs \<le> ALR_DOH_MAX_ADDRS"
  shows "\<exists>st as. walk_answers msg qtype a pos addrs = Some (st, as) \<and> list_all (address_of msg (addr_len qtype)) as \<and>
    length as \<le> ALR_DOH_MAX_ADDRS"
  using assms
proof (induction a arbitrary: pos addrs)
  case (Suc a)
  show ?case
  proof (cases rule: skip_name_cases [of msg pos])
    case 1
    then show ?thesis using Suc.prems by simp
  next
    case (2 e)
    show ?thesis
    proof (cases "e + 10 + unat (be16 msg (e + 8)) \<le> length msg")
      case True
      show ?thesis unfolding walk_answers_step [OF 2(1) True]
        using Suc.prems True by (intro Suc.IH) (auto simp: address_of_def)
    next
      case False
      then show ?thesis using Suc.prems by (subst walk_answers_stop [OF 2(1)]) auto
    qed
  qed
qed simp

lemma walk_answers_iff:
  assumes "length addrs \<le> ALR_DOH_MAX_ADDRS"
  shows "walk_answers msg qtype a pos addrs = Some (None, as) \<longleftrightarrow>
    (\<exists>rrs. length rrs = a \<and> answers msg pos rrs \<and> as = take ALR_DOH_MAX_ADDRS (addrs @ wanted qtype rrs))"
  using assms
proof (induction a arbitrary: pos addrs)
  case 0
  then show ?case by (auto simp: wanted_def)
next
  case (Suc a)
  show ?case
  proof (cases rule: skip_name_cases [of msg pos])
    case 1
    then have "\<not> (\<exists>j \<le> MAX_JUMPS. dns_name msg pos j e)" for e using skip_name_iff [of msg pos e] by simp
    then have "\<not> answers msg pos (rr # rrs)" for rr rrs by (cases rr) auto
    then show ?thesis using 1 by (auto simp: length_Suc_conv)
  next
    case (2 e)
    then have e: "(\<exists>j \<le> MAX_JUMPS. dns_name msg pos j x) \<longleftrightarrow> x = e" for x using skip_name_iff [of msg pos x] by auto
    define n where "n = unat (be16 msg (e + 8))"
    define data where "data = take n (drop (e + 10) msg)"
    show ?thesis
    proof (cases "e + 10 + n \<le> length msg")
      case True
      have len: "length data = n" using True by (simp add: data_def)
      define addrs' where "addrs' = (if be16 msg (e + 2) = 1 \<and> be16 msg e = qtype \<and> n = addr_len qtype \<and>
          length addrs < ALR_DOH_MAX_ADDRS then addrs @ [data] else addrs)"
      have ans: "answers msg pos ((t, c, d) # rrs) \<longleftrightarrow>
          (t, c, d) = (be16 msg e, be16 msg (e + 2), data) \<and> answers msg (e + 10 + n) rrs" for t c d rrs
        using True len by (auto simp: e n_def data_def)
      have "walk_answers msg qtype (Suc a) pos addrs = walk_answers msg qtype a (e + 10 + n) addrs'"
        unfolding walk_answers_step [OF 2(1) True [unfolded n_def]] by (simp add: n_def data_def addrs'_def)
      also have "\<dots> = Some (None, as) \<longleftrightarrow> (\<exists>rrs. length rrs = a \<and> answers msg (e + 10 + n) rrs \<and>
          as = take ALR_DOH_MAX_ADDRS (addrs' @ wanted qtype rrs))"
        using Suc.prems by (intro Suc.IH) (auto simp: addrs'_def)
      also have "\<dots> \<longleftrightarrow> (\<exists>rrs. length rrs = Suc a \<and> answers msg pos rrs \<and>
          as = take ALR_DOH_MAX_ADDRS (addrs @ wanted qtype rrs))"
      proof -
        have "take ALR_DOH_MAX_ADDRS (addrs' @ wanted qtype rrs) =
            take ALR_DOH_MAX_ADDRS (addrs @ wanted qtype ((be16 msg e, be16 msg (e + 2), data) # rrs))" for rrs
          using Suc.prems len by (auto simp: addrs'_def wanted_def take_Cons')
        moreover have "(\<exists>rrs. length rrs = Suc a \<and> answers msg pos rrs \<and> Q rrs) \<longleftrightarrow> (\<exists>rrs. length rrs = a \<and>
            answers msg (e + 10 + n) rrs \<and> Q ((be16 msg e, be16 msg (e + 2), data) # rrs))" (is "?l \<longleftrightarrow> ?r") for Q
        proof
          show "?l \<Longrightarrow> ?r" by (auto simp: length_Suc_conv ans simp del: answers.simps(2))
        next
          assume ?r
          then obtain rrs where "length rrs = a" "answers msg (e + 10 + n) rrs"
            "Q ((be16 msg e, be16 msg (e + 2), data) # rrs)" by blast
          then show ?l by (intro exI [of _ "(be16 msg e, be16 msg (e + 2), data) # rrs"]) (simp add: ans del: answers.simps(2))
        qed
        ultimately show ?thesis by simp
      qed
      finally show ?thesis .
    next
      case False
      then have "walk_answers msg qtype (Suc a) pos addrs = Some (Some DohTrunc, addrs)"
        by (intro walk_answers_stop [OF 2(1)]) (simp add: n_def)
      moreover have "\<not> answers msg pos (rr # rrs)" for rr rrs using False by (cases rr) (auto simp: e n_def)
      ultimately show ?thesis by (auto simp: length_Suc_conv)
    qed
  qed
qed

lemma parse_response_safe:
  "\<exists>st res. alr_doh_parse_response msg want_id qtype = Some (st, res) \<and>
     length (dr_addrs res) \<le> 16 \<and> list_all (address_of msg (addr_len qtype)) (dr_addrs res)"
proof (cases "length msg < 12")
  case True
  then show ?thesis by (simp add: alr_doh_parse_response_def Let_def)
next
  case False
  define q where "q = skip_questions msg (unat (be16 msg 4)) 12"
  obtain r where r: "q = Some r" using skip_questions_iff [of msg "unat (be16 msg 4)" 12] unfolding q_def by blast
  have walk: "\<exists>st as. walk_answers msg qtype (unat (be16 msg 6)) pos [] = Some (st, as) \<and>
      list_all (address_of msg (addr_len qtype)) as \<and> length as \<le> 16" for pos
    using walk_answers_safe [of msg qtype "[]" "unat (be16 msg 6)" pos] by (simp add: ALR_DOH_MAX_ADDRS_def)
  show ?thesis
  proof (cases r)
    case (Inr pos)
    obtain st as where "walk_answers msg qtype (unat (be16 msg 6)) pos [] = Some (st, as)"
      "list_all (address_of msg (addr_len qtype)) as" "length as \<le> 16" using walk [of pos] by blast
    then show ?thesis using False r Inr by (simp add: alr_doh_parse_response_def Let_def q_def)
  qed (use False r in \<open>simp add: alr_doh_parse_response_def Let_def q_def\<close>)
qed

text \<open>Parsing a response is memory-safe and bounded for every byte string a server may send: the parser returns,
  with no read behind the end of the message, whatever pointers the names hold; and whether it succeeds or not, it
  holds at most sixteen addresses, each a run of bytes of the message, four long for an A query and sixteen
  otherwise.\<close>

theorem doh_parse_safe:
  "\<exists>st res. alr_doh_parse_response msg want_id qtype = Some (st, res) \<and>
     length (dr_addrs res) \<le> 16 \<and> list_all (address_of msg (addr_len qtype)) (dr_addrs res)"
  by (rule parse_response_safe)

text \<open>What a response is: a header with the wanted number and the response bit, the questions and, where the server
  reports no error, the announced number of answers.\<close>

definition dns_response :: "byte list \<Rightarrow> u16 \<Rightarrow> u16 \<Rightarrow> int \<Rightarrow> byte list list \<Rightarrow> bool" where
  "dns_response msg want_id qtype rcode as \<longleftrightarrow>
     12 \<le> length msg \<and> be16 msg 0 = want_id \<and> be16 msg 2 AND 0x8000 \<noteq> 0 \<and>
     rcode = int (unat (be16 msg 2 AND 0x000F)) \<and>
     (\<exists>pos. questions msg (unat (be16 msg 4)) 12 pos \<and>
        (if rcode = 0 then
           \<exists>rrs. length rrs = unat (be16 msg 6) \<and> answers msg pos rrs \<and> as = take 16 (wanted qtype rrs)
         else as = []))"

text \<open>C26. The parser accepts exactly the responses, with exactly their addresses: it returns success with a return code
  and a list of addresses just when the bytes are a response to the query with that code, and the list is that of the
  first sixteen address records of the wanted type and class, in order, across any canonical-name records between
  them.\<close>

theorem doh_parse_exact:
  "alr_doh_parse_response msg want_id qtype = Some (None, \<lparr>dr_rcode = rcode, dr_addrs = as\<rparr>) \<longleftrightarrow>
     dns_response msg want_id qtype rcode as"
proof (cases "12 \<le> length msg \<and> be16 msg 0 = want_id \<and> be16 msg 2 AND 0x8000 \<noteq> 0")
  case False
  then show ?thesis by (auto simp: alr_doh_parse_response_def Let_def dns_response_def)
next
  case True
  define q where "q = skip_questions msg (unat (be16 msg 4)) 12"
  have q: "q = Some (Inr pos) \<longleftrightarrow> questions msg (unat (be16 msg 4)) 12 pos" for pos
    using skip_questions_iff [of msg "unat (be16 msg 4)" 12] by (simp add: q_def)
  obtain r where r: "q = Some r" using skip_questions_iff [of msg "unat (be16 msg 4)" 12] unfolding q_def by blast
  have walk: "walk_answers msg qtype (unat (be16 msg 6)) pos [] = Some (None, as) \<longleftrightarrow>
      (\<exists>rrs. length rrs = unat (be16 msg 6) \<and> answers msg pos rrs \<and> as = take 16 (wanted qtype rrs))" for pos
    using walk_answers_iff [of "[]" msg qtype "unat (be16 msg 6)" pos as] by (simp add: ALR_DOH_MAX_ADDRS_def)
  show ?thesis
  proof (cases r)
    case (Inl e)
    then show ?thesis using True r q by (auto simp: alr_doh_parse_response_def Let_def dns_response_def q_def [symmetric])
  next
    case (Inr pos)
    then have "questions msg (unat (be16 msg 4)) 12 x \<longleftrightarrow> x = pos" for x using q [of x] r by auto
    then show ?thesis
      using True r Inr walk [of pos]
      by (auto simp: alr_doh_parse_response_def Let_def dns_response_def q_def [symmetric])
  qed
qed

section \<open>Queries\<close>

text \<open>The labels of a name, where one trailing dot is tolerated, and their encoding.\<close>

definition dns_labels :: "string \<Rightarrow> string list" where
  "dns_labels p = (let ls = split_on dot p in if last ls = [] then butlast ls else ls)"

definition encode_labels :: "string list \<Rightarrow> byte list" where
  "encode_labels ls = concat (map (\<lambda>l. of_nat (length l) # map (\<lambda>c. of_nat (byte_of c)) l) ls)"

definition labels_ok :: "string list \<Rightarrow> bool" where
  "labels_ok ls \<longleftrightarrow> list_all (\<lambda>l. l \<noteq> [] \<and> length l \<le> 63) ls"

lemma dns_labels_Nil: "dns_labels [] = []"
  by (simp add: dns_labels_def)

lemma dns_labels_single: "p \<noteq> [] \<Longrightarrow> dot \<notin> set p \<Longrightarrow> dns_labels p = [p]"
  by (simp add: dns_labels_def split_on_no_delim)

lemma dns_labels_Cons: "dot \<notin> set l \<Longrightarrow> dns_labels (l @ dot # p) = l # dns_labels p"
  by (simp add: dns_labels_def split_on_append split_on_no_delim Let_def)

text \<open>The three ways a rest of the name is read: nothing left, a last label, a label before a dot.\<close>

lemma name_cases:
  obtains "p = []" | "p \<noteq> []" "dot \<notin> set p" | l r where "p = l @ dot # r" "dot \<notin> set l"
  by (metis split_list_first)

lemma takeWhile_dot: "dot \<notin> set l \<Longrightarrow> takeWhile (\<lambda>c. c \<noteq> dot) (l @ dot # r) = l \<and> dropWhile (\<lambda>c. c \<noteq> dot) (l @ dot # r) = dot # r"
  by (induction l) auto

lemma takeWhile_no_dot: "dot \<notin> set p \<Longrightarrow> takeWhile (\<lambda>c. c \<noteq> dot) p = p \<and> dropWhile (\<lambda>c. c \<noteq> dot) p = []"
  by (induction p) auto

lemma build_labels_big:
  assumes "272 \<le> outcap" "length out = 12 + n" "n \<le> 255"
  shows "build_labels outcap p out n =
    (if labels_ok (dns_labels p) \<and> n + length (encode_labels (dns_labels p)) \<le> 255
     then Inr (out @ encode_labels (dns_labels p), n + length (encode_labels (dns_labels p))) else Inl DohBadName)"
  using assms
proof (induction p arbitrary: out n rule: measure_induct_rule [of length])
  case (less p)
  show ?case
  proof (cases rule: name_cases [of p])
    case 1
    then show ?thesis using less.prems
      by (subst build_labels.simps) (simp add: dns_labels_Nil encode_labels_def labels_ok_def)
  next
    case 2
    have "build_labels outcap [] out' m = Inr (out', m)" for out' m by (subst build_labels.simps) simp
    then show ?thesis using less.prems 2
      by (subst build_labels.simps)
         (auto simp: takeWhile_no_dot dns_labels_single encode_labels_def labels_ok_def ALR_DOH_MAX_QNAME_def Let_def)
  next
    case (3 l r)
    let ?out = "out @ of_nat (length l) # map (\<lambda>c. of_nat (byte_of c)) l" and ?n = "n + (1 + length l)"
    note tw = takeWhile_dot [OF 3(2), of r]
    have "build_labels outcap p out n =
        (if l = [] \<or> 63 < length l \<or> 255 < ?n then Inl DohBadName else build_labels outcap r ?out ?n)"
      using less.prems 3 tw by (subst build_labels.simps) (auto simp: ALR_DOH_MAX_QNAME_def Let_def)
    moreover have "build_labels outcap r ?out ?n =
        (if labels_ok (dns_labels r) \<and> ?n + length (encode_labels (dns_labels r)) \<le> 255
         then Inr (?out @ encode_labels (dns_labels r), ?n + length (encode_labels (dns_labels r))) else Inl DohBadName)"
      if "?n \<le> 255" using less.prems that 3(1) by (intro less.IH) simp_all
    ultimately show ?thesis
      by (auto simp: 3(1) dns_labels_Cons [OF 3(2)] labels_ok_def encode_labels_def)
  qed
qed

text \<open>An encoded name is a name without pointers.\<close>

lemma small_label: "0 < n \<Longrightarrow> n \<le> 63 \<Longrightarrow> (of_nat n :: byte) AND 0xC0 = 0 \<and> (of_nat n :: byte) \<noteq> 0 \<and> unat (of_nat n :: byte) = n"
proof -
  assume n: "0 < n" "n \<le> 63"
  then have u: "unat (of_nat n :: byte) = n" by (simp add: unsigned_of_nat take_bit_nat_eq_self)
  moreover have "(of_nat n :: byte) AND 0xC0 = 0"
  proof -
    have "take_bit 6 n = n" using n by (simp add: take_bit_nat_eq_self)
    then have "(of_nat n :: byte) = take_bit 6 (of_nat n)" by (metis of_nat_take_bit)
    also have "\<dots> AND 0xC0 = 0" by (simp add: take_bit_eq_mask and.assoc mask_eq_exp_minus_1)
    finally show ?thesis .
  qed
  moreover have "(of_nat n :: byte) \<noteq> 0" using u n by (metis unat_0 less_irrefl)
  ultimately show ?thesis by blast
qed

lemma dns_name_labels:
  "labels_ok ls \<Longrightarrow>
   dns_name (pre @ encode_labels ls @ 0 # post) (length pre) 0 (length pre + length (encode_labels ls) + 1)"
proof (induction ls arbitrary: pre)
  case Nil
  show ?case using dns_name.root [of "length pre" "pre @ 0 # post"] by (simp add: encode_labels_def)
next
  case (Cons l ls)
  let ?enc = "of_nat (length l) # map (\<lambda>c. of_nat (byte_of c)) l :: byte list"
  have enc: "encode_labels (l # ls) = ?enc @ encode_labels ls" by (simp add: encode_labels_def)
  have l: "0 < length l" "length l \<le> 63" using Cons.prems by (simp_all add: labels_ok_def)
  let ?msg = "pre @ encode_labels (l # ls) @ 0 # post"
  have b: "?msg ! length pre = of_nat (length l)" by (simp add: enc nth_append)
  then have u: "unat (?msg ! length pre) = length l" using small_label [OF l] by simp
  have ih: "dns_name ((pre @ ?enc) @ encode_labels ls @ 0 # post) (length (pre @ ?enc)) 0
      (length (pre @ ?enc) + length (encode_labels ls) + 1)"
    using Cons.prems by (intro Cons.IH) (simp add: labels_ok_def)
  have msg: "?msg = (pre @ ?enc) @ encode_labels ls @ 0 # post" by (simp add: enc)
  have pos: "length pre + (1 + unat (?msg ! length pre)) = length (pre @ ?enc)" by (simp add: u)
  have fin: "length pre + length (encode_labels (l # ls)) + 1 = length (pre @ ?enc) + length (encode_labels ls) + 1"
    by (simp add: enc)
  show ?case
  proof (rule dns_name.label)
    show "length pre < length ?msg" by simp
    show "?msg ! length pre AND 0xC0 = 0" "?msg ! length pre \<noteq> 0" unfolding b using small_label [OF l] by blast+
    show "dns_name ?msg (length pre + (1 + unat (?msg ! length pre))) 0 (length pre + length (encode_labels (l # ls)) + 1)"
      unfolding pos fin unfolding msg by (rule ih)
  qed
qed

definition valid_qname :: "string \<Rightarrow> bool" where
  "valid_qname p \<longleftrightarrow>
     dns_labels p \<noteq> [] \<and> labels_ok (dns_labels p) \<and> length (encode_labels (dns_labels p)) \<le> 255"

definition query_of :: "u16 \<Rightarrow> string \<Rightarrow> u16 \<Rightarrow> byte list" where
  "query_of msg_id p qtype = query_header msg_id @ encode_labels (dns_labels p) @ [0] @ put16 qtype @ put16 1"

lemma length_query_header [simp]: "length (query_header msg_id) = 12"
  by (simp add: query_header_def put16_def)

lemma encode_labels_Nil_iff: "encode_labels ls = [] \<longleftrightarrow> ls = []"
  by (cases ls) (simp_all add: encode_labels_def)

lemma build_query_big:
  assumes "qtype = 1 \<or> qtype = 28" "272 \<le> outcap"
  shows "alr_doh_build_query msg_id (Some p) qtype outcap =
    (if valid_qname p then Inr (query_of msg_id p qtype) else Inl DohBadName)"
  using assms build_labels_big [of outcap "query_header msg_id" 0 p] encode_labels_Nil_iff [of "dns_labels p"]
  by (auto simp: alr_doh_build_query_def valid_qname_def query_of_def put16_def)

lemma build_query_bounded: "alr_doh_build_query msg_id qname qtype outcap = Inr q \<Longrightarrow> length q \<le> outcap"
  by (auto simp: alr_doh_build_query_def put16_def Let_def split: if_splits option.splits sum.splits)

text \<open>Queries are encoded right.  No query is longer than the buffer; and in a buffer of at least 272 bytes the
  encoder accepts exactly the names with one or more labels of one to 63 octets, optionally with one trailing dot, whose
  labels take at most 255 octets, and refuses every other name as a bad name; an accepted name gives the header, its
  labels, the root label, the type and the class, and the parser's own name skipping reads the name back and lands on
  the type.\<close>

theorem doh_query_correct:
  assumes "qtype = 1 \<or> qtype = 28" "272 \<le> outcap"
  shows "case alr_doh_build_query msg_id (Some p) qtype outcap of
      Inl e \<Rightarrow> e = DohBadName \<and> \<not> valid_qname p
    | Inr q \<Rightarrow> valid_qname p \<and> q = query_of msg_id p qtype \<and> length q \<le> outcap \<and>
        skip_name q 12 = Some (Some (length q - 4)) \<and> get16 q (length q - 4) = Some qtype"
proof (cases "valid_qname p")
  case False
  then show ?thesis by (simp add: build_query_big [OF assms])
next
  case True
  let ?q = "query_of msg_id p qtype"
  have "labels_ok (dns_labels p)" using True by (simp add: valid_qname_def)
  from dns_name_labels [OF this, of "query_header msg_id" "put16 qtype @ put16 1"]
  have "dns_name ?q 12 0 (length ?q - 4)" by (simp add: query_of_def put16_def)
  then have "skip_name ?q 12 = Some (Some (length ?q - 4))" using skip_name_iff [of ?q 12 "length ?q - 4"] by blast
  moreover have "get16 ?q (length ?q - 4) = Some qtype"
    using assms(1) by (auto simp: query_of_def put16_def be16_def nth_append)
  moreover have "length ?q \<le> outcap" using build_query_big [OF assms, of msg_id p] True build_query_bounded by simp
  ultimately show ?thesis using True by (simp add: build_query_big [OF assms])
qed

text \<open>A query for one name, and one that is refused.\<close>

theorem doh_query_correct_witness:
  "alr_doh_build_query 7 (Some ''ab.c.'') 28 512 =
     Inr [0, 7, 1, 0, 0, 1, 0, 0, 0, 0, 0, 0, 2, 97, 98, 1, 99, 0, 0, 28, 0, 1] \<and>
   alr_doh_build_query 7 (Some ''ab..c'') 28 512 = Inl DohBadName"
proof -
  have "\<not> valid_qname ''ab..c''" "query_of 7 ''ab.c.'' 28 = [0, 7, 1, 0, 0, 1, 0, 0, 0, 0, 0, 0, 2, 97, 98, 1, 99, 0, 0, 28, 0, 1]"
    "valid_qname ''ab.c.''"
    by code_simp+
  then show ?thesis
    using doh_query_correct [where qtype = 28 and outcap = 512 and msg_id = 7 and p = "''ab.c.''"]
      doh_query_correct [where qtype = 28 and outcap = 512 and msg_id = 7 and p = "''ab..c''"]
    by (auto split: sum.splits)
qed

text \<open>The limit on the name leaves out the root label: a name of 256 octets on the wire is accepted.\<close>

definition longest_name :: string where
  "longest_name = (let l = replicate 63 CHR ''a'' @ ''.'' in l @ l @ l @ replicate 62 CHR ''a'')"

lemma name_of_256_octets:
  "valid_qname longest_name \<and> length (encode_labels (dns_labels longest_name) @ [0]) = 256"
  by code_simp

section \<open>Decoding base 64\<close>

definition b64_value :: "char \<Rightarrow> u32" where
  "b64_value c = of_nat (length (takeWhile (\<lambda>x. x \<noteq> c) b64_alphabet))"

fun b64_decode :: "string \<Rightarrow> byte list" where
  "b64_decode (a # b # c # d # rest) =
     (let v = push_bit 18 (b64_value a) OR push_bit 12 (b64_value b) OR push_bit 6 (b64_value c) OR b64_value d
      in [ucast (drop_bit 16 v), ucast (drop_bit 8 v), ucast v] @ b64_decode rest)"
| "b64_decode [a, b] = (let v = push_bit 18 (b64_value a) OR push_bit 12 (b64_value b) in [ucast (drop_bit 16 v)])"
| "b64_decode [a, b, c] =
     (let v = push_bit 18 (b64_value a) OR push_bit 12 (b64_value b) OR push_bit 6 (b64_value c)
      in [ucast (drop_bit 16 v), ucast (drop_bit 8 v)])"
| "b64_decode _ = []"

lemma takeWhile_index: "distinct xs \<Longrightarrow> i < length xs \<Longrightarrow> length (takeWhile (\<lambda>x. x \<noteq> xs ! i) xs) = i"
proof (induction xs arbitrary: i)
  case (Cons x xs)
  then show ?case by (cases i) auto
qed simp

lemma b64_value_char: "b64_value (b64_char v n) = drop_bit n v AND 0x3F"
proof -
  have "unat (drop_bit n v AND 0x3F) \<le> unat (0x3F :: u32)" by (simp only: word_le_nat_alt [symmetric] word_and_le1)
  then have i: "unat (drop_bit n v AND 0x3F) < length b64_alphabet" by (simp add: b64_alphabet_def)
  have "distinct b64_alphabet" by code_simp
  from takeWhile_index [OF this i] show ?thesis by (simp add: b64_value_def b64_char_def)
qed

lemma and_3F: "x AND 0x3F = take_bit 6 x" for x :: u32
  by (simp add: take_bit_eq_mask mask_eq_exp_minus_1)

lemma sextets:
  fixes v :: u32
  assumes "take_bit 24 v = v"
  shows "push_bit 18 (take_bit 6 (drop_bit 18 v)) OR push_bit 12 (take_bit 6 (drop_bit 12 v)) OR
    push_bit 6 (take_bit 6 (drop_bit 6 v)) OR take_bit 6 v = v"
proof (rule bit_eqI)
  fix n
  assume "possible_bit TYPE(u32) n"
  then have n: "n < 32" by simp
  have v: "n < 24" if "bit v n" using assms that by (metis bit_take_bit_iff)
  consider "n < 6" | "6 \<le> n" "n < 12" | "12 \<le> n" "n < 18" | "18 \<le> n" by linarith
  then show "bit (push_bit 18 (take_bit 6 (drop_bit 18 v)) OR push_bit 12 (take_bit 6 (drop_bit 12 v)) OR
    push_bit 6 (take_bit 6 (drop_bit 6 v)) OR take_bit 6 v) n = bit v n"
    by cases (use v n in \<open>auto simp: bit_simps\<close>)
qed

text \<open>The three bytes of a group and back.\<close>

definition group_of :: "byte \<Rightarrow> byte \<Rightarrow> byte \<Rightarrow> u32" where
  "group_of a b c = push_bit 16 (ucast a) OR push_bit 8 (ucast b) OR ucast c"

lemma bit_byte_bound: "bit (b :: byte) n \<Longrightarrow> n < 8"
  using bit_imp_le_length [of b n] by simp

lemma bit_group_of:
  "bit (group_of a b c) n \<longleftrightarrow>
     (if n < 8 then bit c n else if n < 16 then bit b (n - 8) else n < 24 \<and> bit a (n - 16))"
  unfolding group_of_def by (auto simp: bit_simps dest: bit_byte_bound)

lemma group_of_bytes:
  "ucast (drop_bit 16 (group_of a b c)) = a" "ucast (drop_bit 8 (group_of a b c)) = b" "ucast (group_of a b c) = c"
  "take_bit 24 (group_of a b c) = group_of a b c"
  by (rule bit_eqI; auto simp: bit_simps bit_group_of)+

lemma group_of_low:
  "take_bit 6 (drop_bit 6 (group_of a 0 0)) = 0" "take_bit 6 (group_of a b 0) = 0"
  by (rule bit_eqI; auto simp: bit_simps bit_group_of)+

lemma b64_roundtrip: "b64_decode (b64_encode bs) = bs"
proof (induction bs rule: b64_encode.induct)
  case (1 a b c rest)
  have g: "push_bit 16 (ucast a) OR push_bit 8 (ucast b) OR ucast c = group_of a b c" by (simp add: group_of_def)
  show ?case
    using sextets [OF group_of_bytes(4), of a b c] 1
    by (simp add: g Let_def b64_value_char and_3F group_of_bytes)
next
  case (2 a)
  have g: "push_bit 16 (ucast a) = group_of a 0 0" by (simp add: group_of_def)
  show ?case
    using sextets [OF group_of_bytes(4), of a 0 0]
    by (simp add: g Let_def b64_value_char and_3F group_of_bytes group_of_low)
next
  case (3 a b)
  have g: "push_bit 16 (ucast a) OR push_bit 8 (ucast b) = group_of a b 0" by (simp add: group_of_def)
  show ?case
    using sextets [OF group_of_bytes(4), of a b 0]
    by (simp add: g Let_def b64_value_char and_3F group_of_bytes group_of_low)
qed simp

lemma length_b64_encode: "length (b64_encode bs) = b64_need (length bs)"
  by (induction bs rule: b64_encode.induct) (simp_all add: b64_need_def Let_def div_add_self1)

text \<open>The base-64 text of a query carries it: the encoder succeeds exactly when the text and its terminator fit the
  buffer; the text then has the announced length, uses the URL alphabet only and decodes to the query.\<close>

theorem base64url_roundtrip:
  "case alr_doh_base64url bs outcap of
     Inl e \<Rightarrow> e = DohSmallBuf \<and> outcap \<le> b64_need (length bs)
   | Inr txt0 \<Rightarrow> length txt0 < outcap \<and> length txt0 = b64_need (length bs) \<and>
       set txt0 \<subseteq> set b64_alphabet \<and> b64_decode txt0 = bs"
proof -
  have "b64_char v n \<in> set b64_alphabet" for v n
  proof -
    have "unat (drop_bit n v AND 0x3F) \<le> unat (0x3F :: u32)" by (simp only: word_le_nat_alt [symmetric] word_and_le1)
    then show ?thesis unfolding b64_char_def by (intro nth_mem) (simp add: b64_alphabet_def)
  qed
  then have "set (b64_encode bs) \<subseteq> set b64_alphabet"
    by (induction bs rule: b64_encode.induct) (simp_all add: Let_def)
  then show ?thesis by (simp add: alr_doh_base64url_def length_b64_encode b64_roundtrip)
qed

end
