(* ===== verification/Doh_Resolver.thy ===== *)
theory Doh_Resolver
  imports Doh_Wire "HOL-Library.Multiset" "HOL-Library.Sublist"
begin

text \<open>
  The resolver that is preloaded into guest programs, \<^verbatim>\<open>alr_doh/libalr_doh.c\<close>: its configuration, one query over TLS,
  the construction of the address list and the interposed \<^verbatim>\<open>getaddrinfo\<close> and \<^verbatim>\<open>freeaddrinfo\<close>.

  The environment, the TLS library with the socket below it, the allocator and the next resolver in the link order are
  parameters.  \<open>tls_read t n\<close> is what the \<open>t\<close>-th read for at most \<open>n\<close> bytes delivers, with the empty list for an end or an
  error.  The allocator is a function of the number of the call, and that number names the block.  Sums of decimal
  digits in an \<^verbatim>\<open>int\<close> are taken modulo 2 to the 32; where they would leave that range the C code is undefined.
\<close>

section \<open>Configuration\<close>

record doh_cfg =
  dc_enabled :: bool
  dc_insecure :: bool
  dc_diag :: bool
  dc_server_ip :: string
  dc_server_port :: int
  dc_host :: string
  dc_path :: string
  dc_ca :: string

definition cfg_copy :: "nat \<Rightarrow> string option \<Rightarrow> string \<Rightarrow> string" where
  "cfg_copy cap src dflt = take (cap - 1) (case src of None \<Rightarrow> dflt | Some v \<Rightarrow> if v = [] then dflt else v)"

definition is_digit :: "char \<Rightarrow> bool" where
  "is_digit c \<longleftrightarrow> byte_of CHR ''0'' \<le> byte_of c \<and> byte_of c \<le> byte_of CHR ''9''"

definition digit_value :: "char \<Rightarrow> nat" where
  "digit_value c = byte_of c - byte_of CHR ''0''"

definition int_of_digits :: "string \<Rightarrow> int" where
  "int_of_digits s = fold (\<lambda>c p. signed_take_bit 31 (p * 10 + int (digit_value c))) s 0"

definition starts_with_char :: "char \<Rightarrow> string option \<Rightarrow> bool" where
  "starts_with_char c v \<longleftrightarrow> (case v of Some (x # _) \<Rightarrow> x = c | _ \<Rightarrow> False)"

text \<open>The configuration is computed once; \<open>cached\<close> is \<^verbatim>\<open>g_cfg\<close>.\<close>

definition cfg_init :: "(string \<Rightarrow> string option) \<Rightarrow> doh_cfg option \<Rightarrow> doh_cfg" where
  "cfg_init env cached =
     (case cached of
        Some c \<Rightarrow> c
      | None \<Rightarrow>
          let tmp = cfg_copy 80 (env ''ALR_DOH_SERVER'') ''1.1.1.1'';
              ip = takeWhile (\<lambda>c. c \<noteq> CHR '':'') tmp;
              p = int_of_digits (takeWhile is_digit (drop (length ip + 1) tmp))
          in \<lparr>dc_enabled = (\<not> starts_with_char CHR ''0'' (env ''ALR_DOH'')),
              dc_insecure = starts_with_char CHR ''1'' (env ''ALR_DOH_INSECURE''),
              dc_diag = starts_with_char CHR ''1'' (env ''ALR_DOH_DIAG''),
              dc_server_ip = cfg_copy 64 (Some ip) ''1.1.1.1'',
              dc_server_port = (if CHR '':'' \<in> set tmp \<and> 0 < p \<and> p < 65536 then p else 443),
              dc_host = cfg_copy 128 (env ''ALR_DOH_HOST'') ''cloudflare-dns.com'',
              dc_path = cfg_copy 128 (env ''ALR_DOH_PATH'') ''/dns-query'',
              dc_ca = cfg_copy 256 (env ''ALR_DOH_CA'') ''/etc/ssl/certs/ca-certificates.crt''\<rparr>)"

text \<open>The line written to standard error, if any.\<close>

definition diag_line :: "doh_cfg \<Rightarrow> string \<Rightarrow> nat \<Rightarrow> nat \<Rightarrow> bool \<Rightarrow> string option" where
  "diag_line cfg host n_a n_aaaa ok =
     (if \<not> dc_diag cfg then None
      else Some (take 255 (''ALR-DOH '' @ host @ (if ok then '' ok A='' else '' fallback A='') @ dec_nat n_a @
        '' AAAA='' @ dec_nat n_aaaa) @ [CHR 0x0A]))"

section \<open>One query\<close>

record tls =
  tls_socket :: bool
  tls_connect :: "u32 \<Rightarrow> u16 \<Rightarrow> bool"
  tls_ctx_new :: bool
  tls_new :: bool
  tls_handshake :: "string \<Rightarrow> bool"
  tls_verify_ok :: bool
  tls_write :: "string \<Rightarrow> int"
  tls_read :: "nat \<Rightarrow> nat \<Rightarrow> byte list"

text \<open>The resources a query holds.\<close>

datatype resource = Socket | SslCtx | Ssl
datatype event = Acquire resource | Release resource

text \<open>The hand-written parser of a dotted quad: the four parts so far, the index and whether the part has a
  digit.\<close>

fun scan_quad :: "string \<Rightarrow> u32 list \<Rightarrow> nat \<Rightarrow> bool \<Rightarrow> (u32 list \<times> nat \<times> bool) option" where
  "scan_quad [] parts pi seen = Some (parts, pi, seen)"
| "scan_quad (c # cs) parts pi seen =
     (if is_digit c then scan_quad cs (parts[pi := parts ! pi * 10 + of_nat (digit_value c)]) pi True
      else if c = dot then (if 3 < pi + 1 then None else scan_quad cs parts (pi + 1) False)
      else Some (parts, pi, seen))"

definition parse_ipv4 :: "string \<Rightarrow> u32 option" where
  "parse_ipv4 s =
     (case scan_quad s [0, 0, 0, 0] 0 False of
        None \<Rightarrow> None
      | Some (parts, pi, seen) \<Rightarrow>
          if \<not> seen \<or> pi \<noteq> 3 then None
          else Some (push_bit 24 (parts ! 0) OR push_bit 16 (parts ! 1) OR push_bit 8 (parts ! 2) OR parts ! 3))"

definition crlf :: string where "crlf = [CHR 0x0D, CHR 0x0A]"

text \<open>The request; the copy of the text stops where less than 200 bytes of the buffer are left.\<close>

definition build_request :: "doh_cfg \<Rightarrow> string \<Rightarrow> string" where
  "build_request cfg b64 =
     (let start = ''GET '' @ dc_path cfg @ ''?dns=''
      in start @ take (1024 - 200 - length start) b64 @ '' HTTP/1.1'' @ crlf @ ''Host: '' @ dc_host cfg @
         crlf @ ''Accept: application/dns-message'' @ crlf @
         ''User-Agent: alr-doh/1'' @ crlf @ ''Connection: close'' @ crlf @ crlf)"

function read_response :: "tls \<Rightarrow> nat \<Rightarrow> byte list \<Rightarrow> byte list" where
  "read_response io t buf =
     (if length buf < 8192 \<and> tls_read io t (8192 - length buf) \<noteq> []
      then read_response io (t + 1) (buf @ tls_read io t (8192 - length buf))
      else buf)"
  by pat_completeness auto
termination
  by (relation "measure (\<lambda>(_, _, buf). 8192 - length buf)") (auto intro: diff_less_mono2)

declare read_response.simps [simp del]

fun find_body :: "byte list \<Rightarrow> nat \<Rightarrow> nat option" where
  "find_body (a # b # c # d # rest) i =
     (if a = 13 \<and> b = 10 \<and> c = 13 \<and> d = 10 then Some (i + 4) else find_body (b # c # d # rest) (i + 1))"
| "find_body _ i = None"

definition http_ok :: "byte list \<Rightarrow> bool" where
  "http_ok buf \<longleftrightarrow> 12 < length buf \<and> buf ! 9 = 50 \<and> buf ! 10 = 48 \<and> buf ! 11 = 48"

text \<open>The handling of what was read; \<^const>\<open>None\<close> is the result -1.\<close>

definition parse_http :: "u16 \<Rightarrow> byte list \<Rightarrow> alr_doh_result option" where
  "parse_http qtype buf =
     (case find_body buf 0 of
        None \<Rightarrow> None
      | Some body \<Rightarrow>
          if http_ok buf \<and> 12 \<le> length buf - body then
            (case alr_doh_parse_response (drop body buf) 0 qtype of
               Some (None, res) \<Rightarrow> Some res
             | _ \<Rightarrow> None)
          else None)"

definition tls_exchange :: "doh_cfg \<Rightarrow> tls \<Rightarrow> u16 \<Rightarrow> string \<Rightarrow> alr_doh_result option" where
  "tls_exchange cfg io qtype b64 =
     (if tls_handshake io (dc_host cfg) \<and> (dc_insecure cfg \<or> tls_verify_ok io) then
        (let req = build_request cfg b64
         in if tls_write io req = int (length req) then parse_http qtype (read_response io 0 []) else None)
      else None)"

definition doh_query_once :: "doh_cfg \<Rightarrow> bool \<Rightarrow> tls \<Rightarrow> string \<Rightarrow> u16 \<Rightarrow> alr_doh_result option \<times> event list" where
  "doh_query_once cfg ssl_ok io qname qtype =
     (if \<not> ssl_ok then (None, [])
      else
        case alr_doh_build_query 0 (Some qname) qtype 512 of
          Inl _ \<Rightarrow> (None, [])
        | Inr q \<Rightarrow>
            case alr_doh_base64url q 768 of
              Inl _ \<Rightarrow> (None, [])
            | Inr b64 \<Rightarrow>
                if b64 = [] \<or> \<not> tls_socket io then (None, [])
                else
                  case parse_ipv4 (dc_server_ip cfg) of
                    None \<Rightarrow> (None, [Acquire Socket, Release Socket])
                  | Some ip \<Rightarrow>
                      if \<not> tls_connect io ip (of_int (dc_server_port cfg)) then
                        (None, [Acquire Socket, Release Socket])
                      else if \<not> tls_ctx_new io then (None, [Acquire Socket, Release Socket])
                      else if \<not> tls_new io then
                        (None, [Acquire Socket, Acquire SslCtx, Release SslCtx, Release Socket])
                      else
                        (tls_exchange cfg io qtype b64,
                         [Acquire Socket, Acquire SslCtx, Acquire Ssl, Release Ssl, Release SslCtx, Release Socket]))"

section \<open>Address lists\<close>

record addrinfo =
  ai_block :: nat
  ai_flags :: u32
  ai_family :: nat
  ai_socktype :: int
  ai_protocol :: int
  ai_addrlen :: nat
  ai_port :: u16
  ai_bytes :: "byte list"
  ai_addr_block :: nat

definition AF_UNSPEC :: nat where "AF_UNSPEC = 0"
definition AF_INET :: nat where "AF_INET = 2"
definition AF_INET6 :: nat where "AF_INET6 = 10"
definition ALR_AI_OURS :: u32 where "ALR_AI_OURS = 0x40000000"

text \<open>The allocator and what it did: the next call, the blocks that are allocated.\<close>

record heap =
  hp_next :: nat
  hp_live :: "nat list"

definition calloc :: "(nat \<Rightarrow> bool) \<Rightarrow> heap \<Rightarrow> nat option \<times> heap" where
  "calloc avail h =
     (if avail (hp_next h) then (Some (hp_next h), \<lparr>hp_next = hp_next h + 1, hp_live = hp_next h # hp_live h\<rparr>)
      else (None, h\<lparr>hp_next := hp_next h + 1\<rparr>))"

definition free_block :: "nat \<Rightarrow> heap \<Rightarrow> heap" where
  "free_block b h = h\<lparr>hp_live := remove1 b (hp_live h)\<rparr>"

definition make_ai ::
  "(nat \<Rightarrow> bool) \<Rightarrow> nat \<Rightarrow> byte list \<Rightarrow> int \<Rightarrow> int \<Rightarrow> u16 \<Rightarrow> heap \<Rightarrow> addrinfo option \<times> heap" where
  "make_ai avail family addr socktype proto port h =
     (let salen = (if family = AF_INET then 16 else 28) in
      case calloc avail h of
        (None, h) \<Rightarrow> (None, h)
      | (Some ai, h) \<Rightarrow>
          (case calloc avail h of
             (None, h) \<Rightarrow> (None, free_block ai h)
           | (Some sa, h) \<Rightarrow>
               (Some \<lparr>ai_block = ai, ai_flags = ALR_AI_OURS, ai_family = family, ai_socktype = socktype,
                  ai_protocol = proto, ai_addrlen = salen, ai_port = port, ai_bytes = addr, ai_addr_block = sa\<rparr>, h)))"

text \<open>The loop over the addresses of one answer, with the chain built so far.\<close>

primrec append_ais ::
  "(nat \<Rightarrow> bool) \<Rightarrow> nat \<Rightarrow> int \<Rightarrow> int \<Rightarrow> u16 \<Rightarrow> byte list list \<Rightarrow> addrinfo list \<Rightarrow> heap \<Rightarrow> addrinfo list \<times> heap" where
  "append_ais avail family socktype proto port [] chain h = (chain, h)"
| "append_ais avail family socktype proto port (addr # addrs) chain h =
     (case make_ai avail family addr socktype proto port h of
        (None, h) \<Rightarrow> append_ais avail family socktype proto port addrs chain h
      | (Some ai, h) \<Rightarrow> append_ais avail family socktype proto port addrs (chain @ [ai]) h)"

definition is_numeric_host :: "string option \<Rightarrow> bool" where
  "is_numeric_host node =
     (case node of
        None \<Rightarrow> True
      | Some n \<Rightarrow>
          n = [] \<or> CHR '':'' \<in> set n \<or>
          (list_all (\<lambda>c. c = dot \<or> is_digit c) n \<and> length (filter (\<lambda>c. c = dot) n) = 3 \<and>
           4 \<le> length (filter is_digit n)))"

section \<open>The interposed functions\<close>

record hints =
  hi_flags :: u32
  hi_family :: nat
  hi_socktype :: int
  hi_protocol :: int

text \<open>Who answers: the next resolver, this one with a chain, or nobody with an error code.\<close>

datatype gai_error = EAI_FAIL | EAI_NONAME
datatype gai = Delegated | GaiError gai_error | Answer "addrinfo list"

definition defer_to_real :: "bool \<Rightarrow> gai_error \<Rightarrow> gai" where
  "defer_to_real have_real e = (if have_real then Delegated else GaiError e)"

definition service_port :: "string option \<Rightarrow> u16 option" where
  "service_port service =
     (case service of
        None \<Rightarrow> Some 0
      | Some s \<Rightarrow> if s = [] then Some 0 else if list_all is_digit s then Some (of_int (int_of_digits s)) else None)"

text \<open>The addresses one answer contributes.\<close>

definition answer_addrs :: "alr_doh_result option \<Rightarrow> byte list list" where
  "answer_addrs r = (case r of None \<Rightarrow> [] | Some r \<Rightarrow> if dr_rcode r = 0 then dr_addrs r else [])"

record world =
  w_env :: "string \<Rightarrow> string option"
  w_ssl_ok :: bool
  w_tls :: "u16 \<Rightarrow> tls"
  w_avail :: "nat \<Rightarrow> bool"
  w_have_real :: bool

text \<open>The two queries and the chain: A unless the caller wants IPv6 only, AAAA unless IPv4 only.\<close>

definition answer_chain ::
  "world \<Rightarrow> doh_cfg \<Rightarrow> string \<Rightarrow> nat \<Rightarrow> int \<Rightarrow> int \<Rightarrow> u16 \<Rightarrow> heap \<Rightarrow> gai \<times> heap \<times> string option" where
  "answer_chain w cfg node fam socktype proto port h =
     (let r4 = (if fam \<noteq> AF_INET6 then answer_addrs (fst (doh_query_once cfg True (w_tls w 1) node 1)) else []);
          r6 = (if fam \<noteq> AF_INET then answer_addrs (fst (doh_query_once cfg True (w_tls w 28) node 28)) else []);
          (c4, h4) = append_ais (w_avail w) AF_INET socktype proto port r4 [] h;
          (c6, h6) = append_ais (w_avail w) AF_INET6 socktype proto port r6 c4 h4
      in if c6 \<noteq> [] then (Answer c6, h6, diag_line cfg node (length c4) (length c6 - length c4) True)
         else (defer_to_real (w_have_real w) EAI_NONAME, h6, diag_line cfg node 0 0 False))"

definition getaddrinfo ::
  "world \<Rightarrow> doh_cfg option \<Rightarrow> string option \<Rightarrow> string option \<Rightarrow> hints option \<Rightarrow> heap \<Rightarrow> gai \<times> heap \<times> string option" where
  "getaddrinfo w cached node service hints h =
     (let cfg = cfg_init (w_env w) cached;
          numerichost = (case hints of None \<Rightarrow> False | Some hi \<Rightarrow> hi_flags hi AND 4 \<noteq> 0);
          fam = (case hints of None \<Rightarrow> AF_UNSPEC | Some hi \<Rightarrow> hi_family hi);
          bad_family = (fam \<noteq> AF_UNSPEC \<and> fam \<noteq> AF_INET \<and> fam \<noteq> AF_INET6)
      in if \<not> dc_enabled cfg \<or> node = None \<or> numerichost \<or> bad_family \<or> is_numeric_host node then
           (defer_to_real (w_have_real w) EAI_FAIL, h, None)
         else if \<not> w_ssl_ok w then
           (defer_to_real (w_have_real w) EAI_FAIL, h, diag_line cfg (the node) 0 0 False)
         else
           case service_port service of
             None \<Rightarrow> (defer_to_real (w_have_real w) EAI_FAIL, h, None)
           | Some port \<Rightarrow>
               answer_chain w cfg (the node) fam
                 (case hints of None \<Rightarrow> 0 | Some hi \<Rightarrow> hi_socktype hi)
                 (case hints of None \<Rightarrow> 0 | Some hi \<Rightarrow> hi_protocol hi) port h)"

text \<open>The chain is freed here or handed to the next resolver; the latter is the result \<^const>\<open>None\<close>.\<close>

primrec free_chain :: "addrinfo list \<Rightarrow> heap \<Rightarrow> heap" where
  "free_chain [] h = h"
| "free_chain (ai # ais) h = free_chain ais (free_block (ai_block ai) (free_block (ai_addr_block ai) h))"

definition freeaddrinfo :: "bool \<Rightarrow> addrinfo list \<Rightarrow> heap \<Rightarrow> heap option" where
  "freeaddrinfo have_real chain h =
     (case chain of
        [] \<Rightarrow> Some h
      | ai # _ \<Rightarrow> if ai_flags ai AND ALR_AI_OURS = 0 \<and> have_real then None else Some (free_chain chain h))"

section \<open>The request\<close>

lemma cfg_copy_bound: "0 < cap \<Longrightarrow> length (cfg_copy cap src dflt) < cap"
  by (auto simp: cfg_copy_def)

lemma cfg_init_bounds:
  "length (dc_path (cfg_init env None)) \<le> 127" "length (dc_host (cfg_init env None)) \<le> 127"
  using cfg_copy_bound [of 128 "env ''ALR_DOH_PATH''" "''/dns-query''"]
    cfg_copy_bound [of 128 "env ''ALR_DOH_HOST''" "''cloudflare-dns.com''"]
  by (simp_all add: cfg_init_def Let_def)

lemma build_query_length: "alr_doh_build_query msg_id (Some p) qtype 512 = Inr q \<Longrightarrow> length q \<le> 272"
proof -
  assume q: "alr_doh_build_query msg_id (Some p) qtype 512 = Inr q"
  then have "qtype = 1 \<or> qtype = 28" by (auto simp: alr_doh_build_query_def split: if_splits)
  from build_query_big [OF this, of 512 msg_id p] q have "valid_qname p" "q = query_of msg_id p qtype"
    by (auto split: if_splits)
  then show ?thesis by (simp add: query_of_def valid_qname_def put16_def)
qed

lemma b64_need_mono: "m \<le> n \<Longrightarrow> b64_need m \<le> b64_need n"
proof (induction n)
  case (Suc n)
  have "b64_need n \<le> b64_need (Suc n)" by (auto simp: b64_need_def div_Suc mod_Suc)
  with Suc show ?case by (cases "m = Suc n") auto
qed simp

lemma query_b64:
  assumes "alr_doh_build_query 0 (Some qname) qtype 512 = Inr q"
  shows "alr_doh_base64url q 768 = Inr (b64_encode q)" "length (b64_encode q) \<le> 363"
proof -
  have "b64_need (length q) \<le> b64_need 272" by (rule b64_need_mono) (rule build_query_length [OF assms])
  also have "b64_need 272 = 363" by (simp add: b64_need_def)
  finally show "alr_doh_base64url q 768 = Inr (b64_encode q)" "length (b64_encode q) \<le> 363"
    by (simp_all add: alr_doh_base64url_def length_b64_encode)
qed

text \<open>The request fits its buffer and carries the whole query.  For every environment and every name: a name is
  refused only as a bad name or for a bad type; otherwise the query becomes base-64 text, and the request built from it
  with the configuration of that environment is less than 1024 bytes long, its text is the whole text of the query
  and not cut by the guard of the copy, and it decodes to the query.\<close>

theorem doh_request_fits:
  "case alr_doh_build_query 0 (Some qname) qtype 512 of
     Inl e \<Rightarrow> e = DohBadName \<or> e = DohBadType
   | Inr q \<Rightarrow>
       \<exists>b64 rest. alr_doh_base64url q 768 = Inr b64 \<and> b64_decode b64 = q \<and> b64 \<noteq> [] \<and>
         build_request (cfg_init env None) b64 = ''GET '' @ dc_path (cfg_init env None) @ ''?dns='' @ b64 @ '' HTTP/1.1'' @ rest \<and>
         length (build_request (cfg_init env None) b64) < 1024"
proof (cases "alr_doh_build_query 0 (Some qname) qtype 512")
  case (Inl e)
  then show ?thesis using build_query_big [of qtype 512 0 qname]
    by (cases "qtype = 1 \<or> qtype = 28") (auto simp: alr_doh_build_query_def split: if_splits)
next
  case (Inr q)
  let ?cfg = "cfg_init env None"
  let ?b64 = "b64_encode q"
  have "take (1024 - 200 - length (''GET '' @ dc_path ?cfg @ ''?dns='')) ?b64 = ?b64"
    using cfg_init_bounds(1) [of env] query_b64(2) [OF Inr] by simp
  then have r: "build_request ?cfg ?b64 = ''GET '' @ dc_path ?cfg @ ''?dns='' @ ?b64 @ '' HTTP/1.1'' @ crlf @ ''Host: '' @ dc_host ?cfg @
         crlf @ ''Accept: application/dns-message'' @ crlf @
         ''User-Agent: alr-doh/1'' @ crlf @ ''Connection: close'' @ crlf @ crlf"
    by (simp add: build_request_def)
  moreover have "length (build_request ?cfg ?b64) < 1024"
    unfolding r using cfg_init_bounds [of env] query_b64(2) [OF Inr] by (simp add: crlf_def)
  moreover have "q \<noteq> []"
    using Inr by (auto simp: alr_doh_build_query_def split: if_splits sum.splits)
  then have "?b64 \<noteq> []" using b64_roundtrip [of q] by force
  ultimately show ?thesis using Inr query_b64(1) [OF Inr] b64_roundtrip [of q] by auto
qed

section \<open>Resources and blocks\<close>

text \<open>Every resource is released before the query returns, the last one acquired first.\<close>

fun nested :: "resource list \<Rightarrow> event list \<Rightarrow> bool" where
  "nested held [] \<longleftrightarrow> held = []"
| "nested held (Acquire r # es) \<longleftrightarrow> nested (r # held) es"
| "nested held (Release r # es) \<longleftrightarrow> (case held of [] \<Rightarrow> False | x # xs \<Rightarrow> x = r \<and> nested xs es)"

lemma query_releases_all: "nested [] (snd (doh_query_once cfg ssl_ok io qname qtype))"
  by (auto simp: doh_query_once_def split: sum.splits option.splits)

definition chain_blocks :: "addrinfo list \<Rightarrow> nat multiset" where
  "chain_blocks ais = (\<Sum>ai \<in># mset ais. {#ai_block ai, ai_addr_block ai#})"

lemma make_ai_Some:
  "make_ai avail family addr socktype proto port h = (Some ai, h') \<Longrightarrow>
   mset (hp_live h') = add_mset (ai_block ai) (add_mset (ai_addr_block ai) (mset (hp_live h))) \<and>
   ai_flags ai = ALR_AI_OURS \<and> ai_family ai = family \<and> ai_bytes ai = addr \<and> ai_port ai = port"
  by (auto simp: make_ai_def calloc_def Let_def split: prod.splits option.splits if_splits)

lemma make_ai_None: "make_ai avail family addr socktype proto port h = (None, h') \<Longrightarrow> mset (hp_live h') = mset (hp_live h)"
  by (auto simp: make_ai_def calloc_def free_block_def Let_def split: prod.splits option.splits if_splits)

lemma make_ai_avail: "(\<And>n. avail n) \<Longrightarrow> fst (make_ai avail family addr socktype proto port h) \<noteq> None"
  by (simp add: make_ai_def calloc_def)

definition node_ok :: "nat \<Rightarrow> u16 \<Rightarrow> addrinfo \<Rightarrow> bool" where
  "node_ok family port ai \<longleftrightarrow> ai_flags ai = ALR_AI_OURS \<and> ai_family ai = family \<and> ai_port ai = port"

lemma append_ais_spec:
  "append_ais avail family socktype proto port addrs chain h = (chain', h') \<Longrightarrow>
   \<exists>new. chain' = chain @ new \<and> mset (hp_live h') = mset (hp_live h) + chain_blocks new \<and>
     list_all (node_ok family port) new \<and> subseq (map ai_bytes new) addrs \<and>
     ((\<forall>n. avail n) \<longrightarrow> map ai_bytes new = addrs)"
proof (induction addrs arbitrary: chain h)
  case Nil
  then show ?case by (simp add: chain_blocks_def)
next
  case (Cons addr addrs)
  obtain r h1 where m: "make_ai avail family addr socktype proto port h = (r, h1)" by fastforce
  show ?case
  proof (cases r)
    case None
    then have a: "append_ais avail family socktype proto port addrs chain h1 = (chain', h')" using Cons.prems m by simp
    have "\<not> (\<forall>n. avail n)" using make_ai_avail [of avail family addr socktype proto port h] m None by auto
    then show ?thesis using Cons.IH [OF a] make_ai_None [OF m [unfolded None]] by auto
  next
    case (Some ai)
    then have a: "append_ais avail family socktype proto port addrs (chain @ [ai]) h1 = (chain', h')" using Cons.prems m by simp
    from Cons.IH [OF a] obtain new where new: "chain' = (chain @ [ai]) @ new" "mset (hp_live h') = mset (hp_live h1) + chain_blocks new"
      "list_all (node_ok family port) new" "subseq (map ai_bytes new) addrs" "(\<forall>n. avail n) \<longrightarrow> map ai_bytes new = addrs" by blast
    moreover have "node_ok family port ai" using make_ai_Some [OF m [unfolded Some]] by (simp add: node_ok_def)
    ultimately show ?thesis using make_ai_Some [OF m [unfolded Some]]
      by (intro exI [of _ "ai # new"]) (simp add: chain_blocks_def)
  qed
qed

lemma free_chain_blocks: "mset (hp_live (free_chain ais h)) = mset (hp_live h) - chain_blocks ais"
proof (induction ais arbitrary: h)
  case (Cons ai ais)
  have "chain_blocks (ai # ais) = {#ai_block ai, ai_addr_block ai#} + chain_blocks ais" by (simp add: chain_blocks_def)
  then show ?case using Cons by (simp add: free_block_def add_mset_commute)
qed (simp add: chain_blocks_def)

text \<open>The addresses an answer contributes have the size of their family.\<close>

lemma parse_http_addrs:
  "parse_http qtype buf = Some r \<Longrightarrow> length (dr_addrs r) \<le> 16 \<and> list_all (\<lambda>a. length a = addr_len qtype) (dr_addrs r)"
proof -
  assume "parse_http qtype buf = Some r"
  then obtain body where "alr_doh_parse_response (drop body buf) 0 qtype = Some (None, r)"
    by (auto simp: parse_http_def split: option.splits if_splits prod.splits)
  then show ?thesis using parse_response_safe [of "drop body buf" 0 qtype] by (auto simp: address_of_def list_all_iff)
qed

lemma query_addrs:
  "list_all (\<lambda>a. length a = addr_len qtype) (answer_addrs (fst (doh_query_once cfg ssl_ok io qname qtype)))"
proof -
  have "list_all (\<lambda>a. length a = addr_len qtype) (dr_addrs r)" if "fst (doh_query_once cfg ssl_ok io qname qtype) = Some r" for r
    using that parse_http_addrs
    by (auto simp: doh_query_once_def tls_exchange_def Let_def split: sum.splits option.splits if_splits)
  then show ?thesis by (auto simp: answer_addrs_def split: option.splits)
qed

text \<open>What the two queries contribute to an answer.\<close>

definition doh_answers :: "world \<Rightarrow> doh_cfg option \<Rightarrow> string \<Rightarrow> nat \<Rightarrow> u16 \<Rightarrow> byte list list" where
  "doh_answers w cached node fam qtype =
     (if fam = (if qtype = 1 then AF_INET6 else AF_INET) then []
      else answer_addrs (fst (doh_query_once (cfg_init (w_env w) cached) True (w_tls w qtype) node qtype)))"

lemma subseq_subset: "subseq xs ys \<Longrightarrow> set xs \<subseteq> set ys"
  by (induction rule: list_emb.induct) auto

lemma answers_sized: "subseq as (doh_answers w cached node fam qtype) \<Longrightarrow> list_all (\<lambda>a. length a = addr_len qtype) as"
proof -
  assume "subseq as (doh_answers w cached node fam qtype)"
  then have "set as \<subseteq> set (doh_answers w cached node fam qtype)" by (rule subseq_subset)
  moreover have "list_all (\<lambda>a. length a = addr_len qtype) (doh_answers w cached node fam qtype)"
    using query_addrs by (simp add: doh_answers_def)
  ultimately show ?thesis by (auto simp: list_all_iff)
qed

definition hint_family :: "hints option \<Rightarrow> nat" where
  "hint_family hints = (case hints of None \<Rightarrow> AF_UNSPEC | Some hi \<Rightarrow> hi_family hi)"

definition chain_correct ::
  "world \<Rightarrow> doh_cfg option \<Rightarrow> string \<Rightarrow> nat \<Rightarrow> u16 \<Rightarrow> addrinfo list \<Rightarrow> bool" where
  "chain_correct w cached name fam port chain \<longleftrightarrow>
     (\<exists>c4 c6. chain = c4 @ c6 \<and> chain \<noteq> [] \<and>
        list_all (node_ok AF_INET port) c4 \<and> list_all (node_ok AF_INET6 port) c6 \<and>
        list_all (\<lambda>ai. length (ai_bytes ai) = 4) c4 \<and> list_all (\<lambda>ai. length (ai_bytes ai) = 16) c6 \<and>
        subseq (map ai_bytes c4) (doh_answers w cached name fam 1) \<and>
        subseq (map ai_bytes c6) (doh_answers w cached name fam 28) \<and>
        ((\<forall>n. w_avail w n) \<longrightarrow>
           map ai_bytes chain = doh_answers w cached name fam 1 @ doh_answers w cached name fam 28))"

definition memory_balanced :: "bool \<Rightarrow> addrinfo list \<Rightarrow> heap \<Rightarrow> heap \<Rightarrow> bool" where
  "memory_balanced have_real chain h h' \<longleftrightarrow>
     (case freeaddrinfo have_real chain h' of
        None \<Rightarrow> False | Some h'' \<Rightarrow> mset (hp_live h'') = mset (hp_live h))"

lemma answer_chain_correct:
  "case answer_chain w (cfg_init (w_env w) cached) name fam socktype proto port h of
     (Answer chain, h', _) \<Rightarrow> chain_correct w cached name fam port chain \<and> memory_balanced (w_have_real w) chain h h'
   | (_, h', _) \<Rightarrow> mset (hp_live h') = mset (hp_live h)"
proof -
  define r4 r6 where "r4 = doh_answers w cached name fam 1" and "r6 = doh_answers w cached name fam 28"
  obtain c4 h4 where a4: "append_ais (w_avail w) AF_INET socktype proto port r4 [] h = (c4, h4)" by fastforce
  obtain c h6 where a6: "append_ais (w_avail w) AF_INET6 socktype proto port r6 c4 h4 = (c, h6)" by fastforce
  from append_ais_spec [OF a4] have s4: "mset (hp_live h4) = mset (hp_live h) + chain_blocks c4" "list_all (node_ok AF_INET port) c4"
    "subseq (map ai_bytes c4) r4" "(\<forall>n. w_avail w n) \<longrightarrow> map ai_bytes c4 = r4" by auto
  from append_ais_spec [OF a6] obtain c6 where s6: "c = c4 @ c6" "mset (hp_live h6) = mset (hp_live h4) + chain_blocks c6"
    "list_all (node_ok AF_INET6 port) c6" "subseq (map ai_bytes c6) r6" "(\<forall>n. w_avail w n) \<longrightarrow> map ai_bytes c6 = r6" by blast
  have unfold: "answer_chain w (cfg_init (w_env w) cached) name fam socktype proto port h =
      (if c \<noteq> [] then (Answer c, h6, diag_line (cfg_init (w_env w) cached) name (length c4) (length c - length c4) True)
       else (defer_to_real (w_have_real w) EAI_NONAME, h6, diag_line (cfg_init (w_env w) cached) name 0 0 False))"
  proof -
    have q4: "(if fam \<noteq> AF_INET6 then answer_addrs (fst (doh_query_once (cfg_init (w_env w) cached) True (w_tls w 1) name 1)) else []) = r4"
      by (simp add: r4_def doh_answers_def)
    have q6: "(if fam \<noteq> AF_INET then answer_addrs (fst (doh_query_once (cfg_init (w_env w) cached) True (w_tls w 28) name 28)) else []) = r6"
      by (simp add: r6_def doh_answers_def)
    show ?thesis unfolding answer_chain_def Let_def q4 q6 a4 prod.case a6 by simp
  qed
  have blocks: "mset (hp_live h6) = mset (hp_live h) + chain_blocks c"
    using s4(1) s6(1,2) by (simp add: chain_blocks_def)
  show ?thesis
  proof (cases "c = []")
    case True
    then show ?thesis using blocks by (simp add: unfold chain_blocks_def defer_to_real_def)
  next
    case False
    have "list_all (\<lambda>ai. length (ai_bytes ai) = 4) c4" "list_all (\<lambda>ai. length (ai_bytes ai) = 16) c6"
      using answers_sized [OF s4(3) [unfolded r4_def]] answers_sized [OF s6(4) [unfolded r6_def]]
      by (auto simp: list_all_iff addr_len_def)
    then have "chain_correct w cached name fam port c"
      using s4 s6 False unfolding chain_correct_def r4_def r6_def by auto
    moreover have "ai_flags (hd c) = ALR_AI_OURS"
      using False s4(2) s6(1,3) by (cases c4; cases c6) (auto simp: node_ok_def)
    then have "freeaddrinfo (w_have_real w) c h6 = Some (free_chain c h6)"
      using False by (cases c) (auto simp: freeaddrinfo_def ALR_AI_OURS_def)
    then have "memory_balanced (w_have_real w) c h h6" by (simp add: memory_balanced_def free_chain_blocks blocks)
    ultimately show ?thesis using False by (simp add: unfold)
  qed
qed

text \<open>A lookup is either left to the next resolver, without any effect on memory, or answered here.\<close>

lemma getaddrinfo_cases:
  obtains (deferred) e d where "getaddrinfo w cached node service hints h = (defer_to_real (w_have_real w) e, h, d)"
  | (own) name port where "node = Some name" "service_port service = Some port"
      "getaddrinfo w cached node service hints h =
         answer_chain w (cfg_init (w_env w) cached) name (hint_family hints)
           (case hints of None \<Rightarrow> 0 | Some hi \<Rightarrow> hi_socktype hi) (case hints of None \<Rightarrow> 0 | Some hi \<Rightarrow> hi_protocol hi) port h"
proof -
  let ?cfg = "cfg_init (w_env w) cached"
  define g where "g \<longleftrightarrow> \<not> dc_enabled ?cfg \<or> node = None \<or>
      (case hints of None \<Rightarrow> False | Some hi \<Rightarrow> hi_flags hi AND 4 \<noteq> 0) \<or>
      (hint_family hints \<noteq> AF_UNSPEC \<and> hint_family hints \<noteq> AF_INET \<and> hint_family hints \<noteq> AF_INET6) \<or> is_numeric_host node"
  have u: "getaddrinfo w cached node service hints h =
      (if g then (defer_to_real (w_have_real w) EAI_FAIL, h, None)
       else if \<not> w_ssl_ok w then (defer_to_real (w_have_real w) EAI_FAIL, h, diag_line ?cfg (the node) 0 0 False)
       else case service_port service of
           None \<Rightarrow> (defer_to_real (w_have_real w) EAI_FAIL, h, None)
         | Some port \<Rightarrow> answer_chain w ?cfg (the node) (hint_family hints)
             (case hints of None \<Rightarrow> 0 | Some hi \<Rightarrow> hi_socktype hi) (case hints of None \<Rightarrow> 0 | Some hi \<Rightarrow> hi_protocol hi) port h)"
    unfolding getaddrinfo_def g_def hint_family_def Let_def by (rule refl)
  show thesis
  proof (cases "g \<or> \<not> w_ssl_ok w \<or> service_port service = None")
    case True
    then have "\<exists>d. getaddrinfo w cached node service hints h = (defer_to_real (w_have_real w) EAI_FAIL, h, d)"
      using u by auto
    then show thesis using that(1) by blast
  next
    case False
    then obtain name port where "node = Some name" "service_port service = Some port" by (auto simp: g_def)
    then show thesis using u False by (intro that(2)) auto
  qed
qed

text \<open>C27. The resolver gives out and takes back memory right, and its answer is that of the servers.  Whenever it answers
  itself, the chain is not empty; it consists of nodes for the A records and then of nodes for the AAAA records of the two
  responses, in their order, all of them unless an allocation fails, each marked as its own, with the port of the
  service and an address of four or sixteen bytes as its family says; and freeing the chain releases exactly the blocks
  the call allocated.  Whenever it does not answer itself, the call leaves no block allocated.\<close>

theorem getaddrinfo_correct:
  "case getaddrinfo w cached node service hints h of
     (Answer chain, h', _) \<Rightarrow>
       (\<exists>name port. node = Some name \<and> service_port service = Some port \<and>
          chain_correct w cached name (hint_family hints) port chain) \<and>
       memory_balanced (w_have_real w) chain h h'
   | (_, h', _) \<Rightarrow> mset (hp_live h') = mset (hp_live h)"
proof (cases rule: getaddrinfo_cases [of w cached node service hints h])
  case deferred
  then show ?thesis by (simp add: defer_to_real_def)
next
  case (own name port)
  then show ?thesis
      using answer_chain_correct [where w = w and cached = cached and name = name and fam = "hint_family hints" and
        socktype = "case hints of None \<Rightarrow> 0 | Some hi \<Rightarrow> hi_socktype hi" and
        proto = "case hints of None \<Rightarrow> 0 | Some hi \<Rightarrow> hi_protocol hi" and port = port and h = h]
      by (auto split: prod.splits gai.splits)
qed

text \<open>A numeric service beyond the range of ports is taken modulo 65536.\<close>

lemma service_port_truncates: "service_port (Some ''65616'') = Some 80"
  by code_simp

end
