(* ===== verification/Fakeroot_Db.thy ===== *)
theory Fakeroot_Db
  imports Alr_Words
begin

text \<open>
  The metadata table of the fake root library: \<^verbatim>\<open>alr_fakeroot/alr_fakeroot_db.h\<close> and the table operations of
  \<^verbatim>\<open>libalr_fakeroot.c\<close>.  The table is a shared mapping of a file; each operation holds the lock of the file, so an
  operation is one step on the list of slots.  The number of slots in the header and the number of slots mapped are
  kept apart, since each process computes the size of its own mapping; an access to a slot that is not mapped is
  \<^const>\<open>None\<close>.
\<close>

section \<open>The table\<close>

record alr_fr_entry =
  key_dev :: u64
  key_ino :: u64
  f_uid :: u32
  f_gid :: u32
  f_mode :: u32
  f_rdev_lo :: u32
  f_rdev_hi :: u32
  f_flags :: u32

definition ALR_FR_F_HAVE_UIDGID :: u32 where "ALR_FR_F_HAVE_UIDGID = 1"
definition ALR_FR_F_HAVE_MODE :: u32 where "ALR_FR_F_HAVE_MODE = 2"
definition ALR_FR_F_HAVE_RDEV :: u32 where "ALR_FR_F_HAVE_RDEV = 4"

definition empty_entry :: alr_fr_entry where
  "empty_entry = \<lparr>key_dev = 0, key_ino = 0, f_uid = 0, f_gid = 0, f_mode = 0, f_rdev_lo = 0, f_rdev_hi = 0, f_flags = 0\<rparr>"

record fr_db =
  db_nslots :: u64
  db_slots :: "alr_fr_entry list"

primrec fr_hash_loop :: "nat \<Rightarrow> u64 \<Rightarrow> u64 \<Rightarrow> u64" where
  "fr_hash_loop 0 h k = h"
| "fr_hash_loop (Suc i) h k = fr_hash_loop i ((h XOR (k AND 0xFF)) * 1099511628211) (drop_bit 8 k)"

definition alr_fr_hash :: "u64 \<Rightarrow> u64 \<Rightarrow> u64" where
  "alr_fr_hash dev ino = fr_hash_loop 8 1469598103934665603 (dev XOR (ino * 1099511628211))"

definition slot_index :: "u64 \<Rightarrow> u64 \<Rightarrow> u64 \<Rightarrow> nat \<Rightarrow> nat" where
  "slot_index nslots dev ino n =
     unat (((alr_fr_hash dev ino AND (nslots - 1)) + of_nat n) AND (nslots - 1))"

text \<open>The probing loop over the slots with the given indices.  The result is the slot, if any, and the table: a slot
  that is handed out for a new entry has got its device number.\<close>

primrec fr_find_from ::
  "alr_fr_entry list \<Rightarrow> u64 \<Rightarrow> u64 \<Rightarrow> bool \<Rightarrow> nat list \<Rightarrow> (nat option \<times> alr_fr_entry list) option" where
  "fr_find_from slots dev ino create [] = Some (None, slots)"
| "fr_find_from slots dev ino create (p # ps) =
     (if length slots \<le> p then None
      else
        let e = slots ! p; k = key_ino e in
        if k = ino \<and> key_dev e = dev then Some (Some p, slots)
        else if k = 0 then
          (if \<not> create then Some (None, slots) else Some (Some p, slots[p := e\<lparr>key_dev := dev\<rparr>]))
        else fr_find_from slots dev ino create ps)"

definition probes :: "u64 \<Rightarrow> u64 \<Rightarrow> u64 \<Rightarrow> nat list" where
  "probes nslots dev ino = map (slot_index nslots dev ino) [0..<unat nslots]"

definition fr_find :: "fr_db \<Rightarrow> u64 \<Rightarrow> u64 \<Rightarrow> bool \<Rightarrow> (nat option \<times> alr_fr_entry list) option" where
  "fr_find db dev ino create =
     (if ino = 0 then Some (None, db_slots db)
      else fr_find_from (db_slots db) dev ino create (probes (db_nslots db) dev ino))"

text \<open>A write: find or claim the slot, set the fields, publish the key.\<close>

definition fr_put :: "(alr_fr_entry \<Rightarrow> alr_fr_entry) \<Rightarrow> u64 \<Rightarrow> u64 \<Rightarrow> fr_db \<Rightarrow> fr_db option" where
  "fr_put set_fields dev ino db =
     (case fr_find db dev ino True of
        None \<Rightarrow> None
      | Some (None, slots) \<Rightarrow> Some (db\<lparr>db_slots := slots\<rparr>)
      | Some (Some p, slots) \<Rightarrow>
          Some (db\<lparr>db_slots := slots[p := (set_fields (slots ! p))\<lparr>key_ino := ino\<rparr>]\<rparr>))"

definition set_owner :: "u32 \<Rightarrow> u32 \<Rightarrow> alr_fr_entry \<Rightarrow> alr_fr_entry" where
  "set_owner uid gid e = e\<lparr>f_uid := uid, f_gid := gid, f_flags := f_flags e OR ALR_FR_F_HAVE_UIDGID\<rparr>"

definition set_mode :: "u32 \<Rightarrow> alr_fr_entry \<Rightarrow> alr_fr_entry" where
  "set_mode mode e = e\<lparr>f_mode := mode, f_flags := f_flags e OR ALR_FR_F_HAVE_MODE\<rparr>"

definition set_node :: "u32 \<Rightarrow> u64 \<Rightarrow> alr_fr_entry \<Rightarrow> alr_fr_entry" where
  "set_node mode rdev e =
     e\<lparr>f_mode := mode, f_rdev_lo := ucast rdev, f_rdev_hi := ucast (drop_bit 32 rdev),
       f_flags := f_flags e OR (ALR_FR_F_HAVE_MODE OR ALR_FR_F_HAVE_RDEV)\<rparr>"

text \<open>Without a table every write does nothing.\<close>

definition with_db :: "(fr_db \<Rightarrow> fr_db option) \<Rightarrow> fr_db option \<Rightarrow> fr_db option option" where
  "with_db f g_db = (case g_db of None \<Rightarrow> Some None | Some db \<Rightarrow> map_option Some (f db))"

definition fr_put_owner :: "u64 \<Rightarrow> u64 \<Rightarrow> u32 \<Rightarrow> u32 \<Rightarrow> fr_db option \<Rightarrow> fr_db option option" where
  "fr_put_owner dev ino uid gid = with_db (fr_put (set_owner uid gid) dev ino)"

definition fr_put_mode :: "u64 \<Rightarrow> u64 \<Rightarrow> u32 \<Rightarrow> fr_db option \<Rightarrow> fr_db option option" where
  "fr_put_mode dev ino mode = with_db (fr_put (set_mode mode) dev ino)"

definition fr_put_node :: "u64 \<Rightarrow> u64 \<Rightarrow> u32 \<Rightarrow> u64 \<Rightarrow> fr_db option \<Rightarrow> fr_db option option" where
  "fr_put_node dev ino mode rdev = with_db (fr_put (set_node mode rdev) dev ino)"

section \<open>Overlays\<close>

record stat =
  st_dev :: u64
  st_ino :: u64
  st_mode :: u32
  st_uid :: u32
  st_gid :: u32
  st_rdev :: u64

record statx =
  stx_dev_major :: u32
  stx_dev_minor :: u32
  stx_ino :: u64
  stx_mode :: u16
  stx_uid :: u32
  stx_gid :: u32
  stx_rdev_major :: u32
  stx_rdev_minor :: u32

definition entry_rdev :: "alr_fr_entry \<Rightarrow> u64" where
  "entry_rdev e = push_bit 32 (ucast (f_rdev_hi e)) OR ucast (f_rdev_lo e)"

definition apply_entry :: "alr_fr_entry \<Rightarrow> stat \<Rightarrow> stat" where
  "apply_entry e st =
     (let fl = f_flags e;
          st = (if fl AND ALR_FR_F_HAVE_UIDGID \<noteq> 0 then st\<lparr>st_uid := f_uid e, st_gid := f_gid e\<rparr> else st);
          st = (if fl AND ALR_FR_F_HAVE_MODE \<noteq> 0 then st\<lparr>st_mode := f_mode e\<rparr> else st)
      in if fl AND ALR_FR_F_HAVE_RDEV \<noteq> 0 then st\<lparr>st_rdev := entry_rdev e\<rparr> else st)"

definition fr_overlay_stat :: "fr_db option \<Rightarrow> stat \<Rightarrow> stat option" where
  "fr_overlay_stat g_db st =
     (case g_db of
        None \<Rightarrow> Some st
      | Some db \<Rightarrow>
          (case fr_find db (st_dev st) (st_ino st) False of
             None \<Rightarrow> None
           | Some (None, _) \<Rightarrow> Some st
           | Some (Some p, slots) \<Rightarrow> Some (apply_entry (slots ! p) st)))"

definition fr_makedev :: "u32 \<Rightarrow> u32 \<Rightarrow> u64" where
  "fr_makedev maj mnr =
     ucast (mnr AND 0xFF) OR push_bit 8 (ucast (maj AND 0xFFF)) OR push_bit 12 (ucast (mnr AND NOT 0xFF)) OR
     push_bit 32 (ucast (maj AND NOT 0xFFF))"

definition rdev_major :: "u64 \<Rightarrow> u32" where
  "rdev_major rdev = ucast ((drop_bit 8 rdev AND 0xFFF) OR (drop_bit 32 rdev AND ucast (NOT (0xFFF :: u32))))"

definition rdev_minor :: "u64 \<Rightarrow> u32" where
  "rdev_minor rdev = ucast ((rdev AND 0xFF) OR (drop_bit 12 rdev AND ucast (NOT (0xFF :: u32))))"

definition apply_entry_statx :: "alr_fr_entry \<Rightarrow> statx \<Rightarrow> statx" where
  "apply_entry_statx e sx =
     (let fl = f_flags e;
          sx = (if fl AND ALR_FR_F_HAVE_UIDGID \<noteq> 0 then sx\<lparr>stx_uid := f_uid e, stx_gid := f_gid e\<rparr> else sx);
          sx = (if fl AND ALR_FR_F_HAVE_MODE \<noteq> 0 then sx\<lparr>stx_mode := ucast (f_mode e)\<rparr> else sx)
      in if fl AND ALR_FR_F_HAVE_RDEV \<noteq> 0
         then sx\<lparr>stx_rdev_major := rdev_major (entry_rdev e), stx_rdev_minor := rdev_minor (entry_rdev e)\<rparr> else sx)"

definition fr_overlay_statx :: "fr_db option \<Rightarrow> statx \<Rightarrow> statx option" where
  "fr_overlay_statx g_db sx =
     (case g_db of
        None \<Rightarrow> Some sx
      | Some db \<Rightarrow>
          (case fr_find db (fr_makedev (stx_dev_major sx) (stx_dev_minor sx)) (stx_ino sx) False of
             None \<Rightarrow> None
           | Some (None, _) \<Rightarrow> Some sx
           | Some (Some p, slots) \<Rightarrow> Some (apply_entry_statx (slots ! p) sx)))"

section \<open>Mapping the table\<close>

definition ALR_FR_MAGIC :: u64 where "ALR_FR_MAGIC = 0x414C524600314B46"

text \<open>The file behind the table and whether the calls on it succeed.\<close>

record db_file =
  df_open_ok :: bool
  df_truncate_ok :: bool
  df_map_ok :: bool
  df_magic :: u64
  df_nslots :: u64
  df_slots :: "alr_fr_entry list"

definition decimal_u64 :: "string \<Rightarrow> u64" where
  "decimal_u64 s =
     fold (\<lambda>c v. v * 10 + of_nat (byte_of c - 48)) (takeWhile (\<lambda>c. 48 \<le> byte_of c \<and> byte_of c \<le> 57) s) 0"

definition wanted_slots :: "string option \<Rightarrow> u64" where
  "wanted_slots s =
     (case s of
        None \<Rightarrow> 262144
      | Some s \<Rightarrow> if s = [] then 262144 else let v = decimal_u64 s in if 1024 \<le> v then v else 262144)"

text \<open>The rounding to a power of two: the loop may shift the bit out and then does not end.\<close>

partial_function (option) round_up_from :: "u64 \<Rightarrow> u64 \<Rightarrow> u64 option" where
  "round_up_from slots p2 = (if p2 < slots then round_up_from slots (push_bit 1 p2) else Some p2)"

definition sizeof_entry :: u64 where "sizeof_entry = 40"

definition mapped_slots :: "u64 \<Rightarrow> nat" where
  "mapped_slots slots = (unat (4096 + slots * sizeof_entry) - 4096) div 40"

definition resize_slots :: "nat \<Rightarrow> alr_fr_entry list \<Rightarrow> alr_fr_entry list" where
  "resize_slots n slots = take n slots @ replicate (n - length slots) empty_entry"

text \<open>The outer \<^const>\<open>None\<close> is the loop that does not end, the inner one a table that stays disabled.\<close>

definition fr_init_db :: "(string \<Rightarrow> string option) \<Rightarrow> db_file \<Rightarrow> fr_db option option" where
  "fr_init_db env file =
     (case env ''ALR_FAKEROOT_DB'' of
        None \<Rightarrow> Some None
      | Some path \<Rightarrow>
          if path = [] then Some None
          else
            Option.bind (round_up_from (wanted_slots (env ''ALR_FAKEROOT_DB_SLOTS'')) 1) (\<lambda>slots.
              if \<not> df_open_ok file \<or> \<not> df_truncate_ok file \<or> \<not> df_map_ok file then Some None
              else
                let magic = (if df_magic file = 0 then ALR_FR_MAGIC else df_magic file);
                    n_slots = (if df_magic file = 0 then slots else df_nslots file)
                in if magic \<noteq> ALR_FR_MAGIC \<or> n_slots = 0 then Some None
                   else Some (Some \<lparr>db_nslots = n_slots, db_slots = resize_slots (mapped_slots slots) (df_slots file)\<rparr>)))"

section \<open>Probing\<close>

text \<open>Where probing stops: at the entry, or at an empty slot.\<close>

primrec scan :: "alr_fr_entry list \<Rightarrow> u64 \<Rightarrow> u64 \<Rightarrow> nat list \<Rightarrow> (bool \<times> nat) option" where
  "scan slots dev ino [] = None"
| "scan slots dev ino (p # ps) =
     (if key_ino (slots ! p) = ino \<and> key_dev (slots ! p) = dev then Some (True, p)
      else if key_ino (slots ! p) = 0 then Some (False, p)
      else scan slots dev ino ps)"

lemma fr_find_from_scan:
  "list_all (\<lambda>p. p < length slots) ps \<Longrightarrow>
   fr_find_from slots dev ino create ps =
     Some (case scan slots dev ino ps of
         None \<Rightarrow> (None, slots)
       | Some (True, p) \<Rightarrow> (Some p, slots)
       | Some (False, p) \<Rightarrow> if create then (Some p, slots[p := (slots ! p)\<lparr>key_dev := dev\<rparr>]) else (None, slots))"
  by (induction ps) (auto simp: Let_def)

lemma scan_range: "scan slots dev ino ps = Some (b, p) \<Longrightarrow> p \<in> set ps"
  by (induction ps) (auto split: if_splits)

lemma scan_hit:
  "scan slots dev ino ps = Some (b, p) \<Longrightarrow>
   (if b then key_ino (slots ! p) = ino \<and> key_dev (slots ! p) = dev else key_ino (slots ! p) = 0)"
  by (induction ps) (auto split: if_splits)

lemma scan_None: "scan slots dev ino ps = None \<Longrightarrow> p \<in> set ps \<Longrightarrow> key_ino (slots ! p) \<noteq> 0"
  by (induction ps) (auto split: if_splits)

lemma scan_update_same:
  "scan slots dev ino ps = Some (b, p) \<Longrightarrow> p < length slots \<Longrightarrow> key_ino e = ino \<Longrightarrow> key_dev e = dev \<Longrightarrow>
   scan (slots[p := e]) dev ino ps = Some (True, p)"
proof (induction ps)
  case (Cons x ps)
  then show ?case by (cases "x = p") (auto split: if_splits)
qed simp

text \<open>A write of another key leaves a successful probe as it is; a slot it fills lies beyond every successful
  probe.\<close>

lemma scan_update_other:
  assumes "scan slots dev ino ps = Some (True, q)" "q \<noteq> p" "p < length slots" "key_ino e \<noteq> 0"
    "key_ino e \<noteq> ino \<or> key_dev e \<noteq> dev"
  shows "scan (slots[p := e]) dev ino ps = Some (True, q)"
  using assms(1)
proof (induction ps)
  case (Cons x ps)
  then show ?case using assms(2-) by (cases "x = p") (auto split: if_splits)
qed simp

text \<open>Where a probe is unsuccessful it stays so, unless its own key is written.\<close>

lemma scan_update_unsuccessful:
  assumes "p < length slots"
    "key_ino e \<noteq> 0" "key_ino e \<noteq> ino \<or> key_dev e \<noteq> dev"
    "\<And>r. r \<in> set ps \<Longrightarrow> key_ino (slots ! r) = ino \<Longrightarrow> key_dev (slots ! r) \<noteq> dev"
  shows "scan (slots[p := e]) dev ino ps \<noteq> Some (True, r)"
  using assms(4)
proof (induction ps)
  case (Cons x ps)
  then show ?case using assms(1-3) by (cases "x = p") (auto split: if_splits)
qed simp

section \<open>The invariant\<close>

text \<open>Every entry is where probing for its key finds it, and a slot that is not in use is blank.\<close>

definition table_ok :: "fr_db \<Rightarrow> bool" where
  "table_ok db \<longleftrightarrow>
     (\<exists>k < 64. unat (db_nslots db) = 2 ^ k) \<and> length (db_slots db) = unat (db_nslots db) \<and>
     (\<forall>p < length (db_slots db).
        let e = db_slots db ! p in
        if key_ino e = 0 then e = empty_entry
        else scan (db_slots db) (key_dev e) (key_ino e) (probes (db_nslots db) (key_dev e) (key_ino e)) = Some (True, p))"

type_synonym file_key = "u64 \<times> u64"

definition lookup :: "fr_db \<Rightarrow> file_key \<Rightarrow> alr_fr_entry option" where
  "lookup db k =
     (if snd k = 0 then None
      else case scan (db_slots db) (fst k) (snd k) (probes (db_nslots db) (fst k) (snd k)) of
          Some (True, p) \<Rightarrow> Some (db_slots db ! p)
        | _ \<Rightarrow> None)"

definition table_full :: "fr_db \<Rightarrow> bool" where
  "table_full db \<longleftrightarrow> list_all (\<lambda>e. key_ino e \<noteq> 0) (db_slots db)"

definition fresh_entry :: "file_key \<Rightarrow> alr_fr_entry" where
  "fresh_entry k = empty_entry\<lparr>key_dev := fst k, key_ino := snd k\<rparr>"

lemma unat_and_mask_pow2:
  fixes x m :: u64
  assumes "unat m = 2 ^ k" "k < 64"
  shows "unat (x AND (m - 1)) = unat x mod 2 ^ k"
proof -
  have "m \<noteq> 0" using assms(1) by auto
  then have "unat (m - 1) = 2 ^ k - 1" using assms(1) by (simp add: unat_minus_one)
  then have "unat (x AND (m - 1)) = unat x AND (2 ^ k - 1)" by (simp add: unsigned_and_eq)
  also have "\<dots> = take_bit k (unat x)" by (simp only: take_bit_eq_mask mask_eq_exp_minus_1)
  finally show ?thesis by (simp add: take_bit_eq_mod)
qed

lemma slot_index_eq:
  assumes "unat nslots = 2 ^ k" "k < 64"
  shows "slot_index nslots dev ino n = (unat (alr_fr_hash dev ino) + n) mod 2 ^ k"
proof -
  let ?h = "alr_fr_hash dev ino AND (nslots - 1)"
  have d: "2 ^ k dvd (2 ^ 64 :: nat)" using assms(2) by (intro le_imp_power_dvd) simp
  have "unat (?h + of_nat n) mod 2 ^ k = (unat ?h + n) mod 2 ^ k"
    using d by (simp add: unat_word_ariths unsigned_of_nat take_bit_eq_mod mod_mod_cancel mod_add_right_eq)
  then show ?thesis
    by (simp add: slot_index_def unat_and_mask_pow2 [OF assms] mod_add_left_eq)
qed

lemma set_probes:
  assumes "unat nslots = 2 ^ k" "k < 64"
  shows "set (probes nslots dev ino) = {0..<unat nslots}"
proof
  show "set (probes nslots dev ino) \<subseteq> {0..<unat nslots}"
    by (auto simp: probes_def slot_index_eq [OF assms] assms(1))
next
  let ?h = "unat (alr_fr_hash dev ino)" and ?n = "2 ^ k :: nat"
  show "{0..<unat nslots} \<subseteq> set (probes nslots dev ino)"
  proof
    fix p
    assume "p \<in> {0..<unat nslots}"
    then have p: "p < ?n" by (simp add: assms(1))
    let ?d = "(p + (?n - ?h mod ?n)) mod ?n"
    have "(?h + ?d) mod ?n = (?h mod ?n + (p + (?n - ?h mod ?n))) mod ?n"
      by (simp add: mod_add_right_eq mod_add_left_eq)
    also have "?h mod ?n + (p + (?n - ?h mod ?n)) = p + ?n"
    proof -
      have "?h mod ?n < ?n" by simp
      then show ?thesis by linarith
    qed
    finally have "(?h + ?d) mod ?n = p" using p by simp
    moreover have "?d < ?n" by simp
    ultimately show "p \<in> set (probes nslots dev ino)"
      unfolding probes_def set_map by (intro image_eqI [of _ _ ?d]) (simp_all add: slot_index_eq [OF assms] assms(1))
  qed
qed

lemma probes_in_range: "table_ok db \<Longrightarrow> list_all (\<lambda>p. p < length (db_slots db)) (probes (db_nslots db) dev ino)"
  using set_probes by (fastforce simp: table_ok_def list_all_iff)

lemma fr_find_lookup:
  assumes "table_ok db"
  shows "fr_find db dev ino False = Some (case lookup db (dev, ino) of None \<Rightarrow> None
      | Some e \<Rightarrow> (case scan (db_slots db) dev ino (probes (db_nslots db) dev ino) of Some (_, p) \<Rightarrow> Some p | None \<Rightarrow> None), db_slots db)"
  using fr_find_from_scan [OF probes_in_range [OF assms], of dev ino False]
  by (auto simp: fr_find_def lookup_def split: option.splits bool.splits)

text \<open>What the field setters leave alone.\<close>

definition keeps_key :: "(alr_fr_entry \<Rightarrow> alr_fr_entry) \<Rightarrow> bool" where
  "keeps_key f \<longleftrightarrow> (\<forall>e i. key_dev (f e) = key_dev e \<and> f (e\<lparr>key_ino := i\<rparr>) = (f e)\<lparr>key_ino := i\<rparr>)"

lemma keeps_key_setters [simp]: "keeps_key (set_owner uid gid)" "keeps_key (set_mode mode)" "keeps_key (set_node mode rdev)"
  by (simp_all add: keeps_key_def set_owner_def set_mode_def set_node_def)

lemma keeps_key_ino:
  assumes "keeps_key f"
  shows "key_ino (f e) = key_ino e"
proof -
  have upd: "key_ino (g\<lparr>key_ino := x\<rparr>) = x" for g :: alr_fr_entry and x by simp
  have same: "e\<lparr>key_ino := key_ino e\<rparr> = e" by simp
  have "f (e\<lparr>key_ino := key_ino e\<rparr>) = (f e)\<lparr>key_ino := key_ino e\<rparr>"
    using assms unfolding keeps_key_def by blast
  then have "f e = (f e)\<lparr>key_ino := key_ino e\<rparr>" unfolding same .
  then have "key_ino (f e) = key_ino ((f e)\<lparr>key_ino := key_ino e\<rparr>)" by (rule arg_cong)
  then show ?thesis unfolding upd .
qed

lemma lookup_key: "lookup db k = Some e \<Longrightarrow> (key_dev e, key_ino e) = k"
  by (cases k) (auto simp: lookup_def dest!: scan_hit split: option.splits bool.splits if_splits)

text \<open>One slot is rewritten: the claimed or found one of the key that is written.\<close>

lemma table_rewrite:
  fixes db dev ino p e b
  defines "db' \<equiv> db\<lparr>db_slots := (db_slots db)[p := e]\<rparr>"
  assumes ok: "table_ok db" and hit: "scan (db_slots db) dev ino (probes (db_nslots db) dev ino) = Some (b, p)"
    and e: "key_dev e = dev" "key_ino e = ino" and ino: "ino \<noteq> 0"
  shows "table_ok db'" and "lookup db' k = (if k = (dev, ino) then Some e else lookup db k)"
proof -
  let ?s = "db_slots db"
  have p: "p < length ?s" using scan_range [OF hit] probes_in_range [OF ok, of dev ino] by (auto simp: list_all_iff)
  have self: "scan (?s[p := e]) dev ino (probes (db_nslots db) dev ino) = Some (True, p)"
    using scan_update_same [OF hit p e(2,1)] .
  have hit': "if b then key_ino (?s ! p) = ino \<and> key_dev (?s ! p) = dev else key_ino (?s ! p) = 0" using scan_hit [OF hit] .
  have stored: "scan ?s (key_dev (?s ! q)) (key_ino (?s ! q)) (probes (db_nslots db) (key_dev (?s ! q)) (key_ino (?s ! q))) = Some (True, q)"
    if "q < length ?s" "key_ino (?s ! q) \<noteq> 0" for q
    using ok that by (auto simp: table_ok_def Let_def)
  have other: "scan (?s[p := e]) d i (probes (db_nslots db) d i) = Some (True, q)"
    if "scan ?s d i (probes (db_nslots db) d i) = Some (True, q)" "(d, i) \<noteq> (dev, ino)" "i \<noteq> 0" for d i q
  proof -
    have "key_ino (?s ! q) = i \<and> key_dev (?s ! q) = d" using scan_hit [OF that(1)] by simp
    then have "q \<noteq> p" using hit' that(2,3) by (auto split: if_splits)
    then show ?thesis using that e ino p by (intro scan_update_other) auto
  qed
  have sel: "db_nslots db' = db_nslots db" "db_slots db' = ?s[p := e]" by (simp_all add: db'_def)
  show "table_ok db'"
    unfolding table_ok_def sel length_list_update
  proof (intro conjI allI impI)
    show "\<exists>k < 64. unat (db_nslots db) = 2 ^ k" "length ?s = unat (db_nslots db)" using ok by (simp_all add: table_ok_def)
  next
    fix q
    assume q: "q < length ?s"
    show "let e' = ?s[p := e] ! q in if key_ino e' = 0 then e' = empty_entry
        else scan (?s[p := e]) (key_dev e') (key_ino e') (probes (db_nslots db) (key_dev e') (key_ino e')) = Some (True, q)"
    proof (cases "q = p")
      case True
      then show ?thesis using self e ino p by (simp add: Let_def)
    next
      case qp: False
      show ?thesis
      proof (cases "key_ino (?s ! q) = 0")
        case True
        then show ?thesis using ok q qp by (auto simp: table_ok_def Let_def)
      next
        case False
        have "(key_dev (?s ! q), key_ino (?s ! q)) \<noteq> (dev, ino)"
        proof
          assume "(key_dev (?s ! q), key_ino (?s ! q)) = (dev, ino)"
          then have "Some (b, p) = Some (True, q)" using stored [OF q False] hit by simp
          then show False using qp by simp
        qed
        then show ?thesis using other [OF stored [OF q False]] False qp by (simp add: Let_def)
      qed
    qed
  qed
  show "lookup db' k = (if k = (dev, ino) then Some e else lookup db k)"
  proof (cases "k = (dev, ino)")
    case True
    then show ?thesis using self ino p by (simp add: lookup_def db'_def)
  next
    case False
    obtain d i where k: "k = (d, i)" by (cases k)
    show ?thesis
    proof (cases "i = 0")
      case True
      then show ?thesis using False k by (simp add: lookup_def)
    next
      case i: False
      show ?thesis
      proof (cases "\<exists>q. scan ?s d i (probes (db_nslots db) d i) = Some (True, q)")
        case True
        then obtain q where q: "scan ?s d i (probes (db_nslots db) d i) = Some (True, q)" by blast
        have "q \<noteq> p" using scan_hit [OF q] hit' False i k by (auto split: if_splits)
        then show ?thesis using other [OF q] q False k i by (auto simp: lookup_def db'_def)
      next
        case none: False
        have "scan (?s[p := e]) d i (probes (db_nslots db) d i) \<noteq> Some (True, r)" for r
        proof (rule scan_update_unsuccessful [OF p])
          show "key_ino e \<noteq> 0" "key_ino e \<noteq> i \<or> key_dev e \<noteq> d" using e ino False k by auto
          fix r
          assume r: "r \<in> set (probes (db_nslots db) d i)" "key_ino (?s ! r) = i"
          then have "r < length ?s" using probes_in_range [OF ok, of d i] by (auto simp: list_all_iff)
          then show "key_dev (?s ! r) \<noteq> d" using stored [of r] none r(2) i by auto
        qed
        then show ?thesis using none False k by (auto simp: lookup_def db'_def split: option.splits bool.splits)
      qed
    qed
  qed
qed

section \<open>The table is a map\<close>

text \<open>A store of records under keys that may fill up: what a client relies on.\<close>

locale metadata_store =
  fixes inv :: "'s \<Rightarrow> bool"
    and find_meta :: "'s \<Rightarrow> 'k \<Rightarrow> 'v option"
    and update_meta :: "('v \<Rightarrow> 'v) \<Rightarrow> 'k \<Rightarrow> 's \<Rightarrow> 's option"
    and fresh :: "'k \<Rightarrow> 'v"
    and good :: "('v \<Rightarrow> 'v) \<Rightarrow> bool"
    and valid :: "'k \<Rightarrow> bool"
    and full :: "'s \<Rightarrow> bool"
    and cap :: "'s \<Rightarrow> nat"
  assumes update_law: "inv s \<Longrightarrow> good f \<Longrightarrow> \<exists>s'. update_meta f k s = Some s' \<and> inv s' \<and> cap s' = cap s \<and>
      (\<forall>k'. find_meta s' k' =
         (if k' = k \<and> valid k \<and> (find_meta s k \<noteq> None \<or> \<not> full s)
          then Some (f (case find_meta s k of None \<Rightarrow> fresh k | Some v \<Rightarrow> v)) else find_meta s k'))"
    and full_law: "inv s \<Longrightarrow> full s \<Longrightarrow> finite (dom (find_meta s)) \<and> cap s \<le> card (dom (find_meta s))"
begin

text \<open>A history of writes, each to one key.\<close>

primrec run :: "('k \<times> ('v \<Rightarrow> 'v)) list \<Rightarrow> 's \<Rightarrow> 's option" where
  "run [] s = Some s"
| "run (w # ws) s = Option.bind (update_meta (snd w) (fst w) s) (run ws)"

definition written :: "'k \<Rightarrow> ('k \<times> ('v \<Rightarrow> 'v)) list \<Rightarrow> 'v option \<Rightarrow> 'v option" where
  "written k ws v = fold (\<lambda>w v. if fst w = k \<and> valid k then Some (snd w (case v of None \<Rightarrow> fresh k | Some v \<Rightarrow> v)) else v) ws v"

lemma written_Cons: "written k (w # ws) v =
    written k ws (if fst w = k \<and> valid k then Some (snd w (case v of None \<Rightarrow> fresh k | Some v \<Rightarrow> v)) else v)"
  by (simp add: written_def)

text \<open>As long as the keys fit, every key holds the effect of its own writes, in their order.\<close>

lemma history:
  assumes "inv s" "\<And>w. w \<in> set ws \<Longrightarrow> good (snd w)" "finite K" "dom (find_meta s) \<union> fst ` set ws \<subseteq> K" "card K \<le> cap s"
  shows "\<exists>s'. run ws s = Some s' \<and> inv s' \<and> (\<forall>k. find_meta s' k = written k ws (find_meta s k))"
  using assms
proof (induction ws arbitrary: s)
  case Nil
  then show ?case by (simp add: written_def)
next
  case (Cons w ws)
  obtain s1 where s1: "update_meta (snd w) (fst w) s = Some s1" "inv s1" "cap s1 = cap s"
    and find1: "\<And>k'. find_meta s1 k' =
         (if k' = fst w \<and> valid (fst w) \<and> (find_meta s (fst w) \<noteq> None \<or> \<not> full s)
          then Some (snd w (case find_meta s (fst w) of None \<Rightarrow> fresh (fst w) | Some v \<Rightarrow> v)) else find_meta s k')"
    using update_law [of s "snd w" "fst w"] Cons.prems(1,2) by auto
  have room: "\<not> full s" if "find_meta s (fst w) = None"
  proof
    assume "full s"
    then have "cap s \<le> card (dom (find_meta s))" "finite (dom (find_meta s))" using full_law Cons.prems(1) by auto
    moreover have "card (dom (find_meta s)) < card K"
      using Cons.prems(3,4) that by (intro psubset_card_mono) auto
    ultimately show False using Cons.prems(5) by simp
  qed
  have find1': "find_meta s1 k' =
      (if fst w = k' \<and> valid k' then Some (snd w (case find_meta s k' of None \<Rightarrow> fresh k' | Some v \<Rightarrow> v)) else find_meta s k')" for k'
    using find1 [of k'] room by auto
  have "dom (find_meta s1) \<subseteq> insert (fst w) (dom (find_meta s))" by (auto simp: find1' split: if_splits)
  then have "dom (find_meta s1) \<subseteq> K" using Cons.prems(4) by auto
  then have "\<exists>s'. run ws s1 = Some s' \<and> inv s' \<and> (\<forall>k. find_meta s' k = written k ws (find_meta s1 k))"
    using Cons.prems s1 by (intro Cons.IH) auto
  then show ?case using s1 by (auto simp: written_Cons find1')
qed

end

lemma table_ok_slot:
  "table_ok db \<Longrightarrow> p < length (db_slots db) \<Longrightarrow> key_ino (db_slots db ! p) = 0 \<Longrightarrow> db_slots db ! p = empty_entry"
  by (auto simp: table_ok_def Let_def)

lemma table_ok_stored:
  "table_ok db \<Longrightarrow> p < length (db_slots db) \<Longrightarrow> key_ino (db_slots db ! p) \<noteq> 0 \<Longrightarrow>
   lookup db (key_dev (db_slots db ! p), key_ino (db_slots db ! p)) = Some (db_slots db ! p)"
  by (simp add: table_ok_def lookup_def Let_def)

lemma fr_put_law:
  assumes ok: "table_ok db" and f: "keeps_key f"
  shows "\<exists>db'. fr_put f (fst k) (snd k) db = Some db' \<and> table_ok db' \<and> length (db_slots db') = length (db_slots db) \<and>
    (\<forall>k'. lookup db' k' =
       (if k' = k \<and> snd k \<noteq> 0 \<and> (lookup db k \<noteq> None \<or> \<not> table_full db)
        then Some (f (case lookup db k of None \<Rightarrow> fresh_entry k | Some e \<Rightarrow> e)) else lookup db k'))"
proof -
  obtain dev ino where k: "k = (dev, ino)" by (cases k)
  let ?s = "db_slots db" and ?ps = "probes (db_nslots db) dev ino"
  note find = fr_find_from_scan [OF probes_in_range [OF ok], of dev ino True]
  show ?thesis
  proof (cases "ino = 0")
    case True
    then show ?thesis using ok k by (auto simp: fr_put_def fr_find_def)
  next
    case ino: False
    show ?thesis
    proof (cases "scan ?s dev ino ?ps")
      case None
      have "{0..<unat (db_nslots db)} = set ?ps" using ok set_probes by (auto simp: table_ok_def)
      then have "table_full db"
        using scan_None [OF None] ok unfolding table_full_def list_all_length table_ok_def by (metis atLeastLessThan_iff le0)
      moreover have "lookup db k = None" using None ino k by (simp add: lookup_def)
      ultimately show ?thesis using None ok k ino find by (auto simp: fr_put_def fr_find_def)
    next
      case (Some bp)
      obtain b p where bp: "bp = (b, p)" by (cases bp)
      have hit: "scan ?s dev ino ?ps = Some (b, p)" using Some bp by simp
      have p: "p < length ?s" using scan_range [OF hit] probes_in_range [OF ok, of dev ino] by (auto simp: list_all_iff)
      define e0 where "e0 = (if b then ?s ! p else empty_entry\<lparr>key_dev := dev\<rparr>)"
      define e where "e = (f e0)\<lparr>key_ino := ino\<rparr>"
      have old: "lookup db k = (if b then Some (?s ! p) else None)" using hit ino k by (auto simp: lookup_def)
      have blank: "\<not> b \<Longrightarrow> ?s ! p = empty_entry" using scan_hit [OF hit] table_ok_slot [OF ok p] by simp
      have put: "fr_put f dev ino db = Some (db\<lparr>db_slots := ?s[p := e]\<rparr>)"
        using hit ino find blank p by (cases b) (simp_all add: fr_put_def fr_find_def e_def e0_def)
      have "key_dev e = dev" "key_ino e = ino"
        using f scan_hit [OF hit] by (auto simp: e_def e0_def keeps_key_def)
      note new = table_rewrite [OF ok hit this ino]
      have room: "\<not> b \<Longrightarrow> \<not> table_full db"
        using scan_hit [OF hit] p by (auto simp: table_full_def list_all_length)
      have "e = f (e0\<lparr>key_ino := ino\<rparr>)" using f by (simp add: e_def keeps_key_def)
      moreover have "e0\<lparr>key_ino := ino\<rparr> = (case lookup db k of None \<Rightarrow> fresh_entry k | Some x \<Rightarrow> x)"
        using old scan_hit [OF hit] by (cases b) (auto simp: e0_def fresh_entry_def k)
      ultimately have "e = f (case lookup db k of None \<Rightarrow> fresh_entry k | Some x \<Rightarrow> x)" by simp
      then show ?thesis using put new room old ino k by auto
    qed
  qed
qed

lemma table_full_card:
  assumes ok: "table_ok db" and full: "table_full db"
  shows "finite (dom (lookup db)) \<and> length (db_slots db) \<le> card (dom (lookup db))"
proof -
  let ?s = "db_slots db"
  let ?key = "\<lambda>p. (key_dev (?s ! p), key_ino (?s ! p))"
  have hit: "lookup db (?key p) = Some (?s ! p)" "key_ino (?s ! p) \<noteq> 0" if "p < length ?s" for p
    using table_ok_stored [OF ok that] full that by (auto simp: table_full_def list_all_length)
  have "inj_on ?key {0..<length ?s}"
  proof (rule inj_onI)
    fix p q
    assume pq: "p \<in> {0..<length ?s}" "q \<in> {0..<length ?s}" "?key p = ?key q"
    define g where "g k = scan ?s (fst k) (snd k) (probes (db_nslots db) (fst k) (snd k))" for k
    have found: "g (?key r) = Some (True, r)" if "r < length ?s" for r
      using ok hit(2) [OF that] that unfolding g_def table_ok_def Let_def fst_conv snd_conv by meson
    have "g (?key p) = g (?key q)" using pq(3) by (rule arg_cong)
    then show "p = q" using found [of p] found [of q] pq(1,2) by simp
  qed
  then have "card (?key ` {0..<length ?s}) = length ?s" by (simp add: card_image)
  moreover have "?key ` {0..<length ?s} \<subseteq> dom (lookup db)" using hit(1) by auto
  moreover have fin: "finite (dom (lookup db))"
  proof (rule finite_subset)
    show "dom (lookup db) \<subseteq> (\<lambda>e. (key_dev e, key_ino e)) ` set ?s"
    proof
      fix k
      assume "k \<in> dom (lookup db)"
      then obtain e where e: "lookup db k = Some e" by blast
      then obtain p where "p \<in> set (probes (db_nslots db) (fst k) (snd k))" "e = ?s ! p"
        by (auto simp: lookup_def dest: scan_range split: if_splits option.splits bool.splits)
      then have "e \<in> set ?s" using probes_in_range [OF ok, of "fst k" "snd k"] by (auto simp: list_all_iff)
      then show "k \<in> (\<lambda>e. (key_dev e, key_ino e)) ` set ?s" using lookup_key [OF e] by force
    qed
  qed simp
  ultimately show ?thesis using card_mono [OF fin, of "?key ` {0..<length ?s}"] by (simp only:)
qed

interpretation frdb: metadata_store table_ok lookup "\<lambda>f k. fr_put f (fst k) (snd k)" fresh_entry keeps_key "\<lambda>k. snd k \<noteq> 0"
  table_full "\<lambda>db. length (db_slots db)"
proof
  fix s f k
  assume "table_ok s" "keeps_key f"
  from fr_put_law [OF this, of k]
  show "\<exists>s'. fr_put f (fst k) (snd k) s = Some s' \<and> table_ok s' \<and> length (db_slots s') = length (db_slots s) \<and>
      (\<forall>k'. lookup s' k' =
         (if k' = k \<and> snd k \<noteq> 0 \<and> (lookup s k \<noteq> None \<or> \<not> table_full s)
          then Some (f (case lookup s k of None \<Rightarrow> fresh_entry k | Some v \<Rightarrow> v)) else lookup s k'))" .
next
  fix s
  assume "table_ok s" "table_full s"
  then show "finite (dom (lookup s)) \<and> length (db_slots s) \<le> card (dom (lookup s))" by (rule table_full_card)
qed

section \<open>What a file looks like after a history\<close>

text \<open>The recorded operations and their intended effect on what \<^verbatim>\<open>stat\<close> reports.\<close>

datatype meta_write = Chown u32 u32 | Chmod u32 | Mknod u32 u64

primrec record_write :: "file_key \<Rightarrow> meta_write \<Rightarrow> fr_db option \<Rightarrow> fr_db option option" where
  "record_write k (Chown uid gid) = fr_put_owner (fst k) (snd k) uid gid"
| "record_write k (Chmod mode) = fr_put_mode (fst k) (snd k) mode"
| "record_write k (Mknod mode rdev) = fr_put_node (fst k) (snd k) mode rdev"

primrec record_writes :: "(file_key \<times> meta_write) list \<Rightarrow> fr_db option \<Rightarrow> fr_db option option" where
  "record_writes [] g_db = Some g_db"
| "record_writes (w # ws) g_db = Option.bind (record_write (fst w) (snd w) g_db) (record_writes ws)"

primrec intended :: "meta_write \<Rightarrow> stat \<Rightarrow> stat" where
  "intended (Chown uid gid) st = st\<lparr>st_uid := uid, st_gid := gid\<rparr>"
| "intended (Chmod mode) st = st\<lparr>st_mode := mode\<rparr>"
| "intended (Mknod mode rdev) st = st\<lparr>st_mode := mode, st_rdev := rdev\<rparr>"

definition replayed :: "(file_key \<times> meta_write) list \<Rightarrow> stat \<Rightarrow> stat" where
  "replayed ws st =
     (if st_ino st = 0 then st
      else fold (\<lambda>w. if fst w = (st_dev st, st_ino st) then intended (snd w) else id) ws st)"

primrec setter :: "meta_write \<Rightarrow> alr_fr_entry \<Rightarrow> alr_fr_entry" where
  "setter (Chown uid gid) = set_owner uid gid"
| "setter (Chmod mode) = set_mode mode"
| "setter (Mknod mode rdev) = set_node mode rdev"

lemma keeps_key_setter: "keeps_key (setter w)"
  by (cases w) simp_all

lemma record_write_put: "record_write k w (Some db) = map_option Some (fr_put (setter w) (fst k) (snd k) db)"
  by (cases w) (simp_all add: fr_put_owner_def fr_put_mode_def fr_put_node_def with_db_def)

lemma record_writes_run: "record_writes ws (Some db) = map_option Some (frdb.run (map (\<lambda>w. (fst w, setter (snd w))) ws) db)"
proof (induction ws arbitrary: db)
  case (Cons w ws)
  then show ?case
    by (cases "fr_put (setter (snd w)) (fst (fst w)) (snd (fst w)) db") (simp_all add: record_write_put)
qed simp

lemma flag_bits:
  "(fl OR ALR_FR_F_HAVE_UIDGID) AND ALR_FR_F_HAVE_UIDGID \<noteq> 0"
  "(fl OR ALR_FR_F_HAVE_UIDGID) AND ALR_FR_F_HAVE_MODE = fl AND ALR_FR_F_HAVE_MODE"
  "(fl OR ALR_FR_F_HAVE_UIDGID) AND ALR_FR_F_HAVE_RDEV = fl AND ALR_FR_F_HAVE_RDEV"
  "(fl OR ALR_FR_F_HAVE_MODE) AND ALR_FR_F_HAVE_UIDGID = fl AND ALR_FR_F_HAVE_UIDGID"
  "(fl OR ALR_FR_F_HAVE_MODE) AND ALR_FR_F_HAVE_MODE \<noteq> 0"
  "(fl OR ALR_FR_F_HAVE_MODE) AND ALR_FR_F_HAVE_RDEV = fl AND ALR_FR_F_HAVE_RDEV"
  "(fl OR (ALR_FR_F_HAVE_MODE OR ALR_FR_F_HAVE_RDEV)) AND ALR_FR_F_HAVE_UIDGID = fl AND ALR_FR_F_HAVE_UIDGID"
  "(fl OR (ALR_FR_F_HAVE_MODE OR ALR_FR_F_HAVE_RDEV)) AND ALR_FR_F_HAVE_MODE \<noteq> 0"
  "(fl OR (ALR_FR_F_HAVE_MODE OR ALR_FR_F_HAVE_RDEV)) AND ALR_FR_F_HAVE_RDEV \<noteq> 0"
  by (simp_all add: ALR_FR_F_HAVE_UIDGID_def ALR_FR_F_HAVE_MODE_def ALR_FR_F_HAVE_RDEV_def bit.conj_disj_distrib2
      flip: or.assoc)

lemma flags_nonzero [simp]: "ALR_FR_F_HAVE_UIDGID \<noteq> 0" "ALR_FR_F_HAVE_MODE \<noteq> 0" "ALR_FR_F_HAVE_RDEV \<noteq> 0"
  by (simp_all add: ALR_FR_F_HAVE_UIDGID_def ALR_FR_F_HAVE_MODE_def ALR_FR_F_HAVE_RDEV_def)

lemma entry_rdev_set_node: "entry_rdev (set_node mode rdev e) = rdev"
proof (rule bit_eqI)
  fix n
  assume "possible_bit TYPE(u64) n"
  then show "bit (entry_rdev (set_node mode rdev e)) n = bit rdev n"
    by (cases "n < 32") (auto simp: entry_rdev_def set_node_def bit_simps)
qed

lemma entry_rdev_setters [simp]: "entry_rdev (set_owner uid gid e) = entry_rdev e" "entry_rdev (set_mode mode e) = entry_rdev e"
  by (simp_all add: entry_rdev_def set_owner_def set_mode_def)

lemma apply_entry_fields:
  "st_dev (apply_entry e st) = st_dev st" "st_ino (apply_entry e st) = st_ino st"
  "st_uid (apply_entry e st) = (if f_flags e AND ALR_FR_F_HAVE_UIDGID \<noteq> 0 then f_uid e else st_uid st)"
  "st_gid (apply_entry e st) = (if f_flags e AND ALR_FR_F_HAVE_UIDGID \<noteq> 0 then f_gid e else st_gid st)"
  "st_mode (apply_entry e st) = (if f_flags e AND ALR_FR_F_HAVE_MODE \<noteq> 0 then f_mode e else st_mode st)"
  "st_rdev (apply_entry e st) = (if f_flags e AND ALR_FR_F_HAVE_RDEV \<noteq> 0 then entry_rdev e else st_rdev st)"
  by (simp_all add: apply_entry_def Let_def)

lemma setter_fields:
  "f_uid (set_mode m e) = f_uid e" "f_gid (set_mode m e) = f_gid e" "f_mode (set_mode m e) = m"
  "f_flags (set_mode m e) = f_flags e OR ALR_FR_F_HAVE_MODE"
  "f_uid (set_owner u g e) = u" "f_gid (set_owner u g e) = g" "f_mode (set_owner u g e) = f_mode e"
  "f_flags (set_owner u g e) = f_flags e OR ALR_FR_F_HAVE_UIDGID"
  "f_uid (set_node m r e) = f_uid e" "f_gid (set_node m r e) = f_gid e" "f_mode (set_node m r e) = m"
  "f_flags (set_node m r e) = f_flags e OR (ALR_FR_F_HAVE_MODE OR ALR_FR_F_HAVE_RDEV)"
  by (simp_all add: set_mode_def set_owner_def set_node_def)

lemma apply_setter: "apply_entry (setter w e) st = intended w (apply_entry e st)"
  by (rule stat.equality; cases w)
     (simp_all add: apply_entry_fields setter_fields flag_bits entry_rdev_set_node)

lemma apply_fresh: "apply_entry (fresh_entry k) st = st"
  by (simp add: apply_entry_def fresh_entry_def empty_entry_def)

lemma overlay_lookup:
  assumes "table_ok db"
  shows "fr_overlay_stat (Some db) st =
    Some (case lookup db (st_dev st, st_ino st) of None \<Rightarrow> st | Some e \<Rightarrow> apply_entry e st)"
  by (simp add: fr_overlay_stat_def fr_find_lookup [OF assms])
     (auto simp: lookup_def split: option.splits bool.splits if_splits)

text \<open>The entry after a history, applied to what the kernel reports.\<close>

definition apply_opt :: "alr_fr_entry option \<Rightarrow> stat \<Rightarrow> stat" where
  "apply_opt v st = (case v of None \<Rightarrow> st | Some e \<Rightarrow> apply_entry e st)"

lemma apply_written:
  assumes "snd k \<noteq> 0"
  shows "apply_opt (frdb.written k (map (\<lambda>w. (fst w, setter (snd w))) ws) v) st =
    fold (\<lambda>w. if fst w = k then intended (snd w) else id) ws (apply_opt v st)"
proof (induction ws arbitrary: v)
  case Nil
  then show ?case by (simp add: frdb.written_def)
next
  case (Cons w ws)
  have "apply_opt (if fst w = k \<and> snd k \<noteq> 0 then Some (setter (snd w) (case v of None \<Rightarrow> fresh_entry k | Some e \<Rightarrow> e)) else v) st =
      (if fst w = k then intended (snd w) else id) (apply_opt v st)"
    using assms by (cases v) (simp_all add: apply_opt_def apply_setter apply_fresh)
  then show ?case
    using assms Cons [of "if fst w = k \<and> snd k \<noteq> 0 then Some (setter (snd w) (case v of None \<Rightarrow> fresh_entry k | Some e \<Rightarrow> e)) else v"]
    by (cases "fst w = k") (simp_all add: frdb.written_Cons)
qed

lemma fresh_table_ok:
  assumes "unat n = 2 ^ k" "k < 64"
  shows "table_ok \<lparr>db_nslots = n, db_slots = replicate (unat n) empty_entry\<rparr>"
    and "lookup \<lparr>db_nslots = n, db_slots = replicate (unat n) empty_entry\<rparr> key = None"
proof -
  show "table_ok \<lparr>db_nslots = n, db_slots = replicate (unat n) empty_entry\<rparr>"
    using assms by (auto simp: table_ok_def empty_entry_def)
  note ok = this
  show "lookup \<lparr>db_nslots = n, db_slots = replicate (unat n) empty_entry\<rparr> key = None"
  proof (rule ccontr)
    let ?db = "\<lparr>db_nslots = n, db_slots = replicate (unat n) empty_entry\<rparr>"
    assume "lookup ?db key \<noteq> None"
    then obtain p where p: "scan (db_slots ?db) (fst key) (snd key) (probes (db_nslots ?db) (fst key) (snd key)) = Some (True, p)"
      and ino: "snd key \<noteq> 0"
      by (auto simp: lookup_def split: option.splits bool.splits if_splits)
    have "p < unat n" using scan_range [OF p] probes_in_range [OF ok, of "fst key" "snd key"] by (simp add: list_all_iff)
    then show False using scan_hit [OF p] ino by (simp add: empty_entry_def)
  qed
qed

section \<open>Mapping a new table\<close>

lemma round_up_pow2:
  "unat p2 = 2 ^ j \<Longrightarrow> j < 64 \<Longrightarrow> unat slots \<le> 2 ^ m \<Longrightarrow> m < 64 \<Longrightarrow>
   \<exists>k < 64. \<exists>r. round_up_from slots p2 = Some r \<and> unat r = 2 ^ k \<and> slots \<le> r \<and> k \<le> max j m"
proof (induction "m - j" arbitrary: j p2)
  case 0
  then have "unat slots \<le> unat p2" by (metis diff_is_0_eq order.trans power_increasing one_le_numeral)
  then show ?case using 0 by (subst round_up_from.simps) (auto simp: word_le_nat_alt word_less_nat_alt)
next
  case (Suc d)
  show ?case
  proof (cases "p2 < slots")
    case False
    then show ?thesis using Suc.prems by (subst round_up_from.simps) auto
  next
    case True
    have jm: "j < m" using Suc.hyps(2) by simp
    have "push_bit 1 p2 = 2 * p2" by (simp add: push_bit_eq_mult)
    then have "unat (push_bit 1 p2) = 2 ^ Suc j"
    proof -
      have "2 ^ Suc j < (2 ^ 64 :: nat)" using jm Suc.prems(4) by (intro power_strict_increasing) auto
      then show ?thesis using Suc.prems(1) \<open>push_bit 1 p2 = 2 * p2\<close> by (simp add: unat_word_ariths)
    qed
    moreover have "d = m - Suc j" using Suc.hyps(2) by simp
    ultimately have "\<exists>k < 64. \<exists>r. round_up_from slots (push_bit 1 p2) = Some r \<and> unat r = 2 ^ k \<and> slots \<le> r \<and> k \<le> max (Suc j) m"
      using Suc.hyps(1) [of "Suc j" "push_bit 1 p2"] Suc.prems jm by auto
    then show ?thesis using True jm by (subst round_up_from.simps) auto
  qed
qed

text \<open>Beyond the largest power of two the loop shifts the bit out and never ends.\<close>

lemma round_up_zero: "slots \<noteq> 0 \<Longrightarrow> round_up_from slots 0 = None"
proof (rule ccontr)
  assume s: "slots \<noteq> 0" and "round_up_from slots 0 \<noteq> None"
  then obtain r where "round_up_from slots 0 = Some r" by blast
  have step: "\<not> (slots \<noteq> 0 \<and> p2 = 0)"
    if "\<And>s p y. loop s p = Some y \<Longrightarrow> \<not> (s \<noteq> 0 \<and> p = 0)" "(if p2 < slots then loop slots (push_bit 1 p2) else Some p2) = Some y"
    for loop and slots p2 y :: u64
    using that(1) [of slots 0 y] that(2) by (auto simp: word_greater_zero_iff)
  have "\<not> (slots \<noteq> 0 \<and> (0 :: u64) = 0)"
    by (rule round_up_from.raw_induct [of "\<lambda>slots p2 y. \<not> (slots \<noteq> 0 \<and> p2 = 0)", OF _ \<open>round_up_from slots 0 = Some r\<close>])
       (rule step)
  with s show False by simp
qed

text \<open>A table that was just created has a power of two of blank slots, all of them mapped.\<close>

lemma mapped_slots_small: "unat slots \<le> 2 ^ 58 \<Longrightarrow> mapped_slots slots = unat slots"
  by (simp add: mapped_slots_def sizeof_entry_def unat_word_ariths)

lemma init_fresh:
  assumes init: "fr_init_db env file = Some (Some db)" and new: "df_magic file = 0" "df_slots file = []"
    and size: "unat (wanted_slots (env ''ALR_FAKEROOT_DB_SLOTS'')) \<le> 2 ^ 58"
  shows "table_ok db \<and> lookup db k = None \<and> unat (wanted_slots (env ''ALR_FAKEROOT_DB_SLOTS'')) \<le> length (db_slots db)"
proof -
  let ?w = "wanted_slots (env ''ALR_FAKEROOT_DB_SLOTS'')"
  obtain j r where r: "round_up_from ?w 1 = Some r" "unat r = 2 ^ j" "?w \<le> r" "j \<le> 58" "j < 64"
    using round_up_pow2 [of 1 0 ?w 58] size by auto
  then have "unat r \<le> 2 ^ 58" using power_increasing [of j 58 "2 :: nat"] by simp
  then have m: "mapped_slots r = unat r" by (rule mapped_slots_small)
  have "db = \<lparr>db_nslots = r, db_slots = replicate (unat r) empty_entry\<rparr>"
    using init new r(1) m
    by (auto simp: fr_init_db_def resize_slots_def split: option.splits if_splits)
  then show ?thesis using fresh_table_ok [OF r(2,5)] r(3) by (simp add: word_le_nat_alt)
qed

text \<open>C30. A file reads back as it was changed.  Take a table that was just created for at most 2 to the 58 slots and any
  sequence of recorded changes of owner, mode and node on any files, of which there are no more than the requested
  slots.  Then recording never touches memory outside the mapping and never loses a change, and what \<^verbatim>\<open>stat\<close> reports for
  any file is what the kernel reports with the changes to that file, and to no other, applied in order.\<close>

theorem fakeroot_reads_back:
  assumes "fr_init_db env file = Some (Some db)" "df_magic file = 0" "df_slots file = []"
    and "unat (wanted_slots (env ''ALR_FAKEROOT_DB_SLOTS'')) \<le> 2 ^ 58"
    and "card (fst ` set ws) \<le> unat (wanted_slots (env ''ALR_FAKEROOT_DB_SLOTS''))"
  shows "\<exists>db'. record_writes ws (Some db) = Some (Some db') \<and>
    fr_overlay_stat (Some db') st = Some (replayed ws st)"
proof -
  let ?ws = "map (\<lambda>w. (fst w, setter (snd w))) ws"
  have fresh: "table_ok db" "lookup db k = None"
    "unat (wanted_slots (env ''ALR_FAKEROOT_DB_SLOTS'')) \<le> length (db_slots db)" for k
    using init_fresh [OF assms(1-4), of k] by blast+
  have "card (fst ` set ws) \<le> length (db_slots db)" using assms(5) fresh(3) by (rule order.trans)
  moreover have "fst ` set ?ws = fst ` set ws" by force
  ultimately have "\<exists>db'. frdb.run ?ws db = Some db' \<and> table_ok db' \<and> (\<forall>k. lookup db' k = frdb.written k ?ws (lookup db k))"
    using fresh(1,2) by (intro frdb.history [where K = "fst ` set ws"]) (auto simp: keeps_key_setter dom_def)
  then obtain db' where db': "frdb.run ?ws db = Some db'" "table_ok db'" "\<And>k. lookup db' k = frdb.written k ?ws (lookup db k)"
    by blast
  have "fr_overlay_stat (Some db') st = Some (apply_opt (lookup db' (st_dev st, st_ino st)) st)"
    by (simp add: overlay_lookup [OF db'(2)] apply_opt_def)
  also have "apply_opt (lookup db' (st_dev st, st_ino st)) st = replayed ws st"
  proof (cases "st_ino st = 0")
    case True
    then show ?thesis by (simp add: replayed_def apply_opt_def lookup_def)
  next
    case False
    then show ?thesis
      using apply_written [of "(st_dev st, st_ino st)" ws "lookup db (st_dev st, st_ino st)" st] fresh(2)
      by (simp add: db'(3) replayed_def apply_opt_def)
  qed
  finally show ?thesis using db'(1) by (simp add: record_writes_run)
qed

text \<open>Two changes to one file and one to another, in a new table of the default size.\<close>

theorem fakeroot_reads_back_witness:
  "\<exists>db db'. fr_init_db [''ALR_FAKEROOT_DB'' \<mapsto> ''/db''] \<lparr>df_open_ok = True, df_truncate_ok = True, df_map_ok = True,
        df_magic = 0, df_nslots = 0, df_slots = []\<rparr> = Some (Some db) \<and>
     record_writes [((7, 42), Chown 0 5), ((7, 43), Chown 1 1), ((7, 42), Chmod 0x81ED)] (Some db) = Some (Some db') \<and>
     fr_overlay_stat (Some db') \<lparr>st_dev = 7, st_ino = 42, st_mode = 0x81A4, st_uid = 9, st_gid = 9, st_rdev = 0\<rparr> =
       Some \<lparr>st_dev = 7, st_ino = 42, st_mode = 0x81ED, st_uid = 0, st_gid = 5, st_rdev = 0\<rparr>"
proof -
  let ?env = "[''ALR_FAKEROOT_DB'' \<mapsto> ''/db'']"
  let ?file = "\<lparr>df_open_ok = True, df_truncate_ok = True, df_map_ok = True, df_magic = 0, df_nslots = 0, df_slots = []\<rparr>"
  let ?ws = "[((7, 42), Chown 0 5), ((7, 43), Chown 1 1), ((7, 42), Chmod 0x81ED)]"
  have w: "wanted_slots (?env ''ALR_FAKEROOT_DB_SLOTS'') = 262144" by (simp add: wanted_slots_def)
  obtain r :: u64 where r: "round_up_from 262144 1 = Some r" "262144 \<le> r"
    using round_up_pow2 [of 1 0 262144 18] by auto
  then have "r \<noteq> 0" by auto
  then obtain db where db: "fr_init_db ?env ?file = Some (Some db)" using r(1) w by (simp add: fr_init_db_def ALR_FR_MAGIC_def)
  have c: "card (fst ` set ?ws) \<le> unat (wanted_slots (?env ''ALR_FAKEROOT_DB_SLOTS''))"
    unfolding w by (simp add: card_insert_if)
  have "unat (wanted_slots (?env ''ALR_FAKEROOT_DB_SLOTS'')) \<le> 2 ^ 58" unfolding w by simp
  from fakeroot_reads_back [OF db _ _ this c,
      of "\<lparr>st_dev = 7, st_ino = 42, st_mode = 0x81A4, st_uid = 9, st_gid = 9, st_rdev = 0\<rparr>"]
  show ?thesis using db by (auto simp: replayed_def simp del: record_writes.simps)
qed

section \<open>Device numbers\<close>

text \<open>Splitting a device number undoes composing it, so the two forms of \<^verbatim>\<open>stat\<close> use the same keys.\<close>

lemma low_bits: "x AND 0xFF = take_bit 8 x" "x AND 0xFFF = take_bit 12 x" for x :: "'a :: len word"
  by (simp_all add: take_bit_eq_mask mask_eq_exp_minus_1)

definition clear_low :: "nat \<Rightarrow> 'a :: len word \<Rightarrow> 'a word" where
  "clear_low k x = x AND NOT (mask k)"

lemma bit_clear_low: "bit (clear_low k x) n \<longleftrightarrow> bit x n \<and> k \<le> n"
  by (auto simp: clear_low_def bit_simps dest: bit_imp_le_length)

lemma high_bits32: "x AND NOT 0xFF = clear_low 8 x" "x AND NOT 0xFFF = clear_low 12 x" for x :: u32
  by (simp_all add: clear_low_def mask_eq_exp_minus_1)

lemma high_bits64:
  "x AND ucast (NOT (0xFF :: u32)) = take_bit 32 (clear_low 8 x)" "x AND ucast (NOT (0xFFF :: u32)) = take_bit 32 (clear_low 12 x)"
  for x :: u64
  by (simp_all add: clear_low_def mask_eq_exp_minus_1 take_bit_eq_mask and.assoc)

lemmas device_bits = rdev_major_def rdev_minor_def fr_makedev_def

lemma makedev_roundtrip: "rdev_major (fr_makedev maj mnr) = maj" "rdev_minor (fr_makedev maj mnr) = mnr"
proof -
  show "rdev_major (fr_makedev maj mnr) = maj"
    unfolding device_bits low_bits high_bits32 high_bits64
  proof (rule bit_eqI, goal_cases)
    case (1 n)
    then show ?case by (cases "n < 12") (auto simp: bit_simps bit_clear_low dest: bit_imp_le_length)
  qed
  show "rdev_minor (fr_makedev maj mnr) = mnr"
    unfolding device_bits low_bits high_bits32 high_bits64
  proof (rule bit_eqI, goal_cases)
    case (1 n)
    then show ?case by (cases "n < 8") (auto simp: bit_simps bit_clear_low)
  qed
qed

end
