(* ===== verification/Fakeroot.thy ===== *)
theory Fakeroot
  imports Fakeroot_Db Alr_Path_Rule
begin

text \<open>
  The fake root library, \<^verbatim>\<open>alr_fakeroot/libalr_fakeroot.c\<close>, on top of its table: the rewriting of paths, the faked
  credentials, the recording of owners, modes and nodes, and the overlay of the \<^verbatim>\<open>stat\<close> family.  The functions that
  \<^verbatim>\<open>dlsym\<close> finds behind the library are the record \<open>libc\<close>; their state, the file system, is a type parameter, and
  a call that fails, or that is not there, is \<^const>\<open>None\<close> or leaves the file system as it is.  An operation whose result is
  \<^const>\<open>None\<close> touched memory outside the mapping of the table or did not return.
\<close>

section \<open>Paths\<close>

definition fr_under :: "string \<Rightarrow> string \<Rightarrow> bool" where
  "fr_under p d \<longleftrightarrow> take (length d) p = d \<and> (cchar p (length d) = slash \<or> cchar p (length d) = nul)"

text \<open>The prefix, empty when there is none.\<close>

definition fr_init_rootfs :: "string option \<Rightarrow> string" where
  "fr_init_rootfs r =
     (case r of
        None \<Rightarrow> []
      | Some r \<Rightarrow>
          if cchar r 0 \<noteq> slash then []
          else
            let n = length r - length (takeWhile (\<lambda>c. c = slash) (rev r));
                n = (if n = 0 then 1 else n);
                n = (if 1024 \<le> n then 1023 else n);
                g = take n r
            in if n = 1 \<and> cchar g 0 = slash then [] else g)"

definition fr_rw :: "string \<Rightarrow> string \<Rightarrow> nat \<Rightarrow> string" where
  "fr_rw rootfs p buflen =
     (if cchar p 0 \<noteq> slash then p
      else if rootfs = [] then p
      else if fr_under p ''/proc'' \<or> fr_under p ''/sys'' \<or> fr_under p ''/dev'' then p
      else if fr_under p rootfs then p
      else if buflen < length rootfs + length p + 1 then p
      else rootfs @ p)"

definition FR_PBUF :: nat where "FR_PBUF = 2304"

section \<open>Credentials\<close>

text \<open>Everybody is root, becoming anybody succeeds, and there is one group.\<close>

definition getuid :: u32 where "getuid = 0"
definition geteuid :: u32 where "geteuid = 0"
definition getgid :: u32 where "getgid = 0"
definition getegid :: u32 where "getegid = 0"
definition getresuid :: "u32 \<times> u32 \<times> u32" where "getresuid = (0, 0, 0)"
definition getresgid :: "u32 \<times> u32 \<times> u32" where "getresgid = (0, 0, 0)"
definition setuid :: "u32 \<Rightarrow> int" where "setuid u = 0"
definition seteuid :: "u32 \<Rightarrow> int" where "seteuid u = 0"
definition setgid :: "u32 \<Rightarrow> int" where "setgid g = 0"
definition setegid :: "u32 \<Rightarrow> int" where "setegid g = 0"
definition setreuid :: "u32 \<Rightarrow> u32 \<Rightarrow> int" where "setreuid r e = 0"
definition setregid :: "u32 \<Rightarrow> u32 \<Rightarrow> int" where "setregid r e = 0"

definition getgroups :: "int \<Rightarrow> int \<times> u32 list" where
  "getgroups sz = (if sz = 0 then (1, []) else if sz < 1 then (-1, []) else (1, [0]))"

section \<open>State\<close>

record 'f libc =
  lc_stat :: "'f \<Rightarrow> string \<Rightarrow> stat option"
  lc_lstat :: "'f \<Rightarrow> string \<Rightarrow> stat option"
  lc_fstat :: "'f \<Rightarrow> int \<Rightarrow> stat option"
  lc_fstatat :: "'f \<Rightarrow> int \<Rightarrow> string \<Rightarrow> int \<Rightarrow> stat option"
  lc_statx :: "'f \<Rightarrow> int \<Rightarrow> string \<Rightarrow> int \<Rightarrow> statx option"
  lc_chmod :: "string \<Rightarrow> u32 \<Rightarrow> 'f \<Rightarrow> 'f"
  lc_fchmodat :: "int \<Rightarrow> string \<Rightarrow> u32 \<Rightarrow> int \<Rightarrow> 'f \<Rightarrow> 'f"
  lc_fchmod :: "int \<Rightarrow> u32 \<Rightarrow> 'f \<Rightarrow> 'f"
  lc_mknodat :: "int \<Rightarrow> string \<Rightarrow> u32 \<Rightarrow> u64 \<Rightarrow> 'f \<Rightarrow> 'f"
  lc_create :: "int \<Rightarrow> string \<Rightarrow> 'f \<Rightarrow> 'f"

record 'f fr_state =
  fr_fs :: 'f
  fr_inited :: bool
  fr_rootfs :: string
  fr_gdb :: "fr_db option"

text \<open>The initialisation at the start of every wrapper.\<close>

definition fr_ensure :: "(string \<Rightarrow> string option) \<Rightarrow> db_file \<Rightarrow> 'f fr_state \<Rightarrow> 'f fr_state option" where
  "fr_ensure env file s =
     (if fr_inited s then Some s
      else map_option (\<lambda>g. s\<lparr>fr_inited := True, fr_rootfs := fr_init_rootfs (env ''ALR_ROOTFS''), fr_gdb := g\<rparr>)
             (fr_init_db env file))"

definition update_db :: "(fr_db option \<Rightarrow> fr_db option option) \<Rightarrow> 'f fr_state \<Rightarrow> 'f fr_state option" where
  "update_db f s = map_option (\<lambda>g. s\<lparr>fr_gdb := g\<rparr>) (f (fr_gdb s))"

definition AT_FDCWD :: int where "AT_FDCWD = -100"
definition AT_SYMLINK_NOFOLLOW :: int where "AT_SYMLINK_NOFOLLOW = 256"
definition S_IFMT :: u32 where "S_IFMT = 0xF000"

definition rw_path :: "'f fr_state \<Rightarrow> string \<Rightarrow> string" where
  "rw_path s path = fr_rw (fr_rootfs s) path FR_PBUF"

text \<open>The variants with a directory rewrite absolute paths only.\<close>

definition rw_path_at :: "'f fr_state \<Rightarrow> string \<Rightarrow> string" where
  "rw_path_at s path = (if cchar path 0 = slash then fr_rw (fr_rootfs s) path FR_PBUF else path)"

section \<open>Owners\<close>

definition fr_chown_record ::
  "'f libc \<Rightarrow> string \<Rightarrow> int \<Rightarrow> int \<Rightarrow> u32 \<Rightarrow> u32 \<Rightarrow> 'f fr_state \<Rightarrow> 'f fr_state option" where
  "fr_chown_record lc hostpath dirfd at_flags uid gid s =
     (case lc_fstatat lc (fr_fs s) dirfd hostpath at_flags of
        None \<Rightarrow> Some s
      | Some st \<Rightarrow> update_db (fr_put_owner (st_dev st) (st_ino st) uid gid) s)"

definition succeed :: "'f fr_state \<Rightarrow> (int \<times> 'f fr_state) option" where
  "succeed s = Some (0, s)"

definition chown ::
  "'f libc \<Rightarrow> (string \<Rightarrow> string option) \<Rightarrow> db_file \<Rightarrow> string \<Rightarrow> u32 \<Rightarrow> u32 \<Rightarrow> 'f fr_state \<Rightarrow> (int \<times> 'f fr_state) option" where
  "chown lc env file path uid gid s =
     Option.bind (fr_ensure env file s) (\<lambda>s.
       Option.bind (fr_chown_record lc (rw_path s path) AT_FDCWD 0 uid gid s) succeed)"

definition lchown ::
  "'f libc \<Rightarrow> (string \<Rightarrow> string option) \<Rightarrow> db_file \<Rightarrow> string \<Rightarrow> u32 \<Rightarrow> u32 \<Rightarrow> 'f fr_state \<Rightarrow> (int \<times> 'f fr_state) option" where
  "lchown lc env file path uid gid s =
     Option.bind (fr_ensure env file s) (\<lambda>s.
       Option.bind (fr_chown_record lc (rw_path s path) AT_FDCWD AT_SYMLINK_NOFOLLOW uid gid s) succeed)"

definition fchownat ::
  "'f libc \<Rightarrow> (string \<Rightarrow> string option) \<Rightarrow> db_file \<Rightarrow> int \<Rightarrow> string \<Rightarrow> u32 \<Rightarrow> u32 \<Rightarrow> int \<Rightarrow> 'f fr_state \<Rightarrow>
    (int \<times> 'f fr_state) option" where
  "fchownat lc env file dirfd path uid gid flags s =
     Option.bind (fr_ensure env file s) (\<lambda>s.
       Option.bind (fr_chown_record lc (rw_path_at s path) dirfd flags uid gid s) succeed)"

definition fchown ::
  "'f libc \<Rightarrow> (string \<Rightarrow> string option) \<Rightarrow> db_file \<Rightarrow> int \<Rightarrow> u32 \<Rightarrow> u32 \<Rightarrow> 'f fr_state \<Rightarrow> (int \<times> 'f fr_state) option" where
  "fchown lc env file fd uid gid s =
     Option.bind (fr_ensure env file s) (\<lambda>s.
       Option.bind
         (case lc_fstat lc (fr_fs s) fd of
            None \<Rightarrow> Some s
          | Some st \<Rightarrow> update_db (fr_put_owner (st_dev st) (st_ino st) uid gid) s) succeed)"

section \<open>Modes\<close>

text \<open>The mode that is recorded: the type of the real file with the requested permissions.\<close>

definition record_mode :: "stat option \<Rightarrow> u32 \<Rightarrow> 'f fr_state \<Rightarrow> 'f fr_state option" where
  "record_mode st mode s =
     (case st of
        None \<Rightarrow> Some s
      | Some st \<Rightarrow> update_db (fr_put_mode (st_dev st) (st_ino st) ((st_mode st AND S_IFMT) OR (mode AND 0xFFF))) s)"

definition chmod ::
  "'f libc \<Rightarrow> (string \<Rightarrow> string option) \<Rightarrow> db_file \<Rightarrow> string \<Rightarrow> u32 \<Rightarrow> 'f fr_state \<Rightarrow> (int \<times> 'f fr_state) option" where
  "chmod lc env file path mode s =
     Option.bind (fr_ensure env file s) (\<lambda>s.
       let p = rw_path s path;
           s = s\<lparr>fr_fs := lc_chmod lc p mode (fr_fs s)\<rparr>
       in Option.bind (record_mode (lc_stat lc (fr_fs s) p) mode s) succeed)"

definition fchmodat ::
  "'f libc \<Rightarrow> (string \<Rightarrow> string option) \<Rightarrow> db_file \<Rightarrow> int \<Rightarrow> string \<Rightarrow> u32 \<Rightarrow> int \<Rightarrow> 'f fr_state \<Rightarrow>
    (int \<times> 'f fr_state) option" where
  "fchmodat lc env file dirfd path mode flags s =
     Option.bind (fr_ensure env file s) (\<lambda>s.
       let p = rw_path_at s path;
           s = s\<lparr>fr_fs := lc_fchmodat lc dirfd p mode flags (fr_fs s)\<rparr>
       in Option.bind (record_mode (lc_fstatat lc (fr_fs s) dirfd p flags) mode s) succeed)"

definition fchmod ::
  "'f libc \<Rightarrow> (string \<Rightarrow> string option) \<Rightarrow> db_file \<Rightarrow> int \<Rightarrow> u32 \<Rightarrow> 'f fr_state \<Rightarrow> (int \<times> 'f fr_state) option" where
  "fchmod lc env file fd mode s =
     Option.bind (fr_ensure env file s) (\<lambda>s.
       let s = s\<lparr>fr_fs := lc_fchmod lc fd mode (fr_fs s)\<rparr>
       in Option.bind (record_mode (lc_fstat lc (fr_fs s) fd) mode s) succeed)"

section \<open>Nodes\<close>

definition is_special :: "u32 \<Rightarrow> bool" where
  "is_special mode \<longleftrightarrow> mode AND S_IFMT = 0x2000 \<or> mode AND S_IFMT = 0x6000"

definition fr_mknod_emul ::
  "'f libc \<Rightarrow> string \<Rightarrow> int \<Rightarrow> u32 \<Rightarrow> u64 \<Rightarrow> 'f fr_state \<Rightarrow> 'f fr_state option" where
  "fr_mknod_emul lc hostpath dirfd mode dev s =
     (let s = s\<lparr>fr_fs := (if \<not> is_special mode then lc_mknodat lc dirfd hostpath mode dev (fr_fs s)
                         else lc_create lc dirfd hostpath (fr_fs s))\<rparr>
      in case lc_fstatat lc (fr_fs s) dirfd hostpath 0 of
           None \<Rightarrow> Some s
         | Some st \<Rightarrow> update_db (fr_put_node (st_dev st) (st_ino st) mode dev) s)"

definition mknod ::
  "'f libc \<Rightarrow> (string \<Rightarrow> string option) \<Rightarrow> db_file \<Rightarrow> string \<Rightarrow> u32 \<Rightarrow> u64 \<Rightarrow> 'f fr_state \<Rightarrow> (int \<times> 'f fr_state) option" where
  "mknod lc env file path mode dev s =
     Option.bind (fr_ensure env file s) (\<lambda>s.
       Option.bind (fr_mknod_emul lc (rw_path s path) AT_FDCWD mode dev s) succeed)"

definition mknodat ::
  "'f libc \<Rightarrow> (string \<Rightarrow> string option) \<Rightarrow> db_file \<Rightarrow> int \<Rightarrow> string \<Rightarrow> u32 \<Rightarrow> u64 \<Rightarrow> 'f fr_state \<Rightarrow>
    (int \<times> 'f fr_state) option" where
  "mknodat lc env file dirfd path mode dev s =
     Option.bind (fr_ensure env file s) (\<lambda>s.
       Option.bind (fr_mknod_emul lc (rw_path_at s path) dirfd mode dev s) succeed)"

section \<open>Reading\<close>

text \<open>The result and the filled buffer, with \<^const>\<open>None\<close> for -1.  The wrappers with other names for the same structure
  call the same overlay.\<close>

definition overlaid :: "stat option \<Rightarrow> 'f fr_state \<Rightarrow> (stat option \<times> 'f fr_state) option" where
  "overlaid r s =
     (case r of
        None \<Rightarrow> Some (None, s)
      | Some st \<Rightarrow> map_option (\<lambda>st. (Some st, s)) (fr_overlay_stat (fr_gdb s) st))"

definition fr_stat ::
  "'f libc \<Rightarrow> (string \<Rightarrow> string option) \<Rightarrow> db_file \<Rightarrow> string \<Rightarrow> 'f fr_state \<Rightarrow> (stat option \<times> 'f fr_state) option" where
  "fr_stat lc env file path s =
     Option.bind (fr_ensure env file s) (\<lambda>s. overlaid (lc_stat lc (fr_fs s) path) s)"

definition fr_lstat ::
  "'f libc \<Rightarrow> (string \<Rightarrow> string option) \<Rightarrow> db_file \<Rightarrow> string \<Rightarrow> 'f fr_state \<Rightarrow> (stat option \<times> 'f fr_state) option" where
  "fr_lstat lc env file path s =
     Option.bind (fr_ensure env file s) (\<lambda>s. overlaid (lc_lstat lc (fr_fs s) path) s)"

definition fr_fstat ::
  "'f libc \<Rightarrow> (string \<Rightarrow> string option) \<Rightarrow> db_file \<Rightarrow> int \<Rightarrow> 'f fr_state \<Rightarrow> (stat option \<times> 'f fr_state) option" where
  "fr_fstat lc env file fd s =
     Option.bind (fr_ensure env file s) (\<lambda>s. overlaid (lc_fstat lc (fr_fs s) fd) s)"

definition fr_fstatat ::
  "'f libc \<Rightarrow> (string \<Rightarrow> string option) \<Rightarrow> db_file \<Rightarrow> int \<Rightarrow> string \<Rightarrow> int \<Rightarrow> 'f fr_state \<Rightarrow>
    (stat option \<times> 'f fr_state) option" where
  "fr_fstatat lc env file dirfd path flags s =
     Option.bind (fr_ensure env file s) (\<lambda>s. overlaid (lc_fstatat lc (fr_fs s) dirfd path flags) s)"

definition fr_statx ::
  "'f libc \<Rightarrow> (string \<Rightarrow> string option) \<Rightarrow> db_file \<Rightarrow> int \<Rightarrow> string \<Rightarrow> int \<Rightarrow> 'f fr_state \<Rightarrow>
    (statx option \<times> 'f fr_state) option" where
  "fr_statx lc env file dirfd path flags s =
     Option.bind (fr_ensure env file s) (\<lambda>s.
       case lc_statx lc (fr_fs s) dirfd path flags of
         None \<Rightarrow> Some (None, s)
       | Some sx \<Rightarrow> map_option (\<lambda>sx. (Some sx, s)) (fr_overlay_statx (fr_gdb s) sx))"

section \<open>What the guest sees\<close>

text \<open>A state with a table, and what \<^verbatim>\<open>stat\<close> shows in it for a file the kernel describes by \<open>st\<close>.\<close>

definition booted :: "'f fr_state \<Rightarrow> fr_db \<Rightarrow> bool" where
  "booted s db \<longleftrightarrow> fr_inited s \<and> fr_gdb s = Some db \<and> table_ok db"

definition shown :: "fr_db \<Rightarrow> stat \<Rightarrow> stat" where
  "shown db st = apply_opt (lookup db (st_dev st, st_ino st)) st"

definition has_room :: "fr_db \<Rightarrow> stat \<Rightarrow> bool" where
  "has_room db st \<longleftrightarrow> st_ino st \<noteq> 0 \<and> (lookup db (st_dev st, st_ino st) \<noteq> None \<or> \<not> table_full db)"

lemma overlaid_shown: "booted s db \<Longrightarrow> overlaid (Some st) s = Some (Some (shown db st), s)"
  by (simp add: booted_def overlaid_def overlay_lookup shown_def apply_opt_def)

lemma ensure_booted [simp]: "booted s db \<Longrightarrow> fr_ensure env file s = Some s"
  by (simp add: booted_def fr_ensure_def)

text \<open>One recorded change shows on its file, and on no other.\<close>

lemma record_visible:
  assumes b: "booted s db" and room: "has_room db st0"
  shows "\<exists>s' db'. update_db (record_write (st_dev st0, st_ino st0) w) s = Some s' \<and> booted s' db' \<and> fr_fs s' = fr_fs s \<and>
    fr_rootfs s' = fr_rootfs s \<and>
    (\<forall>st. shown db' st =
       (if (st_dev st, st_ino st) = (st_dev st0, st_ino st0) then intended w (shown db st) else shown db st))"
proof -
  let ?k = "(st_dev st0, st_ino st0)"
  have ok: "table_ok db" and g: "fr_gdb s = Some db" using b by (simp_all add: booted_def)
  obtain db' where db': "fr_put (setter w) (st_dev st0) (st_ino st0) db = Some db'" "table_ok db'"
    and find: "\<And>k'. lookup db' k' = (if k' = ?k then Some (setter w (case lookup db ?k of None \<Rightarrow> fresh_entry ?k | Some e \<Rightarrow> e)) else lookup db k')"
    using fr_put_law [OF ok keeps_key_setter, of w ?k] room by (auto simp: has_room_def)
  have "update_db (record_write ?k w) s = Some (s\<lparr>fr_gdb := Some db'\<rparr>)"
    by (simp add: update_db_def g record_write_put db'(1))
  moreover have "booted (s\<lparr>fr_gdb := Some db'\<rparr>) db'" using b db'(2) by (simp add: booted_def)
  moreover have "shown db' st = (if (st_dev st, st_ino st) = ?k then intended w (shown db st) else shown db st)" for st
    by (cases "lookup db ?k") (auto simp: shown_def find apply_opt_def apply_setter apply_fresh)
  ultimately show ?thesis by fastforce
qed

lemma put_as_record:
  "fr_put_owner dev ino uid gid = record_write (dev, ino) (Chown uid gid)"
  "fr_put_mode dev ino mode = record_write (dev, ino) (Chmod mode)"
  "fr_put_node dev ino mode rdev = record_write (dev, ino) (Mknod mode rdev)"
  by simp_all


text \<open>An instance: a file system with one file, and a table of two slots.\<close>

definition one_file :: "unit libc" where
  "one_file =
     (let st = \<lparr>st_dev = 1, st_ino = 7, st_mode = 0x81A4, st_uid = 9, st_gid = 9, st_rdev = 0\<rparr>
      in \<lparr>lc_stat = (\<lambda>_ _. Some st), lc_lstat = (\<lambda>_ _. Some st), lc_fstat = (\<lambda>_ _. Some st), lc_fstatat = (\<lambda>_ _ _ _. Some st),
          lc_statx = (\<lambda>_ _ _ _. None), lc_chmod = (\<lambda>_ _ f. f), lc_fchmodat = (\<lambda>_ _ _ _ f. f), lc_fchmod = (\<lambda>_ _ f. f),
          lc_mknodat = (\<lambda>_ _ _ _ f. f), lc_create = (\<lambda>_ _ f. f)\<rparr>)"

definition two_slots :: fr_db where
  "two_slots = \<lparr>db_nslots = 2, db_slots = replicate 2 empty_entry\<rparr>"

definition small_state :: "unit fr_state" where
  "small_state = \<lparr>fr_fs = (), fr_inited = True, fr_rootfs = ''/r'', fr_gdb = Some two_slots\<rparr>"

lemma two_slots_ok: "table_ok two_slots" "lookup two_slots k = None" "\<not> table_full two_slots"
proof -
  show "table_ok two_slots" "lookup two_slots k = None" using fresh_table_ok [of 2 1] by (simp_all add: two_slots_def)
  show "\<not> table_full two_slots" by (simp add: two_slots_def table_full_def empty_entry_def numeral_2_eq_2)
qed

lemma unit_fs [simp]: "(s :: unit fr_state)\<lparr>fr_fs := ()\<rparr> = s"
  by (cases s) simp


section \<open>Where the overlay departs from the kernel\<close>

text \<open>A device node keeps its device number but not its type when its mode is changed: the type is taken from the
  placeholder file.\<close>

lemma chmod_turns_device_into_file:
  "\<exists>s1 s2. mknod one_file env file ''/a'' 0x2180 0x103 small_state = Some (0, s1) \<and>
     chmod one_file env file ''/a'' 0x1A4 s1 = Some (0, s2) \<and>
     overlaid (lc_stat one_file () ''/a'') s2 =
       Some (Some \<lparr>st_dev = 1, st_ino = 7, st_mode = 0x81A4, st_uid = 9, st_gid = 9, st_rdev = 0x103\<rparr>, s2)"
proof -
  let ?st = "\<lparr>st_dev = 1, st_ino = 7, st_mode = 0x81A4, st_uid = 9, st_gid = 9, st_rdev = 0\<rparr>"
  have b: "booted small_state two_slots" "has_room two_slots ?st"
    using two_slots_ok by (simp_all add: booted_def small_state_def has_room_def)
  obtain s1 db1 where s1: "update_db (record_write (1, 7) (Mknod 0x2180 0x103)) small_state = Some s1" "booted s1 db1"
    "\<And>st. shown db1 st = (if (st_dev st, st_ino st) = (1, 7) then intended (Mknod 0x2180 0x103) (shown two_slots st) else shown two_slots st)"
    using record_visible [OF b, of "Mknod 0x2180 0x103"] by auto
  have "lookup db1 (1, 7) \<noteq> None"
    using s1(3) [of ?st] two_slots_ok(2) by (auto simp: shown_def apply_opt_def split: option.splits)
  then have "has_room db1 ?st" by (simp add: has_room_def)
  then obtain s2 db2 where s2: "update_db (record_write (1, 7) (Chmod 0x81A4)) s1 = Some s2" "booted s2 db2"
    "shown db2 ?st = intended (Chmod 0x81A4) (shown db1 ?st)"
    using record_visible [OF s1(2), of ?st "Chmod 0x81A4"] by auto
  have "mknod one_file env file ''/a'' 0x2180 0x103 small_state = Some (0, s1)"
    using b(1) s1(1) by (simp add: mknod_def fr_mknod_emul_def one_file_def Let_def succeed_def)
  moreover have "chmod one_file env file ''/a'' 0x1A4 s1 = Some (0, s2)"
    using s1(2) s2(1) by (simp add: chmod_def record_mode_def one_file_def Let_def succeed_def S_IFMT_def)
  moreover have "shown two_slots ?st = ?st" using two_slots_ok(2) by (simp add: shown_def apply_opt_def)
  moreover have "lc_stat one_file () ''/a'' = Some ?st" by (simp add: one_file_def Let_def)
  ultimately show ?thesis using s1(3) [of ?st] overlaid_shown [OF s2(2), of ?st] s2(3) by auto
qed

text \<open>An owner of -1, which asks to keep the owner, is recorded as the owner 4294967295.\<close>

lemma chown_keep_is_recorded: "intended (Chown (- 1) 5) st = st\<lparr>st_uid := 4294967295, st_gid := 5\<rparr>"
  by simp

text \<open>A table that another process created with more slots is cut to the size this process wants, and the header keeps the
  larger number.\<close>

lemma init_maps_too_little:
  "\<exists>db. fr_init_db [''ALR_FAKEROOT_DB'' \<mapsto> ''/db''] \<lparr>df_open_ok = True, df_truncate_ok = True, df_map_ok = True,
      df_magic = ALR_FR_MAGIC, df_nslots = 2 ^ 20, df_slots = slots\<rparr> = Some (Some db) \<and>
     length (db_slots db) < unat (db_nslots db)"
proof -
  obtain r :: u64 and k where r: "round_up_from 262144 1 = Some r" "unat r = 2 ^ k" "k \<le> 18"
    using round_up_pow2 [of 1 0 262144 18] by auto
  have "unat r \<le> 2 ^ 18" using r(2,3) power_increasing [of k 18 "2 :: nat"] by simp
  moreover from this have "mapped_slots r = unat r" by (intro mapped_slots_small) simp
  ultimately show ?thesis using r(1)
    by (simp add: fr_init_db_def wanted_slots_def resize_slots_def ALR_FR_MAGIC_def)
qed

end
