(* ===== verification/Pulse_Proto.thy ===== *)
theory Pulse_Proto
  imports Alr_Words "HOL-Library.Sublist"
begin

text \<open>
  The PulseAudio wire format of the audio server, \<^verbatim>\<open>alr_audio/alr_pulse_proto.h\<close>: the tagged values, their writer and
  their reader.  A reader is the list of the bytes that are left; \<^const>\<open>None\<close> is a reader that has failed, on which
  every further call fails.  Strings are C strings, so they hold no NUL.
\<close>

section \<open>Constants and sample specifications\<close>

definition kProtocolVersion :: u32 where "kProtocolVersion = 13"
definition kFrameSizeMax :: u32 where "kFrameSizeMax = 64 * 1024"
definition kChannelControl :: u32 where "kChannelControl = 0xFFFFFFFF"
definition PA_VOLUME_NORM :: u32 where "PA_VOLUME_NORM = 0x10000"
definition PA_INVALID_INDEX :: u32 where "PA_INVALID_INDEX = 0xFFFFFFFF"

definition PA_TAG_STRING :: byte where "PA_TAG_STRING = 0x74"
definition PA_TAG_STRING_NULL :: byte where "PA_TAG_STRING_NULL = 0x4E"
definition PA_TAG_U32 :: byte where "PA_TAG_U32 = 0x4C"
definition PA_TAG_U8 :: byte where "PA_TAG_U8 = 0x42"
definition PA_TAG_U64 :: byte where "PA_TAG_U64 = 0x52"
definition PA_TAG_S64 :: byte where "PA_TAG_S64 = 0x72"
definition PA_TAG_SAMPLE_SPEC :: byte where "PA_TAG_SAMPLE_SPEC = 0x61"
definition PA_TAG_ARBITRARY :: byte where "PA_TAG_ARBITRARY = 0x78"
definition PA_TAG_BOOLEAN_TRUE :: byte where "PA_TAG_BOOLEAN_TRUE = 0x31"
definition PA_TAG_BOOLEAN_FALSE :: byte where "PA_TAG_BOOLEAN_FALSE = 0x30"
definition PA_TAG_TIMEVAL :: byte where "PA_TAG_TIMEVAL = 0x54"
definition PA_TAG_USEC :: byte where "PA_TAG_USEC = 0x55"
definition PA_TAG_CHANNEL_MAP :: byte where "PA_TAG_CHANNEL_MAP = 0x6D"
definition PA_TAG_CVOLUME :: byte where "PA_TAG_CVOLUME = 0x76"
definition PA_TAG_PROPLIST :: byte where "PA_TAG_PROPLIST = 0x50"
definition PA_TAG_VOLUME :: byte where "PA_TAG_VOLUME = 0x56"
definition PA_TAG_FORMAT_INFO :: byte where "PA_TAG_FORMAT_INFO = 0x66"

lemmas pa_tags = PA_TAG_STRING_def PA_TAG_STRING_NULL_def PA_TAG_U32_def PA_TAG_U8_def PA_TAG_U64_def PA_TAG_S64_def
  PA_TAG_SAMPLE_SPEC_def PA_TAG_ARBITRARY_def PA_TAG_BOOLEAN_TRUE_def PA_TAG_BOOLEAN_FALSE_def PA_TAG_TIMEVAL_def
  PA_TAG_USEC_def PA_TAG_CHANNEL_MAP_def PA_TAG_CVOLUME_def PA_TAG_PROPLIST_def PA_TAG_VOLUME_def PA_TAG_FORMAT_INFO_def

record sample_spec =
  ss_format :: byte
  ss_channels :: byte
  ss_rate :: u32

definition sample_size_bytes :: "byte \<Rightarrow> u32" where
  "sample_size_bytes fmt =
     (if fmt \<in> {0, 1, 2} then 1 else if fmt \<in> {3, 4} then 2 else if fmt \<in> {9, 10} then 3
      else if fmt \<in> {5, 6, 7, 8, 11, 12} then 4 else 2)"

definition frame_size_bytes :: "sample_spec \<Rightarrow> u32" where
  "frame_size_bytes s = sample_size_bytes (ss_format s) * (if ss_channels s \<noteq> 0 then ucast (ss_channels s) else 1)"

section \<open>The writer\<close>

definition put_be32 :: "u32 \<Rightarrow> byte list" where
  "put_be32 v = [ucast (drop_bit 24 v), ucast (drop_bit 16 v), ucast (drop_bit 8 v), ucast v]"

definition put_be64 :: "u64 \<Rightarrow> byte list" where
  "put_be64 v = map (\<lambda>i. ucast (drop_bit (i * 8) v)) (rev [0..<8])"

definition put_u32 :: "u32 \<Rightarrow> byte list" where "put_u32 v = PA_TAG_U32 # put_be32 v"
definition put_u8 :: "byte \<Rightarrow> byte list" where "put_u8 v = [PA_TAG_U8, v]"
definition put_u64 :: "u64 \<Rightarrow> byte list" where "put_u64 v = PA_TAG_U64 # put_be64 v"
definition put_s64 :: "u64 \<Rightarrow> byte list" where "put_s64 v = PA_TAG_S64 # put_be64 v"
definition put_usec :: "u64 \<Rightarrow> byte list" where "put_usec v = PA_TAG_USEC # put_be64 v"

definition put_boolean :: "bool \<Rightarrow> byte list" where
  "put_boolean v = [if v then PA_TAG_BOOLEAN_TRUE else PA_TAG_BOOLEAN_FALSE]"

definition put_string :: "byte list option \<Rightarrow> byte list" where
  "put_string s = (case s of None \<Rightarrow> [PA_TAG_STRING_NULL] | Some s \<Rightarrow> PA_TAG_STRING # s @ [0])"

definition put_sample_spec :: "sample_spec \<Rightarrow> byte list" where
  "put_sample_spec s = [PA_TAG_SAMPLE_SPEC, ss_format s, ss_channels s] @ put_be32 (ss_rate s)"

definition put_channel_map_stereo :: "byte list" where "put_channel_map_stereo = [PA_TAG_CHANNEL_MAP, 2, 1, 2]"
definition put_channel_map_mono :: "byte list" where "put_channel_map_mono = [PA_TAG_CHANNEL_MAP, 1, 0]"

definition put_cvolume :: "byte \<Rightarrow> u32 \<Rightarrow> byte list" where
  "put_cvolume channels vol = [PA_TAG_CVOLUME, channels] @ concat (replicate (unat channels) (put_be32 vol))"

definition put_volume :: "u32 \<Rightarrow> byte list" where "put_volume vol = PA_TAG_VOLUME # put_be32 vol"
definition put_empty_proplist :: "byte list" where "put_empty_proplist = [PA_TAG_PROPLIST, PA_TAG_STRING_NULL]"

definition put_timeval :: "u32 \<Rightarrow> u32 \<Rightarrow> byte list" where
  "put_timeval sec usec = PA_TAG_TIMEVAL # put_be32 sec @ put_be32 usec"

section \<open>The reader\<close>

definition be32 :: "byte \<Rightarrow> byte \<Rightarrow> byte \<Rightarrow> byte \<Rightarrow> u32" where
  "be32 a b c d = push_bit 24 (ucast a) OR push_bit 16 (ucast b) OR push_bit 8 (ucast c) OR ucast d"

definition be64 :: "byte list \<Rightarrow> u64" where
  "be64 bs = fold (\<lambda>b v. push_bit 8 v OR ucast b) bs 0"

fun get_u32 :: "byte list \<Rightarrow> (u32 \<times> byte list) option" where
  "get_u32 (t # a # b # c # d # rest) = (if t = PA_TAG_U32 then Some (be32 a b c d, rest) else None)"
| "get_u32 _ = None"

fun get_u8 :: "byte list \<Rightarrow> (byte \<times> byte list) option" where
  "get_u8 (t # a # rest) = (if t = PA_TAG_U8 then Some (a, rest) else None)"
| "get_u8 _ = None"

definition get_8_bytes :: "byte \<Rightarrow> byte list \<Rightarrow> (u64 \<times> byte list) option" where
  "get_8_bytes tag bs =
     (case bs of
        t # rest \<Rightarrow> if t = tag \<and> 8 \<le> length rest then Some (be64 (take 8 rest), drop 8 rest) else None
      | [] \<Rightarrow> None)"

definition get_u64 :: "byte list \<Rightarrow> (u64 \<times> byte list) option" where "get_u64 = get_8_bytes PA_TAG_U64"
definition get_s64 :: "byte list \<Rightarrow> (u64 \<times> byte list) option" where "get_s64 = get_8_bytes PA_TAG_S64"

fun get_boolean :: "byte list \<Rightarrow> (bool \<times> byte list) option" where
  "get_boolean (t # rest) =
     (if t = PA_TAG_BOOLEAN_TRUE then Some (True, rest) else if t = PA_TAG_BOOLEAN_FALSE then Some (False, rest) else None)"
| "get_boolean [] = None"

text \<open>A NUL-terminated run of bytes.\<close>

definition get_cstring :: "byte list \<Rightarrow> (byte list \<times> byte list) option" where
  "get_cstring bs =
     (case dropWhile (\<lambda>b. b \<noteq> 0) bs of [] \<Rightarrow> None | _ # rest \<Rightarrow> Some (takeWhile (\<lambda>b. b \<noteq> 0) bs, rest))"

fun get_string :: "byte list \<Rightarrow> (byte list option \<times> byte list) option" where
  "get_string (t # rest) =
     (if t = PA_TAG_STRING_NULL then Some (None, rest)
      else if t \<noteq> PA_TAG_STRING then None
      else map_option (\<lambda>(s, rest). (Some s, rest)) (get_cstring rest))"
| "get_string [] = None"

fun get_sample_spec :: "byte list \<Rightarrow> (sample_spec \<times> byte list) option" where
  "get_sample_spec (t # f # c # r1 # r2 # r3 # r4 # rest) =
     (if t = PA_TAG_SAMPLE_SPEC then Some (\<lparr>ss_format = f, ss_channels = c, ss_rate = be32 r1 r2 r3 r4\<rparr>, rest) else None)"
| "get_sample_spec _ = None"

definition skip_bytes :: "nat \<Rightarrow> byte list \<Rightarrow> byte list option" where
  "skip_bytes n bs = (if n \<le> length bs then Some (drop n bs) else None)"

fun skip_arbitrary :: "byte list \<Rightarrow> (u32 \<times> byte list) option" where
  "skip_arbitrary (a # b # c # d # rest) =
     (let n = be32 a b c d in map_option (\<lambda>rest. (n, rest)) (skip_bytes (unat n) rest))"
| "skip_arbitrary _ = None"

lemma skip_bytes_shrinks: "skip_bytes n bs = Some rest \<Longrightarrow> length rest \<le> length bs"
  by (auto simp: skip_bytes_def split: if_splits)

lemma skip_arbitrary_shrinks: "skip_arbitrary bs = Some (n, rest) \<Longrightarrow> length rest < length bs"
  by (cases bs rule: skip_arbitrary.cases) (auto simp: Let_def dest: skip_bytes_shrinks)

lemma get_cstring_shrinks: "get_cstring bs = Some (s, rest) \<Longrightarrow> length rest < length bs"
  using length_dropWhile_le [of "\<lambda>b. b \<noteq> 0" bs] by (auto simp: get_cstring_def split: list.splits)

lemma get_string_shrinks: "get_string bs = Some (s, rest) \<Longrightarrow> length rest < length bs"
  by (cases bs) (auto dest: get_cstring_shrinks split: if_splits)

lemma get_u32_shrinks: "get_u32 bs = Some (v, rest) \<Longrightarrow> length rest < length bs"
  by (cases bs rule: get_u32.cases) (auto split: if_splits)

text \<open>A property list: a key, the length of the value and the value, up to the null string.\<close>

function skip_proplist :: "byte list \<Rightarrow> byte list option" where
  "skip_proplist bs =
     (case bs of
        [] \<Rightarrow> None
      | t # rest \<Rightarrow>
          if t = PA_TAG_STRING_NULL then Some rest
          else
            (case get_string bs of
               None \<Rightarrow> None
             | Some (_, bs1) \<Rightarrow>
                 (case get_u32 bs1 of
                    None \<Rightarrow> None
                  | Some (vlen, bs2) \<Rightarrow>
                      (case bs2 of
                         [] \<Rightarrow> None
                       | x # bs3 \<Rightarrow>
                           if x \<noteq> PA_TAG_ARBITRARY then None
                           else
                             (case skip_arbitrary bs3 of
                                None \<Rightarrow> None
                              | Some (alen, bs4) \<Rightarrow> if alen \<noteq> vlen then None else skip_proplist bs4)))))"
  by pat_completeness auto
termination
proof (relation "measure length", goal_cases)
  case (2 bs t rest r1 k bs1 r2 vlen bs2 x bs3 r3 alen bs4)
  from get_string_shrinks [of bs k bs1] 2 have "length bs1 < length bs" by simp
  moreover from get_u32_shrinks [of bs1 vlen bs2] 2 have "length bs2 < length bs1" by simp
  moreover from skip_arbitrary_shrinks [of bs3 alen bs4] 2 have "length bs4 < length bs3" by simp
  ultimately show ?case using 2 by simp
qed simp

declare skip_proplist.simps [simp del]

text \<open>A value of any type.\<close>

fun skip_value :: "byte list \<Rightarrow> byte list option" where
  "skip_value [] = None"
| "skip_value (t # bs) =
     (if t = PA_TAG_U32 \<or> t = PA_TAG_VOLUME then skip_bytes 4 bs
      else if t = PA_TAG_U8 then skip_bytes 1 bs
      else if t = PA_TAG_U64 \<or> t = PA_TAG_S64 \<or> t = PA_TAG_USEC then skip_bytes 8 bs
      else if t = PA_TAG_BOOLEAN_TRUE \<or> t = PA_TAG_BOOLEAN_FALSE \<or> t = PA_TAG_STRING_NULL then Some bs
      else if t = PA_TAG_STRING then map_option snd (get_cstring bs)
      else if t = PA_TAG_SAMPLE_SPEC then skip_bytes 6 bs
      else if t = PA_TAG_TIMEVAL then skip_bytes 8 bs
      else if t = PA_TAG_CHANNEL_MAP then (case bs of [] \<Rightarrow> None | n # bs \<Rightarrow> skip_bytes (unat n) bs)
      else if t = PA_TAG_CVOLUME then (case bs of [] \<Rightarrow> None | n # bs \<Rightarrow> skip_bytes (unat n * 4) bs)
      else if t = PA_TAG_ARBITRARY then map_option snd (skip_arbitrary bs)
      else if t = PA_TAG_PROPLIST then skip_proplist bs
      else if t = PA_TAG_FORMAT_INFO then
        (case bs of x # _ # bs \<Rightarrow> if x = PA_TAG_U8 then skip_value bs else None | _ \<Rightarrow> None)
      else None)"

section \<open>Round trips\<close>

lemma length_put_be32 [simp]: "length (put_be32 v) = 4"
  by (simp add: put_be32_def)

lemma length_put_be64 [simp]: "length (put_be64 v) = 8"
  by (simp add: put_be64_def)

lemma be32_put: "be32 (ucast (drop_bit 24 v)) (ucast (drop_bit 16 v)) (ucast (drop_bit 8 v)) (ucast v) = v"
proof (rule bit_eqI)
  fix n
  assume "possible_bit TYPE(u32) n"
  then have n: "n < 32" by simp
  then consider "n < 8" | "8 \<le> n" "n < 16" | "16 \<le> n" "n < 24" | "24 \<le> n" by linarith
  then show "bit (be32 (ucast (drop_bit 24 v)) (ucast (drop_bit 16 v)) (ucast (drop_bit 8 v)) (ucast v)) n = bit v n"
    by cases (use n in \<open>auto simp: be32_def bit_simps\<close>)
qed

lemma be64_put: "be64 (put_be64 v) = v"
proof -
  have "fold (\<lambda>b w. push_bit 8 w OR ucast b) (map (\<lambda>i. ucast (drop_bit (i * 8) v) :: byte) (rev [0..<k])) (drop_bit (k * 8) v) = v"
    for k
  proof (induction k)
    case (Suc k)
    have "push_bit 8 (drop_bit (Suc k * 8) v) OR ucast (ucast (drop_bit (k * 8) v) :: byte) = drop_bit (k * 8) v"
      by (rule bit_eqI) (auto simp: bit_simps dest: bit_imp_le_length)
    with Suc show ?case by simp
  qed simp
  moreover have "drop_bit 64 v = 0"
    by (rule bit_eqI) (auto simp: bit_simps dest: bit_imp_le_length)
  ultimately show ?thesis by (metis (no_types, lifting) be64_def put_be64_def mult_numeral_left_semiring_numeral num_double numeral_times_numeral semiring_norm(13))
qed

lemma get_u32_put [simp]: "get_u32 (put_u32 v @ rest) = Some (v, rest)"
  using be32_put [of v] by (simp add: put_u32_def put_be32_def)

lemma get_u8_put [simp]: "get_u8 (put_u8 v @ rest) = Some (v, rest)"
  by (simp add: put_u8_def)

lemma get_8_bytes_put: "get_8_bytes tag (tag # put_be64 v @ rest) = Some (v, rest)"
  by (simp add: get_8_bytes_def be64_put)

lemma get_u64_put [simp]: "get_u64 (put_u64 v @ rest) = Some (v, rest)"
  by (simp add: get_u64_def put_u64_def get_8_bytes_put)

lemma get_s64_put [simp]: "get_s64 (put_s64 v @ rest) = Some (v, rest)"
  by (simp add: get_s64_def put_s64_def get_8_bytes_put)

lemma get_boolean_put [simp]: "get_boolean (put_boolean v @ rest) = Some (v, rest)"
  by (simp add: put_boolean_def pa_tags)

lemma get_cstring_put [simp]: "0 \<notin> set s \<Longrightarrow> get_cstring (s @ 0 # rest) = Some (s, rest)"
  by (induction s) (auto simp: get_cstring_def split: list.splits)

definition c_string :: "byte list option \<Rightarrow> bool" where
  "c_string s = (case s of None \<Rightarrow> True | Some t \<Rightarrow> 0 \<notin> set t)"

lemma get_string_put [simp]: "c_string s \<Longrightarrow> get_string (put_string s @ rest) = Some (s, rest)"
  by (cases s) (simp_all add: put_string_def pa_tags c_string_def)

lemma get_sample_spec_put [simp]: "get_sample_spec (put_sample_spec s @ rest) = Some (s, rest)"
  using be32_put [of "ss_rate s"] by (simp add: put_sample_spec_def put_be32_def)

text \<open>Every value the writer can put, and the bytes it puts.\<close>

datatype pa_value = Val_u32 u32 | Val_u8 byte | Val_u64 u64 | Val_s64 u64 | Val_usec u64 | Val_boolean bool
  | Val_string "byte list option" | Val_sample_spec sample_spec | Val_stereo | Val_mono | Val_cvolume byte u32 | Val_volume u32
  | Val_empty_proplist | Val_timeval u32 u32

fun put_value :: "pa_value \<Rightarrow> byte list" where
  "put_value (Val_u32 v) = put_u32 v"
| "put_value (Val_u8 v) = put_u8 v"
| "put_value (Val_u64 v) = put_u64 v"
| "put_value (Val_s64 v) = put_s64 v"
| "put_value (Val_usec v) = put_usec v"
| "put_value (Val_boolean v) = put_boolean v"
| "put_value (Val_string s) = put_string s"
| "put_value (Val_sample_spec s) = put_sample_spec s"
| "put_value Val_stereo = put_channel_map_stereo"
| "put_value Val_mono = put_channel_map_mono"
| "put_value (Val_cvolume n v) = put_cvolume n v"
| "put_value (Val_volume v) = put_volume v"
| "put_value Val_empty_proplist = put_empty_proplist"
| "put_value (Val_timeval a b) = put_timeval a b"

fun valid_value :: "pa_value \<Rightarrow> bool" where
  "valid_value (Val_string s) = c_string s"
| "valid_value _ = True"

lemma skip_bytes_append [simp]: "length xs = n \<Longrightarrow> skip_bytes n (xs @ rest) = Some rest"
  by (simp add: skip_bytes_def)

lemma length_concat_be32: "length (concat (replicate n (put_be32 v))) = n * 4"
  by (induction n) simp_all

lemma skip_value_put: "valid_value v \<Longrightarrow> skip_value (put_value v @ rest) = Some rest"
proof (cases v)
  case (Val_string s)
  moreover assume "valid_value v"
  ultimately show ?thesis by (cases s) (simp_all add: put_string_def pa_tags c_string_def)
qed (simp_all add: put_u32_def put_u8_def put_u64_def put_s64_def put_usec_def put_boolean_def put_sample_spec_def
      put_channel_map_stereo_def put_channel_map_mono_def put_cvolume_def put_volume_def put_empty_proplist_def put_timeval_def
      pa_tags skip_bytes_def length_concat_be32 skip_proplist.simps)

text \<open>A sequence of values, skipped one after the other.\<close>

fun skip_values :: "nat \<Rightarrow> byte list \<Rightarrow> byte list option" where
  "skip_values 0 bs = Some bs"
| "skip_values (Suc n) bs = (case skip_value bs of None \<Rightarrow> None | Some bs \<Rightarrow> skip_values n bs)"

lemma skip_values_put:
  "list_all valid_value vs \<Longrightarrow> skip_values (length vs) (concat (map put_value vs) @ rest) = Some rest"
  by (induction vs) (simp_all add: skip_value_put)

text \<open>What is left is always a suffix of what there was: no reader runs past the end of the message.\<close>

lemma skip_bytes_suffix: "skip_bytes n bs = Some rest \<Longrightarrow> suffix rest bs"
  by (auto simp: skip_bytes_def suffix_drop split: if_splits)

lemma get_cstring_suffix: "get_cstring bs = Some (s, rest) \<Longrightarrow> suffix rest bs"
proof -
  assume "get_cstring bs = Some (s, rest)"
  then obtain b where "dropWhile (\<lambda>b. b \<noteq> 0) bs = b # rest" by (auto simp: get_cstring_def split: list.splits)
  then show "suffix rest bs" using suffix_dropWhile [of "\<lambda>b. b \<noteq> 0" bs] by (metis suffix_ConsD)
qed

lemma get_string_suffix: "get_string bs = Some (s, rest) \<Longrightarrow> suffix rest bs"
  by (cases bs) (auto dest: get_cstring_suffix intro: suffix_ConsI split: if_splits)

lemma get_u32_suffix: "get_u32 bs = Some (v, rest) \<Longrightarrow> suffix rest bs"
  by (cases bs rule: get_u32.cases) (auto intro!: suffix_ConsI split: if_splits)

lemma skip_arbitrary_suffix: "skip_arbitrary bs = Some (n, rest) \<Longrightarrow> suffix rest bs"
  by (cases bs rule: skip_arbitrary.cases) (auto simp: Let_def dest: skip_bytes_suffix intro!: suffix_ConsI)

lemma skip_proplist_suffix: "skip_proplist bs = Some rest \<Longrightarrow> suffix rest bs"
proof (induction bs rule: skip_proplist.induct)
  case (1 bs)
  show ?case
  proof (cases "hd bs = PA_TAG_STRING_NULL")
    case True
    with 1(2) show ?thesis by (subst (asm) skip_proplist.simps) (auto intro: suffix_ConsI split: list.splits if_splits)
  next
    case False
    with 1(2) obtain t r k bs1 vlen x bs3 bs4 where s: "bs = t # r" "t \<noteq> PA_TAG_STRING_NULL" "get_string bs = Some (k, bs1)"
      "get_u32 bs1 = Some (vlen, x # bs3)" "x = PA_TAG_ARBITRARY" "skip_arbitrary bs3 = Some (vlen, bs4)"
      and rest: "skip_proplist bs4 = Some rest"
      by (subst (asm) skip_proplist.simps) (auto split: list.splits if_splits option.splits prod.splits simp del: get_string.simps)
    from 1(1) [of t r _ k bs1 _ vlen "x # bs3" x bs3 _ vlen bs4] s rest have "suffix rest bs4" by simp
    also from s have "suffix bs4 bs3" by (auto dest: skip_arbitrary_suffix)
    also have "suffix bs3 (x # bs3)" by (simp add: suffix_ConsI)
    also from s have "suffix (x # bs3) bs1" by (auto dest: get_u32_suffix)
    also from s(3) have "suffix bs1 bs" by (rule get_string_suffix)
    finally show ?thesis .
  qed
qed

lemma skip_value_suffix: "skip_value bs = Some rest \<Longrightarrow> suffix rest bs"
proof (induction bs rule: skip_value.induct)
  case (2 t bs)
  then show ?case
    by (auto split: if_splits list.splits prod.splits intro!: suffix_ConsI
        dest: skip_bytes_suffix get_cstring_suffix skip_arbitrary_suffix skip_proplist_suffix)
qed simp

text \<open>What the tag writer puts, the tag reader gets back, with the rest of the message untouched: integers of 8, 32 and 64
  bits, booleans, strings without a NUL (the null string included) and sample specifications.  And a message of any values
  the writer can put is walked by \<^verbatim>\<open>skip_value\<close> exactly: one call per value, ending where the message ends.
\<close>

theorem tagstruct_roundtrip:
  assumes "c_string s" and "list_all valid_value vs"
  shows "get_u32 (put_u32 a @ rest) = Some (a, rest) \<and> get_u8 (put_u8 b @ rest) = Some (b, rest)
    \<and> get_u64 (put_u64 c @ rest) = Some (c, rest) \<and> get_s64 (put_s64 d @ rest) = Some (d, rest)
    \<and> get_boolean (put_boolean e @ rest) = Some (e, rest) \<and> get_string (put_string s @ rest) = Some (s, rest)
    \<and> get_sample_spec (put_sample_spec ss @ rest) = Some (ss, rest)
    \<and> skip_values (length vs) (concat (map put_value vs) @ rest) = Some rest"
  using assms by (simp add: skip_values_put)

theorem tagstruct_roundtrip_witness:
  "get_string (put_string (Some [0x61, 0x62]) @ [7]) = Some (Some [0x61, 0x62], [7])
    \<and> skip_values 3 (put_cvolume 2 PA_VOLUME_NORM @ put_string (Some [0x61]) @ put_empty_proplist @ [9]) = Some [9]"
proof -
  have "c_string (Some [0x61, 0x62])" and
    v: "list_all valid_value [Val_cvolume 2 PA_VOLUME_NORM, Val_string (Some [0x61]), Val_empty_proplist]"
    by (simp_all add: c_string_def)
  note rt = tagstruct_roundtrip [OF this]
  from rt [where rest = "[7]"] rt [where rest = "[9]"] show ?thesis by (simp add: numeral_3_eq_3)
qed

end
