(* ===== verification/Pulse_Stream.thy ===== *)
theory Pulse_Stream
  imports Pulse_Proto "Complex_Main"
begin


text \<open>
  One playback stream of the audio server (\<^verbatim>\<open>alr_audio/alr_pulse_server.cpp\<close>): decoding the client's
  frames, the resampler, the ring of device frames and the share of one stream in the mixer.  The C++ type
  \<^verbatim>\<open>double\<close> is a parameter, a record of the operations the code uses.  Reading behind the end of a
  buffer is the outcome \<^const>\<open>None\<close>, and so is a resampler that never returns.  A ring is described by
  the queue of its frames, oldest first; a full ring drops its oldest frame.
\<close>

type_synonym s16 = "16 word"
type_synonym s32 = "32 word"
type_synonym frame = "s16 \<times> s16"

section \<open>Floating point\<close>

text \<open>
  \<open>fp_float\<close> is the value of the four bytes of a \<^verbatim>\<open>float\<close>, \<open>fp_mulf\<close> the product rounded to
  \<^verbatim>\<open>float\<close>, \<open>fp_trunc\<close> the conversion to an integer type.
\<close>

record 'd fp =
  fp_of_int :: "int \<Rightarrow> 'd"
  fp_add :: "'d \<Rightarrow> 'd \<Rightarrow> 'd"
  fp_sub :: "'d \<Rightarrow> 'd \<Rightarrow> 'd"
  fp_mul :: "'d \<Rightarrow> 'd \<Rightarrow> 'd"
  fp_div :: "'d \<Rightarrow> 'd \<Rightarrow> 'd"
  fp_less :: "'d \<Rightarrow> 'd \<Rightarrow> bool"
  fp_trunc :: "'d \<Rightarrow> int"
  fp_float :: "byte list \<Rightarrow> 'd"
  fp_mulf :: "'d \<Rightarrow> 'd \<Rightarrow> 'd"

text \<open>
  What the code relies on.  A value that is not below zero but below an integer is truncated to an index below that integer;
  zero is not below zero; taking off a number a value has reached leaves a value that is not below zero.  And steps by
  \<open>step\<close> never lead below zero and pass every bound a chunk can have.
\<close>

definition fp_nonneg :: "'d fp \<Rightarrow> 'd \<Rightarrow> bool" where
  "fp_nonneg fp p \<longleftrightarrow> \<not> fp_less fp p (fp_of_int fp 0)"

definition fp_truncates :: "'d fp \<Rightarrow> bool" where
  "fp_truncates fp \<longleftrightarrow> fp_nonneg fp (fp_of_int fp 0)
     \<and> (\<forall>p n. fp_nonneg fp p \<longrightarrow> fp_less fp p (fp_of_int fp n) \<longrightarrow> 0 \<le> fp_trunc fp p \<and> fp_trunc fp p < n)
     \<and> (\<forall>p n. \<not> fp_less fp p (fp_of_int fp n) \<longrightarrow> fp_nonneg fp (fp_sub fp p (fp_of_int fp n)))"

definition fp_advances :: "'d fp \<Rightarrow> 'd \<Rightarrow> bool" where
  "fp_advances fp step \<longleftrightarrow> (\<forall>p. fp_nonneg fp p \<longrightarrow> fp_nonneg fp (fp_add fp p step))
     \<and> (\<forall>p n. fp_nonneg fp p \<longrightarrow> n \<le> uint kFrameSizeMax
          \<longrightarrow> (\<exists>k. \<not> fp_less fp (((\<lambda>p. fp_add fp p step) ^^ k) p) (fp_of_int fp n)))"

section \<open>Client frames\<close>

definition rd_s16le :: "byte list \<Rightarrow> s16" where
  "rd_s16le q = ucast (q ! 0) OR push_bit 8 (ucast (q ! 1))"

definition rd_s16be :: "byte list \<Rightarrow> s16" where
  "rd_s16be q = ucast (q ! 1) OR push_bit 8 (ucast (q ! 0))"

definition rd_f32le :: "'d fp \<Rightarrow> byte list \<Rightarrow> s16" where
  "rd_f32le fp q =
     (let f = fp_float fp q;
          f = (if fp_less fp (fp_of_int fp 1) f then fp_of_int fp 1 else f);
          f = (if fp_less fp f (fp_of_int fp (- 1)) then fp_of_int fp (- 1) else f)
      in word_of_int (fp_trunc fp (fp_mulf fp f (fp_of_int fp 32767))))"

definition rd_s32le :: "byte list \<Rightarrow> s16" where
  "rd_s32le q =
     (let v = ucast (q ! 0) OR push_bit 8 (ucast (q ! 1)) OR push_bit 16 (ucast (q ! 2)) OR push_bit 24 (ucast (q ! 3)) :: s32
      in ucast (signed_drop_bit 16 v))"

definition rd_u8 :: "byte list \<Rightarrow> s16" where
  "rd_u8 q = push_bit 8 (ucast (q ! 0) - 128)"

definition supported_format :: "byte \<Rightarrow> bool" where
  "supported_format f \<longleftrightarrow> f \<in> {0, 3, 4, 5, 7}"

text \<open>The sample of one channel; \<^const>\<open>None\<close> when it does not lie within the bytes at hand.\<close>

definition sample_at :: "'d fp \<Rightarrow> sample_spec \<Rightarrow> byte list \<Rightarrow> nat \<Rightarrow> s16 option" where
  "sample_at fp spec p ch =
     (let ssz = unat (sample_size_bytes (ss_format spec)); q = take ssz (drop (ch * ssz) p); f = ss_format spec
      in if length q < ssz then None
         else Some (if f = 3 then rd_s16le q else if f = 4 then rd_s16be q else if f = 5 then rd_f32le fp q
                    else if f = 7 then rd_s32le q else if f = 0 then rd_u8 q else 0))"

definition decode_client_frame :: "'d fp \<Rightarrow> byte list \<Rightarrow> sample_spec \<Rightarrow> frame option option" where
  "decode_client_frame fp p spec =
     (if \<not> supported_format (ss_format spec) then Some None
      else if 2 \<le> ss_channels spec then
        (case (sample_at fp spec p 0, sample_at fp spec p 1) of (Some l, Some r) \<Rightarrow> Some (Some (l, r)) | _ \<Rightarrow> None)
      else
        (case sample_at fp spec p 0 of Some m \<Rightarrow> Some (Some (m, m)) | None \<Rightarrow> None))"

section \<open>Streams\<close>

record 'd playback_stream =
  ps_index :: u32
  ps_channel :: u32
  ps_spec :: sample_spec
  ps_corked :: bool
  ps_started :: bool
  ps_draining :: bool
  ps_drain_tag :: u32
  ps_tlength :: u32
  ps_minreq :: u32
  ps_prebuf :: u32
  ps_maxlength :: u32
  ps_fragsize :: u32
  ps_requested_bytes :: u64
  ps_received_bytes :: u64
  ps_ring :: "s16 list"
  ps_ring_frames :: nat
  ps_head :: nat
  ps_tail :: nat
  ps_fill :: nat
  ps_resample_pos :: 'd
  ps_last_l :: s16
  ps_last_r :: s16
  ps_frames_played :: u64

definition kSinkChannels :: nat where "kSinkChannels = 2"
definition kRingFramesDefault :: nat where "kRingFramesDefault = 48000"

definition write_frame :: "frame \<Rightarrow> 'd playback_stream \<Rightarrow> 'd playback_stream" where
  "write_frame lr st =
     (let st = (if ps_ring_frames st \<le> ps_fill st
                then st\<lparr>ps_head := (ps_head st + 1) mod ps_ring_frames st, ps_fill := ps_fill st - 1\<rparr> else st)
      in st\<lparr>ps_ring := (ps_ring st)[ps_tail st * kSinkChannels := fst lr, ps_tail st * kSinkChannels + 1 := snd lr],
           ps_tail := (ps_tail st + 1) mod ps_ring_frames st, ps_fill := ps_fill st + 1\<rparr>)"

text \<open>The frames from number \<open>i\<close> on, without resampling.\<close>

fun push_frames :: "'d fp \<Rightarrow> byte list \<Rightarrow> nat \<Rightarrow> nat \<Rightarrow> nat \<Rightarrow> 'd playback_stream \<Rightarrow> 'd playback_stream option" where
  "push_frames fp bs cf i 0 st = Some st"
| "push_frames fp bs cf i (Suc n) st =
     (case decode_client_frame fp (drop (i * cf) bs) (ps_spec st) of
        None \<Rightarrow> None
      | Some None \<Rightarrow> Some st
      | Some (Some lr) \<Rightarrow> push_frames fp bs cf (Suc i) n (write_frame lr st))"

definition lerp :: "'d fp \<Rightarrow> s16 \<Rightarrow> s16 \<Rightarrow> 'd \<Rightarrow> s16" where
  "lerp fp a b fr =
     word_of_int (fp_trunc fp (fp_add fp (fp_of_int fp (sint a)) (fp_mul fp (fp_of_int fp (sint b - sint a)) fr)))"

text \<open>
  The resampling loop from the position \<open>pos\<close>.  The second component of the result is the final position, or
  \<^const>\<open>None\<close> after the early return on an unsupported format.
\<close>

partial_function (option) resample_loop ::
  "'d fp \<Rightarrow> byte list \<Rightarrow> nat \<Rightarrow> nat \<Rightarrow> 'd \<Rightarrow> 'd \<Rightarrow> 'd playback_stream \<Rightarrow> ('d playback_stream \<times> 'd option) option" where
  "resample_loop fp bs cf nframes step pos st =
     (if \<not> fp_less fp pos (fp_of_int fp (int nframes)) then Some (st, Some pos)
      else
        let i0 = nat (fp_trunc fp pos); fr = fp_sub fp pos (fp_of_int fp (int i0))
        in case (if i0 = 0 then Some (Some (ps_last_l st, ps_last_r st))
                 else decode_client_frame fp (drop ((i0 - 1) * cf) bs) (ps_spec st)) of
             None \<Rightarrow> None
           | Some None \<Rightarrow> Some (st, None)
           | Some (Some (l0, r0)) \<Rightarrow>
               (case decode_client_frame fp (drop (i0 * cf) bs) (ps_spec st) of
                  None \<Rightarrow> None
                | Some None \<Rightarrow> Some (st, None)
                | Some (Some (l1, r1)) \<Rightarrow>
                    resample_loop fp bs cf nframes step (fp_add fp pos step)
                      (write_frame (lerp fp l0 l1 fr, lerp fp r0 r1 fr) st)))"

text \<open>Carrying the phase and the last sample over to the next chunk.\<close>

definition carry_phase :: "'d fp \<Rightarrow> byte list \<Rightarrow> nat \<Rightarrow> nat \<Rightarrow> 'd \<Rightarrow> 'd playback_stream \<Rightarrow> 'd playback_stream option" where
  "carry_phase fp bs cf nframes pos st =
     (case (if nframes = 0 then Some None else decode_client_frame fp (drop ((nframes - 1) * cf) bs) (ps_spec st)) of
        None \<Rightarrow> None
      | Some None \<Rightarrow> Some (st\<lparr>ps_resample_pos := fp_sub fp pos (fp_of_int fp (int nframes))\<rparr>)
      | Some (Some (l, r)) \<Rightarrow>
          Some (st\<lparr>ps_last_l := l, ps_last_r := r, ps_resample_pos := fp_sub fp pos (fp_of_int fp (int nframes))\<rparr>))"

definition resample_step :: "'d fp \<Rightarrow> u32 \<Rightarrow> int \<Rightarrow> 'd" where
  "resample_step fp rate device_rate = fp_div fp (fp_of_int fp (uint rate)) (fp_of_int fp device_rate)"

definition need_resample :: "'d playback_stream \<Rightarrow> int \<Rightarrow> bool" where
  "need_resample st device_rate \<longleftrightarrow> ss_rate (ps_spec st) \<noteq> word_of_int device_rate \<and> ss_rate (ps_spec st) \<noteq> 0"

definition push_pcm_to_ring ::
  "'d fp \<Rightarrow> 'd playback_stream \<Rightarrow> byte list \<Rightarrow> int \<Rightarrow> 'd playback_stream option" where
  "push_pcm_to_ring fp st bs device_rate =
     (let cf = unat (frame_size_bytes (ps_spec st)); nframes = length bs div cf
      in if cf = 0 then Some st
         else if \<not> need_resample st device_rate then push_frames fp bs cf 0 nframes st
         else
           (case resample_loop fp bs cf nframes (resample_step fp (ss_rate (ps_spec st)) device_rate) (ps_resample_pos st) st of
              None \<Rightarrow> None
            | Some (st, None) \<Rightarrow> Some st
            | Some (st, Some pos) \<Rightarrow> carry_phase fp bs cf nframes pos st))"

section \<open>One stream in the mixer\<close>

text \<open>The inner loop of the data callback: the frames from number \<open>f\<close> on are added to the accumulator.\<close>

definition add_sample :: "s32 list \<Rightarrow> nat \<Rightarrow> s16 \<Rightarrow> s32 list" where
  "add_sample acc i s = acc[i := acc ! i + scast s]"

fun mix_frames :: "nat \<Rightarrow> nat \<Rightarrow> s32 list \<Rightarrow> 'd playback_stream \<Rightarrow> s32 list \<times> 'd playback_stream" where
  "mix_frames f 0 acc st = (acc, st)"
| "mix_frames f (Suc k) acc st =
     mix_frames (Suc f) k
       (add_sample (add_sample acc (f * kSinkChannels) (ps_ring st ! (ps_head st * kSinkChannels)))
          (f * kSinkChannels + 1) (ps_ring st ! (ps_head st * kSinkChannels + 1)))
       (st\<lparr>ps_head := (ps_head st + 1) mod ps_ring_frames st\<rparr>)"

definition mix_stream :: "nat \<Rightarrow> s32 list \<Rightarrow> 'd playback_stream \<Rightarrow> s32 list \<times> 'd playback_stream" where
  "mix_stream num_frames acc st =
     (if ps_corked st \<or> ps_ring_frames st = 0 then (acc, st)
      else
        let tk = min num_frames (ps_fill st); (acc, st) = mix_frames 0 tk acc st
        in (acc, st\<lparr>ps_fill := ps_fill st - tk, ps_frames_played := ps_frames_played st + of_nat tk\<rparr>))"

definition clip :: "s32 \<Rightarrow> s16" where
  "clip v = (let v = (if 32767 < sint v then 32767 else v); v = (if sint v < - 32768 then - 32768 else v) in ucast v)"

section \<open>The ring as a queue\<close>

definition ring_ok :: "'d playback_stream \<Rightarrow> bool" where
  "ring_ok st \<longleftrightarrow> 0 < ps_ring_frames st \<and> length (ps_ring st) = ps_ring_frames st * kSinkChannels
     \<and> ps_head st < ps_ring_frames st \<and> ps_fill st \<le> ps_ring_frames st
     \<and> ps_tail st = (ps_head st + ps_fill st) mod ps_ring_frames st"

definition frames_of :: "s16 list \<Rightarrow> nat \<Rightarrow> frame list" where
  "frames_of ring n = map (\<lambda>j. (ring ! (j * kSinkChannels), ring ! (j * kSinkChannels + 1))) [0..<n]"

definition ring_queue :: "'d playback_stream \<Rightarrow> frame list" where
  "ring_queue st = window (frames_of (ps_ring st) (ps_ring_frames st)) (ps_head st) (ps_fill st)"

definition keep_last :: "nat \<Rightarrow> 'a list \<Rightarrow> 'a list" where
  "keep_last n xs = drop (length xs - n) xs"

lemma length_frames_of [simp]: "length (frames_of ring n) = n"
  by (simp add: frames_of_def)

lemma length_ring_queue [simp]: "length (ring_queue st) = ps_fill st"
  by (simp add: ring_queue_def)

lemma frames_of_update:
  assumes "length ring = n * kSinkChannels" and "t < n"
  shows "frames_of (ring[t * kSinkChannels := l, t * kSinkChannels + 1 := r]) n = (frames_of ring n)[t := (l, r)]"
proof (rule nth_equalityI)
  fix i assume "i < length (frames_of (ring[t * kSinkChannels := l, t * kSinkChannels + 1 := r]) n)"
  then have "i < n" by simp
  with assms show "frames_of (ring[t * kSinkChannels := l, t * kSinkChannels + 1 := r]) n ! i = (frames_of ring n)[t := (l, r)] ! i"
    by (cases "i = t") (auto simp: frames_of_def kSinkChannels_def nth_list_update; presburger)+
qed simp

lemma keep_last_append: "keep_last n (keep_last n xs @ ys) = keep_last n (xs @ ys)"
proof -
  have "drop (length (keep_last n xs @ ys) - n) (drop (length xs - n) xs @ ys) = drop (length (xs @ ys) - n) (xs @ ys)"
    by (cases "length xs \<le> n") (auto simp: keep_last_def not_le add.commute)
  then show ?thesis by (simp add: keep_last_def)
qed

lemma keep_last_short: "length xs \<le> n \<Longrightarrow> keep_last n xs = xs"
  by (simp add: keep_last_def)

lemma write_frame_fields [simp]:
  "ps_ring_frames (write_frame lr st) = ps_ring_frames st" "ps_spec (write_frame lr st) = ps_spec st"
  "ps_corked (write_frame lr st) = ps_corked st" "ps_last_l (write_frame lr st) = ps_last_l st"
  "ps_last_r (write_frame lr st) = ps_last_r st" "ps_minreq (write_frame lr st) = ps_minreq st"
  "ps_started (write_frame lr st) = ps_started st" "ps_index (write_frame lr st) = ps_index st"
  by (simp_all add: write_frame_def Let_def)

lemma write_frame_not_full:
  assumes "ring_ok st" and "ps_fill st < ps_ring_frames st"
  shows "ring_ok (write_frame lr st)" and "ring_queue (write_frame lr st) = ring_queue st @ [lr]"
proof -
  let ?n = "ps_ring_frames st" and ?F = "frames_of (ps_ring st) (ps_ring_frames st)"
  have t: "ps_tail st = (ps_head st + ps_fill st) mod ?n" "ps_tail st < ?n" and len: "length (ps_ring st) = ?n * kSinkChannels"
    using assms(1) by (auto simp: ring_ok_def)
  show "ring_ok (write_frame lr st)"
    using assms by (auto simp: ring_ok_def write_frame_def Let_def mod_Suc_eq)
  have "ring_queue (write_frame lr st) = window (?F[ps_tail st := lr]) (ps_head st) (Suc (ps_fill st))"
    using assms(2) frames_of_update [OF len t(2), of "fst lr" "snd lr"] by (simp add: ring_queue_def write_frame_def Let_def)
  also have "?F[ps_tail st := lr] = poke ?F (ps_head st + ps_fill st) [lr]" using t by simp
  also have "window \<dots> (ps_head st) (Suc (ps_fill st)) = window \<dots> (ps_head st) (ps_fill st) @ [lr]"
    using window_add [of "poke ?F (ps_head st + ps_fill st) [lr]" "ps_head st" "ps_fill st" 1]
      window_poke_same [of "[lr]" ?F "ps_head st + ps_fill st"] assms by (simp add: ring_ok_def Suc_le_eq)
  also have "window (poke ?F (ps_head st + ps_fill st) [lr]) (ps_head st) (ps_fill st) = window ?F (ps_head st) (ps_fill st)"
  proof (rule nth_equalityI)
    fix i assume "i < length (window (poke ?F (ps_head st + ps_fill st) [lr]) (ps_head st) (ps_fill st))"
    then have i: "i < ps_fill st" by simp
    then have "\<not> ?n dvd (ps_head st + ps_fill st) - (ps_head st + i)" using assms(2) by (simp add: nat_dvd_not_less)
    then have "(ps_head st + i) mod ?n \<noteq> (ps_head st + ps_fill st) mod ?n"
      using i mod_eq_dvd_iff_nat [of "ps_head st + i" "ps_head st + ps_fill st" ?n] by simp
    then show "window (poke ?F (ps_head st + ps_fill st) [lr]) (ps_head st) (ps_fill st) ! i = window ?F (ps_head st) (ps_fill st) ! i"
      using i by (simp add: nth_window)
  qed simp
  finally show "ring_queue (write_frame lr st) = ring_queue st @ [lr]" by (simp add: ring_queue_def)
qed

definition drop_oldest :: "'d playback_stream \<Rightarrow> 'd playback_stream" where
  "drop_oldest st = st\<lparr>ps_head := (ps_head st + 1) mod ps_ring_frames st, ps_fill := ps_fill st - 1\<rparr>"

lemma drop_oldest_queue:
  assumes "ring_ok st" and "0 < ps_fill st"
  shows "ring_ok (drop_oldest st)" and "ring_queue (drop_oldest st) = tl (ring_queue st)"
proof -
  let ?F = "frames_of (ps_ring st) (ps_ring_frames st)"
  have "(Suc (ps_head st) mod n + (ps_fill st - 1)) mod n = (Suc (ps_head st) + (ps_fill st - 1)) mod n" for n
    by (rule mod_add_left_eq)
  with assms(2) have "(Suc (ps_head st) mod n + (ps_fill st - 1)) mod n = (ps_head st + ps_fill st) mod n" for n by simp
  with assms show "ring_ok (drop_oldest st)"
    by (auto simp: ring_ok_def drop_oldest_def)
  have "ring_queue (drop_oldest st) = window ?F (ps_head st + 1) (ps_fill st - 1)"
    by (simp add: ring_queue_def drop_oldest_def) (rule window_cong_mod, simp)
  then show "ring_queue (drop_oldest st) = tl (ring_queue st)"
    using drop_window [of 1 ?F "ps_head st" "ps_fill st"] by (simp add: ring_queue_def drop_Suc)
qed

lemma write_frame_full: "ps_fill st = ps_ring_frames st \<Longrightarrow> 0 < ps_fill st \<Longrightarrow> write_frame lr st = write_frame lr (drop_oldest st)"
  by (simp add: write_frame_def drop_oldest_def Let_def)

text \<open>Writing a frame appends it to the queue and, when the ring is full, drops the oldest one.\<close>

lemma write_frame_queue:
  assumes "ring_ok st"
  shows "ring_ok (write_frame lr st)"
    and "ring_queue (write_frame lr st) = keep_last (ps_ring_frames st) (ring_queue st @ [lr])"
proof -
  have "ring_ok (write_frame lr st) \<and> ring_queue (write_frame lr st) = keep_last (ps_ring_frames st) (ring_queue st @ [lr])"
  proof (cases "ps_fill st < ps_ring_frames st")
    case True
    with write_frame_not_full [OF assms] show ?thesis by (simp add: keep_last_def)
  next
    case False
    with assms have full: "ps_fill st = ps_ring_frames st" "0 < ps_fill st" by (auto simp: ring_ok_def)
    note d = drop_oldest_queue [OF assms full(2)]
    have "ps_fill (drop_oldest st) < ps_ring_frames (drop_oldest st)" using full by (simp add: drop_oldest_def)
    from write_frame_not_full [OF d(1) this, of lr] d(2) write_frame_full [OF full, of lr] full
    show ?thesis by (simp add: keep_last_def drop_Suc)
  qed
  then show "ring_ok (write_frame lr st)"
    and "ring_queue (write_frame lr st) = keep_last (ps_ring_frames st) (ring_queue st @ [lr])" by simp_all
qed

section \<open>Pushing client data\<close>

lemma sample_size_range: "unat (sample_size_bytes f) \<in> {1, 2, 3, 4}"
  by (simp add: sample_size_bytes_def)

lemma frame_size_nat:
  "unat (frame_size_bytes s) = unat (sample_size_bytes (ss_format s)) * (if ss_channels s = 0 then 1 else unat (ss_channels s))"
proof -
  have "unat (ss_channels s) < 256" using unsigned_less [where 'a = nat, of "ss_channels s"] by simp
  moreover have "unat (sample_size_bytes (ss_format s)) \<le> 4" using sample_size_range [of "ss_format s"] by auto
  ultimately have "unat (sample_size_bytes (ss_format s)) * unat (ss_channels s) < 4 * 256"
    by (metis le_less_trans mult_le_mono1 mult_less_cancel1 zero_less_numeral)
  then show ?thesis
    using \<open>unat (ss_channels s) < 256\<close> \<open>unat (sample_size_bytes (ss_format s)) \<le> 4\<close>
    by (simp add: frame_size_bytes_def unat_word_ariths take_bit_nat_eq_self unsigned_ucast_eq)
qed

lemma frame_size_pos: "0 < unat (frame_size_bytes s)"
  using sample_size_range [of "ss_format s"] by (auto simp: frame_size_nat unat_gt_0)

lemma sample_at_inside:
  "(ch + 1) * unat (sample_size_bytes (ss_format spec)) \<le> length p \<Longrightarrow> \<exists>v. sample_at fp spec p ch = Some v"
  by (simp add: sample_at_def Let_def)

text \<open>A whole frame can be decoded without reading behind its end.\<close>

lemma decode_inside:
  assumes "unat (frame_size_bytes spec) \<le> length p" and "supported_format (ss_format spec)"
  shows "\<exists>lr. decode_client_frame fp p spec = Some (Some lr)"
proof -
  let ?s = "unat (sample_size_bytes (ss_format spec))"
  have "?s * 1 \<le> unat (frame_size_bytes spec)" unfolding frame_size_nat by (intro mult_le_mono2) (simp add: Suc_le_eq unat_gt_0)
  with assms(1) have 0: "?s \<le> length p" by simp
  have 1: "2 * ?s \<le> length p" if "2 \<le> ss_channels spec"
  proof -
    from that have "2 \<le> unat (ss_channels spec)" by (simp add: word_le_nat_alt)
    then have "?s * 2 \<le> ?s * unat (ss_channels spec)" by (rule mult_le_mono2)
    also have "\<dots> \<le> length p" using assms(1) that by (auto simp: frame_size_nat split: if_splits)
    finally show ?thesis by (simp add: mult.commute)
  qed
  from 0 1 sample_at_inside [of 0 spec p fp] sample_at_inside [of 1 spec p fp] assms(2)
  show ?thesis by (auto simp: decode_client_frame_def mult.commute)
qed

text \<open>The frame number \<open>i\<close> of a chunk.\<close>

definition chunk_frame :: "'d fp \<Rightarrow> byte list \<Rightarrow> sample_spec \<Rightarrow> nat \<Rightarrow> frame" where
  "chunk_frame fp bs spec i = the (the (decode_client_frame fp (drop (i * unat (frame_size_bytes spec)) bs) spec))"

lemma decode_chunk:
  assumes "i < length bs div unat (frame_size_bytes spec)" and "supported_format (ss_format spec)"
  shows "decode_client_frame fp (drop (i * unat (frame_size_bytes spec)) bs) spec = Some (Some (chunk_frame fp bs spec i))"
proof -
  let ?cf = "unat (frame_size_bytes spec)"
  have "Suc i * ?cf \<le> (length bs div ?cf) * ?cf" using assms(1) by (intro mult_le_mono1) simp
  also have "\<dots> \<le> length bs" by simp
  finally have "?cf \<le> length (drop (i * ?cf) bs)" by simp
  from decode_inside [OF this assms(2), of fp] show ?thesis by (auto simp: chunk_frame_def)
qed

text \<open>The fields that pushing data does not touch.\<close>

definition same_stream :: "'d playback_stream \<Rightarrow> 'd playback_stream \<Rightarrow> bool" where
  "same_stream st st' \<longleftrightarrow> ps_ring_frames st' = ps_ring_frames st \<and> ps_spec st' = ps_spec st \<and> ps_corked st' = ps_corked st
     \<and> ps_minreq st' = ps_minreq st \<and> ps_started st' = ps_started st \<and> ps_index st' = ps_index st"

definition pushed :: "frame list \<Rightarrow> 'd playback_stream \<Rightarrow> 'd playback_stream \<Rightarrow> bool" where
  "pushed xs st st' \<longleftrightarrow> ring_ok st' \<and> same_stream st st' \<and> ring_queue st' = keep_last (ps_ring_frames st) (ring_queue st @ xs)"

lemma pushed_refl: "ring_ok st \<Longrightarrow> pushed [] st st"
  by (simp add: pushed_def same_stream_def keep_last_short ring_ok_def)

lemma pushed_write_frame: "ring_ok st \<Longrightarrow> pushed [lr] st (write_frame lr st)"
  using write_frame_queue [of st lr] by (simp add: pushed_def same_stream_def)

lemma pushed_trans: "pushed xs st st' \<Longrightarrow> pushed ys st' st'' \<Longrightarrow> pushed (xs @ ys) st st''"
  by (auto simp: pushed_def same_stream_def keep_last_append append_assoc [symmetric] simp del: append_assoc)

lemma push_frames_pushed:
  assumes "ring_ok st" and "supported_format (ss_format (ps_spec st))"
    and "i + n \<le> length bs div unat (frame_size_bytes (ps_spec st))"
  shows "\<exists>st'. push_frames fp bs (unat (frame_size_bytes (ps_spec st))) i n st = Some st'
    \<and> pushed (map (chunk_frame fp bs (ps_spec st)) [i..<i + n]) st st'"
  using assms
proof (induction n arbitrary: i st)
  case (Suc n)
  let ?lr = "chunk_frame fp bs (ps_spec st) i" and ?cf = "unat (frame_size_bytes (ps_spec st))"
  have w: "pushed [?lr] st (write_frame ?lr st)" using Suc.prems(1) by (rule pushed_write_frame)
  then have "ring_ok (write_frame ?lr st)" by (simp add: pushed_def)
  from Suc.IH [of "write_frame ?lr st" "Suc i", OF this] Suc.prems obtain st' where
    st': "push_frames fp bs ?cf (Suc i) n (write_frame ?lr st) = Some st'"
      "pushed (map (chunk_frame fp bs (ps_spec st)) [Suc i..<Suc i + n]) (write_frame ?lr st) st'" by auto
  have "[i..<i + Suc n] = i # [Suc i..<Suc i + n]" by (simp add: upt_conv_Cons)
  with pushed_trans [OF w st'(2)] st'(1) decode_chunk [of i bs "ps_spec st" fp] Suc.prems show ?case by simp
qed (simp add: pushed_refl)

text \<open>The interpolated frame at a position of the chunk; the frame before the first is the last of the chunk before.\<close>

definition resampled_frame :: "'d fp \<Rightarrow> byte list \<Rightarrow> sample_spec \<Rightarrow> frame \<Rightarrow> 'd \<Rightarrow> frame" where
  "resampled_frame fp bs spec prev pos =
     (let i0 = nat (fp_trunc fp pos); fr = fp_sub fp pos (fp_of_int fp (int i0));
          (l0, r0) = (if i0 = 0 then prev else chunk_frame fp bs spec (i0 - 1)); (l1, r1) = chunk_frame fp bs spec i0
      in (lerp fp l0 l1 fr, lerp fp r0 r1 fr))"

definition position :: "'d fp \<Rightarrow> 'd \<Rightarrow> 'd \<Rightarrow> nat \<Rightarrow> 'd" where
  "position fp step pos k = ((\<lambda>p. fp_add fp p step) ^^ k) pos"

lemma position_Suc: "position fp step pos (Suc k) = position fp step (fp_add fp pos step) k"
  using funpow_swap1 [of "\<lambda>p. fp_add fp p step" k pos] by (simp add: position_def)

lemma position_0 [simp]: "position fp step pos 0 = pos"
  by (simp add: position_def)

lemma resample_loop_pushed:
  assumes "fp_truncates fp" and "ring_ok st" and "supported_format (ss_format (ps_spec st))"
    and "nframes = length bs div unat (frame_size_bytes (ps_spec st))"
    and "\<not> fp_less fp (position fp step pos k) (fp_of_int fp (int nframes))" and "fp_nonneg fp pos" and "fp_advances fp step"
    and "\<And>j. j < k \<Longrightarrow> fp_less fp (position fp step pos j) (fp_of_int fp (int nframes))"
  shows "\<exists>st'. resample_loop fp bs (unat (frame_size_bytes (ps_spec st))) nframes step pos st = Some (st', Some (position fp step pos k))
    \<and> ps_last_l st' = ps_last_l st \<and> ps_last_r st' = ps_last_r st
    \<and> pushed (map (\<lambda>j. resampled_frame fp bs (ps_spec st) (ps_last_l st, ps_last_r st) (position fp step pos j)) [0..<k]) st st'"
  using assms
proof (induction k arbitrary: pos st)
  case 0
  then show ?case by (subst resample_loop.simps) (simp add: pushed_refl)
next
  case (Suc k)
  let ?cf = "unat (frame_size_bytes (ps_spec st))" and ?i = "nat (fp_trunc fp pos)" and ?spec = "ps_spec st"
  let ?prev = "(ps_last_l st, ps_last_r st)"
  let ?lr = "resampled_frame fp bs ?spec ?prev pos" and ?dec = "\<lambda>i. decode_client_frame fp (drop (i * ?cf) bs) ?spec"
  have less: "fp_less fp pos (fp_of_int fp (int nframes))" using Suc.prems(8) [of 0] by simp
  with Suc.prems(1,6) have "0 \<le> fp_trunc fp pos" "fp_trunc fp pos < int nframes" unfolding fp_truncates_def by blast+
  then have "?i < nframes" by linarith
  have w: "pushed [?lr] st (write_frame ?lr st)" using Suc.prems(2) by (rule pushed_write_frame)
  then have ok: "ring_ok (write_frame ?lr st)" by (simp add: pushed_def)
  have "\<exists>st'. resample_loop fp bs ?cf nframes step (fp_add fp pos step) (write_frame ?lr st)
        = Some (st', Some (position fp step (fp_add fp pos step) k))
      \<and> ps_last_l st' = ps_last_l st \<and> ps_last_r st' = ps_last_r st
      \<and> pushed (map (\<lambda>j. resampled_frame fp bs ?spec ?prev (position fp step (fp_add fp pos step) j)) [0..<k]) (write_frame ?lr st) st'"
    using Suc.IH [of "write_frame ?lr st" "fp_add fp pos step", OF Suc.prems(1) ok] Suc.prems(3-7) Suc.prems(8) [of "Suc j" for j]
    by (simp add: position_Suc fp_advances_def)
  then obtain st' where st': "resample_loop fp bs ?cf nframes step (fp_add fp pos step) (write_frame ?lr st)
        = Some (st', Some (position fp step (fp_add fp pos step) k))"
    "ps_last_l st' = ps_last_l st" "ps_last_r st' = ps_last_r st"
    "pushed (map (\<lambda>j. resampled_frame fp bs ?spec ?prev (position fp step (fp_add fp pos step) j)) [0..<k]) (write_frame ?lr st) st'"
    by blast
  have "resample_loop fp bs ?cf nframes step pos st = resample_loop fp bs ?cf nframes step (fp_add fp pos step) (write_frame ?lr st)"
    using less decode_chunk [of ?i bs ?spec fp] decode_chunk [of "?i - 1" bs ?spec fp] \<open>?i < nframes\<close> Suc.prems(3,4)
    by (subst resample_loop.simps) (auto simp: Let_def resampled_frame_def split: prod.splits)
  moreover have "[0..<Suc k] = 0 # map Suc [0..<k]" by (metis map_Suc_upt upt_conv_Cons zero_less_Suc)
  ultimately show ?case using pushed_trans [OF w st'(4)] st'(1-3) by (simp add: position_Suc comp_def)
qed

text \<open>A stream a client may write to.\<close>

definition stream_ok :: "'d fp \<Rightarrow> 'd playback_stream \<Rightarrow> bool" where
  "stream_ok fp st \<longleftrightarrow> ring_ok st \<and> supported_format (ss_format (ps_spec st)) \<and> fp_nonneg fp (ps_resample_pos st)"

lemma write_frame_resample_pos [simp]: "ps_resample_pos (write_frame lr st) = ps_resample_pos st"
  by (simp add: write_frame_def Let_def)

lemma push_frames_resample_pos: "push_frames fp bs cf i n st = Some st' \<Longrightarrow> ps_resample_pos st' = ps_resample_pos st"
  by (induction fp bs cf i n st rule: push_frames.induct) (auto split: option.splits)

lemma pushed_update:
  "pushed xs st (st'\<lparr>ps_resample_pos := p\<rparr>) = pushed xs st st'"
  "pushed xs st (st'\<lparr>ps_last_l := l\<rparr>) = pushed xs st st'"
  "pushed xs st (st'\<lparr>ps_last_r := l\<rparr>) = pushed xs st st'"
  by (simp_all add: pushed_def same_stream_def ring_ok_def ring_queue_def)

lemma carry_phase_pushed:
  assumes "pushed xs st0 st" and "supported_format (ss_format (ps_spec st))"
    and "nframes = length bs div unat (frame_size_bytes (ps_spec st))"
  shows "\<exists>st'. carry_phase fp bs (unat (frame_size_bytes (ps_spec st))) nframes pos st = Some st' \<and> pushed xs st0 st'
    \<and> ps_resample_pos st' = fp_sub fp pos (fp_of_int fp (int nframes))"
  using assms decode_chunk [of "nframes - 1" bs "ps_spec st" fp]
  by (cases "nframes = 0") (auto simp: carry_phase_def pushed_update split: prod.splits)

text \<open>The frames a chunk adds to the queue of a stream: its own, or the interpolated ones at the positions below its end.\<close>

definition chunk_output :: "'d fp \<Rightarrow> 'd playback_stream \<Rightarrow> byte list \<Rightarrow> int \<Rightarrow> frame list \<Rightarrow> bool" where
  "chunk_output fp st bs device_rate xs \<longleftrightarrow>
     (let n = length bs div unat (frame_size_bytes (ps_spec st)); step = resample_step fp (ss_rate (ps_spec st)) device_rate
      in if need_resample st device_rate then
           \<exists>k. (\<forall>j<k. fp_less fp (position fp step (ps_resample_pos st) j) (fp_of_int fp (int n)))
             \<and> \<not> fp_less fp (position fp step (ps_resample_pos st) k) (fp_of_int fp (int n))
             \<and> xs = map (\<lambda>j. resampled_frame fp bs (ps_spec st) (ps_last_l st, ps_last_r st) (position fp step (ps_resample_pos st) j)) [0..<k]
         else xs = map (chunk_frame fp bs (ps_spec st)) [0..<n])"

lemma first_past:
  assumes "fp_advances fp step" and "fp_nonneg fp pos" and "n \<le> uint kFrameSizeMax"
  obtains k where "\<not> fp_less fp (position fp step pos k) (fp_of_int fp n)"
    "\<And>j. j < k \<Longrightarrow> fp_less fp (position fp step pos j) (fp_of_int fp n)"
proof -
  from assms have "\<exists>k. \<not> fp_less fp (position fp step pos k) (fp_of_int fp n)" by (simp add: fp_advances_def position_def)
  then have "\<not> fp_less fp (position fp step pos (LEAST k. \<not> fp_less fp (position fp step pos k) (fp_of_int fp n))) (fp_of_int fp n)"
    by (rule LeastI_ex)
  then show thesis using that not_less_Least by blast
qed

lemma push_resampled:
  assumes "stream_ok fp st" and "fp_truncates fp" and "fp_advances fp (resample_step fp (ss_rate (ps_spec st)) device_rate)"
    and need: "need_resample st device_rate" and len: "length bs \<le> unat kFrameSizeMax"
  shows "\<exists>st' xs. push_pcm_to_ring fp st bs device_rate = Some st' \<and> stream_ok fp st' \<and> pushed xs st st' \<and> chunk_output fp st bs device_rate xs"
proof -
  let ?step = "resample_step fp (ss_rate (ps_spec st)) device_rate" and ?cf = "unat (frame_size_bytes (ps_spec st))"
  let ?n = "length bs div ?cf" and ?pos = "ps_resample_pos st"
  let ?xs = "\<lambda>k. map (\<lambda>j. resampled_frame fp bs (ps_spec st) (ps_last_l st, ps_last_r st) (position fp ?step ?pos j)) [0..<k]"
  have st: "ring_ok st" "supported_format (ss_format (ps_spec st))" "fp_nonneg fp ?pos" using assms(1) by (simp_all add: stream_ok_def)
  have "?n \<le> length bs" by (rule div_le_dividend)
  with len have "?n \<le> unat kFrameSizeMax" by linarith
  then have n: "int ?n \<le> uint kFrameSizeMax" by (simp only: uint_nat of_nat_le_iff)
  obtain k where k: "\<not> fp_less fp (position fp ?step ?pos k) (fp_of_int fp (int ?n))"
    "\<And>j. j < k \<Longrightarrow> fp_less fp (position fp ?step ?pos j) (fp_of_int fp (int ?n))" using first_past [OF assms(3) st(3) n] by blast
  from resample_loop_pushed [OF assms(2) st(1,2) refl k(1) st(3) assms(3) k(2)] obtain st1 where
    st1: "resample_loop fp bs ?cf ?n ?step ?pos st = Some (st1, Some (position fp ?step ?pos k))" "pushed (?xs k) st st1" by blast
  have same: "ps_spec st1 = ps_spec st" using st1(2) by (simp add: pushed_def same_stream_def)
  from carry_phase_pushed [OF st1(2), of ?n bs fp "position fp ?step ?pos k"] st(2) same obtain st' where
    st': "carry_phase fp bs ?cf ?n (position fp ?step ?pos k) st1 = Some st'" "pushed (?xs k) st st'"
      "ps_resample_pos st' = fp_sub fp (position fp ?step ?pos k) (fp_of_int fp (int ?n))" by auto
  have "stream_ok fp st'" using st' st assms(2) k(1) by (auto simp: stream_ok_def pushed_def same_stream_def fp_truncates_def)
  moreover have "push_pcm_to_ring fp st bs device_rate = Some st'"
    using st1(1) st'(1) need frame_size_pos [of "ps_spec st"] by (simp add: push_pcm_to_ring_def Let_def)
  moreover have "chunk_output fp st bs device_rate (?xs k)" using need k by (auto simp: chunk_output_def Let_def)
  ultimately show ?thesis using st'(2) by blast
qed

text \<open>Pushing a chunk returns, reads only the chunk, and appends its frames to the queue.\<close>

lemma push_pcm_pushed:
  assumes "stream_ok fp st" and "fp_truncates fp" and "fp_advances fp (resample_step fp (ss_rate (ps_spec st)) device_rate)"
    and "length bs \<le> unat kFrameSizeMax"
  shows "\<exists>st' xs. push_pcm_to_ring fp st bs device_rate = Some st' \<and> stream_ok fp st' \<and> pushed xs st st' \<and> chunk_output fp st bs device_rate xs"
proof (cases "need_resample st device_rate")
  case True
  then show ?thesis using push_resampled assms by blast
next
  case False
  let ?cf = "unat (frame_size_bytes (ps_spec st))"
  have st: "ring_ok st" "supported_format (ss_format (ps_spec st))" using assms(1) by (simp_all add: stream_ok_def)
  from push_frames_pushed [OF st, of 0 "length bs div ?cf" bs fp] obtain st' where
    st': "push_frames fp bs ?cf 0 (length bs div ?cf) st = Some st'"
      "pushed (map (chunk_frame fp bs (ps_spec st)) [0..<length bs div ?cf]) st st'" by auto
  then have "stream_ok fp st'" using assms(1) push_frames_resample_pos [OF st'(1)]
    by (auto simp: stream_ok_def pushed_def same_stream_def)
  then show ?thesis using st' False frame_size_pos [of "ps_spec st"]
    by (auto simp: push_pcm_to_ring_def chunk_output_def Let_def)
qed

section \<open>Mixing\<close>

text \<open>What a stream contributes to a block of \<open>n\<close> frames: silence when it is corked or has run dry.\<close>

definition contribution :: "nat \<Rightarrow> 'd playback_stream \<Rightarrow> nat \<Rightarrow> frame" where
  "contribution n st j = (if ps_corked st \<or> ps_fill st \<le> j \<or> n \<le> j then (0, 0) else ring_queue st ! j)"

lemma ring_queue_nth:
  "j < ps_fill st \<Longrightarrow> 0 < ps_ring_frames st \<Longrightarrow> ring_queue st ! j =
     (ps_ring st ! ((ps_head st + j) mod ps_ring_frames st * kSinkChannels),
      ps_ring st ! ((ps_head st + j) mod ps_ring_frames st * kSinkChannels + 1))"
  by (simp add: ring_queue_def nth_window frames_of_def)

lemma length_add_sample [simp]: "length (add_sample acc i s) = length acc"
  by (simp add: add_sample_def)

lemma nth_add_sample: "i < length acc \<Longrightarrow> add_sample acc i s ! j = (if j = i then acc ! j + scast s else acc ! j)"
  by (simp add: add_sample_def nth_list_update)

lemma mix_frames_state:
  "snd (mix_frames f k acc st) = st\<lparr>ps_head := (if k = 0 then ps_head st else (ps_head st + k) mod ps_ring_frames st)\<rparr>"
  by (induction f k acc st rule: mix_frames.induct) (auto simp: mod_Suc_eq mod_add_left_eq)

lemma mix_frames_length [simp]: "length (fst (mix_frames f k acc st)) = length acc"
  by (induction f k acc st rule: mix_frames.induct) simp_all

text \<open>One stream adds its next frames to the accumulator, channel by channel.\<close>

lemma mix_frames_acc:
  assumes "(f + k) * kSinkChannels \<le> length acc" and "ps_head st < ps_ring_frames st" and "c < kSinkChannels"
  shows "fst (mix_frames f k acc st) ! (j * kSinkChannels + c) = acc ! (j * kSinkChannels + c) +
    (if f \<le> j \<and> j < f + k
     then scast (ps_ring st ! ((ps_head st + (j - f)) mod ps_ring_frames st * kSinkChannels + c)) else 0)"
  using assms
proof (induction f k acc st rule: mix_frames.induct)
  case (2 f k acc st)
  have c: "c = 0 \<or> c = 1" using 2(4) by (auto simp: kSinkChannels_def)
  have mod: "(Suc (ps_head st) mod ps_ring_frames st + (j - Suc f)) mod ps_ring_frames st = (ps_head st + (j - f)) mod ps_ring_frames st"
    if "f < j"
  proof -
    have "Suc (ps_head st) + (j - Suc f) = ps_head st + (j - f)" using that by simp
    then show ?thesis using mod_add_left_eq [of "Suc (ps_head st)" "ps_ring_frames st" "j - Suc f"] by (simp only:)
  qed
  show ?case
    using 2(2-4) c 2(1) mod
    by (cases "j = f") (auto simp: nth_add_sample kSinkChannels_def)
qed auto

lemma mix_stream_eq:
  assumes "ring_ok st"
  shows "mix_stream n acc st = (if ps_corked st then (acc, st) else
    let tk = min n (ps_fill st); r = mix_frames 0 tk acc st
    in (fst r, (snd r)\<lparr>ps_fill := ps_fill (snd r) - tk, ps_frames_played := ps_frames_played (snd r) + of_nat tk\<rparr>))"
  using assms by (simp add: mix_stream_def Let_def case_prod_beta ring_ok_def)

lemma mix_stream_length [simp]: "length (fst (mix_stream n acc st)) = length acc"
  by (simp add: mix_stream_def Let_def case_prod_beta)

lemma mix_stream_acc:
  assumes "ring_ok st" and "length acc = n * kSinkChannels" and "j < n"
  shows "fst (mix_stream n acc st) ! (j * kSinkChannels) = acc ! (j * kSinkChannels) + scast (fst (contribution n st j))"
    and "fst (mix_stream n acc st) ! (j * kSinkChannels + 1) = acc ! (j * kSinkChannels + 1) + scast (snd (contribution n st j))"
proof -
  have st: "0 < ps_ring_frames st" "ps_head st < ps_ring_frames st" using assms(1) by (auto simp: ring_ok_def)
  have len: "(0 + min n (ps_fill st)) * kSinkChannels \<le> length acc" using assms(2) by (simp add: kSinkChannels_def)
  note m = mix_frames_acc [OF len st(2), of 0 j] mix_frames_acc [OF len st(2), of 1 j]
  show "fst (mix_stream n acc st) ! (j * kSinkChannels) = acc ! (j * kSinkChannels) + scast (fst (contribution n st j))"
    using m(1) st(1) assms(3) by (simp add: mix_stream_eq [OF assms(1)] contribution_def ring_queue_nth kSinkChannels_def Let_def)
  show "fst (mix_stream n acc st) ! (j * kSinkChannels + 1) = acc ! (j * kSinkChannels + 1) + scast (snd (contribution n st j))"
    using m(2) st(1) assms(3) by (simp add: mix_stream_eq [OF assms(1)] contribution_def ring_queue_nth kSinkChannels_def Let_def)
qed

lemma mix_stream_queue:
  assumes "ring_ok st"
  shows "ring_ok (snd (mix_stream n acc st))"
    and "ring_queue (snd (mix_stream n acc st)) = (if ps_corked st then ring_queue st else drop n (ring_queue st))"
    and "same_stream st (snd (mix_stream n acc st))" and "ps_resample_pos (snd (mix_stream n acc st)) = ps_resample_pos st"
proof -
  let ?k = "min n (ps_fill st)" and ?N = "ps_ring_frames st" and ?F = "frames_of (ps_ring st) (ps_ring_frames st)"
  define st' where "st' = st\<lparr>ps_head := (if ?k = 0 then ps_head st else (ps_head st + ?k) mod ?N)\<rparr>"
  have m: "snd (mix_stream n acc st) = (if ps_corked st then st
      else st'\<lparr>ps_fill := ps_fill st - ?k, ps_frames_played := ps_frames_played st + of_nat ?k\<rparr>)"
    by (simp add: mix_stream_eq [OF assms] mix_frames_state Let_def st'_def)
  have h: "ps_head st' = (ps_head st + ?k) mod ?N" using assms by (auto simp: st'_def ring_ok_def)
  have "((ps_head st + ?k) mod ?N + (ps_fill st - ?k)) mod ?N = (ps_head st + ?k + (ps_fill st - ?k)) mod ?N"
    by (rule mod_add_left_eq)
  then have t: "((ps_head st + ?k) mod ?N + (ps_fill st - ?k)) mod ?N = (ps_head st + ps_fill st) mod ?N" by simp
  show "ring_ok (snd (mix_stream n acc st))"
    using assms h t unfolding m by (auto simp: ring_ok_def st'_def)
  have "window ?F ((ps_head st + ?k) mod ?N) (ps_fill st - ?k) = window ?F (ps_head st + ?k) (ps_fill st - ?k)"
    by (rule window_cong_mod) simp
  also have "\<dots> = drop n (window ?F (ps_head st) (ps_fill st))"
    by (cases "n \<le> ps_fill st") (simp_all add: drop_window min_def)
  finally show "ring_queue (snd (mix_stream n acc st)) = (if ps_corked st then ring_queue st else drop n (ring_queue st))"
    using h unfolding m by (simp add: ring_queue_def st'_def)
  show "same_stream st (snd (mix_stream n acc st))" and "ps_resample_pos (snd (mix_stream n acc st)) = ps_resample_pos st"
    unfolding m by (simp_all add: same_stream_def st'_def)
qed

lemma clip_sint: "sint (clip v) = max (- 32768) (min 32767 (sint v))"
proof -
  define x where "x = max (- 32768) (min 32767 (sint v))"
  have "ucast v = (scast v :: s16)" by (rule bit_eqI) (auto simp: bit_simps)
  then have "clip v = word_of_int x"
    by (auto simp: clip_def x_def Let_def)
  moreover have "sint (word_of_int x :: s16) = x"
    unfolding sint_sbintrunc' by (rule signed_take_bit_int_eq_self) (auto simp: x_def)
  ultimately show ?thesis by (simp add: x_def)
qed

section \<open>Exact arithmetic as an instance\<close>

text \<open>Rational arithmetic satisfies what the code relies on, for every positive step.\<close>

definition float_bits :: "byte list \<Rightarrow> nat" where
  "float_bits q = (case q of [a, b, c, d] \<Rightarrow> unat a + 256 * unat b + 65536 * unat c + 16777216 * unat d | _ \<Rightarrow> 0)"

definition rat_fp :: "rat fp" where
  "rat_fp = \<lparr>fp_of_int = of_int, fp_add = (+), fp_sub = (-), fp_mul = (*), fp_div = (/), fp_less = (<),
     fp_trunc = (\<lambda>p. if p < 0 then - \<lfloor>- p\<rfloor> else \<lfloor>p\<rfloor>),
     fp_float = (\<lambda>q. let b = float_bits q; m = 2 ^ 23 + b mod 2 ^ 23; e = b div 2 ^ 23 mod 256
                   in (if 2 ^ 31 \<le> b then - 1 else 1) * of_nat m * 2 ^ e / 2 ^ 150),
     fp_mulf = (*)\<rparr>"

lemma rat_truncates: "fp_truncates rat_fp"
  by (auto simp: fp_truncates_def fp_nonneg_def rat_fp_def floor_less_iff)

lemma rat_funpow: "((\<lambda>p. p + s) ^^ k) p = p + of_nat k * s" for p s :: rat
  by (induction k) (simp_all add: algebra_simps)

lemma rat_advances:
  assumes "0 < s"
  shows "fp_advances rat_fp s"
proof -
  have "\<exists>k. \<not> ((\<lambda>p. p + s) ^^ k) p < of_int n" for p n
  proof -
    obtain k where "(of_int n - p) / s < of_nat k" using reals_Archimedean2 by blast
    with assms have "\<not> ((\<lambda>p. p + s) ^^ k) p < of_int n" by (simp add: rat_funpow field_simps)
    then show ?thesis ..
  qed
  with assms show ?thesis by (auto simp: fp_advances_def fp_nonneg_def rat_fp_def)
qed

text \<open>C32. Pushing a chunk of client data, of at most the largest frame, into a stream returns, reads nothing behind the chunk, and appends the chunk's frames to
  the queue the ring stands for: the decoded frames when the client uses the rate of the device, and otherwise one linearly
  interpolated frame for every position below the end of the chunk, where the frame before the first is the last one of the
  chunk before.  When the ring is full the oldest frames are dropped, so the queue is the last \<open>ring_frames\<close> frames of
  everything written and not yet played.
\<close>

theorem audio_push_correct:
  assumes "stream_ok fp st" and "fp_truncates fp" and "fp_advances fp (resample_step fp (ss_rate (ps_spec st)) device_rate)"
    and "length bs \<le> unat kFrameSizeMax"
  shows "\<exists>st' xs. push_pcm_to_ring fp st bs device_rate = Some st' \<and> stream_ok fp st' \<and> chunk_output fp st bs device_rate xs
    \<and> ring_queue st' = keep_last (ps_ring_frames st) (ring_queue st @ xs)"
  using push_pcm_pushed [OF assms] by (auto simp: pushed_def)

definition demo_stream :: "rat playback_stream" where
  "demo_stream = \<lparr>ps_index = 1, ps_channel = 1, ps_spec = \<lparr>ss_format = 3, ss_channels = 1, ss_rate = 44100\<rparr>, ps_corked = False,
     ps_started = False, ps_draining = False, ps_drain_tag = 0, ps_tlength = 8, ps_minreq = 4, ps_prebuf = 4, ps_maxlength = 32,
     ps_fragsize = 0, ps_requested_bytes = 8, ps_received_bytes = 0, ps_ring = [1, 2, 3, 4], ps_ring_frames = 2, ps_head = 1,
     ps_tail = 0, ps_fill = 1, ps_resample_pos = 0, ps_last_l = 0, ps_last_r = 0, ps_frames_played = 0\<rparr>"

lemma demo_stream_ok: "stream_ok rat_fp demo_stream"
  by (simp add: stream_ok_def demo_stream_def ring_ok_def kSinkChannels_def supported_format_def fp_nonneg_def rat_fp_def)

lemma demo_stream_step: "fp_advances rat_fp (resample_step rat_fp (ss_rate (ps_spec demo_stream)) 48000)"
  by (rule rat_advances) (simp add: demo_stream_def resample_step_def rat_fp_def)

theorem audio_push_correct_witness:
  "\<exists>st' xs. push_pcm_to_ring rat_fp demo_stream [1, 0, 5, 0, 9, 0] 48000 = Some st' \<and> stream_ok rat_fp st'
    \<and> chunk_output rat_fp demo_stream [1, 0, 5, 0, 9, 0] 48000 xs
    \<and> ring_queue st' = keep_last 2 ([(3, 4)] @ xs)"
proof -
  have "ring_queue demo_stream = [(3, 4)]" "ps_ring_frames demo_stream = 2"
    by (simp_all add: ring_queue_def demo_stream_def window_def frames_of_def kSinkChannels_def)
  with audio_push_correct [OF demo_stream_ok rat_truncates demo_stream_step, of "[1, 0, 5, 0, 9, 0]"]
  show ?thesis by (simp add: kFrameSizeMax_def)
qed

end
