(* ===== verification/Pulse_Server.thy ===== *)
theory Pulse_Server
  imports Pulse_Stream "HOL-Library.AList" "HOL-Library.Monad_Syntax"
begin

text \<open>
  The audio server, \<^verbatim>\<open>alr_audio/alr_pulse_server.cpp\<close>, on top of its streams: command handlers, frame reassembly,
  the data callback that mixes, the clients and the event loop, start and stop.  Streams are shared between a client's table
  and the mixer's, so both hold numbers of stream objects in one store.  The AAudio library is a parameter (does the builder
  open, at which rate, does it start, its play position), and so are the kernel's answers: a client carries the results of its
  next sends, the other calls take lists of results.  The mutex makes each handler's access to the mixer and each data callback
  atomic.  \<^const>\<open>None\<close> stands for reading behind a buffer, for never returning and for \<^verbatim>\<open>std::terminate\<close>.
\<close>

section \<open>State\<close>

datatype send_result = Sent nat | Send_again | Send_failed

record client =
  cl_fd :: int
  cl_index :: u32
  cl_authed :: bool
  cl_name :: string
  cl_rbuf :: "byte list"
  cl_wbuf :: "byte list"
  cl_streams :: "(u32 \<times> nat) list"
  cl_sends :: "send_result list"
  cl_sent :: "byte list"

text \<open>The part of the server that the mutex guards, and the atomics the callback writes.\<close>

record 'd mixer =
  mx_objs :: "'d playback_stream list"
  mx_mix :: "(u32 \<times> nat) list"
  mx_next_stream :: u32
  mx_device_rate :: int
  mx_aaudio :: bool
  mx_frames_written :: u64
  mx_active :: nat

record aaudio =
  aa_builder :: bool
  aa_open :: "int \<Rightarrow> int option"
  aa_start :: bool
  aa_position :: "u64 option"

section \<open>The data callback\<close>

definition mix_entry :: "nat \<Rightarrow> u32 \<times> nat \<Rightarrow> s32 list \<times> 'd playback_stream list \<Rightarrow> s32 list \<times> 'd playback_stream list" where
  "mix_entry n e a = (let (acc, st) = mix_stream n (fst a) (snd a ! snd e) in (acc, (snd a)[snd e := st]))"

definition aaudio_cb :: "nat \<Rightarrow> 'd mixer \<Rightarrow> s16 list \<times> 'd mixer" where
  "aaudio_cb n m =
     (let (acc, objs) = fold (mix_entry n) (mx_mix m) (replicate (n * kSinkChannels) 0, mx_objs m)
      in (map clip acc, m\<lparr>mx_objs := objs, mx_frames_written := mx_frames_written m + of_nat n\<rparr>))"

definition open_aaudio_locked :: "aaudio \<Rightarrow> 'd mixer \<Rightarrow> bool \<times> 'd mixer" where
  "open_aaudio_locked aa m =
     (if mx_aaudio m then (True, m)
      else if \<not> aa_builder aa then (False, m)
      else
        (case aa_open aa (mx_device_rate m) of
           None \<Rightarrow> (False, m)
         | Some rate \<Rightarrow>
             let m = m\<lparr>mx_device_rate := rate\<rparr> in if aa_start aa then (True, m\<lparr>mx_aaudio := True\<rparr>) else (False, m)))"

definition close_aaudio_locked :: "'d mixer \<Rightarrow> 'd mixer" where
  "close_aaudio_locked m = m\<lparr>mx_aaudio := False\<rparr>"

section \<open>Replies\<close>

definition c_bytes :: "string \<Rightarrow> byte list" where
  "c_bytes s = map (\<lambda>c. of_nat (of_char c)) s"

abbreviation put_text :: "string \<Rightarrow> byte list" where
  "put_text s \<equiv> put_string (Some (c_bytes s))"

definition queue_frame :: "client \<Rightarrow> u32 \<Rightarrow> byte list \<Rightarrow> client" where
  "queue_frame c channel payload =
     c\<lparr>cl_wbuf := cl_wbuf c @ put_be32 (of_nat (length payload)) @ put_be32 channel @ put_be32 0 @ put_be32 0 @ put_be32 0 @ payload\<rparr>"

definition queue_command :: "client \<Rightarrow> byte list \<Rightarrow> client" where
  "queue_command c tw = queue_frame c kChannelControl tw"

definition PA_COMMAND_ERROR :: u32 where "PA_COMMAND_ERROR = 0"
definition PA_COMMAND_REPLY :: u32 where "PA_COMMAND_REPLY = 2"
definition PA_COMMAND_REQUEST :: u32 where "PA_COMMAND_REQUEST = 61"
definition PA_COMMAND_STARTED :: u32 where "PA_COMMAND_STARTED = 66"
definition PA_ERR_INVALID :: u32 where "PA_ERR_INVALID = 3"
definition PA_ERR_NOTSUPPORTED :: u32 where "PA_ERR_NOTSUPPORTED = 19"

definition make_reply :: "u32 \<Rightarrow> byte list" where
  "make_reply tag = put_u32 PA_COMMAND_REPLY @ put_u32 tag"

definition queue_error :: "client \<Rightarrow> u32 \<Rightarrow> u32 \<Rightarrow> client" where
  "queue_error c tag err = queue_command c (put_u32 PA_COMMAND_ERROR @ put_u32 tag @ put_u32 err)"

definition queue_request :: "client \<Rightarrow> u32 \<Rightarrow> u32 \<Rightarrow> client" where
  "queue_request c stream_index nbytes =
     queue_command c (put_u32 PA_COMMAND_REQUEST @ put_u32 0xFFFFFFFF @ put_u32 stream_index @ put_u32 nbytes)"

definition queue_started :: "client \<Rightarrow> u32 \<Rightarrow> client" where
  "queue_started c stream_index = queue_command c (put_u32 PA_COMMAND_STARTED @ put_u32 0xFFFFFFFF @ put_u32 stream_index)"

section \<open>Command handlers\<close>

text \<open>A call of the reader: the value, or the variable's old value when the reader fails or has failed.\<close>

definition rd_get :: "(byte list \<Rightarrow> ('a \<times> byte list) option) \<Rightarrow> 'a \<Rightarrow> byte list option \<Rightarrow> 'a \<times> byte list option" where
  "rd_get get old rd = (case Option.bind rd get of None \<Rightarrow> (old, None) | Some (v, bs) \<Rightarrow> (v, Some bs))"

definition handle_auth :: "client \<Rightarrow> u32 \<Rightarrow> byte list option \<Rightarrow> client" where
  "handle_auth c tag rd =
     (let (client_version, rd) = rd_get get_u32 0 rd; c = c\<lparr>cl_authed := True\<rparr>;
          ver = (if client_version \<noteq> 0 \<and> (client_version AND 0xFFFF) < kProtocolVersion then client_version AND 0xFFFF
                 else kProtocolVersion)
      in queue_command c (make_reply tag @ put_u32 ver))"

definition handle_set_client_name :: "client \<Rightarrow> u32 \<Rightarrow> byte list option \<Rightarrow> client" where
  "handle_set_client_name c tag rd = queue_command c (make_reply tag @ put_u32 (cl_index c))"

definition put_sink_info :: "sample_spec \<Rightarrow> int \<Rightarrow> byte list" where
  "put_sink_info spec rate =
     put_u32 0 @ put_text ''alr-android'' @ put_text ''ALR Android Sink'' @ put_sample_spec (spec\<lparr>ss_rate := word_of_int rate\<rparr>)
     @ put_channel_map_stereo @ put_u32 PA_INVALID_INDEX @ put_cvolume 2 PA_VOLUME_NORM @ put_boolean False
     @ put_u32 PA_INVALID_INDEX @ put_text ''alr-android.monitor'' @ put_usec 0 @ put_text ''alr'' @ put_u32 1
     @ put_usec 2000000 @ put_volume PA_VOLUME_NORM @ put_u32 0 @ put_u32 1 @ put_u32 PA_INVALID_INDEX @ put_u32 0
     @ put_empty_proplist"

definition handle_get_sink_info :: "client \<Rightarrow> u32 \<Rightarrow> sample_spec \<Rightarrow> int \<Rightarrow> bool \<Rightarrow> client" where
  "handle_get_sink_info c tag spec rate lst = queue_command c (make_reply tag @ put_sink_info spec rate)"

definition handle_get_server_info :: "client \<Rightarrow> u32 \<Rightarrow> int \<Rightarrow> client" where
  "handle_get_server_info c tag rate =
     queue_command c (make_reply tag @ put_text ''pulseaudio'' @ put_text ''15.0.0'' @ put_text ''alr'' @ put_text ''android''
       @ put_sample_spec \<lparr>ss_format = 3, ss_channels = 2, ss_rate = word_of_int rate\<rparr>
       @ put_text ''alr-android'' @ put_text ''alr-android.monitor'' @ put_u32 0 @ put_channel_map_stereo)"

definition handle_get_sink_input_info :: "client \<Rightarrow> u32 \<Rightarrow> bool \<Rightarrow> client" where
  "handle_get_sink_input_info c tag lst = queue_command c (make_reply tag)"

text \<open>The arguments of a new stream, in the order they are read.\<close>

record create_args =
  ca_spec :: sample_spec
  ca_maxlength :: u32
  ca_corked :: bool
  ca_tlength :: u32
  ca_prebuf :: u32
  ca_minreq :: u32

definition read_create_args :: "byte list \<Rightarrow> create_args option" where
  "read_create_args bs = do {
     (name, bs) \<leftarrow> get_string bs;
     (spec, bs) \<leftarrow> get_sample_spec bs;
     bs \<leftarrow> skip_value bs;
     (sink_index, bs) \<leftarrow> get_u32 bs;
     (sink_name, bs) \<leftarrow> get_string bs;
     (maxlength, bs) \<leftarrow> get_u32 bs;
     (corked, bs) \<leftarrow> get_boolean bs;
     (tlength, bs) \<leftarrow> get_u32 bs;
     (prebuf, bs) \<leftarrow> get_u32 bs;
     (minreq, bs) \<leftarrow> get_u32 bs;
     (syncid, bs) \<leftarrow> get_u32 bs;
     bs \<leftarrow> skip_value bs;
     Some \<lparr>ca_spec = spec, ca_maxlength = maxlength, ca_corked = corked, ca_tlength = tlength, ca_prebuf = prebuf, ca_minreq = minreq\<rparr>
   }"

definition def_or :: "u32 \<Rightarrow> u32 \<Rightarrow> u32" where
  "def_or v d = (if v = 0 \<or> v = 0xFFFFFFFF then d else v)"

text \<open>The negotiated attributes; the arithmetic is that of 32-bit integers.\<close>

definition negotiate :: "create_args \<Rightarrow> create_args" where
  "negotiate a =
     (let cf = frame_size_bytes (ca_spec a); rate = ss_rate (ca_spec a);
          tlength = def_or (ca_tlength a) (cf * (rate div 4));
          minreq = def_or (ca_minreq a) (cf * (rate div 20));
          prebuf = def_or (ca_prebuf a) minreq;
          maxlength = def_or (ca_maxlength a) (tlength * 4);
          minreq = (if minreq = 0 then cf * 256 else minreq);
          tlength = (if tlength < minreq then minreq * 2 else tlength)
      in a\<lparr>ca_maxlength := maxlength, ca_tlength := tlength, ca_prebuf := prebuf, ca_minreq := minreq\<rparr>)"

definition ring_frames_for :: "create_args \<Rightarrow> int \<Rightarrow> nat" where
  "ring_frames_for a device_rate =
     (let cf = frame_size_bytes (ca_spec a); rate = ss_rate (ca_spec a);
          client_frames = (if cf \<noteq> 0 then ucast (ca_tlength a div cf) else 0) :: u64;
          dev_frames = (if rate \<noteq> 0 then client_frames * word_of_int device_rate div ucast rate else client_frames)
      in if of_nat kRingFramesDefault < dev_frames + of_nat kRingFramesDefault
         then unat (dev_frames + of_nat kRingFramesDefault) else kRingFramesDefault)"

definition new_stream :: "'d fp \<Rightarrow> create_args \<Rightarrow> int \<Rightarrow> u32 \<Rightarrow> 'd playback_stream" where
  "new_stream fp a device_rate idx =
     (let n = ring_frames_for a device_rate
      in \<lparr>ps_index = idx, ps_channel = idx, ps_spec = ca_spec a, ps_corked = ca_corked a, ps_started = False, ps_draining = False,
          ps_drain_tag = 0, ps_tlength = ca_tlength a, ps_minreq = ca_minreq a, ps_prebuf = ca_prebuf a,
          ps_maxlength = ca_maxlength a, ps_fragsize = 0, ps_requested_bytes = ucast (ca_tlength a), ps_received_bytes = 0,
          ps_ring = replicate (n * kSinkChannels) 0, ps_ring_frames = n, ps_head = 0, ps_tail = 0, ps_fill = 0,
          ps_resample_pos = fp_of_int fp 0, ps_last_l = 0, ps_last_r = 0, ps_frames_played = 0\<rparr>)"

definition accepts_spec :: "'d fp \<Rightarrow> sample_spec \<Rightarrow> bool" where
  "accepts_spec fp spec \<longleftrightarrow>
     (\<exists>lr. decode_client_frame fp (replicate 8 0) spec = Some (Some lr)) \<and> ss_channels spec \<noteq> 0 \<and> ss_rate spec \<noteq> 0
     \<and> ss_rate spec \<le> 192000"

definition register_stream :: "aaudio \<Rightarrow> 'd playback_stream \<Rightarrow> client \<Rightarrow> 'd mixer \<Rightarrow> client \<times> 'd mixer" where
  "register_stream aa st c m =
     (let idx = mx_next_stream m; oid = length (mx_objs m);
          c = c\<lparr>cl_streams := AList.update idx oid (cl_streams c)\<rparr>;
          m = m\<lparr>mx_objs := mx_objs m @ [st], mx_mix := AList.update idx oid (mx_mix m), mx_next_stream := idx + 1\<rparr>;
          m = m\<lparr>mx_active := length (mx_mix m)\<rparr>
      in (c, if mx_aaudio m then m else snd (open_aaudio_locked aa m)))"

definition create_reply :: "u32 \<Rightarrow> u32 \<Rightarrow> create_args \<Rightarrow> byte list" where
  "create_reply tag idx a =
     make_reply tag @ put_u32 idx @ put_u32 idx @ put_u32 (ca_tlength a) @ put_u32 (ca_maxlength a) @ put_u32 (ca_tlength a)
     @ put_u32 (ca_prebuf a) @ put_u32 (ca_minreq a) @ put_sample_spec (ca_spec a) @ put_channel_map_stereo @ put_u32 0
     @ put_text ''alr-android'' @ put_boolean False"

definition handle_create_playback_stream ::
  "'d fp \<Rightarrow> aaudio \<Rightarrow> client \<Rightarrow> u32 \<Rightarrow> byte list option \<Rightarrow> 'd mixer \<Rightarrow> client \<times> 'd mixer" where
  "handle_create_playback_stream fp aa c tag rd m =
     (case Option.bind rd read_create_args of
        None \<Rightarrow> (queue_error c tag PA_ERR_INVALID, m)
      | Some a \<Rightarrow>
          if \<not> accepts_spec fp (ca_spec a) then (queue_error c tag PA_ERR_NOTSUPPORTED, m)
          else
            let a = negotiate a; idx = mx_next_stream m;
                (c, m) = register_stream aa (new_stream fp a (mx_device_rate m) idx) c m;
                c = queue_command c (create_reply tag idx a)
            in (queue_request c idx (ca_tlength a), m))"

definition erase_stream :: "client \<Rightarrow> u32 \<Rightarrow> 'd mixer \<Rightarrow> client \<times> 'd mixer" where
  "erase_stream c i m =
     (let mix = AList.delete i (mx_mix m)
      in (c\<lparr>cl_streams := AList.delete i (cl_streams c)\<rparr>, m\<lparr>mx_mix := mix, mx_active := length mix\<rparr>))"

definition handle_delete_playback_stream :: "client \<Rightarrow> u32 \<Rightarrow> byte list option \<Rightarrow> 'd mixer \<Rightarrow> client \<times> 'd mixer" where
  "handle_delete_playback_stream c tag rd m =
     (let (i, rd) = rd_get get_u32 0 rd; (c, m) = erase_stream c i m in (queue_command c (make_reply tag), m))"

definition modify_stream :: "client \<Rightarrow> u32 \<Rightarrow> ('d playback_stream \<Rightarrow> 'd playback_stream) \<Rightarrow> 'd mixer \<Rightarrow> 'd mixer" where
  "modify_stream c i f m =
     (case map_of (cl_streams c) i of
        None \<Rightarrow> m
      | Some oid \<Rightarrow> m\<lparr>mx_objs := (mx_objs m)[oid := f (mx_objs m ! oid)]\<rparr>)"

definition handle_cork :: "client \<Rightarrow> u32 \<Rightarrow> byte list option \<Rightarrow> 'd mixer \<Rightarrow> client \<times> 'd mixer" where
  "handle_cork c tag rd m =
     (let (i, rd) = rd_get get_u32 0 rd; (cork, rd) = rd_get get_boolean False rd
      in (queue_command c (make_reply tag), modify_stream c i (\<lambda>st. st\<lparr>ps_corked := cork\<rparr>) m))"

definition handle_flush :: "'d fp \<Rightarrow> client \<Rightarrow> u32 \<Rightarrow> byte list option \<Rightarrow> 'd mixer \<Rightarrow> client \<times> 'd mixer" where
  "handle_flush fp c tag rd m =
     (let (i, rd) = rd_get get_u32 0 rd
      in (queue_command c (make_reply tag),
          modify_stream c i (\<lambda>st. st\<lparr>ps_head := 0, ps_tail := 0, ps_fill := 0, ps_resample_pos := fp_of_int fp 0\<rparr>) m))"

definition handle_trigger :: "client \<Rightarrow> u32 \<Rightarrow> byte list option \<Rightarrow> client" where
  "handle_trigger c tag rd = queue_command c (make_reply tag)"

definition handle_drain :: "client \<Rightarrow> u32 \<Rightarrow> byte list option \<Rightarrow> client" where
  "handle_drain c tag rd = queue_command c (make_reply tag)"

definition sink_usec :: "aaudio \<Rightarrow> client \<Rightarrow> u32 \<Rightarrow> 'd mixer \<Rightarrow> u64" where
  "sink_usec aa c i m =
     (case map_of (cl_streams c) i of
        None \<Rightarrow> 0
      | Some oid \<Rightarrow>
          if mx_device_rate m \<le> 0 then 0
          else
            let rate = word_of_int (mx_device_rate m); pending = of_nat (ps_fill (mx_objs m ! oid));
                usec = pending * 1000000 div rate; written = mx_frames_written m
            in case (if mx_aaudio m then aa_position aa else None) of
                 None \<Rightarrow> usec
               | Some fpos \<Rightarrow> if fpos < written then usec + (written - fpos) * 1000000 div rate else usec)"

definition handle_get_playback_latency ::
  "aaudio \<Rightarrow> client \<Rightarrow> u32 \<Rightarrow> byte list option \<Rightarrow> 'd mixer \<Rightarrow> client" where
  "handle_get_playback_latency aa c tag rd m =
     (let (i, rd) = rd_get get_u32 0 rd
      in queue_command c (make_reply tag @ put_usec (sink_usec aa c i m) @ put_usec 0 @ put_boolean True @ put_timeval 0 0
           @ put_timeval 0 0 @ put_s64 0 @ put_s64 0 @ put_u64 0 @ put_u64 0))"

definition handle_empty_reply :: "client \<Rightarrow> u32 \<Rightarrow> client" where
  "handle_empty_reply c tag = queue_command c (make_reply tag)"

definition sink_spec :: sample_spec where
  "sink_spec = \<lparr>ss_format = 3, ss_channels = 2, ss_rate = 48000\<rparr>"

text \<open>The commands that are acknowledged and otherwise ignored.\<close>

definition stubbed_commands :: "u32 list" where
  "stubbed_commands = [27, 28, 26, 23, 24, 35, 37, 46, 74]"

definition dispatch_command ::
  "'d fp \<Rightarrow> aaudio \<Rightarrow> client \<Rightarrow> u32 \<Rightarrow> u32 \<Rightarrow> byte list option \<Rightarrow> 'd mixer \<Rightarrow> client \<times> 'd mixer" where
  "dispatch_command fp aa c command tag rd m =
     (if command = 8 then (handle_auth c tag rd, m)
      else if command = 9 then (handle_set_client_name c tag rd, m)
      else if command = 20 then (handle_get_server_info c tag (mx_device_rate m), m)
      else if command = 21 then (handle_get_sink_info c tag sink_spec (mx_device_rate m) False, m)
      else if command = 22 then (handle_get_sink_info c tag sink_spec (mx_device_rate m) True, m)
      else if command = 29 then (handle_get_sink_input_info c tag False, m)
      else if command = 30 then (handle_get_sink_input_info c tag True, m)
      else if command = 3 then handle_create_playback_stream fp aa c tag rd m
      else if command = 4 then handle_delete_playback_stream c tag rd m
      else if command = 41 then handle_cork c tag rd m
      else if command = 42 then handle_flush fp c tag rd m
      else if command = 43 then (handle_trigger c tag rd, m)
      else if command = 12 then (handle_drain c tag rd, m)
      else if command = 14 then (handle_get_playback_latency aa c tag rd m, m)
      else if command \<in> set stubbed_commands then (handle_empty_reply c tag, m)
      else (queue_error c tag PA_ERR_NOTSUPPORTED, m))"

section \<open>Frames\<close>

definition on_control_frame :: "'d fp \<Rightarrow> aaudio \<Rightarrow> client \<Rightarrow> byte list \<Rightarrow> 'd mixer \<Rightarrow> client \<times> 'd mixer" where
  "on_control_frame fp aa c payload m =
     (case get_u32 payload of
        None \<Rightarrow> (c, m)
      | Some (command, bs) \<Rightarrow>
          (case get_u32 bs of None \<Rightarrow> (c, m) | Some (tag, bs) \<Rightarrow> dispatch_command fp aa c command tag (Some bs) m))"

fun flush_loop :: "send_result list \<Rightarrow> byte list \<Rightarrow> byte list \<Rightarrow> send_result list \<times> byte list \<times> byte list" where
  "flush_loop rs [] sent = (rs, [], sent)"
| "flush_loop [] w sent = ([], w, sent)"
| "flush_loop (Sent n # rs) w sent = (if n = 0 then (rs, [], sent) else flush_loop rs (drop n w) (sent @ take n w))"
| "flush_loop (Send_again # rs) w sent = (rs, w, sent)"
| "flush_loop (Send_failed # rs) w sent = (rs, [], sent)"

definition flush_wbuf :: "client \<Rightarrow> client" where
  "flush_wbuf c =
     (let (rs, w, sent) = flush_loop (cl_sends c) (cl_wbuf c) (cl_sent c)
      in c\<lparr>cl_sends := rs, cl_wbuf := w, cl_sent := sent\<rparr>)"

definition on_data_frame :: "'d fp \<Rightarrow> client \<Rightarrow> u32 \<Rightarrow> byte list \<Rightarrow> 'd mixer \<Rightarrow> (client \<times> 'd mixer) option" where
  "on_data_frame fp c channel payload m =
     (case map_of (cl_streams c) channel of
        None \<Rightarrow> Some (c, m)
      | Some oid \<Rightarrow>
          let st = mx_objs m ! oid; st = st\<lparr>ps_received_bytes := ps_received_bytes st + of_nat (length payload)\<rparr>
          in case push_pcm_to_ring fp st payload (mx_device_rate m) of
               None \<Rightarrow> None
             | Some st' \<Rightarrow>
                 let m = m\<lparr>mx_objs := (mx_objs m)[oid := st'\<lparr>ps_started := True\<rparr>]\<rparr>;
                     c = (if ps_started st' then c else queue_started c channel);
                     c = queue_request c channel (if ps_minreq st' \<noteq> 0 then ps_minreq st' else of_nat (length payload))
                 in Some (flush_wbuf c, m))"

definition hdr_be :: "byte list \<Rightarrow> nat \<Rightarrow> u32" where
  "hdr_be h i = be32 (h ! i) (h ! (i + 1)) (h ! (i + 2)) (h ! (i + 3))"

definition on_frame :: "'d fp \<Rightarrow> aaudio \<Rightarrow> u32 \<Rightarrow> byte list \<Rightarrow> client \<Rightarrow> 'd mixer \<Rightarrow> (client \<times> 'd mixer) option" where
  "on_frame fp aa channel payload c m =
     (if channel = kChannelControl then Some (on_control_frame fp aa c payload m) else on_data_frame fp c channel payload m)"

text \<open>The loop over the complete frames; the flag is false when the client is to be dropped.\<close>

function drain_loop ::
  "'d fp \<Rightarrow> aaudio \<Rightarrow> byte list \<Rightarrow> client \<Rightarrow> 'd mixer \<Rightarrow> (bool \<times> byte list \<times> client \<times> 'd mixer) option" where
  "drain_loop fp aa bs c m =
     (if length bs < 20 then Some (True, bs, c, m)
      else
        let flen = hdr_be bs 0; channel = hdr_be bs 4
        in if kFrameSizeMax < flen then Some (False, bs, c, m)
           else if length bs < 20 + unat flen then Some (True, bs, c, m)
           else
             (case on_frame fp aa channel (take (unat flen) (drop 20 bs)) c m of
                None \<Rightarrow> None
              | Some (c, m) \<Rightarrow> drain_loop fp aa (drop (20 + unat flen) bs) c m))"
  by pat_completeness auto
termination
  by (relation "measure (\<lambda>(fp, aa, bs, c, m). length bs)") auto

declare drain_loop.simps [simp del]

definition drain_frames :: "'d fp \<Rightarrow> aaudio \<Rightarrow> client \<Rightarrow> 'd mixer \<Rightarrow> (bool \<times> client \<times> 'd mixer) option" where
  "drain_frames fp aa c m =
     (case drain_loop fp aa (cl_rbuf c) c m of
        None \<Rightarrow> None
      | Some (ok, rest, c, m) \<Rightarrow> Some (ok, if ok then c\<lparr>cl_rbuf := rest\<rparr> else c, m))"

section \<open>Clients and events\<close>

record 'd server =
  sv_mixer :: "'d mixer"
  sv_clients :: "(int \<times> client) list"
  sv_next_client :: u32
  sv_running :: bool
  sv_stop_requested :: bool
  sv_listen_fd :: int
  sv_epoll_fd :: int
  sv_wakeup_fd :: int
  sv_socket_path :: string
  sv_socket_dir :: string
  sv_joinable :: bool
  sv_closed :: "int list"

definition close_client :: "int \<Rightarrow> 'd server \<Rightarrow> 'd server" where
  "close_client fd s =
     (case map_of (sv_clients s) fd of
        None \<Rightarrow> s
      | Some c \<Rightarrow>
          let mix = fold (\<lambda>kv. AList.delete (fst kv)) (cl_streams c) (mx_mix (sv_mixer s))
          in s\<lparr>sv_mixer := (sv_mixer s)\<lparr>mx_mix := mix, mx_active := length mix\<rparr>,
               sv_closed := fd # sv_closed s, sv_clients := AList.delete fd (sv_clients s)\<rparr>)"

text \<open>A result of \<^verbatim>\<open>accept4\<close>; with a descriptor comes what its sends will answer and whether it can be watched.\<close>

datatype accept_result = Accepted int "send_result list" bool | Accept_again | Accept_interrupted | Accept_failed

definition new_client :: "int \<Rightarrow> u32 \<Rightarrow> send_result list \<Rightarrow> client" where
  "new_client fd i sends = \<lparr>cl_fd = fd, cl_index = i, cl_authed = False, cl_name = [], cl_rbuf = [], cl_wbuf = [], cl_streams = [],
     cl_sends = sends, cl_sent = []\<rparr>"

fun accept_clients :: "accept_result list \<Rightarrow> 'd server \<Rightarrow> 'd server" where
  "accept_clients [] s = s"
| "accept_clients (Accepted fd sends watched # rs) s =
     (let s = s\<lparr>sv_clients := AList.update fd (new_client fd (sv_next_client s) sends) (sv_clients s),
               sv_next_client := sv_next_client s + 1\<rparr>
      in accept_clients rs (if watched then s else close_client fd s))"
| "accept_clients (Accept_interrupted # rs) s = accept_clients rs s"
| "accept_clients (_ # rs) s = s"

datatype recv_result = Received "byte list" | Peer_closed | Recv_again | Recv_interrupted | Recv_failed

text \<open>The reads of a readable client; \<^const>\<open>None\<close> when it is to be dropped.\<close>

fun recv_loop :: "recv_result list \<Rightarrow> byte list \<Rightarrow> byte list option" where
  "recv_loop [] rbuf = Some rbuf"
| "recv_loop (Received bs # rs) rbuf =
     (if bs = [] then None
      else if unat (kFrameSizeMax * 4) < length (rbuf @ bs) then None else recv_loop rs (rbuf @ bs))"
| "recv_loop (Recv_again # rs) rbuf = Some rbuf"
| "recv_loop (Recv_interrupted # rs) rbuf = recv_loop rs rbuf"
| "recv_loop (_ # rs) rbuf = None"

definition put_client :: "int \<Rightarrow> client \<Rightarrow> 'd mixer \<Rightarrow> 'd server \<Rightarrow> 'd server" where
  "put_client fd c m s = s\<lparr>sv_clients := AList.update fd c (sv_clients s), sv_mixer := m\<rparr>"

definition handle_client_readable :: "'d fp \<Rightarrow> aaudio \<Rightarrow> int \<Rightarrow> recv_result list \<Rightarrow> 'd server \<Rightarrow> 'd server option" where
  "handle_client_readable fp aa fd recvs s =
     (case map_of (sv_clients s) fd of
        None \<Rightarrow> Some s
      | Some c \<Rightarrow>
          (case recv_loop recvs (cl_rbuf c) of
             None \<Rightarrow> Some (close_client fd s)
           | Some rbuf \<Rightarrow>
               (case drain_frames fp aa (c\<lparr>cl_rbuf := rbuf\<rparr>) (sv_mixer s) of
                  None \<Rightarrow> None
                | Some (ok, c, m) \<Rightarrow>
                    Some (if ok then put_client fd (flush_wbuf c) m s else close_client fd (put_client fd c m s)))))"

record epoll_ev =
  ev_fd :: int
  ev_hup :: bool
  ev_in :: bool
  ev_accepts :: "accept_result list"
  ev_recvs :: "recv_result list"

definition handle_event :: "'d fp \<Rightarrow> aaudio \<Rightarrow> epoll_ev \<Rightarrow> 'd server \<Rightarrow> 'd server option" where
  "handle_event fp aa ev s =
     (if ev_fd ev = sv_wakeup_fd s then Some s
      else if ev_fd ev = sv_listen_fd s then Some (accept_clients (ev_accepts ev) s)
      else if ev_hup ev then Some (close_client (ev_fd ev) s)
      else if ev_in ev then handle_client_readable fp aa (ev_fd ev) (ev_recvs ev) s
      else Some s)"

fun handle_events :: "'d fp \<Rightarrow> aaudio \<Rightarrow> epoll_ev list \<Rightarrow> 'd server \<Rightarrow> 'd server option" where
  "handle_events fp aa [] s = Some s"
| "handle_events fp aa (ev # evs) s = Option.bind (handle_event fp aa ev s) (handle_events fp aa evs)"

definition flush_clients :: "'d server \<Rightarrow> 'd server" where
  "flush_clients s = s\<lparr>sv_clients := map (\<lambda>(fd, c). (fd, if cl_wbuf c = [] then c else flush_wbuf c)) (sv_clients s)\<rparr>"

datatype wait_result = Ready "epoll_ev list" | Wait_interrupted | Wait_failed

text \<open>One turn of the event loop; the flag says whether the loop goes on.\<close>

definition epoll_turn :: "'d fp \<Rightarrow> aaudio \<Rightarrow> wait_result \<Rightarrow> 'd server \<Rightarrow> (bool \<times> 'd server) option" where
  "epoll_turn fp aa w s =
     (if sv_stop_requested s then Some (False, s\<lparr>sv_running := False\<rparr>)
      else
        (case w of
           Wait_failed \<Rightarrow> Some (False, s\<lparr>sv_running := False\<rparr>)
         | Wait_interrupted \<Rightarrow> Some (True, s)
         | Ready evs \<Rightarrow> map_option (\<lambda>s. (True, flush_clients s)) (handle_events fp aa evs s)))"

section \<open>Start and stop\<close>

text \<open>The kernel's answers to the calls of the start; an \<^verbatim>\<open>errno\<close> on the left.\<close>

record sink_os =
  so_mkdir :: "string \<Rightarrow> int option"
  so_socket :: "int + int"
  so_bind :: "int option"
  so_listen :: "int option"
  so_epoll :: "int + int"
  so_eventfd :: "int + int"
  so_strerror :: "int \<Rightarrow> string"

definition sun_path_size :: nat where "sun_path_size = 108"

definition bind_socket :: "sink_os \<Rightarrow> 'd server \<Rightarrow> (string + unit) \<times> 'd server" where
  "bind_socket os s =
     (case so_socket os of
        Inl e \<Rightarrow> (Inl (''socket(): '' @ so_strerror os e), s)
      | Inr fd \<Rightarrow>
          (case so_bind os of
             Some e \<Rightarrow> (Inl (''bind('' @ sv_socket_path s @ ''): '' @ so_strerror os e), s\<lparr>sv_closed := fd # sv_closed s\<rparr>)
           | None \<Rightarrow>
               (case so_listen os of
                  Some e \<Rightarrow> (Inl (''listen(): '' @ so_strerror os e), s\<lparr>sv_closed := fd # sv_closed s\<rparr>)
                | None \<Rightarrow> (Inr (), s\<lparr>sv_listen_fd := fd\<rparr>))))"

definition bind_path :: "sink_os \<Rightarrow> 'd server \<Rightarrow> (string + unit) \<times> 'd server" where
  "bind_path os s =
     (if sun_path_size \<le> length (sv_socket_path s) then (Inl (''socket path too long: '' @ sv_socket_path s), s)
      else bind_socket os s)"

definition EEXIST_audio :: int where "EEXIST_audio = 17"

definition bind_listen :: "sink_os \<Rightarrow> string \<Rightarrow> 'd server \<Rightarrow> (string + unit) \<times> 'd server" where
  "bind_listen os dir s =
     (let s = s\<lparr>sv_socket_dir := dir @ ''/pulse'', sv_socket_path := dir @ ''/pulse'' @ ''/native''\<rparr>
      in case so_mkdir os (sv_socket_dir s) of
           Some e \<Rightarrow>
             if e \<noteq> EEXIST_audio then (Inl (''mkdir '' @ sv_socket_dir s @ '': '' @ so_strerror os e), s) else bind_path os s
         | None \<Rightarrow> bind_path os s)"

definition alr_audio_sink_status :: "'d server \<Rightarrow> string" where
  "alr_audio_sink_status s =
     ''ALR AUDIO SINK: '' @ (if sv_running s then ''running'' else ''stopped'')
     @ '' streams='' @ dec_nat (mx_active (sv_mixer s)) @ '' rate='' @ dec_int (mx_device_rate (sv_mixer s))
     @ '' clients='' @ dec_nat (length (sv_clients s)) @ '' frames='' @ dec_nat (unat (mx_frames_written (sv_mixer s)))
     @ '' socket='' @ sv_socket_path s"

text \<open>
  A second thread object in place of a joinable one ends the process.  The new thread marks the server as running when it is
  scheduled, which is a step of its own below.
\<close>

definition alr_audio_sink_start :: "sink_os \<Rightarrow> string \<Rightarrow> int \<Rightarrow> 'd server \<Rightarrow> (string \<times> 'd server) option" where
  "alr_audio_sink_start os dir device_rate s =
     (if sv_running s then Some (alr_audio_sink_status s, s)
      else
        let s = s\<lparr>sv_mixer := (sv_mixer s)\<lparr>mx_device_rate := (if device_rate \<le> 0 then 48000 else device_rate)\<rparr>, sv_stop_requested := False\<rparr>
        in case bind_listen os dir s of
             (Inl err, s) \<Rightarrow> Some (''ALR AUDIO SINK: FAIL '' @ err, s)
           | (Inr _, s) \<Rightarrow>
               (case so_epoll os of
                  Inl e \<Rightarrow> Some (''ALR AUDIO SINK: FAIL epoll_create1: '' @ so_strerror os e,
                    s\<lparr>sv_epoll_fd := - 1, sv_closed := sv_listen_fd s # sv_closed s, sv_listen_fd := - 1\<rparr>)
                | Inr ep \<Rightarrow>
                    (case so_eventfd os of
                       Inl e \<Rightarrow> Some (''ALR AUDIO SINK: FAIL eventfd: '' @ so_strerror os e,
                         s\<lparr>sv_wakeup_fd := - 1, sv_closed := sv_listen_fd s # ep # sv_closed s, sv_epoll_fd := - 1, sv_listen_fd := - 1\<rparr>)
                     | Inr wk \<Rightarrow>
                         if sv_joinable s then None
                         else Some (''ALR AUDIO SINK: started socket='' @ sv_socket_path s
                                @ '' rate='' @ dec_int (mx_device_rate (sv_mixer s)),
                              s\<lparr>sv_epoll_fd := ep, sv_wakeup_fd := wk, sv_joinable := True\<rparr>))))"

text \<open>The stop, after it has asked the thread to end and joined it.\<close>

definition close_fd :: "int \<Rightarrow> int list \<Rightarrow> int list" where
  "close_fd fd shut = (if 0 \<le> fd then fd # shut else shut)"

definition alr_audio_sink_stop :: "'d server \<Rightarrow> string \<times> 'd server" where
  "alr_audio_sink_stop s =
     (if \<not> sv_running s \<and> \<not> sv_joinable s then (''ALR AUDIO SINK: stopped (was not running)'', s)
      else
        (''ALR AUDIO SINK: stopped'',
         s\<lparr>sv_stop_requested := True, sv_running := False, sv_joinable := False,
           sv_mixer := (close_aaudio_locked (sv_mixer s))\<lparr>mx_mix := [], mx_active := 0\<rparr>,
           sv_closed := close_fd (sv_listen_fd s) (close_fd (sv_wakeup_fd s) (close_fd (sv_epoll_fd s)
             (rev (map fst (sv_clients s)) @ sv_closed s))),
           sv_clients := [], sv_epoll_fd := - 1, sv_wakeup_fd := - 1, sv_listen_fd := - 1\<rparr>))"

section \<open>Invariant\<close>

text \<open>What the server relies on of its floating point and of the audio device.\<close>

definition fp_ok :: "'d fp \<Rightarrow> bool" where
  "fp_ok fp \<longleftrightarrow> fp_truncates fp \<and> (\<forall>rate dr. rate \<noteq> 0 \<longrightarrow> 0 < dr \<longrightarrow> fp_advances fp (resample_step fp rate dr))"

definition aa_ok :: "aaudio \<Rightarrow> bool" where
  "aa_ok aa \<longleftrightarrow> (\<forall>r r'. aa_open aa r = Some r' \<longrightarrow> 0 < r')"

definition good_stream :: "'d fp \<Rightarrow> 'd playback_stream \<Rightarrow> bool" where
  "good_stream fp st \<longleftrightarrow> stream_ok fp st \<and> ss_rate (ps_spec st) \<noteq> 0"

definition refs_ok :: "'d mixer \<Rightarrow> (u32 \<times> nat) list \<Rightarrow> bool" where
  "refs_ok m es \<longleftrightarrow> distinct (map fst es) \<and> (\<forall>e \<in> set es. snd e < length (mx_objs m))"

definition mixer_ok :: "'d fp \<Rightarrow> 'd mixer \<Rightarrow> bool" where
  "mixer_ok fp m \<longleftrightarrow> list_all (good_stream fp) (mx_objs m) \<and> refs_ok m (mx_mix m) \<and> distinct (map snd (mx_mix m))
     \<and> mx_active m = length (mx_mix m) \<and> 0 < mx_device_rate m"

lemma mixer_okD:
  assumes "mixer_ok fp m" and "refs_ok m es" and "map_of es i = Some oid"
  shows "oid < length (mx_objs m)" and "good_stream fp (mx_objs m ! oid)"
proof -
  from assms(2,3) show "oid < length (mx_objs m)" by (auto simp: refs_ok_def dest: map_of_SomeD)
  with assms(1) show "good_stream fp (mx_objs m ! oid)" by (auto simp: mixer_ok_def list_all_length)
qed

lemma set_AList_update: "distinct (map fst al) \<Longrightarrow> set (AList.update k v al) = insert (k, v) {e \<in> set al. fst e \<noteq> k}"
  by (induction al) (auto simp: image_iff)

lemma set_AList_delete: "set (AList.delete k al) = {e \<in> set al. fst e \<noteq> k}"
  by (auto simp: AList.delete_eq)

lemma distinct_snd_update:
  "distinct (map snd al) \<Longrightarrow> v \<notin> snd ` set al \<Longrightarrow> distinct (map snd (AList.update k v al))"
proof (induction al)
  case (Cons e al)
  have "snd ` set (AList.update k v al) \<subseteq> insert v (snd ` set al)" by (induction al) auto
  with Cons show ?case by (cases e) (auto simp: subset_iff)
qed simp

lemma distinct_snd_delete: "distinct (map snd al) \<Longrightarrow> distinct (map snd (AList.delete k al))"
  by (simp add: AList.delete_eq distinct_map_filter)

lemma refs_ok_update:
  "refs_ok m es \<Longrightarrow> length (mx_objs m) \<le> length (mx_objs m') \<Longrightarrow> oid < length (mx_objs m') \<Longrightarrow> refs_ok m' (AList.update i oid es)"
  by (fastforce simp: refs_ok_def distinct_update set_AList_update)

lemma refs_ok_delete: "refs_ok m es \<Longrightarrow> refs_ok m (AList.delete i es)"
  by (simp add: refs_ok_def distinct_delete set_AList_delete)

lemma refs_ok_mono: "refs_ok m es \<Longrightarrow> length (mx_objs m) \<le> length (mx_objs m') \<Longrightarrow> refs_ok m' es"
  by (fastforce simp: refs_ok_def)

text \<open>
  A client together with the mixer.  Between two frames of one client the others do not change, so the relation says what a
  handler may do to them: no stream object disappears, and what the mixer newly plays belongs to this client.
\<close>

definition handled :: "'d fp \<Rightarrow> client \<Rightarrow> 'd mixer \<Rightarrow> client \<Rightarrow> 'd mixer \<Rightarrow> bool" where
  "handled fp c m c' m' \<longleftrightarrow> mixer_ok fp m' \<and> refs_ok m' (cl_streams c') \<and> length (mx_objs m) \<le> length (mx_objs m')
     \<and> set (mx_mix m') \<subseteq> set (mx_mix m) \<union> set (cl_streams c')
     \<and> (\<forall>e \<in> set (cl_streams c). e \<in> set (mx_mix m') \<longrightarrow> e \<in> set (cl_streams c')) \<and> cl_fd c' = cl_fd c"

lemma handled_refl: "mixer_ok fp m \<Longrightarrow> refs_ok m (cl_streams c) \<Longrightarrow> handled fp c m c m"
  by (simp add: handled_def)

lemma handled_trans: "handled fp c m c1 m1 \<Longrightarrow> handled fp c1 m1 c2 m2 \<Longrightarrow> handled fp c m c2 m2"
  by (fastforce simp: handled_def)

lemma queue_fields [simp]:
  "cl_streams (queue_command c tw) = cl_streams c" "cl_fd (queue_command c tw) = cl_fd c"
  "cl_rbuf (queue_command c tw) = cl_rbuf c"
  by (simp_all add: queue_command_def queue_frame_def)

lemma queue_message_fields [simp]:
  "cl_streams (queue_error c tag e) = cl_streams c" "cl_fd (queue_error c tag e) = cl_fd c" "cl_rbuf (queue_error c tag e) = cl_rbuf c"
  "cl_streams (queue_request c i n) = cl_streams c" "cl_fd (queue_request c i n) = cl_fd c" "cl_rbuf (queue_request c i n) = cl_rbuf c"
  "cl_streams (queue_started c i) = cl_streams c" "cl_fd (queue_started c i) = cl_fd c" "cl_rbuf (queue_started c i) = cl_rbuf c"
  by (simp_all add: queue_error_def queue_request_def queue_started_def)

lemma flush_wbuf_fields [simp]:
  "cl_streams (flush_wbuf c) = cl_streams c" "cl_fd (flush_wbuf c) = cl_fd c" "cl_rbuf (flush_wbuf c) = cl_rbuf c"
  by (simp_all add: flush_wbuf_def split: prod.splits)

lemma handled_cong: "cl_streams c' = cl_streams c1 \<Longrightarrow> cl_fd c' = cl_fd c1 \<Longrightarrow> handled fp c m c1 m1 \<Longrightarrow> handled fp c m c' m1"
  by (simp add: handled_def)

lemma mixer_ok_objs:
  assumes "mixer_ok fp m" and "good_stream fp st"
  shows "mixer_ok fp (m\<lparr>mx_objs := (mx_objs m)[oid := st]\<rparr>)"
  using assms by (auto simp: mixer_ok_def refs_ok_def list_all_iff dest!: set_update_subset_insert [THEN subsetD])

lemma modify_handled:
  assumes "mixer_ok fp m" and "refs_ok m (cl_streams c)" and "\<And>st. good_stream fp st \<Longrightarrow> good_stream fp (f st)"
  shows "handled fp c m c (modify_stream c i f m)"
proof (cases "map_of (cl_streams c) i")
  case None
  then show ?thesis using assms by (simp add: modify_stream_def handled_refl)
next
  case (Some oid)
  have "good_stream fp (f (mx_objs m ! oid))" using mixer_okD [OF assms(1,2) Some] assms(3) by blast
  then have "mixer_ok fp (m\<lparr>mx_objs := (mx_objs m)[oid := f (mx_objs m ! oid)]\<rparr>)" using assms(1) by (rule mixer_ok_objs [rotated])
  then show ?thesis using Some assms(2) by (simp add: modify_stream_def handled_def refs_ok_def)
qed

lemma flush_stream_ok:
  assumes "good_stream fp st" and "fp_truncates fp"
  shows "good_stream fp (st\<lparr>ps_head := 0, ps_tail := 0, ps_fill := 0, ps_resample_pos := fp_of_int fp 0\<rparr>)"
  using assms by (auto simp: good_stream_def stream_ok_def ring_ok_def fp_truncates_def)

lemma cork_stream_ok: "good_stream fp st \<Longrightarrow> good_stream fp (st\<lparr>ps_corked := b\<rparr>)"
  by (simp add: good_stream_def stream_ok_def ring_ok_def)

lemma erase_handled:
  "mixer_ok fp m \<Longrightarrow> refs_ok m (cl_streams c) \<Longrightarrow> erase_stream c i m = (c', m') \<Longrightarrow> handled fp c m c' m'"
  by (clarsimp simp: erase_stream_def Let_def handled_def mixer_ok_def refs_ok_def set_AList_delete distinct_snd_delete distinct_delete)

lemma ring_frames_pos: "0 < ring_frames_for a dr"
  by (auto simp: ring_frames_for_def Let_def kRingFramesDefault_def word_less_nat_alt)

lemma new_stream_ok:
  assumes "accepts_spec fp (ca_spec a)" and "fp_truncates fp"
  shows "good_stream fp (new_stream fp a dr idx)"
proof -
  have "supported_format (ss_format (ca_spec a))" "ss_rate (ca_spec a) \<noteq> 0"
    using assms(1) by (auto simp: accepts_spec_def decode_client_frame_def split: if_splits)
  with assms(2) show ?thesis
    by (simp add: good_stream_def stream_ok_def new_stream_def ring_ok_def Let_def ring_frames_pos fp_truncates_def)
qed

lemma open_aaudio_handled:
  assumes "mixer_ok fp m" and "aa_ok aa"
  shows "mixer_ok fp (snd (open_aaudio_locked aa m))"
    and "mx_objs (snd (open_aaudio_locked aa m)) = mx_objs m" "mx_mix (snd (open_aaudio_locked aa m)) = mx_mix m"
  using assms by (auto simp: open_aaudio_locked_def aa_ok_def mixer_ok_def refs_ok_def Let_def split: option.splits)

lemma register_handled:
  assumes "mixer_ok fp m" and "refs_ok m (cl_streams c)" and "good_stream fp st" and "aa_ok aa" and "register_stream aa st c m = (c', m')"
  shows "handled fp c m c' m'"
proof -
  let ?idx = "mx_next_stream m" and ?oid = "length (mx_objs m)"
  define m1 where "m1 = m\<lparr>mx_objs := mx_objs m @ [st], mx_mix := AList.update ?idx ?oid (mx_mix m), mx_next_stream := ?idx + 1,
    mx_active := length (AList.update ?idx ?oid (mx_mix m))\<rparr>"
  have mix: "refs_ok m (mx_mix m)" "distinct (map snd (mx_mix m))" using assms(1) by (simp_all add: mixer_ok_def)
  have "?oid \<notin> snd ` set (mx_mix m)" using mix(1) by (auto simp: refs_ok_def)
  then have "distinct (map snd (AList.update ?idx ?oid (mx_mix m)))" using mix(2) by (rule distinct_snd_update [rotated])
  moreover have "refs_ok m1 (AList.update ?idx ?oid (mx_mix m))" using mix(1) by (rule refs_ok_update) (simp_all add: m1_def)
  ultimately have ok: "mixer_ok fp m1" using assms(1,3) by (simp add: mixer_ok_def m1_def)
  have m': "m' = (if mx_aaudio m1 then m1 else snd (open_aaudio_locked aa m1))"
    and c': "c' = c\<lparr>cl_streams := AList.update ?idx ?oid (cl_streams c)\<rparr>"
    using assms(5) unfolding register_stream_def Let_def m1_def by auto
  have same: "mixer_ok fp m'" "mx_objs m' = mx_objs m1" "mx_mix m' = mx_mix m1"
    using ok open_aaudio_handled [OF ok assms(4)] by (simp_all add: m')
  have "refs_ok m' (cl_streams c')" unfolding c' using assms(2) same(2) by (simp add: refs_ok_update m1_def)
  moreover have "set (AList.update ?idx ?oid (mx_mix m)) = insert (?idx, ?oid) {e \<in> set (mx_mix m). fst e \<noteq> ?idx}"
    "set (AList.update ?idx ?oid (cl_streams c)) = insert (?idx, ?oid) {e \<in> set (cl_streams c). fst e \<noteq> ?idx}"
    using mix(1) assms(2) by (simp_all add: refs_ok_def set_AList_update)
  ultimately show ?thesis using same by (auto simp: handled_def c' m1_def)
qed

text \<open>Every command keeps the mixer and the client's table in order.\<close>

lemma create_handled:
  assumes "mixer_ok fp m" and "refs_ok m (cl_streams c)" and "fp_ok fp" and "aa_ok aa"
    and "handle_create_playback_stream fp aa c tag rd m = (c', m')"
  shows "handled fp c m c' m'"
proof (cases "Option.bind rd read_create_args")
  case None
  with assms show ?thesis
    by (auto simp: handle_create_playback_stream_def intro!: handled_cong [OF _ _ handled_refl])
next
  case (Some a)
  show ?thesis
  proof (cases "accepts_spec fp (ca_spec a)")
    case False
    with Some assms show ?thesis
      by (auto simp: handle_create_playback_stream_def intro!: handled_cong [OF _ _ handled_refl])
  next
    case True
    obtain c1 m1 where r: "register_stream aa (new_stream fp (negotiate a) (mx_device_rate m) (mx_next_stream m)) c m = (c1, m1)"
      by fastforce
    have "ca_spec (negotiate a) = ca_spec a" by (simp add: negotiate_def Let_def)
    with True assms(3) have "good_stream fp (new_stream fp (negotiate a) (mx_device_rate m) (mx_next_stream m))"
      by (simp add: new_stream_ok fp_ok_def)
    from register_handled [OF assms(1,2) this assms(4) r] have "handled fp c m c1 m1" .
    moreover have "cl_streams c' = cl_streams c1" "cl_fd c' = cl_fd c1" "m' = m1"
      using assms(5) Some True r by (auto simp: handle_create_playback_stream_def Let_def)
    ultimately show ?thesis using handled_cong by blast
  qed
qed

lemma dispatch_handled:
  assumes "mixer_ok fp m" and "refs_ok m (cl_streams c)" and "fp_ok fp" and "aa_ok aa"
    and d: "dispatch_command fp aa c command tag rd m = (c', m')"
  shows "handled fp c m c' m'"
proof -
  note keep = handled_cong [OF _ _ handled_refl [OF assms(1,2)]]
  have tr: "fp_truncates fp" using assms(3) by (simp add: fp_ok_def)
  have reply: "handled fp c m c1 m" if "cl_streams c1 = cl_streams c" "cl_fd c1 = cl_fd c" for c1
    using keep that by blast
  consider (create) "command = 3" | (delete) "command = 4" | (cork) "command = 41" | (flush) "command = 42"
    | (other) "command \<notin> {3, 4, 41, 42}" by blast
  then show ?thesis
  proof cases
    case create
    then show ?thesis using create_handled [OF assms(1-4), of tag rd c' m'] d by (simp add: dispatch_command_def)
  next
    case delete
    obtain i rd' where i: "rd_get get_u32 0 rd = (i, rd')" by fastforce
    obtain c1 m1 where e: "erase_stream c i m = (c1, m1)" by fastforce
    show ?thesis using delete d i e handled_cong [OF _ _ erase_handled [OF assms(1,2) e]]
      by (auto simp: dispatch_command_def handle_delete_playback_stream_def)
  next
    case cork
    then show ?thesis
      using d handled_cong [OF _ _ modify_handled [OF assms(1,2) cork_stream_ok]]
      by (auto simp: dispatch_command_def handle_cork_def split: prod.splits)
  next
    case flush
    then show ?thesis
      using d handled_cong [OF _ _ modify_handled [OF assms(1,2) flush_stream_ok [OF _ tr]]]
      by (auto simp: dispatch_command_def handle_flush_def split: prod.splits)
  next
    case other
    then have "m' = m \<and> cl_streams c' = cl_streams c \<and> cl_fd c' = cl_fd c"
      using d by (auto simp: dispatch_command_def handle_auth_def handle_set_client_name_def handle_get_server_info_def
          handle_get_sink_info_def handle_get_sink_input_info_def handle_trigger_def handle_drain_def
          handle_get_playback_latency_def handle_empty_reply_def split: if_splits prod.splits)
    then show ?thesis using reply by blast
  qed
qed

lemma control_handled:
  assumes "mixer_ok fp m" and "refs_ok m (cl_streams c)" and "fp_ok fp" and "aa_ok aa"
    and "on_control_frame fp aa c payload m = (c', m')"
  shows "handled fp c m c' m'"
  using assms dispatch_handled [OF assms(1-4)]
  by (auto simp: on_control_frame_def handled_refl split: option.splits prod.splits)

lemma received_stream_ok: "good_stream fp (st\<lparr>ps_received_bytes := n\<rparr>) = good_stream fp st"
  by (simp add: good_stream_def stream_ok_def ring_ok_def)

lemma data_handled:
  assumes "mixer_ok fp m" and "refs_ok m (cl_streams c)" and "fp_ok fp" and "length payload \<le> unat kFrameSizeMax"
  shows "\<exists>c' m'. on_data_frame fp c channel payload m = Some (c', m') \<and> handled fp c m c' m'"
proof (cases "map_of (cl_streams c) channel")
  case None
  then show ?thesis using assms by (simp add: on_data_frame_def handled_refl)
next
  case (Some oid)
  let ?st = "(mx_objs m ! oid)\<lparr>ps_received_bytes := ps_received_bytes (mx_objs m ! oid) + of_nat (length payload)\<rparr>"
  have good: "good_stream fp ?st" using mixer_okD [OF assms(1,2) Some] by (simp add: received_stream_ok)
  then have "stream_ok fp ?st" "ss_rate (ps_spec ?st) \<noteq> 0" by (simp_all add: good_stream_def)
  moreover have "fp_advances fp (resample_step fp (ss_rate (ps_spec ?st)) (mx_device_rate m))"
    using assms(1,3) calculation(2) by (simp add: fp_ok_def mixer_ok_def)
  moreover have "fp_truncates fp" using assms(3) by (simp add: fp_ok_def)
  ultimately obtain st' xs where st': "push_pcm_to_ring fp ?st payload (mx_device_rate m) = Some st'" "stream_ok fp st'" "pushed xs ?st st'"
    using push_pcm_pushed [of fp ?st "mx_device_rate m" payload] assms(4) by blast
  have "good_stream fp (st'\<lparr>ps_started := True\<rparr>)"
    using st'(2,3) good by (simp add: good_stream_def stream_ok_def ring_ok_def pushed_def same_stream_def)
  then have "mixer_ok fp (m\<lparr>mx_objs := (mx_objs m)[oid := st'\<lparr>ps_started := True\<rparr>]\<rparr>)" using assms(1) by (rule mixer_ok_objs [rotated])
  then show ?thesis using Some st'(1) assms(2) by (auto simp: on_data_frame_def Let_def handled_def refs_ok_def)
qed

lemma frame_handled:
  assumes "mixer_ok fp m" and "refs_ok m (cl_streams c)" and "fp_ok fp" and "aa_ok aa" and "length payload \<le> unat kFrameSizeMax"
  shows "\<exists>c' m'. on_frame fp aa channel payload c m = Some (c', m') \<and> handled fp c m c' m'"
  using data_handled [OF assms(1-3,5)] control_handled [OF assms(1-4), of payload]
  by (cases "on_control_frame fp aa c payload m") (auto simp: on_frame_def)

lemma drain_loop_handled:
  assumes "mixer_ok fp m" and "refs_ok m (cl_streams c)" and "fp_ok fp" and "aa_ok aa"
  shows "\<exists>ok rest c' m'. drain_loop fp aa bs c m = Some (ok, rest, c', m') \<and> handled fp c m c' m'"
  using assms
proof (induction fp aa bs c m rule: drain_loop.induct)
  case (1 fp aa bs c m)
  let ?flen = "hdr_be bs 0" and ?channel = "hdr_be bs 4"
  show ?case
  proof (cases "length bs < 20 \<or> kFrameSizeMax < ?flen \<or> length bs < 20 + unat ?flen")
    case True
    then show ?thesis using "1.prems" handled_refl by (subst drain_loop.simps) (auto simp: Let_def)
  next
    case False
    then have len: "length (take (unat ?flen) (drop 20 bs)) \<le> unat kFrameSizeMax" by (auto simp: word_le_nat_alt not_less)
    from frame_handled [OF "1.prems" this, of ?channel] obtain c1 m1 where
      f: "on_frame fp aa ?channel (take (unat ?flen) (drop 20 bs)) c m = Some (c1, m1)" "handled fp c m c1 m1" by blast
    then have "mixer_ok fp m1" "refs_ok m1 (cl_streams c1)" by (simp_all add: handled_def)
    with "1.IH" [OF _ refl refl _ _ f(1) refl] False "1.prems" obtain ok rest c' m' where
      "drain_loop fp aa (drop (20 + unat ?flen) bs) c1 m1 = Some (ok, rest, c', m')" "handled fp c1 m1 c' m'" by blast
    then show ?thesis using False f handled_trans by (subst drain_loop.simps) (auto simp: Let_def)
  qed
qed

lemma drain_handled:
  assumes "mixer_ok fp m" and "refs_ok m (cl_streams c)" and "fp_ok fp" and "aa_ok aa"
  shows "\<exists>ok c' m'. drain_frames fp aa c m = Some (ok, c', m') \<and> handled fp c m c' m'"
  using drain_loop_handled [OF assms, of "cl_rbuf c"] by (auto simp: drain_frames_def handled_def)

section \<open>Reassembly\<close>

text \<open>No handler looks at the bytes that wait for their frame to be complete.\<close>

lemma queue_command_rbuf: "queue_command (c\<lparr>cl_rbuf := x\<rparr>) tw = (queue_command c tw)\<lparr>cl_rbuf := x\<rparr>"
  by (simp add: queue_command_def queue_frame_def)

lemma flush_wbuf_rbuf: "flush_wbuf (c\<lparr>cl_rbuf := x\<rparr>) = (flush_wbuf c)\<lparr>cl_rbuf := x\<rparr>"
  by (simp add: flush_wbuf_def split: prod.splits)

lemmas rbuf_simps = queue_command_rbuf flush_wbuf_rbuf queue_error_def queue_request_def queue_started_def

lemma create_rbuf:
  "handle_create_playback_stream fp aa (c\<lparr>cl_rbuf := x\<rparr>) tag rd m =
     (let (c', m') = handle_create_playback_stream fp aa c tag rd m in (c'\<lparr>cl_rbuf := x\<rparr>, m'))"
proof -
  have "register_stream aa st (c\<lparr>cl_rbuf := x\<rparr>) m = (let (c', m') = register_stream aa st c m in (c'\<lparr>cl_rbuf := x\<rparr>, m'))" for st
    by (simp add: register_stream_def Let_def)
  then show ?thesis
    by (auto simp: handle_create_playback_stream_def rbuf_simps Let_def split: option.splits prod.splits)
qed

lemma handler_rbuf:
  "handle_auth (c\<lparr>cl_rbuf := x\<rparr>) tag rd = (handle_auth c tag rd)\<lparr>cl_rbuf := x\<rparr>"
  "handle_set_client_name (c\<lparr>cl_rbuf := x\<rparr>) tag rd = (handle_set_client_name c tag rd)\<lparr>cl_rbuf := x\<rparr>"
  "handle_get_server_info (c\<lparr>cl_rbuf := x\<rparr>) tag rate = (handle_get_server_info c tag rate)\<lparr>cl_rbuf := x\<rparr>"
  "handle_get_sink_info (c\<lparr>cl_rbuf := x\<rparr>) tag spec rate l = (handle_get_sink_info c tag spec rate l)\<lparr>cl_rbuf := x\<rparr>"
  "handle_get_sink_input_info (c\<lparr>cl_rbuf := x\<rparr>) tag l = (handle_get_sink_input_info c tag l)\<lparr>cl_rbuf := x\<rparr>"
  "handle_trigger (c\<lparr>cl_rbuf := x\<rparr>) tag rd = (handle_trigger c tag rd)\<lparr>cl_rbuf := x\<rparr>"
  "handle_drain (c\<lparr>cl_rbuf := x\<rparr>) tag rd = (handle_drain c tag rd)\<lparr>cl_rbuf := x\<rparr>"
  "handle_get_playback_latency aa (c\<lparr>cl_rbuf := x\<rparr>) tag rd m = (handle_get_playback_latency aa c tag rd m)\<lparr>cl_rbuf := x\<rparr>"
  "handle_empty_reply (c\<lparr>cl_rbuf := x\<rparr>) tag = (handle_empty_reply c tag)\<lparr>cl_rbuf := x\<rparr>"
  "queue_error (c\<lparr>cl_rbuf := x\<rparr>) tag e = (queue_error c tag e)\<lparr>cl_rbuf := x\<rparr>"
  by (simp_all add: handle_auth_def handle_set_client_name_def handle_get_server_info_def handle_get_sink_info_def
      handle_get_sink_input_info_def handle_trigger_def handle_drain_def handle_get_playback_latency_def handle_empty_reply_def
      sink_usec_def rbuf_simps Let_def split: prod.splits)
     (simp add: queue_command_def queue_frame_def)

lemma dispatch_rbuf:
  "dispatch_command fp aa (c\<lparr>cl_rbuf := x\<rparr>) command tag rd m =
     (let (c', m') = dispatch_command fp aa c command tag rd m in (c'\<lparr>cl_rbuf := x\<rparr>, m'))"
proof -
  have "handle_delete_playback_stream (c\<lparr>cl_rbuf := x\<rparr>) tag rd m =
      (let (c', m') = handle_delete_playback_stream c tag rd m in (c'\<lparr>cl_rbuf := x\<rparr>, m'))"
    "handle_cork (c\<lparr>cl_rbuf := x\<rparr>) tag rd m = (let (c', m') = handle_cork c tag rd m in (c'\<lparr>cl_rbuf := x\<rparr>, m'))"
    "handle_flush fp (c\<lparr>cl_rbuf := x\<rparr>) tag rd m = (let (c', m') = handle_flush fp c tag rd m in (c'\<lparr>cl_rbuf := x\<rparr>, m'))"
    by (simp_all add: handle_delete_playback_stream_def handle_cork_def handle_flush_def modify_stream_def erase_stream_def
        queue_command_def queue_frame_def Let_def split: prod.splits)
  then show ?thesis
    by (simp add: dispatch_command_def create_rbuf handler_rbuf Let_def)
qed

lemma on_frame_rbuf:
  "on_frame fp aa channel p (c\<lparr>cl_rbuf := x\<rparr>) m = map_option (\<lambda>(c', m'). (c'\<lparr>cl_rbuf := x\<rparr>, m')) (on_frame fp aa channel p c m)"
proof -
  have "on_control_frame fp aa (c\<lparr>cl_rbuf := x\<rparr>) p m = (let (c', m') = on_control_frame fp aa c p m in (c'\<lparr>cl_rbuf := x\<rparr>, m'))"
    by (simp add: on_control_frame_def dispatch_rbuf split: option.splits prod.splits)
  moreover have "on_data_frame fp (c\<lparr>cl_rbuf := x\<rparr>) channel p m = map_option (\<lambda>(c', m'). (c'\<lparr>cl_rbuf := x\<rparr>, m')) (on_data_frame fp c channel p m)"
    by (simp add: on_data_frame_def rbuf_simps Let_def split: option.splits)
  ultimately show ?thesis by (simp add: on_frame_def split: prod.splits)
qed

lemma drain_loop_rbuf:
  "drain_loop fp aa bs (c\<lparr>cl_rbuf := x\<rparr>) m =
     map_option (\<lambda>(ok, rest, c', m'). (ok, rest, c'\<lparr>cl_rbuf := x\<rparr>, m')) (drain_loop fp aa bs c m)"
proof (induction fp aa bs c m rule: drain_loop.induct)
  case (1 fp aa bs c m)
  let ?p = "take (unat (hdr_be bs 0)) (drop 20 bs)"
  show ?case
  proof (cases "length bs < 20 \<or> kFrameSizeMax < hdr_be bs 0 \<or> length bs < 20 + unat (hdr_be bs 0)")
    case True
    then show ?thesis by (subst (1 2) drain_loop.simps) (auto simp: Let_def)
  next
    case False
    then show ?thesis
    proof (cases "on_frame fp aa (hdr_be bs 4) ?p c m")
      case None
      with False show ?thesis by (subst (1 2) drain_loop.simps) (simp add: Let_def on_frame_rbuf)
    next
      case (Some cm)
      obtain c1 m1 where cm: "cm = (c1, m1)" by fastforce
      with "1.IH" [OF _ refl refl _ _ Some] False
      have "drain_loop fp aa (drop (20 + unat (hdr_be bs 0)) bs) (c1\<lparr>cl_rbuf := x\<rparr>) m1 =
        map_option (\<lambda>(ok, rest, c', m'). (ok, rest, c'\<lparr>cl_rbuf := x\<rparr>, m')) (drain_loop fp aa (drop (20 + unat (hdr_be bs 0)) bs) c1 m1)"
        by simp
      with False Some cm show ?thesis by (subst (1 2) drain_loop.simps) (simp add: Let_def on_frame_rbuf)
    qed
  qed
qed

lemma hdr_be_append: "i + 3 < length bs \<Longrightarrow> hdr_be (bs @ ys) i = hdr_be bs i"
  by (simp add: hdr_be_def nth_append)

text \<open>Going over a longer buffer is going over its beginning first and over the rest with what is left of it.\<close>

lemma drain_loop_append:
  "drain_loop fp aa (bs @ ys) c m =
     (case drain_loop fp aa bs c m of
        None \<Rightarrow> None
      | Some (ok, rest, c', m') \<Rightarrow> if ok then drain_loop fp aa (rest @ ys) c' m' else Some (False, rest @ ys, c', m'))"
proof (induction fp aa bs c m rule: drain_loop.induct)
  case (1 fp aa bs c m)
  let ?n = "unat (hdr_be bs 0)"
  show ?case
  proof (cases "length bs < 20 \<or> (\<not> kFrameSizeMax < hdr_be bs 0 \<and> length bs < 20 + ?n)")
    case True
    then have "drain_loop fp aa bs c m = Some (True, bs, c, m)" by (subst drain_loop.simps) (auto simp: Let_def)
    then show ?thesis by simp
  next
    case False
    then have len: "20 \<le> length bs" by simp
    have hdr: "hdr_be (bs @ ys) 0 = hdr_be bs 0" "hdr_be (bs @ ys) 4 = hdr_be bs 4" using len by (simp_all add: hdr_be_append)
    show ?thesis
    proof (cases "kFrameSizeMax < hdr_be bs 0")
      case True
      then show ?thesis using len hdr by (subst (1 2) drain_loop.simps) (simp add: Let_def)
    next
      case ok: False
      with False have n: "20 + ?n \<le> length bs" by simp
      then have p: "take ?n (drop 20 (bs @ ys)) = take ?n (drop 20 bs)" "drop (20 + ?n) (bs @ ys) = drop (20 + ?n) bs @ ys" by simp_all
      show ?thesis
      proof (cases "on_frame fp aa (hdr_be bs 4) (take ?n (drop 20 bs)) c m")
        case None
        then show ?thesis using len hdr ok n p by (subst (1 2) drain_loop.simps) (simp add: Let_def)
      next
        case (Some cm)
        obtain c1 m1 where cm: "cm = (c1, m1)" by fastforce
        have step: "drain_loop fp aa bs c m = drain_loop fp aa (drop (20 + ?n) bs) c1 m1"
          using len ok n Some cm by (subst drain_loop.simps) (simp add: Let_def)
        have "drain_loop fp aa (bs @ ys) c m = drain_loop fp aa (drop (20 + ?n) bs @ ys) c1 m1"
          using len hdr ok n p Some cm by (subst drain_loop.simps) (simp add: Let_def)
        then show ?thesis using "1.IH" [OF _ refl refl _ _ Some cm [symmetric]] len ok n by (simp add: step)
      qed
    qed
  qed
qed

text \<open>What is observable of a drain: the bytes left over matter only for a client that stays.\<close>

definition drain_outcome :: "(bool \<times> client \<times> 'd mixer) option \<Rightarrow> (bool \<times> client \<times> 'd mixer) option" where
  "drain_outcome r = map_option (\<lambda>(ok, c, m). (ok, if ok then c else c\<lparr>cl_rbuf := []\<rparr>, m)) r"


section \<open>The mix\<close>

lemma sint_scast_16: "sint (scast (s :: s16) :: s32) = sint s"
  by (rule sint_up_scast) (simp add: is_up)

lemma sint_16_range: "- 32768 \<le> sint (s :: s16)" "sint (s :: s16) \<le> 32767"
  using sint_greater_eq [of s] sint_less [of s] by simp_all

lemma sint_add_32: "- (2 ^ 31) \<le> sint a + sint b \<Longrightarrow> sint a + sint b < 2 ^ 31 \<Longrightarrow> sint (a + b) = sint a + sint b" for a b :: s32
  by (simp add: sint_word_ariths signed_take_bit_int_eq_self)

lemma sint_sum_samples:
  assumes "length ss \<le> 65535"
  shows "sint (sum_list (map scast ss) :: s32) = sum_list (map sint (ss :: s16 list)) \<and> \<bar>sum_list (map sint ss)\<bar> \<le> 32768 * int (length ss)"
  using assms
proof (induction ss)
  case (Cons s ss)
  then have IH: "sint (sum_list (map scast ss) :: s32) = sum_list (map sint ss)" "\<bar>sum_list (map sint ss)\<bar> \<le> 32768 * int (length ss)" by simp_all
  have "\<bar>sint s\<bar> \<le> 32768" using sint_16_range [of s] by linarith
  with IH(2) have b: "\<bar>sint s + sum_list (map sint ss)\<bar> \<le> 32768 * int (length (s # ss))" by simp
  also have "\<dots> \<le> 32768 * 65535" using Cons.prems by simp
  finally have "sint ((scast s :: s32) + sum_list (map scast ss)) = sint s + sum_list (map sint ss)"
    using sint_add_32 [of "scast s" "sum_list (map scast ss)"] by (simp add: IH(1) sint_scast_16)
  with b show ?case by simp
qed simp

text \<open>The loop over the streams of the mixer adds every stream's contribution and takes its frames off its queue.\<close>

definition mixed ::
  "nat \<Rightarrow> (u32 \<times> nat) list \<Rightarrow> s32 list \<Rightarrow> 'd playback_stream list \<Rightarrow> s32 list \<Rightarrow> 'd playback_stream list \<Rightarrow> bool" where
  "mixed n es acc objs acc' objs' \<longleftrightarrow> length acc' = length acc \<and> length objs' = length objs
     \<and> (\<forall>j < n. acc' ! (j * kSinkChannels) =
          acc ! (j * kSinkChannels) + sum_list (map (\<lambda>e. scast (fst (contribution n (objs ! snd e) j))) es))
     \<and> (\<forall>j < n. acc' ! (j * kSinkChannels + 1) =
          acc ! (j * kSinkChannels + 1) + sum_list (map (\<lambda>e. scast (snd (contribution n (objs ! snd e) j))) es))
     \<and> (\<forall>k. k \<notin> snd ` set es \<longrightarrow> objs' ! k = objs ! k)
     \<and> (\<forall>e \<in> set es. \<exists>a. objs' ! snd e = snd (mix_stream n a (objs ! snd e)))"

lemma mixed_Cons:
  assumes "snd e < length objs" and "ring_ok (objs ! snd e)" and notin: "snd e \<notin> snd ` set es" and "length acc = n * kSinkChannels"
    and r: "mix_stream n acc (objs ! snd e) = (acc1, st)" and tl: "mixed n es acc1 (objs[snd e := st]) acc' objs'"
  shows "mixed n (e # es) acc objs acc' objs'"
proof -
  have other: "objs[snd e := st] ! snd e' = objs ! snd e'" if "e' \<in> set es" for e'
    using that notin by (metis image_eqI nth_list_update_neq)
  then have sums: "map (\<lambda>e'. scast (f (contribution n (objs[snd e := st] ! snd e') j)) :: s32) es
      = map (\<lambda>e'. scast (f (contribution n (objs ! snd e') j))) es" for f :: "frame \<Rightarrow> s16" and j by simp
  have acc1: "acc1 ! (j * kSinkChannels) = acc ! (j * kSinkChannels) + scast (fst (contribution n (objs ! snd e) j))"
    "acc1 ! (j * kSinkChannels + 1) = acc ! (j * kSinkChannels + 1) + scast (snd (contribution n (objs ! snd e) j))" if "j < n" for j
    using mix_stream_acc [OF assms(2,4) that] r by simp_all
  have "length acc1 = length acc" using mix_stream_length [of n acc "objs ! snd e"] r by simp
  moreover have "objs' ! snd e = snd (mix_stream n acc (objs ! snd e))"
    using tl notin assms(1) r by (simp add: mixed_def)
  moreover have "\<forall>e' \<in> set es. \<exists>a. objs' ! snd e' = snd (mix_stream n a (objs ! snd e'))"
    using tl other by (simp add: mixed_def)
  moreover have "\<forall>k. k \<notin> snd ` set (e # es) \<longrightarrow> objs' ! k = objs ! k" using tl by (auto simp: mixed_def)
  ultimately show ?thesis using tl acc1 unfolding mixed_def sums by (auto simp: add.assoc)
qed

lemma mix_entries:
  assumes "\<And>e. e \<in> set es \<Longrightarrow> snd e < length objs \<and> ring_ok (objs ! snd e)" and "distinct (map snd es)"
    and "length acc = n * kSinkChannels" and "fold (mix_entry n) es (acc, objs) = (acc', objs')"
  shows "mixed n es acc objs acc' objs'"
  using assms
proof (induction es arbitrary: acc objs)
  case (Cons e es)
  obtain acc1 st where r: "mix_stream n acc (objs ! snd e) = (acc1, st)" by fastforce
  have e: "snd e < length objs" "ring_ok (objs ! snd e)" and notin: "snd e \<notin> snd ` set es" using Cons.prems(1) [of e] Cons.prems(2) by auto
  have "length acc1 = n * kSinkChannels" using mix_stream_length [of n acc "objs ! snd e"] r Cons.prems(3) by simp
  moreover have "snd e' < length (objs[snd e := st]) \<and> ring_ok (objs[snd e := st] ! snd e')" if "e' \<in> set es" for e'
    using that Cons.prems(1) [of e'] notin by (metis image_eqI length_list_update list.set_intros(2) nth_list_update_neq)
  moreover have "fold (mix_entry n) es (acc1, objs[snd e := st]) = (acc', objs')" using Cons.prems(4) r by (simp add: mix_entry_def [of n e])
  ultimately have "mixed n es acc1 (objs[snd e := st]) acc' objs'" using Cons.IH Cons.prems(2) by simp
  then show ?case using mixed_Cons [OF e notin Cons.prems(3) r] by blast
qed (simp add: mixed_def)

definition clamp16 :: "int \<Rightarrow> int" where
  "clamp16 v = max (- 32768) (min 32767 v)"

lemma callback_mixes:
  assumes "mixer_ok fp m" and "aaudio_cb n m = (out, m')"
  shows "\<exists>acc. mixed n (mx_mix m) (replicate (n * kSinkChannels) 0) (mx_objs m) acc (mx_objs m') \<and> out = map clip acc
    \<and> m' = m\<lparr>mx_objs := mx_objs m', mx_frames_written := mx_frames_written m + of_nat n\<rparr>"
proof -
  obtain acc objs where f: "fold (mix_entry n) (mx_mix m) (replicate (n * kSinkChannels) 0, mx_objs m) = (acc, objs)" by fastforce
  have "snd e < length (mx_objs m) \<and> ring_ok (mx_objs m ! snd e)" if "e \<in> set (mx_mix m)" for e
    using that assms(1) by (auto simp: mixer_ok_def refs_ok_def good_stream_def stream_ok_def list_all_length)
  with mix_entries [OF _ _ _ f] assms(1) have "mixed n (mx_mix m) (replicate (n * kSinkChannels) 0) (mx_objs m) acc objs"
    by (simp add: mixer_ok_def)
  with f assms(2) show ?thesis by (auto simp: aaudio_cb_def)
qed

lemma good_stream_mixed: "good_stream fp st \<Longrightarrow> good_stream fp (snd (mix_stream n a st))"
  using mix_stream_queue [of st n a] by (auto simp: good_stream_def stream_ok_def same_stream_def)

lemma callback_keeps:
  assumes "mixer_ok fp m" and "aaudio_cb n m = (out, m')"
  shows "mixer_ok fp m'" and "mx_mix m' = mx_mix m" and "length (mx_objs m') = length (mx_objs m)"
proof -
  obtain acc where mx: "mixed n (mx_mix m) (replicate (n * kSinkChannels) 0) (mx_objs m) acc (mx_objs m')"
    and m': "m' = m\<lparr>mx_objs := mx_objs m', mx_frames_written := mx_frames_written m + of_nat n\<rparr>" using callback_mixes [OF assms] by blast
  have same: "mx_mix m' = mx_mix m" "mx_active m' = mx_active m" "mx_device_rate m' = mx_device_rate m" by (subst m', simp)+
  have len: "length (mx_objs m') = length (mx_objs m)" using mx by (simp add: mixed_def)
  have "good_stream fp (mx_objs m' ! k)" if "k < length (mx_objs m')" for k
  proof (cases "k \<in> snd ` set (mx_mix m)")
    case True
    then obtain e where "e \<in> set (mx_mix m)" "k = snd e" by blast
    with mx obtain a where "mx_objs m' ! k = snd (mix_stream n a (mx_objs m ! k))" unfolding mixed_def by blast
    then show ?thesis using assms(1) that len good_stream_mixed [of fp "mx_objs m ! k" n a] by (simp add: mixer_ok_def list_all_length)
  next
    case False
    then show ?thesis using mx assms(1) that len by (simp add: mixed_def mixer_ok_def list_all_length)
  qed
  then show "mixer_ok fp m'" using assms(1) len same by (simp add: mixer_ok_def refs_ok_def list_all_length)
  show "mx_mix m' = mx_mix m" "length (mx_objs m') = length (mx_objs m)" using same len by simp_all
qed

text \<open>C35. The data callback plays the sum.  For a mixer in order and at most 65535 streams, every sample it hands to the device is
  the exact sum of the next samples of all streams that are not corked, silence where a stream has run dry, clipped to 16
  bits; and it takes from the queue of each such stream exactly the frames it played, and nothing from a corked one.
\<close>

theorem audio_mix_correct:
  assumes "mixer_ok fp m" and "length (mx_mix m) \<le> 65535" and "aaudio_cb n m = (out, m')"
  shows "length out = n * 2 \<and> mixer_ok fp m'
    \<and> (\<forall>j < n. sint (out ! (j * 2)) = clamp16 (\<Sum>e\<leftarrow>mx_mix m. sint (fst (contribution n (mx_objs m ! snd e) j)))
        \<and> sint (out ! (j * 2 + 1)) = clamp16 (\<Sum>e\<leftarrow>mx_mix m. sint (snd (contribution n (mx_objs m ! snd e) j))))
    \<and> (\<forall>e \<in> set (mx_mix m). ring_queue (mx_objs m' ! snd e) =
        (if ps_corked (mx_objs m ! snd e) then ring_queue (mx_objs m ! snd e) else drop n (ring_queue (mx_objs m ! snd e))))"
proof -
  obtain acc where mx: "mixed n (mx_mix m) (replicate (n * kSinkChannels) 0) (mx_objs m) acc (mx_objs m')" and out: "out = map clip acc"
    using callback_mixes [OF assms(1,3)] by blast
  have len: "length acc = n * 2" using mx by (simp add: mixed_def kSinkChannels_def)
  have sum: "sint (\<Sum>e\<leftarrow>mx_mix m. scast (f e) :: s32) = (\<Sum>e\<leftarrow>mx_mix m. sint (f e))" for f :: "u32 \<times> nat \<Rightarrow> s16"
    using sint_sum_samples [of "map f (mx_mix m)"] assms(2) by (simp add: comp_def)
  have "sint (out ! (j * 2)) = clamp16 (\<Sum>e\<leftarrow>mx_mix m. sint (fst (contribution n (mx_objs m ! snd e) j)))
      \<and> sint (out ! (j * 2 + 1)) = clamp16 (\<Sum>e\<leftarrow>mx_mix m. sint (snd (contribution n (mx_objs m ! snd e) j)))" if "j < n" for j
    using mx that len sum [of "\<lambda>e. fst (contribution n (mx_objs m ! snd e) j)"] sum [of "\<lambda>e. snd (contribution n (mx_objs m ! snd e) j)"]
    by (simp add: mixed_def out clip_sint clamp16_def kSinkChannels_def)
  moreover have "ring_queue (mx_objs m' ! snd e) =
      (if ps_corked (mx_objs m ! snd e) then ring_queue (mx_objs m ! snd e) else drop n (ring_queue (mx_objs m ! snd e)))"
    if "e \<in> set (mx_mix m)" for e
  proof -
    from mx that obtain a where "mx_objs m' ! snd e = snd (mix_stream n a (mx_objs m ! snd e))" unfolding mixed_def by blast
    moreover have "ring_ok (mx_objs m ! snd e)"
      using that assms(1) by (auto simp: mixer_ok_def refs_ok_def good_stream_def stream_ok_def list_all_length)
    ultimately show ?thesis using mix_stream_queue(2) [of "mx_objs m ! snd e" n a] by simp
  qed
  ultimately show ?thesis using out len callback_keeps(1) [OF assms(1,3)] by simp
qed

section \<open>The server over time\<close>

text \<open>
  The server is in order when its mixer is, every client's table refers to stream objects, each descriptor has one client, and
  every stream that is played belongs to a connected client.
\<close>

definition server_ok :: "'d fp \<Rightarrow> 'd server \<Rightarrow> bool" where
  "server_ok fp s \<longleftrightarrow> mixer_ok fp (sv_mixer s) \<and> distinct (map fst (sv_clients s))
     \<and> (\<forall>(fd, c) \<in> set (sv_clients s). refs_ok (sv_mixer s) (cl_streams c))
     \<and> (\<forall>e \<in> set (mx_mix (sv_mixer s)). \<exists>(fd, c) \<in> set (sv_clients s). e \<in> set (cl_streams c))"

lemma server_okD:
  assumes "server_ok fp s" and "map_of (sv_clients s) fd = Some c"
  shows "refs_ok (sv_mixer s) (cl_streams c)"
  using assms by (auto simp: server_ok_def dest: map_of_SomeD)

lemma fold_delete_set: "set (fold (\<lambda>kv. AList.delete (fst kv)) es al) = {e \<in> set al. fst e \<notin> fst ` set es}"
  by (induction es arbitrary: al) (auto simp: set_AList_delete)

lemma fold_delete_distinct:
  "distinct (map fst al) \<Longrightarrow> distinct (map fst (fold (\<lambda>kv. AList.delete (fst kv)) es al))"
  "distinct (map snd al) \<Longrightarrow> distinct (map snd (fold (\<lambda>kv. AList.delete (fst kv)) es al))"
  by (induction es arbitrary: al) (simp_all add: distinct_delete distinct_snd_delete)

lemma close_client_ok:
  assumes "server_ok fp s"
  shows "server_ok fp (close_client fd s)"
proof (cases "map_of (sv_clients s) fd")
  case None
  then show ?thesis using assms by (simp add: close_client_def)
next
  case (Some c)
  let ?m = "sv_mixer s"
  let ?mix = "fold (\<lambda>kv. AList.delete (fst kv)) (cl_streams c) (mx_mix ?m)"
  have m: "mixer_ok fp ?m" "distinct (map fst (sv_clients s))" using assms by (simp_all add: server_ok_def)
  have mem: "(fd, c) \<in> set (sv_clients s)" using Some by (rule map_of_SomeD)
  have only: "c' = c" if "(fd, c') \<in> set (sv_clients s)" for c' using that mem m(2) by (meson eq_key_imp_eq_value)
  have "mixer_ok fp (?m\<lparr>mx_mix := ?mix, mx_active := length ?mix\<rparr>)"
    using m(1) by (auto simp: mixer_ok_def refs_ok_def fold_delete_set fold_delete_distinct)
  moreover have "\<exists>(fd', c') \<in> set (AList.delete fd (sv_clients s)). e \<in> set (cl_streams c')" if "e \<in> set ?mix" for e
  proof -
    from that have e: "e \<in> set (mx_mix ?m)" "fst e \<notin> fst ` set (cl_streams c)" by (simp_all add: fold_delete_set)
    with assms obtain fd' c' where c': "(fd', c') \<in> set (sv_clients s)" "e \<in> set (cl_streams c')" by (fastforce simp: server_ok_def)
    with e(2) only have "fd' \<noteq> fd" by auto
    with c' show ?thesis by (force simp: set_AList_delete)
  qed
  ultimately show ?thesis using assms Some m(2)
    by (auto simp: close_client_def server_ok_def Let_def refs_ok_def set_AList_delete distinct_delete)
qed

lemma put_client_ok:
  assumes "server_ok fp s" and "map_of (sv_clients s) fd = Some c" and "handled fp c0 (sv_mixer s) c' m'" and "cl_streams c0 = cl_streams c"
  shows "server_ok fp (put_client fd c' m' s)"
proof -
  have d: "distinct (map fst (sv_clients s))" using assms(1) by (simp add: server_ok_def)
  have set': "set (AList.update fd c' (sv_clients s)) = insert (fd, c') {x \<in> set (sv_clients s). fst x \<noteq> fd}"
    using d by (rule set_AList_update)
  have "(fd, c) \<in> set (sv_clients s)" using assms(2) by (rule map_of_SomeD)
  then have only: "c1 = c" if "(fd, c1) \<in> set (sv_clients s)" for c1 using that d by (meson eq_key_imp_eq_value)
  have h: "mixer_ok fp m'" "refs_ok m' (cl_streams c')" "length (mx_objs (sv_mixer s)) \<le> length (mx_objs m')"
    "set (mx_mix m') \<subseteq> set (mx_mix (sv_mixer s)) \<union> set (cl_streams c')"
    "\<And>e. e \<in> set (cl_streams c) \<Longrightarrow> e \<in> set (mx_mix m') \<Longrightarrow> e \<in> set (cl_streams c')"
    using assms(3,4) by (auto simp: handled_def)
  have "\<exists>(fd', c1) \<in> insert (fd, c') {x \<in> set (sv_clients s). fst x \<noteq> fd}. e \<in> set (cl_streams c1)" if "e \<in> set (mx_mix m')" for e
  proof (cases "e \<in> set (cl_streams c')")
    case False
    with that h(4) have "e \<in> set (mx_mix (sv_mixer s))" by blast
    with assms(1) obtain fd1 c1 where c1: "(fd1, c1) \<in> set (sv_clients s)" "e \<in> set (cl_streams c1)" by (fastforce simp: server_ok_def)
    with only h(5) that False have "fd1 \<noteq> fd" by blast
    with c1 show ?thesis by force
  qed auto
  moreover have "refs_ok m' (cl_streams c1)" if "(fd1, c1) \<in> set (sv_clients s)" for fd1 c1
    using that assms(1) h(3) by (auto simp: server_ok_def intro: refs_ok_mono)
  ultimately show ?thesis using h(1,2) d by (auto simp: put_client_def server_ok_def set' distinct_update)
qed

lemma readable_ok:
  assumes "server_ok fp s" and "fp_ok fp" and "aa_ok aa"
  shows "\<exists>s'. handle_client_readable fp aa fd recvs s = Some s' \<and> server_ok fp s'"
proof (cases "map_of (sv_clients s) fd")
  case None
  then show ?thesis using assms by (simp add: handle_client_readable_def)
next
  case (Some c)
  show ?thesis
  proof (cases "recv_loop recvs (cl_rbuf c)")
    case None
    then show ?thesis using Some assms close_client_ok by (simp add: handle_client_readable_def)
  next
    case r: (Some rbuf)
    have "mixer_ok fp (sv_mixer s)" "refs_ok (sv_mixer s) (cl_streams (c\<lparr>cl_rbuf := rbuf\<rparr>))"
      using assms(1) server_okD [OF assms(1) Some] by (simp_all add: server_ok_def)
    from drain_handled [OF this assms(2,3)] obtain ok c' m' where
      d: "drain_frames fp aa (c\<lparr>cl_rbuf := rbuf\<rparr>) (sv_mixer s) = Some (ok, c', m')" "handled fp (c\<lparr>cl_rbuf := rbuf\<rparr>) (sv_mixer s) c' m'" by blast
    have "handled fp (c\<lparr>cl_rbuf := rbuf\<rparr>) (sv_mixer s) (flush_wbuf c') m'" by (rule handled_cong [OF _ _ d(2)]) simp_all
    from put_client_ok [OF assms(1) Some this] put_client_ok [OF assms(1) Some d(2)] d(1) Some r
    show ?thesis by (simp add: handle_client_readable_def close_client_ok)
  qed
qed

text \<open>The kernel does not hand out a descriptor that is still open.\<close>

fun fresh_accepts :: "accept_result list \<Rightarrow> 'd server \<Rightarrow> bool" where
  "fresh_accepts [] s = True"
| "fresh_accepts (Accepted fd sends watched # rs) s \<longleftrightarrow> map_of (sv_clients s) fd = None
     \<and> fresh_accepts rs (let s = s\<lparr>sv_clients := AList.update fd (new_client fd (sv_next_client s) sends) (sv_clients s),
                                   sv_next_client := sv_next_client s + 1\<rparr>
                       in if watched then s else close_client fd s)"
| "fresh_accepts (Accept_interrupted # rs) s = fresh_accepts rs s"
| "fresh_accepts (_ # rs) s = True"

fun fresh_events :: "'d fp \<Rightarrow> aaudio \<Rightarrow> epoll_ev list \<Rightarrow> 'd server \<Rightarrow> bool" where
  "fresh_events fp aa [] s = True"
| "fresh_events fp aa (ev # evs) s \<longleftrightarrow> (ev_fd ev = sv_listen_fd s \<longrightarrow> fresh_accepts (ev_accepts ev) s)
     \<and> (case handle_event fp aa ev s of None \<Rightarrow> True | Some s' \<Rightarrow> fresh_events fp aa evs s')"

definition fresh_wait :: "'d fp \<Rightarrow> aaudio \<Rightarrow> wait_result \<Rightarrow> 'd server \<Rightarrow> bool" where
  "fresh_wait fp aa w s = (case w of Ready evs \<Rightarrow> fresh_events fp aa evs s | _ \<Rightarrow> True)"

lemma new_client_ok:
  assumes "server_ok fp s" and "map_of (sv_clients s) fd = None"
  shows "server_ok fp (s\<lparr>sv_clients := AList.update fd (new_client fd i sends) (sv_clients s), sv_next_client := j\<rparr>)"
proof -
  have d: "distinct (map fst (sv_clients s))" using assms(1) by (simp add: server_ok_def)
  have "set (AList.update fd (new_client fd i sends) (sv_clients s)) = insert (fd, new_client fd i sends) (set (sv_clients s))"
    using assms(2) d by (force simp: set_AList_update map_of_eq_None_iff)
  then show ?thesis using assms(1) d by (force simp: server_ok_def distinct_update new_client_def refs_ok_def)
qed

lemma accept_clients_ok: "server_ok fp s \<Longrightarrow> fresh_accepts rs s \<Longrightarrow> server_ok fp (accept_clients rs s)"
proof (induction rs s rule: accept_clients.induct)
  case (2 fd sends watched rs s)
  let ?s = "s\<lparr>sv_clients := AList.update fd (new_client fd (sv_next_client s) sends) (sv_clients s), sv_next_client := sv_next_client s + 1\<rparr>"
  from "2.prems" have ok: "server_ok fp ?s" by (simp add: new_client_ok)
  then have "server_ok fp (if watched then ?s else close_client fd ?s)" by (simp add: close_client_ok)
  with "2.IH" [OF refl] "2.prems"(2) show ?case by (simp add: Let_def)
qed simp_all

lemma event_ok:
  assumes "server_ok fp s" and "fp_ok fp" and "aa_ok aa" and "ev_fd ev = sv_listen_fd s \<longrightarrow> fresh_accepts (ev_accepts ev) s"
  shows "\<exists>s'. handle_event fp aa ev s = Some s' \<and> server_ok fp s'"
  using assms close_client_ok [OF assms(1)] accept_clients_ok [OF assms(1)] readable_ok [OF assms(1-3)]
  by (simp add: handle_event_def)

lemma events_ok:
  "server_ok fp s \<Longrightarrow> fp_ok fp \<Longrightarrow> aa_ok aa \<Longrightarrow> fresh_events fp aa evs s \<Longrightarrow>
   \<exists>s'. handle_events fp aa evs s = Some s' \<and> server_ok fp s'"
proof (induction evs arbitrary: s)
  case (Cons ev evs)
  then have "ev_fd ev = sv_listen_fd s \<longrightarrow> fresh_accepts (ev_accepts ev) s" by simp
  from event_ok [OF Cons.prems(1-3) this] obtain s1 where s1: "handle_event fp aa ev s = Some s1" "server_ok fp s1" by blast
  with Cons.prems(4) have "fresh_events fp aa evs s1" by simp
  with Cons.IH [OF s1(2) Cons.prems(2,3)] s1(1) show ?case by simp
qed simp

lemma flush_clients_ok: "server_ok fp s \<Longrightarrow> server_ok fp (flush_clients s)"
  by (force simp: server_ok_def flush_clients_def comp_def case_prod_beta)

lemma turn_ok:
  assumes "server_ok fp s" and "fp_ok fp" and "aa_ok aa" and "fresh_wait fp aa w s"
  shows "\<exists>go s'. epoll_turn fp aa w s = Some (go, s') \<and> server_ok fp s'"
proof -
  have run: "server_ok fp (s\<lparr>sv_running := False\<rparr>)" using assms(1) by (simp add: server_ok_def)
  show ?thesis
  proof (cases "sv_stop_requested s")
    case False
    show ?thesis
    proof (cases w)
      case (Ready evs)
      with assms(4) events_ok [OF assms(1-3)] obtain s1 where "handle_events fp aa evs s = Some s1" "server_ok fp s1"
        by (auto simp: fresh_wait_def)
      then show ?thesis using False Ready flush_clients_ok [of fp s1] by (auto simp: epoll_turn_def)
    qed (use False run assms(1) in \<open>auto simp: epoll_turn_def\<close>)
  qed (use run in \<open>auto simp: epoll_turn_def\<close>)
qed

lemma server_ok_cong:
  "server_ok fp s \<Longrightarrow> sv_clients s' = sv_clients s \<Longrightarrow> sv_mixer s' = (sv_mixer s)\<lparr>mx_device_rate := r\<rparr> \<Longrightarrow> 0 < r \<Longrightarrow> server_ok fp s'"
  by (simp add: server_ok_def mixer_ok_def refs_ok_def)

lemma bind_listen_keeps:
  "bind_listen os dir s = (r, s') \<Longrightarrow> sv_mixer s' = sv_mixer s \<and> sv_clients s' = sv_clients s"
  by (auto simp: bind_listen_def bind_path_def bind_socket_def Let_def split: option.splits sum.splits if_splits)

lemma start_ok:
  assumes "server_ok fp s" and "alr_audio_sink_start os dir rate s = Some (txt', s')"
  shows "server_ok fp s'"
proof (cases "sv_running s")
  case True
  then show ?thesis using assms by (simp add: alr_audio_sink_start_def)
next
  case False
  define rate' where "rate' = (if rate \<le> 0 then 48000 else rate)"
  define s0 where "s0 = s\<lparr>sv_mixer := (sv_mixer s)\<lparr>mx_device_rate := rate'\<rparr>, sv_stop_requested := False\<rparr>"
  obtain r s1 where b: "bind_listen os dir s0 = (r, s1)" by fastforce
  have "sv_clients s' = sv_clients s1 \<and> sv_mixer s' = sv_mixer s1"
    using assms(2) False b unfolding alr_audio_sink_start_def s0_def rate'_def
    by (cases r) (auto simp: Let_def split: sum.splits if_splits)
  with bind_listen_keeps [OF b] have "sv_clients s' = sv_clients s" "sv_mixer s' = (sv_mixer s)\<lparr>mx_device_rate := rate'\<rparr>"
    by (simp_all add: s0_def)
  moreover have "0 < rate'" by (simp add: rate'_def)
  ultimately show ?thesis using server_ok_cong assms(1) by blast
qed

lemma stop_ok: "server_ok fp s \<Longrightarrow> server_ok fp (snd (alr_audio_sink_stop s))"
  by (auto simp: alr_audio_sink_stop_def server_ok_def mixer_ok_def refs_ok_def close_aaudio_locked_def)

lemma callback_ok:
  assumes "server_ok fp s"
  shows "server_ok fp (s\<lparr>sv_mixer := snd (aaudio_cb n (sv_mixer s))\<rparr>)"
proof -
  obtain out m' where cb: "aaudio_cb n (sv_mixer s) = (out, m')" by fastforce
  have "mixer_ok fp (sv_mixer s)" using assms by (simp add: server_ok_def)
  from callback_keeps [OF this cb] cb assms show ?thesis by (auto simp: server_ok_def refs_ok_def)
qed

text \<open>
  The steps of the whole server: turns of the event loop with whatever the kernel reports, data callbacks of the device between
  them, the thread's announcement that it runs, start and stop.
\<close>

inductive server_step :: "'d fp \<Rightarrow> 'd server \<Rightarrow> 'd server \<Rightarrow> bool" for fp where
  turn: "aa_ok aa \<Longrightarrow> fresh_wait fp aa w s \<Longrightarrow> epoll_turn fp aa w s = Some (go, s') \<Longrightarrow> server_step fp s s'"
| callback: "server_step fp s (s\<lparr>sv_mixer := snd (aaudio_cb n (sv_mixer s))\<rparr>)"
| announce: "sv_joinable s \<Longrightarrow> server_step fp s (s\<lparr>sv_running := True\<rparr>)"
| start: "alr_audio_sink_start os dir rate s = Some (t, s') \<Longrightarrow> server_step fp s s'"
| stop: "server_step fp s (snd (alr_audio_sink_stop s))"

inductive_cases server_stepE: "server_step fp s s'"

definition initial_server :: "'d server" where
  "initial_server = \<lparr>sv_mixer = \<lparr>mx_objs = [], mx_mix = [], mx_next_stream = 1, mx_device_rate = 48000, mx_aaudio = False,
       mx_frames_written = 0, mx_active = 0\<rparr>, sv_clients = [], sv_next_client = 1, sv_running = False, sv_stop_requested = False,
     sv_listen_fd = - 1, sv_epoll_fd = - 1, sv_wakeup_fd = - 1, sv_socket_path = [], sv_socket_dir = [], sv_joinable = False, sv_closed = []\<rparr>"

inductive server_reachable :: "'d fp \<Rightarrow> 'd server \<Rightarrow> bool" for fp where
  init: "server_reachable fp initial_server"
| step: "server_reachable fp s \<Longrightarrow> server_step fp s s' \<Longrightarrow> server_reachable fp s'"

lemma initial_ok: "server_ok fp initial_server"
  by (simp add: server_ok_def initial_server_def mixer_ok_def refs_ok_def)

lemma server_step_ok: "server_step fp s s' \<Longrightarrow> fp_ok fp \<Longrightarrow> server_ok fp s \<Longrightarrow> server_ok fp s'"
proof (induction rule: server_step.induct)
  case (turn aa w s go s')
  then show ?case using turn_ok [of fp s aa w] by auto
next
  case (announce s)
  then show ?case by (simp add: server_ok_def)
qed (auto intro: callback_ok start_ok stop_ok)

lemma server_reachable_ok: "server_reachable fp s \<Longrightarrow> fp_ok fp \<Longrightarrow> server_ok fp s"
  by (induction rule: server_reachable.induct) (auto intro: initial_ok server_step_ok)


section \<open>Replies\<close>

definition control_frame :: "byte list \<Rightarrow> byte list" where
  "control_frame p = put_be32 (of_nat (length p)) @ put_be32 kChannelControl @ put_be32 0 @ put_be32 0 @ put_be32 0 @ p"

lemma queue_command_wbuf: "cl_wbuf (queue_command c p) = cl_wbuf c @ control_frame p"
  by (simp add: queue_command_def queue_frame_def control_frame_def)

lemma register_wbuf: "register_stream aa st c m = (c', m') \<Longrightarrow> cl_wbuf c' = cl_wbuf c"
  by (auto simp: register_stream_def Let_def)

text \<open>Every request gets exactly one answer with its tag; only the creation of a stream is followed by a request for data.\<close>

definition answers_request :: "u32 \<Rightarrow> u32 \<Rightarrow> client \<Rightarrow> client \<Rightarrow> bool" where
  "answers_request command tag c c' \<longleftrightarrow>
     (\<exists>kind body extra. kind \<in> {PA_COMMAND_REPLY, PA_COMMAND_ERROR} \<and> (command \<noteq> 3 \<longrightarrow> extra = [])
        \<and> cl_wbuf c' = cl_wbuf c @ control_frame (put_u32 kind @ put_u32 tag @ body) @ extra)"

lemma answers_replyI:
  "cl_wbuf c' = cl_wbuf c @ control_frame (make_reply tag @ body) @ extra \<Longrightarrow> (command \<noteq> 3 \<longrightarrow> extra = []) \<Longrightarrow> answers_request command tag c c'"
  unfolding answers_request_def by (intro exI [of _ PA_COMMAND_REPLY] exI [of _ body] exI [of _ extra]) (simp add: make_reply_def)

lemma answers_errorI: "cl_wbuf c' = cl_wbuf (queue_error c tag e) \<Longrightarrow> answers_request command tag c c'"
  unfolding answers_request_def queue_error_def
  by (intro exI [of _ PA_COMMAND_ERROR] exI [of _ "put_u32 e"] exI [of _ "[]"]) (simp add: queue_command_wbuf)

lemma queue_reply_answers:
  "cl_wbuf c1 = cl_wbuf c \<Longrightarrow> answers_request command tag c (queue_command c1 (make_reply tag @ body))"
  "cl_wbuf c1 = cl_wbuf c \<Longrightarrow> answers_request command tag c (queue_command c1 (make_reply tag))"
  by (rule answers_replyI [of _ _ _ body "[]"], simp_all add: queue_command_wbuf)
     (rule answers_replyI [of _ _ _ "[]" "[]"], simp_all add: queue_command_wbuf)

lemma create_answers:
  assumes "handle_create_playback_stream fp aa c tag rd m = (c', m')"
  shows "answers_request 3 tag c c'"
proof (cases "\<exists>a. Option.bind rd read_create_args = Some a \<and> accepts_spec fp (ca_spec a)")
  case True
  then obtain a where a: "Option.bind rd read_create_args = Some a" "accepts_spec fp (ca_spec a)" by blast
  obtain c1 m1 where r: "register_stream aa (new_stream fp (negotiate a) (mx_device_rate m) (mx_next_stream m)) c m = (c1, m1)"
    by fastforce
  have "c' = queue_request (queue_command c1 (create_reply tag (mx_next_stream m) (negotiate a))) (mx_next_stream m) (ca_tlength (negotiate a))"
    using assms a r by (auto simp: handle_create_playback_stream_def Let_def)
  then show ?thesis
    by (auto intro!: answers_replyI simp: queue_request_def queue_command_wbuf register_wbuf [OF r] create_reply_def)
next
  case False
  with assms show ?thesis
    by (auto intro: answers_errorI simp: handle_create_playback_stream_def split: option.splits if_splits)
qed

lemma request_answered:
  assumes "dispatch_command fp aa c command tag rd m = (c', m')"
  shows "answers_request command tag c c'"
proof (cases "command = 3")
  case True
  then show ?thesis using assms create_answers by (auto simp: dispatch_command_def)
next
  case False
  show ?thesis
    using assms False unfolding dispatch_command_def handle_auth_def handle_set_client_name_def handle_get_server_info_def
      handle_get_sink_info_def handle_get_sink_input_info_def handle_trigger_def handle_drain_def handle_get_playback_latency_def
      handle_empty_reply_def handle_delete_playback_stream_def erase_stream_def handle_cork_def handle_flush_def Let_def
    by (auto split: if_splits prod.splits intro: answers_errorI queue_reply_answers)
qed

text \<open>What reaches the peer is a beginning of what was queued, in order; it is all of it until a send fails.\<close>

lemma flush_in_order:
  "flush_loop rs w sent = (rs', w', sent') \<Longrightarrow> (\<exists>n. sent' = sent @ take n w) \<and> (w' = [] \<or> sent' @ w' = sent @ w)"
proof (induction rs w sent arbitrary: rs' w' sent' rule: flush_loop.induct)
  case (3 n rs v va sent)
  show ?case
  proof (cases "n = 0")
    case True
    with "3.prems" show ?thesis by (auto intro: exI [of _ 0])
  next
    case False
    with "3.IH" [OF False] "3.prems" obtain k where
      k: "sent' = (sent @ take n (v # va)) @ take k (drop n (v # va))" "w' = [] \<or> sent' @ w' = (sent @ take n (v # va)) @ drop n (v # va)"
      by auto
    then have "sent' = sent @ take (n + k) (v # va)" by (simp add: take_add)
    with k(2) show ?thesis by (metis append_assoc append_take_drop_id)
  qed
qed (auto intro: exI [of _ 0])

section \<open>Instances\<close>

lemma rat_fp_ok: "fp_ok rat_fp"
  unfolding fp_ok_def
proof (intro conjI allI impI)
  show "fp_truncates rat_fp" by (rule rat_truncates)
  fix rate :: u32 and dr :: int
  assume "rate \<noteq> 0" "0 < dr"
  then have "0 < uint rate" by (simp add: word_neq_0_conv word_less_def)
  then have "0 < (of_int (uint rate) :: rat)" by (rule of_int_0_less_iff [THEN iffD2])
  moreover have "resample_step rat_fp rate dr = of_int (uint rate) / of_int dr" by (simp add: resample_step_def rat_fp_def)
  ultimately show "fp_advances rat_fp (resample_step rat_fp rate dr)"
    using \<open>0 < dr\<close> by (intro rat_advances) (simp only: divide_pos_pos of_int_0_less_iff)
qed

definition demo_mixer :: "rat mixer" where
  "demo_mixer = \<lparr>mx_objs = [demo_stream, demo_stream\<lparr>ps_ring := [30000, 30000, 30000, 30000], ps_fill := 2, ps_tail := 1\<rparr>],
     mx_mix = [(1, 0), (2, 1)], mx_next_stream = 3, mx_device_rate = 48000, mx_aaudio = True, mx_frames_written = 0, mx_active = 2\<rparr>"

lemma demo_mixer_ok: "mixer_ok rat_fp demo_mixer"
  by (simp add: mixer_ok_def demo_mixer_def refs_ok_def good_stream_def stream_ok_def demo_stream_def ring_ok_def kSinkChannels_def
      supported_format_def fp_nonneg_def rat_fp_def)

theorem audio_mix_correct_witness:
  "\<exists>out m'. aaudio_cb 2 demo_mixer = (out, m') \<and> sint (out ! 0) = clamp16 (3 + 30000) \<and> sint (out ! 2) = clamp16 30000
    \<and> ring_queue (mx_objs m' ! 1) = []"
proof -
  obtain out m' where cb: "aaudio_cb 2 demo_mixer = (out, m')" by fastforce
  have "length (mx_mix demo_mixer) \<le> 65535" by (simp add: demo_mixer_def)
  note r = audio_mix_correct [OF demo_mixer_ok this cb]
  have c: "sint (fst (contribution 2 (mx_objs demo_mixer ! 0) 0)) = 3" "sint (fst (contribution 2 (mx_objs demo_mixer ! 1) 0)) = 30000"
    "sint (fst (contribution 2 (mx_objs demo_mixer ! 0) 1)) = 0" "sint (fst (contribution 2 (mx_objs demo_mixer ! 1) 1)) = 30000"
    "mx_mix demo_mixer = [(1, 0), (2, 1)]" "\<not> ps_corked (mx_objs demo_mixer ! 1)" "ps_fill (mx_objs demo_mixer ! 1) = 2"
    by (simp_all add: demo_mixer_def demo_stream_def contribution_def ring_queue_def window_def frames_of_def kSinkChannels_def)
  then have out: "sint (out ! (j * 2)) = clamp16 (sint (fst (contribution 2 (mx_objs demo_mixer ! 0) j))
      + sint (fst (contribution 2 (mx_objs demo_mixer ! 1) j)))" if "j < 2" for j using r that by simp
  have "sint (out ! 0) = clamp16 (3 + 30000)" using out [of 0] c by (simp only: mult_zero_left)
  moreover have "sint (out ! 2) = clamp16 30000" using out [of 1] c by (simp only: mult_1 add_0)
  moreover have "ring_queue (mx_objs m' ! 1) = []" using r c by simp
  ultimately show ?thesis using cb by blast
qed

definition demo_os :: sink_os where
  "demo_os = \<lparr>so_mkdir = (\<lambda>_. None), so_socket = Inr 10, so_bind = None, so_listen = None, so_epoll = Inr 11, so_eventfd = Inr 12,
     so_strerror = (\<lambda>_. [])\<rparr>"

definition demo_aaudio :: aaudio where
  "demo_aaudio = \<lparr>aa_builder = True, aa_open = (\<lambda>_. Some 44100), aa_start = True, aa_position = None\<rparr>"

definition accept_event :: epoll_ev where
  "accept_event = \<lparr>ev_fd = 10, ev_hup = False, ev_in = True, ev_accepts = [Accepted 20 [] True], ev_recvs = []\<rparr>"

definition started_server :: "rat server" where
  "started_server = initial_server\<lparr>sv_listen_fd := 10, sv_epoll_fd := 11, sv_wakeup_fd := 12, sv_joinable := True,
     sv_socket_dir := ''/run/pulse'', sv_socket_path := ''/run/pulse/native''\<rparr>"

definition busy_server :: "rat server" where
  "busy_server = started_server\<lparr>sv_clients := [(20, new_client 20 1 [])], sv_next_client := 2\<rparr>"

lemma busy_server_reachable: "server_reachable rat_fp busy_server"
proof -
  have "\<exists>t. alr_audio_sink_start demo_os ''/run'' 48000 initial_server = Some (t, started_server)"
    by (simp add: alr_audio_sink_start_def initial_server_def started_server_def bind_listen_def bind_path_def bind_socket_def
        demo_os_def sun_path_size_def)
  then have "server_reachable rat_fp started_server" using server_reachable.step server_reachable.init server_step.start by blast
  moreover have "epoll_turn rat_fp demo_aaudio (Ready [accept_event]) started_server = Some (True, busy_server)"
    by (simp add: epoll_turn_def handle_event_def started_server_def initial_server_def accept_event_def flush_clients_def
        busy_server_def new_client_def)
  moreover have "fresh_wait rat_fp demo_aaudio (Ready [accept_event]) started_server"
    by (simp add: fresh_wait_def accept_event_def started_server_def initial_server_def split: option.splits)
  moreover have "aa_ok demo_aaudio" by (simp add: aa_ok_def demo_aaudio_def)
  ultimately show ?thesis using server_reachable.step server_step.turn by blast
qed

definition data_event :: "byte list \<Rightarrow> epoll_ev" where
  "data_event bs = \<lparr>ev_fd = 20, ev_hup = False, ev_in = True, ev_accepts = [], ev_recvs = [Received bs]\<rparr>"


section \<open>Where the server deviates\<close>

text \<open>A client that deletes an index it does not own silences the stream of another client.\<close>

lemma delete_foreign_stream:
  "map_of (cl_streams c) i = None \<Longrightarrow> (c', m') = erase_stream c i m \<Longrightarrow> map_of (mx_mix m') i = None \<and> cl_streams c' = cl_streams c"
  by (simp add: erase_stream_def Let_def AList.delete_conv' map_of_eq_None_iff)

text \<open>The doubling of the minimal request wraps, and the target length ends below it.\<close>

lemma negotiated_below_minreq:
  "let a = negotiate \<lparr>ca_spec = \<lparr>ss_format = 3, ss_channels = 2, ss_rate = 48000\<rparr>, ca_maxlength = 0, ca_corked = False, ca_tlength = 4,
     ca_prebuf = 0, ca_minreq = 0x80000000\<rparr> in ca_tlength a < ca_minreq a"
  by (simp add: negotiate_def def_or_def frame_size_bytes_def sample_size_bytes_def)

text \<open>The ring follows the target length a client asks for without a bound: more than two hundred trillion frames.\<close>

lemma ring_without_bound:
  "ring_frames_for \<lparr>ca_spec = \<lparr>ss_format = 0, ss_channels = 1, ss_rate = 1\<rparr>, ca_maxlength = 0, ca_corked = False,
     ca_tlength = 0xFFFFFFFE, ca_prebuf = 0, ca_minreq = 1\<rparr> 48000 > 200 * 10 ^ 12"
  by (simp add: ring_frames_for_def frame_size_bytes_def sample_size_bytes_def kRingFramesDefault_def)

text \<open>A second start before the thread has announced itself, or after its loop has failed, ends the process.\<close>

lemma start_twice_terminates:
  "sv_joinable s \<Longrightarrow> \<not> sv_running s \<Longrightarrow> alr_audio_sink_start demo_os ''/run'' rate s = None"
  by (simp add: alr_audio_sink_start_def bind_listen_def bind_path_def bind_socket_def demo_os_def sun_path_size_def Let_def)

end
