(* ===== verification/Preload_Gate.thy ===== *)
theory Preload_Gate
  imports Alr_Words
begin

text \<open>
  The seccomp filter that the preloaded library installs, \<^verbatim>\<open>alr_install_pcgated_filter\<close> of
  \<^verbatim>\<open>alr_interpose/libalr_interpose.c\<close>: its instructions, the machine of the kernel that runs them, and the decision that the program
  takes for every system call.  The machine has one accumulator, loads 32-bit words of the record of the call at fixed offsets and only
  jumps forward, so a run ends.
\<close>

section \<open>The machine\<close>

record seccomp_data =
  sd_nr :: u32
  sd_arch :: u32
  sd_ip :: u64

datatype seccomp_action = RET_ALLOW | RET_TRACE

datatype bpf_insn =
    BPF_LD_ABS nat
  | BPF_JEQ u32 nat nat
  | BPF_JGT u32 nat nat
  | BPF_JGE u32 nat nat
  | BPF_RET seccomp_action

definition load_word :: "seccomp_data \<Rightarrow> nat \<Rightarrow> u32 option" where
  "load_word d off =
     (if off = 0 then Some (sd_nr d) else if off = 4 then Some (sd_arch d) else if off = 8 then Some (ucast (sd_ip d))
      else if off = 12 then Some (ucast (drop_bit 32 (sd_ip d))) else None)"

text \<open>A run from the head of the remaining program: the action and the number of instructions, or \<^const>\<open>None\<close> for a program that
  runs off its end.\<close>

function bpf_run :: "seccomp_data \<Rightarrow> bpf_insn list \<Rightarrow> u32 \<Rightarrow> (seccomp_action \<times> nat) option" where
  "bpf_run d [] a = None"
| "bpf_run d (BPF_RET r # is) a = Some (r, 1)"
| "bpf_run d (BPF_LD_ABS k # is) a =
     (case load_word d k of None \<Rightarrow> None | Some w \<Rightarrow> map_option (apsnd Suc) (bpf_run d is w))"
| "bpf_run d (BPF_JEQ k jt jf # is) a = map_option (apsnd Suc) (bpf_run d (drop (if a = k then jt else jf) is) a)"
| "bpf_run d (BPF_JGT k jt jf # is) a = map_option (apsnd Suc) (bpf_run d (drop (if k < a then jt else jf) is) a)"
| "bpf_run d (BPF_JGE k jt jf # is) a = map_option (apsnd Suc) (bpf_run d (drop (if k \<le> a then jt else jf) is) a)"
  by pat_completeness auto
termination by (relation "measure (\<lambda>(d, is, a). length is)") auto

section \<open>The filter\<close>

definition AUDIT_ARCH_AARCH64 :: u32 where "AUDIT_ARCH_AARCH64 = 0xC00000B7"

definition high_word :: "u64 \<Rightarrow> u32" where "high_word w = ucast (drop_bit 32 w)"
definition low_word :: "u64 \<Rightarrow> u32" where "low_word w = ucast w"

definition pcgated_filter :: "u64 \<Rightarrow> u64 \<Rightarrow> bpf_insn list" where
  "pcgated_filter lo hi =
     [BPF_LD_ABS 4,
      BPF_JEQ AUDIT_ARCH_AARCH64 1 0,
      BPF_RET RET_ALLOW,
      BPF_LD_ABS 0,
      BPF_JGT 79 7 0,
      BPF_JGT 77 0 1,
      BPF_JGE 78 10 20,
      BPF_JGT 56 19 0,
      BPF_JEQ 56 8 0,
      BPF_JEQ 48 7 0,
      BPF_JEQ 35 6 0,
      BPF_JEQ 34 5 15,
      BPF_JGT 291 1 0,
      BPF_JEQ 291 3 13,
      BPF_JGT 439 12 0,
      BPF_JEQ 439 1 0,
      BPF_JEQ 437 0 10,
      BPF_LD_ABS 12,
      BPF_JGT (high_word lo) 3 0,
      BPF_JEQ (high_word lo) 0 8,
      BPF_LD_ABS 8,
      BPF_JGE (low_word lo) 0 6,
      BPF_LD_ABS 12,
      BPF_JGT (high_word hi) 4 0,
      BPF_JEQ (high_word hi) 0 2,
      BPF_LD_ABS 8,
      BPF_JGE (low_word hi) 1 0,
      BPF_RET RET_ALLOW,
      BPF_RET RET_TRACE]"

text \<open>The nine system calls that take a path.\<close>

definition path_syscalls :: "u32 list" where
  "path_syscalls = [34, 35, 48, 56, 78, 79, 291, 437, 439]"

definition gate_decision :: "u64 \<Rightarrow> u64 \<Rightarrow> seccomp_data \<Rightarrow> seccomp_action" where
  "gate_decision lo hi d =
     (if sd_arch d = AUDIT_ARCH_AARCH64 \<and> sd_nr d \<in> set path_syscalls \<and> \<not> (lo \<le> sd_ip d \<and> sd_ip d < hi) then RET_TRACE
      else RET_ALLOW)"

section \<open>The decision\<close>

lemma split_word: "unat w = unat (high_word w) * 2 ^ 32 + unat (low_word w)"
proof -
  have l: "unat (low_word w) = unat w mod 2 ^ 32" by (simp add: low_word_def unsigned_ucast_eq take_bit_eq_mod)
  have "unat w div 2 ^ 32 < 2 ^ 32" using unsigned_less [of w, where ?'a = nat] by (simp add: less_mult_imp_div_less)
  moreover have "unat (drop_bit 32 w) = unat w div 2 ^ 32"
    by (simp add: drop_bit_eq_div unat_div_distrib)
  ultimately have h: "unat (high_word w) = unat w div 2 ^ 32"
    unfolding high_word_def unsigned_ucast_eq by (simp add: take_bit_nat_eq_self)
  show ?thesis unfolding l h by simp
qed

lemma low_word_bound: "unat (low_word w) < 2 ^ 32"
  using unsigned_less [of "low_word w", where ?'a = nat] by simp

lemma le_by_words: "v \<le> w \<longleftrightarrow> high_word v < high_word w \<or> high_word v = high_word w \<and> low_word v \<le> low_word w"
proof -
  have "unat v \<le> unat w \<longleftrightarrow> unat (high_word v) < unat (high_word w) \<or>
      unat (high_word v) = unat (high_word w) \<and> unat (low_word v) \<le> unat (low_word w)"
    using split_word [of v] split_word [of w] low_word_bound [of v] low_word_bound [of w] by (auto simp: nat_neq_iff)
  then show ?thesis by (simp add: word_le_nat_alt word_less_nat_alt word_unat_eq_iff)
qed

definition bpf_action :: "seccomp_data \<Rightarrow> bpf_insn list \<Rightarrow> u32 \<Rightarrow> seccomp_action option" where
  "bpf_action d is a = map_option fst (bpf_run d is a)"

lemma bpf_action_simps:
  "bpf_action d (BPF_RET r # is) a = Some r"
  "bpf_action d (BPF_LD_ABS off # is) a = (case load_word d off of None \<Rightarrow> None | Some w \<Rightarrow> bpf_action d is w)"
  "bpf_action d (BPF_JEQ k jt jf # is) a = (if a = k then bpf_action d (drop jt is) a else bpf_action d (drop jf is) a)"
  "bpf_action d (BPF_JGT k jt jf # is) a = (if k < a then bpf_action d (drop jt is) a else bpf_action d (drop jf is) a)"
  "bpf_action d (BPF_JGE k jt jf # is) a = (if k \<le> a then bpf_action d (drop jt is) a else bpf_action d (drop jf is) a)"
  by (simp_all add: bpf_action_def option.map_comp comp_def split: option.splits)

lemma load_words:
  "load_word d 0 = Some (sd_nr d)" "load_word d 4 = Some (sd_arch d)" "load_word d 8 = Some (low_word (sd_ip d))"
  "load_word d 12 = Some (high_word (sd_ip d))"
  by (simp_all add: load_word_def low_word_def high_word_def)

definition pc_check :: "u64 \<Rightarrow> u64 \<Rightarrow> bpf_insn list" where
  "pc_check lo hi = drop 17 (pcgated_filter lo hi)"

lemma pc_check_decides:
  "bpf_action d (pc_check lo hi) a = Some (if lo \<le> sd_ip d \<and> sd_ip d < hi then RET_ALLOW else RET_TRACE)"
proof -
  have l: "lo \<le> sd_ip d \<longleftrightarrow> high_word lo < high_word (sd_ip d) \<or> high_word (sd_ip d) = high_word lo \<and> low_word lo \<le> low_word (sd_ip d)"
    using le_by_words [of lo "sd_ip d"] by auto
  have h: "sd_ip d < hi \<longleftrightarrow> \<not> (high_word hi < high_word (sd_ip d) \<or> high_word (sd_ip d) = high_word hi \<and> low_word hi \<le> low_word (sd_ip d))"
    using le_by_words [of hi "sd_ip d"] by (auto simp: not_le [symmetric])
  show ?thesis
    unfolding l h by (simp add: pc_check_def pcgated_filter_def bpf_action_simps load_words)
qed

lemma between_77_and_79: "77 < n \<Longrightarrow> \<not> 79 < n \<Longrightarrow> n = 78 \<or> n = 79" for n :: u32
  by (auto simp: word_less_nat_alt word_unat_eq_iff)

lemma classify_path:
  assumes "sd_arch d = AUDIT_ARCH_AARCH64" and "sd_nr d \<in> set path_syscalls"
  shows "bpf_action d (pcgated_filter lo hi) a = bpf_action d (pc_check lo hi) (sd_nr d)"
proof -
  have "sd_nr d = 34 \<or> sd_nr d = 35 \<or> sd_nr d = 48 \<or> sd_nr d = 56 \<or> sd_nr d = 78 \<or> sd_nr d = 79 \<or> sd_nr d = 291 \<or> sd_nr d = 437 \<or>
      sd_nr d = 439"
    using assms(2) by (simp add: path_syscalls_def)
  then show ?thesis
    by (elim disjE) (simp_all add: pcgated_filter_def pc_check_def assms(1) bpf_action_simps(2-5) load_words(1,2))
qed

lemma classify_other:
  assumes "\<not> (sd_arch d = AUDIT_ARCH_AARCH64 \<and> sd_nr d \<in> set path_syscalls)"
  shows "bpf_action d (pcgated_filter lo hi) a = Some RET_ALLOW"
proof (cases "sd_arch d = AUDIT_ARCH_AARCH64")
  case True
  with assms have n: "sd_nr d \<noteq> 34" "sd_nr d \<noteq> 35" "sd_nr d \<noteq> 48" "sd_nr d \<noteq> 56" "sd_nr d \<noteq> 78" "sd_nr d \<noteq> 79" "sd_nr d \<noteq> 291"
    "sd_nr d \<noteq> 437" "sd_nr d \<noteq> 439" by (simp_all add: path_syscalls_def)
  then have "\<not> (77 < sd_nr d \<and> \<not> 79 < sd_nr d)" using between_77_and_79 [of "sd_nr d"] by blast
  then show ?thesis
    using n True by (cases "79 < sd_nr d") (simp_all add: pcgated_filter_def bpf_action_simps load_words)
qed (simp add: pcgated_filter_def bpf_action_simps load_words)

lemma filter_decision: "\<exists>steps. bpf_run d (pcgated_filter lo hi) a = Some (gate_decision lo hi d, steps)"
proof -
  have "bpf_action d (pcgated_filter lo hi) a = Some (gate_decision lo hi d)"
    using classify_path [of d lo hi a] classify_other [of d lo hi a] pc_check_decides [of d lo hi "sd_nr d"]
    by (cases "sd_arch d = AUDIT_ARCH_AARCH64 \<and> sd_nr d \<in> set path_syscalls") (auto simp: gate_decision_def)
  then show ?thesis by (auto simp: bpf_action_def)
qed

text \<open>C36. The filter takes the documented decision.  For every system call, from every address and for every trampoline, the program ends; a
  path call of the 64-bit ARM interface from outside the trampoline is traced, and everything else is allowed.
\<close>
theorem pcgated_filter_correct:
  "\<exists>steps. bpf_run d (pcgated_filter lo hi) a =
     Some (if sd_arch d = AUDIT_ARCH_AARCH64 \<and> sd_nr d \<in> set path_syscalls \<and> \<not> (lo \<le> sd_ip d \<and> sd_ip d < hi) then RET_TRACE
           else RET_ALLOW, steps)"
  using filter_decision [of d lo hi a] by (simp add: gate_decision_def)

text \<open>The cost of a call that is not a path: seven instructions for the frequent numbers, and up to eleven.\<close>

definition call_of :: "u32 \<Rightarrow> seccomp_data" where
  "call_of n = \<lparr>sd_nr = n, sd_arch = AUDIT_ARCH_AARCH64, sd_ip = 0\<rparr>"

lemma hot_call_cost: "79 < n \<Longrightarrow> n < 291 \<Longrightarrow> bpf_run (call_of n) (pcgated_filter lo hi) 0 = Some (RET_ALLOW, 7)"
  using less_not_sym [of n 291] by (auto simp: pcgated_filter_def call_of_def load_word_def)

lemma low_call_cost: "bpf_run (call_of 29) (pcgated_filter lo hi) 0 = Some (RET_ALLOW, 11)"
  by (simp add: pcgated_filter_def call_of_def load_word_def)

end
