(* ===== verification/Preload_Rewrite.thy ===== *)
theory Preload_Rewrite
  imports Guest_Path_Spec Preload_Gate
begin

text \<open>
  The path rewriter of the preloaded library, \<^verbatim>\<open>alr_interpose/libalr_interpose.c\<close>: the configuration that its constructor reads,
  the prefix rewrite \<^verbatim>\<open>rw\<close>, its inverse \<^verbatim>\<open>guest_canon\<close>, and the address transforms of the socket calls.  A string
  is the bytes before its terminator; \<^const>\<open>None\<close> is the null pointer.
\<close>

section \<open>Configuration\<close>

record preload =
  g_rootfs :: string
  g_rootfs_len :: nat
  g_rootfs_canon :: string
  g_guest_exe :: string
  g_pcgate :: bool
  g_rootfs_fd :: int
  g_openat2_ok :: bool
  g_faccessat2_ok :: bool

definition a_under :: "string \<Rightarrow> string \<Rightarrow> bool" where
  "a_under p d \<longleftrightarrow> take (length d) p = d \<and> (length p = length d \<or> p ! length d = slash)"

fun trim_len :: "string \<Rightarrow> nat \<Rightarrow> nat" where
  "trim_len r 0 = 0"
| "trim_len r (Suc n) = (if 1 < Suc n \<and> r ! n = slash then trim_len r n else Suc n)"

definition per_user :: string where "per_user = ''/data/user/0/''"
definition canon_data :: string where "canon_data = ''/data/data/''"
definition GBUF :: nat where "GBUF = 1024"

definition rootfs_of :: "string option \<Rightarrow> string" where
  "rootfs_of r =
     (case r of
        None \<Rightarrow> []
      | Some r \<Rightarrow>
          if r = [] \<or> hd r \<noteq> slash then []
          else let n = trim_len r (length r) in take (if GBUF \<le> n then GBUF - 1 else n) r)"

definition rootfs_canon_of :: "string \<Rightarrow> nat \<Rightarrow> string" where
  "rootfs_canon_of root len =
     (if length per_user < len \<and> take (length per_user) root = per_user then
        let rest = drop (length per_user) root
        in if length canon_data + length rest < GBUF then canon_data @ rest else []
      else [])"

definition guest_exe_of :: "string option \<Rightarrow> string" where
  "guest_exe_of e = (case e of None \<Rightarrow> [] | Some e \<Rightarrow> if e = [] \<or> hd e \<noteq> slash then [] else take (GBUF - 1) e)"

definition alr_init :: "(string \<Rightarrow> string option) \<Rightarrow> preload" where
  "alr_init env =
     (let root = rootfs_of (env ''ALR_ROOTFS''); len = (if root = ''/'' then 0 else length root)
      in \<lparr>g_rootfs = root, g_rootfs_len = len, g_rootfs_canon = rootfs_canon_of root len, g_guest_exe = guest_exe_of (env ''ALR_GUEST_EXE''),
          g_pcgate = True, g_rootfs_fd = - 1, g_openat2_ok = False, g_faccessat2_ok = False\<rparr>)"

section \<open>Rewriting\<close>

definition kernel_fs :: "string \<Rightarrow> bool" where
  "kernel_fs p \<longleftrightarrow> a_under p ''/proc'' \<or> a_under p ''/sys'' \<or> a_under p ''/dev''"

definition already_host :: "preload \<Rightarrow> string \<Rightarrow> bool" where
  "already_host c p \<longleftrightarrow> a_under p (g_rootfs c) \<or> g_rootfs_canon c \<noteq> [] \<and> a_under p (g_rootfs_canon c)"

definition absolute :: "string \<Rightarrow> bool" where
  "absolute p \<longleftrightarrow> p \<noteq> [] \<and> hd p = slash"

definition rw :: "preload \<Rightarrow> nat \<Rightarrow> string option \<Rightarrow> nat \<Rightarrow> string option" where
  "rw c suppress path buflen =
     (case path of
        None \<Rightarrow> None
      | Some p \<Rightarrow>
          if \<not> absolute p then path
          else if suppress \<noteq> 0 then path
          else if g_rootfs_len c = 0 then path
          else if kernel_fs p then path
          else if already_host c p then path
          else if buflen < g_rootfs_len c + length p + 1 then path
          else Some (take (g_rootfs_len c) (g_rootfs c) @ p))"

definition guest_canon :: "preload \<Rightarrow> string \<Rightarrow> string" where
  "guest_canon c path =
     (if \<not> absolute path then path
      else
        let strip = (\<lambda>n. let s = drop n path in if s = [] then ''/'' else s)
        in if g_rootfs_len c \<noteq> 0 \<and> a_under path (g_rootfs c) then strip (g_rootfs_len c)
           else if g_rootfs_canon c \<noteq> [] \<and> a_under path (g_rootfs_canon c) then strip (length (g_rootfs_canon c))
           else path)"

definition PRELOAD_PBUF :: nat where "PRELOAD_PBUF = 2304"

section \<open>Socket addresses\<close>

text \<open>An address is its family and the bytes that follow it.\<close>

type_synonym sockaddr = "int \<times> string"

definition AF_UNIX_FAMILY :: int where "AF_UNIX_FAMILY = 1"
definition AF_NETLINK :: int where "AF_NETLINK = 16"
definition SUN_PATH :: nat where "SUN_PATH = 108"

definition sun_path_of :: "string \<Rightarrow> string" where
  "sun_path_of bytes = takeWhile (\<lambda>ch. ch \<noteq> nul) (take SUN_PATH bytes)"

definition singleton_suffix :: string where "singleton_suffix = ''/SingletonSocket''"
definition singleton_abstract :: string where "singleton_abstract = nul # ''alr-chromium-process-singleton''"

definition alr_cr_singleton_xform :: "preload \<Rightarrow> sockaddr option \<Rightarrow> sockaddr option" where
  "alr_cr_singleton_xform c addr =
     (case addr of
        None \<Rightarrow> None
      | Some (family, bytes) \<Rightarrow>
          if family \<noteq> AF_UNIX_FAMILY \<or> g_rootfs_len c = 0 \<or> bytes = [] \<or> hd bytes = nul then None
          else
            let path = sun_path_of bytes
            in if length path < length singleton_suffix \<or> drop (length path - length singleton_suffix) path \<noteq> singleton_suffix then None
               else Some (AF_UNIX_FAMILY, singleton_abstract))"

definition x11_prefix :: string where "x11_prefix = ''/tmp/.X11-unix/''"

definition alr_x11_sock_xform :: "preload \<Rightarrow> sockaddr option \<Rightarrow> sockaddr option" where
  "alr_x11_sock_xform c addr =
     (case addr of
        None \<Rightarrow> None
      | Some (family, bytes) \<Rightarrow>
          if family \<noteq> AF_UNIX_FAMILY \<or> g_rootfs_len c = 0 \<or> bytes = [] \<or> hd bytes = nul then None
          else
            let path = sun_path_of bytes
            in if length path \<le> length x11_prefix \<or> take (length x11_prefix) path \<noteq> x11_prefix then None
               else if SUN_PATH < g_rootfs_len c + length path + 1 then None
               else Some (AF_UNIX_FAMILY, take (g_rootfs_len c) (g_rootfs c) @ path @ [nul]))"

section \<open>The rewrite and its inverse\<close>

definition wf_preload :: "preload \<Rightarrow> bool" where
  "wf_preload c \<longleftrightarrow> (g_rootfs_len c = 0 \<or> g_rootfs_len c = length (g_rootfs c) \<and> 1 < length (g_rootfs c) \<and> hd (g_rootfs c) = slash) \<and>
     length (g_rootfs c) < GBUF \<and> length (g_rootfs_canon c) < GBUF \<and>
     (g_rootfs_canon c \<noteq> [] \<longrightarrow> g_rootfs_len c \<noteq> 0 \<and> hd (g_rootfs_canon c) = slash)"

lemma a_under_iff: "a_under p d \<longleftrightarrow> path_below p d"
proof
  assume u: "a_under p d"
  then have p: "p = d @ drop (length d) p" by (metis a_under_def append_take_drop_id)
  show "path_below p d"
  proof (cases "drop (length d) p")
    case Nil
    with p show ?thesis by (simp add: path_below_def)
  next
    case (Cons x xs)
    with p u have "x = slash" by (metis a_under_def append_Nil2 length_append_singleton nth_append_length same_append_eq append_eq_append_conv list.distinct(1))
    with Cons p show ?thesis by (metis path_below_def)
  qed
next
  assume "path_below p d"
  then show "a_under p d" by (auto simp: path_below_def a_under_def)
qed

lemma trim_len_le: "trim_len r n \<le> n"
  by (induction n) auto

lemma trim_len_pos: "0 < n \<Longrightarrow> 0 < trim_len r n"
  by (induction n) auto

lemma rootfs_of_shape: "rootfs_of r = [] \<or> absolute (rootfs_of r)" "length (rootfs_of r) < GBUF"
proof -
  show "length (rootfs_of r) < GBUF" by (auto simp: rootfs_of_def Let_def GBUF_def split: option.splits)
  show "rootfs_of r = [] \<or> absolute (rootfs_of r)"
  proof (cases "\<exists>s. r = Some s \<and> s \<noteq> [] \<and> hd s = slash")
    case True
    then obtain s where s: "r = Some s" "s \<noteq> []" "hd s = slash" by blast
    then have "0 < (if GBUF \<le> trim_len s (length s) then GBUF - 1 else trim_len s (length s))"
      using trim_len_pos [of "length s" s] by (simp add: GBUF_def)
    with s show ?thesis by (simp add: rootfs_of_def Let_def absolute_def del: One_nat_def)
  qed (auto simp: rootfs_of_def split: option.splits)
qed

lemma alr_init_wf: "wf_preload (alr_init env)"
proof -
  let ?root = "rootfs_of (env ''ALR_ROOTFS'')"
  have root: "?root = [] \<or> ?root = ''/'' \<or> 1 < length ?root \<and> hd ?root = slash"
    using rootfs_of_shape(1) [of "env ''ALR_ROOTFS''"] by (cases ?root; cases "tl ?root") (auto simp: absolute_def)
  have "length (rootfs_canon_of ?root n) < GBUF" for n by (simp add: rootfs_canon_of_def Let_def GBUF_def)
  moreover have "rootfs_canon_of ?root n \<noteq> [] \<Longrightarrow> n \<noteq> 0 \<and> hd (rootfs_canon_of ?root n) = slash" for n
    by (simp add: rootfs_canon_of_def Let_def canon_data_def split: if_splits)
  ultimately show ?thesis
    using root rootfs_of_shape(2) [of "env ''ALR_ROOTFS''"] by (auto simp: wf_preload_def alr_init_def Let_def)
qed

definition rewritable :: "preload \<Rightarrow> nat \<Rightarrow> string \<Rightarrow> bool" where
  "rewritable c buflen p \<longleftrightarrow> g_rootfs_len c \<noteq> 0 \<and> absolute p \<and> \<not> kernel_fs p \<and> \<not> already_host c p \<and>
     g_rootfs_len c + length p + 1 \<le> buflen"

lemma rw_rewritable: "wf_preload c \<Longrightarrow> rewritable c buflen p \<Longrightarrow> rw c 0 (Some p) buflen = Some (g_rootfs c @ p)"
  by (auto simp: rw_def rewritable_def wf_preload_def)

lemma rw_unchanged: "suppress \<noteq> 0 \<or> \<not> rewritable c buflen p \<Longrightarrow> rw c suppress (Some p) buflen = Some p"
  by (auto simp: rw_def rewritable_def)

lemma below_append: "absolute p \<Longrightarrow> path_below (d @ p) d"
  by (cases p) (auto simp: path_below_def absolute_def)

text \<open>A guest path that is rewritten becomes the same path below the root; the result is not rewritten again, and the inverse strips it.\<close>

lemma preload_rewrite_roundtrip:
  assumes "wf_preload c" and "rewritable c buflen p" and "h = g_rootfs c @ p"
  shows "rw c 0 (Some p) buflen = Some h \<and> length h < buflen \<and> path_below h (g_rootfs c) \<and> rw c 0 (Some h) buflen' = Some h \<and>
    guest_canon c h = p \<and> rw c 0 (Some (guest_canon c h)) buflen = Some h"
proof -
  have len: "g_rootfs_len c = length (g_rootfs c)" "hd (g_rootfs c) = slash" "g_rootfs c \<noteq> []" "g_rootfs_len c \<noteq> 0"
    using assms(1,2) by (auto simp: wf_preload_def rewritable_def)
  have p: "absolute p" "p \<noteq> []" using assms(2) by (auto simp: rewritable_def absolute_def)
  have below: "path_below h (g_rootfs c)" using below_append [OF p(1)] assms(3) by simp
  then have "already_host c h" by (simp add: already_host_def a_under_iff)
  then have again: "rw c 0 (Some h) buflen' = Some h" by (intro rw_unchanged) (simp add: rewritable_def)
  have canon: "guest_canon c h = p"
    using below len p assms(3) by (simp add: guest_canon_def a_under_iff absolute_def Let_def)
  show ?thesis
    using rw_rewritable [OF assms(1,2)] assms(2,3) below again canon len by (simp add: rewritable_def)
qed

text \<open>The interface of a guest view: a rewrite of guest paths to host paths, on its domain, and the way back.\<close>

locale guest_view =
  fixes dom_of :: "'c \<Rightarrow> string \<Rightarrow> bool" and to_host :: "'c \<Rightarrow> string \<Rightarrow> string" and to_guest :: "'c \<Rightarrow> string \<Rightarrow> string"
  assumes guest_of_host: "dom_of c p \<Longrightarrow> to_guest c (to_host c p) = p"
    and host_stable: "dom_of c p \<Longrightarrow> to_host c (to_host c p) = to_host c p"
begin

lemma host_of_guest: "dom_of c p \<Longrightarrow> to_host c (to_guest c (to_host c p)) = to_host c p"
  by (simp add: guest_of_host)

lemma distinct_files: "dom_of c p \<Longrightarrow> dom_of c q \<Longrightarrow> to_host c p = to_host c q \<Longrightarrow> p = q"
  by (metis guest_of_host)

lemma guest_not_host: "dom_of c p \<Longrightarrow> to_host c p \<noteq> p \<Longrightarrow> \<not> dom_of c (to_host c p)"
  by (metis guest_of_host host_stable)

end

definition preload_host :: "preload \<Rightarrow> string \<Rightarrow> string" where
  "preload_host c p = the (rw c 0 (Some p) PRELOAD_PBUF)"

interpretation preload_view: guest_view "\<lambda>c p. wf_preload c \<and> rewritable c PRELOAD_PBUF p" preload_host guest_canon
  using preload_rewrite_roundtrip [OF _ _ refl] by unfold_locales (auto simp: preload_host_def)

lemma preload_distinct_files:
  "wf_preload c \<Longrightarrow> rewritable c PRELOAD_PBUF p \<Longrightarrow> rewritable c PRELOAD_PBUF q \<Longrightarrow>
   rw c 0 (Some p) PRELOAD_PBUF = rw c 0 (Some q) PRELOAD_PBUF \<Longrightarrow> p = q"
  using preload_view.distinct_files [of c p q] by (simp add: preload_host_def)

definition sample_preload :: preload where
  "sample_preload = alr_init (\<lambda>n. if n = ''ALR_ROOTFS'' then Some ''/data/user/0/app/rootfs/'' else None)"

lemma sample_preload_shape:
  "g_rootfs sample_preload = ''/data/user/0/app/rootfs''" "g_rootfs_len sample_preload = 23"
  "g_rootfs_canon sample_preload = ''/data/data/app/rootfs''" "g_pcgate sample_preload"
  by (code_simp)+

text \<open>The rewrite is a prefix and resolves no dot-dot component: a path may leave the root.\<close>

lemma rewrite_keeps_dotdot:
  "rw sample_preload 0 (Some ''/../../secret'') PRELOAD_PBUF = Some ''/data/user/0/app/rootfs/../../secret''"
  "normal_form ''/data/user/0/app/rootfs/../../secret'' = ''/data/user/0/secret''"
  "\<not> path_below ''/data/user/0/secret'' (g_rootfs sample_preload)"
  by (code_simp)+

section \<open>Socket names\<close>

lemma sun_path_text: "nul \<notin> set p \<Longrightarrow> length p < SUN_PATH \<Longrightarrow> sun_path_of (p @ [nul]) = p"
  using takeWhile_append_delim [of nul p "[]"] by (simp add: sun_path_of_def)

text \<open>The server and the client of a display agree: the address of a display socket lands below the root, within the kernel's limit.\<close>

lemma x11_address:
  assumes "alr_x11_sock_xform c (Some (f, bytes)) = Some (f', bytes')"
  shows "f' = AF_UNIX_FAMILY \<and> length bytes' \<le> SUN_PATH \<and> bytes' = take (g_rootfs_len c) (g_rootfs c) @ sun_path_of bytes @ [nul] \<and>
    take (length x11_prefix) (sun_path_of bytes) = x11_prefix"
  using assms by (auto simp: alr_x11_sock_xform_def Let_def split: if_splits)

end
