(* ===== verification/Alr_Pts.thy ===== *)
theory Alr_Pts
  imports Alr_Words
begin

text \<open>
  The terminal emulation without system calls, \<^verbatim>\<open>alr_interpose/alr_pts.c\<close> and its header: the default terminal settings,
  the classification of device paths, the name of the variable that hands a descriptor to a child, and the dispatch of terminal
  requests.  Settings cross the request boundary as the bytes of the kernel's structures.  An argument is the caller's buffer,
  \<^const>\<open>None\<close> for the null pointer; a copy that does not fit the buffer is the outcome \<^const>\<open>None\<close>.
\<close>

section \<open>State\<close>

definition ALR_KNCCS :: nat where "ALR_KNCCS = 19"
definition ALR_PTS_MAX :: nat where "ALR_PTS_MAX = 64"

record ktermios2 =
  c_iflag :: u32
  c_oflag :: u32
  c_cflag :: u32
  c_lflag :: u32
  c_line :: byte
  c_cc :: "byte list"
  c_ispeed :: u32
  c_ospeed :: u32

record winsize =
  ws_row :: u16
  ws_col :: u16
  ws_xpixel :: u16
  ws_ypixel :: u16

record alr_pty =
  pty_used :: bool
  pty_ptn :: int
  pty_master_fd :: int
  pty_slave_fd :: int
  pty_locked :: bool
  pty_slave_opened :: bool
  pty_pgrp :: u32
  pty_sid :: u32
  pty_tio :: ktermios2
  pty_win :: winsize

definition ctrl :: "nat \<Rightarrow> byte" where
  "ctrl c = of_nat c AND 0x1F"

definition alr_pty_init_termios :: ktermios2 where
  "alr_pty_init_termios = \<lparr>
     c_iflag = 0x100 OR 0x400 OR 0x2 OR 0x2000,
     c_oflag = 0x1 OR 0x4,
     c_cflag = 0x30 OR 0x80 OR 0x400 OR 0xF,
     c_lflag = 0x1 OR 0x2 OR 0x8 OR 0x10 OR 0x20 OR 0x200 OR 0x8000,
     c_line = 0,
     c_cc = (replicate ALR_KNCCS 0)[0 := ctrl 67, 1 := ctrl 92, 2 := 0x7F, 3 := ctrl 85, 4 := ctrl 68, 5 := 0, 6 := 1, 8 := ctrl 81,
       9 := ctrl 83, 10 := ctrl 90, 11 := 0, 12 := ctrl 82, 14 := ctrl 87, 15 := ctrl 86, 16 := 0],
     c_ispeed = 38400, c_ospeed = 38400\<rparr>"

definition alr_pty_init_winsize :: winsize where
  "alr_pty_init_winsize = \<lparr>ws_row = 24, ws_col = 80, ws_xpixel = 0, ws_ypixel = 0\<rparr>"

section \<open>Paths and names\<close>

definition alr_pts_is_ptmx_path :: "string option \<Rightarrow> bool" where
  "alr_pts_is_ptmx_path path = (case path of None \<Rightarrow> False | Some p \<Rightarrow> p = ''/dev/ptmx'' \<or> p = ''/dev/pts/ptmx'')"

definition alr_pts_is_ptsdir_path :: "string option \<Rightarrow> bool" where
  "alr_pts_is_ptsdir_path path = (case path of None \<Rightarrow> False | Some p \<Rightarrow> p = ''/dev/pts'' \<or> p = ''/dev/pts/'')"

definition alr_pts_is_tty_path :: "string option \<Rightarrow> bool" where
  "alr_pts_is_tty_path path = (case path of None \<Rightarrow> False | Some p \<Rightarrow> p = ''/dev/tty'')"

definition is_dec :: "char \<Rightarrow> bool" where
  "is_dec c \<longleftrightarrow> CHR ''0'' \<le> c \<and> c \<le> CHR ''9''"

definition dec_value :: "char \<Rightarrow> nat" where
  "dec_value c = of_char c - 48"

text \<open>The loop over the digits; a number above a million is refused as soon as it is reached.\<close>

fun parse_number :: "string \<Rightarrow> nat \<Rightarrow> nat option" where
  "parse_number [] n = Some n"
| "parse_number (c # cs) n =
     (if \<not> is_dec c then None
      else let n' = n * 10 + dec_value c in if 1000000 < n' then None else parse_number cs n')"

definition pts_prefix :: string where "pts_prefix = ''/dev/pts/''"

definition alr_pts_parse_slave_path :: "string option \<Rightarrow> int" where
  "alr_pts_parse_slave_path path =
     (case path of
        None \<Rightarrow> - 1
      | Some p \<Rightarrow>
          if take (length pts_prefix) p \<noteq> pts_prefix then - 1
          else
            let d = drop (length pts_prefix) p
            in if d = [] \<or> \<not> is_dec (hd d) then - 1 else (case parse_number d 0 of None \<Rightarrow> - 1 | Some n \<Rightarrow> int n))"

text \<open>The decimal digits of a number, last one first, in a buffer of \<open>k\<close> characters.\<close>

fun rev_dec :: "nat \<Rightarrow> nat \<Rightarrow> string" where
  "rev_dec 0 u = []"
| "rev_dec (Suc k) u = (if u = 0 then [] else digit_char (u mod 10) # rev_dec k (u div 10))"

definition digits_of :: "nat \<Rightarrow> nat \<Rightarrow> string" where
  "digits_of k u = (if u = 0 then ''0'' else rev (rev_dec k u))"

definition slave_env_prefix :: string where "slave_env_prefix = ''ALR_PTY_SLAVE_''"

definition alr_pts_slave_env_name :: "int \<Rightarrow> nat option \<Rightarrow> string option" where
  "alr_pts_slave_env_name ptn buf =
     (case buf of
        None \<Rightarrow> None
      | Some buflen \<Rightarrow>
          if ptn < 0 then None
          else
            let dig = digits_of 16 (nat ptn)
            in if buflen < length slave_env_prefix + length dig + 1 then None else Some (slave_env_prefix @ dig))"

section \<open>Requests\<close>

definition termios_bytes :: "ktermios2 \<Rightarrow> byte list" where
  "termios_bytes t = le32 (c_iflag t) @ le32 (c_oflag t) @ le32 (c_cflag t) @ le32 (c_lflag t) @ [c_line t] @ c_cc t"

definition termios2_bytes :: "ktermios2 \<Rightarrow> byte list" where
  "termios2_bytes t = termios_bytes t @ le32 (c_ispeed t) @ le32 (c_ospeed t)"

definition word_field :: "byte list \<Rightarrow> nat \<Rightarrow> u32" where
  "word_field bs i = of_le32 (take 4 (drop i bs))"

definition set_termios :: "byte list \<Rightarrow> ktermios2 \<Rightarrow> ktermios2" where
  "set_termios bs t = t\<lparr>c_iflag := word_field bs 0, c_oflag := word_field bs 4, c_cflag := word_field bs 8, c_lflag := word_field bs 12,
     c_line := bs ! 16, c_cc := take ALR_KNCCS (drop 17 bs)\<rparr>"

definition set_termios2 :: "byte list \<Rightarrow> ktermios2 \<Rightarrow> ktermios2" where
  "set_termios2 bs t = (set_termios bs t)\<lparr>c_ispeed := word_field bs 36, c_ospeed := word_field bs 40\<rparr>"

definition winsize_bytes :: "winsize \<Rightarrow> byte list" where
  "winsize_bytes w = le16 (ws_row w) @ le16 (ws_col w) @ le16 (ws_xpixel w) @ le16 (ws_ypixel w)"

definition half_field :: "byte list \<Rightarrow> nat \<Rightarrow> u16" where
  "half_field bs i = of_le16 (take 2 (drop i bs))"

definition winsize_of :: "byte list \<Rightarrow> winsize" where
  "winsize_of bs = \<lparr>ws_row = half_field bs 0, ws_col = half_field bs 2, ws_xpixel = half_field bs 4, ws_ypixel = half_field bs 6\<rparr>"

type_synonym ioctl_result = "(int \<times> alr_pty \<times> byte list option) option"

definition EINVAL :: int where "EINVAL = 22"

definition copy_out :: "byte list \<Rightarrow> alr_pty \<Rightarrow> byte list option \<Rightarrow> ioctl_result" where
  "copy_out bs pty arg =
     (case arg of
        None \<Rightarrow> Some (- EINVAL, pty, None)
      | Some buf \<Rightarrow> if length buf < length bs then None else Some (0, pty, Some (bs @ drop (length bs) buf)))"

definition copy_in :: "nat \<Rightarrow> (byte list \<Rightarrow> alr_pty) \<Rightarrow> alr_pty \<Rightarrow> byte list option \<Rightarrow> ioctl_result" where
  "copy_in n f pty arg =
     (case arg of
        None \<Rightarrow> Some (- EINVAL, pty, None)
      | Some buf \<Rightarrow> if length buf < n then None else Some (0, f (take n buf), arg))"

definition K_TCGETS :: nat where "K_TCGETS = 0x5401"
definition K_TCSETS :: nat where "K_TCSETS = 0x5402"
definition K_TCSETSW :: nat where "K_TCSETSW = 0x5403"
definition K_TCSETSF :: nat where "K_TCSETSF = 0x5404"
definition K_TIOCSCTTY :: nat where "K_TIOCSCTTY = 0x540E"
definition K_TIOCGPGRP :: nat where "K_TIOCGPGRP = 0x540F"
definition K_TIOCSPGRP :: nat where "K_TIOCSPGRP = 0x5410"
definition K_TIOCGWINSZ :: nat where "K_TIOCGWINSZ = 0x5413"
definition K_TIOCSWINSZ :: nat where "K_TIOCSWINSZ = 0x5414"
definition K_TIOCNOTTY :: nat where "K_TIOCNOTTY = 0x5422"
definition K_TIOCGSID :: nat where "K_TIOCGSID = 0x5429"
definition K_TIOCGPTN :: nat where "K_TIOCGPTN = 0x80045430"
definition K_TIOCSPTLCK :: nat where "K_TIOCSPTLCK = 0x40045431"
definition K_TIOCGPTPEER :: nat where "K_TIOCGPTPEER = 0x5441"
definition ALR_TCGETS2 :: nat where "ALR_TCGETS2 = 0x802C542A"
definition ALR_TCSETS2 :: nat where "ALR_TCSETS2 = 0x402C542B"
definition ALR_TCSETSW2 :: nat where "ALR_TCSETSW2 = 0x402C542C"
definition ALR_TCSETSF2 :: nat where "ALR_TCSETSF2 = 0x402C542D"
definition ALR_PTS_IOCTL_PASS :: int where "ALR_PTS_IOCTL_PASS = 0x7FFFFFFF"
definition ALR_PTS_IOCTL_GPTPEER :: int where "ALR_PTS_IOCTL_GPTPEER = 0x7FFFFFFE"

lemmas pts_requests = K_TCGETS_def K_TCSETS_def K_TCSETSW_def K_TCSETSF_def K_TIOCSCTTY_def K_TIOCGPGRP_def K_TIOCSPGRP_def
  K_TIOCGWINSZ_def K_TIOCSWINSZ_def K_TIOCNOTTY_def K_TIOCGSID_def K_TIOCGPTN_def K_TIOCSPTLCK_def K_TIOCGPTPEER_def
  ALR_TCGETS2_def ALR_TCSETS2_def ALR_TCSETSW2_def ALR_TCSETSF2_def

definition alr_pts_emulate_ioctl :: "alr_pty \<Rightarrow> bool \<Rightarrow> nat \<Rightarrow> byte list option \<Rightarrow> ioctl_result" where
  "alr_pts_emulate_ioctl pty is_master request arg =
     (if \<not> pty_used pty then Some (ALR_PTS_IOCTL_PASS, pty, arg)
      else if request = K_TIOCGPTN then
        (if \<not> is_master then Some (- EINVAL, pty, arg) else copy_out (le32 (word_of_int (pty_ptn pty))) pty arg)
      else if request = K_TIOCSPTLCK then
        (if \<not> is_master then Some (- EINVAL, pty, arg)
         else copy_in 4 (\<lambda>bs. pty\<lparr>pty_locked := of_le32 bs \<noteq> 0\<rparr>) pty arg)
      else if request = K_TIOCGPTPEER then
        (if \<not> is_master then Some (- EINVAL, pty, arg) else Some (ALR_PTS_IOCTL_GPTPEER, pty, arg))
      else if request = K_TIOCGWINSZ then copy_out (winsize_bytes (pty_win pty)) pty arg
      else if request = K_TIOCSWINSZ then copy_in 8 (\<lambda>bs. pty\<lparr>pty_win := winsize_of bs\<rparr>) pty arg
      else if request = K_TCGETS then copy_out (termios_bytes (pty_tio pty)) pty arg
      else if request = K_TCSETS \<or> request = K_TCSETSW \<or> request = K_TCSETSF then
        copy_in 36 (\<lambda>bs. pty\<lparr>pty_tio := set_termios bs (pty_tio pty)\<rparr>) pty arg
      else if request = ALR_TCGETS2 then copy_out (termios2_bytes (pty_tio pty)) pty arg
      else if request = ALR_TCSETS2 \<or> request = ALR_TCSETSW2 \<or> request = ALR_TCSETSF2 then
        copy_in 44 (\<lambda>bs. pty\<lparr>pty_tio := set_termios2 bs (pty_tio pty)\<rparr>) pty arg
      else if request = K_TIOCSCTTY then Some (0, pty, arg)
      else if request = K_TIOCSPGRP then copy_in 4 (\<lambda>bs. pty\<lparr>pty_pgrp := of_le32 bs\<rparr>) pty arg
      else if request = K_TIOCGPGRP then copy_out (le32 (pty_pgrp pty)) pty arg
      else if request = K_TIOCGSID then copy_out (le32 (pty_sid pty)) pty arg
      else if request = K_TIOCNOTTY then Some (0, pty, arg)
      else Some (ALR_PTS_IOCTL_PASS, pty, arg))"

section \<open>Names\<close>

lemma rev_dec_digits: "0 < u \<Longrightarrow> u < 10 ^ k \<Longrightarrow> rev (rev_dec k u) = dec_nat u"
proof (induction k arbitrary: u)
  case (Suc k)
  show ?case
  proof (cases "u < 10")
    case True
    with Suc.prems show ?thesis by (cases k) (simp_all add: dec_nat_def base_digits.simps)
  next
    case False
    with Suc have "rev (rev_dec k (u div 10)) = dec_nat (u div 10)" by (simp add: less_mult_imp_div_less mult.commute)
    then show ?thesis using False by (simp add: dec_nat_def base_digits.simps [of 10 u])
  qed
qed simp

lemma digit_char_zero: "digit_char 0 = CHR ''0''"
  by (code_simp)

lemma digits_of_dec: "u < 10 ^ k \<Longrightarrow> digits_of k u = dec_nat u"
  using rev_dec_digits [of u k] by (cases "u = 0") (simp_all add: digits_of_def dec_nat_def base_digits.simps digit_char_zero)

lemma digit_char_dec: "d < 10 \<Longrightarrow> is_dec (digit_char d) \<and> dec_value (digit_char d) = d"
  by (simp add: is_dec_def dec_value_def digit_char_def less_eq_char_def)

text \<open>The number that a run of digits denotes.\<close>

lemma foldl_digits_ge: "m \<le> foldl (\<lambda>n d. n * 10 + d) m ds" for m :: nat
proof (induction ds arbitrary: m)
  case (Cons d ds)
  from Cons [of "m * 10 + d"] show ?case by simp
qed simp

lemma parse_number_run:
  assumes "list_all (\<lambda>d. d < 10) ds" and "foldl (\<lambda>n d. n * 10 + d) n ds \<le> 1000000"
  shows "parse_number (map digit_char ds) n = Some (foldl (\<lambda>n d. n * 10 + d) n ds)"
  using assms
proof (induction ds arbitrary: n)
  case (Cons d ds)
  with foldl_digits_ge [of "n * 10 + d" ds] digit_char_dec [of d] show ?case by (simp add: Let_def)
qed simp

lemma base_digits_value: "foldl (\<lambda>n d. n * 10 + d) 0 (base_digits 10 u) = u"
proof (induction "10 :: nat" u rule: base_digits.induct)
  case (1 u)
  then show ?case by (cases "u < 10") (simp_all add: base_digits.simps [of 10 u])
qed

lemma parse_dec_nat: "u \<le> 1000000 \<Longrightarrow> parse_number (dec_nat u) 0 = Some u"
  using parse_number_run [of "base_digits 10 u" 0] base_digits_bound [of 10 _ u]
  by (auto simp: dec_nat_def base_digits_value list_all_iff)

lemma dec_nat_start: "dec_nat u \<noteq> []" "is_dec (hd (dec_nat u))"
proof -
  have "base_digits 10 u \<noteq> []" by (subst base_digits.simps) simp
  then show "dec_nat u \<noteq> []" "is_dec (hd (dec_nat u))"
    using base_digits_bound [of 10 "hd (base_digits 10 u)" u] digit_char_dec by (simp_all add: dec_nat_def hd_map)
qed

lemma parse_slave_path_parts:
  "alr_pts_parse_slave_path (Some (pts_prefix @ d)) =
     (if d = [] \<or> \<not> is_dec (hd d) then - 1 else (case parse_number d 0 of None \<Rightarrow> - 1 | Some n \<Rightarrow> int n))"
  by (simp add: alr_pts_parse_slave_path_def Let_def)

lemma parse_slave_name: "u \<le> 1000000 \<Longrightarrow> alr_pts_parse_slave_path (Some (pts_prefix @ dec_nat u)) = int u"
  by (simp only: parse_slave_path_parts parse_dec_nat dec_nat_start option.case if_False simp_thms)

lemma dec_nat_inj: "dec_nat a = dec_nat b \<Longrightarrow> a \<le> 1000000 \<Longrightarrow> b \<le> 1000000 \<Longrightarrow> a = b"
  by (metis parse_dec_nat option.inject)

lemma slave_env_name:
  "0 \<le> ptn \<Longrightarrow> ptn \<le> 1000000 \<Longrightarrow> 32 \<le> buflen \<Longrightarrow>
   alr_pts_slave_env_name ptn (Some buflen) = Some (slave_env_prefix @ dec_nat (nat ptn))"
proof -
  assume a: "0 \<le> ptn" "ptn \<le> 1000000" "32 \<le> buflen"
  then have d: "digits_of 16 (nat ptn) = dec_nat (nat ptn)" by (simp add: digits_of_dec)
  have "length (rev_dec k u) \<le> k" for k u by (induction k u rule: rev_dec.induct) auto
  then have "length (digits_of 16 (nat ptn)) \<le> 16" by (simp add: digits_of_def)
  moreover have "length slave_env_prefix = 14" by (simp add: slave_env_prefix_def)
  ultimately show ?thesis using a d by (simp add: alr_pts_slave_env_name_def Let_def)
qed

section \<open>Settings come back byte for byte\<close>

lemma list4: "length xs = 4 \<Longrightarrow> \<exists>a b c d. xs = [a, b, c, d]"
  by (auto simp: numeral_eq_Suc length_Suc_conv)

lemma le32_of_le32: "length xs = 4 \<Longrightarrow> le32 (of_le32 xs) = xs"
proof -
  assume "length xs = 4"
  then obtain a b c d where xs: "xs = [a, b, c, d]" using list4 by blast
  show ?thesis
    by (simp add: xs le32_def, intro conjI bit_word_eqI)
       (auto simp: bit_or_iff bit_push_bit_iff bit_ucast_iff bit_drop_bit_eq dest: bit_imp_le_length)
qed

lemma le16_of_le16: "length xs = 2 \<Longrightarrow> le16 (of_le16 xs) = xs"
proof -
  assume "length xs = 2"
  then obtain a b where xs: "xs = [a, b]" by (auto simp: numeral_eq_Suc length_Suc_conv)
  show ?thesis
    by (simp add: xs le16_def, intro conjI bit_word_eqI)
       (auto simp: bit_or_iff bit_push_bit_iff bit_ucast_iff bit_drop_bit_eq dest: bit_imp_le_length)
qed

lemma word_field_bytes: "i + 4 \<le> length bs \<Longrightarrow> le32 (word_field bs i) = take 4 (drop i bs)"
  by (simp add: word_field_def le32_of_le32)

lemma half_field_bytes: "i + 2 \<le> length bs \<Longrightarrow> le16 (half_field bs i) = take 2 (drop i bs)"
  by (simp add: half_field_def le16_of_le16)

lemma take_then_drop: "j = n + i \<Longrightarrow> take n (drop i bs) @ drop j bs = drop i bs"
  by (metis append_take_drop_id drop_drop)

lemma termios_bytes_set: "length bs = 36 \<Longrightarrow> termios_bytes (set_termios bs t) = bs"
proof -
  assume l: "length bs = 36"
  have b: "[bs ! 16] = take 1 (drop 16 bs)" using l by (simp add: take_Suc_conv_app_nth hd_drop_conv_nth take_Suc)
  have "termios_bytes (set_termios bs t) =
      take 4 bs @ take 4 (drop 4 bs) @ take 4 (drop 8 bs) @ take 4 (drop 12 bs) @
      take 1 (drop 16 bs) @ take 19 (drop 17 bs)"
    using l b by (simp add: termios_bytes_def set_termios_def word_field_bytes ALR_KNCCS_def)
  also have "\<dots> = bs" using l by (simp add: take_then_drop)
  finally show ?thesis .
qed

lemma termios2_bytes_set: "length bs = 44 \<Longrightarrow> termios2_bytes (set_termios2 bs t) = bs"
proof -
  assume l: "length bs = 44"
  have f: "termios_bytes (set_termios bs t) = termios_bytes (set_termios (take 36 bs) t)"
    using l by (simp add: termios_bytes_def set_termios_def word_field_def ALR_KNCCS_def drop_take min_def)
  have "termios_bytes (set_termios2 bs t) = take 36 bs"
    using l f termios_bytes_set [of "take 36 bs" t] by (simp add: termios_bytes_def set_termios2_def)
  then have "termios2_bytes (set_termios2 bs t) = take 36 bs @ take 4 (drop 36 bs) @ take 4 (drop 40 bs)"
    using l by (simp add: termios2_bytes_def set_termios2_def word_field_bytes)
  also have "\<dots> = bs" using l by (simp add: take_then_drop)
  finally show ?thesis .
qed

lemma winsize_bytes_of: "length bs = 8 \<Longrightarrow> winsize_bytes (winsize_of bs) = bs"
proof -
  assume l: "length bs = 8"
  have "winsize_bytes (winsize_of bs) =
      take 2 bs @ take 2 (drop 2 bs) @ take 2 (drop 4 bs) @ take 2 (drop 6 bs)"
    using l by (simp add: winsize_bytes_def winsize_of_def half_field_bytes)
  also have "\<dots> = bs" using l by (simp add: take_then_drop)
  finally show ?thesis .
qed

section \<open>Every request\<close>

definition wf_pty :: "alr_pty \<Rightarrow> bool" where
  "wf_pty pty \<longleftrightarrow> length (c_cc (pty_tio pty)) = ALR_KNCCS"

text \<open>The bytes of the caller's buffer that a request reads or writes.\<close>

definition request_size :: "nat \<Rightarrow> nat" where
  "request_size request =
     (if request \<in> {K_TIOCGPTN, K_TIOCSPTLCK, K_TIOCSPGRP, K_TIOCGPGRP, K_TIOCGSID} then 4
      else if request \<in> {K_TIOCGWINSZ, K_TIOCSWINSZ} then 8
      else if request \<in> {K_TCGETS, K_TCSETS, K_TCSETSW, K_TCSETSF} then 36
      else if request \<in> {ALR_TCGETS2, ALR_TCSETS2, ALR_TCSETSW2, ALR_TCSETSF2} then 44
      else 0)"

lemma length_settings:
  "length (winsize_bytes w) = 8"
  "wf_pty pty \<Longrightarrow> length (termios_bytes (pty_tio pty)) = 36"
  "wf_pty pty \<Longrightarrow> length (termios2_bytes (pty_tio pty)) = 44"
  by (simp_all add: winsize_bytes_def termios_bytes_def termios2_bytes_def wf_pty_def ALR_KNCCS_def)

definition fits :: "nat \<Rightarrow> byte list option \<Rightarrow> bool" where
  "fits n arg = (case arg of None \<Rightarrow> True | Some buf \<Rightarrow> n \<le> length buf)"

text \<open>An outcome that stays inside the buffer, keeps the settings well formed and returns one of the documented values.\<close>

definition sound_outcome :: "byte list option \<Rightarrow> ioctl_result \<Rightarrow> bool" where
  "sound_outcome arg res =
     (case res of
        None \<Rightarrow> False
      | Some (r, pty', arg') \<Rightarrow>
          wf_pty pty' \<and> r \<in> {0, - EINVAL, ALR_PTS_IOCTL_PASS, ALR_PTS_IOCTL_GPTPEER} \<and>
          map_option length arg' = map_option length arg)"

lemma sound_if: "(c \<Longrightarrow> sound_outcome arg a) \<Longrightarrow> (\<not> c \<Longrightarrow> sound_outcome arg b) \<Longrightarrow> sound_outcome arg (if c then a else b)"
  by simp

lemma sound_done:
  "wf_pty pty \<Longrightarrow> r \<in> {0, - EINVAL, ALR_PTS_IOCTL_PASS, ALR_PTS_IOCTL_GPTPEER} \<Longrightarrow> sound_outcome arg (Some (r, pty, arg))"
  by (simp add: sound_outcome_def)

lemma sound_copy_out: "wf_pty pty \<Longrightarrow> fits (length bs) arg \<Longrightarrow> sound_outcome arg (copy_out bs pty arg)"
  by (cases arg) (simp_all add: copy_out_def fits_def sound_outcome_def)

lemma sound_copy_in:
  "wf_pty pty \<Longrightarrow> (\<And>bs. length bs = n \<Longrightarrow> wf_pty (f bs)) \<Longrightarrow> fits n arg \<Longrightarrow> sound_outcome arg (copy_in n f pty arg)"
  by (cases arg) (simp_all add: copy_in_def fits_def sound_outcome_def)

lemma wf_pty_updates:
  "wf_pty (pty\<lparr>pty_locked := l\<rparr>) = wf_pty pty" "wf_pty (pty\<lparr>pty_win := w\<rparr>) = wf_pty pty"
  "wf_pty (pty\<lparr>pty_pgrp := g\<rparr>) = wf_pty pty"
  "36 \<le> length bs \<Longrightarrow> wf_pty (pty\<lparr>pty_tio := set_termios bs tio\<rparr>)"
  "36 \<le> length bs \<Longrightarrow> wf_pty (pty\<lparr>pty_tio := set_termios2 bs tio\<rparr>)"
  by (simp_all add: wf_pty_def set_termios_def set_termios2_def ALR_KNCCS_def)

lemma request_sizes:
  "request_size K_TIOCGPTN = 4" "request_size K_TIOCSPTLCK = 4" "request_size K_TIOCSPGRP = 4" "request_size K_TIOCGPGRP = 4"
  "request_size K_TIOCGSID = 4" "request_size K_TIOCGWINSZ = 8" "request_size K_TIOCSWINSZ = 8" "request_size K_TCGETS = 36"
  "request_size K_TCSETS = 36" "request_size K_TCSETSW = 36" "request_size K_TCSETSF = 36" "request_size ALR_TCGETS2 = 44"
  "request_size ALR_TCSETS2 = 44" "request_size ALR_TCSETSW2 = 44" "request_size ALR_TCSETSF2 = 44"
  by (simp_all add: request_size_def pts_requests)

lemma emulate_ioctl_sound:
  assumes "wf_pty pty" and "fits (request_size request) arg"
  shows "sound_outcome arg (alr_pts_emulate_ioctl pty is_master request arg)"
  unfolding alr_pts_emulate_ioctl_def
  by (intro sound_if sound_done sound_copy_out sound_copy_in)
    (use assms in \<open>auto simp: request_sizes wf_pty_updates length_settings\<close>)

lemma emulate_settings:
  assumes "pty_used pty"
  shows
    "alr_pts_emulate_ioctl pty m K_TCSETS arg = copy_in 36 (\<lambda>bs. pty\<lparr>pty_tio := set_termios bs (pty_tio pty)\<rparr>) pty arg"
    "alr_pts_emulate_ioctl pty m K_TCSETSW arg = copy_in 36 (\<lambda>bs. pty\<lparr>pty_tio := set_termios bs (pty_tio pty)\<rparr>) pty arg"
    "alr_pts_emulate_ioctl pty m K_TCSETSF arg = copy_in 36 (\<lambda>bs. pty\<lparr>pty_tio := set_termios bs (pty_tio pty)\<rparr>) pty arg"
    "alr_pts_emulate_ioctl pty m ALR_TCSETS2 arg = copy_in 44 (\<lambda>bs. pty\<lparr>pty_tio := set_termios2 bs (pty_tio pty)\<rparr>) pty arg"
    "alr_pts_emulate_ioctl pty m ALR_TCSETSW2 arg = copy_in 44 (\<lambda>bs. pty\<lparr>pty_tio := set_termios2 bs (pty_tio pty)\<rparr>) pty arg"
    "alr_pts_emulate_ioctl pty m ALR_TCSETSF2 arg = copy_in 44 (\<lambda>bs. pty\<lparr>pty_tio := set_termios2 bs (pty_tio pty)\<rparr>) pty arg"
    "alr_pts_emulate_ioctl pty m K_TIOCSWINSZ arg = copy_in 8 (\<lambda>bs. pty\<lparr>pty_win := winsize_of bs\<rparr>) pty arg"
    "alr_pts_emulate_ioctl pty m K_TIOCSPGRP arg = copy_in 4 (\<lambda>bs. pty\<lparr>pty_pgrp := of_le32 bs\<rparr>) pty arg"
    "alr_pts_emulate_ioctl pty m K_TCGETS arg = copy_out (termios_bytes (pty_tio pty)) pty arg"
    "alr_pts_emulate_ioctl pty m ALR_TCGETS2 arg = copy_out (termios2_bytes (pty_tio pty)) pty arg"
    "alr_pts_emulate_ioctl pty m K_TIOCGWINSZ arg = copy_out (winsize_bytes (pty_win pty)) pty arg"
    "alr_pts_emulate_ioctl pty m K_TIOCGPGRP arg = copy_out (le32 (pty_pgrp pty)) pty arg"
  using assms by (simp_all add: alr_pts_emulate_ioctl_def pts_requests)

lemma emulate_GPTN: "pty_used pty \<Longrightarrow> alr_pts_emulate_ioctl pty True K_TIOCGPTN arg = copy_out (le32 (word_of_int (pty_ptn pty))) pty arg"
  by (simp add: alr_pts_emulate_ioctl_def)

text \<open>Each request that stores a setting, with the request that reads it back.\<close>

definition setting_requests :: "(nat \<times> nat) list" where
  "setting_requests =
     [(K_TCSETS, K_TCGETS), (K_TCSETSW, K_TCGETS), (K_TCSETSF, K_TCGETS), (ALR_TCSETS2, ALR_TCGETS2), (ALR_TCSETSW2, ALR_TCGETS2),
      (ALR_TCSETSF2, ALR_TCGETS2), (K_TIOCSWINSZ, K_TIOCGWINSZ), (K_TIOCSPGRP, K_TIOCGPGRP)]"

definition same_pair :: "alr_pty \<Rightarrow> alr_pty \<Rightarrow> bool" where
  "same_pair p q \<longleftrightarrow> pty_used q = pty_used p \<and> pty_ptn q = pty_ptn p \<and> pty_master_fd q = pty_master_fd p \<and>
     pty_slave_fd q = pty_slave_fd p \<and> pty_locked q = pty_locked p \<and> pty_slave_opened q = pty_slave_opened p \<and> pty_sid q = pty_sid p"

lemma set_then_get:
  assumes "n \<le> length buf" and "n \<le> length out" and "\<And>bs. length bs = n \<Longrightarrow> pty_used (f bs) \<and> same_pair pty (f bs)"
    and "\<And>bs. length bs = n \<Longrightarrow> g (f bs) = bs"
  shows "\<exists>pty'. copy_in n f pty (Some buf) = Some (0, pty', Some buf) \<and> pty_used pty' \<and> same_pair pty pty' \<and>
    copy_out (g pty') pty' (Some out) = Some (0, pty', Some (take n buf @ drop n out))"
  using assms(1,2) assms(3) [of "take n buf"] assms(4) [of "take n buf"] by (simp add: copy_in_def copy_out_def)

lemma same_pair_updates:
  "same_pair p (p\<lparr>pty_tio := t\<rparr>)" "same_pair p (p\<lparr>pty_win := w\<rparr>)" "same_pair p (p\<lparr>pty_pgrp := g\<rparr>)"
  by (simp_all add: same_pair_def)

text \<open>C40. A setting that is stored is read back byte for byte.  For each of the eight requests that store terminal settings, the window size or
  the foreground group, with buffers that hold the structure, the request succeeds, changes nothing of the identity of the terminal, and
  the reading request, from either end, returns exactly the bytes that were stored and leaves the rest of the buffer.
\<close>
theorem emulate_set_get:
  assumes "pty_used pty" and "(st, gt) \<in> set setting_requests"
    and "request_size st \<le> length buf" and "request_size gt \<le> length out"
  shows "\<exists>pty'. alr_pts_emulate_ioctl pty m st (Some buf) = Some (0, pty', Some buf) \<and> pty_used pty' \<and> same_pair pty pty' \<and>
    alr_pts_emulate_ioctl pty' m' gt (Some out) =
      Some (0, pty', Some (take (request_size gt) buf @ drop (request_size gt) out))"
proof -
  have tio: "\<exists>pty'. copy_in 36 (\<lambda>bs. pty\<lparr>pty_tio := set_termios bs (pty_tio pty)\<rparr>) pty (Some buf) = Some (0, pty', Some buf) \<and>
      pty_used pty' \<and> same_pair pty pty' \<and>
      copy_out (termios_bytes (pty_tio pty')) pty' (Some out) = Some (0, pty', Some (take 36 buf @ drop 36 out))"
    if "36 \<le> length buf" "36 \<le> length out"
    using that assms(1) by (intro set_then_get) (simp_all add: same_pair_updates termios_bytes_set)
  have tio2: "\<exists>pty'. copy_in 44 (\<lambda>bs. pty\<lparr>pty_tio := set_termios2 bs (pty_tio pty)\<rparr>) pty (Some buf) = Some (0, pty', Some buf) \<and>
      pty_used pty' \<and> same_pair pty pty' \<and>
      copy_out (termios2_bytes (pty_tio pty')) pty' (Some out) = Some (0, pty', Some (take 44 buf @ drop 44 out))"
    if "44 \<le> length buf" "44 \<le> length out"
    using that assms(1) by (intro set_then_get) (simp_all add: same_pair_updates termios2_bytes_set)
  have win: "\<exists>pty'. copy_in 8 (\<lambda>bs. pty\<lparr>pty_win := winsize_of bs\<rparr>) pty (Some buf) = Some (0, pty', Some buf) \<and>
      pty_used pty' \<and> same_pair pty pty' \<and>
      copy_out (winsize_bytes (pty_win pty')) pty' (Some out) = Some (0, pty', Some (take 8 buf @ drop 8 out))"
    if "8 \<le> length buf" "8 \<le> length out"
    using that assms(1) by (intro set_then_get) (simp_all add: same_pair_updates winsize_bytes_of)
  have pg: "\<exists>pty'. copy_in 4 (\<lambda>bs. pty\<lparr>pty_pgrp := of_le32 bs\<rparr>) pty (Some buf) = Some (0, pty', Some buf) \<and>
      pty_used pty' \<and> same_pair pty pty' \<and>
      copy_out (le32 (pty_pgrp pty')) pty' (Some out) = Some (0, pty', Some (take 4 buf @ drop 4 out))"
    if "4 \<le> length buf" "4 \<le> length out"
    using that assms(1) by (intro set_then_get) (simp_all add: same_pair_updates le32_of_le32)
  show ?thesis
    using assms tio tio2 win pg
    by (simp only: setting_requests_def list.set insert_iff empty_iff prod.inject simp_thms,
        elim disjE conjE) (metis emulate_settings request_sizes)+
qed

text \<open>An instance: a fresh terminal and a window of 40 rows and 120 columns.\<close>

definition sample_pty :: alr_pty where
  "sample_pty = \<lparr>pty_used = True, pty_ptn = 0, pty_master_fd = 3, pty_slave_fd = 4, pty_locked = True, pty_slave_opened = False, pty_pgrp = 0,
     pty_sid = 0, pty_tio = alr_pty_init_termios, pty_win = alr_pty_init_winsize\<rparr>"

theorem emulate_set_get_witness:
  "\<exists>pty'. alr_pts_emulate_ioctl sample_pty True K_TIOCSWINSZ (Some [40, 0, 120, 0, 0, 0, 0, 0]) = Some (0, pty', Some [40, 0, 120, 0, 0, 0, 0, 0]) \<and>
    pty_used pty' \<and> same_pair sample_pty pty' \<and>
    alr_pts_emulate_ioctl pty' False K_TIOCGWINSZ (Some (replicate 9 7)) = Some (0, pty', Some [40, 0, 120, 0, 0, 0, 0, 0, 7])"
  using emulate_set_get [of sample_pty K_TIOCSWINSZ K_TIOCGWINSZ "[40, 0, 120, 0, 0, 0, 0, 0]" "replicate 9 7" True False]
  by (simp add: sample_pty_def setting_requests_def request_sizes)

end
