(* ===== verification/Alr_Pts_Table.thy ===== *)
theory Alr_Pts_Table
  imports Alr_Pts
begin

text \<open>
  The table of virtual terminals and the calls that it serves, the terminal block of \<^verbatim>\<open>alr_interpose/libalr_interpose.c\<close>: the mint of
  a pair, the lookups, the adoption of a descriptor that was inherited, the opening of device paths and the terminal calls of the C
  library.  The kernel and the C library beneath are the parameter \<open>os\<close> over a state \<open>'k\<close>: socket pairs, duplicates of
  descriptors, socket options, and \<open>real_call\<close> for a call that is forwarded to the next library.  The lock is not modelled:
  every operation of the table runs to its end.
\<close>

section \<open>State\<close>

record gtermios =
  g_iflag :: u32
  g_oflag :: u32
  g_cflag :: u32
  g_lflag :: u32
  g_line :: byte
  g_cc :: "byte list"
  g_ispeed :: u32
  g_ospeed :: u32

datatype libc_call =
    C_ioctl int nat "byte list option" u64
  | C_isatty int
  | C_tcgetattr int "gtermios option"
  | C_tcsetattr int int "gtermios option"
  | C_tcgetpgrp int
  | C_tcsetpgrp int u32
  | C_tcflush int int
  | C_tcflow int int
  | C_tcdrain int
  | C_tcsendbreak int int
  | C_ptsname_r int "nat option"
  | C_ttyname_r int "nat option"
  | C_grantpt int
  | C_unlockpt int
  | C_close int
  | C_fork
  | C_setsid
  | C_dup2 int int

text \<open>What a forwarded call returns and what it leaves in the caller's buffer.\<close>

record reply =
  rp_ret :: int
  rp_errno :: "int option"
  rp_bytes :: "byte list option"
  rp_name :: "string option"
  rp_termios :: "gtermios option"

record 'k pts_os =
  os_socketpair :: "'k \<Rightarrow> (int + int \<times> int) \<times> 'k"
  os_set_cloexec :: "int \<Rightarrow> 'k \<Rightarrow> 'k"
  os_dupfd :: "int \<Rightarrow> bool \<Rightarrow> 'k \<Rightarrow> (int + int) \<times> 'k"
  os_close :: "int \<Rightarrow> 'k \<Rightarrow> 'k"
  os_so_domain :: "int \<Rightarrow> 'k \<Rightarrow> int option"
  os_so_type :: "int \<Rightarrow> 'k \<Rightarrow> int option"
  os_getpgrp :: "'k \<Rightarrow> u32"
  cfsetispeed :: "u32 \<Rightarrow> gtermios \<Rightarrow> gtermios"
  cfsetospeed :: "u32 \<Rightarrow> gtermios \<Rightarrow> gtermios"
  real_call :: "libc_call \<Rightarrow> 'k \<Rightarrow> reply \<times> 'k"

record 'k proc =
  g_pts :: "alr_pty list"
  g_pty_active :: bool
  g_pty_minted :: bool
  environ :: "string \<Rightarrow> string option"
  errno :: int
  fd2_out :: "string list"
  kern :: 'k

definition EIO :: int where "EIO = 5"
definition ENXIO :: int where "ENXIO = 6"
definition ENOTTY :: int where "ENOTTY = 25"
definition ENOSPC :: int where "ENOSPC = 28"
definition ERANGE :: int where "ERANGE = 34"
definition AF_UNIX :: int where "AF_UNIX = 1"
definition SOCK_STREAM :: int where "SOCK_STREAM = 1"
definition O_CLOEXEC :: u32 where "O_CLOEXEC = 0x80000"
definition B38400 :: u32 where "B38400 = 15"
definition NCCS :: nat where "NCCS = 32"

definition zero_termios :: ktermios2 where
  "zero_termios = \<lparr>c_iflag = 0, c_oflag = 0, c_cflag = 0, c_lflag = 0, c_line = 0, c_cc = replicate ALR_KNCCS 0, c_ispeed = 0, c_ospeed = 0\<rparr>"

definition zero_pty :: alr_pty where
  "zero_pty = \<lparr>pty_used = False, pty_ptn = 0, pty_master_fd = 0, pty_slave_fd = 0, pty_locked = False, pty_slave_opened = False,
     pty_pgrp = 0, pty_sid = 0, pty_tio = zero_termios, pty_win = \<lparr>ws_row = 0, ws_col = 0, ws_xpixel = 0, ws_ypixel = 0\<rparr>\<rparr>"

definition set_errno :: "int \<Rightarrow> 'k proc \<Rightarrow> 'k proc" where
  "set_errno e s = s\<lparr>errno := e\<rparr>"

definition setenv :: "string \<Rightarrow> string \<Rightarrow> 'k proc \<Rightarrow> 'k proc" where
  "setenv name v s = s\<lparr>environ := (environ s)(name := Some v)\<rparr>"

definition forward :: "'k pts_os \<Rightarrow> libc_call \<Rightarrow> 'k proc \<Rightarrow> reply \<times> 'k proc" where
  "forward os c s =
     (let (r, k) = real_call os c (kern s)
      in (r, s\<lparr>kern := k, errno := (case rp_errno r of None \<Rightarrow> errno s | Some e \<Rightarrow> e)\<rparr>))"

definition upd_pty :: "nat \<Rightarrow> (alr_pty \<Rightarrow> alr_pty) \<Rightarrow> 'k proc \<Rightarrow> 'k proc" where
  "upd_pty i f s = s\<lparr>g_pts := (g_pts s)[i := f (g_pts s ! i)]\<rparr>"

section \<open>Markers and lookups\<close>

text \<open>Characters appended to a buffer of \<open>cap\<close> bytes whose last byte is kept free.\<close>

definition put_bounded :: "nat \<Rightarrow> string \<Rightarrow> string \<Rightarrow> string" where
  "put_bounded cap m xs = m @ take (cap - 1 - length m) xs"

definition alr_pts_append_long :: "nat \<Rightarrow> int \<Rightarrow> string \<Rightarrow> string" where
  "alr_pts_append_long cap v m =
     put_bounded cap (if v < 0 then put_bounded cap m ''-'' else m) (digits_of 24 (nat \<bar>v\<bar>))"

definition alr_emit_fd2 :: "string \<Rightarrow> 'k proc \<Rightarrow> 'k proc" where
  "alr_emit_fd2 m s = s\<lparr>fd2_out := fd2_out s @ [m]\<rparr>"

definition end_line :: "nat \<Rightarrow> string \<Rightarrow> string" where
  "end_line cap m = (if length m < cap then m @ [CHR 0x0A] else m)"

definition alr_pts_emit_mint_marker :: "int \<Rightarrow> int \<Rightarrow> int \<Rightarrow> 'k proc \<Rightarrow> 'k proc" where
  "alr_pts_emit_mint_marker ptn master err s =
     (let m = put_bounded 96 [] ''ALR-PTY ptmx-served ptn='';
          m = alr_pts_append_long 96 (if 0 \<le> master then ptn else - 1) m;
          m = put_bounded 96 m (if 0 \<le> master then '' master='' else '' master=-1 errno='');
          m = alr_pts_append_long 96 (if 0 \<le> master then master else err) m
      in alr_emit_fd2 (end_line 96 m) s)"

definition alr_pts_publish_slave_env :: "int \<Rightarrow> int \<Rightarrow> 'k proc \<Rightarrow> 'k proc" where
  "alr_pts_publish_slave_env ptn slave_fd s =
     (if ptn < 0 \<or> slave_fd < 0 then s
      else
        case alr_pts_slave_env_name ptn (Some 32) of
          None \<Rightarrow> s
        | Some name \<Rightarrow>
            let val = alr_pts_append_long 24 slave_fd []
            in if length val < 24 then setenv name val s else s)"

fun slot_where :: "(alr_pty \<Rightarrow> bool) \<Rightarrow> alr_pty list \<Rightarrow> nat option" where
  "slot_where P [] = None"
| "slot_where P (p # ps) = (if P p then Some 0 else map_option Suc (slot_where P ps))"

definition alr_pts_by_fd :: "int \<Rightarrow> 'k proc \<Rightarrow> (nat \<times> bool) option" where
  "alr_pts_by_fd fd s =
     (if fd < 0 then None
      else
        case slot_where (\<lambda>p. pty_used p \<and> (pty_master_fd p = fd \<or> pty_slave_fd p = fd)) (g_pts s) of
          None \<Rightarrow> None
        | Some i \<Rightarrow> Some (i, pty_master_fd (g_pts s ! i) = fd))"

definition alr_pts_by_ptn :: "int \<Rightarrow> 'k proc \<Rightarrow> nat option" where
  "alr_pts_by_ptn ptn s = (if ptn < 0 then None else slot_where (\<lambda>p. pty_used p \<and> pty_ptn p = ptn) (g_pts s))"

section \<open>Minting and adopting\<close>

definition alr_pts_mint :: "'k pts_os \<Rightarrow> bool \<Rightarrow> 'k proc \<Rightarrow> int \<times> int \<times> 'k proc" where
  "alr_pts_mint os cloexec s =
     (case os_socketpair os (kern s) of
        (Inl e, k) \<Rightarrow> (- 1, - 1, alr_pts_emit_mint_marker (- 1) (- 1) e (set_errno e (s\<lparr>kern := k\<rparr>)))
      | (Inr (m, sl), k) \<Rightarrow>
          let s = s\<lparr>kern := (if cloexec then os_set_cloexec os m k else k)\<rparr>
          in case slot_where (\<lambda>p. \<not> pty_used p) (g_pts s) of
               None \<Rightarrow>
                 (- 1, - 1,
                  alr_pts_emit_mint_marker (- 1) (- 1) ENOSPC (set_errno ENOSPC (s\<lparr>kern := os_close os sl (os_close os m (kern s))\<rparr>)))
             | Some idx \<Rightarrow>
                 let s = upd_pty idx (\<lambda>_. zero_pty\<lparr>pty_used := True, pty_ptn := int idx, pty_master_fd := m, pty_slave_fd := sl,
                           pty_locked := True, pty_tio := alr_pty_init_termios, pty_win := alr_pty_init_winsize\<rparr>) s;
                     s = setenv ''ALR_PTY_ACTIVE'' ''1'' (s\<lparr>g_pty_minted := True\<rparr>);
                     s = alr_pts_publish_slave_env (int idx) sl s;
                     s = alr_pts_emit_mint_marker (int idx) m 0 s
                 in (m, int idx, s))"

definition alr_fd_is_unix_stream :: "'k pts_os \<Rightarrow> int \<Rightarrow> 'k proc \<Rightarrow> bool" where
  "alr_fd_is_unix_stream os fd s \<longleftrightarrow>
     0 \<le> fd \<and> os_so_domain os fd (kern s) = Some AF_UNIX \<and> os_so_type os fd (kern s) = Some SOCK_STREAM"

fun scan_u32 :: "string \<Rightarrow> u32 \<Rightarrow> u32 \<times> string" where
  "scan_u32 [] n = (n, [])"
| "scan_u32 (c # cs) n = (if is_dec c then scan_u32 cs (n * 10 + of_nat (dec_value c)) else (n, c # cs))"

definition alr_pts_apply_env_winsize :: "(string \<Rightarrow> string option) \<Rightarrow> winsize \<Rightarrow> winsize" where
  "alr_pts_apply_env_winsize env w =
     (case env ''ALR_PTY_WINSZ'' of
        None \<Rightarrow> w
      | Some ws \<Rightarrow>
          if ws = [] then w
          else
            let (cols, q) = scan_u32 ws 0;
                rows = (if q \<noteq> [] \<and> (hd q = CHR ''x'' \<or> hd q = CHR ''X'') then fst (scan_u32 (tl q) 0) else 0)
            in if 0 < cols \<and> cols < 10000 \<and> 0 < rows \<and> rows < 10000 then w\<lparr>ws_col := ucast cols, ws_row := ucast rows\<rparr>
               else w)"

text \<open>The entry for a slave end whose master lives in another process.\<close>

definition adopted :: "(string \<Rightarrow> string option) \<Rightarrow> int \<Rightarrow> int \<Rightarrow> alr_pty" where
  "adopted env ptn fd = zero_pty\<lparr>pty_used := True, pty_ptn := ptn, pty_master_fd := - 1, pty_slave_fd := fd, pty_slave_opened := True,
     pty_tio := alr_pty_init_termios, pty_win := alr_pts_apply_env_winsize env alr_pty_init_winsize\<rparr>"

definition alr_pts_resolve :: "'k pts_os \<Rightarrow> int \<Rightarrow> 'k proc \<Rightarrow> (nat \<times> bool) option \<times> 'k proc" where
  "alr_pts_resolve os fd s =
     (case alr_pts_by_fd fd s of
        Some hit \<Rightarrow> (Some hit, s)
      | None \<Rightarrow>
          if \<not> g_pty_active s \<or> g_pty_minted s \<or> 2 < fd \<or> \<not> alr_fd_is_unix_stream os fd s then (None, s)
          else
            case slot_where (\<lambda>p. \<not> pty_used p) (g_pts s) of
              None \<Rightarrow> (None, s)
            | Some i \<Rightarrow> (Some (i, False), upd_pty i (\<lambda>_. adopted (environ s) (int i) fd) s))"

definition alr_pts_dup_slave :: "'k pts_os \<Rightarrow> nat \<Rightarrow> bool \<Rightarrow> 'k proc \<Rightarrow> int \<times> 'k proc" where
  "alr_pts_dup_slave os i cloexec s =
     (case os_dupfd os (pty_slave_fd (g_pts s ! i)) cloexec (kern s) of
        (Inl e, k) \<Rightarrow> (- 1, set_errno e (s\<lparr>kern := k\<rparr>))
      | (Inr fd, k) \<Rightarrow> (fd, upd_pty i (\<lambda>p. p\<lparr>pty_slave_opened := True\<rparr>) (s\<lparr>kern := k\<rparr>)))"

definition parse_inherited :: "string option \<Rightarrow> nat option" where
  "parse_inherited v =
     (case v of None \<Rightarrow> None | Some q \<Rightarrow> if q = [] \<or> \<not> is_dec (hd q) then None else parse_number q 0)"

definition alr_pts_adopt_inherited_slave :: "'k pts_os \<Rightarrow> int \<Rightarrow> bool \<Rightarrow> 'k proc \<Rightarrow> int \<times> 'k proc" where
  "alr_pts_adopt_inherited_slave os ptn cloexec s =
     (case alr_pts_slave_env_name ptn (Some 32) of
        None \<Rightarrow> (- 1, s)
      | Some name \<Rightarrow>
          case parse_inherited (environ s name) of
            None \<Rightarrow> (- 1, s)
          | Some inh \<Rightarrow>
              case os_dupfd os (int inh) cloexec (kern s) of
                (Inl e, k) \<Rightarrow> (- 1, set_errno e (s\<lparr>kern := k\<rparr>))
              | (Inr dfd, k) \<Rightarrow>
                  let s = s\<lparr>kern := k\<rparr>;
                      s = (case slot_where (\<lambda>p. \<not> pty_used p) (g_pts s) of
                             None \<Rightarrow> s
                           | Some i \<Rightarrow> upd_pty i (\<lambda>_. adopted (environ s) ptn dfd) s);
                      m = alr_pts_append_long 80 ptn (put_bounded 80 [] ''ALR-PTY slave-dup-from-env ptn='');
                      m = alr_pts_append_long 80 dfd (put_bounded 80 m '' slave='')
                  in (dfd, alr_emit_fd2 (end_line 80 m) s))"

section \<open>Opening a device\<close>

definition last_opened :: "alr_pty list \<Rightarrow> nat option" where
  "last_opened ps = map_option (\<lambda>j. length ps - 1 - j) (slot_where (\<lambda>p. pty_used p \<and> pty_slave_opened p) (rev ps))"

text \<open>\<^const>\<open>None\<close> when the path is not a terminal device and the open goes on.\<close>

definition alr_pts_try_open :: "'k pts_os \<Rightarrow> string option \<Rightarrow> u32 \<Rightarrow> 'k proc \<Rightarrow> int option \<times> 'k proc" where
  "alr_pts_try_open os path flags s =
     (let cloexec = flags AND O_CLOEXEC \<noteq> 0; n = alr_pts_parse_slave_path path
      in if path = None \<or> path = Some [] \<or> hd (the path) \<noteq> CHR ''/'' then (None, s)
         else if alr_pts_is_ptmx_path path then (let (fd, _, s) = alr_pts_mint os cloexec s in (Some fd, s))
         else if 0 \<le> n then
           (case alr_pts_by_ptn n s of
              None \<Rightarrow>
                (let (dfd, s) = alr_pts_adopt_inherited_slave os n cloexec s
                 in if 0 \<le> dfd then (Some dfd, s) else (Some (- 1), set_errno ENXIO s))
            | Some i \<Rightarrow> (let (fd, s) = alr_pts_dup_slave os i cloexec s in (Some fd, s)))
         else if alr_pts_is_tty_path path then
           (case last_opened (g_pts s) of
              None \<Rightarrow> (None, s)
            | Some i \<Rightarrow> (let (fd, s) = alr_pts_dup_slave os i cloexec s in (Some fd, s)))
         else (None, s))"

section \<open>Terminal calls\<close>

definition adopting_requests :: "nat set" where
  "adopting_requests = {K_TCGETS, K_TCSETS, K_TCSETSW, K_TCSETSF, ALR_TCGETS2, ALR_TCSETS2, ALR_TCSETSW2, ALR_TCSETSF2, K_TIOCGWINSZ,
     K_TIOCSWINSZ, K_TIOCSCTTY, K_TIOCNOTTY, K_TIOCGPGRP, K_TIOCSPGRP, K_TIOCGSID}"

definition publish_winsize :: "winsize \<Rightarrow> 'k proc \<Rightarrow> 'k proc" where
  "publish_winsize w s =
     (let wb = put_bounded 24 [] (digits_of 8 (unat (ws_col w)));
          wb = put_bounded 24 wb ''x'';
          wb = put_bounded 24 wb (digits_of 8 (unat (ws_row w)))
      in setenv ''ALR_PTY_WINSZ'' wb s)"

text \<open>The argument of a request is a buffer, \<open>arg\<close>, or a number, \<open>val\<close>; an overrun of the buffer has no outcome.\<close>

definition pts_ioctl ::
  "'k pts_os \<Rightarrow> int \<Rightarrow> nat \<Rightarrow> byte list option \<Rightarrow> u64 \<Rightarrow> 'k proc \<Rightarrow> (int \<times> byte list option \<times> 'k proc) option" where
  "pts_ioctl os fd request arg val s =
     (let fwd = (\<lambda>s. let (r, s) = forward os (C_ioctl fd request arg val) s in Some (rp_ret r, rp_bytes r, s));
          (p, s) = (case alr_pts_by_fd fd s of
                      Some hit \<Rightarrow> (Some hit, s)
                    | None \<Rightarrow>
                        if g_pty_active s \<and> request \<in> adopting_requests then alr_pts_resolve os fd s else (None, s))
      in case p of
           None \<Rightarrow> fwd s
         | Some (i, is_master) \<Rightarrow>
             case alr_pts_emulate_ioctl (g_pts s ! i) is_master request arg of
               None \<Rightarrow> None
             | Some (r, pty, arg') \<Rightarrow>
                 let s = upd_pty i (\<lambda>_. pty) s
                 in if r = ALR_PTS_IOCTL_GPTPEER then
                      (let (fd', s) = alr_pts_dup_slave os i (val AND ucast O_CLOEXEC \<noteq> 0) s in Some (fd', arg', s))
                    else if r = ALR_PTS_IOCTL_PASS then fwd s
                    else if r < 0 then Some (- 1, arg', set_errno (- r) s)
                    else Some (r, arg', if request = K_TIOCSWINSZ \<and> is_master then publish_winsize (pty_win pty) s else s))"

definition call_through :: "'k pts_os \<Rightarrow> libc_call \<Rightarrow> 'k proc \<Rightarrow> int \<times> 'k proc" where
  "call_through os c s = (let (r, s) = forward os c s in (rp_ret r, s))"

definition pts_isatty :: "'k pts_os \<Rightarrow> int \<Rightarrow> 'k proc \<Rightarrow> int \<times> 'k proc" where
  "pts_isatty os fd s =
     (case alr_pts_resolve os fd s of (Some _, s) \<Rightarrow> (1, s) | (None, s) \<Rightarrow> call_through os (C_isatty fd) s)"

definition pts_tcgetattr :: "'k pts_os \<Rightarrow> int \<Rightarrow> gtermios option \<Rightarrow> 'k proc \<Rightarrow> int \<times> gtermios option \<times> 'k proc" where
  "pts_tcgetattr os fd t s =
     (case alr_pts_resolve os fd s of
        (Some (i, _), s) \<Rightarrow>
          if t = None then (- 1, None, set_errno EINVAL s)
          else
            let k = pty_tio (g_pts s ! i);
                g = \<lparr>g_iflag = c_iflag k, g_oflag = c_oflag k, g_cflag = c_cflag k, g_lflag = c_lflag k, g_line = c_line k,
                     g_cc = take ALR_KNCCS (c_cc k) @ replicate (NCCS - ALR_KNCCS) 0, g_ispeed = 0, g_ospeed = 0\<rparr>
            in (0, Some (cfsetospeed os B38400 (cfsetispeed os B38400 g)), s)
      | (None, s) \<Rightarrow> (let (r, s) = forward os (C_tcgetattr fd t) s in (rp_ret r, rp_termios r, s)))"

definition pts_tcsetattr :: "'k pts_os \<Rightarrow> int \<Rightarrow> int \<Rightarrow> gtermios option \<Rightarrow> 'k proc \<Rightarrow> int \<times> 'k proc" where
  "pts_tcsetattr os fd act t s =
     (case alr_pts_resolve os fd s of
        (Some (i, _), s) \<Rightarrow>
          (case t of
             None \<Rightarrow> (- 1, set_errno EINVAL s)
           | Some g \<Rightarrow>
               (0, upd_pty i (\<lambda>p. p\<lparr>pty_tio := \<lparr>c_iflag = g_iflag g, c_oflag = g_oflag g, c_cflag = g_cflag g, c_lflag = g_lflag g,
                      c_line = g_line g, c_cc = take ALR_KNCCS (g_cc g), c_ispeed = 38400, c_ospeed = 38400\<rparr>\<rparr>) s))
      | (None, s) \<Rightarrow> call_through os (C_tcsetattr fd act t) s)"

definition pts_tcgetpgrp :: "'k pts_os \<Rightarrow> int \<Rightarrow> 'k proc \<Rightarrow> int \<times> 'k proc" where
  "pts_tcgetpgrp os fd s =
     (case alr_pts_resolve os fd s of
        (Some (i, _), s) \<Rightarrow>
          (let g = pty_pgrp (g_pts s ! i) in (if 0 < sint g then sint g else sint (os_getpgrp os (kern s)), s))
      | (None, s) \<Rightarrow> call_through os (C_tcgetpgrp fd) s)"

definition pts_tcsetpgrp :: "'k pts_os \<Rightarrow> int \<Rightarrow> u32 \<Rightarrow> 'k proc \<Rightarrow> int \<times> 'k proc" where
  "pts_tcsetpgrp os fd g s =
     (case alr_pts_resolve os fd s of
        (Some (i, _), s) \<Rightarrow> (0, upd_pty i (\<lambda>p. p\<lparr>pty_pgrp := g\<rparr>) s)
      | (None, s) \<Rightarrow> call_through os (C_tcsetpgrp fd g) s)"

definition no_op :: "'k pts_os \<Rightarrow> int \<Rightarrow> libc_call \<Rightarrow> 'k proc \<Rightarrow> int \<times> 'k proc" where
  "no_op os fd c s = (case alr_pts_resolve os fd s of (Some _, s) \<Rightarrow> (0, s) | (None, s) \<Rightarrow> call_through os c s)"

definition pts_tcflush :: "'k pts_os \<Rightarrow> int \<Rightarrow> int \<Rightarrow> 'k proc \<Rightarrow> int \<times> 'k proc" where
  "pts_tcflush os fd q = no_op os fd (C_tcflush fd q)"

definition pts_tcflow :: "'k pts_os \<Rightarrow> int \<Rightarrow> int \<Rightarrow> 'k proc \<Rightarrow> int \<times> 'k proc" where
  "pts_tcflow os fd a = no_op os fd (C_tcflow fd a)"

definition pts_tcdrain :: "'k pts_os \<Rightarrow> int \<Rightarrow> 'k proc \<Rightarrow> int \<times> 'k proc" where
  "pts_tcdrain os fd = no_op os fd (C_tcdrain fd)"

definition pts_tcsendbreak :: "'k pts_os \<Rightarrow> int \<Rightarrow> int \<Rightarrow> 'k proc \<Rightarrow> int \<times> 'k proc" where
  "pts_tcsendbreak os fd d = no_op os fd (C_tcsendbreak fd d)"

text \<open>The name of a terminal in a buffer of the given size: the code the call returns, and the string.\<close>

definition put_name :: "int \<Rightarrow> nat option \<Rightarrow> 'k proc \<Rightarrow> int \<times> string option \<times> 'k proc" where
  "put_name ptn buf s =
     (case buf of
        None \<Rightarrow> (EINVAL, None, set_errno EINVAL s)
      | Some buflen \<Rightarrow>
          let tmp = take 32 (pts_prefix @ (if ptn = 0 then ''0'' else rev (rev_dec 12 (nat ptn))))
          in if buflen < length tmp + 1 then (ERANGE, None, set_errno ERANGE s) else (0, Some tmp, s))"

definition ptsname_r :: "'k pts_os \<Rightarrow> int \<Rightarrow> nat option \<Rightarrow> 'k proc \<Rightarrow> int \<times> string option \<times> 'k proc" where
  "ptsname_r os fd buf s =
     (case alr_pts_by_fd fd s of
        Some (i, is_master) \<Rightarrow>
          if \<not> is_master then (ENOTTY, None, set_errno ENOTTY s) else put_name (pty_ptn (g_pts s ! i)) buf s
      | None \<Rightarrow> (let (r, s) = forward os (C_ptsname_r fd buf) s in (rp_ret r, rp_name r, s)))"

definition ptsname :: "'k pts_os \<Rightarrow> int \<Rightarrow> 'k proc \<Rightarrow> string option \<times> 'k proc" where
  "ptsname os fd s = (let (r, n, s) = ptsname_r os fd (Some 32) s in (if r = 0 then n else None, s))"

definition ttyname_r :: "'k pts_os \<Rightarrow> int \<Rightarrow> nat option \<Rightarrow> 'k proc \<Rightarrow> int \<times> string option \<times> 'k proc" where
  "ttyname_r os fd buf s =
     (case alr_pts_resolve os fd s of
        (Some (i, is_master), s) \<Rightarrow>
          if is_master then (ENOTTY, None, set_errno ENOTTY s) else put_name (pty_ptn (g_pts s ! i)) buf s
      | (None, s) \<Rightarrow> (let (r, s) = forward os (C_ttyname_r fd buf) s in (rp_ret r, rp_name r, s)))"

definition ttyname :: "'k pts_os \<Rightarrow> int \<Rightarrow> 'k proc \<Rightarrow> string option \<times> 'k proc" where
  "ttyname os fd s = (let (r, n, s) = ttyname_r os fd (Some 32) s in (if r = 0 then n else None, s))"

definition grantpt :: "'k pts_os \<Rightarrow> int \<Rightarrow> 'k proc \<Rightarrow> int \<times> 'k proc" where
  "grantpt os fd s = (case alr_pts_by_fd fd s of Some _ \<Rightarrow> (0, s) | None \<Rightarrow> call_through os (C_grantpt fd) s)"

definition unlockpt :: "'k pts_os \<Rightarrow> int \<Rightarrow> 'k proc \<Rightarrow> int \<times> 'k proc" where
  "unlockpt os fd s =
     (case alr_pts_by_fd fd s of
        Some (i, is_master) \<Rightarrow>
          if \<not> is_master then (- 1, set_errno EINVAL s) else (0, upd_pty i (\<lambda>p. p\<lparr>pty_locked := False\<rparr>) s)
      | None \<Rightarrow> call_through os (C_unlockpt fd) s)"

definition posix_openpt :: "'k pts_os \<Rightarrow> u32 \<Rightarrow> 'k proc \<Rightarrow> int \<times> 'k proc" where
  "posix_openpt os oflags s = (let (fd, _, s) = alr_pts_mint os (oflags AND O_CLOEXEC \<noteq> 0) s in (fd, s))"

definition pts_close :: "'k pts_os \<Rightarrow> int \<Rightarrow> 'k proc \<Rightarrow> int \<times> 'k proc" where
  "pts_close os fd s =
     (let s = (case alr_pts_by_fd fd s of
                 Some (i, True) \<Rightarrow> upd_pty i (\<lambda>p. p\<lparr>pty_used := False\<rparr>) s
               | _ \<Rightarrow> s)
      in call_through os (C_close fd) s)"

section \<open>Pairs in one call\<close>

record pty_pair =
  pp_ret :: int
  pp_master :: int
  pp_slave :: int
  pp_name :: "string option"

definition no_pair :: pty_pair where
  "no_pair = \<lparr>pp_ret = - 1, pp_master = - 1, pp_slave = - 1, pp_name = None\<rparr>"

definition openpty ::
  "'k pts_os \<Rightarrow> bool \<Rightarrow> bool \<Rightarrow> bool \<Rightarrow> gtermios option \<Rightarrow> winsize option \<Rightarrow> 'k proc \<Rightarrow> (pty_pair \<times> 'k proc) option" where
  "openpty os amaster aslave name termp winp s =
     (if \<not> amaster \<or> \<not> aslave then Some (no_pair, set_errno EINVAL s)
      else
        let (m, _, s) = alr_pts_mint os False s
        in if m < 0 then Some (no_pair, s)
           else
             case alr_pts_by_fd m s of
               None \<Rightarrow>
                 Some (no_pair, set_errno (if errno s \<noteq> 0 then errno s else EIO) (s\<lparr>kern := os_close os m (kern s)\<rparr>))
             | Some (i, _) \<Rightarrow>
                 let (sl, s) = alr_pts_dup_slave os i False (upd_pty i (\<lambda>p. p\<lparr>pty_locked := False\<rparr>) s)
                 in if sl < 0 then Some (no_pair, s\<lparr>kern := os_close os m (kern s)\<rparr>)
                    else
                      let s = (if termp = None then s else snd (pts_tcsetattr os sl 0 termp s));
                          after = (case winp of
                                     None \<Rightarrow> Some s
                                   | Some w \<Rightarrow> map_option (\<lambda>(_, _, s). s) (pts_ioctl os sl K_TIOCSWINSZ (Some (winsize_bytes w)) 0 s))
                      in case after of
                           None \<Rightarrow> None
                         | Some s \<Rightarrow>
                             let (n, s) = (if name then (let (_, n, s) = ptsname_r os m (Some 64) s in (n, s)) else (None, s))
                             in Some (\<lparr>pp_ret = 0, pp_master = m, pp_slave = sl, pp_name = n\<rparr>, s))"

definition close_both :: "'k pts_os \<Rightarrow> int \<Rightarrow> int \<Rightarrow> 'k proc \<Rightarrow> 'k proc" where
  "close_both os a b s = s\<lparr>kern := os_close os b (os_close os a (kern s))\<rparr>"

text \<open>The parent and the child run the same code from the fork on; \<open>pp_ret\<close> is what the call returns in the process at hand.\<close>

definition forkpty ::
  "'k pts_os \<Rightarrow> bool \<Rightarrow> gtermios option \<Rightarrow> winsize option \<Rightarrow> 'k proc \<Rightarrow> (pty_pair \<times> 'k proc) option" where
  "forkpty os name termp winp s =
     (case openpty os True True name termp winp s of
        None \<Rightarrow> None
      | Some (pr, s) \<Rightarrow>
          if pp_ret pr \<noteq> 0 then Some (no_pair, s)
          else
            let (pid, s) = call_through os C_fork s
            in if pid < 0 then Some (no_pair, close_both os (pp_master pr) (pp_slave pr) s)
               else if pid = 0 then
                 let s = snd (call_through os C_setsid s)
                 in (case pts_ioctl os (pp_slave pr) K_TIOCSCTTY None 0 s of
                       None \<Rightarrow> None
                     | Some (_, _, s) \<Rightarrow>
                         let s = snd (call_through os (C_dup2 (pp_slave pr) 0) s);
                             s = snd (call_through os (C_dup2 (pp_slave pr) 1) s);
                             s = snd (call_through os (C_dup2 (pp_slave pr) 2) s);
                             s = (if 2 < pp_slave pr then snd (call_through os (C_close (pp_slave pr)) s) else s)
                         in Some (pr\<lparr>pp_ret := 0\<rparr>, s))
               else Some (pr\<lparr>pp_ret := pid\<rparr>, s))"

text \<open>A process after its image is replaced: an empty table, the environment and the descriptors of its parent.\<close>

definition exec_child :: "(string \<Rightarrow> string option) \<Rightarrow> 'k \<Rightarrow> 'k proc" where
  "exec_child env k = \<lparr>g_pts = replicate ALR_PTS_MAX zero_pty,
     g_pty_active = (case env ''ALR_PTY_ACTIVE'' of None \<Rightarrow> False | Some v \<Rightarrow> v \<noteq> [] \<and> hd v \<noteq> CHR ''0''),
     g_pty_minted = False, environ = env, errno = 0, fd2_out = [], kern = k\<rparr>"

section \<open>Lookups and strings\<close>

lemma slot_where_Some: "slot_where P ps = Some i \<Longrightarrow> i < length ps \<and> P (ps ! i) \<and> (\<forall>j < i. \<not> P (ps ! j))"
proof (induction ps arbitrary: i)
  case (Cons p ps)
  then show ?case by (cases i) (auto simp: nth_Cons' split: if_splits)
qed simp

lemma slot_where_None: "slot_where P ps = None \<longleftrightarrow> (\<forall>p \<in> set ps. \<not> P p)"
  by (induction ps) auto

lemma slot_where_eq: "i < length ps \<Longrightarrow> P (ps ! i) \<Longrightarrow> \<forall>j < i. \<not> P (ps ! j) \<Longrightarrow> slot_where P ps = Some i"
proof (induction ps arbitrary: i)
  case (Cons p ps)
  show ?case
  proof (cases i)
    case 0
    with Cons.prems show ?thesis by simp
  next
    case (Suc k)
    with Cons.prems have "\<not> P p" "\<forall>j < k. \<not> P (ps ! j)" by fastforce+
    with Cons.IH [of k] Cons.prems Suc show ?thesis by simp
  qed
qed simp

lemma length_rev_dec: "length (rev_dec k u) \<le> k"
  by (induction k u rule: rev_dec.induct) auto

lemma length_digits_of: "0 < k \<Longrightarrow> length (digits_of k u) \<le> k"
  using length_rev_dec [of k u] by (simp add: digits_of_def)

lemma length_dec_nat: "u < 10 ^ k \<Longrightarrow> 0 < k \<Longrightarrow> length (dec_nat u) \<le> k"
  using length_digits_of [of k u] by (simp add: digits_of_dec)

lemma append_long_dec: "0 \<le> v \<Longrightarrow> v \<le> 1000000 \<Longrightarrow> alr_pts_append_long 24 v [] = dec_nat (nat v)"
proof -
  assume v: "0 \<le> v" "v \<le> 1000000"
  have "length (dec_nat (nat v)) \<le> 16" using v by (intro length_dec_nat) auto
  then show ?thesis using v by (simp add: alr_pts_append_long_def put_bounded_def digits_of_dec)
qed

lemma put_name_dec:
  "0 \<le> ptn \<Longrightarrow> ptn < 10 ^ 7 \<Longrightarrow> 32 \<le> buflen \<Longrightarrow> put_name ptn (Some buflen) s = (0, Some (pts_prefix @ dec_nat (nat ptn)), s)"
proof -
  assume a: "0 \<le> ptn" "ptn < 10 ^ 7" "32 \<le> buflen"
  then have n: "nat ptn < 10 ^ 7" by simp
  have "(if ptn = 0 then ''0'' else rev (rev_dec 12 (nat ptn))) = digits_of 12 (nat ptn)" using a by (auto simp: digits_of_def)
  also have "\<dots> = dec_nat (nat ptn)" using n by (intro digits_of_dec) simp
  finally show ?thesis
    using a length_dec_nat [of "nat ptn" 12] n by (simp add: put_name_def Let_def pts_prefix_def)
qed

lemma scan_digits:
  "list_all (\<lambda>d. d < 10) ds \<Longrightarrow> rest = [] \<or> \<not> is_dec (hd rest) \<Longrightarrow>
   scan_u32 (map digit_char ds @ rest) (of_nat m) = (of_nat (foldl (\<lambda>n d. n * 10 + d) m ds), rest)"
proof (induction ds arbitrary: m)
  case Nil
  then show ?case by (cases rest) auto
next
  case (Cons d ds)
  from Cons.IH [of "m * 10 + d"] Cons.prems digit_char_dec [of d] show ?case by simp
qed

lemma scan_dec_nat: "rest = [] \<or> \<not> is_dec (hd rest) \<Longrightarrow> scan_u32 (dec_nat u @ rest) 0 = (of_nat u, rest)"
  using scan_digits [of "base_digits 10 u" rest 0] base_digits_bound [of 10 _ u]
  by (auto simp: dec_nat_def base_digits_value list_all_iff)

text \<open>The size that a terminal publishes is the size that a later process reads.\<close>

definition winsz_text :: "winsize \<Rightarrow> string" where
  "winsz_text w = dec_nat (unat (ws_col w)) @ ''x'' @ dec_nat (unat (ws_row w))"

lemma publish_winsize_text: "publish_winsize w s = setenv ''ALR_PTY_WINSZ'' (winsz_text w) s"
proof -
  have u: "unat v < 10 ^ 8" for v :: u16 using unsigned_less [of v, where ?'a = nat] by simp
  have "length (dec_nat (unat v)) \<le> 8" for v :: u16 using length_dec_nat [OF u] by simp
  from this [of "ws_col w"] this [of "ws_row w"] show ?thesis
    using u by (simp add: publish_winsize_def Let_def put_bounded_def digits_of_dec winsz_text_def)
qed

lemma winsz_text_read:
  assumes "env ''ALR_PTY_WINSZ'' = Some (winsz_text w)"
    and "0 < ws_col w" "ws_col w < 10000" "0 < ws_row w" "ws_row w < 10000"
  shows "alr_pts_apply_env_winsize env w0 = w0\<lparr>ws_col := ws_col w, ws_row := ws_row w\<rparr>"
proof -
  have c: "scan_u32 (winsz_text w) 0 = (of_nat (unat (ws_col w)), CHR ''x'' # dec_nat (unat (ws_row w)))"
    using scan_dec_nat [of "CHR ''x'' # dec_nat (unat (ws_row w))" "unat (ws_col w)"]
    by (simp add: winsz_text_def is_dec_def less_eq_char_def)
  have r: "scan_u32 (dec_nat (unat (ws_row w))) 0 = (of_nat (unat (ws_row w)), [])"
    using scan_dec_nat [of "[]" "unat (ws_row w)"] by simp
  have b: "0 < (of_nat (unat v) :: u32) \<and> (of_nat (unat v) :: u32) < 10000" if "0 < v" "v < 10000" for v :: u16
  proof -
    have "unat (ucast v :: u32) = unat v"
      using unsigned_less [of v, where ?'a = nat] by (simp add: unsigned_ucast_eq take_bit_nat_eq_self)
    with that show ?thesis by (simp add: word_less_nat_alt)
  qed
  have u: "ucast (ucast v :: u32) = v" for v :: u16
    by (rule bit_word_eqI) (simp add: bit_ucast_iff)
  show ?thesis
    using assms c r b [of "ws_col w"] b [of "ws_row w"]
    by (simp add: alr_pts_apply_env_winsize_def u winsz_text_def dec_nat_start)
qed

section \<open>A pair in its own process\<close>

text \<open>The table as the process that mints its terminals keeps it: every live entry stands at its own index.\<close>

definition indexed :: "'k proc \<Rightarrow> bool" where
  "indexed s \<longleftrightarrow> length (g_pts s) = ALR_PTS_MAX \<and> (\<forall>i < ALR_PTS_MAX. pty_used (g_pts s ! i) \<longrightarrow> pty_ptn (g_pts s ! i) = int i)"

definition holds_fd :: "int \<Rightarrow> 'k proc \<Rightarrow> bool" where
  "holds_fd fd s \<longleftrightarrow> (\<exists>p \<in> set (g_pts s). pty_used p \<and> (pty_master_fd p = fd \<or> pty_slave_fd p = fd))"

definition fresh_pty :: "nat \<Rightarrow> int \<Rightarrow> int \<Rightarrow> alr_pty" where
  "fresh_pty idx m sl = zero_pty\<lparr>pty_used := True, pty_ptn := int idx, pty_master_fd := m, pty_slave_fd := sl, pty_locked := True,
     pty_tio := alr_pty_init_termios, pty_win := alr_pty_init_winsize\<rparr>"

lemma by_fd_none: "\<not> holds_fd fd s \<Longrightarrow> alr_pts_by_fd fd s = None"
  using slot_where_None [of "\<lambda>p. pty_used p \<and> (pty_master_fd p = fd \<or> pty_slave_fd p = fd)" "g_pts s"]
  by (auto simp: alr_pts_by_fd_def holds_fd_def)

lemma proc_parts [simp]:
  "g_pts (set_errno e s) = g_pts s" "kern (set_errno e s) = kern s" "environ (set_errno e s) = environ s"
  "g_pts (setenv n v s) = g_pts s" "kern (setenv n v s) = kern s" "environ (setenv n v s) = (environ s)(n := Some v)"
  "g_pts (alr_emit_fd2 m s) = g_pts s" "kern (alr_emit_fd2 m s) = kern s" "environ (alr_emit_fd2 m s) = environ s"
  "g_pts (alr_pts_emit_mint_marker a b c s) = g_pts s" "kern (alr_pts_emit_mint_marker a b c s) = kern s"
  "environ (alr_pts_emit_mint_marker a b c s) = environ s"
  "kern (upd_pty i f s) = kern s" "environ (upd_pty i f s) = environ s" "g_pts (upd_pty i f s) = (g_pts s)[i := f (g_pts s ! i)]"
  "g_pty_minted (alr_pts_emit_mint_marker a b c s) = g_pty_minted s" "g_pty_minted (setenv n v s) = g_pty_minted s"
  "g_pty_minted (upd_pty i f s) = g_pty_minted s" "g_pty_active (setenv n v s) = g_pty_active s"
  by (simp_all add: set_errno_def setenv_def alr_emit_fd2_def alr_pts_emit_mint_marker_def upd_pty_def Let_def)

lemma publish_slave_env_parts:
  assumes "0 \<le> ptn" "ptn \<le> 1000000" "0 \<le> sl" "sl \<le> 1000000"
  shows "alr_pts_publish_slave_env ptn sl s = setenv (slave_env_prefix @ dec_nat (nat ptn)) (dec_nat (nat sl)) s"
proof -
  have "length (dec_nat (nat sl)) \<le> 16" using assms by (intro length_dec_nat) auto
  then show ?thesis
    using assms slave_env_name [of ptn 32] by (simp add: alr_pts_publish_slave_env_def append_long_dec Let_def)
qed

text \<open>What a successful mint leaves: one new entry, the first that was free, and the variables that a child needs.\<close>

lemma mint_success:
  assumes "os_socketpair os (kern s) = (Inr (m, sl), k)" "0 \<le> sl" "sl \<le> 1000000"
    and "slot_where (\<lambda>p. \<not> pty_used p) (g_pts s) = Some idx" and "length (g_pts s) = ALR_PTS_MAX"
  shows "\<exists>s'. alr_pts_mint os cloexec s = (m, int idx, s') \<and> g_pts s' = (g_pts s)[idx := fresh_pty idx m sl] \<and> g_pty_minted s' \<and>
    kern s' = (if cloexec then os_set_cloexec os m k else k) \<and> idx < ALR_PTS_MAX \<and>
    environ s' = (environ s)(''ALR_PTY_ACTIVE'' := Some ''1'', slave_env_prefix @ dec_nat idx := Some (dec_nat (nat sl)))"
proof -
  have "idx < ALR_PTS_MAX" using slot_where_Some [OF assms(4)] assms(5) by simp
  then show ?thesis
    using assms by (simp add: alr_pts_mint_def fresh_pty_def ALR_PTS_MAX_def publish_slave_env_parts)
qed

lemma by_fd_minted:
  assumes "idx < length ps" and "\<not> holds_fd m s" and "ps = g_pts s" and "g_pts s' = ps[idx := fresh_pty idx m sl]" and "0 \<le> m"
  shows "alr_pts_by_fd m s' = Some (idx, True)"
proof -
  have "slot_where (\<lambda>p. pty_used p \<and> (pty_master_fd p = m \<or> pty_slave_fd p = m)) (g_pts s') = Some idx"
    using assms by (intro slot_where_eq) (auto simp: holds_fd_def fresh_pty_def)
  then show ?thesis using assms by (simp add: alr_pts_by_fd_def fresh_pty_def)
qed

lemma by_ptn_minted:
  assumes "indexed s" and "idx < ALR_PTS_MAX" and "g_pts s' = (g_pts s)[idx := fresh_pty idx m sl]"
  shows "alr_pts_by_ptn (int idx) s' = Some idx"
proof -
  have "slot_where (\<lambda>p. pty_used p \<and> pty_ptn p = int idx) (g_pts s') = Some idx"
    using assms by (intro slot_where_eq) (auto simp: indexed_def fresh_pty_def)
  then show ?thesis by (simp add: alr_pts_by_ptn_def)
qed

lemma indexed_mint: "indexed s \<Longrightarrow> idx < ALR_PTS_MAX \<Longrightarrow> g_pts s' = (g_pts s)[idx := fresh_pty idx m sl] \<Longrightarrow> indexed s'"
  by (auto simp: indexed_def fresh_pty_def nth_list_update)

text \<open>Opening a slave by its name, in terms of the lookup.\<close>

lemma try_open_slave:
  assumes "u \<le> 1000000"
  shows "alr_pts_try_open os (Some (pts_prefix @ dec_nat u)) flags s =
    (case alr_pts_by_ptn (int u) s of
       None \<Rightarrow>
         (let (dfd, s) = alr_pts_adopt_inherited_slave os (int u) (flags AND O_CLOEXEC \<noteq> 0) s
          in if 0 \<le> dfd then (Some dfd, s) else (Some (- 1), set_errno ENXIO s))
     | Some i \<Rightarrow> (let (fd, s) = alr_pts_dup_slave os i (flags AND O_CLOEXEC \<noteq> 0) s in (Some fd, s)))"
proof -
  have n: "alr_pts_parse_slave_path (Some (pts_prefix @ dec_nat u)) = int u" using assms by (rule parse_slave_name)
  have "dec_nat u \<noteq> ''ptmx''" using dec_nat_start [of u] by (auto simp: is_dec_def less_eq_char_def)
  then have "\<not> alr_pts_is_ptmx_path (Some (pts_prefix @ dec_nat u))" by (simp add: alr_pts_is_ptmx_path_def pts_prefix_def)
  moreover have "hd (pts_prefix @ dec_nat u) = CHR ''/''" "dec_nat u \<noteq> []"
    using dec_nat_start [of u] by (simp_all add: pts_prefix_def)
  ultimately show ?thesis using n by (simp add: alr_pts_try_open_def Let_def)
qed

lemma dup_slave_parts:
  "fst (alr_pts_dup_slave os i c s) = (case fst (os_dupfd os (pty_slave_fd (g_pts s ! i)) c (kern s)) of Inl e \<Rightarrow> - 1 | Inr fd \<Rightarrow> fd)"
  "kern (snd (alr_pts_dup_slave os i c s)) = snd (os_dupfd os (pty_slave_fd (g_pts s ! i)) c (kern s))"
  by (cases "os_dupfd os (pty_slave_fd (g_pts s ! i)) c (kern s)"; simp add: alr_pts_dup_slave_def split: sum.splits)+

lemma ptsname_minted:
  "alr_pts_by_fd m s' = Some (idx, True) \<Longrightarrow> pty_ptn (g_pts s' ! idx) = int idx \<Longrightarrow> idx < ALR_PTS_MAX \<Longrightarrow>
   ptsname os m s' = (Some (pts_prefix @ dec_nat idx), s')"
  by (simp add: ptsname_def ptsname_r_def put_name_dec ALR_PTS_MAX_def)

lemma pty_open_by_name:
  assumes "indexed s" and "slot_where (\<lambda>p. \<not> pty_used p) (g_pts s) = Some idx"
    and "os_socketpair os (kern s) = (Inr (m, sl), k)" "0 \<le> m" "0 \<le> sl" "sl \<le> 1000000" and "\<not> holds_fd m s"
  shows "\<exists>s' name r. posix_openpt os oflags s = (m, s') \<and> indexed s' \<and> ptsname os m s' = (Some name, s') \<and>
    alr_pts_try_open os (Some name) flags s' = (Some (fst r), snd r) \<and>
    fst r = (case fst (os_dupfd os sl (flags AND O_CLOEXEC \<noteq> 0) (kern s')) of Inl e \<Rightarrow> - 1 | Inr fd \<Rightarrow> fd) \<and>
    kern (snd r) = snd (os_dupfd os sl (flags AND O_CLOEXEC \<noteq> 0) (kern s'))"
proof -
  have len: "length (g_pts s) = ALR_PTS_MAX" using assms(1) by (simp add: indexed_def)
  obtain s' where mint: "alr_pts_mint os (oflags AND O_CLOEXEC \<noteq> 0) s = (m, int idx, s')"
    and tab: "g_pts s' = (g_pts s)[idx := fresh_pty idx m sl]" and idx: "idx < ALR_PTS_MAX"
    using mint_success [OF assms(3,5,6,2) len] by blast
  have entry: "pty_ptn (g_pts s' ! idx) = int idx" "pty_slave_fd (g_pts s' ! idx) = sl"
    using tab idx len by (simp_all add: fresh_pty_def)
  have "alr_pts_by_fd m s' = Some (idx, True)" using by_fd_minted [OF _ assms(7) refl tab] idx len assms(4) by simp
  then have "ptsname os m s' = (Some (pts_prefix @ dec_nat idx), s')" using ptsname_minted entry(1) idx by blast
  moreover have "alr_pts_try_open os (Some (pts_prefix @ dec_nat idx)) flags s' =
      (Some (fst (alr_pts_dup_slave os idx (flags AND O_CLOEXEC \<noteq> 0) s')), snd (alr_pts_dup_slave os idx (flags AND O_CLOEXEC \<noteq> 0) s'))"
    using try_open_slave [of idx os flags s'] by_ptn_minted [OF assms(1) idx tab] idx by (simp add: ALR_PTS_MAX_def case_prod_beta)
  moreover have "posix_openpt os oflags s = (m, s')" using mint by (simp add: posix_openpt_def)
  ultimately show ?thesis
    using indexed_mint [OF assms(1) idx tab] dup_slave_parts [of os idx "flags AND O_CLOEXEC \<noteq> 0" s'] entry(2) by auto
qed

section \<open>A session across processes\<close>

lemma adopt_inherited:
  assumes "environ c (slave_env_prefix @ dec_nat idx) = Some (dec_nat (nat sl))" "0 \<le> sl" "sl \<le> 1000000" "idx \<le> 1000000"
    and "os_dupfd os sl cloexec (kern c) = (Inr dfd, k)" and "slot_where (\<lambda>p. \<not> pty_used p) (g_pts c) = Some j"
  shows "\<exists>c'. alr_pts_adopt_inherited_slave os (int idx) cloexec c = (dfd, c') \<and> kern c' = k \<and> environ c' = environ c \<and>
    g_pts c' = (g_pts c)[j := adopted (environ c) (int idx) dfd]"
proof -
  have "parse_inherited (Some (dec_nat (nat sl))) = Some (nat sl)"
    using assms(2,3) dec_nat_start [of "nat sl"] by (simp only: parse_inherited_def parse_dec_nat option.case if_False simp_thms nat_le_iff)
  then show ?thesis
    using assms slave_env_name [of "int idx" 32] by (simp add: alr_pts_adopt_inherited_slave_def Let_def)
qed

lemma exec_child_parts:
  "g_pts (exec_child env k) = replicate ALR_PTS_MAX zero_pty" "environ (exec_child env k) = env" "kern (exec_child env k) = k"
  by (simp_all add: exec_child_def)

lemma empty_table:
  "slot_where (\<lambda>p. \<not> pty_used p) (replicate ALR_PTS_MAX zero_pty) = Some 0"
  "alr_pts_by_ptn n (exec_child env k) = None"
proof -
  show "slot_where (\<lambda>p. \<not> pty_used p) (replicate ALR_PTS_MAX zero_pty) = Some 0"
    by (rule slot_where_eq) (simp_all add: ALR_PTS_MAX_def zero_pty_def)
  have "slot_where (\<lambda>p. pty_used p \<and> pty_ptn p = n) (replicate ALR_PTS_MAX zero_pty) = None"
    by (simp add: slot_where_None zero_pty_def)
  then show "alr_pts_by_ptn n (exec_child env k) = None" by (simp add: alr_pts_by_ptn_def exec_child_parts)
qed

lemma by_fd_adopted:
  assumes "g_pts c = (replicate ALR_PTS_MAX zero_pty)[0 := adopted env n dfd]" and "0 \<le> dfd"
  shows "alr_pts_by_fd dfd c = Some (0, False)"
proof -
  have "slot_where (\<lambda>p. pty_used p \<and> (pty_master_fd p = dfd \<or> pty_slave_fd p = dfd)) (g_pts c) = Some 0"
    using assms by (intro slot_where_eq) (simp_all add: ALR_PTS_MAX_def adopted_def)
  then show ?thesis using assms by (simp add: alr_pts_by_fd_def adopted_def ALR_PTS_MAX_def)
qed

lemma upd_pty_same: "upd_pty i (\<lambda>_. g_pts s ! i) s = s"
  by (simp add: upd_pty_def)

lemma ioctl_known:
  assumes "alr_pts_by_fd fd s = Some (i, b)" and "alr_pts_emulate_ioctl (g_pts s ! i) b request arg = Some (0, pty, arg')"
  shows "pts_ioctl os fd request arg v s =
    Some (0, arg', if request = K_TIOCSWINSZ \<and> b then publish_winsize (pty_win pty) (upd_pty i (\<lambda>_. pty) s) else upd_pty i (\<lambda>_. pty) s)"
  using assms by (simp add: pts_ioctl_def Let_def ALR_PTS_IOCTL_GPTPEER_def ALR_PTS_IOCTL_PASS_def)

lemma resolve_known: "alr_pts_by_fd fd s = Some hit \<Longrightarrow> alr_pts_resolve os fd s = (Some hit, s)"
  by (simp add: alr_pts_resolve_def)

text \<open>Resizing the master publishes the size.\<close>

lemma resize_master:
  assumes "alr_pts_by_fd m s = Some (i, True)" and "pty_used (g_pts s ! i)" and "8 \<le> length buf"
  shows "\<exists>s'. pts_ioctl os m K_TIOCSWINSZ (Some buf) v s = Some (0, Some buf, s') \<and>
    environ s' = (environ s)(''ALR_PTY_WINSZ'' := Some (winsz_text (winsize_of (take 8 buf))))"
  using assms ioctl_known [of m s i True K_TIOCSWINSZ "Some buf"]
  by (simp add: emulate_settings copy_in_def publish_winsize_text)

lemma read_winsize:
  assumes "alr_pts_by_fd fd s = Some (i, b)" and "pty_used (g_pts s ! i)" and "8 \<le> length out"
  shows "pts_ioctl os fd K_TIOCGWINSZ (Some out) v s = Some (0, Some (winsize_bytes (pty_win (g_pts s ! i)) @ drop 8 out), s)"
proof -
  have "alr_pts_emulate_ioctl (g_pts s ! i) b K_TIOCGWINSZ (Some out) =
      Some (0, g_pts s ! i, Some (winsize_bytes (pty_win (g_pts s ! i)) @ drop 8 out))"
    using assms by (simp add: emulate_settings copy_out_def length_settings)
  from ioctl_known [OF assms(1) this, of os v] show ?thesis by (simp add: upd_pty_same pts_requests)
qed

text \<open>What the process started in the terminal gets when it opens the slave by name.\<close>

lemma child_opens:
  assumes "env (slave_env_prefix @ dec_nat idx) = Some (dec_nat (nat sl))" "0 \<le> sl" "sl \<le> 1000000" "idx < ALR_PTS_MAX"
    and "os_dupfd os sl (flags AND O_CLOEXEC \<noteq> 0) k = (Inr dfd, k')" "0 \<le> dfd"
  shows "\<exists>c. alr_pts_try_open os (Some (pts_prefix @ dec_nat idx)) flags (exec_child env k) = (Some dfd, c) \<and> kern c = k' \<and>
    alr_pts_by_fd dfd c = Some (0, False) \<and> g_pts c ! 0 = adopted env (int idx) dfd"
proof -
  have i: "idx \<le> 1000000" using assms(4) by (simp add: ALR_PTS_MAX_def)
  obtain c where ad: "alr_pts_adopt_inherited_slave os (int idx) (flags AND O_CLOEXEC \<noteq> 0) (exec_child env k) = (dfd, c)" "kern c = k'"
    and tab: "g_pts c = (replicate ALR_PTS_MAX zero_pty)[0 := adopted env (int idx) dfd]"
    using adopt_inherited [of "exec_child env k" idx sl os "flags AND O_CLOEXEC \<noteq> 0" dfd k' 0] assms i
    by (auto simp: exec_child_parts empty_table)
  have "alr_pts_try_open os (Some (pts_prefix @ dec_nat idx)) flags (exec_child env k) = (Some dfd, c)"
    using try_open_slave [OF i, of os flags "exec_child env k"] ad assms(6) by (simp add: empty_table)
  moreover have "g_pts c ! 0 = adopted env (int idx) dfd" using tab by (simp add: ALR_PTS_MAX_def)
  ultimately show ?thesis using ad(2) by_fd_adopted [OF tab assms(6)] by blast
qed

lemma env_names:
  "slave_env_prefix @ d \<noteq> ''ALR_PTY_WINSZ''" "slave_env_prefix @ d \<noteq> ''ALR_PTY_ACTIVE''"
  by (simp_all add: slave_env_prefix_def)

text \<open>C39. A terminal session.  The terminal obtains a master and sets its size; the program that it starts afterwards, with an empty table and
  only the environment and the descriptors of its parent, opens the slave by the name that the terminal got, and reaches a duplicate of
  the other end of the same pair.  That descriptor is a terminal, it has the same name, and it reports the size that the terminal set.
\<close>
theorem pty_session:
  assumes "indexed s" and "slot_where (\<lambda>p. \<not> pty_used p) (g_pts s) = Some idx"
    and "os_socketpair os (kern s) = (Inr (m, sl), k)" "0 \<le> m" "0 \<le> sl" "sl \<le> 1000000" and "\<not> holds_fd m s"
    and "8 \<le> length buf" "w = winsize_of (take 8 buf)"
    and "0 < ws_col w" "ws_col w < 10000" "0 < ws_row w" "ws_row w < 10000" and "8 \<le> length out"
    and "os_dupfd os sl (flags AND O_CLOEXEC \<noteq> 0) k' = (Inr dfd, k'')" "0 \<le> dfd"
  shows "\<exists>s1 s2 name c. posix_openpt os oflags s = (m, s1) \<and> ptsname os m s1 = (Some name, s1) \<and>
    pts_ioctl os m K_TIOCSWINSZ (Some buf) v s1 = Some (0, Some buf, s2) \<and>
    alr_pts_try_open os (Some name) flags (exec_child (environ s2) k') = (Some dfd, c) \<and> kern c = k'' \<and>
    pts_isatty os dfd c = (1, c) \<and> ttyname os dfd c = (Some name, c) \<and>
    pts_ioctl os dfd K_TIOCGWINSZ (Some out) v c = Some (0, Some (winsize_bytes (w\<lparr>ws_xpixel := 0, ws_ypixel := 0\<rparr>) @ drop 8 out), c)"
proof -
  have len: "length (g_pts s) = ALR_PTS_MAX" using assms(1) by (simp add: indexed_def)
  obtain s1 where mint: "alr_pts_mint os (oflags AND O_CLOEXEC \<noteq> 0) s = (m, int idx, s1)"
    and tab: "g_pts s1 = (g_pts s)[idx := fresh_pty idx m sl]" and idx: "idx < ALR_PTS_MAX"
    and env1: "environ s1 = (environ s)(''ALR_PTY_ACTIVE'' := Some ''1'', slave_env_prefix @ dec_nat idx := Some (dec_nat (nat sl)))"
    using mint_success [OF assms(3,5,6,2) len] by blast
  have entry: "pty_used (g_pts s1 ! idx)" "pty_ptn (g_pts s1 ! idx) = int idx" using tab idx len by (simp_all add: fresh_pty_def)
  have fd: "alr_pts_by_fd m s1 = Some (idx, True)" using by_fd_minted [OF _ assms(7) refl tab] idx len assms(4) by simp
  obtain s2 where resize: "pts_ioctl os m K_TIOCSWINSZ (Some buf) v s1 = Some (0, Some buf, s2)"
    and env2: "environ s2 = (environ s1)(''ALR_PTY_WINSZ'' := Some (winsz_text w))"
    using resize_master [OF fd entry(1) assms(8)] assms(9) by blast
  have "environ s2 (slave_env_prefix @ dec_nat idx) = Some (dec_nat (nat sl))" using env1 env2 env_names by simp
  from child_opens [of "environ s2" idx sl os flags k' dfd k'', OF this assms(5,6) idx assms(15,16)]
  obtain c where opened: "alr_pts_try_open os (Some (pts_prefix @ dec_nat idx)) flags (exec_child (environ s2) k') = (Some dfd, c)"
      "kern c = k''" and cfd: "alr_pts_by_fd dfd c = Some (0, False)" and ent: "g_pts c ! 0 = adopted (environ s2) (int idx) dfd"
    by blast
  have "pty_win (g_pts c ! 0) = w\<lparr>ws_xpixel := 0, ws_ypixel := 0\<rparr>"
    using winsz_text_read [of "environ s2" w alr_pty_init_winsize] env2 assms(10-13) ent
    by (simp add: adopted_def alr_pty_init_winsize_def)
  then have "pts_ioctl os dfd K_TIOCGWINSZ (Some out) v c = Some (0, Some (winsize_bytes (w\<lparr>ws_xpixel := 0, ws_ypixel := 0\<rparr>) @ drop 8 out), c)"
    using read_winsize [OF cfd _ assms(14), of os v] ent by (simp add: adopted_def)
  moreover have "pts_isatty os dfd c = (1, c)" "ttyname os dfd c = (Some (pts_prefix @ dec_nat idx), c)"
    using resolve_known [OF cfd, of os] ent put_name_dec [of "int idx" 32 c] idx
    by (simp_all add: pts_isatty_def ttyname_def ttyname_r_def adopted_def ALR_PTS_MAX_def)
  moreover have "posix_openpt os oflags s = (m, s1)" using mint by (simp add: posix_openpt_def)
  ultimately show ?thesis using ptsname_minted [OF fd entry(2) idx, of os] resize opened by blast
qed

text \<open>An instance: a kernel that hands out descriptors in order.\<close>

definition counting_os :: "int pts_os" where
  "counting_os = \<lparr>os_socketpair = (\<lambda>n. (Inr (n, n + 1), n + 2)), os_set_cloexec = (\<lambda>_ n. n), os_dupfd = (\<lambda>_ _ n. (Inr n, n + 1)),
     os_close = (\<lambda>_ n. n), os_so_domain = (\<lambda>_ _. Some AF_UNIX), os_so_type = (\<lambda>_ _. Some SOCK_STREAM), os_getpgrp = (\<lambda>_. 1),
     cfsetispeed = (\<lambda>v t. t\<lparr>g_ispeed := v\<rparr>), cfsetospeed = (\<lambda>v t. t\<lparr>g_ospeed := v\<rparr>),
     real_call = (\<lambda>_ n. (\<lparr>rp_ret = - 1, rp_errno = Some ENOTTY, rp_bytes = None, rp_name = None, rp_termios = None\<rparr>, n))\<rparr>"

definition size_40_by_120 :: "byte list" where
  "size_40_by_120 = [40, 0, 120, 0, 0, 0, 0, 0]"

theorem pty_session_witness:
  "\<exists>s1 s2 name c. posix_openpt counting_os 0 (exec_child (\<lambda>_. None) 3) = (3, s1) \<and> ptsname counting_os 3 s1 = (Some name, s1) \<and>
    pts_ioctl counting_os 3 K_TIOCSWINSZ (Some size_40_by_120) 0 s1 = Some (0, Some size_40_by_120, s2) \<and>
    alr_pts_try_open counting_os (Some name) 0 (exec_child (environ s2) 7) = (Some 7, c) \<and> kern c = 8 \<and>
    pts_isatty counting_os 7 c = (1, c) \<and> ttyname counting_os 7 c = (Some name, c) \<and>
    pts_ioctl counting_os 7 K_TIOCGWINSZ (Some size_40_by_120) 0 c =
      Some (0, Some (winsize_bytes ((winsize_of (take 8 size_40_by_120))\<lparr>ws_xpixel := 0, ws_ypixel := 0\<rparr>) @ drop 8 size_40_by_120), c)"
proof (rule pty_session [where idx = 0 and sl = 4 and k = 5])
  show "indexed (exec_child (\<lambda>_. None) 3)" by (simp add: indexed_def exec_child_parts zero_pty_def)
  show "slot_where (\<lambda>p. \<not> pty_used p) (g_pts (exec_child (\<lambda>_. None) 3)) = Some 0" by (simp add: exec_child_parts empty_table)
  show "\<not> holds_fd 3 (exec_child (\<lambda>_. None) (3 :: int))" by (simp add: holds_fd_def exec_child_parts zero_pty_def)
qed (simp_all add: counting_os_def exec_child_parts size_40_by_120_def winsize_of_def half_field_def)

section \<open>Limits of the emulation\<close>

text \<open>In a process that minted, a call on a descriptor outside the table goes to the real library: the duplicate that \<^const>\<open>openpty\<close>
  configures is such a descriptor.\<close>

lemma duplicate_not_emulated:
  "g_pty_minted s \<Longrightarrow> \<not> holds_fd fd s \<Longrightarrow> pts_tcsetattr os fd act t s = call_through os (C_tcsetattr fd act t) s"
  "g_pty_minted s \<Longrightarrow> \<not> holds_fd fd s \<Longrightarrow> pts_isatty os fd s = call_through os (C_isatty fd) s"
  by (simp_all add: pts_tcsetattr_def pts_isatty_def alr_pts_resolve_def by_fd_none)

lemma call_through_table: "g_pts (snd (call_through os c s)) = g_pts s"
  by (simp add: call_through_def forward_def case_prod_beta Let_def)

lemma by_fd_table: "g_pts t = g_pts s \<Longrightarrow> alr_pts_by_fd fd t = alr_pts_by_fd fd s"
  by (simp add: alr_pts_by_fd_def cong: option.case_cong)

text \<open>An adopted entry outlives its descriptor: after the close, the number still counts as a terminal.\<close>

lemma closed_slave_still_known:
  "alr_pts_by_fd fd s = Some (i, False) \<Longrightarrow> alr_pts_by_fd fd (snd (pts_close os fd s)) = Some (i, False)"
  using by_fd_table [OF call_through_table, of fd os "C_close fd" s] by (simp add: pts_close_def)

text \<open>A process that adopted the terminal 1 and then mints its own gets the number 1, under which the adopted one is found.\<close>

definition adopted_one :: "int proc" where
  "adopted_one = (exec_child (\<lambda>_. None) 9)\<lparr>g_pts := (replicate ALR_PTS_MAX zero_pty)[0 := adopted (\<lambda>_. None) 1 5]\<rparr>"

lemma adopted_name_collides:
  "fst (snd (alr_pts_mint counting_os False adopted_one)) = 1"
  "alr_pts_by_ptn 1 (snd (snd (alr_pts_mint counting_os False adopted_one))) = Some 0"
proof -
  have f: "slot_where (\<lambda>p. \<not> pty_used p) (g_pts adopted_one) = Some 1"
    by (rule slot_where_eq) (simp_all add: adopted_one_def ALR_PTS_MAX_def zero_pty_def adopted_def)
  from mint_success [of counting_os adopted_one 9 10 11 1 False] f
  obtain s' where m: "alr_pts_mint counting_os False adopted_one = (9, 1, s')" "g_pts s' = (g_pts adopted_one)[1 := fresh_pty 1 9 10]"
    by (auto simp: counting_os_def adopted_one_def exec_child_parts)
  show "fst (snd (alr_pts_mint counting_os False adopted_one)) = 1" using m by simp
  have "slot_where (\<lambda>p. pty_used p \<and> pty_ptn p = 1) (g_pts s') = Some 0"
    using m(2) by (intro slot_where_eq) (simp_all add: adopted_one_def ALR_PTS_MAX_def adopted_def)
  then show "alr_pts_by_ptn 1 (snd (snd (alr_pts_mint counting_os False adopted_one))) = Some 0" using m by (simp add: alr_pts_by_ptn_def)
qed

end
