(* ===== verification/Preload_Calls.thy ===== *)
theory Preload_Calls
  imports Preload_Rewrite Alr_Pts_Table
begin

text \<open>
  The calls of the C library that the preloaded library replaces, and its constructor, \<^verbatim>\<open>alr_interpose/libalr_interpose.c\<close>.  A
  wrapper rewrites its path and then issues a system call through the trampoline or a call of the next library.  What is issued is data
  of type \<open>issue\<close>; the kernel and the next library are the parameter \<open>po_issue\<close> that answers it.  Pointers to buffers and
  handles are numbers that pass through.  Diagnostic lines, which are off by default, are not modelled.
\<close>

section \<open>State\<close>

datatype call_arg = Path "string option" | Num int | Addr "sockaddr option"

datatype issue = Tramp nat "call_arg list" | Real string "call_arg list"

record answer =
  an_ret :: int
  an_errno :: "int option"
  an_text :: "string option"

record 'k pre_os =
  po_pts :: "'k pts_os"
  po_issue :: "issue \<Rightarrow> 'k \<Rightarrow> answer \<times> 'k"
  po_traps :: "issue \<Rightarrow> 'k \<Rightarrow> bool"

record 'k lib =
  lb_proc :: "'k proc"
  lb_suppress :: nat
  lb_ids :: "nat \<Rightarrow> u32"

abbreviation lib_errno :: "'k lib \<Rightarrow> int" where "lib_errno s \<equiv> errno (lb_proc s)"

definition AT_FDCWD_P :: int where "AT_FDCWD_P = - 100"
definition AT_SYMLINK_NOFOLLOW_P :: int where "AT_SYMLINK_NOFOLLOW_P = 0x100"
definition AT_REMOVEDIR :: int where "AT_REMOVEDIR = 0x200"
definition AT_EACCESS :: int where "AT_EACCESS = 0x200"
definition EPERM :: int where "EPERM = 1"
definition EACCES_P :: int where "EACCES_P = 13"
definition EISDIR :: int where "EISDIR = 21"
definition ENOSYS :: int where "ENOSYS = 38"
definition O_WRONLY :: u32 where "O_WRONLY = 1"
definition O_RDWR :: u32 where "O_RDWR = 2"
definition O_CREAT :: u32 where "O_CREAT = 0x40"
definition O_EXCL :: u32 where "O_EXCL = 0x80"
definition O_TRUNC :: u32 where "O_TRUNC = 0x200"
definition O_APPEND :: u32 where "O_APPEND = 0x400"
definition O_NONBLOCK :: u32 where "O_NONBLOCK = 0x800"
definition O_DIRECTORY :: u32 where "O_DIRECTORY = 0x4000"
definition O_PATH :: u32 where "O_PATH = 0x200000"
definition O_TMPFILE :: u32 where "O_TMPFILE = 0x404000"
definition RESOLVE_IN_ROOT :: int where "RESOLVE_IN_ROOT = 0x10"

definition set_lib_errno :: "int \<Rightarrow> 'k lib \<Rightarrow> 'k lib" where
  "set_lib_errno e s = s\<lparr>lb_proc := set_errno e (lb_proc s)\<rparr>"

definition do_issue :: "'k pre_os \<Rightarrow> issue \<Rightarrow> 'k lib \<Rightarrow> answer \<times> 'k lib" where
  "do_issue os i s =
     (let (a, k) = po_issue os i (kern (lb_proc s));
          p = (lb_proc s)\<lparr>kern := k, errno := (case an_errno a of None \<Rightarrow> lib_errno s | Some e \<Rightarrow> e)\<rparr>
      in (a, s\<lparr>lb_proc := p\<rparr>))"

definition next_call :: "'k pre_os \<Rightarrow> string \<Rightarrow> call_arg list \<Rightarrow> 'k lib \<Rightarrow> int \<times> 'k lib" where
  "next_call os name args s = (let (a, s) = do_issue os (Real name args) s in (an_ret a, s))"

definition alr_ret :: "int \<times> 'k lib \<Rightarrow> int \<times> 'k lib" where
  "alr_ret rs = (case rs of (r, s) \<Rightarrow> if r < 0 \<and> - 4095 \<le> r then (- 1, set_lib_errno (- r) s) else (r, s))"

definition tramp_raw :: "'k pre_os \<Rightarrow> nat \<Rightarrow> call_arg list \<Rightarrow> 'k lib \<Rightarrow> int \<times> 'k lib" where
  "tramp_raw os nr args s = (let (a, s) = do_issue os (Tramp nr args) s in (an_ret a, s))"

definition tramp :: "'k pre_os \<Rightarrow> nat \<Rightarrow> call_arg list \<Rightarrow> 'k lib \<Rightarrow> int \<times> 'k lib" where
  "tramp os nr args s = alr_ret (tramp_raw os nr args s)"

definition libc_path :: "preload \<Rightarrow> 'k lib \<Rightarrow> string option \<Rightarrow> string option" where
  "libc_path c s path = rw c (lb_suppress s) path PRELOAD_PBUF"

definition at_path :: "preload \<Rightarrow> 'k lib \<Rightarrow> string option \<Rightarrow> string option" where
  "at_path c s path = (case path of Some p \<Rightarrow> if absolute p then libc_path c s path else path | None \<Rightarrow> path)"

section \<open>The constructor\<close>

text \<open>A probe runs under a handler for the signal that a forbidden call raises.\<close>

definition alr_probe_guarded :: "'k pre_os \<Rightarrow> issue \<Rightarrow> 'k lib \<Rightarrow> int \<times> 'k lib" where
  "alr_probe_guarded os body s =
     (let (h, s) = tramp_raw os 134 [Num 31] s
      in if h \<noteq> 0 then (- ENOSYS, s)
         else
           let (rc, s) = (if po_traps os body (kern (lb_proc s)) then (- ENOSYS, s)
                          else let (a, s) = do_issue os body s in (an_ret a, s));
               (_, s) = tramp_raw os 134 [Num 31] s
           in (rc, s))"

definition probe_flags :: int where "probe_flags = uint (O_PATH OR O_DIRECTORY OR O_CLOEXEC)"

definition alr_probe_openat2_body :: "preload \<Rightarrow> issue" where
  "alr_probe_openat2_body c = Tramp 437 [Num (g_rootfs_fd c), Path (Some ''.''), Num probe_flags, Num 0, Num RESOLVE_IN_ROOT]"

definition alr_probe_faccessat2_body :: issue where
  "alr_probe_faccessat2_body = Tramp 439 [Num AT_FDCWD_P, Path (Some ''/''), Num 0, Num 0]"

definition alr_open_rootfs_fd :: "'k pre_os \<Rightarrow> preload \<Rightarrow> 'k lib \<Rightarrow> preload \<times> 'k lib" where
  "alr_open_rootfs_fd os c s =
     (let (fd, s) = tramp_raw os 56 [Num AT_FDCWD_P, Path (Some (g_rootfs c)), Num probe_flags, Num 0] s
      in if fd < 0 then (c, s)
         else
           let c = c\<lparr>g_rootfs_fd := fd\<rparr>; (t, s) = alr_probe_guarded os (alr_probe_openat2_body c) s
           in if t < 0 then (c, s) else (c\<lparr>g_openat2_ok := True\<rparr>, snd (tramp_raw os 57 [Num t] s)))"

definition alr_probe_faccessat2 :: "'k pre_os \<Rightarrow> preload \<Rightarrow> 'k lib \<Rightarrow> preload \<times> 'k lib" where
  "alr_probe_faccessat2 os c s =
     (let (r, s) = alr_probe_guarded os alr_probe_faccessat2_body s in (c\<lparr>g_faccessat2_ok := (r \<noteq> - ENOSYS)\<rparr>, s))"

definition ctor_config :: "(string \<Rightarrow> string option) \<Rightarrow> preload" where
  "ctor_config env =
     (alr_init env)\<lparr>g_pcgate := (case env ''ALR_PCGATE'' of None \<Rightarrow> True | Some g \<Rightarrow> g = [] \<or> hd g \<noteq> CHR ''0'')\<rparr>"

definition ctor_session :: "'k lib \<Rightarrow> 'k lib" where
  "ctor_session s =
     s\<lparr>lb_proc := (lb_proc s)\<lparr>g_pty_active :=
       (case environ (lb_proc s) ''ALR_PTY_ACTIVE'' of None \<Rightarrow> False | Some v \<Rightarrow> v \<noteq> [] \<and> hd v \<noteq> CHR ''0'')\<rparr>\<rparr>"

text \<open>The configuration, and the filter that is installed, for the trampoline's bounds.\<close>

definition alr_ctor ::
  "'k pre_os \<Rightarrow> u64 \<Rightarrow> u64 \<Rightarrow> 'k lib \<Rightarrow> preload \<times> bpf_insn list option \<times> 'k lib" where
  "alr_ctor os lo hi s =
     (let c = ctor_config (environ (lb_proc s));
          s = ctor_session s;
          (c, s) = (if 0 < g_rootfs_len c then alr_open_rootfs_fd os c s else (c, s));
          (c, s) = alr_probe_faccessat2 os c s
      in (c, if g_pcgate c \<and> lo < hi then Some (pcgated_filter lo hi) else None, s))"

section \<open>Opening\<close>

definition needs_mode :: "u32 \<Rightarrow> bool" where
  "needs_mode flags \<longleftrightarrow> flags AND (O_CREAT OR O_TMPFILE) \<noteq> 0"

text \<open>The third argument of a variadic open: whatever the caller's register holds.\<close>

definition alr_va_mode :: "u32 \<Rightarrow> u32 \<Rightarrow> u32" where
  "alr_va_mode flags va = (if needs_mode flags then va else 0)"

definition anchored_rel :: "string \<Rightarrow> string" where
  "anchored_rel p = (if tl p = [] then ''.'' else tl p)"

definition alr_open_emit :: "'k pre_os \<Rightarrow> preload \<Rightarrow> int \<Rightarrow> string option \<Rightarrow> u32 \<Rightarrow> u32 \<Rightarrow> 'k lib \<Rightarrow> int \<times> 'k lib" where
  "alr_open_emit os c dirfd path flags mode s =
     (case alr_pts_try_open (po_pts os) path flags (lb_proc s) of
        (Some fd, p) \<Rightarrow> (fd, s\<lparr>lb_proc := p\<rparr>)
      | (None, p) \<Rightarrow>
          let s = s\<lparr>lb_proc := p\<rparr>
          in if g_openat2_ok c \<and> 0 \<le> g_rootfs_fd c \<and> path \<noteq> None \<and> absolute (the path) \<and> \<not> kernel_fs (the path) \<and>
                \<not> already_host c (the path) then
               tramp os 437 [Num (g_rootfs_fd c), Path (Some (anchored_rel (the path))), Num (uint flags),
                 Num (if needs_mode flags then uint mode else 0), Num RESOLVE_IN_ROOT] s
             else tramp os 56 [Num dirfd, Path (at_path c s path), Num (uint flags), Num (uint mode)] s)"

text \<open>Without the gate: the terminal devices first, then the next library.\<close>

definition baseline_open :: "'k pre_os \<Rightarrow> string \<Rightarrow> call_arg list \<Rightarrow> string option \<Rightarrow> u32 \<Rightarrow> 'k lib \<Rightarrow> int \<times> 'k lib" where
  "baseline_open os name args path flags s =
     (case alr_pts_try_open (po_pts os) path flags (lb_proc s) of
        (Some fd, p) \<Rightarrow> (fd, s\<lparr>lb_proc := p\<rparr>)
      | (None, p) \<Rightarrow> next_call os name args (s\<lparr>lb_proc := p\<rparr>))"

definition il_open_as :: "string \<Rightarrow> 'k pre_os \<Rightarrow> preload \<Rightarrow> string option \<Rightarrow> u32 \<Rightarrow> u32 \<Rightarrow> 'k lib \<Rightarrow> int \<times> 'k lib" where
  "il_open_as name os c path flags va s =
     (let m = alr_va_mode flags va
      in if g_pcgate c then alr_open_emit os c AT_FDCWD_P path flags m s
         else baseline_open os name [Path (libc_path c s path), Num (uint flags), Num (uint m)] path flags s)"

definition il_open :: "'k pre_os \<Rightarrow> preload \<Rightarrow> string option \<Rightarrow> u32 \<Rightarrow> u32 \<Rightarrow> 'k lib \<Rightarrow> int \<times> 'k lib" where
  "il_open = il_open_as ''open''"
definition il_open64 :: "'k pre_os \<Rightarrow> preload \<Rightarrow> string option \<Rightarrow> u32 \<Rightarrow> u32 \<Rightarrow> 'k lib \<Rightarrow> int \<times> 'k lib" where
  "il_open64 = il_open_as ''open64''"

definition il_open_2_as :: "string \<Rightarrow> 'k pre_os \<Rightarrow> preload \<Rightarrow> string option \<Rightarrow> u32 \<Rightarrow> 'k lib \<Rightarrow> int \<times> 'k lib" where
  "il_open_2_as name os c path flags s =
     (if g_pcgate c then alr_open_emit os c AT_FDCWD_P path flags 0 s else next_call os name [Path (libc_path c s path), Num (uint flags)] s)"

definition il_open_2 :: "'k pre_os \<Rightarrow> preload \<Rightarrow> string option \<Rightarrow> u32 \<Rightarrow> 'k lib \<Rightarrow> int \<times> 'k lib" where
  "il_open_2 = il_open_2_as ''__open_2''"
definition il_open64_2 :: "'k pre_os \<Rightarrow> preload \<Rightarrow> string option \<Rightarrow> u32 \<Rightarrow> 'k lib \<Rightarrow> int \<times> 'k lib" where
  "il_open64_2 = il_open_2_as ''__open64_2''"

definition il_openat_as :: "string \<Rightarrow> 'k pre_os \<Rightarrow> preload \<Rightarrow> int \<Rightarrow> string option \<Rightarrow> u32 \<Rightarrow> u32 \<Rightarrow> 'k lib \<Rightarrow> int \<times> 'k lib" where
  "il_openat_as name os c dirfd path flags va s =
     (let m = alr_va_mode flags va
      in if g_pcgate c then alr_open_emit os c dirfd path flags m s
         else baseline_open os name [Num dirfd, Path (at_path c s path), Num (uint flags), Num (uint m)] path flags s)"

definition il_openat :: "'k pre_os \<Rightarrow> preload \<Rightarrow> int \<Rightarrow> string option \<Rightarrow> u32 \<Rightarrow> u32 \<Rightarrow> 'k lib \<Rightarrow> int \<times> 'k lib" where
  "il_openat = il_openat_as ''openat''"
definition il_openat64 :: "'k pre_os \<Rightarrow> preload \<Rightarrow> int \<Rightarrow> string option \<Rightarrow> u32 \<Rightarrow> u32 \<Rightarrow> 'k lib \<Rightarrow> int \<times> 'k lib" where
  "il_openat64 = il_openat_as ''openat64''"

definition il_openat_2_as :: "string \<Rightarrow> 'k pre_os \<Rightarrow> preload \<Rightarrow> int \<Rightarrow> string option \<Rightarrow> u32 \<Rightarrow> 'k lib \<Rightarrow> int \<times> 'k lib" where
  "il_openat_2_as name os c dirfd path flags s =
     (if g_pcgate c then alr_open_emit os c dirfd path flags 0 s
      else next_call os name [Num dirfd, Path (at_path c s path), Num (uint flags)] s)"

definition il_openat_2 :: "'k pre_os \<Rightarrow> preload \<Rightarrow> int \<Rightarrow> string option \<Rightarrow> u32 \<Rightarrow> 'k lib \<Rightarrow> int \<times> 'k lib" where
  "il_openat_2 = il_openat_2_as ''__openat_2''"
definition il_openat64_2 :: "'k pre_os \<Rightarrow> preload \<Rightarrow> int \<Rightarrow> string option \<Rightarrow> u32 \<Rightarrow> 'k lib \<Rightarrow> int \<times> 'k lib" where
  "il_openat64_2 = il_openat_2_as ''__openat64_2''"

definition il_creat_as :: "string \<Rightarrow> 'k pre_os \<Rightarrow> preload \<Rightarrow> string option \<Rightarrow> u32 \<Rightarrow> 'k lib \<Rightarrow> int \<times> 'k lib" where
  "il_creat_as name os c path mode s =
     (if g_pcgate c then alr_open_emit os c AT_FDCWD_P path (O_CREAT OR O_WRONLY OR O_TRUNC) mode s
      else next_call os name [Path (libc_path c s path), Num (uint mode)] s)"

definition il_creat :: "'k pre_os \<Rightarrow> preload \<Rightarrow> string option \<Rightarrow> u32 \<Rightarrow> 'k lib \<Rightarrow> int \<times> 'k lib" where
  "il_creat = il_creat_as ''creat''"
definition il_creat64 :: "'k pre_os \<Rightarrow> preload \<Rightarrow> string option \<Rightarrow> u32 \<Rightarrow> 'k lib \<Rightarrow> int \<times> 'k lib" where
  "il_creat64 = il_creat_as ''creat64''"

section \<open>Metadata\<close>

definition alr_stat_emit :: "'k pre_os \<Rightarrow> preload \<Rightarrow> int \<Rightarrow> string option \<Rightarrow> int \<Rightarrow> int \<Rightarrow> 'k lib \<Rightarrow> int \<times> 'k lib" where
  "alr_stat_emit os c dirfd path buf flags s = tramp os 79 [Num dirfd, Path (at_path c s path), Num buf, Num flags] s"

definition alr_statx_emit :: "'k pre_os \<Rightarrow> preload \<Rightarrow> int \<Rightarrow> string option \<Rightarrow> int \<Rightarrow> int \<Rightarrow> int \<Rightarrow> 'k lib \<Rightarrow> int \<times> 'k lib" where
  "alr_statx_emit os c dirfd path flags fmask buf s =
     tramp os 291 [Num dirfd, Path (at_path c s path), Num flags, Num fmask, Num buf] s"

definition il_stat_as :: "string \<Rightarrow> int \<Rightarrow> 'k pre_os \<Rightarrow> preload \<Rightarrow> string option \<Rightarrow> int \<Rightarrow> 'k lib \<Rightarrow> int \<times> 'k lib" where
  "il_stat_as name nofollow os c path out s =
     (if g_pcgate c then alr_stat_emit os c AT_FDCWD_P path out nofollow s else next_call os name [Path (libc_path c s path), Num out] s)"

definition il_stat :: "'k pre_os \<Rightarrow> preload \<Rightarrow> string option \<Rightarrow> int \<Rightarrow> 'k lib \<Rightarrow> int \<times> 'k lib" where
  "il_stat = il_stat_as ''stat'' 0"
definition il_lstat :: "'k pre_os \<Rightarrow> preload \<Rightarrow> string option \<Rightarrow> int \<Rightarrow> 'k lib \<Rightarrow> int \<times> 'k lib" where
  "il_lstat = il_stat_as ''lstat'' AT_SYMLINK_NOFOLLOW_P"
definition il_stat64 :: "'k pre_os \<Rightarrow> preload \<Rightarrow> string option \<Rightarrow> int \<Rightarrow> 'k lib \<Rightarrow> int \<times> 'k lib" where
  "il_stat64 = il_stat_as ''stat64'' 0"
definition il_lstat64 :: "'k pre_os \<Rightarrow> preload \<Rightarrow> string option \<Rightarrow> int \<Rightarrow> 'k lib \<Rightarrow> int \<times> 'k lib" where
  "il_lstat64 = il_stat_as ''lstat64'' AT_SYMLINK_NOFOLLOW_P"

definition il_xstat_as :: "string \<Rightarrow> int \<Rightarrow> 'k pre_os \<Rightarrow> preload \<Rightarrow> int \<Rightarrow> string option \<Rightarrow> int \<Rightarrow> 'k lib \<Rightarrow> int \<times> 'k lib" where
  "il_xstat_as name nofollow os c ver path buf s =
     (if g_pcgate c then alr_stat_emit os c AT_FDCWD_P path buf nofollow s
      else next_call os name [Num ver, Path (libc_path c s path), Num buf] s)"

definition il_xstat :: "'k pre_os \<Rightarrow> preload \<Rightarrow> int \<Rightarrow> string option \<Rightarrow> int \<Rightarrow> 'k lib \<Rightarrow> int \<times> 'k lib" where
  "il_xstat = il_xstat_as ''__xstat'' 0"
definition il_lxstat :: "'k pre_os \<Rightarrow> preload \<Rightarrow> int \<Rightarrow> string option \<Rightarrow> int \<Rightarrow> 'k lib \<Rightarrow> int \<times> 'k lib" where
  "il_lxstat = il_xstat_as ''__lxstat'' AT_SYMLINK_NOFOLLOW_P"
definition il_xstat64 :: "'k pre_os \<Rightarrow> preload \<Rightarrow> int \<Rightarrow> string option \<Rightarrow> int \<Rightarrow> 'k lib \<Rightarrow> int \<times> 'k lib" where
  "il_xstat64 = il_xstat_as ''__xstat64'' 0"
definition il_lxstat64 :: "'k pre_os \<Rightarrow> preload \<Rightarrow> int \<Rightarrow> string option \<Rightarrow> int \<Rightarrow> 'k lib \<Rightarrow> int \<times> 'k lib" where
  "il_lxstat64 = il_xstat_as ''__lxstat64'' AT_SYMLINK_NOFOLLOW_P"

definition il_fstatat_as :: "string \<Rightarrow> 'k pre_os \<Rightarrow> preload \<Rightarrow> int \<Rightarrow> string option \<Rightarrow> int \<Rightarrow> int \<Rightarrow> 'k lib \<Rightarrow> int \<times> 'k lib" where
  "il_fstatat_as name os c dirfd path buf flags s =
     (if g_pcgate c then alr_stat_emit os c dirfd path buf flags s
      else next_call os name [Num dirfd, Path (at_path c s path), Num buf, Num flags] s)"

definition il_fstatat :: "'k pre_os \<Rightarrow> preload \<Rightarrow> int \<Rightarrow> string option \<Rightarrow> int \<Rightarrow> int \<Rightarrow> 'k lib \<Rightarrow> int \<times> 'k lib" where
  "il_fstatat = il_fstatat_as ''fstatat''"
definition il_fstatat64 :: "'k pre_os \<Rightarrow> preload \<Rightarrow> int \<Rightarrow> string option \<Rightarrow> int \<Rightarrow> int \<Rightarrow> 'k lib \<Rightarrow> int \<times> 'k lib" where
  "il_fstatat64 = il_fstatat_as ''fstatat64''"
definition il_newfstatat :: "'k pre_os \<Rightarrow> preload \<Rightarrow> int \<Rightarrow> string option \<Rightarrow> int \<Rightarrow> int \<Rightarrow> 'k lib \<Rightarrow> int \<times> 'k lib" where
  "il_newfstatat = il_fstatat_as ''newfstatat''"

definition il_fxstatat_as :: "string \<Rightarrow> 'k pre_os \<Rightarrow> preload \<Rightarrow> int \<Rightarrow> int \<Rightarrow> string option \<Rightarrow> int \<Rightarrow> int \<Rightarrow> 'k lib \<Rightarrow> int \<times> 'k lib" where
  "il_fxstatat_as name os c ver dirfd path buf flags s =
     (if g_pcgate c then alr_stat_emit os c dirfd path buf flags s
      else next_call os name [Num ver, Num dirfd, Path (at_path c s path), Num buf, Num flags] s)"

definition il_fxstatat :: "'k pre_os \<Rightarrow> preload \<Rightarrow> int \<Rightarrow> int \<Rightarrow> string option \<Rightarrow> int \<Rightarrow> int \<Rightarrow> 'k lib \<Rightarrow> int \<times> 'k lib" where
  "il_fxstatat = il_fxstatat_as ''__fxstatat''"
definition il_fxstatat64 :: "'k pre_os \<Rightarrow> preload \<Rightarrow> int \<Rightarrow> int \<Rightarrow> string option \<Rightarrow> int \<Rightarrow> int \<Rightarrow> 'k lib \<Rightarrow> int \<times> 'k lib" where
  "il_fxstatat64 = il_fxstatat_as ''__fxstatat64''"

definition il_statx :: "'k pre_os \<Rightarrow> preload \<Rightarrow> int \<Rightarrow> string option \<Rightarrow> int \<Rightarrow> int \<Rightarrow> int \<Rightarrow> 'k lib \<Rightarrow> int \<times> 'k lib" where
  "il_statx os c dirfd path flags fmask buf s =
     (if g_pcgate c then alr_statx_emit os c dirfd path flags fmask buf s
      else next_call os ''statx'' [Num dirfd, Path (at_path c s path), Num flags, Num fmask, Num buf] s)"

definition il_statfs_as :: "string \<Rightarrow> 'k pre_os \<Rightarrow> preload \<Rightarrow> string option \<Rightarrow> int \<Rightarrow> 'k lib \<Rightarrow> int \<times> 'k lib" where
  "il_statfs_as name os c path buf s = next_call os name [Path (at_path c s path), Num buf] s"

definition il_statvfs :: "'k pre_os \<Rightarrow> preload \<Rightarrow> string option \<Rightarrow> int \<Rightarrow> 'k lib \<Rightarrow> int \<times> 'k lib" where
  "il_statvfs = il_statfs_as ''statvfs''"
definition il_statvfs64 :: "'k pre_os \<Rightarrow> preload \<Rightarrow> string option \<Rightarrow> int \<Rightarrow> 'k lib \<Rightarrow> int \<times> 'k lib" where
  "il_statvfs64 = il_statfs_as ''statvfs64''"
definition il_statfs :: "'k pre_os \<Rightarrow> preload \<Rightarrow> string option \<Rightarrow> int \<Rightarrow> 'k lib \<Rightarrow> int \<times> 'k lib" where
  "il_statfs = il_statfs_as ''statfs''"
definition il_statfs64 :: "'k pre_os \<Rightarrow> preload \<Rightarrow> string option \<Rightarrow> int \<Rightarrow> 'k lib \<Rightarrow> int \<times> 'k lib" where
  "il_statfs64 = il_statfs_as ''statfs64''"

section \<open>Access and links\<close>

definition alr_access_emit :: "'k pre_os \<Rightarrow> preload \<Rightarrow> int \<Rightarrow> string option \<Rightarrow> int \<Rightarrow> int \<Rightarrow> 'k lib \<Rightarrow> int \<times> 'k lib" where
  "alr_access_emit os c dirfd path mode flags s =
     (if flags \<noteq> 0 \<and> g_faccessat2_ok c then tramp os 439 [Num dirfd, Path (at_path c s path), Num mode, Num flags] s
      else tramp os 48 [Num dirfd, Path (at_path c s path), Num mode, Num 0] s)"

definition il_access :: "'k pre_os \<Rightarrow> preload \<Rightarrow> string option \<Rightarrow> int \<Rightarrow> 'k lib \<Rightarrow> int \<times> 'k lib" where
  "il_access os c path mode s =
     (if g_pcgate c then alr_access_emit os c AT_FDCWD_P path mode 0 s
      else next_call os ''access'' [Path (libc_path c s path), Num mode] s)"

definition il_eaccess_as :: "string \<Rightarrow> 'k pre_os \<Rightarrow> preload \<Rightarrow> string option \<Rightarrow> int \<Rightarrow> 'k lib \<Rightarrow> int \<times> 'k lib" where
  "il_eaccess_as name os c path mode s =
     (if g_pcgate c then alr_access_emit os c AT_FDCWD_P path mode (if g_faccessat2_ok c then AT_EACCESS else 0) s
      else next_call os name [Path (libc_path c s path), Num mode] s)"

definition il_euidaccess :: "'k pre_os \<Rightarrow> preload \<Rightarrow> string option \<Rightarrow> int \<Rightarrow> 'k lib \<Rightarrow> int \<times> 'k lib" where
  "il_euidaccess = il_eaccess_as ''euidaccess''"
definition il_eaccess :: "'k pre_os \<Rightarrow> preload \<Rightarrow> string option \<Rightarrow> int \<Rightarrow> 'k lib \<Rightarrow> int \<times> 'k lib" where
  "il_eaccess = il_eaccess_as ''eaccess''"

definition il_faccessat :: "'k pre_os \<Rightarrow> preload \<Rightarrow> int \<Rightarrow> string option \<Rightarrow> int \<Rightarrow> int \<Rightarrow> 'k lib \<Rightarrow> int \<times> 'k lib" where
  "il_faccessat os c dirfd path mode flags s =
     (if g_pcgate c then alr_access_emit os c dirfd path mode flags s
      else next_call os ''faccessat'' [Num dirfd, Path (at_path c s path), Num mode, Num flags] s)"

definition il_faccessat2 :: "'k pre_os \<Rightarrow> preload \<Rightarrow> int \<Rightarrow> string option \<Rightarrow> int \<Rightarrow> int \<Rightarrow> 'k lib \<Rightarrow> int \<times> 'k lib" where
  "il_faccessat2 os c dirfd path mode flags s =
     (if g_pcgate c then tramp os 439 [Num dirfd, Path (at_path c s path), Num mode, Num flags] s
      else next_call os ''faccessat2'' [Num dirfd, Path (at_path c s path), Num mode, Num flags] s)"

text \<open>The result of a link: the count, and the bytes that were put into the buffer.\<close>

definition next_text :: "'k pre_os \<Rightarrow> issue \<Rightarrow> 'k lib \<Rightarrow> (int \<times> string option) \<times> 'k lib" where
  "next_text os i s =
     (let (a, s) = do_issue os i s;
          (r, s) = (case i of Tramp _ _ \<Rightarrow> alr_ret (an_ret a, s) | Real _ _ \<Rightarrow> (an_ret a, s))
      in ((r, an_text a), s))"

definition alr_readlink_emit :: "'k pre_os \<Rightarrow> preload \<Rightarrow> int \<Rightarrow> string option \<Rightarrow> nat \<Rightarrow> 'k lib \<Rightarrow> (int \<times> string option) \<times> 'k lib" where
  "alr_readlink_emit os c dirfd path bufsiz s =
     (if g_guest_exe c \<noteq> [] \<and> (path = Some ''/proc/self/exe'' \<or> path = Some ''/proc/self/exe/'') then
        let n = min (length (g_guest_exe c)) bufsiz in ((int n, Some (take n (g_guest_exe c))), s)
      else next_text os (Tramp 78 [Num dirfd, Path (at_path c s path), Num (int bufsiz)]) s)"

definition il_readlink :: "'k pre_os \<Rightarrow> preload \<Rightarrow> string option \<Rightarrow> nat \<Rightarrow> 'k lib \<Rightarrow> (int \<times> string option) \<times> 'k lib" where
  "il_readlink os c path bufsiz s =
     (if g_pcgate c then alr_readlink_emit os c AT_FDCWD_P path bufsiz s
      else next_text os (Real ''readlink'' [Path (libc_path c s path), Num (int bufsiz)]) s)"

definition il_readlinkat :: "'k pre_os \<Rightarrow> preload \<Rightarrow> int \<Rightarrow> string option \<Rightarrow> nat \<Rightarrow> 'k lib \<Rightarrow> (int \<times> string option) \<times> 'k lib" where
  "il_readlinkat os c dirfd path bufsiz s =
     (if g_pcgate c then alr_readlink_emit os c dirfd path bufsiz s
      else next_text os (Real ''readlinkat'' [Num dirfd, Path (at_path c s path), Num (int bufsiz)]) s)"

definition il_readlink_chk :: "'k pre_os \<Rightarrow> preload \<Rightarrow> string option \<Rightarrow> nat \<Rightarrow> nat \<Rightarrow> 'k lib \<Rightarrow> (int \<times> string option) \<times> 'k lib" where
  "il_readlink_chk os c path bufsiz buflen s =
     (if buflen < bufsiz then ((- 1, None), set_lib_errno EINVAL s)
      else if g_pcgate c then alr_readlink_emit os c AT_FDCWD_P path bufsiz s
      else next_text os (Real ''__readlink_chk'' [Path (libc_path c s path), Num (int bufsiz), Num (int buflen)]) s)"

definition il_readlinkat_chk :: "'k pre_os \<Rightarrow> preload \<Rightarrow> int \<Rightarrow> string option \<Rightarrow> nat \<Rightarrow> nat \<Rightarrow> 'k lib \<Rightarrow> (int \<times> string option) \<times> 'k lib" where
  "il_readlinkat_chk os c dirfd path bufsiz buflen s =
     (if buflen < bufsiz then ((- 1, None), set_lib_errno EINVAL s)
      else if g_pcgate c then alr_readlink_emit os c dirfd path bufsiz s
      else next_text os (Real ''__readlinkat_chk'' [Num dirfd, Path (at_path c s path), Num (int bufsiz), Num (int buflen)]) s)"

section \<open>Sockets\<close>

definition il_bind :: "'k pre_os \<Rightarrow> preload \<Rightarrow> int \<Rightarrow> sockaddr option \<Rightarrow> 'k lib \<Rightarrow> int \<times> 'k lib" where
  "il_bind os c fd addr s =
     (let try = (\<lambda>x s. case x of None \<Rightarrow> (False, s) | Some a \<Rightarrow> (let (r, s) = next_call os ''bind'' [Num fd, Addr (Some a)] s in (r = 0, s)));
          (ok, s) = try (alr_cr_singleton_xform c addr) s
      in if ok then (0, s)
         else
           let (ok, s) = try (alr_x11_sock_xform c addr) s
           in if ok then (0, s)
              else
                let (r, s) = next_call os ''bind'' [Num fd, Addr addr] s
                in if r \<noteq> 0 \<and> (lib_errno s = EACCES_P \<or> lib_errno s = EPERM) \<and> map_option fst addr = Some AF_NETLINK
                   then (0, set_lib_errno 0 s) else (r, s))"

definition il_connect :: "'k pre_os \<Rightarrow> preload \<Rightarrow> int \<Rightarrow> sockaddr option \<Rightarrow> 'k lib \<Rightarrow> int \<times> 'k lib" where
  "il_connect os c fd addr s =
     (let a = (case alr_cr_singleton_xform c addr of
                 Some a \<Rightarrow> Some a
               | None \<Rightarrow> (case alr_x11_sock_xform c addr of Some a \<Rightarrow> Some a | None \<Rightarrow> addr))
      in next_call os ''connect'' [Num fd, Addr a] s)"

definition il_accept :: "'k pre_os \<Rightarrow> preload \<Rightarrow> int \<Rightarrow> int \<Rightarrow> int \<Rightarrow> 'k lib \<Rightarrow> int \<times> 'k lib" where
  "il_accept os c fd addr len s = next_call os ''accept4'' [Num fd, Num addr, Num len, Num 0] s"

definition il_setsockopt :: "'k pre_os \<Rightarrow> preload \<Rightarrow> int \<Rightarrow> int \<Rightarrow> int \<Rightarrow> int \<Rightarrow> int \<Rightarrow> 'k lib \<Rightarrow> int \<times> 'k lib" where
  "il_setsockopt os c fd level optname optval optlen s =
     (let (r, s) = next_call os ''setsockopt'' [Num fd, Num level, Num optname, Num optval, Num optlen] s
      in if r \<noteq> 0 \<and> (lib_errno s = EPERM \<or> lib_errno s = EACCES_P) \<and> level = 1 \<and> (optname = 36 \<or> optname = 25 \<or> optname = 12)
         then (0, set_lib_errno 0 s) else (r, s))"

section \<open>Streams and directories\<close>

text \<open>A handle from a descriptor; the descriptor is closed when the next library returns the null handle.\<close>

definition adopt_fd :: "'k pre_os \<Rightarrow> int \<Rightarrow> int \<times> 'k lib \<Rightarrow> int \<times> 'k lib" where
  "adopt_fd os fd rs =
     (case rs of (h, s) \<Rightarrow> if h \<noteq> 0 then (h, s) else (0, set_lib_errno (lib_errno s) (snd (tramp_raw os 57 [Num fd] s))))"

definition il_opendir :: "'k pre_os \<Rightarrow> preload \<Rightarrow> string option \<Rightarrow> 'k lib \<Rightarrow> int \<times> 'k lib" where
  "il_opendir os c path s =
     (if g_pcgate c then
        let (fd, s) = alr_open_emit os c AT_FDCWD_P path (O_NONBLOCK OR O_DIRECTORY OR O_CLOEXEC) 0 s
        in if fd < 0 then (0, s) else adopt_fd os fd (next_call os ''fdopendir'' [Num fd] s)
      else next_call os ''opendir'' [Path (libc_path c s path)] s)"

definition il_scandir_as :: "string \<Rightarrow> 'k pre_os \<Rightarrow> preload \<Rightarrow> string option \<Rightarrow> int \<Rightarrow> int \<Rightarrow> int \<Rightarrow> 'k lib \<Rightarrow> int \<times> 'k lib" where
  "il_scandir_as name os c path namelist sel order s =
     next_call os name [Path (libc_path c s path), Num namelist, Num sel, Num order] s"

definition il_scandir :: "'k pre_os \<Rightarrow> preload \<Rightarrow> string option \<Rightarrow> int \<Rightarrow> int \<Rightarrow> int \<Rightarrow> 'k lib \<Rightarrow> int \<times> 'k lib" where
  "il_scandir = il_scandir_as ''scandir''"
definition il_scandir64 :: "'k pre_os \<Rightarrow> preload \<Rightarrow> string option \<Rightarrow> int \<Rightarrow> int \<Rightarrow> int \<Rightarrow> 'k lib \<Rightarrow> int \<times> 'k lib" where
  "il_scandir64 = il_scandir_as ''scandir64''"

fun fopen_modifiers :: "string \<Rightarrow> u32 \<Rightarrow> u32 option" where
  "fopen_modifiers [] flags = Some flags"
| "fopen_modifiers (m # ms) flags =
     (if m = CHR ''+'' then fopen_modifiers ms ((flags AND NOT O_WRONLY) OR O_RDWR)
      else if m = CHR ''e'' then fopen_modifiers ms (flags OR O_CLOEXEC)
      else if m = CHR ''x'' then fopen_modifiers ms (flags OR O_EXCL)
      else if m = CHR ''b'' \<or> m = CHR ''m'' \<or> m = CHR ''c'' \<or> m = CHR ''t'' then fopen_modifiers ms flags
      else None)"

definition alr_fopen_flags :: "string option \<Rightarrow> u32 option" where
  "alr_fopen_flags mode =
     (case mode of
        None \<Rightarrow> None
      | Some [] \<Rightarrow> None
      | Some (b # ms) \<Rightarrow>
          if b = CHR ''r'' then fopen_modifiers ms 0
          else if b = CHR ''w'' then fopen_modifiers ms (O_WRONLY OR O_CREAT OR O_TRUNC)
          else if b = CHR ''a'' then fopen_modifiers ms (O_WRONLY OR O_CREAT OR O_APPEND)
          else None)"

text \<open>\<^const>\<open>None\<close> leaves the call to the next library.\<close>

definition alr_fopen_emit ::
  "'k pre_os \<Rightarrow> preload \<Rightarrow> string option \<Rightarrow> string option \<Rightarrow> 'k lib \<Rightarrow> (int \<times> 'k lib) option" where
  "alr_fopen_emit os c path mode s =
     (case alr_fopen_flags mode of
        None \<Rightarrow> None
      | Some flags \<Rightarrow>
          if path = None \<or> \<not> absolute (the path) then None
          else
            let (fd, s) = alr_open_emit os c AT_FDCWD_P path flags (if flags AND O_CREAT \<noteq> 0 then 0x1B6 else 0) s
            in Some (if fd < 0 then (0, s) else adopt_fd os fd (next_call os ''fdopen'' [Num fd, Path mode] s)))"

definition il_fopen_as :: "string \<Rightarrow> 'k pre_os \<Rightarrow> preload \<Rightarrow> string option \<Rightarrow> string option \<Rightarrow> 'k lib \<Rightarrow> int \<times> 'k lib" where
  "il_fopen_as name os c path mode s =
     (case (if g_pcgate c then alr_fopen_emit os c path mode s else None) of
        Some r \<Rightarrow> r
      | None \<Rightarrow> next_call os name [Path (libc_path c s path), Path mode] s)"

definition il_fopen :: "'k pre_os \<Rightarrow> preload \<Rightarrow> string option \<Rightarrow> string option \<Rightarrow> 'k lib \<Rightarrow> int \<times> 'k lib" where
  "il_fopen = il_fopen_as ''fopen''"
definition il_fopen64 :: "'k pre_os \<Rightarrow> preload \<Rightarrow> string option \<Rightarrow> string option \<Rightarrow> 'k lib \<Rightarrow> int \<times> 'k lib" where
  "il_fopen64 = il_fopen_as ''fopen64''"

definition il_freopen_as :: "string \<Rightarrow> 'k pre_os \<Rightarrow> preload \<Rightarrow> string option \<Rightarrow> string option \<Rightarrow> int \<Rightarrow> 'k lib \<Rightarrow> int \<times> 'k lib" where
  "il_freopen_as name os c path mode stream s = next_call os name [Path (at_path c s path), Path mode, Num stream] s"

definition il_freopen :: "'k pre_os \<Rightarrow> preload \<Rightarrow> string option \<Rightarrow> string option \<Rightarrow> int \<Rightarrow> 'k lib \<Rightarrow> int \<times> 'k lib" where
  "il_freopen = il_freopen_as ''freopen''"
definition il_freopen64 :: "'k pre_os \<Rightarrow> preload \<Rightarrow> string option \<Rightarrow> string option \<Rightarrow> int \<Rightarrow> 'k lib \<Rightarrow> int \<times> 'k lib" where
  "il_freopen64 = il_freopen_as ''freopen64''"

section \<open>Operations on one path\<close>

definition alr_mkdir_emit :: "'k pre_os \<Rightarrow> preload \<Rightarrow> int \<Rightarrow> string option \<Rightarrow> int \<Rightarrow> 'k lib \<Rightarrow> int \<times> 'k lib" where
  "alr_mkdir_emit os c dirfd path mode s = tramp os 34 [Num dirfd, Path (at_path c s path), Num mode] s"

definition il_mkdir :: "'k pre_os \<Rightarrow> preload \<Rightarrow> string option \<Rightarrow> int \<Rightarrow> 'k lib \<Rightarrow> int \<times> 'k lib" where
  "il_mkdir os c path mode s =
     (if g_pcgate c then alr_mkdir_emit os c AT_FDCWD_P path mode s else next_call os ''mkdir'' [Path (libc_path c s path), Num mode] s)"

definition il_mkdirat :: "'k pre_os \<Rightarrow> preload \<Rightarrow> int \<Rightarrow> string option \<Rightarrow> int \<Rightarrow> 'k lib \<Rightarrow> int \<times> 'k lib" where
  "il_mkdirat os c dirfd path mode s =
     (if g_pcgate c then alr_mkdir_emit os c dirfd path mode s
      else next_call os ''mkdirat'' [Num dirfd, Path (at_path c s path), Num mode] s)"

definition alr_unlink_emit :: "'k pre_os \<Rightarrow> preload \<Rightarrow> int \<Rightarrow> string option \<Rightarrow> int \<Rightarrow> 'k lib \<Rightarrow> int \<times> 'k lib" where
  "alr_unlink_emit os c dirfd path flags s = tramp os 35 [Num dirfd, Path (at_path c s path), Num flags] s"

definition il_rmdir :: "'k pre_os \<Rightarrow> preload \<Rightarrow> string option \<Rightarrow> 'k lib \<Rightarrow> int \<times> 'k lib" where
  "il_rmdir os c path s =
     (if g_pcgate c then alr_unlink_emit os c AT_FDCWD_P path AT_REMOVEDIR s else next_call os ''rmdir'' [Path (libc_path c s path)] s)"

definition il_unlink :: "'k pre_os \<Rightarrow> preload \<Rightarrow> string option \<Rightarrow> 'k lib \<Rightarrow> int \<times> 'k lib" where
  "il_unlink os c path s =
     (if g_pcgate c then alr_unlink_emit os c AT_FDCWD_P path 0 s else next_call os ''unlink'' [Path (libc_path c s path)] s)"

definition il_unlinkat :: "'k pre_os \<Rightarrow> preload \<Rightarrow> int \<Rightarrow> string option \<Rightarrow> int \<Rightarrow> 'k lib \<Rightarrow> int \<times> 'k lib" where
  "il_unlinkat os c dirfd path flags s =
     (if g_pcgate c then alr_unlink_emit os c dirfd path flags s
      else next_call os ''unlinkat'' [Num dirfd, Path (at_path c s path), Num flags] s)"

definition il_remove :: "'k pre_os \<Rightarrow> preload \<Rightarrow> string option \<Rightarrow> 'k lib \<Rightarrow> int \<times> 'k lib" where
  "il_remove os c path s =
     (if g_pcgate c then
        let (r, s) = alr_unlink_emit os c AT_FDCWD_P path 0 s
        in if r \<noteq> 0 \<and> lib_errno s = EISDIR then alr_unlink_emit os c AT_FDCWD_P path AT_REMOVEDIR s else (r, s)
      else next_call os ''remove'' [Path (libc_path c s path)] s)"

definition il_chdir :: "'k pre_os \<Rightarrow> preload \<Rightarrow> string option \<Rightarrow> 'k lib \<Rightarrow> int \<times> 'k lib" where
  "il_chdir os c path s = next_call os ''chdir'' [Path (libc_path c s path)] s"

definition il_chmod :: "'k pre_os \<Rightarrow> preload \<Rightarrow> string option \<Rightarrow> int \<Rightarrow> 'k lib \<Rightarrow> int \<times> 'k lib" where
  "il_chmod os c path mode s = next_call os ''chmod'' [Path (libc_path c s path), Num mode] s"

definition il_utime :: "'k pre_os \<Rightarrow> preload \<Rightarrow> string option \<Rightarrow> int \<Rightarrow> 'k lib \<Rightarrow> int \<times> 'k lib" where
  "il_utime os c path tms s = next_call os ''utime'' [Path (libc_path c s path), Num tms] s"

definition il_utimes :: "'k pre_os \<Rightarrow> preload \<Rightarrow> string option \<Rightarrow> int \<Rightarrow> 'k lib \<Rightarrow> int \<times> 'k lib" where
  "il_utimes os c path tms s = next_call os ''utimes'' [Path (at_path c s path), Num tms] s"

definition il_lutimes :: "'k pre_os \<Rightarrow> preload \<Rightarrow> string option \<Rightarrow> int \<Rightarrow> 'k lib \<Rightarrow> int \<times> 'k lib" where
  "il_lutimes os c path tms s = next_call os ''lutimes'' [Path (at_path c s path), Num tms] s"

definition il_mknod :: "'k pre_os \<Rightarrow> preload \<Rightarrow> string option \<Rightarrow> int \<Rightarrow> int \<Rightarrow> 'k lib \<Rightarrow> int \<times> 'k lib" where
  "il_mknod os c path mode dev s = next_call os ''mknod'' [Path (libc_path c s path), Num mode, Num dev] s"

definition il_mkfifo :: "'k pre_os \<Rightarrow> preload \<Rightarrow> string option \<Rightarrow> int \<Rightarrow> 'k lib \<Rightarrow> int \<times> 'k lib" where
  "il_mkfifo os c path mode s = next_call os ''mkfifo'' [Path (libc_path c s path), Num mode] s"

definition il_fchmodat :: "'k pre_os \<Rightarrow> preload \<Rightarrow> int \<Rightarrow> string option \<Rightarrow> int \<Rightarrow> int \<Rightarrow> 'k lib \<Rightarrow> int \<times> 'k lib" where
  "il_fchmodat os c dirfd path mode flags s =
     next_call os ''fchmodat'' [Num dirfd, Path (at_path c s path), Num mode, Num flags] s"

definition il_utimensat :: "'k pre_os \<Rightarrow> preload \<Rightarrow> int \<Rightarrow> string option \<Rightarrow> int \<Rightarrow> int \<Rightarrow> 'k lib \<Rightarrow> int \<times> 'k lib" where
  "il_utimensat os c dirfd path tms flags s =
     next_call os ''utimensat'' [Num dirfd, Path (at_path c s path), Num tms, Num flags] s"

definition il_mknodat :: "'k pre_os \<Rightarrow> preload \<Rightarrow> int \<Rightarrow> string option \<Rightarrow> int \<Rightarrow> int \<Rightarrow> 'k lib \<Rightarrow> int \<times> 'k lib" where
  "il_mknodat os c dirfd path mode dev s =
     next_call os ''mknodat'' [Num dirfd, Path (at_path c s path), Num mode, Num dev] s"

definition il_mkfifoat :: "'k pre_os \<Rightarrow> preload \<Rightarrow> int \<Rightarrow> string option \<Rightarrow> int \<Rightarrow> 'k lib \<Rightarrow> int \<times> 'k lib" where
  "il_mkfifoat os c dirfd path mode s =
     next_call os ''mkfifoat'' [Num dirfd, Path (at_path c s path), Num mode] s"

definition il_name_to_handle_at :: "'k pre_os \<Rightarrow> preload \<Rightarrow> int \<Rightarrow> string option \<Rightarrow> int \<Rightarrow> int \<Rightarrow> int \<Rightarrow> 'k lib \<Rightarrow> int \<times> 'k lib" where
  "il_name_to_handle_at os c dirfd path hnd mount_id flags s =
     next_call os ''name_to_handle_at'' [Num dirfd, Path (at_path c s path), Num hnd, Num mount_id, Num flags] s"

section \<open>Operations on two paths\<close>

definition il_rename :: "'k pre_os \<Rightarrow> preload \<Rightarrow> string option \<Rightarrow> string option \<Rightarrow> 'k lib \<Rightarrow> int \<times> 'k lib" where
  "il_rename os c oldp newp s = next_call os ''rename'' [Path (libc_path c s oldp), Path (libc_path c s newp)] s"

definition il_renameat :: "'k pre_os \<Rightarrow> preload \<Rightarrow> int \<Rightarrow> string option \<Rightarrow> int \<Rightarrow> string option \<Rightarrow> 'k lib \<Rightarrow> int \<times> 'k lib" where
  "il_renameat os c oldfd oldp newfd newp s =
     next_call os ''renameat'' [Num oldfd, Path (at_path c s oldp), Num newfd, Path (at_path c s newp)] s"

definition il_renameat2 :: "'k pre_os \<Rightarrow> preload \<Rightarrow> int \<Rightarrow> string option \<Rightarrow> int \<Rightarrow> string option \<Rightarrow> int \<Rightarrow> 'k lib \<Rightarrow> int \<times> 'k lib" where
  "il_renameat2 os c oldfd oldp newfd newp flags s =
     next_call os ''renameat2'' [Num oldfd, Path (at_path c s oldp), Num newfd, Path (at_path c s newp), Num flags] s"

text \<open>A link that the file system refuses is retried as a rename.\<close>

definition link_or_rename :: "'k pre_os \<Rightarrow> bool \<Rightarrow> issue \<Rightarrow> issue \<Rightarrow> 'k lib \<Rightarrow> int \<times> 'k lib" where
  "link_or_rename os allowed lnk ren s =
     (let (a, s) = do_issue os lnk s
      in if an_ret a = 0 then (0, s)
         else if (lib_errno s = EPERM \<or> lib_errno s = EACCES_P) \<and> allowed then
           let saved = lib_errno s; (b, s) = do_issue os ren s
           in if an_ret b = 0 then (0, s) else (an_ret a, set_lib_errno saved s)
         else (an_ret a, s))"

definition alr_link_emit :: "'k pre_os \<Rightarrow> string option \<Rightarrow> string option \<Rightarrow> 'k lib \<Rightarrow> int \<times> 'k lib" where
  "alr_link_emit os o_rw n_rw s = link_or_rename os True (Real ''link'' [Path o_rw, Path n_rw]) (Real ''rename'' [Path o_rw, Path n_rw]) s"

definition il_link :: "'k pre_os \<Rightarrow> preload \<Rightarrow> string option \<Rightarrow> string option \<Rightarrow> 'k lib \<Rightarrow> int \<times> 'k lib" where
  "il_link os c oldp newp s = alr_link_emit os (libc_path c s oldp) (libc_path c s newp) s"

definition il_linkat :: "'k pre_os \<Rightarrow> preload \<Rightarrow> int \<Rightarrow> string option \<Rightarrow> int \<Rightarrow> string option \<Rightarrow> int \<Rightarrow> 'k lib \<Rightarrow> int \<times> 'k lib" where
  "il_linkat os c oldfd oldp newfd newp flags s =
     link_or_rename os (oldfd = AT_FDCWD_P \<and> newfd = AT_FDCWD_P)
       (Real ''linkat'' [Num oldfd, Path (at_path c s oldp), Num newfd, Path (at_path c s newp), Num flags])
       (Real ''renameat'' [Num AT_FDCWD_P, Path (at_path c s oldp), Num AT_FDCWD_P, Path (at_path c s newp)]) s"

definition il_symlink :: "'k pre_os \<Rightarrow> preload \<Rightarrow> string option \<Rightarrow> string option \<Rightarrow> 'k lib \<Rightarrow> int \<times> 'k lib" where
  "il_symlink os c target linkpath s = next_call os ''symlink'' [Path target, Path (libc_path c s linkpath)] s"

definition il_symlinkat :: "'k pre_os \<Rightarrow> preload \<Rightarrow> string option \<Rightarrow> int \<Rightarrow> string option \<Rightarrow> 'k lib \<Rightarrow> int \<times> 'k lib" where
  "il_symlinkat os c target newfd linkpath s =
     next_call os ''symlinkat'' [Path target, Num newfd, Path (at_path c s linkpath)] s"

section \<open>Libraries, credentials and canonical paths\<close>

definition alr_basename_is :: "string option \<Rightarrow> string \<Rightarrow> bool" where
  "alr_basename_is path want = (case path of None \<Rightarrow> False | Some p \<Rightarrow> last (split_on slash p) = want)"

definition vulkan_loader :: string where "vulkan_loader = ''/usr/lib/androlinux/libvulkan.so.1''"

definition il_dlopen :: "'k pre_os \<Rightarrow> preload \<Rightarrow> string option \<Rightarrow> int \<Rightarrow> 'k lib \<Rightarrow> int \<times> 'k lib" where
  "il_dlopen os c filename flag s =
     (let root = take (g_rootfs_len c) (g_rootfs c); loader = root @ vulkan_loader;
          (h, s) =
            (if filename \<noteq> None \<and> slash \<notin> set (the filename) \<and> g_rootfs_len c \<noteq> 0 \<and>
                (alr_basename_is filename ''libvulkan.so.1'' \<or> alr_basename_is filename ''libvulkan.so'') \<and>
                g_rootfs_len c + length vulkan_loader + 1 \<le> PRELOAD_PBUF then
               let (r, s) = next_call os ''faccessat'' [Num AT_FDCWD_P, Path (Some loader), Num 0, Num 0] s
               in if r = 0 then next_call os ''dlopen'' [Path (Some loader), Num flag] s else (0, s)
             else (0, s))
      in if h \<noteq> 0 then (h, s) else next_call os ''dlopen'' [Path filename, Num flag] s)"

definition ALR_ID_UNSET :: u32 where "ALR_ID_UNSET = - 1"

definition alr_cached_id :: "'k pre_os \<Rightarrow> nat \<Rightarrow> 'k lib \<Rightarrow> u32 \<times> 'k lib" where
  "alr_cached_id os nr s =
     (if lb_ids s nr \<noteq> ALR_ID_UNSET then (lb_ids s nr, s)
      else let (r, s) = tramp_raw os nr [] s in (word_of_int r, s\<lparr>lb_ids := (lb_ids s)(nr := word_of_int r)\<rparr>))"

definition il_getid :: "nat \<Rightarrow> string \<Rightarrow> 'k pre_os \<Rightarrow> preload \<Rightarrow> 'k lib \<Rightarrow> u32 \<times> 'k lib" where
  "il_getid nr name os c s =
     (if g_pcgate c then alr_cached_id os nr s else (let (r, s) = next_call os name [] s in (word_of_int r, s)))"

definition il_getuid :: "'k pre_os \<Rightarrow> preload \<Rightarrow> 'k lib \<Rightarrow> u32 \<times> 'k lib" where
  "il_getuid = il_getid 174 ''getuid''"
definition il_geteuid :: "'k pre_os \<Rightarrow> preload \<Rightarrow> 'k lib \<Rightarrow> u32 \<times> 'k lib" where
  "il_geteuid = il_getid 175 ''geteuid''"
definition il_getgid :: "'k pre_os \<Rightarrow> preload \<Rightarrow> 'k lib \<Rightarrow> u32 \<times> 'k lib" where
  "il_getgid = il_getid 176 ''getgid''"
definition il_getegid :: "'k pre_os \<Rightarrow> preload \<Rightarrow> 'k lib \<Rightarrow> u32 \<times> 'k lib" where
  "il_getegid = il_getid 177 ''getegid''"

text \<open>The resolved string, \<^const>\<open>None\<close> for failure.  The rewrite is suspended while the next library resolves.\<close>

definition resolve_with ::
  "string \<Rightarrow> call_arg list \<Rightarrow> 'k pre_os \<Rightarrow> preload \<Rightarrow> string option \<Rightarrow> 'k lib \<Rightarrow> string option \<times> 'k lib" where
  "resolve_with name rest os c path s =
     (let (a, s') = do_issue os (Real name (Path (libc_path c s path) # rest)) (s\<lparr>lb_suppress := lb_suppress s + 1\<rparr>)
      in (map_option (guest_canon c) (an_text a), s'\<lparr>lb_suppress := lb_suppress s' - 1\<rparr>))"

definition il_realpath :: "'k pre_os \<Rightarrow> preload \<Rightarrow> string option \<Rightarrow> int \<Rightarrow> 'k lib \<Rightarrow> string option \<times> 'k lib" where
  "il_realpath os c path resolved = resolve_with ''realpath'' [Num resolved] os c path"
definition il_canonicalize_file_name :: "'k pre_os \<Rightarrow> preload \<Rightarrow> string option \<Rightarrow> 'k lib \<Rightarrow> string option \<times> 'k lib" where
  "il_canonicalize_file_name os c path = resolve_with ''canonicalize_file_name'' [] os c path"
definition il_realpath_chk :: "'k pre_os \<Rightarrow> preload \<Rightarrow> string option \<Rightarrow> int \<Rightarrow> int \<Rightarrow> 'k lib \<Rightarrow> string option \<times> 'k lib" where
  "il_realpath_chk os c path resolved len = resolve_with ''__realpath_chk'' [Num resolved, Num len] os c path"


section \<open>Confinement of an open\<close>

lemma dev_path: "a_under (''/dev'' @ slash # r) ''/dev''"
  by (simp add: a_under_def)

text \<open>A path outside \<^verbatim>\<open>/dev\<close> is not a terminal device.\<close>

lemma not_a_device:
  assumes "\<not> kernel_fs p"
  shows "alr_pts_try_open os (Some p) flags s = (None, s)"
proof -
  have d: "\<not> a_under p ''/dev''" using assms by (simp add: kernel_fs_def)
  then have "p \<noteq> ''/dev/ptmx'' \<and> p \<noteq> ''/dev/pts/ptmx'' \<and> p \<noteq> ''/dev/tty''" by (auto simp: a_under_def)
  then have "\<not> alr_pts_is_ptmx_path (Some p)" "\<not> alr_pts_is_tty_path (Some p)"
    by (simp_all add: alr_pts_is_ptmx_path_def alr_pts_is_tty_path_def)
  moreover have "take (length pts_prefix) p \<noteq> pts_prefix"
  proof
    assume "take (length pts_prefix) p = pts_prefix"
    then have "p = pts_prefix @ drop (length pts_prefix) p" by (metis append_take_drop_id)
    then have "p = ''/dev'' @ slash # ''pts/'' @ drop (length pts_prefix) p" by (simp add: pts_prefix_def)
    with d show False using dev_path by metis
  qed
  then have "alr_pts_parse_slave_path (Some p) = - 1" by (simp add: alr_pts_parse_slave_path_def)
  ultimately show ?thesis by (simp add: alr_pts_try_open_def Let_def)
qed

lemma lib_same: "s\<lparr>lb_proc := lb_proc s\<rparr> = s"
  by simp

definition anchored_open :: "'k pre_os \<Rightarrow> preload \<Rightarrow> string \<Rightarrow> u32 \<Rightarrow> u32 \<Rightarrow> 'k lib \<Rightarrow> int \<times> 'k lib" where
  "anchored_open os c rel flags mode s =
     tramp os 437 [Num (g_rootfs_fd c), Path (Some rel), Num (uint flags), Num (uint mode), Num RESOLVE_IN_ROOT] s"

lemma open_emit_anchored:
  assumes "g_openat2_ok c" "0 \<le> g_rootfs_fd c" "absolute p" "\<not> kernel_fs p" "\<not> already_host c p"
  shows "alr_open_emit os c dirfd (Some p) flags mode s =
    anchored_open os c (anchored_rel p) flags (if needs_mode flags then mode else 0) s"
  using assms by (simp add: alr_open_emit_def not_a_device anchored_open_def)

lemma va_mode_kept: "(if needs_mode flags then alr_va_mode flags va else 0) = alr_va_mode flags va"
  by (simp add: alr_va_mode_def)


text \<open>An instance: a kernel that answers every call with the number of calls so far.\<close>

definition counting_lib_os :: "int pre_os" where
  "counting_lib_os = \<lparr>po_pts = counting_os, po_issue = (\<lambda>_ n. (\<lparr>an_ret = n, an_errno = None, an_text = None\<rparr>, n + 1)), po_traps = (\<lambda>_ _. False)\<rparr>"

definition fresh_lib :: "int lib" where
  "fresh_lib = \<lparr>lb_proc = exec_child (\<lambda>_. None) 3, lb_suppress = 0, lb_ids = (\<lambda>_. ALR_ID_UNSET)\<rparr>"

definition anchored_preload :: preload where
  "anchored_preload = sample_preload\<lparr>g_openat2_ok := True, g_rootfs_fd := 5\<rparr>"


text \<open>
  Calls other than open have no anchor.  With the gate on, the rewritten path of a status call is issued from the trampoline, where the
  filter allows it, so a dot-dot component that climbs above the root is resolved by the kernel on the host.
\<close>

lemma status_call_escapes:
  "il_stat os sample_preload (Some ''/../../secret'') buf (fresh_lib\<lparr>lb_proc := p\<rparr>) =
     tramp os 79 [Num AT_FDCWD_P, Path (Some ''/data/user/0/app/rootfs/../../secret''), Num buf, Num 0] (fresh_lib\<lparr>lb_proc := p\<rparr>)"
  "lo \<le> ip \<Longrightarrow> ip < hi \<Longrightarrow>
     \<exists>n. bpf_run \<lparr>sd_nr = 79, sd_arch = AUDIT_ARCH_AARCH64, sd_ip = ip\<rparr> (pcgated_filter lo hi) 0 = Some (RET_ALLOW, n)"
proof -
  have "absolute ''/../../secret''" by (simp add: absolute_def)
  then show "il_stat os sample_preload (Some ''/../../secret'') buf (fresh_lib\<lparr>lb_proc := p\<rparr>) =
     tramp os 79 [Num AT_FDCWD_P, Path (Some ''/data/user/0/app/rootfs/../../secret''), Num buf, Num 0] (fresh_lib\<lparr>lb_proc := p\<rparr>)"
    using rewrite_keeps_dotdot(1)
    by (simp add: il_stat_def il_stat_as_def alr_stat_emit_def at_path_def libc_path_def sample_preload_shape fresh_lib_def)
  show "\<exists>n. bpf_run \<lparr>sd_nr = 79, sd_arch = AUDIT_ARCH_AARCH64, sd_ip = ip\<rparr> (pcgated_filter lo hi) 0 = Some (RET_ALLOW, n)"
    if "lo \<le> ip" "ip < hi"
    using filter_decision [of "\<lparr>sd_nr = 79, sd_arch = AUDIT_ARCH_AARCH64, sd_ip = ip\<rparr>" lo hi 0] that by (simp add: gate_decision_def)
qed

text \<open>The test for a mode also holds for a plain directory open, which passes none: the caller's register is taken for the mode.\<close>

lemma directory_open_takes_mode: "alr_va_mode O_DIRECTORY va = va" "O_DIRECTORY AND O_CREAT = 0"
  by (simp_all add: alr_va_mode_def needs_mode_def O_DIRECTORY_def O_CREAT_def O_TMPFILE_def)

section \<open>Canonical paths\<close>


definition resolving_os :: "int pre_os" where
  "resolving_os = counting_lib_os\<lparr>po_issue := (\<lambda>_ n. (\<lparr>an_ret = 1, an_errno = None, an_text = Some ''/data/user/0/app/rootfs/tmp/key''\<rparr>, n + 1))\<rparr>"


section \<open>Start-up\<close>

lemma open_rootfs_fd_keeps:
  "alr_open_rootfs_fd os c s = (c', s') \<Longrightarrow> g_rootfs_fd c < 0 \<Longrightarrow> \<not> g_openat2_ok c \<Longrightarrow>
   g_pcgate c' = g_pcgate c \<and> g_rootfs c' = g_rootfs c \<and> g_rootfs_len c' = g_rootfs_len c \<and> g_rootfs_canon c' = g_rootfs_canon c \<and>
   (g_openat2_ok c' \<longrightarrow> 0 \<le> g_rootfs_fd c' \<and> \<not> (\<forall>k. po_traps os (alr_probe_openat2_body c') k))"
  by (auto simp: alr_open_rootfs_fd_def alr_probe_guarded_def alr_probe_openat2_body_def ENOSYS_def Let_def split: prod.splits if_splits)

lemma probe_faccessat2_keeps:
  "alr_probe_faccessat2 os c s = (c', s') \<Longrightarrow> c' = c\<lparr>g_faccessat2_ok := g_faccessat2_ok c'\<rparr>"
  by (auto simp: alr_probe_faccessat2_def split: prod.splits)

lemma wf_preload_cong:
  "g_rootfs c' = g_rootfs c \<Longrightarrow> g_rootfs_len c' = g_rootfs_len c \<Longrightarrow> g_rootfs_canon c' = g_rootfs_canon c \<Longrightarrow>
   wf_preload c' = wf_preload c"
  by (simp add: wf_preload_def)

text \<open>The constructor leaves a well-formed configuration, uses the resolving open only with an anchor, and installs the filter exactly when
  the gate is on and the trampoline is not empty.\<close>

lemma ctor_result:
  assumes "alr_ctor os lo hi s = (c, f, s')"
  shows "wf_preload c \<and> (g_openat2_ok c \<longrightarrow> 0 \<le> g_rootfs_fd c) \<and> f = (if g_pcgate c \<and> lo < hi then Some (pcgated_filter lo hi) else None)"
proof -
  let ?c0 = "ctor_config (environ (lb_proc s))" and ?s0 = "ctor_session s"
  have c0: "wf_preload ?c0" "g_rootfs_fd ?c0 < 0" "\<not> g_openat2_ok ?c0"
    using alr_init_wf [of "environ (lb_proc s)"] by (simp_all add: ctor_config_def wf_preload_def alr_init_def Let_def)
  obtain c1 s1 where 1: "(if 0 < g_rootfs_len ?c0 then alr_open_rootfs_fd os ?c0 ?s0 else (?c0, ?s0)) = (c1, s1)" by fastforce
  obtain c2 s2 where 2: "alr_probe_faccessat2 os c1 s1 = (c2, s2)" by fastforce
  have "wf_preload c1 \<and> (g_openat2_ok c1 \<longrightarrow> 0 \<le> g_rootfs_fd c1)"
    using 1 c0 open_rootfs_fd_keeps [of os ?c0 ?s0 c1 s1] wf_preload_cong [of c1 ?c0] by (auto split: if_splits)
  moreover have "c2 = c1\<lparr>g_faccessat2_ok := g_faccessat2_ok c2\<rparr>" using probe_faccessat2_keeps [OF 2] .
  then have "wf_preload c2 = wf_preload c1" "g_openat2_ok c2 = g_openat2_ok c1" "g_rootfs_fd c2 = g_rootfs_fd c1"
    by (cases c1, cases c2, simp add: wf_preload_def)+
  moreover have "c = c2" "f = (if g_pcgate c2 \<and> lo < hi then Some (pcgated_filter lo hi) else None)"
    using assms 1 2 by (auto simp: alr_ctor_def Let_def)
  ultimately show ?thesis by simp
qed

end
