(* ===== verification/Spec2Isabelle.thy ===== *)
theory Spec2Isabelle
  imports Runtime_Plan Alr_Interposer Alr_Wx Gpu_Executor Alr_Exec_Rule Alr_Elf_Reader Doh_Resolver Fakeroot Pulse_Server Preload_Calls
begin

text \<open>
  Verification of the ALR runtime: running Linux programs from a root file system inside an Android application.

  \<^bold>\<open>The program.\<close>  The application plans a guest process (configuration, environment, executable, ELF image), starts it
  through a packaged trampoline, and mediates what it sees of the file system.  Guest programs then run with preloaded
  libraries that rewrite paths, answer name queries over HTTPS and pretend root privileges, draw through a GLES library that
  writes commands into a shared ring, and play sound through a PulseAudio server in the application.  All file names below are
  under \<^verbatim>\<open>src/\<close>; \<^verbatim>\<open>cpp/\<close> abbreviates \<^verbatim>\<open>app/src/main/cpp/\<close>.

  \<^bold>\<open>Theories and sources.\<close>

  \<^item> \<^verbatim>\<open>Alr_Prelude\<close>, \<^verbatim>\<open>Alr_Words\<close>: exceptions as sums, string views, the ordered string map with its interface
    \<open>string_map\<close>, number printers; machine integers, masks and rings as windows of a list.
  \<^item> \<^verbatim>\<open>Guest_Path_Spec\<close>: the abstract meaning of a guest path (a stack of components), and the interface
    \<open>guest_normalizer\<close> that \<^verbatim>\<open>Alr_Path_Rule\<close> (\<^verbatim>\<open>runtime/alr/src/common/alr_path_rule.h\<close>) and \<^verbatim>\<open>Alr_Path\<close>
    (\<^verbatim>\<open>cpp/alr_runtime/alr_path.cpp\<close>) both implement.  Shown: the two rules agree, no path leaves the root, no buffer is
    overrun, rewriting can be undone.
  \<^item> \<^verbatim>\<open>Alr_Config\<close> (\<^verbatim>\<open>alr_config.cpp\<close>): the configuration record, its validation, its text form and checksum.  Shown: the
    round trip, the invariant of every parsed configuration, detection of each single-byte change.
  \<^item> \<^verbatim>\<open>Posix_Host\<close>, \<^verbatim>\<open>Alr_Env\<close>, \<^verbatim>\<open>Alr_Exec\<close>, \<^verbatim>\<open>Alr_Mediation\<close>, \<^verbatim>\<open>Alr_Runtime_Trampoline\<close>: the kernel as a record of
    calls; the guest environment, resolution and classification of executables, the exec-time decisions of the supervisor
    (\<^verbatim>\<open>alr_exec.cpp\<close>, parts of \<^verbatim>\<open>runtime_report.cpp\<close>) and the trampoline program.  Shown: the first existing candidate is
    chosen and stays inside the root; the rebuilt environment; the decision follows the path rule; the trampoline accepts
    whatever the planner writes.
  \<^item> \<^verbatim>\<open>Alr_Elf\<close> (\<^verbatim>\<open>alr_elf.cpp\<close>), \<^verbatim>\<open>Alr_Elf_Reader\<close> and \<^verbatim>\<open>Alr_Exec_Rule\<close> (\<^verbatim>\<open>runtime/alr/src/common/alr_elf.c\<close>,
    \<^verbatim>\<open>alr_exec_rule.c\<close>): load plans, classification, run paths, notes, interpreter lines, \<^verbatim>\<open>LD_PRELOAD\<close>.  Shown: a plan is
    valid exactly for well-formed images and does not depend on how reads are split; the readers agree with references.
  \<^item> \<^verbatim>\<open>Alr_Procfs\<close>, \<^verbatim>\<open>Alr_Hook\<close>, \<^verbatim>\<open>Alr_Interposer\<close>, \<^verbatim>\<open>Alr_Wx\<close> (files of the same names): synthesized procfs views,
    containment of interposed accesses, the strategy under write-xor-execute.
  \<^item> \<^verbatim>\<open>Alr_Launch\<close>, \<^verbatim>\<open>Runtime_Plan\<close> (\<^verbatim>\<open>alr_trampoline.cpp\<close>, \<^verbatim>\<open>alr_launch.cpp\<close>, \<^verbatim>\<open>runtime_plan.cpp\<close>): launch attempts and
    reports.  Shown: what is started, that nothing is left open, that a report starts nothing.
  \<^item> \<^verbatim>\<open>Gpu_Ring\<close>, \<^verbatim>\<open>Gpu_Ring_Spsc\<close> (\<^verbatim>\<open>cpp/alr_gpu/alr_gpu_ring.hpp\<close>, \<^verbatim>\<open>guest_shim/alr_gpu_ring_c.h\<close>): the shared ring with the
    interface \<open>byte_queue\<close>, interpreted for both producers, and the interleaving of one producer with one consumer.
  \<^item> \<^verbatim>\<open>Gles_Wire\<close>, \<^verbatim>\<open>Gles_Decode\<close>, \<^verbatim>\<open>Gles_Builders\<close>, \<^verbatim>\<open>Gles_Shim\<close>, \<^verbatim>\<open>Gpu_Executor\<close> (\<^verbatim>\<open>alr_gpu_decode.hpp\<close>,
    \<^verbatim>\<open>guest_shim/alr_gles_shim.c\<close>, \<^verbatim>\<open>alr_shim_runtime.c\<close>, \<^verbatim>\<open>alr_gpu_host_service.hpp\<close>): the wire format from the guest's entry
    points to the host's GL calls.  Shown: every message the shim builds is replayed in order, truncated input fails safely, the
    consumer thread answers every flush.
  \<^item> \<^verbatim>\<open>Doh_Wire\<close>, \<^verbatim>\<open>Doh_Resolver\<close> (\<^verbatim>\<open>cpp/alr_doh/\<close>): the query encoder, base-64, the response parser and \<^verbatim>\<open>getaddrinfo\<close>.
  \<^item> \<^verbatim>\<open>Fakeroot_Db\<close>, \<^verbatim>\<open>Fakeroot\<close> (\<^verbatim>\<open>cpp/alr_fakeroot/\<close>): the shared hash table with the interface \<open>metadata_store\<close> and the
    libc wrappers over it.
  \<^item> \<^verbatim>\<open>Pulse_Proto\<close>, \<^verbatim>\<open>Pulse_Stream\<close>, \<^verbatim>\<open>Pulse_Server\<close> (\<^verbatim>\<open>cpp/alr_audio/\<close>): tagged values; one playback stream with its
    decoding, resampling and ring; the command handlers, frame reassembly, the mixing callback, the event loop, start and stop.
    Shown: values read back, a ring is a queue that drops its oldest frame, the callback plays the clipped sum, reads may be split
    anywhere, and the server stays in order under arbitrary client bytes with callbacks in between.

  \<^item> \<^verbatim>\<open>Preload_Gate\<close>, \<^verbatim>\<open>Preload_Rewrite\<close>, \<^verbatim>\<open>Preload_Calls\<close>, \<^verbatim>\<open>Alr_Pts\<close>, \<^verbatim>\<open>Alr_Pts_Table\<close>
    (\<^verbatim>\<open>cpp/alr_interpose/\<close>): the preloaded library.  Its seccomp program with the machine that runs it; the path rewrite and its
    inverse with the interface \<open>guest_view\<close>; the constructor and every replaced call, as the system calls and library calls it issues;
    the requests of a virtual terminal and the table of terminals.  Shown: the program takes the documented decision for every call,
    an open cannot leave the root, canonical paths keep the guest's view, settings are read back byte for byte, and a program started in
    a terminal reaches the other end of the same pair.

  \<^bold>\<open>State and effects.\<close>  Classes and structures are records; handlers take and return them.  Exceptions are the left side
  of a sum, early returns are branches, reading behind the end of a buffer is the outcome \<^const>\<open>None\<close>.  Integers keep their
  width where the code depends on it.  Code outside the repository is a parameter: the kernel and libc (\<open>posix\<close>,
  \<open>child_io\<close>, \<open>libc\<close>), the GL library (\<open>gl_api\<close>), the surface (\<open>presenter\<close>), the other side of the ring
  (\<open>ring_host\<close>), what answers the calls of the preloaded library (\<open>pre_os\<close>, \<open>pts_os\<close>), the TLS library and the next resolver, and floating point (\<open>fp\<close>); what the code relies on is a named
  hypothesis, and each has an instance in a witness.

  \<^bold>\<open>Loops.\<close>  Loops over data are structural or have a measure (the bytes that are left, the jumps of a compressed name,
  the spin bound of a flush).  Loops that may run for ever are \<^theory_text>\<open>partial_function (option)\<close>: \<open>read_exact\<close>,
  \<open>read_all_from_fd\<close> and \<open>wait_child\<close> return because the kernel interrupts a call finitely often; \<open>resample_loop\<close> returns
  because a positive step passes every bound; for \<open>note_loop\<close> and \<open>round_up_from\<close> the inputs on which they never return
  are characterised.  No loop is cut off by fuel.

  \<^bold>\<open>Not modelled.\<close>  The ptrace and seccomp supervisor, the re-entry code and the in-process re-exec work on registers and raw
  system calls.  The Wayland compositor, the EGL set-up, the device probes and the Vulkan path are calls into platform libraries
  around state that is theirs.  Of the preloaded library, the diagnostic lines and the read-only scan for system-call instructions
  only print; the preload library and the command line of the standalone runtime repeat the path rule around one call each.  The Android application is written in Kotlin.  Tests, generators and vendored libraries are left aside.
\<close>

end
